(* ===== verification/Hoth_Prelude.thy ===== *)
theory Hoth_Prelude
  imports Main "HOL-Library.Word"
begin

text \<open>
  The prelude of the libhoth development: the fixed-width integer types of the C code,
  little-endian encoding of integers (every target of libhoth is little-endian, and the wire
  format is), the result type of the fallible operations, the splitting of a buffer into
  bounded pieces that most protocol loops perform, and the runner for a list of requests that
  the refinement lemmas use as their abstract side.
\<close>

unbundle bit_operations_syntax

section \<open>Types\<close>

type_synonym u8 = "8 word"
type_synonym u16 = "16 word"
type_synonym u32 = "32 word"
type_synonym u64 = "64 word"
type_synonym bytes = "u8 list"

type_synonym libhoth_error = u64

text \<open>
  A fallible operation reads and writes a state \<open>'s\<close> (the device's \<open>user_ctx\<close> and whatever
  is behind it) and yields either \<open>Inl\<close> of a non-zero error code or \<open>Inr\<close> of its outputs.
\<close>

type_synonym ('a, 's) hoth_result = "(libhoth_error + 'a) \<times> 's"

named_theorems hoth_defs \<open>definitions of protocol operations, unfolded in component proofs\<close>
named_theorems hoth_len \<open>lengths of encoded requests\<close>

section \<open>Little-endian integers\<close>

lemma unat_bound: "unat (w :: 'a::len word) < 2 ^ LENGTH('a)"
  by (rule unsigned_less)

primrec le_bytes :: "nat \<Rightarrow> 'a::len word \<Rightarrow> bytes" where
  "le_bytes 0 w = []"
| "le_bytes (Suc n) w = ucast w # le_bytes n (drop_bit 8 w)"

primrec le_nat :: "bytes \<Rightarrow> nat" where
  "le_nat [] = 0"
| "le_nat (b # bs) = unat b + 256 * le_nat bs"

definition le_word :: "bytes \<Rightarrow> 'a::len word" where
  "le_word bs = of_nat (le_nat bs)"

lemma length_le_bytes [simp, hoth_len]: "length (le_bytes n w) = n"
  by (induction n arbitrary: w) auto

lemma le_nat_bound: "le_nat bs < 256 ^ length bs"
proof (induction bs)
  case Nil
  then show ?case by simp
next
  case (Cons b bs)
  have "unat b < 256" using unsigned_less [of b] by simp
  moreover have "le_nat bs + 1 \<le> 256 ^ length bs" using Cons.IH by simp
  then have "256 * le_nat bs + 256 \<le> 256 * 256 ^ length bs" by linarith
  ultimately show ?case by simp
qed

lemma le_nat_append: "le_nat (xs @ ys) = le_nat xs + 256 ^ length xs * le_nat ys"
  by (induction xs) (auto simp: algebra_simps)

lemma unat_drop_bit_8: "unat (drop_bit 8 (w :: 'a::len word)) = unat w div 256"
  by (subst unat_drop_bit_eq) (simp only: drop_bit_eq_div, simp)

lemma le_nat_le_bytes: "le_nat (le_bytes n w) = unat w mod 256 ^ n"
proof (induction n arbitrary: w)
  case 0
  then show ?case by simp
next
  case (Suc n)
  have "unat (ucast w :: u8) = unat w mod 256"
    by (simp add: unsigned_ucast_eq take_bit_eq_mod)
  moreover have "unat (drop_bit 8 w) = unat w div 256"
    by (rule unat_drop_bit_8)
  ultimately show ?case
    by (simp add: Suc.IH mod_mult2_eq)
qed

lemma le_word_le_bytes [simp]:
  fixes w :: "'a::len word"
  assumes "LENGTH('a) \<le> 8 * n"
  shows "le_word (le_bytes n w) = w"
proof -
  have "unat w < 2 ^ LENGTH('a)" by (rule unsigned_less)
  also have "\<dots> \<le> 2 ^ (8 * n)" using assms by simp
  also have "\<dots> = 256 ^ n" by (simp add: power_mult)
  finally show ?thesis by (simp add: le_word_def le_nat_le_bytes)
qed

lemma unat_le_word:
  assumes "8 * length bs \<le> LENGTH('a::len)"
  shows "unat (le_word bs :: 'a word) = le_nat bs"
proof -
  have "le_nat bs < 256 ^ length bs" by (rule le_nat_bound)
  also have "(256::nat) ^ length bs = 2 ^ (8 * length bs)" by (simp add: power_mult)
  also have "\<dots> \<le> 2 ^ LENGTH('a)" using assms by simp
  finally show ?thesis by (simp add: le_word_def unat_of_nat)
qed

lemma le_bytes_le_word:
  "length bs = n \<Longrightarrow> 8 * n \<le> LENGTH('a::len) \<Longrightarrow> le_bytes n (le_word bs :: 'a word) = bs"
proof (induction bs arbitrary: n)
  case Nil
  then show ?case by simp
next
  case (Cons b bs)
  then obtain m where n: "n = Suc m" "length bs = m" by auto
  have W: "unat (le_word (b # bs) :: 'a word) = unat b + 256 * le_nat bs"
    using Cons.prems by (subst unat_le_word) auto
  have b: "unat b < 256" using unsigned_less [of b] by simp
  have "unat (ucast (le_word (b # bs) :: 'a word) :: u8) = unat b"
    using W b by (simp add: unsigned_ucast_eq take_bit_eq_mod)
  then have 1: "ucast (le_word (b # bs) :: 'a word) = b"
    by (simp add: word_unat_eq_iff)
  have "unat (drop_bit 8 (le_word (b # bs) :: 'a word)) = le_nat bs"
    using W b by (simp only: unat_drop_bit_8)
  also have "\<dots> = unat (le_word bs :: 'a word)"
    using Cons.prems n by (subst unat_le_word) auto
  finally have 2: "drop_bit 8 (le_word (b # bs) :: 'a word) = le_word bs"
    by (simp add: word_unat_eq_iff)
  show ?case using 1 2 Cons.IH [of m] Cons.prems n by simp
qed

section \<open>Buffers\<close>

text \<open>Writing \<open>xs\<close> over the buffer \<open>buf\<close> from index \<open>off\<close> on, as \<open>memcpy\<close> does.\<close>

definition memcpy_at :: "nat \<Rightarrow> 'a list \<Rightarrow> 'a list \<Rightarrow> 'a list" where
  "memcpy_at off xs buf = take off buf @ xs @ drop (off + length xs) buf"

lemma length_memcpy_at [simp]:
  "off + length xs \<le> length buf \<Longrightarrow> length (memcpy_at off xs buf) = length buf"
  by (simp add: memcpy_at_def)

lemma memcpy_at_inside:
  "off + length xs \<le> length buf \<Longrightarrow> take (length xs) (drop off (memcpy_at off xs buf)) = xs"
  by (simp add: memcpy_at_def)

lemma take_memcpy_at [simp]:
  "n \<le> off \<Longrightarrow> off \<le> length buf \<Longrightarrow> take n (memcpy_at off xs buf) = take n buf"
  by (simp add: memcpy_at_def min_absorb1)

lemma nth_memcpy_at:
  assumes "off + length xs \<le> length buf" "i < length buf"
  shows "memcpy_at off xs buf ! i =
    (if off \<le> i \<and> i < off + length xs then xs ! (i - off) else buf ! i)"
  using assms by (auto simp: memcpy_at_def nth_append min_def)

lemma memcpy_at_append:
  assumes "off + length xs \<le> length m"
  shows "memcpy_at (off + length xs) ys (memcpy_at off xs m) = memcpy_at off (xs @ ys) m"
  using assms by (simp add: memcpy_at_def min_absorb1 add.assoc add.commute [of "length ys"])

text \<open>\<open>byte_range off n buf\<close> is the slice a read of \<open>n\<close> bytes at \<open>off\<close> sees.\<close>

definition byte_range :: "nat \<Rightarrow> nat \<Rightarrow> 'a list \<Rightarrow> 'a list" where
  "byte_range off n buf = take n (drop off buf)"

lemma length_byte_range [simp]: "off + n \<le> length buf \<Longrightarrow> length (byte_range off n buf) = n"
  by (simp add: byte_range_def)

lemma byte_range_append_next:
  "byte_range off n buf @ byte_range (off + n) m buf = byte_range off (n + m) buf"
  by (simp add: byte_range_def take_add add.commute [of off])

lemma byte_range_join:
  "off' = off + n \<Longrightarrow> k = n + m \<Longrightarrow>
    byte_range off n buf @ byte_range off' m buf = byte_range off k buf"
  by (simp add: byte_range_append_next)

lemma sum_list_take_drop: "sum_list xs = sum_list (take n xs) + sum_list (drop n xs)"
  by (subst sum_list_append [symmetric]) simp

section \<open>Splitting a buffer into bounded pieces\<close>

text \<open>
  \<open>pieces n xs\<close> is what a loop of the form ``take at most \<open>n\<close> bytes, send them, advance''
  produces; a bound of zero gives no pieces.
\<close>

function pieces :: "nat \<Rightarrow> 'a list \<Rightarrow> 'a list list" where
  "pieces n xs = (if n = 0 \<or> xs = [] then [] else take n xs # pieces n (drop n xs))"
  by pat_completeness auto
termination
  by (relation "measure (\<lambda>(n, xs). length xs)") auto

declare pieces.simps [simp del]

lemma pieces_Nil [simp]: "pieces n [] = []"
  by (simp add: pieces.simps)

lemma pieces_step: "0 < n \<Longrightarrow> xs \<noteq> [] \<Longrightarrow> pieces n xs = take n xs # pieces n (drop n xs)"
  by (simp add: pieces.simps [of n xs])

lemma concat_pieces [simp]: "0 < n \<Longrightarrow> concat (pieces n xs) = xs"
proof (induction n xs rule: pieces.induct)
  case (1 n xs)
  then show ?case by (cases "xs = []") (auto simp: pieces_step)
qed

lemma pieces_bound: "p \<in> set (pieces n xs) \<Longrightarrow> 0 < length p \<and> length p \<le> n"
proof (induction n xs rule: pieces.induct)
  case (1 n xs)
  show ?case
  proof (cases "n = 0 \<or> xs = []")
    case True
    with "1.prems" show ?thesis by (simp add: pieces.simps [of n xs])
  next
    case False
    with "1.prems" have "p = take n xs \<or> p \<in> set (pieces n (drop n xs))"
      by (auto simp: pieces.simps [of n xs])
    then show ?thesis
    proof
      assume "p = take n xs"
      with False show ?thesis by (cases xs) auto
    next
      assume "p \<in> set (pieces n (drop n xs))"
      with "1.IH" False show ?thesis by blast
    qed
  qed
qed

text \<open>The pieces of \<open>xs\<close> together with the offset each starts at.\<close>

fun with_offsets :: "nat \<Rightarrow> 'a list list \<Rightarrow> (nat \<times> 'a list) list" where
  "with_offsets off [] = []"
| "with_offsets off (p # ps) = (off, p) # with_offsets (off + length p) ps"

lemma map_snd_with_offsets [simp]: "map snd (with_offsets off ps) = ps"
  by (induction ps arbitrary: off) auto

lemma with_offsets_in_range:
  "(o', p) \<in> set (with_offsets off ps) \<Longrightarrow>
    off \<le> o' \<and> o' + length p \<le> off + length (concat ps) \<and>
    take (length p) (drop (o' - off) (concat ps)) = p"
proof (induction ps arbitrary: off)
  case Nil
  then show ?case by simp
next
  case (Cons q ps)
  show ?case
  proof (cases "(o', p) = (off, q)")
    case True
    then show ?thesis by simp
  next
    case False
    with Cons.prems have "(o', p) \<in> set (with_offsets (off + length q) ps)" by auto
    note IH = Cons.IH [OF this]
    then have "o' - off = length q + (o' - (off + length q))" by linarith
    with IH show ?thesis by (auto simp: le_diff_conv2)
  qed
qed

lemma with_offsets_pieces:
  assumes "(off, p) \<in> set (with_offsets 0 (pieces n data))" and "0 < n"
  shows "0 < length p \<and> length p \<le> n \<and> off + length p \<le> length data \<and> byte_range off (length p) data = p"
proof -
  have "p \<in> set (map snd (with_offsets 0 (pieces n data)))"
    unfolding set_map using image_eqI [OF _ assms(1), of p snd] by simp
  then have "0 < length p" "length p \<le> n" using pieces_bound [of p n data] by auto
  then show ?thesis
    using with_offsets_in_range [OF assms(1)] assms(2) by (simp add: byte_range_def)
qed

text \<open>The pieces with their offsets in the 16-bit field of a request.\<close>

definition packets :: "nat \<Rightarrow> bytes \<Rightarrow> (u16 \<times> bytes) list" where
  "packets n data = map (\<lambda>(off, p). (word_of_nat off, p)) (with_offsets 0 (pieces n data))"

lemma packets_concat: "0 < n \<Longrightarrow> concat (map snd (packets n data)) = data"
proof -
  assume n: "0 < n"
  have "map snd (packets n data) = map snd (with_offsets 0 (pieces n data))"
    by (simp del: map_snd_with_offsets add: packets_def comp_def case_prod_beta)
  then show ?thesis using n by simp
qed

lemma packets_in_range:
  assumes "(off, p) \<in> set (packets n data)" and "0 < n" and "length data < 65536"
  shows "0 < length p \<and> length p \<le> n \<and> unat off + length p \<le> length data \<and>
    byte_range (unat off) (length p) data = p"
proof -
  obtain o' where o: "off = word_of_nat o'" "(o', p) \<in> set (with_offsets 0 (pieces n data))"
    using assms(1) by (auto simp: packets_def)
  note r = with_offsets_pieces [OF o(2) assms(2)]
  then have "unat off = o'" using assms(3) o(1) by (simp add: unat_of_nat)
  then show ?thesis using r by simp
qed

section \<open>Running a list of requests\<close>

text \<open>
  The abstract side of the refinement lemmas of the chunking loops: perform the requests in
  order and stop at the first error.
\<close>

fun run_requests :: "('r \<Rightarrow> 's \<Rightarrow> ('b, 's) hoth_result) \<Rightarrow> 'r list \<Rightarrow> 's \<Rightarrow> (unit, 's) hoth_result" where
  "run_requests f [] s = (Inr (), s)"
| "run_requests f (r # rs) s =
     (case f r s of (Inl e, s') \<Rightarrow> (Inl e, s') | (Inr _, s') \<Rightarrow> run_requests f rs s')"

lemma run_requests_append:
  "run_requests f (xs @ ys) s =
    (case run_requests f xs s of (Inl e, s') \<Rightarrow> (Inl e, s') | (Inr _, s') \<Rightarrow> run_requests f ys s')"
  by (induction xs arbitrary: s) (auto split: prod.splits sum.splits)

lemma run_requests_map: "run_requests f (map g rs) s = run_requests (\<lambda>r. f (g r)) rs s"
  by (induction rs arbitrary: s) (auto split: prod.splits sum.splits)

text \<open>A recorded run: every request succeeds and is appended to the log.\<close>

lemma run_requests_log:
  assumes "\<And>r log. f r log = (Inr (g r), log @ [r])"
  shows "run_requests f rs log = (Inr (), log @ rs)"
  by (induction rs arbitrary: log) (auto simp: assms)

text \<open>
  The interface of a loop that sends a buffer in pieces of at most \<open>n\<close> bytes: \<open>send\<close> performs
  the request for the piece at an offset, \<open>loop\<close> is the code's loop started at an offset, and
  \<open>ret\<close> wraps its result (\<open>Some\<close> for a loop that might not end). Whatever satisfies the three laws
  performs the requests of the pieces in order, stopping at the first error.
\<close>

locale chunk_loop =
  fixes n :: nat and data :: bytes
    and send :: "nat \<times> bytes \<Rightarrow> 's \<Rightarrow> (unit, 's) hoth_result"
    and ret :: "(unit, 's) hoth_result \<Rightarrow> 'r"
    and loop :: "nat \<Rightarrow> 's \<Rightarrow> 'r"
  assumes chunk_pos: "0 < n"
    and loop_end: "off = length data \<Longrightarrow> loop off s = ret (Inr (), s)"
    and loop_step: "off < length data \<Longrightarrow> k = min n (length data - off) \<Longrightarrow> loop off s =
      (case send (off, byte_range off k data) s of
         (Inl e, s') \<Rightarrow> ret (Inl e, s')
       | (Inr _, s') \<Rightarrow> loop (off + k) s')"
begin

lemma loop_requests:
  assumes "off \<le> length data"
  shows "loop off s = ret (run_requests send (with_offsets off (pieces n (drop off data))) s)"
  using assms
proof (induction "length data - off" arbitrary: off s rule: less_induct)
  case less
  show ?case
  proof (cases "off = length data")
    case True
    then show ?thesis by (simp add: loop_end)
  next
    case False
    define k where "k = min n (length data - off)"
    have o: "off < length data" using False less.prems by simp
    have k: "0 < k" "off + k \<le> length data" using o chunk_pos by (auto simp: k_def)
    have t: "take n (drop off data) = byte_range off k data"
      by (simp add: k_def byte_range_def min_def)
    have d: "drop n (drop off data) = drop (off + k) data"
      using o by (cases "n \<le> length data - off") (simp_all add: k_def min_def add.commute)
    have p: "pieces n (drop off data) = byte_range off k data # pieces n (drop (off + k) data)"
      using o chunk_pos t d by (simp add: pieces_step)
    have IH: "loop (off + k) t =
        ret (run_requests send (with_offsets (off + k) (pieces n (drop (off + k) data))) t)" for t
      using k o by (intro less.hyps) auto
    show ?thesis
      using k by (simp add: loop_step [OF o k_def] p IH split: prod.split sum.split)
  qed
qed

end

section \<open>Fields of packed structures\<close>

definition u16_at :: "nat \<Rightarrow> bytes \<Rightarrow> u16" where
  "u16_at k bs = le_word (byte_range k 2 bs)"

definition u32_at :: "nat \<Rightarrow> bytes \<Rightarrow> u32" where
  "u32_at k bs = le_word (byte_range k 4 bs)"

definition u64_at :: "nat \<Rightarrow> bytes \<Rightarrow> u64" where
  "u64_at k bs = le_word (byte_range k 8 bs)"

named_theorems field_defs \<open>reading the fields of packed structures\<close>

lemmas [field_defs] = u16_at_def u32_at_def u64_at_def byte_range_def

lemma u32_at_le_bytes [simp]:
  "k = length xs \<Longrightarrow> u32_at k (xs @ le_bytes 4 (w :: u32) @ ys) = w"
  "u32_at 0 (le_bytes 4 w @ ys) = w"
  by (simp_all add: field_defs)

section \<open>Reading memory that may be out of bounds\<close>

text \<open>
  \<open>read_at off n mem\<close> is a read of \<open>n\<close> bytes at \<open>off\<close> of an object: \<open>None\<close> stands for an access
  outside the object. A function built from such reads is memory safe when it is never \<open>None\<close>.
\<close>

definition read_at :: "nat \<Rightarrow> nat \<Rightarrow> bytes \<Rightarrow> bytes option" where
  "read_at off n mem = (if off + n \<le> length mem then Some (byte_range off n mem) else None)"

lemma read_at_inside [simp]: "off + n \<le> length mem \<Longrightarrow> read_at off n mem = Some (byte_range off n mem)"
  by (simp add: read_at_def)

lemma read_at_eq_Some: "read_at off n mem = Some bs \<longleftrightarrow> off + n \<le> length mem \<and> bs = byte_range off n mem"
  by (auto simp: read_at_def)

lemma le_nat_byte_range_u8: "length bs = 1 \<Longrightarrow> le_nat bs = unat (bs ! 0)"
  by (cases bs) auto

text \<open>Writing at an offset of a caller's buffer; \<open>None\<close> is a write outside it.\<close>

definition store_response :: "nat \<Rightarrow> bytes \<Rightarrow> bytes \<Rightarrow> bytes option" where
  "store_response off r buf = (if off + length r \<le> length buf then Some (memcpy_at off r buf) else None)"

section \<open>Widening casts\<close>

lemma unat_ucast_wider [simp]: "unat (ucast (x :: u32) :: u64) = unat x"
  using unat_bound [of x] by (simp add: unsigned_ucast_eq take_bit_nat_eq_self)

lemma ucast_wider_eq [simp]: "(ucast (x :: u32) :: u64) = ucast y \<longleftrightarrow> x = y"
  by (metis unat_ucast_wider word_unat_eq_iff)

text \<open>A count capped by a constant, computed on words that can hold both.\<close>

lemma unat_cap:
  assumes "k < 2 ^ LENGTH('a::len)" "m < 2 ^ LENGTH('a)"
  shows "unat (if (word_of_nat k :: 'a word) < word_of_nat m then word_of_nat k else word_of_nat m :: 'a word) = min k m"
proof -
  have "unat (word_of_nat k :: 'a word) = k" "unat (word_of_nat m :: 'a word) = m"
    using assms by (simp_all add: unat_of_nat)
  then show ?thesis by (auto simp: word_less_nat_alt)
qed

section \<open>Rounding down and up\<close>

lemma unat_drop_bit_div: "unat (drop_bit n (w :: 'a::len word)) = unat w div 2 ^ n"
  by (subst unat_drop_bit_eq) (simp only: drop_bit_eq_div)

lemma le_round_down: "d dvd x \<Longrightarrow> x \<le> a \<Longrightarrow> x \<le> a div d * (d :: nat)"
  by (metis div_le_mono dvd_div_mult_self mult_le_mono1)

lemma round_down_plus: "0 < d \<Longrightarrow> a < a div d * d + (d :: nat)"
  by (metis div_mult_mod_eq mod_less_divisor nat_add_left_cancel_less)

lemma round_up_le: "0 < d \<Longrightarrow> x \<le> (x + (d - 1)) div d * (d :: nat)"
  using round_down_plus [of d "x + (d - 1)"] by simp

lemma round_up_least: "0 < d \<Longrightarrow> d dvd x \<Longrightarrow> a \<le> x \<Longrightarrow> (a + (d - 1)) div d * (d :: nat) \<le> x"
proof -
  assume d: "0 < d" and dv: "d dvd x" and le: "a \<le> x"
  from dv obtain k where x: "x = d * k" by (rule dvdE)
  have "(a + (d - 1)) div d \<le> (d * k + (d - 1)) div d" using le x by (intro div_le_mono) simp
  also have "\<dots> = k" using d by (intro div_nat_eqI) (simp_all add: algebra_simps)
  finally have "(a + (d - 1)) div d * d \<le> k * d" by (rule mult_le_mono1)
  then show ?thesis using x by (simp only: mult.commute)
qed

lemma round_down_step: "0 < d \<Longrightarrow> (a + d) div d * d = a div d * d + (d :: nat)"
  by (simp only: div_add_self2 distrib_right mult_1)

section \<open>Big-endian addresses\<close>

definition be_nat :: "bytes \<Rightarrow> nat" where
  "be_nat bs = foldl (\<lambda>a b. 256 * a + unat b) 0 bs"

lemma unat_byte_of: "unat (ucast (drop_bit k (w :: u32)) :: u8) = unat w div 2 ^ k mod 256"
  by (simp add: unsigned_ucast_eq take_bit_eq_mod unat_drop_bit_div)

lemma unat_low_byte: "unat (ucast (w :: u32) :: u8) = unat w mod 256"
  by (simp add: unsigned_ucast_eq take_bit_eq_mod)

lemma be_nat_32:
  "be_nat [ucast (drop_bit 24 w), ucast (drop_bit 16 w), ucast (drop_bit 8 w), ucast w] = unat (w :: u32)"
proof -
  have s: "256 * (256 * (256 * (x div 2 ^ 24 mod 256) + x div 2 ^ 16 mod 256) + x div 2 ^ 8 mod 256) + x mod 256 = x"
    if "x < 2 ^ 32" for x :: nat
  proof -
    have "x div 2 ^ 24 mod 256 = x div 2 ^ 24" using that by simp
    moreover have "x div 2 ^ 24 = x div 2 ^ 16 div 256" "x div 2 ^ 16 = x div 2 ^ 8 div 256"
      "x div 2 ^ 8 = x div 256" by (simp_all add: div_mult2_eq [symmetric])
    ultimately show ?thesis by (metis mult.commute div_mult_mod_eq)
  qed
  show ?thesis
    using s [of "unat w"] unat_bound [of w] by (simp add: be_nat_def unat_byte_of unat_low_byte unat_drop_bit_div)
qed

lemma be_nat_24:
  assumes "unat w < 2 ^ 24"
  shows "be_nat [ucast (drop_bit 16 w), ucast (drop_bit 8 w), ucast w] = unat (w :: u32)"
proof -
  have "unat w div 2 ^ 24 = 0" using assms by simp
  then have "(ucast (drop_bit 24 w) :: u8) = 0" by (simp add: word_unat_eq_iff unat_byte_of)
  then show ?thesis using be_nat_32 [of w] by (simp add: be_nat_def)
qed

end
