(* ===== verification/Hoth_Text.thy ===== *)
theory Hoth_Text
  imports Hoth_Prelude
begin

text \<open>
  The conversions of \<open>printf\<close> that the library uses on its standard output and in its hex
  formats: zero-padded hexadecimal of a byte or a word, and decimal.
\<close>

section \<open>Hexadecimal and decimal output\<close>

definition hex_digits :: string where
  "hex_digits = ''0123456789abcdef''"

definition hex_digits_upper :: string where
  "hex_digits_upper = ''0123456789ABCDEF''"

text \<open>\<open>%0nx\<close> of a value below \<open>16 ^ n\<close>: exactly \<open>n\<close> digits, most significant first.\<close>

primrec hex_fixed :: "string \<Rightarrow> nat \<Rightarrow> nat \<Rightarrow> string" where
  "hex_fixed ds 0 v = []"
| "hex_fixed ds (Suc n) v = hex_fixed ds n (v div 16) @ [ds ! (v mod 16)]"

lemma length_hex_fixed [simp]: "length (hex_fixed ds n v) = n"
  by (induction n arbitrary: v) auto

abbreviation hex_byte :: "u8 \<Rightarrow> string" where
  "hex_byte b \<equiv> hex_fixed hex_digits 2 (unat b)"

text \<open>The number of hexadecimal digits of a value, at least one.\<close>

fun hex_width :: "nat \<Rightarrow> nat" where
  "hex_width v = (if v < 16 then 1 else Suc (hex_width (v div 16)))"

declare hex_width.simps [simp del]

text \<open>\<open>%0nx\<close> of any value: padded to \<open>n\<close> digits, longer when it does not fit.\<close>

definition hex_padded :: "string \<Rightarrow> nat \<Rightarrow> nat \<Rightarrow> string" where
  "hex_padded ds n v = hex_fixed ds (max n (hex_width v)) v"

text \<open>\<open>%u\<close> and \<open>%d\<close>.\<close>

fun dec_nat :: "nat \<Rightarrow> string" where
  "dec_nat v = (if v < 10 then [''0123456789'' ! v] else dec_nat (v div 10) @ [''0123456789'' ! (v mod 10)])"

declare dec_nat.simps [simp del]

definition dec_int :: "int \<Rightarrow> string" where
  "dec_int i = (if i < 0 then ''-'' @ dec_nat (nat (- i)) else dec_nat (nat i))"

text \<open>The value of a hexadecimal digit of either case, as \<open>strtoul\<close> in base 16 reads it.\<close>

definition hex_val :: "char \<Rightarrow> nat option" where
  "hex_val c =
    (let n = of_char c :: nat in
     if 48 \<le> n \<and> n \<le> 57 then Some (n - 48)
     else if 97 \<le> n \<and> n \<le> 102 then Some (n - 87)
     else if 65 \<le> n \<and> n \<le> 70 then Some (n - 55)
     else None)"

lemma hex_val_digit: "d < 16 \<Longrightarrow> hex_val (hex_digits ! d) = Some d"
proof -
  assume "d < 16"
  then have "d \<in> {0,1,2,3,4,5,6,7,8,9,10,11,12,13,14,15}" by (simp; arith)
  then show ?thesis by (auto simp: hex_val_def hex_digits_def Let_def)
qed

lemma hex_byte_unfold:
  "hex_byte b = [hex_digits ! (unat b div 16 mod 16), hex_digits ! (unat b mod 16)]"
  by (simp add: numeral_2_eq_2)

lemma unat_u8_less [simp]: "unat (b :: u8) < 256"
  using unsigned_less [of b] by simp

end
