(* ===== verification/Hoth_Status.thy ===== *)
theory Hoth_Status
  imports Hoth_Text
begin

text \<open>
  \<open>protocol/status.h\<close> and \<open>protocol/status.c\<close>: the 64-bit error codes of the library (a
  context, a space and a code), the enumerations they are built from, and the functions that
  turn them into text.
\<close>

section \<open>Enumerations\<close>

datatype libhoth_status =
    LIBHOTH_OK
  | LIBHOTH_ERR_UNKNOWN_VENDOR
  | LIBHOTH_ERR_INTERFACE_NOT_FOUND
  | LIBHOTH_ERR_MALLOC_FAILED
  | LIBHOTH_ERR_TIMEOUT
  | LIBHOTH_ERR_OUT_UNDERFLOW
  | LIBHOTH_ERR_IN_OVERFLOW
  | LIBHOTH_ERR_UNSUPPORTED_VERSION
  | LIBHOTH_ERR_INVALID_PARAMETER
  | LIBHOTH_ERR_FAIL
  | LIBHOTH_ERR_RESPONSE_BUFFER_OVERFLOW
  | LIBHOTH_ERR_INTERFACE_BUSY
  | LIBHOTH_ERR_DFU_APP_MISMATCH
  | LIBHOTH_ERR_DFU_ROMEXT_MISMATCH
  | LIBHOTH_ERR_INITIATE_FAIL
  | LIBHOTH_ERR_COMMIT_FAIL
  | LIBHOTH_ERR_BAD_IMAGE
  | LIBHOTH_ERR_IMAGE_NOT_SECTOR_ALIGNED

fun status_val :: "libhoth_status \<Rightarrow> int" where
  "status_val LIBHOTH_OK = 0"
| "status_val LIBHOTH_ERR_UNKNOWN_VENDOR = 1"
| "status_val LIBHOTH_ERR_INTERFACE_NOT_FOUND = 2"
| "status_val LIBHOTH_ERR_MALLOC_FAILED = 3"
| "status_val LIBHOTH_ERR_TIMEOUT = 4"
| "status_val LIBHOTH_ERR_OUT_UNDERFLOW = 5"
| "status_val LIBHOTH_ERR_IN_OVERFLOW = 6"
| "status_val LIBHOTH_ERR_UNSUPPORTED_VERSION = 7"
| "status_val LIBHOTH_ERR_INVALID_PARAMETER = 8"
| "status_val LIBHOTH_ERR_FAIL = 9"
| "status_val LIBHOTH_ERR_RESPONSE_BUFFER_OVERFLOW = 10"
| "status_val LIBHOTH_ERR_INTERFACE_BUSY = 11"
| "status_val LIBHOTH_ERR_DFU_APP_MISMATCH = 12"
| "status_val LIBHOTH_ERR_DFU_ROMEXT_MISMATCH = 13"
| "status_val LIBHOTH_ERR_INITIATE_FAIL = 14"
| "status_val LIBHOTH_ERR_COMMIT_FAIL = 15"
| "status_val LIBHOTH_ERR_BAD_IMAGE = 16"
| "status_val LIBHOTH_ERR_IMAGE_NOT_SECTOR_ALIGNED = 17"

datatype hoth_context_id =
  HOTH_CTX_NONE | HOTH_CTX_INIT | HOTH_CTX_USB | HOTH_CTX_SPI | HOTH_CTX_CMD_EXEC

fun ctx_val :: "hoth_context_id \<Rightarrow> int" where
  "ctx_val HOTH_CTX_NONE = 0"
| "ctx_val HOTH_CTX_INIT = 1"
| "ctx_val HOTH_CTX_USB = 10"
| "ctx_val HOTH_CTX_SPI = 20"
| "ctx_val HOTH_CTX_CMD_EXEC = 30"

datatype hoth_host_space =
    HOTH_HOST_SPACE_EC
  | HOTH_HOST_SPACE_MTD
  | HOTH_HOST_SPACE_LIBUSB
  | HOTH_HOST_SPACE_SPIDEV
  | HOTH_HOST_SPACE_LIBHOTH
  | HOTH_HOST_SPACE_PIEROT_ERR
  | HOTH_HOST_SPACE_POSIX

fun space_val :: "hoth_host_space \<Rightarrow> int" where
  "space_val HOTH_HOST_SPACE_EC = 1"
| "space_val HOTH_HOST_SPACE_MTD = 2"
| "space_val HOTH_HOST_SPACE_LIBUSB = 3"
| "space_val HOTH_HOST_SPACE_SPIDEV = 4"
| "space_val HOTH_HOST_SPACE_LIBHOTH = 5"
| "space_val HOTH_HOST_SPACE_PIEROT_ERR = 6"
| "space_val HOTH_HOST_SPACE_POSIX = 7"

datatype hoth_status =
    HOTH_RES_SUCCESS | HOTH_RES_INVALID_COMMAND | HOTH_RES_ERROR | HOTH_RES_INVALID_PARAM
  | HOTH_RES_ACCESS_DENIED | HOTH_RES_INVALID_RESPONSE | HOTH_RES_INVALID_VERSION
  | HOTH_RES_INVALID_CHECKSUM | HOTH_RES_IN_PROGRESS | HOTH_RES_UNAVAILABLE
  | HOTH_RES_TIMEOUT | HOTH_RES_OVERFLOW | HOTH_RES_INVALID_HEADER
  | HOTH_RES_REQUEST_TRUNCATED | HOTH_RES_RESPONSE_TOO_BIG | HOTH_RES_BUS_ERROR
  | HOTH_RES_BUSY | HOTH_RES_INVALID_HEADER_VERSION | HOTH_RES_INVALID_HEADER_CRC
  | HOTH_RES_INVALID_DATA_CRC | HOTH_RES_DUP_UNAVAILABLE | HOTH_RES_INVALID_RESPONSE_SIZE
  | HOTH_RES_MAX

fun res_val :: "hoth_status \<Rightarrow> int" where
  "res_val HOTH_RES_SUCCESS = 0"
| "res_val HOTH_RES_INVALID_COMMAND = 1"
| "res_val HOTH_RES_ERROR = 2"
| "res_val HOTH_RES_INVALID_PARAM = 3"
| "res_val HOTH_RES_ACCESS_DENIED = 4"
| "res_val HOTH_RES_INVALID_RESPONSE = 5"
| "res_val HOTH_RES_INVALID_VERSION = 6"
| "res_val HOTH_RES_INVALID_CHECKSUM = 7"
| "res_val HOTH_RES_IN_PROGRESS = 8"
| "res_val HOTH_RES_UNAVAILABLE = 9"
| "res_val HOTH_RES_TIMEOUT = 10"
| "res_val HOTH_RES_OVERFLOW = 11"
| "res_val HOTH_RES_INVALID_HEADER = 12"
| "res_val HOTH_RES_REQUEST_TRUNCATED = 13"
| "res_val HOTH_RES_RESPONSE_TOO_BIG = 14"
| "res_val HOTH_RES_BUS_ERROR = 15"
| "res_val HOTH_RES_BUSY = 16"
| "res_val HOTH_RES_INVALID_HEADER_VERSION = 17"
| "res_val HOTH_RES_INVALID_HEADER_CRC = 18"
| "res_val HOTH_RES_INVALID_DATA_CRC = 19"
| "res_val HOTH_RES_DUP_UNAVAILABLE = 20"
| "res_val HOTH_RES_INVALID_RESPONSE_SIZE = 21"
| "res_val HOTH_RES_MAX = 65535"

section \<open>Error codes\<close>

definition HOTH_SUCCESS :: libhoth_error where
  "HOTH_SUCCESS = 0"

text \<open>The macro casts each component (an int of either sign, or an unsigned word) to 64 bits.\<close>

definition LIBHOTH_ERR_CONSTRUCT :: "u64 \<Rightarrow> u64 \<Rightarrow> u64 \<Rightarrow> libhoth_error" where
  "LIBHOTH_ERR_CONSTRUCT ctx space code =
    push_bit 48 (ctx AND 0xFFFF) OR push_bit 32 (space AND 0xFFFF) OR (code AND 0xFFFFFFFF)"

definition LIBHOTH_ERR_GET_CTX :: "libhoth_error \<Rightarrow> u16" where
  "LIBHOTH_ERR_GET_CTX err = ucast (drop_bit 48 err AND 0xFFFF)"

definition LIBHOTH_ERR_GET_SPACE :: "libhoth_error \<Rightarrow> u16" where
  "LIBHOTH_ERR_GET_SPACE err = ucast (drop_bit 32 err AND 0xFFFF)"

definition LIBHOTH_ERR_GET_CODE :: "libhoth_error \<Rightarrow> u32" where
  "LIBHOTH_ERR_GET_CODE err = ucast (err AND 0xFFFFFFFF)"

abbreviation hoth_err :: "hoth_context_id \<Rightarrow> hoth_host_space \<Rightarrow> u64 \<Rightarrow> libhoth_error" where
  "hoth_err ctx space code \<equiv>
    LIBHOTH_ERR_CONSTRUCT (word_of_int (ctx_val ctx)) (word_of_int (space_val space)) code"

text \<open>The error most protocol functions return: context CMD_EXEC, space LIBHOTH.\<close>

abbreviation cmd_err :: "libhoth_status \<Rightarrow> libhoth_error" where
  "cmd_err st \<equiv> hoth_err HOTH_CTX_CMD_EXEC HOTH_HOST_SPACE_LIBHOTH (word_of_int (status_val st))"

abbreviation ec_err :: "hoth_status \<Rightarrow> libhoth_error" where
  "ec_err r \<equiv> hoth_err HOTH_CTX_CMD_EXEC HOTH_HOST_SPACE_EC (word_of_int (res_val r))"

text \<open>An error of the device layer: context INIT, space LIBHOTH.\<close>

abbreviation init_err :: "libhoth_status \<Rightarrow> libhoth_error" where
  "init_err st \<equiv> hoth_err HOTH_CTX_INIT HOTH_HOST_SPACE_LIBHOTH (word_of_int (status_val st))"

section \<open>Names of errors\<close>

definition libhoth_error_ctx_str :: "u32 \<Rightarrow> string" where
  "libhoth_error_ctx_str ctx =
    (if ctx = word_of_int (ctx_val HOTH_CTX_NONE) then ''NONE''
     else if ctx = word_of_int (ctx_val HOTH_CTX_INIT) then ''INIT''
     else if ctx = word_of_int (ctx_val HOTH_CTX_USB) then ''USB''
     else if ctx = word_of_int (ctx_val HOTH_CTX_SPI) then ''SPI''
     else if ctx = word_of_int (ctx_val HOTH_CTX_CMD_EXEC) then ''CMD_EXEC''
     else ''UNKNOWN'')"

definition libhoth_error_space_str :: "u16 \<Rightarrow> string" where
  "libhoth_error_space_str space =
    (if space = word_of_int (space_val HOTH_HOST_SPACE_EC) then ''EC_RES''
     else if space = word_of_int (space_val HOTH_HOST_SPACE_MTD) then ''MTD''
     else if space = word_of_int (space_val HOTH_HOST_SPACE_LIBUSB) then ''LIBUSB''
     else if space = word_of_int (space_val HOTH_HOST_SPACE_SPIDEV) then ''SPIDEV''
     else if space = word_of_int (space_val HOTH_HOST_SPACE_LIBHOTH) then ''LIBHOTH''
     else if space = word_of_int (space_val HOTH_HOST_SPACE_PIEROT_ERR) then ''PIE_ROT''
     else if space = word_of_int (space_val HOTH_HOST_SPACE_POSIX) then ''POSIX''
     else ''UNKNOWN'')"

text \<open>A \<open>switch\<close> over the constants of an enumeration: the first case whose value matches.\<close>

definition switch_str :: "('e \<Rightarrow> int) \<Rightarrow> ('e \<times> string) list \<Rightarrow> 'w::len word \<Rightarrow> string option" where
  "switch_str val cases w = map_of (map (\<lambda>(e, t). (word_of_int (val e), t)) cases) w"

definition libhoth_error_ec_str :: "u16 \<Rightarrow> string" where
  "libhoth_error_ec_str code =
    (case switch_str res_val
      [(HOTH_RES_SUCCESS, ''SUCCESS''),
       (HOTH_RES_INVALID_COMMAND, ''INVALID_COMMAND''),
       (HOTH_RES_ERROR, ''ERROR''),
       (HOTH_RES_INVALID_PARAM, ''INVALID_PARAM''),
       (HOTH_RES_ACCESS_DENIED, ''ACCESS_DENIED''),
       (HOTH_RES_INVALID_RESPONSE, ''INVALID_RESPONSE''),
       (HOTH_RES_INVALID_VERSION, ''INVALID_VERSION''),
       (HOTH_RES_INVALID_CHECKSUM, ''INVALID_CHECKSUM''),
       (HOTH_RES_IN_PROGRESS, ''IN_PROGRESS''),
       (HOTH_RES_UNAVAILABLE, ''UNAVAILABLE''),
       (HOTH_RES_TIMEOUT, ''TIMEOUT''),
       (HOTH_RES_OVERFLOW, ''OVERFLOW''),
       (HOTH_RES_INVALID_HEADER, ''INVALID_HEADER''),
       (HOTH_RES_REQUEST_TRUNCATED, ''REQUEST_TRUNCATED''),
       (HOTH_RES_RESPONSE_TOO_BIG, ''RESPONSE_TOO_BIG''),
       (HOTH_RES_BUS_ERROR, ''BUS_ERROR''),
       (HOTH_RES_BUSY, ''BUSY''),
       (HOTH_RES_INVALID_HEADER_VERSION, ''INVALID_HEADER_VERSION''),
       (HOTH_RES_INVALID_HEADER_CRC, ''INVALID_HEADER_CRC''),
       (HOTH_RES_INVALID_DATA_CRC, ''INVALID_DATA_CRC''),
       (HOTH_RES_DUP_UNAVAILABLE, ''DUP_UNAVAILABLE''),
       (HOTH_RES_INVALID_RESPONSE_SIZE, ''INVALID_RESPONSE_SIZE'')] code
     of Some t \<Rightarrow> t | None \<Rightarrow> ''UNKNOWN'')"

definition libhoth_error_libhoth_str :: "u32 \<Rightarrow> string option" where
  "libhoth_error_libhoth_str code =
    switch_str status_val
      [(LIBHOTH_OK, ''OK''),
       (LIBHOTH_ERR_UNKNOWN_VENDOR, ''UNKNOWN_VENDOR''),
       (LIBHOTH_ERR_INTERFACE_NOT_FOUND, ''INTERFACE_NOT_FOUND''),
       (LIBHOTH_ERR_MALLOC_FAILED, ''MALLOC_FAILED''),
       (LIBHOTH_ERR_TIMEOUT, ''TIMEOUT''),
       (LIBHOTH_ERR_OUT_UNDERFLOW, ''OUT_UNDERFLOW''),
       (LIBHOTH_ERR_IN_OVERFLOW, ''IN_OVERFLOW''),
       (LIBHOTH_ERR_UNSUPPORTED_VERSION, ''UNSUPPORTED_VERSION''),
       (LIBHOTH_ERR_INVALID_PARAMETER, ''INVALID_PARAMETER''),
       (LIBHOTH_ERR_FAIL, ''FAIL''),
       (LIBHOTH_ERR_RESPONSE_BUFFER_OVERFLOW, ''RESPONSE_BUFFER_OVERFLOW''),
       (LIBHOTH_ERR_INTERFACE_BUSY, ''INTERFACE_BUSY''),
       (LIBHOTH_ERR_DFU_APP_MISMATCH, ''DFU_APP_MISMATCH''),
       (LIBHOTH_ERR_DFU_ROMEXT_MISMATCH, ''DFU_ROMEXT_MISMATCH''),
       (LIBHOTH_ERR_INITIATE_FAIL, ''INITIATE_FAIL''),
       (LIBHOTH_ERR_COMMIT_FAIL, ''COMMIT_FAIL''),
       (LIBHOTH_ERR_BAD_IMAGE, ''BAD_IMAGE''),
       (LIBHOTH_ERR_IMAGE_NOT_SECTOR_ALIGNED, ''IMAGE_NOT_SECTOR_ALIGNED'')] code"

text \<open>
  \<open>libhoth_log_err\<close>: the line it prints. \<open>libusb_strerror\<close> (present only in builds with
  libusb) and the C library's \<open>strerror\<close> are parameters.
\<close>

definition libhoth_log_err ::
  "(u32 \<Rightarrow> string) option \<Rightarrow> (u32 \<Rightarrow> string) \<Rightarrow> libhoth_error \<Rightarrow> string" where
  "libhoth_log_err libusb_strerror strerror err =
    (if err = HOTH_SUCCESS then []
     else
       let ctx = ucast (LIBHOTH_ERR_GET_CTX err);
           space = LIBHOTH_ERR_GET_SPACE err;
           code = LIBHOTH_ERR_GET_CODE err;
           code_str =
             (if space = word_of_int (space_val HOTH_HOST_SPACE_LIBUSB)
              then map_option (\<lambda>f. f code) libusb_strerror
              else if space = word_of_int (space_val HOTH_HOST_SPACE_MTD)
                \<or> space = word_of_int (space_val HOTH_HOST_SPACE_SPIDEV)
                \<or> space = word_of_int (space_val HOTH_HOST_SPACE_POSIX)
              then Some (strerror code)
              else if space = word_of_int (space_val HOTH_HOST_SPACE_EC)
              then Some (libhoth_error_ec_str (ucast code))
              else if space = word_of_int (space_val HOTH_HOST_SPACE_LIBHOTH)
              then libhoth_error_libhoth_str code
              else None)
       in ''['' @ libhoth_error_ctx_str ctx @ '']['' @ libhoth_error_space_str space @ ''][''
          @ (case code_str of
               None \<Rightarrow> ''0x'' @ hex_fixed hex_digits_upper 8 (unat code)
             | Some t \<Rightarrow> t)
          @ '']'' @ [CHR 0x0A])"

section \<open>Facts\<close>

lemma and_ffff: "(x :: u64) AND 0xFFFF = take_bit 16 x"
  by (simp add: take_bit_eq_mask mask_eq_exp_minus_1)

lemma and_ffffffff: "(x :: u64) AND 0xFFFFFFFF = take_bit 32 x"
  by (simp add: take_bit_eq_mask mask_eq_exp_minus_1)

lemmas err_code_defs = LIBHOTH_ERR_CONSTRUCT_def LIBHOTH_ERR_GET_CTX_def
  LIBHOTH_ERR_GET_SPACE_def LIBHOTH_ERR_GET_CODE_def and_ffff and_ffffffff

lemma get_ctx_construct [simp]:
  "LIBHOTH_ERR_GET_CTX (LIBHOTH_ERR_CONSTRUCT c sp k) = ucast c"
  unfolding err_code_defs by (rule bit_word_eqI) (auto simp: bit_simps)

lemma get_space_construct [simp]:
  "LIBHOTH_ERR_GET_SPACE (LIBHOTH_ERR_CONSTRUCT c sp k) = ucast sp"
  unfolding err_code_defs by (rule bit_word_eqI) (auto simp: bit_simps)

lemma get_code_construct [simp]:
  "LIBHOTH_ERR_GET_CODE (LIBHOTH_ERR_CONSTRUCT c sp k) = ucast k"
  unfolding err_code_defs by (rule bit_word_eqI) (auto simp: bit_simps)

lemma construct_get:
  "LIBHOTH_ERR_CONSTRUCT (ucast (LIBHOTH_ERR_GET_CTX e)) (ucast (LIBHOTH_ERR_GET_SPACE e))
     (ucast (LIBHOTH_ERR_GET_CODE e)) = e"
  unfolding err_code_defs
  apply (rule bit_word_eqI)
  subgoal for n by (cases "n < 48") (auto simp: bit_simps)
  done

text \<open>An error with a space is never the success value, whatever its code.\<close>

lemma construct_neq_0 [simp]:
  assumes "(ucast sp :: u16) \<noteq> 0"
  shows "LIBHOTH_ERR_CONSTRUCT c sp k \<noteq> 0" "0 \<noteq> LIBHOTH_ERR_CONSTRUCT c sp k"
    "LIBHOTH_ERR_CONSTRUCT c sp k \<noteq> HOTH_SUCCESS" "HOTH_SUCCESS \<noteq> LIBHOTH_ERR_CONSTRUCT c sp k"
proof -
  have "LIBHOTH_ERR_GET_SPACE 0 = 0" by (simp add: LIBHOTH_ERR_GET_SPACE_def)
  with assms have n: "LIBHOTH_ERR_CONSTRUCT c sp k \<noteq> 0"
    using get_space_construct [of c sp k] by metis
  then show "LIBHOTH_ERR_CONSTRUCT c sp k \<noteq> 0" "0 \<noteq> LIBHOTH_ERR_CONSTRUCT c sp k"
    "LIBHOTH_ERR_CONSTRUCT c sp k \<noteq> HOTH_SUCCESS" "HOTH_SUCCESS \<noteq> LIBHOTH_ERR_CONSTRUCT c sp k"
    by (simp_all add: HOTH_SUCCESS_def)
qed

lemma ucast_space_neq_0 [simp]: "(ucast (word_of_int (space_val sp) :: u64) :: u16) \<noteq> 0"
  by (cases sp) simp_all

lemma hoth_err_neq_0: "hoth_err c sp k \<noteq> 0"
  by (rule construct_neq_0) (rule ucast_space_neq_0)

text \<open>The components of an error code can be read back, and the code is determined by them.\<close>

theorem err_construct_roundtrip:
  "LIBHOTH_ERR_GET_CTX (LIBHOTH_ERR_CONSTRUCT c sp k) = ucast c \<and>
   LIBHOTH_ERR_GET_SPACE (LIBHOTH_ERR_CONSTRUCT c sp k) = ucast sp \<and>
   LIBHOTH_ERR_GET_CODE (LIBHOTH_ERR_CONSTRUCT c sp k) = ucast k \<and>
   LIBHOTH_ERR_CONSTRUCT (ucast (LIBHOTH_ERR_GET_CTX e)) (ucast (LIBHOTH_ERR_GET_SPACE e))
     (ucast (LIBHOTH_ERR_GET_CODE e)) = e"
  by (simp add: construct_get)

end
