(* ===== verification/Hoth_Device.thy ===== *)
theory Hoth_Device
  imports Hoth_Status
begin

text \<open>
  \<open>transports/libhoth_device.h\<close> and \<open>libhoth_device.c\<close>: the table of transport functions and
  the wrappers the rest of the library calls. A device's \<open>user_ctx\<close>, together with whatever is
  behind it, is the state \<open>'s\<close>; a NULL device is \<open>None\<close>. \<open>usleep\<close> is a parameter: what
  sleeping does to the state.
\<close>

section \<open>The device table\<close>

record 's libhoth_device =
  dev_send :: "bytes \<Rightarrow> 's \<Rightarrow> libhoth_error \<times> 's"
  dev_receive :: "nat \<Rightarrow> int \<Rightarrow> 's \<Rightarrow> (libhoth_error \<times> bytes) \<times> 's"
  dev_close :: "'s \<Rightarrow> libhoth_error \<times> 's"
  dev_claim :: "'s \<Rightarrow> libhoth_error \<times> 's"
  dev_release :: "'s \<Rightarrow> libhoth_error \<times> 's"
  dev_reconnect :: "('s \<Rightarrow> libhoth_error \<times> 's) option"

definition LIBHOTH_MAILBOX_SIZE :: nat where
  "LIBHOTH_MAILBOX_SIZE = 1024"

definition LIBHOTH_REBOOT_DELAY_MS :: nat where
  "LIBHOTH_REBOOT_DELAY_MS = 1000"

section \<open>The wrappers\<close>

text \<open>
  \<open>receive\<close> returns the first \<open>actual_size\<close> bytes of the response buffer beside the error code.
\<close>

definition libhoth_send_request ::
  "'s libhoth_device option \<Rightarrow> bytes \<Rightarrow> 's \<Rightarrow> libhoth_error \<times> 's" where
  "libhoth_send_request dev request s =
    (case dev of None \<Rightarrow> (init_err LIBHOTH_ERR_INVALID_PARAMETER, s)
     | Some d \<Rightarrow> dev_send d request s)"

definition libhoth_receive_response ::
  "'s libhoth_device option \<Rightarrow> nat \<Rightarrow> int \<Rightarrow> 's \<Rightarrow> (libhoth_error \<times> bytes) \<times> 's" where
  "libhoth_receive_response dev max_response_size timeout_ms s =
    (case dev of None \<Rightarrow> ((init_err LIBHOTH_ERR_INVALID_PARAMETER, []), s)
     | Some d \<Rightarrow> dev_receive d max_response_size timeout_ms s)"

definition libhoth_device_reconnect ::
  "'s libhoth_device option \<Rightarrow> 's \<Rightarrow> libhoth_error \<times> 's" where
  "libhoth_device_reconnect dev s =
    (case dev of None \<Rightarrow> (init_err LIBHOTH_ERR_INVALID_PARAMETER, s)
     | Some d \<Rightarrow>
         (case dev_reconnect d of None \<Rightarrow> (init_err LIBHOTH_ERR_UNSUPPORTED_VERSION, s)
          | Some reconnect \<Rightarrow> reconnect s))"

definition libhoth_device_close ::
  "'s libhoth_device option \<Rightarrow> 's \<Rightarrow> libhoth_error \<times> 's" where
  "libhoth_device_close dev s =
    (case dev of None \<Rightarrow> (init_err LIBHOTH_ERR_INVALID_PARAMETER, s)
     | Some d \<Rightarrow> dev_close d s)"

definition libhoth_release_device ::
  "'s libhoth_device option \<Rightarrow> 's \<Rightarrow> libhoth_error \<times> 's" where
  "libhoth_release_device dev s =
    (case dev of None \<Rightarrow> (init_err LIBHOTH_ERR_INVALID_PARAMETER, s)
     | Some d \<Rightarrow> dev_release d s)"

section \<open>Claiming with exponential back-off\<close>

definition MAX_SINGLE_SLEEP_US :: u32 where
  "MAX_SINGLE_SLEEP_US = 1000 * 1000 - 1"

definition BACKOFF_FACTOR :: u32 where
  "BACKOFF_FACTOR = 2"

definition INITIAL_WAIT_US :: u32 where
  "INITIAL_WAIT_US = 10 * 1000"

definition UINT32_MAX :: u32 where
  "UINT32_MAX = 0xFFFFFFFF"

definition next_total :: "u32 \<Rightarrow> u32 \<Rightarrow> u32" where
  "next_total wait_us total_waiting_us =
    (if total_waiting_us \<le> UINT32_MAX - wait_us then total_waiting_us + wait_us else UINT32_MAX)"

definition next_wait :: "u32 \<Rightarrow> u32" where
  "next_wait wait_us =
    (if wait_us \<le> MAX_SINGLE_SLEEP_US div BACKOFF_FACTOR then wait_us * BACKOFF_FACTOR
     else MAX_SINGLE_SLEEP_US)"

text \<open>The \<open>while (true)\<close> loop: \<open>None\<close> if it never leaves.\<close>

partial_function (option) claim_loop ::
  "(u32 \<Rightarrow> 's \<Rightarrow> 's) \<Rightarrow> ('s \<Rightarrow> libhoth_error \<times> 's) \<Rightarrow> u32 \<Rightarrow> u32 \<Rightarrow> u32 \<Rightarrow> 's
    \<Rightarrow> (libhoth_error \<times> 's) option" where
  "claim_loop usleep claim timeout_us wait_us total_waiting_us s =
    (let (status, s1) = claim s in
     if status = HOTH_SUCCESS then Some (HOTH_SUCCESS, s1)
     else if LIBHOTH_ERR_GET_CODE status \<noteq> word_of_int (status_val LIBHOTH_ERR_INTERFACE_BUSY)
     then Some (status, s1)
     else if timeout_us \<le> total_waiting_us then Some (init_err LIBHOTH_ERR_INTERFACE_BUSY, s1)
     else claim_loop usleep claim timeout_us (next_wait wait_us) (next_total wait_us total_waiting_us)
            (usleep wait_us s1))"

definition libhoth_claim_device ::
  "(u32 \<Rightarrow> 's \<Rightarrow> 's) \<Rightarrow> 's libhoth_device option \<Rightarrow> u32 \<Rightarrow> 's \<Rightarrow> (libhoth_error \<times> 's) option" where
  "libhoth_claim_device usleep dev timeout_us s =
    (case dev of None \<Rightarrow> Some (init_err LIBHOTH_ERR_INVALID_PARAMETER, s)
     | Some d \<Rightarrow> claim_loop usleep (dev_claim d) timeout_us INITIAL_WAIT_US 0 s)"

section \<open>The interface a transport provides\<close>

text \<open>
  What the protocol layer relies on: a response that is reported as received is not longer than
  the buffer it was received into. Every transport of the library is an interpretation.
\<close>

locale transport =
  fixes dev :: "'s libhoth_device"
  assumes receive_bounded:
    "dev_receive dev max_size timeout_ms s = ((HOTH_SUCCESS, resp), s') \<Longrightarrow> length resp \<le> max_size"
begin

lemma response_bounded:
  "libhoth_receive_response (Some dev) max_size timeout_ms s = ((HOTH_SUCCESS, resp), s')
    \<Longrightarrow> length resp \<le> max_size"
  by (auto simp: libhoth_receive_response_def intro: receive_bounded)

end

section \<open>Termination and the time spent\<close>

lemma UINT32_MAX_ge [simp]: "(x :: u32) \<le> UINT32_MAX"
  using unat_bound [of x] by (simp add: UINT32_MAX_def word_le_nat_alt)

lemma unat_UINT32_MAX_sub: "unat (UINT32_MAX - x) = 0xFFFFFFFF - unat x"
  by (subst unat_sub) (simp_all, simp add: UINT32_MAX_def)

lemma next_total_grows:
  assumes "0 < wait_us" "total_waiting_us < timeout_us"
  shows "total_waiting_us < next_total wait_us total_waiting_us"
proof (cases "total_waiting_us \<le> UINT32_MAX - wait_us")
  case True
  have "unat (UINT32_MAX - wait_us) = 0xFFFFFFFF - unat wait_us"
    by (rule unat_UINT32_MAX_sub)
  moreover have "unat wait_us \<le> 0xFFFFFFFF"
    using unat_bound [of wait_us] by simp
  ultimately have "unat total_waiting_us + unat wait_us < 2 ^ 32"
    using True by (simp add: word_le_nat_alt)
  then have "unat (total_waiting_us + wait_us) = unat total_waiting_us + unat wait_us"
    by (simp add: unat_word_ariths)
  then show ?thesis
    using True assms(1) by (simp add: next_total_def word_less_nat_alt)
next
  case False
  with assms(2) show ?thesis
    by (auto simp: next_total_def intro: less_le_trans [OF _ UINT32_MAX_ge])
qed

lemma next_wait_pos: "0 < wait_us \<Longrightarrow> 0 < next_wait wait_us"
proof -
  assume w: "0 < wait_us"
  have "unat (wait_us * 2) = unat wait_us * 2" if "wait_us \<le> 499999"
    using that by (simp add: unat_word_ariths word_le_nat_alt)
  then show ?thesis
    using w by (auto simp: next_wait_def MAX_SINGLE_SLEEP_US_def BACKOFF_FACTOR_def
        word_less_nat_alt)
qed

lemma claim_loop_returns:
  "0 < wait_us \<Longrightarrow> \<exists>r. claim_loop usleep claim timeout_us wait_us total_waiting_us s = Some r"
proof (induction "unat timeout_us - unat total_waiting_us" arbitrary: wait_us total_waiting_us s rule: less_induct)
  case less
  obtain status s1 where c: "claim s = (status, s1)" by (cases "claim s")
  show ?case
  proof (cases "timeout_us \<le> total_waiting_us")
    case True
    then show ?thesis by (subst claim_loop.simps) (simp add: c)
  next
    case False
    then have "total_waiting_us < next_total wait_us total_waiting_us"
      using less.prems by (intro next_total_grows [where timeout_us = timeout_us]) auto
    then have "unat timeout_us - unat (next_total wait_us total_waiting_us) < unat timeout_us - unat total_waiting_us"
      using False by (simp add: word_less_nat_alt word_le_nat_alt)
    from less.hyps [OF this next_wait_pos [OF less.prems]]
    show ?thesis by (subst claim_loop.simps) (simp add: c)
  qed
qed

text \<open>C37: claiming a device always returns, whatever the transport and the timeout.\<close>

theorem claim_device_returns:
  "\<exists>err s'. libhoth_claim_device usleep dev timeout_us s = Some (err, s')"
proof (cases dev)
  case None
  then show ?thesis by (simp add: libhoth_claim_device_def)
next
  case (Some d)
  have "0 < INITIAL_WAIT_US" by (simp add: INITIAL_WAIT_US_def)
  from claim_loop_returns [OF this, of usleep "dev_claim d" timeout_us 0 s] Some
  show ?thesis by (auto simp: libhoth_claim_device_def)
qed

text \<open>
  The sleeps are recorded by pairing the state with their list. Each one is within what
  \<open>usleep\<close> accepts, and before the last one the budget was not used up.
\<close>

definition log_sleep :: "u32 \<Rightarrow> 's \<times> nat list \<Rightarrow> 's \<times> nat list" where
  "log_sleep w p = (fst p, snd p @ [unat w])"

definition sleep_ok :: "u32 \<Rightarrow> nat list \<Rightarrow> bool" where
  "sleep_ok timeout_us ws \<longleftrightarrow> (\<forall>w \<in> set ws. 0 < w \<and> w < 1000000) \<and>
     (ws = [] \<or> sum_list (butlast ws) < unat timeout_us)"

lemma claim_loop_sleeps:
  assumes "claim_loop log_sleep claim timeout_us wait_us total_waiting_us s = Some (err, s')"
    and "0 < wait_us" "wait_us \<le> MAX_SINGLE_SLEEP_US"
    and "sum_list (snd s) = unat total_waiting_us \<or> UINT32_MAX = total_waiting_us"
    and "sleep_ok timeout_us (snd s)"
    and "\<And>t t' e. claim t = (e, t') \<Longrightarrow> snd t' = snd t"
  shows "sleep_ok timeout_us (snd s')"
  using assms
proof (induction "unat timeout_us - unat total_waiting_us" arbitrary: wait_us total_waiting_us s rule: less_induct)
  case less
  obtain status s1 where c: "claim s = (status, s1)" by (cases "claim s")
  have s1: "snd s1 = snd s" using less.prems(6) c by blast
  show ?case
  proof (cases "status = HOTH_SUCCESS \<or>
      LIBHOTH_ERR_GET_CODE status \<noteq> word_of_int (status_val LIBHOTH_ERR_INTERFACE_BUSY) \<or>
      timeout_us \<le> total_waiting_us")
    case True
    with less.prems(1) have "s' = s1"
      by (subst (asm) claim_loop.simps) (auto simp: c split: if_splits)
    with less.prems(5) s1 show ?thesis by simp
  next
    case False
    then have lt: "total_waiting_us < timeout_us" by auto
    have g: "total_waiting_us < next_total wait_us total_waiting_us"
      using less.prems(2) lt by (rule next_total_grows)
    have m: "unat timeout_us - unat (next_total wait_us total_waiting_us) < unat timeout_us - unat total_waiting_us"
      using g lt by (simp add: word_less_nat_alt)
    have eq: "sum_list (snd s) = unat total_waiting_us"
      using less.prems(4) lt UINT32_MAX_ge [of timeout_us] by (auto simp: not_less [symmetric])
    have run: "claim_loop log_sleep claim timeout_us (next_wait wait_us)
        (next_total wait_us total_waiting_us) (log_sleep wait_us s1) = Some (err, s')"
      using less.prems(1) False by (subst (asm) claim_loop.simps) (auto simp: c)
    have w1: "unat wait_us < 1000000"
      using less.prems(3) by (simp add: MAX_SINGLE_SLEEP_US_def word_le_nat_alt)
    have w0: "0 < unat wait_us" using less.prems(2) by (simp add: word_less_nat_alt)
    have nw: "next_wait wait_us \<le> MAX_SINGLE_SLEEP_US"
    proof -
      have "unat (wait_us * 2) = unat wait_us * 2" if "wait_us \<le> 499999"
        using that by (simp add: unat_word_ariths word_le_nat_alt)
      then show ?thesis
        by (auto simp: next_wait_def MAX_SINGLE_SLEEP_US_def BACKOFF_FACTOR_def word_le_nat_alt)
    qed
    have nt: "sum_list (snd (log_sleep wait_us s1)) = unat (next_total wait_us total_waiting_us) \<or>
        UINT32_MAX = next_total wait_us total_waiting_us"
    proof (cases "total_waiting_us \<le> UINT32_MAX - wait_us")
      case True
      have "unat (UINT32_MAX - wait_us) = 0xFFFFFFFF - unat wait_us"
        by (rule unat_UINT32_MAX_sub)
      with True w1 have "unat total_waiting_us + unat wait_us < 2 ^ 32"
        by (simp add: word_le_nat_alt)
      then show ?thesis
        using True eq s1 by (simp add: next_total_def log_sleep_def unat_word_ariths)
    qed (simp add: next_total_def)
    have ok: "sleep_ok timeout_us (snd (log_sleep wait_us s1))"
      using less.prems(5) s1 w0 w1 eq lt
      by (auto simp: sleep_ok_def log_sleep_def word_less_nat_alt)
    show ?thesis
      by (rule less.hyps [OF m run next_wait_pos [OF less.prems(2)] nw nt ok less.prems(6)])
  qed
qed

text \<open>
  A claim never sleeps a second or longer at a time, and sleeps again only while the time
  already slept is below the timeout.
\<close>

theorem claim_device_sleeps:
  assumes "libhoth_claim_device log_sleep (Some d) timeout_us (s, []) = Some (err, (s', ws))"
    and "\<And>t t' e. dev_claim d t = (e, t') \<Longrightarrow> snd t' = snd t"
  shows "(\<forall>w \<in> set ws. 0 < w \<and> w < 1000000) \<and>
    (ws = [] \<or> sum_list (butlast ws) < unat timeout_us)"
proof -
  have "sleep_ok timeout_us (snd (s', ws))"
  proof (rule claim_loop_sleeps)
    show "claim_loop log_sleep (dev_claim d) timeout_us INITIAL_WAIT_US 0 (s, []) =
        Some (err, (s', ws))"
      using assms(1) by (simp add: libhoth_claim_device_def)
    show "0 < INITIAL_WAIT_US" by (simp add: INITIAL_WAIT_US_def)
    show "INITIAL_WAIT_US \<le> MAX_SINGLE_SLEEP_US"
      by (simp add: INITIAL_WAIT_US_def MAX_SINGLE_SLEEP_US_def)
    show "sum_list (snd (s, [])) = unat (0 :: u32) \<or> UINT32_MAX = 0" by simp
    show "sleep_ok timeout_us (snd (s, []))" by (simp add: sleep_ok_def)
    show "\<And>t t' e. dev_claim d t = (e, t') \<Longrightarrow> snd t' = snd t" by (rule assms(2))
  qed
  then show ?thesis by (simp add: sleep_ok_def)
qed

text \<open>A device that is always busy, claimed with a timeout of 25 ms: two sleeps, then an error.\<close>

definition busy_device :: "(nat \<times> nat list) libhoth_device" where
  "busy_device = \<lparr>dev_send = (\<lambda>_ s. (0, s)), dev_receive = (\<lambda>_ _ s. ((0, []), s)),
     dev_close = (\<lambda>s. (0, s)), dev_claim = (\<lambda>s. (init_err LIBHOTH_ERR_INTERFACE_BUSY, s)),
     dev_release = (\<lambda>s. (0, s)), dev_reconnect = None\<rparr>"

lemma busy_device_run:
  "libhoth_claim_device log_sleep (Some busy_device) 25000 (0, []) =
    Some (init_err LIBHOTH_ERR_INTERFACE_BUSY, (0, [10000, 20000]))"
  by (simp del: ctx_val.simps space_val.simps add: libhoth_claim_device_def claim_loop.simps busy_device_def INITIAL_WAIT_US_def
      next_wait_def next_total_def MAX_SINGLE_SLEEP_US_def BACKOFF_FACTOR_def UINT32_MAX_def
      log_sleep_def)

theorem claim_device_sleeps_witness:
  "list_all (\<lambda>w. 0 < w \<and> w < 1000000) [10000, 20000 :: nat] \<and>
    ([10000, 20000 :: nat] = [] \<or> sum_list (butlast [10000, 20000 :: nat]) < unat (25000 :: u32))"
  unfolding list_all_iff by (rule claim_device_sleeps [OF busy_device_run]) (auto simp: busy_device_def)

end
