(* ===== verification/Host_Cmd.thy ===== *)
theory Host_Cmd
  imports Hoth_Device
begin

text \<open>
  \<open>protocol/host_cmd.h\<close> and \<open>protocol/host_cmd.c\<close>: the framing of host commands. A request is
  an 8-byte header with a checksum followed by the payload; a response is validated before its
  payload is handed out. Diagnostics on standard error are not modelled.
\<close>

section \<open>Headers\<close>

record hoth_host_request =
  req_struct_version :: u8
  req_checksum :: u8
  req_command :: u16
  req_command_version :: u8
  req_reserved :: u8
  req_data_len :: u16

record hoth_host_response =
  resp_struct_version :: u8
  resp_checksum :: u8
  resp_result :: u16
  resp_data_len :: u16
  resp_reserved :: u16

definition HOTH_HOST_REQUEST_VERSION :: u8 where
  "HOTH_HOST_REQUEST_VERSION = 3"

definition HOTH_HOST_RESPONSE_VERSION :: u8 where
  "HOTH_HOST_RESPONSE_VERSION = 3"

definition HOTH_CMD_BOARD_SPECIFIC_BASE :: u16 where
  "HOTH_CMD_BOARD_SPECIFIC_BASE = 0x3E00"

definition HOTH_CMD_TIMEOUT_MS_DEFAULT :: int where
  "HOTH_CMD_TIMEOUT_MS_DEFAULT = 180000"

definition HTOOL_ERROR_HOST_COMMAND_START :: int where
  "HTOOL_ERROR_HOST_COMMAND_START = 537200"

text \<open>The layout of the two packed structures in memory.\<close>

definition request_bytes :: "hoth_host_request \<Rightarrow> bytes" where
  "request_bytes h =
    [req_struct_version h, req_checksum h] @ le_bytes 2 (req_command h)
    @ [req_command_version h, req_reserved h] @ le_bytes 2 (req_data_len h)"

definition response_bytes :: "hoth_host_response \<Rightarrow> bytes" where
  "response_bytes h =
    [resp_struct_version h, resp_checksum h] @ le_bytes 2 (resp_result h)
    @ le_bytes 2 (resp_data_len h) @ le_bytes 2 (resp_reserved h)"

definition response_of_bytes :: "bytes \<Rightarrow> hoth_host_response" where
  "response_of_bytes bs =
    \<lparr>resp_struct_version = bs ! 0, resp_checksum = bs ! 1,
     resp_result = le_word (byte_range 2 2 bs), resp_data_len = le_word (byte_range 4 2 bs),
     resp_reserved = le_word (byte_range 6 2 bs)\<rparr>"

abbreviation sizeof_request :: nat where "sizeof_request \<equiv> 8"
abbreviation sizeof_response :: nat where "sizeof_response \<equiv> 8"

section \<open>The hex dump\<close>

text \<open>\<open>isgraph\<close> of the C locale.\<close>

definition isgraph :: "u8 \<Rightarrow> bool" where
  "isgraph b \<longleftrightarrow> 0x21 \<le> b \<and> b \<le> 0x7e"

definition hex_dump_line :: "nat \<Rightarrow> bytes \<Rightarrow> string" where
  "hex_dump_line offset chunk =
    ''0x'' @ hex_padded hex_digits 4 offset @ '': ''
    @ concat (map (\<lambda>i. (if 0 < i \<and> i mod 8 = 0 then '' '' else '''')
        @ (if i < length chunk then hex_byte (chunk ! i) @ '' '' else ''   '')) [0..<16])
    @ ''|''
    @ map (\<lambda>i. if i < length chunk
               then (if isgraph (chunk ! i) then char_of (unat (chunk ! i)) else CHR ''.'')
               else CHR '' '') [0..<16]
    @ ''|'' @ [CHR 0x0A]"

definition hex_dump :: "bytes option \<Rightarrow> string" where
  "hex_dump buffer =
    (case buffer of None \<Rightarrow> []
     | Some bs \<Rightarrow> concat (map (\<lambda>(off, chunk). hex_dump_line off chunk) (with_offsets 0 (pieces 16 bs))))"

section \<open>Checksum\<close>

fun sum_bytes :: "u8 \<Rightarrow> bytes \<Rightarrow> u8" where
  "sum_bytes acc [] = acc"
| "sum_bytes acc (b # bs) = sum_bytes (acc + b) bs"

text \<open>\<open>0x100 - sum\<close> is computed as an int and truncated to the \<open>uint8_t\<close> result.\<close>

definition libhoth_calculate_checksum :: "bytes \<Rightarrow> bytes option \<Rightarrow> u8" where
  "libhoth_calculate_checksum header data =
    (let sum = sum_bytes 0 header;
         sum = (case data of None \<Rightarrow> sum | Some d \<Rightarrow> sum_bytes sum d)
     in word_of_int (0x100 - uint sum))"

section \<open>Building a request and validating a response\<close>

definition populate_ec_request_header ::
  "u16 \<Rightarrow> u8 \<Rightarrow> bytes option \<Rightarrow> nat \<Rightarrow> hoth_host_request option \<Rightarrow> libhoth_status + hoth_host_request" where
  "populate_ec_request_header command command_version request request_size request_header =
    (case request_header of None \<Rightarrow> Inl LIBHOTH_ERR_INVALID_PARAMETER
     | Some h0 \<Rightarrow>
       if 0 < request_size \<and> request = None then Inl LIBHOTH_ERR_INVALID_PARAMETER
       else if 0xFFFF < request_size then Inl LIBHOTH_ERR_INVALID_PARAMETER
       else
         let h = h0\<lparr>req_struct_version := HOTH_HOST_REQUEST_VERSION, req_checksum := 0,
                  req_command := command, req_command_version := command_version,
                  req_reserved := 0, req_data_len := word_of_nat request_size\<rparr>
         in Inr (h\<lparr>req_checksum :=
               libhoth_calculate_checksum (request_bytes h) (map_option (take request_size) request)\<rparr>))"

text \<open>
  The header and payload are those found at the start of the response buffer; \<open>total_size\<close> is
  \<open>response_header_and_payload_size\<close>.
\<close>

definition validate_ec_response_header ::
  "bytes option \<Rightarrow> bytes option \<Rightarrow> nat \<Rightarrow> libhoth_status" where
  "validate_ec_response_header header payload total_size =
    (case header of None \<Rightarrow> LIBHOTH_ERR_INVALID_PARAMETER
     | Some hb \<Rightarrow>
       if total_size < sizeof_response then LIBHOTH_ERR_INVALID_PARAMETER
       else
         let h = response_of_bytes hb in
         if payload = None \<and> 0 < resp_data_len h then LIBHOTH_ERR_INVALID_PARAMETER
         else if resp_struct_version h \<noteq> HOTH_HOST_RESPONSE_VERSION
         then LIBHOTH_ERR_INVALID_PARAMETER
         else if unat (resp_data_len h) \<noteq> total_size - sizeof_response
         then LIBHOTH_ERR_INVALID_PARAMETER
         else if libhoth_calculate_checksum (response_bytes h)
             (map_option (take (unat (resp_data_len h))) payload) \<noteq> 0
         then LIBHOTH_ERR_INVALID_PARAMETER
         else LIBHOTH_OK)"

section \<open>Executing a command\<close>

text \<open>
  \<open>stk\<close> is the uninitialised content of the request buffer on the stack: it is what is sent when
  \<open>req_payload\<close> is NULL. \<open>want_size\<close> says whether \<open>out_resp_size\<close> is not NULL. The outputs are
  the response payload (its length is what \<open>*out_resp_size\<close> receives).
\<close>

definition mailbox_payload_max :: nat where
  "mailbox_payload_max = LIBHOTH_MAILBOX_SIZE - sizeof_request"

definition exec_request_frame ::
  "bytes \<Rightarrow> u16 \<Rightarrow> u8 \<Rightarrow> bytes option \<Rightarrow> nat \<Rightarrow> libhoth_status + bytes" where
  "exec_request_frame stk command version req_payload req_payload_size =
    (let payload_buf = (case req_payload of None \<Rightarrow> stk | Some p \<Rightarrow> memcpy_at 0 (take req_payload_size p) stk);
         hdr0 = \<lparr>req_struct_version = 0, req_checksum = 0, req_command = 0,
                  req_command_version = 0, req_reserved = 0, req_data_len = 0\<rparr>
     in case populate_ec_request_header command version (Some payload_buf) req_payload_size (Some hdr0) of
          Inl st \<Rightarrow> Inl st
        | Inr hdr \<Rightarrow> Inr (request_bytes hdr @ take req_payload_size payload_buf))"

definition exec_response_payload :: "bytes \<Rightarrow> nat \<Rightarrow> bool \<Rightarrow> libhoth_error + bytes" where
  "exec_response_payload resp resp_buf_size want_size =
    (let payload_buf = drop sizeof_response resp;
         hdr = response_of_bytes resp;
         resp_payload_size = length resp - sizeof_response;
         status = validate_ec_response_header (Some resp) (Some payload_buf) (length resp)
     in if status \<noteq> LIBHOTH_OK then Inl (cmd_err status)
        else if resp_result hdr \<noteq> word_of_int (res_val HOTH_RES_SUCCESS) then
          (if 4 \<le> resp_data_len hdr
           then Inl (hoth_err HOTH_CTX_CMD_EXEC HOTH_HOST_SPACE_PIEROT_ERR
                  (le_word (take 4 payload_buf)))
           else Inl (hoth_err HOTH_CTX_CMD_EXEC HOTH_HOST_SPACE_EC (ucast (resp_result hdr))))
        else if want_size \<and> resp_buf_size < resp_payload_size
        then Inl (cmd_err LIBHOTH_ERR_RESPONSE_BUFFER_OVERFLOW)
        else if \<not> want_size \<and> resp_payload_size \<noteq> resp_buf_size
        then Inl (cmd_err LIBHOTH_ERR_FAIL)
        else Inr payload_buf)"

definition libhoth_hostcmd_exec_v2 ::
  "bytes \<Rightarrow> 's libhoth_device option \<Rightarrow> u16 \<Rightarrow> u8 \<Rightarrow> bytes option \<Rightarrow> nat \<Rightarrow> nat \<Rightarrow> bool \<Rightarrow> 's
    \<Rightarrow> (bytes, 's) hoth_result" where
  "libhoth_hostcmd_exec_v2 stk dev command version req_payload req_payload_size resp_buf_size want_size s =
    (if mailbox_payload_max < req_payload_size then (Inl (cmd_err LIBHOTH_ERR_OUT_UNDERFLOW), s)
     else
       case exec_request_frame stk command version req_payload req_payload_size of
         Inl status \<Rightarrow> (Inl (cmd_err status), s)
       | Inr req \<Rightarrow>
         (let (err, s1) = libhoth_send_request dev req s in
          if err \<noteq> HOTH_SUCCESS then (Inl err, s1)
          else
            let ((err, resp), s2) =
                  libhoth_receive_response dev LIBHOTH_MAILBOX_SIZE HOTH_CMD_TIMEOUT_MS_DEFAULT s1 in
            if err \<noteq> HOTH_SUCCESS then (Inl err, s2)
            else (exec_response_payload resp resp_buf_size want_size, s2)))"

text \<open>The call every command makes: a payload of its own, of exactly its own length.\<close>

definition hostcmd ::
  "'s libhoth_device option \<Rightarrow> u16 \<Rightarrow> u8 \<Rightarrow> bytes \<Rightarrow> nat \<Rightarrow> bool \<Rightarrow> 's \<Rightarrow> (bytes, 's) hoth_result" where
  "hostcmd dev command version p resp_buf_size want_size =
    libhoth_hostcmd_exec_v2 [] dev command version (Some p) (length p) resp_buf_size want_size"

text \<open>
  The legacy wrapper: an \<open>int\<close>, 0 for success, and what was written to the caller's response
  buffer, \<open>None\<close> for nothing, in which case \<open>*out_resp_size\<close> is not written either. The sum and the cast are on 32 bits.
\<close>

definition libhoth_hostcmd_exec ::
  "bytes \<Rightarrow> 's libhoth_device option \<Rightarrow> u16 \<Rightarrow> u8 \<Rightarrow> bytes option \<Rightarrow> nat \<Rightarrow> nat \<Rightarrow> bool \<Rightarrow> 's
    \<Rightarrow> (int \<times> bytes option) \<times> 's" where
  "libhoth_hostcmd_exec stk dev command version req_payload req_payload_size resp_buf_size want_size s =
    (case libhoth_hostcmd_exec_v2 stk dev command version req_payload req_payload_size resp_buf_size want_size s of
       (Inr p, s') \<Rightarrow> ((0, Some p), s')
     | (Inl err, s') \<Rightarrow>
         (let space = LIBHOTH_ERR_GET_SPACE err; code = LIBHOTH_ERR_GET_CODE err in
          if space = word_of_int (space_val HOTH_HOST_SPACE_EC)
          then ((sint (word_of_int HTOOL_ERROR_HOST_COMMAND_START + code), None), s')
          else if space = word_of_int (space_val HOTH_HOST_SPACE_PIEROT_ERR)
          then ((sint code, None), s')
          else ((-1, None), s')))"

section \<open>Checksum lemmas\<close>

lemma sum_bytes_acc: "sum_bytes acc bs = acc + sum_list bs"
  by (induction bs arbitrary: acc) (auto simp: ac_simps)

lemma checksum_neg:
  "libhoth_calculate_checksum header data =
    - (sum_list header + (case data of None \<Rightarrow> 0 | Some d \<Rightarrow> sum_list d))"
proof -
  have "(word_of_int (0x100 - uint w) :: u8) = - w" for w :: u8
    by (simp flip: wi_hom_sub)
  then show ?thesis
    by (cases data) (simp_all add: libhoth_calculate_checksum_def sum_bytes_acc Let_def)
qed

lemma length_request_bytes [simp]: "length (request_bytes h) = 8"
  by (simp add: request_bytes_def)

lemma length_response_bytes [simp]: "length (response_bytes h) = 8"
  by (simp add: response_bytes_def)

lemma response_of_bytes_append [simp]: "response_of_bytes (response_bytes h @ p) = h"
  by (cases h) (simp add: response_of_bytes_def response_bytes_def byte_range_def)

lemma response_bytes_of_bytes:
  assumes "8 \<le> length bs"
  shows "response_bytes (response_of_bytes bs) = take 8 bs"
proof -
  have "[bs ! 0, bs ! 1] = take 2 bs"
    using assms by (auto intro!: nth_equalityI simp: less_Suc_eq numeral_2_eq_2)
  moreover have "le_bytes 2 (le_word (byte_range k 2 bs) :: u16) = byte_range k 2 bs" if "k \<le> 6" for k
    using assms that by (intro le_bytes_le_word) auto
  ultimately have "response_bytes (response_of_bytes bs) =
      byte_range 0 2 bs @ byte_range 2 2 bs @ byte_range 4 2 bs @ byte_range 6 2 bs"
    by (simp add: response_bytes_def response_of_bytes_def byte_range_def)
  also have "\<dots> = byte_range 0 8 bs"
    by (simp add: byte_range_join [of 6 4 2 4] byte_range_join [of 4 2 2 6]
        byte_range_join [of 2 0 2 8])
  finally show ?thesis by (simp add: byte_range_def)
qed

section \<open>The frame that is sent\<close>

lemma exec_request_frame_Inr:
  assumes "n \<le> 1016" "n \<le> length p"
  shows "\<exists>h. exec_request_frame stk command version (Some p) n = Inr (request_bytes h @ take n p) \<and>
    req_struct_version h = 3 \<and> req_command h = command \<and> req_command_version h = version \<and>
    req_reserved h = 0 \<and> unat (req_data_len h) = n \<and> sum_list (request_bytes h @ take n p) = 0"
proof -
  have mc: "take n (memcpy_at 0 (take n p) stk) = take n p"
    using assms(2) by (simp add: memcpy_at_def)
  have sum: "sum_list (request_bytes (h\<lparr>req_checksum := - (sum_list (request_bytes h) + y)\<rparr>)) + y = 0"
    if "req_checksum h = 0" for h y
    using that by (simp add: request_bytes_def algebra_simps)
  have n: "unat (word_of_nat n :: u16) = n" using assms(1) by (simp add: unat_of_nat)
  let ?h0 = "\<lparr>req_struct_version = 3, req_checksum = 0, req_command = command,
    req_command_version = version, req_reserved = 0, req_data_len = word_of_nat n\<rparr>"
  let ?h = "?h0\<lparr>req_checksum := - (sum_list (request_bytes ?h0) + sum_list (take n p))\<rparr>"
  have "exec_request_frame stk command version (Some p) n = Inr (request_bytes ?h @ take n p)"
    using assms by (simp add: exec_request_frame_def populate_ec_request_header_def Let_def mc
        checksum_neg HOTH_HOST_REQUEST_VERSION_def)
  moreover have "sum_list (request_bytes ?h @ take n p) = 0"
    unfolding sum_list_append by (rule sum) simp
  ultimately show ?thesis using n by (intro exI [of _ ?h]) simp
qed

text \<open>The part of \<open>stk\<close> under the payload is overwritten: the frame does not depend on it.\<close>

lemma exec_request_frame_stk:
  "n \<le> length p \<Longrightarrow>
    exec_request_frame stk command version (Some p) n = exec_request_frame [] command version (Some p) n"
  by (simp add: exec_request_frame_def memcpy_at_def populate_ec_request_header_def Let_def)

section \<open>What a response must look like\<close>

lemma validate_ok_iff:
  "validate_ec_response_header (Some resp) (Some (drop 8 resp)) (length resp) = LIBHOTH_OK \<longleftrightarrow>
    8 \<le> length resp \<and> resp ! 0 = 3 \<and> unat (resp_data_len (response_of_bytes resp)) = length resp - 8
    \<and> sum_list resp = 0"
proof -
  have S: "sum_list resp = sum_list (take 8 resp) + sum_list (drop 8 resp)"
    by (rule sum_list_take_drop)
  have V: "resp_struct_version (response_of_bytes resp) = resp ! 0"
    by (simp add: response_of_bytes_def)
  show ?thesis
    by (simp add: validate_ec_response_header_def Let_def checksum_neg response_bytes_of_bytes
        HOTH_HOST_RESPONSE_VERSION_def V flip: S)
qed

text \<open>The frame a conforming device answers with.\<close>

definition response_frame :: "u16 \<Rightarrow> bytes \<Rightarrow> bytes" where
  "response_frame result p =
    (let h = \<lparr>resp_struct_version = HOTH_HOST_RESPONSE_VERSION, resp_checksum = 0, resp_result = result,
              resp_data_len = word_of_nat (length p), resp_reserved = 0\<rparr>
     in response_bytes (h\<lparr>resp_checksum := libhoth_calculate_checksum (response_bytes h) (Some p)\<rparr>) @ p)"

lemma length_response_frame [simp]: "length (response_frame result p) = 8 + length p"
  by (simp add: response_frame_def Let_def)

lemma drop_response_frame [simp]: "drop 8 (response_frame result p) = p"
  by (simp add: response_frame_def Let_def)

lemma response_frame_valid:
  assumes "length p < 65536"
  shows "validate_ec_response_header (Some (response_frame result p)) (Some p)
      (length (response_frame result p)) = LIBHOTH_OK"
    and "resp_result (response_of_bytes (response_frame result p)) = result"
    and "resp_data_len (response_of_bytes (response_frame result p)) = word_of_nat (length p)"
proof -
  have s: "sum_list (response_frame result p) = 0"
    by (simp add: response_frame_def Let_def checksum_neg response_bytes_def algebra_simps)
  have z: "response_frame result p ! 0 = 3"
    by (simp add: response_frame_def Let_def response_bytes_def HOTH_HOST_RESPONSE_VERSION_def)
  show r: "resp_result (response_of_bytes (response_frame result p)) = result"
    and l: "resp_data_len (response_of_bytes (response_frame result p)) = word_of_nat (length p)"
    by (simp_all add: response_frame_def Let_def)
  show "validate_ec_response_header (Some (response_frame result p)) (Some p)
      (length (response_frame result p)) = LIBHOTH_OK"
    using validate_ok_iff [of "response_frame result p"] s z l assms by (simp add: unat_of_nat)
qed

section \<open>Execution, step by step\<close>

text \<open>The frame \<open>hostcmd\<close> sends.\<close>

definition request_frame :: "u16 \<Rightarrow> u8 \<Rightarrow> bytes \<Rightarrow> bytes" where
  "request_frame command version p =
    (case exec_request_frame [] command version (Some p) (length p) of Inl _ \<Rightarrow> [] | Inr f \<Rightarrow> f)"

lemma request_frame:
  assumes "length p \<le> 1016"
  shows "exec_request_frame stk command version (Some p) (length p) = Inr (request_frame command version p)"
    and "length (request_frame command version p) = 8 + length p"
    and "drop 8 (request_frame command version p) = p"
    and "sum_list (request_frame command version p) = 0"
    and "request_frame command version p ! 0 = 3"
    and "le_word (byte_range 2 2 (request_frame command version p)) = command"
    and "request_frame command version p ! 4 = version"
    and "le_nat (byte_range 6 2 (request_frame command version p)) = length p"
proof -
  obtain h where h: "exec_request_frame stk command version (Some p) (length p) = Inr (request_bytes h @ p)"
    "req_struct_version h = 3" "req_command h = command" "req_command_version h = version"
    "unat (req_data_len h) = length p" "sum_list (request_bytes h @ p) = 0"
    using exec_request_frame_Inr [of "length p" p stk command version] assms by auto
  have f: "request_frame command version p = request_bytes h @ p"
    using h(1) exec_request_frame_stk [of "length p" p stk command version]
    by (simp add: request_frame_def)
  show "exec_request_frame stk command version (Some p) (length p) = Inr (request_frame command version p)"
    using h(1) f by simp
  show "length (request_frame command version p) = 8 + length p"
    and "drop 8 (request_frame command version p) = p" by (simp_all add: f)
  show "sum_list (request_frame command version p) = 0" using h(6) f by simp
  have two: "take 2 (le_bytes 2 x @ ys) = le_bytes 2 x" for x :: u16 and ys by simp
  show "request_frame command version p ! 0 = 3"
    and "le_word (byte_range 2 2 (request_frame command version p)) = command"
    using h by (simp_all add: f request_bytes_def byte_range_def)
  show "request_frame command version p ! 4 = version"
    using h by (simp add: f request_bytes_def nth_append)
  show "le_nat (byte_range 6 2 (request_frame command version p)) = length p"
    using h unat_bound [of "req_data_len h"]
    by (simp add: f request_bytes_def byte_range_def le_nat_le_bytes)
qed

lemma exec_too_large:
  "1016 < n \<Longrightarrow> libhoth_hostcmd_exec_v2 stk dev command version p n m want s =
    (Inl (cmd_err LIBHOTH_ERR_OUT_UNDERFLOW), s)"
  by (simp add: libhoth_hostcmd_exec_v2_def mailbox_payload_max_def LIBHOTH_MAILBOX_SIZE_def)

lemma exec_steps:
  assumes "length p \<le> 1016"
  shows "libhoth_hostcmd_exec_v2 stk dev command version (Some p) (length p) n want s =
    (let (err, s1) = libhoth_send_request dev (request_frame command version p) s in
     if err \<noteq> HOTH_SUCCESS then (Inl err, s1)
     else let ((err, resp), s2) =
            libhoth_receive_response dev LIBHOTH_MAILBOX_SIZE HOTH_CMD_TIMEOUT_MS_DEFAULT s1 in
          if err \<noteq> HOTH_SUCCESS then (Inl err, s2)
          else (exec_response_payload resp n want, s2))"
  using assms by (simp add: libhoth_hostcmd_exec_v2_def request_frame mailbox_payload_max_def
      LIBHOTH_MAILBOX_SIZE_def)

text \<open>A payload the caller passes makes the call independent of the stack's content.\<close>

lemma exec_v2_hostcmd:
  "libhoth_hostcmd_exec_v2 stk dev command version (Some p) (length p) n want s =
    hostcmd dev command version p n want s"
proof (cases "length p \<le> 1016")
  case True
  then show ?thesis by (simp add: exec_steps hostcmd_def)
next
  case False
  then show ?thesis by (simp add: exec_too_large hostcmd_def)
qed

lemma exec_response_payload_error: "exec_response_payload resp n want = Inl e \<Longrightarrow> e \<noteq> 0"
  by (auto simp: exec_response_payload_def Let_def split: if_splits)

lemma exec_response_payload_ok:
  "exec_response_payload resp n want = Inr p \<Longrightarrow> p = drop 8 resp \<and>
    (if want then length p \<le> n else length p = n) \<and>
    validate_ec_response_header (Some resp) (Some p) (length resp) = LIBHOTH_OK"
  by (auto simp: exec_response_payload_def Let_def split: if_splits)

section \<open>The contract the commands rely on\<close>

text \<open>
  A command executor: an exact response size when the caller asks for no size, a bounded one
  otherwise, an error that is never the success value, and no transfer for a request that does
  not fit into the mailbox.
\<close>

locale host_command =
  fixes exec :: "u16 \<Rightarrow> u8 \<Rightarrow> bytes \<Rightarrow> nat \<Rightarrow> bool \<Rightarrow> 's \<Rightarrow> (bytes, 's) hoth_result"
  assumes exec_exact: "exec c v p n False s = (Inr r, s') \<Longrightarrow> length r = n"
    and exec_bounded: "exec c v p n True s = (Inr r, s') \<Longrightarrow> length r \<le> n"
    and exec_error: "exec c v p n w s = (Inl e, s') \<Longrightarrow> e \<noteq> 0"
    and exec_oversize: "1016 < length p \<Longrightarrow> exec c v p n w s = (Inl (cmd_err LIBHOTH_ERR_OUT_UNDERFLOW), s)"
begin

text \<open>A command without a response payload succeeds only with an empty one.\<close>

lemma exec_none: "exec c v p 0 w s = (Inr r, s') \<Longrightarrow> r = []"
  using exec_exact [of c v p 0 s r s'] exec_bounded [of c v p 0 s r s'] by (cases w) auto

lemma exec_le: "exec c v p n w s = (Inr r, s') \<Longrightarrow> length r \<le> n"
  using exec_exact [of c v p n s r s'] exec_bounded [of c v p n s r s'] by (cases w) auto

lemma exec_fits: "exec c v p n w s = (Inr r, s') \<Longrightarrow> length p \<le> 1016"
  using exec_oversize [of p c v n w s] by (cases "1016 < length p") auto

end

interpretation hc: host_command "hostcmd dev" for dev :: "'s libhoth_device option"
proof
  fix c v p n s r s' w e
  show "hostcmd dev c v p n False s = (Inr r, s') \<Longrightarrow> length r = n"
    and "hostcmd dev c v p n True s = (Inr r, s') \<Longrightarrow> length r \<le> n"
    by (auto simp: hostcmd_def libhoth_hostcmd_exec_v2_def split: if_splits sum.splits prod.splits
        dest: exec_response_payload_ok)
  show "hostcmd dev c v p n w s = (Inl e, s') \<Longrightarrow> e \<noteq> 0"
    by (auto simp: hostcmd_def libhoth_hostcmd_exec_v2_def HOTH_SUCCESS_def
        split: if_splits sum.splits prod.splits dest: exec_response_payload_error)
  show "1016 < length p \<Longrightarrow> hostcmd dev c v p n w s = (Inl (cmd_err LIBHOTH_ERR_OUT_UNDERFLOW), s)"
    by (simp add: hostcmd_def exec_too_large)
qed

text \<open>Over a transport, what is handed out fits the payload buffer of the response.\<close>

context transport
begin

lemma hostcmd_payload_bounded:
  assumes "hostcmd (Some dev) c v p n w s = (Inr r, s')"
  shows "length r \<le> 1016"
proof -
  have fits: "length p \<le> 1016" using assms by (rule hc.exec_fits)
  obtain s1 resp where
    r: "libhoth_receive_response (Some dev) LIBHOTH_MAILBOX_SIZE HOTH_CMD_TIMEOUT_MS_DEFAULT s1 =
        ((HOTH_SUCCESS, resp), s')"
    and e: "exec_response_payload resp n w = Inr r"
    using assms unfolding hostcmd_def exec_steps [OF fits]
    by (auto split: prod.splits if_splits)
  have "length resp \<le> 1024"
    using response_bounded [OF r] by (simp add: LIBHOTH_MAILBOX_SIZE_def)
  then show ?thesis using exec_response_payload_ok [OF e] by auto
qed

end

section \<open>A conforming root of trust\<close>

text \<open>
  The abstract other end: a handler for commands, reached through a transport that delivers
  each frame and answers with well-formed responses. Over such a device \<open>hostcmd\<close> is a remote
  call of the handler (\<open>rpc\<close>), which is how the higher-level theorems describe the effect of an
  operation on the root of trust.
\<close>

type_synonym 'w rot_handler = "u16 \<Rightarrow> u8 \<Rightarrow> bytes \<Rightarrow> 'w \<Rightarrow> (u16 \<times> bytes) \<times> 'w"

definition rot_device :: "'w rot_handler \<Rightarrow> ('w \<times> bytes) libhoth_device" where
  "rot_device h =
    \<lparr>dev_send = (\<lambda>frame (w, q). (HOTH_SUCCESS, (w, frame))),
     dev_receive = (\<lambda>max_size _ (w, q).
       let ((result, p), w') = h (le_word (byte_range 2 2 q)) (q ! 4) (drop 8 q) w in
       if max_size < 8 + length p
       then ((init_err LIBHOTH_ERR_RESPONSE_BUFFER_OVERFLOW, []), (w', q))
       else ((HOTH_SUCCESS, response_frame result p), (w', q))),
     dev_close = (\<lambda>s. (HOTH_SUCCESS, s)), dev_claim = (\<lambda>s. (HOTH_SUCCESS, s)),
     dev_release = (\<lambda>s. (HOTH_SUCCESS, s)), dev_reconnect = Some (\<lambda>s. (HOTH_SUCCESS, s))\<rparr>"

interpretation rot: transport "rot_device h" for h :: "'w rot_handler"
  by unfold_locales (auto simp: rot_device_def Let_def split: prod.splits if_splits)

definition rpc :: "'w rot_handler \<Rightarrow> u16 \<Rightarrow> u8 \<Rightarrow> bytes \<Rightarrow> nat \<Rightarrow> bool \<Rightarrow> 'w \<Rightarrow> (bytes, 'w) hoth_result" where
  "rpc h c v p n want w =
    (if 1016 < length p then (Inl (cmd_err LIBHOTH_ERR_OUT_UNDERFLOW), w)
     else
       let ((result, r), w') = h c v p w in
       (if 1016 < length r then Inl (init_err LIBHOTH_ERR_RESPONSE_BUFFER_OVERFLOW)
        else if result \<noteq> 0 then
          (if 4 \<le> length r
           then Inl (hoth_err HOTH_CTX_CMD_EXEC HOTH_HOST_SPACE_PIEROT_ERR (le_word (take 4 r)))
           else Inl (hoth_err HOTH_CTX_CMD_EXEC HOTH_HOST_SPACE_EC (ucast result)))
        else if want \<and> n < length r then Inl (cmd_err LIBHOTH_ERR_RESPONSE_BUFFER_OVERFLOW)
        else if \<not> want \<and> length r \<noteq> n then Inl (cmd_err LIBHOTH_ERR_FAIL)
        else Inr r, w'))"

lemma exec_response_frame:
  assumes "length r \<le> 1016"
  shows "exec_response_payload (response_frame result r) n want =
    (if result \<noteq> 0 then
       (if 4 \<le> length r
        then Inl (hoth_err HOTH_CTX_CMD_EXEC HOTH_HOST_SPACE_PIEROT_ERR (le_word (take 4 r)))
        else Inl (hoth_err HOTH_CTX_CMD_EXEC HOTH_HOST_SPACE_EC (ucast result)))
     else if want \<and> n < length r then Inl (cmd_err LIBHOTH_ERR_RESPONSE_BUFFER_OVERFLOW)
     else if \<not> want \<and> length r \<noteq> n then Inl (cmd_err LIBHOTH_ERR_FAIL)
     else Inr r)"
proof -
  have "(4 :: u16) \<le> word_of_nat (length r) \<longleftrightarrow> 4 \<le> length r"
    using assms by (simp add: word_le_nat_alt unat_of_nat)
  then show ?thesis
    using assms response_frame_valid [of r result]
    by (simp add: exec_response_payload_def Let_def)
qed

text \<open>
  The contract of a transport that reaches such a root of trust: in a state that is \<open>ready\<close>, sending
  a frame and receiving yields the frame of the handler's answer, after which it is ready again.
  \<open>fw\<close> is the state of the root of trust as the transport's state holds it.
\<close>

locale rot_transport = transport dev for dev :: "'s libhoth_device" +
  fixes h :: "'w rot_handler" and fw :: "'s \<Rightarrow> 'w" and ready :: "'s \<Rightarrow> bool"
  assumes exchange: "ready s \<Longrightarrow> 8 \<le> length frame \<Longrightarrow> length frame \<le> 1024 \<Longrightarrow>
    h (le_word (byte_range 2 2 frame)) (frame ! 4) (drop 8 frame) (fw s) = ((result, r), w') \<Longrightarrow> length r \<le> 1016 \<Longrightarrow>
    \<exists>s1 s2. dev_send dev frame s = (HOTH_SUCCESS, s1) \<and>
      dev_receive dev LIBHOTH_MAILBOX_SIZE HOTH_CMD_TIMEOUT_MS_DEFAULT s1 = ((HOTH_SUCCESS, response_frame result r), s2) \<and>
      fw s2 = w' \<and> ready s2"
begin

text \<open>Over it a host command is a remote call, whatever the transport does in between.\<close>

lemma hostcmd_rpc:
  assumes "ready s" and "length (snd (fst (h c v p (fw s)))) \<le> 1016"
  shows "\<exists>s'. hostcmd (Some dev) c v p n want s = (fst (rpc h c v p n want (fw s)), s') \<and>
    fw s' = snd (rpc h c v p n want (fw s)) \<and> ready s'"
proof (cases "length p \<le> 1016")
  case False
  with assms(1) show ?thesis by (simp add: hostcmd_def exec_too_large rpc_def)
next
  case True
  let ?f = "request_frame c v p"
  obtain result r w' where h: "h c v p (fw s) = ((result, r), w')" by (metis surj_pair)
  have f: "8 \<le> length ?f" "length ?f \<le> 1024" "drop 8 ?f = p" "le_word (byte_range 2 2 ?f) = c" "?f ! 4 = v"
    using True by (simp_all add: request_frame)
  have r: "length r \<le> 1016" using assms(2) h by simp
  have "h (le_word (byte_range 2 2 ?f)) (?f ! 4) (drop 8 ?f) (fw s) = ((result, r), w')" using f h by simp
  from exchange [OF assms(1) f(1,2) this r] obtain s1 s2 where
    "dev_send dev ?f s = (HOTH_SUCCESS, s1)"
    "dev_receive dev LIBHOTH_MAILBOX_SIZE HOTH_CMD_TIMEOUT_MS_DEFAULT s1 = ((HOTH_SUCCESS, response_frame result r), s2)"
    "fw s2 = w'" "ready s2" by blast
  then show ?thesis
    using True h r by (simp add: hostcmd_def exec_steps [OF True] libhoth_send_request_def
        libhoth_receive_response_def exec_response_frame rpc_def)
qed

end

interpretation rot_rpc: rot_transport "rot_device h" h fst "\<lambda>_. True" for h :: "'w rot_handler"
  by unfold_locales (auto simp: rot_device_def LIBHOTH_MAILBOX_SIZE_def)

lemma hostcmd_rot:
  "hostcmd (Some (rot_device h)) c v p n want (w, q) =
    (fst (rpc h c v p n want w),
     (snd (rpc h c v p n want w), if 1016 < length p then q else request_frame c v p))"
proof (cases "length p \<le> 1016")
  case True
  obtain result r w' where h: "h c v p w = ((result, r), w')" by (metis surj_pair)
  show ?thesis
    using True h
    by (auto simp: hostcmd_def exec_steps [OF True] libhoth_send_request_def
        libhoth_receive_response_def rot_device_def Let_def request_frame LIBHOTH_MAILBOX_SIZE_def
        HOTH_SUCCESS_def exec_response_frame rpc_def)
next
  case False
  then show ?thesis by (simp add: hostcmd_def exec_too_large rpc_def)
qed

lemma hostcmd_rot_simple:
  "hostcmd (Some (rot_device h)) c v p n want s =
    (fst (rpc h c v p n want (fst s)),
     (snd (rpc h c v p n want (fst s)), if 1016 < length p then snd s else request_frame c v p))"
  by (cases s) (simp add: hostcmd_rot)

lemma rpc_ok:
  assumes "h c v p w = ((0, r), w')" "length p \<le> 1016" "length r \<le> 1016"
    "if want then length r \<le> n else length r = n"
  shows "rpc h c v p n want w = (Inr r, w')"
  using assms by (auto simp: rpc_def split: if_splits)

section \<open>Properties\<close>

text \<open>
  Every request that is sent is a well-formed frame (version, command, length, a payload
  that is the caller's, bytes that sum to zero), and execution is exactly: send it, receive into
  a mailbox-sized buffer, validate.
\<close>

theorem hostcmd_sends_frame:
  assumes "length p \<le> 1016"
  shows "\<exists>frame.
    length frame = 8 + length p \<and> frame ! 0 = 3 \<and> sum_list frame = 0 \<and>
    le_word (byte_range 2 2 frame) = command \<and> frame ! 4 = version \<and>
    le_nat (byte_range 6 2 frame) = length p \<and> drop 8 frame = p \<and>
    libhoth_hostcmd_exec_v2 stk dev command version (Some p) (length p) n want s =
      (let (err, s1) = libhoth_send_request dev frame s in
       if err \<noteq> HOTH_SUCCESS then (Inl err, s1)
       else let ((err, resp), s2) = libhoth_receive_response dev 1024 180000 s1 in
            if err \<noteq> HOTH_SUCCESS then (Inl err, s2)
            else (exec_response_payload resp n want, s2))"
  using request_frame [OF assms, where command = command and version = version]
    exec_steps [OF assms, unfolded LIBHOTH_MAILBOX_SIZE_def HOTH_CMD_TIMEOUT_MS_DEFAULT_def]
  by (intro exI [of _ "request_frame command version p"]) (simp only: refl simp_thms)

theorem hostcmd_sends_frame_witness:
  "\<exists>frame. length frame = 12 \<and> sum_list frame = 0 \<and> drop 8 frame = [1, 2, 3, 4 :: u8]"
  using hostcmd_sends_frame [of "[1, 2, 3, 4]" 0 0 "[]" "None :: unit libhoth_device option" 0 False "()"]
  by auto

text \<open>
  C24: a response is accepted exactly when it has a full header of version 3, announces the number
  of bytes that follow, and its bytes sum to zero.
\<close>

theorem validate_response_iff:
  "validate_ec_response_header (Some resp) (Some (drop 8 resp)) (length resp) = LIBHOTH_OK \<longleftrightarrow>
    8 \<le> length resp \<and> resp ! 0 = 3 \<and> le_nat (byte_range 4 2 resp) = length resp - 8
    \<and> sum_list resp = 0"
proof (cases "8 \<le> length resp")
  case True
  then have "unat (resp_data_len (response_of_bytes resp)) = le_nat (byte_range 4 2 resp)"
    by (simp add: response_of_bytes_def unat_le_word)
  with validate_ok_iff [of resp] show ?thesis by simp
next
  case False
  with validate_ok_iff [of resp] show ?thesis by blast
qed

text \<open>A response in which one byte was altered on the way is never accepted.\<close>

theorem corrupted_response_rejected:
  assumes "validate_ec_response_header (Some resp) (Some (drop 8 resp)) (length resp) = LIBHOTH_OK"
    and "i < length resp" and "b \<noteq> resp ! i"
  shows "validate_ec_response_header (Some (resp[i := b])) (Some (drop 8 (resp[i := b]))) (length resp)
    \<noteq> LIBHOTH_OK"
proof
  have s: "sum_list (resp[i := b]) + resp ! i = sum_list resp + b"
    using assms(2)
  proof (induction resp arbitrary: i)
    case (Cons x xs)
    show ?case
    proof (cases i)
      case 0
      then show ?thesis by (simp add: ac_simps)
    next
      case (Suc j)
      with Cons.IH [of j] Cons.prems show ?thesis by (simp add: add.assoc)
    qed
  qed simp
  assume "validate_ec_response_header (Some (resp[i := b])) (Some (drop 8 (resp[i := b]))) (length resp)
    = LIBHOTH_OK"
  then have "sum_list (resp[i := b]) = 0"
    using validate_ok_iff [of "resp[i := b]"] by simp
  moreover have "sum_list resp = 0" using assms(1) validate_ok_iff [of resp] by simp
  ultimately show False using s assms(3) by simp
qed

theorem corrupted_response_rejected_witness:
  "validate_ec_response_header (Some ((response_frame 0 [7])[8 := 9])) (Some (drop 8 ((response_frame 0 [7])[8 := 9])))
    (length (response_frame 0 [7])) \<noteq> LIBHOTH_OK"
  using corrupted_response_rejected [of "response_frame 0 [7]" 8 9] response_frame_valid [of "[7]" 0]
  by (simp add: response_frame_def Let_def nth_append)

text \<open>
  C1: over a conforming device, executing a command is a remote call of the device's handler,
  error results and size checks included.
\<close>

theorem hostcmd_refines_rpc:
  assumes "hostcmd (Some (rot_device h)) c v p n want (w, q) = (res, s')"
  shows "rpc h c v p n want w = (res, fst s')"
  using assms by (auto simp: hostcmd_rot)

theorem hostcmd_refines_rpc_witness:
  "rpc (\<lambda>c v p w. ((0, rev p), w + 1)) 5 0 [1, 2] 2 False (0 :: nat) = (Inr [2, 1], 1)"
proof -
  have "hostcmd (Some (rot_device (\<lambda>c v p w. ((0, rev p), w + 1)))) 5 0 [1, 2] 2 False (0 :: nat, []) =
      (Inr [2, 1], (1, request_frame 5 0 [1, 2]))"
    by (simp add: hostcmd_rot rpc_def)
  from hostcmd_refines_rpc [OF this] show ?thesis by simp
qed

text \<open>
  The legacy wrapper. It keeps the payload of a success, offsets EC codes, passes the extended
  codes of the firmware through and reduces everything else to -1.
\<close>

theorem legacy_exec_result:
  "fst (libhoth_hostcmd_exec stk dev c v p m n want s) =
    (case fst (libhoth_hostcmd_exec_v2 stk dev c v p m n want s) of
       Inr r \<Rightarrow> (0, Some r)
     | Inl err \<Rightarrow>
         (if LIBHOTH_ERR_GET_SPACE err = 1 then sint (537200 + LIBHOTH_ERR_GET_CODE err)
          else if LIBHOTH_ERR_GET_SPACE err = 6 then sint (LIBHOTH_ERR_GET_CODE err) else -1, None))"
  by (auto simp: libhoth_hostcmd_exec_def Let_def HTOOL_ERROR_HOST_COMMAND_START_def
      split: prod.splits sum.splits)

text \<open>
  The wrapper hides a failure. A device that fails a command with an extended error code of
  zero makes \<open>libhoth_hostcmd_exec_v2\<close> return an error and \<open>libhoth_hostcmd_exec\<close> return 0, the
  success value, with nothing written to the response buffer.
\<close>

theorem legacy_exec_hides_failure:
  assumes "h c v p w = ((result, [0, 0, 0, 0]), w')" and "result \<noteq> 0" and "length p \<le> 1016"
  shows "(\<exists>e. fst (libhoth_hostcmd_exec_v2 [] (Some (rot_device h)) c v (Some p) (length p) n want (w, q)) = Inl e)
    \<and> fst (libhoth_hostcmd_exec [] (Some (rot_device h)) c v (Some p) (length p) n want (w, q)) = (0, None)"
proof -
  have "fst (libhoth_hostcmd_exec_v2 [] (Some (rot_device h)) c v (Some p) (length p) n want (w, q)) =
      Inl (hoth_err HOTH_CTX_CMD_EXEC HOTH_HOST_SPACE_PIEROT_ERR (le_word [0, 0, 0, 0]))"
    using assms by (simp add: exec_v2_hostcmd hostcmd_rot rpc_def)
  then show ?thesis by (auto simp: legacy_exec_result le_word_def)
qed

theorem legacy_exec_hides_failure_witness:
  "fst (libhoth_hostcmd_exec [] (Some (rot_device (\<lambda>c v p w. ((2, [0, 0, 0, 0]), w)))) 5 0 (Some []) (length ([] :: bytes)) 0 False ((), []))
    = (0, None)"
  using legacy_exec_hides_failure [of "\<lambda>c v p w. ((2, [0, 0, 0, 0]), w)" 5 0 "[]" "()" 2 "()" 0 False "[]"]
  by simp

text \<open>
  A NULL payload with a size sends that many bytes of the uninitialised request buffer: the
  test for a NULL payload in \<open>populate_ec_request_header\<close> is given the buffer, which is not NULL.
\<close>

theorem null_payload_sends_stack:
  assumes "n \<le> 1016" and "length stk = 1016"
  shows "\<exists>frame. drop 8 frame = take n stk \<and>
    libhoth_hostcmd_exec_v2 stk dev c v None n m want s =
      (let (err, s1) = libhoth_send_request dev frame s in
       if err \<noteq> HOTH_SUCCESS then (Inl err, s1)
       else let ((err, resp), s2) = libhoth_receive_response dev 1024 180000 s1 in
            if err \<noteq> HOTH_SUCCESS then (Inl err, s2)
            else (exec_response_payload resp m want, s2))"
proof -
  have "exec_request_frame stk c v None n = exec_request_frame stk c v (Some stk) n"
    using assms by (simp add: exec_request_frame_def memcpy_at_def)
  then obtain h where "exec_request_frame stk c v None n = Inr (request_bytes h @ take n stk)"
    using exec_request_frame_Inr [of n stk stk c v] assms by auto
  moreover have "drop 8 (request_bytes h @ take n stk) = take n stk" by simp
  moreover have "\<not> mailbox_payload_max < n"
    using assms(1) by (simp add: mailbox_payload_max_def LIBHOTH_MAILBOX_SIZE_def)
  ultimately show ?thesis
    unfolding libhoth_hostcmd_exec_v2_def LIBHOTH_MAILBOX_SIZE_def HOTH_CMD_TIMEOUT_MS_DEFAULT_def
    by (intro exI [of _ "request_bytes h @ take n stk"]) simp
qed

theorem null_payload_sends_stack_witness:
  "\<exists>frame. drop 8 frame = [9, 9 :: u8]"
  using null_payload_sends_stack [of 2 "replicate 1016 9" "None :: unit libhoth_device option" 0 0 0 False "()"]
  by (auto simp: numeral_2_eq_2 take_replicate)

end
