(* ===== verification/Rot_Commands.thy ===== *)
theory Rot_Commands
  imports Host_Cmd
begin

text \<open>
  The commands that are one host command each: \<open>command_version.c\<close>, \<open>hello.c\<close>, \<open>reboot.c\<close>,
  \<open>rot_firmware_version.c\<close>, \<open>statistics.c\<close>, \<open>gpio_drive_strength.c\<close>, \<open>target_watchdog.c\<close>,
  \<open>secure_boot.c\<close>, \<open>update_session.c\<close>, \<open>firmware_update.c\<close> and \<open>controlled_storage.c\<close>. A pointer
  to a caller's structure is an option: \<open>None\<close> is NULL, \<open>Some\<close> holds what the structure held
  before. A response that may be shorter than the structure overwrites its beginning.
\<close>

text \<open>A request without a payload: NULL and a size of zero.\<close>

lemma exec_v2_no_payload:
  "libhoth_hostcmd_exec_v2 stk dev c v None 0 n want s = hostcmd dev c v [] n want s"
  by (simp add: hostcmd_def libhoth_hostcmd_exec_v2_def exec_request_frame_def Let_def
      populate_ec_request_header_def mailbox_payload_max_def memcpy_at_def)

section \<open>Command versions\<close>

definition HOTH_CMD_GET_CMD_VERSIONS :: u16 where
  "HOTH_CMD_GET_CMD_VERSIONS = 0x0008"

definition libhoth_get_command_versions ::
  "'s libhoth_device option \<Rightarrow> u16 \<Rightarrow> u32 option \<Rightarrow> 's \<Rightarrow> (u32, 's) hoth_result" where
  "libhoth_get_command_versions dev command version_mask s =
    (case version_mask of None \<Rightarrow> (Inl (cmd_err LIBHOTH_ERR_INVALID_PARAMETER), s)
     | Some _ \<Rightarrow>
       (case hostcmd dev HOTH_CMD_GET_CMD_VERSIONS 1 (le_bytes 2 command) 4 False s of
          (Inl e, s') \<Rightarrow> (Inl e, s')
        | (Inr r, s') \<Rightarrow> (Inr (u32_at 0 r), s')))"

section \<open>Hello\<close>

definition HOTH_CMD_HELLO :: u16 where
  "HOTH_CMD_HELLO = 0x0001"

definition libhoth_hello :: "'s libhoth_device option \<Rightarrow> u32 \<Rightarrow> 's \<Rightarrow> (u32, 's) hoth_result" where
  "libhoth_hello dev input s =
    (case hostcmd dev HOTH_CMD_HELLO 0 (le_bytes 4 input) 4 False s of
       (Inl e, s') \<Rightarrow> (Inl e, s')
     | (Inr r, s') \<Rightarrow> (Inr (u32_at 0 r), s'))"

section \<open>Reboot\<close>

definition HOTH_CMD_REBOOT_EC :: u16 where
  "HOTH_CMD_REBOOT_EC = 0x00D2"

datatype hoth_reboot_cmd = HOTH_REBOOT_COLD | HOTH_REBOOT_WARM

fun reboot_val :: "hoth_reboot_cmd \<Rightarrow> u8" where
  "reboot_val HOTH_REBOOT_COLD = 4"
| "reboot_val HOTH_REBOOT_WARM = 8"

definition libhoth_reboot :: "'s libhoth_device option \<Rightarrow> hoth_reboot_cmd \<Rightarrow> 's \<Rightarrow> (bytes, 's) hoth_result" where
  "libhoth_reboot dev cmd s = hostcmd dev HOTH_CMD_REBOOT_EC 0 [reboot_val cmd, 0] 0 False s"

section \<open>Firmware version\<close>

record hoth_response_get_version =
  version_string_ro :: bytes
  version_string_rw :: bytes
  ver_reserved :: bytes
  current_image :: u32

definition HOTH_CMD_GET_VERSION :: u16 where
  "HOTH_CMD_GET_VERSION = 0x0002"

definition get_version_of_bytes :: "bytes \<Rightarrow> hoth_response_get_version" where
  "get_version_of_bytes r =
    \<lparr>version_string_ro = byte_range 0 32 r, version_string_rw = byte_range 32 32 r,
     ver_reserved = byte_range 64 32 r, current_image = u32_at 96 r\<rparr>"

definition libhoth_get_rot_fw_version ::
  "'s libhoth_device option \<Rightarrow> hoth_response_get_version option \<Rightarrow> 's
    \<Rightarrow> (hoth_response_get_version, 's) hoth_result" where
  "libhoth_get_rot_fw_version dev ver s =
    (case ver of None \<Rightarrow> (Inl (cmd_err LIBHOTH_ERR_INVALID_PARAMETER), s)
     | Some _ \<Rightarrow>
       (case hostcmd dev HOTH_CMD_GET_VERSION 0 [] 100 False s of
          (Inl e, s') \<Rightarrow> (Inl e, s')
        | (Inr r, s') \<Rightarrow> (Inr (get_version_of_bytes r), s')))"

section \<open>Statistics\<close>

record boot_timing_data =
  start_us :: u32
  end_us :: u32

record hoth_response_statistics =
  valid_words :: u32
  hoth_reset_flags :: u32
  time_since_hoth_boot_us :: u64
  hoth_temperature :: u32
  ro_info_strikes :: u32
  rw_info_strikes :: u32
  scratch_value :: u32
  payload_update_failure_reason :: u16
  firmware_update_failure_reason :: u16
  failed_firmware_minor_version :: u32
  boot_timing_total :: boot_timing_data
  boot_timing_firmware_update :: boot_timing_data
  boot_timing_firmware_mirroring :: boot_timing_data
  boot_timing_payload_validation :: boot_timing_data
  payload_update_confirmation_cookie_failure_reason :: u32
  payload_update_confirmation_cookie :: u64
  bootloader_update_error :: u32
  statistics_reserved :: bytes

definition HOTH_PRV_CMD_HOTH_GET_STATISTICS :: u16 where
  "HOTH_PRV_CMD_HOTH_GET_STATISTICS = 0x000F"

definition sizeof_statistics :: nat where
  "sizeof_statistics = 256"

definition boot_timing_at :: "nat \<Rightarrow> bytes \<Rightarrow> boot_timing_data" where
  "boot_timing_at k bs = \<lparr>start_us = u32_at k bs, end_us = u32_at (k + 4) bs\<rparr>"

definition statistics_of_bytes :: "bytes \<Rightarrow> hoth_response_statistics" where
  "statistics_of_bytes bs =
    \<lparr>valid_words = u32_at 0 bs, hoth_reset_flags = u32_at 4 bs,
     time_since_hoth_boot_us = u64_at 8 bs, hoth_temperature = u32_at 16 bs,
     ro_info_strikes = u32_at 20 bs, rw_info_strikes = u32_at 24 bs, scratch_value = u32_at 28 bs,
     payload_update_failure_reason = u16_at 32 bs, firmware_update_failure_reason = u16_at 34 bs,
     failed_firmware_minor_version = u32_at 36 bs,
     boot_timing_total = boot_timing_at 40 bs, boot_timing_firmware_update = boot_timing_at 48 bs,
     boot_timing_firmware_mirroring = boot_timing_at 56 bs,
     boot_timing_payload_validation = boot_timing_at 64 bs,
     payload_update_confirmation_cookie_failure_reason = u32_at 72 bs,
     payload_update_confirmation_cookie = u64_at 76 bs, bootloader_update_error = u32_at 84 bs,
     statistics_reserved = byte_range 88 168 bs\<rparr>"

text \<open>\<open>stats\<close> is the memory of the caller's structure.\<close>

definition libhoth_get_statistics ::
  "'s libhoth_device option \<Rightarrow> bytes option \<Rightarrow> 's \<Rightarrow> (bytes, 's) hoth_result" where
  "libhoth_get_statistics dev stats s =
    (case stats of None \<Rightarrow> (Inl (cmd_err LIBHOTH_ERR_INVALID_PARAMETER), s)
     | Some old \<Rightarrow>
       (case hostcmd dev (HOTH_CMD_BOARD_SPECIFIC_BASE + HOTH_PRV_CMD_HOTH_GET_STATISTICS) 0 []
              sizeof_statistics True s of
          (Inl e, s') \<Rightarrow> (Inl e, s')
        | (Inr r, s') \<Rightarrow> (Inr (memcpy_at 0 r old), s')))"

section \<open>GPIO drive strength\<close>

definition HOTH_CMD_SET_GPIO_DRIVE_STRENGTH :: u16 where
  "HOTH_CMD_SET_GPIO_DRIVE_STRENGTH = 0x3E56"

definition HOTH_CMD_GET_GPIO_DRIVE_STRENGTH :: u16 where
  "HOTH_CMD_GET_GPIO_DRIVE_STRENGTH = 0x3E59"

definition MAX_GPIO_DRIVE_STRENGTH :: u8 where
  "MAX_GPIO_DRIVE_STRENGTH = 0xF"

definition libhoth_set_gpio_drive_strength ::
  "'s libhoth_device option \<Rightarrow> u8 \<Rightarrow> u8 \<Rightarrow> 's \<Rightarrow> (bytes, 's) hoth_result" where
  "libhoth_set_gpio_drive_strength dev pad strength s =
    (if MAX_GPIO_DRIVE_STRENGTH < strength then (Inl (cmd_err LIBHOTH_ERR_INVALID_PARAMETER), s)
     else hostcmd dev HOTH_CMD_SET_GPIO_DRIVE_STRENGTH 0 [pad, strength] 0 False s)"

definition libhoth_get_gpio_drive_strength ::
  "'s libhoth_device option \<Rightarrow> u8 \<Rightarrow> u8 option \<Rightarrow> 's \<Rightarrow> (u8, 's) hoth_result" where
  "libhoth_get_gpio_drive_strength dev pad strength s =
    (case strength of None \<Rightarrow> (Inl (cmd_err LIBHOTH_ERR_INVALID_PARAMETER), s)
     | Some _ \<Rightarrow>
       (case hostcmd dev HOTH_CMD_GET_GPIO_DRIVE_STRENGTH 0 [pad] 1 False s of
          (Inl e, s') \<Rightarrow> (Inl e, s')
        | (Inr r, s') \<Rightarrow> (Inr (r ! 0), s')))"

section \<open>Target watchdog\<close>

definition HOTH_PRV_CMD_HOTH_PET_TARGET_WATCHDOG :: u16 where
  "HOTH_PRV_CMD_HOTH_PET_TARGET_WATCHDOG = 0x005d"

definition libhoth_pet_target_watchdog ::
  "'s libhoth_device option \<Rightarrow> u64 \<Rightarrow> 's \<Rightarrow> (bytes, 's) hoth_result" where
  "libhoth_pet_target_watchdog dev notify_cookie s =
    (if dev = None then (Inl (cmd_err LIBHOTH_ERR_INVALID_PARAMETER), s)
     else hostcmd dev (HOTH_CMD_BOARD_SPECIFIC_BASE + HOTH_PRV_CMD_HOTH_PET_TARGET_WATCHDOG) 0
       (le_bytes 8 notify_cookie) 0 False s)"

section \<open>Secure boot enforcement\<close>

definition HOTH_PRV_CMD_HOTH_SET_SECURE_BOOT_ENFORCEMENT :: u16 where
  "HOTH_PRV_CMD_HOTH_SET_SECURE_BOOT_ENFORCEMENT = 0x001C"

definition HOTH_PRV_CMD_HOTH_GET_SECURE_BOOT_ENFORCEMENT :: u16 where
  "HOTH_PRV_CMD_HOTH_GET_SECURE_BOOT_ENFORCEMENT = 0x001D"

definition SECURE_BOOT_ENFORCEMENT_ENABLED :: u8 where
  "SECURE_BOOT_ENFORCEMENT_ENABLED = 1"

text \<open>The enumeration receives whatever byte the firmware reported.\<close>

definition libhoth_secure_boot_get_enforcement ::
  "'s libhoth_device option \<Rightarrow> u8 option \<Rightarrow> 's \<Rightarrow> (u8, 's) hoth_result" where
  "libhoth_secure_boot_get_enforcement dev enforcement s =
    (case enforcement of None \<Rightarrow> (Inl (cmd_err LIBHOTH_ERR_INVALID_PARAMETER), s)
     | Some _ \<Rightarrow>
       (case hostcmd dev (HOTH_CMD_BOARD_SPECIFIC_BASE + HOTH_PRV_CMD_HOTH_GET_SECURE_BOOT_ENFORCEMENT)
              0 [] 4 True s of
          (Inl e, s') \<Rightarrow> (Inl e, s')
        | (Inr r, s') \<Rightarrow>
            if length r \<noteq> 4 then (Inl (cmd_err LIBHOTH_ERR_FAIL), s') else (Inr (r ! 0), s')))"

definition libhoth_secure_boot_enable_enforcement ::
  "'s libhoth_device option \<Rightarrow> 's \<Rightarrow> (bytes, 's) hoth_result" where
  "libhoth_secure_boot_enable_enforcement dev s =
    hostcmd dev (HOTH_CMD_BOARD_SPECIFIC_BASE + HOTH_PRV_CMD_HOTH_SET_SECURE_BOOT_ENFORCEMENT)
      0 [SECURE_BOOT_ENFORCEMENT_ENABLED, 0, 0, 0] 0 True s"

section \<open>Update session\<close>

definition HOTH_PRV_CMD_HOTH_UPDATE_SESSION_START :: u16 where
  "HOTH_PRV_CMD_HOTH_UPDATE_SESSION_START = 0x005a"

definition HOTH_PRV_CMD_HOTH_UPDATE_SESSION_FINALIZE :: u16 where
  "HOTH_PRV_CMD_HOTH_UPDATE_SESSION_FINALIZE = 0x005b"

definition HOTH_PRV_CMD_HOTH_UPDATE_SESSION_GET_STATUS :: u16 where
  "HOTH_PRV_CMD_HOTH_UPDATE_SESSION_GET_STATUS = 0x005c"

datatype update_session_state =
    UPDATE_SESSION_NONE
  | UPDATE_SESSION_PENDING_START
  | UPDATE_SESSION_UPDATING
  | UPDATE_SESSION_FINALIZED
  | UPDATE_SESSION_START_TIMEOUT
  | UPDATE_SESSION_UPDATE_TIMEOUT

fun session_state_val :: "update_session_state \<Rightarrow> int" where
  "session_state_val UPDATE_SESSION_NONE = 0"
| "session_state_val UPDATE_SESSION_PENDING_START = 1"
| "session_state_val UPDATE_SESSION_UPDATING = 2"
| "session_state_val UPDATE_SESSION_FINALIZED = 3"
| "session_state_val UPDATE_SESSION_START_TIMEOUT = 4"
| "session_state_val UPDATE_SESSION_UPDATE_TIMEOUT = 5"

record update_session_status_response =
  current_state :: u32
  timeout_seconds_left :: u32

definition libhoth_update_session_start ::
  "'s libhoth_device option \<Rightarrow> u32 \<Rightarrow> 's \<Rightarrow> (bytes, 's) hoth_result" where
  "libhoth_update_session_start dev timeout_seconds s =
    (if dev = None \<or> timeout_seconds = 0 then (Inl (cmd_err LIBHOTH_ERR_INVALID_PARAMETER), s)
     else hostcmd dev (HOTH_CMD_BOARD_SPECIFIC_BASE + HOTH_PRV_CMD_HOTH_UPDATE_SESSION_START) 0
       (le_bytes 4 timeout_seconds) 0 True s)"

definition libhoth_update_session_finalize ::
  "'s libhoth_device option \<Rightarrow> 's \<Rightarrow> (bytes, 's) hoth_result" where
  "libhoth_update_session_finalize dev s =
    (if dev = None then (Inl (cmd_err LIBHOTH_ERR_INVALID_PARAMETER), s)
     else hostcmd dev (HOTH_CMD_BOARD_SPECIFIC_BASE + HOTH_PRV_CMD_HOTH_UPDATE_SESSION_FINALIZE) 0
       [] 0 True s)"

definition libhoth_update_session_get_status ::
  "'s libhoth_device option \<Rightarrow> update_session_status_response option \<Rightarrow> 's
    \<Rightarrow> (update_session_status_response, 's) hoth_result" where
  "libhoth_update_session_get_status dev status s =
    (if dev = None \<or> status = None then (Inl (cmd_err LIBHOTH_ERR_INVALID_PARAMETER), s)
     else
       (case hostcmd dev (HOTH_CMD_BOARD_SPECIFIC_BASE + HOTH_PRV_CMD_HOTH_UPDATE_SESSION_GET_STATUS)
              0 [] 8 True s of
          (Inl e, s') \<Rightarrow> (Inl e, s')
        | (Inr r, s') \<Rightarrow>
            if length r \<noteq> 8 then (Inl (cmd_err LIBHOTH_ERR_FAIL), s')
            else (Inr \<lparr>current_state = u32_at 0 r, timeout_seconds_left = u32_at 4 r\<rparr>, s')))"

definition libhoth_update_session_state_string :: "u32 \<Rightarrow> string" where
  "libhoth_update_session_state_string state =
    (case switch_str session_state_val
       [(UPDATE_SESSION_NONE, ''NONE''), (UPDATE_SESSION_PENDING_START, ''PENDING_START''),
        (UPDATE_SESSION_UPDATING, ''UPDATING''), (UPDATE_SESSION_FINALIZED, ''FINALIZED''),
        (UPDATE_SESSION_START_TIMEOUT, ''START_TIMEOUT''),
        (UPDATE_SESSION_UPDATE_TIMEOUT, ''UPDATE_TIMEOUT'')] state of
       None \<Rightarrow> ''UNKNOWN'' | Some t \<Rightarrow> t)"

section \<open>Firmware update from flash\<close>

definition HOTH_CMD_FIRMWARE_UPDATE :: u16 where
  "HOTH_CMD_FIRMWARE_UPDATE = 0x3e4b"

definition HOTH_FIRMWARE_UPDATE_OP_UPDATE_AND_RESET :: u32 where
  "HOTH_FIRMWARE_UPDATE_OP_UPDATE_AND_RESET = 1"

text \<open>
  A firmware that updates resets the chip: the link is lost, and any error that is neither the
  firmware's nor the EC's is taken for that and answered with a reconnection.
\<close>

definition libhoth_firmware_update_from_flash_and_reset ::
  "'s libhoth_device option \<Rightarrow> u32 \<Rightarrow> 's \<Rightarrow> libhoth_error \<times> 's" where
  "libhoth_firmware_update_from_flash_and_reset dev offset s =
    (let request = le_bytes 4 HOTH_FIRMWARE_UPDATE_OP_UPDATE_AND_RESET @ le_bytes 4 (0 :: u32)
                   @ le_bytes 4 offset in
     case hostcmd dev HOTH_CMD_FIRMWARE_UPDATE 0 request 0 False s of
       (Inr _, s') \<Rightarrow> (HOTH_SUCCESS, s')
     | (Inl err, s') \<Rightarrow>
         if LIBHOTH_ERR_GET_SPACE err = word_of_int (space_val HOTH_HOST_SPACE_EC) \<or>
            LIBHOTH_ERR_GET_SPACE err = word_of_int (space_val HOTH_HOST_SPACE_PIEROT_ERR)
         then (err, s')
         else libhoth_device_reconnect dev s')"

section \<open>Controlled storage\<close>

definition HOTH_PRV_CMD_HOTH_CONTROLLED_STORAGE :: u16 where
  "HOTH_PRV_CMD_HOTH_CONTROLLED_STORAGE = 0x0015"

definition CONTROLLED_STORAGE_SIZE :: nat where
  "CONTROLLED_STORAGE_SIZE = 64"

datatype controlled_storage_op =
  CONTROLLED_STORAGE_READ | CONTROLLED_STORAGE_WRITE | CONTROLLED_STORAGE_DELETE

fun storage_op_val :: "controlled_storage_op \<Rightarrow> u32" where
  "storage_op_val CONTROLLED_STORAGE_READ = 0"
| "storage_op_val CONTROLLED_STORAGE_WRITE = 1"
| "storage_op_val CONTROLLED_STORAGE_DELETE = 2"

text \<open>The operation and slot, and the payload field, zero-initialised.\<close>

definition controlled_storage_request :: "controlled_storage_op \<Rightarrow> u32 \<Rightarrow> bytes \<Rightarrow> bytes" where
  "controlled_storage_request op slot data =
    le_bytes 4 (storage_op_val op) @ le_bytes 4 slot
    @ memcpy_at 0 data (replicate CONTROLLED_STORAGE_SIZE 0)"

text \<open>\<open>want_len\<close>: whether \<open>payload_len\<close> is not NULL.\<close>

definition libhoth_controlled_storage_read ::
  "'s libhoth_device option \<Rightarrow> u32 \<Rightarrow> bytes option \<Rightarrow> bool \<Rightarrow> 's \<Rightarrow> (bytes \<times> nat, 's) hoth_result" where
  "libhoth_controlled_storage_read dev slot payload want_len s =
    (if dev = None then (Inl (cmd_err LIBHOTH_ERR_INVALID_PARAMETER), s)
     else case payload of None \<Rightarrow> (Inl (cmd_err LIBHOTH_ERR_INVALID_PARAMETER), s)
     | Some old \<Rightarrow>
       (case hostcmd dev (HOTH_CMD_BOARD_SPECIFIC_BASE + HOTH_PRV_CMD_HOTH_CONTROLLED_STORAGE) 0
              (controlled_storage_request CONTROLLED_STORAGE_READ slot []) CONTROLLED_STORAGE_SIZE
              want_len s of
          (Inl e, s') \<Rightarrow> (Inl e, s')
        | (Inr r, s') \<Rightarrow> (Inr (memcpy_at 0 r old, length r), s')))"

definition libhoth_controlled_storage_write ::
  "'s libhoth_device option \<Rightarrow> u32 \<Rightarrow> bytes option \<Rightarrow> 's \<Rightarrow> (bytes, 's) hoth_result" where
  "libhoth_controlled_storage_write dev slot data s =
    (if dev = None then (Inl (cmd_err LIBHOTH_ERR_INVALID_PARAMETER), s)
     else case data of None \<Rightarrow> (Inl (cmd_err LIBHOTH_ERR_INVALID_PARAMETER), s)
     | Some d \<Rightarrow>
       if CONTROLLED_STORAGE_SIZE < length d then (Inl (cmd_err LIBHOTH_ERR_INVALID_PARAMETER), s)
       else hostcmd dev (HOTH_CMD_BOARD_SPECIFIC_BASE + HOTH_PRV_CMD_HOTH_CONTROLLED_STORAGE) 0
              (take (8 + length d) (controlled_storage_request CONTROLLED_STORAGE_WRITE slot d)) 0 False s)"

definition libhoth_controlled_storage_delete ::
  "'s libhoth_device option \<Rightarrow> u32 \<Rightarrow> 's \<Rightarrow> (bytes, 's) hoth_result" where
  "libhoth_controlled_storage_delete dev slot s =
    (if dev = None then (Inl (cmd_err LIBHOTH_ERR_INVALID_PARAMETER), s)
     else hostcmd dev (HOTH_CMD_BOARD_SPECIFIC_BASE + HOTH_PRV_CMD_HOTH_CONTROLLED_STORAGE) 0
            (take 8 (controlled_storage_request CONTROLLED_STORAGE_DELETE slot [])) 0 False s)"

end
