(* ===== verification/Hoth_Util.thy ===== *)
theory Hoth_Util
  imports Hoth_Prelude
begin

text \<open>
  \<open>protocol/util.c\<close> and \<open>protocol/progress.c\<close>. The clock, the process id and \<open>write\<close> belong to the
  operating system and are parameters. Of the progress report the decision to print and the
  elapsed time are modelled; the percentages are floating point and only printed.
\<close>

section \<open>Time\<close>

record timespec =
  tv_sec :: int
  tv_nsec :: int

text \<open>\<open>None\<close> is a failed \<open>clock_gettime\<close>, after which the process exits.\<close>

definition libhoth_get_monotonic_ms :: "timespec option \<Rightarrow> u64 option" where
  "libhoth_get_monotonic_ms clock =
    (case clock of None \<Rightarrow> None
     | Some ts \<Rightarrow> Some (word_of_int (tv_sec ts) * 1000 + word_of_int (tv_nsec ts) div 1000000))"

definition libhoth_prng_seed :: "timespec option \<Rightarrow> int \<Rightarrow> u32 option" where
  "libhoth_prng_seed clock getpid =
    (case clock of None \<Rightarrow> None
     | Some ts \<Rightarrow> Some (word_of_int (tv_sec ts) XOR word_of_int (tv_nsec ts) XOR word_of_int getpid))"

definition ts_subtract :: "timespec \<Rightarrow> timespec \<Rightarrow> timespec" where
  "ts_subtract a b =
    (if tv_nsec b \<le> tv_nsec a
     then \<lparr>tv_sec = tv_sec a - tv_sec b, tv_nsec = tv_nsec a - tv_nsec b\<rparr>
     else \<lparr>tv_sec = (tv_sec a - tv_sec b) - 1, tv_nsec = tv_nsec a + 1000000000 - tv_nsec b\<rparr>)"

definition ts_milliseconds :: "timespec \<Rightarrow> u64" where
  "ts_milliseconds ts = word_of_int (tv_sec ts) * 1000 + word_of_int (tv_nsec ts div 1000000)"

section \<open>Writing everything\<close>

text \<open>
  \<open>wr\<close> is \<open>write\<close> on the descriptor: an \<open>errno\<close> or the number of bytes taken. A descriptor that
  keeps taking nothing keeps the loop going, which is the value \<open>None\<close>. The result is 0 or
  the \<open>errno\<close>.
\<close>

partial_function (option) libhoth_force_write ::
  "(bytes \<Rightarrow> 's \<Rightarrow> (int + nat) \<times> 's) \<Rightarrow> bytes \<Rightarrow> 's \<Rightarrow> (int \<times> 's) option" where
  "libhoth_force_write wr buf s =
    (if buf = [] then Some (0, s)
     else case wr buf s of
            (Inl errno, s') \<Rightarrow> Some (errno, s')
          | (Inr n, s') \<Rightarrow> libhoth_force_write wr (drop n buf) s')"

text \<open>A descriptor that takes some of what it is given, as \<open>write\<close> does.\<close>

definition takes_some :: "(bytes \<Rightarrow> 's \<Rightarrow> (int + nat) \<times> 's) \<Rightarrow> ('s \<Rightarrow> bytes) \<Rightarrow> bool" where
  "takes_some wr out \<longleftrightarrow>
    (\<forall>buf s. buf \<noteq> [] \<longrightarrow>
      (case wr buf s of
         (Inl errno, s') \<Rightarrow> errno \<noteq> 0 \<and> out s' = out s
       | (Inr n, s') \<Rightarrow> 0 < n \<and> n \<le> length buf \<and> out s' = out s @ take n buf))"

lemma force_write_returns:
  assumes "takes_some wr out"
  shows "\<exists>errno s'. libhoth_force_write wr buf s = Some (errno, s') \<and>
    (\<exists>n \<le> length buf. out s' = out s @ take n buf \<and> (errno = 0 \<longrightarrow> n = length buf))"
proof (induction "length buf" arbitrary: buf s rule: less_induct)
  case less
  show ?case
  proof (cases "buf = []")
    case True
    then show ?thesis by (subst libhoth_force_write.simps) simp
  next
    case False
    obtain r s1 where w: "wr buf s = (r, s1)" by (cases "wr buf s")
    show ?thesis
    proof (cases r)
      case (Inl errno)
      with assms False w have "errno \<noteq> 0" "out s1 = out s"
        by (auto simp: takes_some_def dest!: spec [of _ buf] spec [of _ s])
      with Inl w False show ?thesis
        by (subst libhoth_force_write.simps) (auto intro!: exI [of _ 0])
    next
      case (Inr n)
      with assms False w have n: "0 < n" "n \<le> length buf" "out s1 = out s @ take n buf"
        by (auto simp: takes_some_def dest!: spec [of _ buf] spec [of _ s])
      then have "length (drop n buf) < length buf" using False by simp
      from less [OF this, of s1] obtain e s' m where
        r: "libhoth_force_write wr (drop n buf) s1 = Some (e, s')"
           "m \<le> length (drop n buf)" "out s' = out s1 @ take m (drop n buf)"
           "e = 0 \<longrightarrow> m = length (drop n buf)" by blast
      have "out s' = out s @ take (n + m) buf" using r(3) n(3) by (simp add: take_add)
      moreover have "n + m \<le> length buf" "e = 0 \<longrightarrow> n + m = length buf"
        using r(2,4) n(2) by auto
      ultimately show ?thesis using r(1) w Inr False
        by (subst libhoth_force_write.simps) auto
    qed
  qed
qed

text \<open>What every write leaves alone is left alone by the loop.\<close>

lemma force_write_frame:
  assumes "libhoth_force_write wr buf s = Some r"
    and "\<forall>buf s. g (snd (wr buf s)) = g s"
  shows "g (snd r) = g s"
  using assms
proof (induction wr buf s r rule: libhoth_force_write.raw_induct [rotated, consumes 1, case_names step])
  case (step f wr b t r)
  obtain x t' where w: "wr b t = (x, t')" by (cases "wr b t")
  then have "g t' = g t" using step(3) by (metis snd_conv)
  with step w show ?case by (auto split: if_splits sum.splits)
qed

text \<open>
  Writing returns on a descriptor that makes progress; it has written a prefix of the
  buffer, and all of it exactly when it reports 0.
\<close>

theorem force_write_complete:
  assumes "takes_some wr out"
  shows "\<exists>errno s' n. libhoth_force_write wr buf s = Some (errno, s') \<and>
    n \<le> length buf \<and> out s' = out s @ take n buf \<and> (errno = 0 \<longrightarrow> out s' = out s @ buf)"
  using force_write_returns [OF assms, of buf s] by fastforce

text \<open>A pipe that takes at most two bytes at a time.\<close>

definition slow_pipe :: "bytes \<Rightarrow> bytes \<Rightarrow> (int + nat) \<times> bytes" where
  "slow_pipe buf s = (Inr (min 2 (length buf)), s @ take 2 buf)"

theorem force_write_complete_witness:
  "\<exists>errno s'. libhoth_force_write slow_pipe [1, 2, 3, 4, 5] [0] = Some (errno, s') \<and>
    (errno = 0 \<longrightarrow> s' = [0, 1, 2, 3, 4, 5])"
proof -
  have "takes_some slow_pipe (\<lambda>s. s)"
    by (auto simp: takes_some_def slow_pipe_def min_def Suc_le_eq)
  from force_write_complete [OF this, of "[1, 2, 3, 4, 5]" "[0]"] show ?thesis by auto
qed

section \<open>When progress is reported\<close>

text \<open>
  The decision of \<open>libhoth_progress_stderr_func\<close> on its \<open>last_reported_val\<close>: whether a line is
  printed, and the new value. The sum is on 64 bits.
\<close>

definition progress_step :: "bool \<Rightarrow> u64 \<Rightarrow> u64 \<Rightarrow> u64 \<Rightarrow> bool \<times> u64" where
  "progress_step is_tty current tot last_reported_val =
    (if \<not> is_tty then (False, last_reported_val)
     else
       let one_percent_threshold = (if tot < 100 then 1 else tot div 100);
           is_start = (current = 0);
           is_end = (current = tot);
           has_sufficient_progress = (last_reported_val + one_percent_threshold \<le> current)
       in if \<not> is_start \<and> \<not> is_end \<and> \<not> has_sufficient_progress then (False, last_reported_val)
          else (True, current))"

fun progress_lines :: "bool \<Rightarrow> u64 \<Rightarrow> u64 \<Rightarrow> u64 list \<Rightarrow> nat" where
  "progress_lines is_tty tot prev [] = 0"
| "progress_lines is_tty tot prev (c # cs) =
    (case progress_step is_tty c tot prev of
       (shown, prev') \<Rightarrow> (if shown then 1 else 0) + progress_lines is_tty tot prev' cs)"

end
