(* ===== verification/Payload_Info.thy ===== *)
theory Payload_Info
  imports Hoth_Prelude "HOL-Library.Monad_Syntax"
begin

text \<open>
  \<open>protocol/payload_info.c\<close>: finding the descriptor of a payload image and reading it. The image
  comes from a file; every access goes through \<open>read_at\<close>, so that an access outside the image is
  \<open>None\<close>. Sizes are \<open>nat\<close>: an object's length fits \<open>size_t\<close> with room for the sums.
\<close>

section \<open>Layout\<close>

definition TITAN_IMAGE_DESCRIPTOR_MAGIC :: u64 where
  "TITAN_IMAGE_DESCRIPTOR_MAGIC = 0x5f435344474d495f"

definition TITAN_IMAGE_DESCRIPTOR_ALIGNMENT :: nat where
  "TITAN_IMAGE_DESCRIPTOR_ALIGNMENT = 65536"

definition HASH_SHA2_256 :: u8 where
  "HASH_SHA2_256 = 2"

definition PAYLOAD_INFO_ALL_MAX_REGIONS :: nat where
  "PAYLOAD_INFO_ALL_MAX_REGIONS = 32"

text \<open>\<open>sizeof\<close> of \<open>struct image_descriptor\<close>, \<open>struct image_region\<close> and \<open>struct hash_sha256\<close>.\<close>

abbreviation sizeof_descriptor :: nat where "sizeof_descriptor \<equiv> 96"
abbreviation sizeof_region :: nat where "sizeof_region \<equiv> 44"
abbreviation sizeof_hash :: nat where "sizeof_hash \<equiv> 36"

text \<open>The fields of the descriptor that the code reads, with their offsets.\<close>

definition descriptor_field :: "nat \<Rightarrow> nat \<Rightarrow> nat \<Rightarrow> bytes \<Rightarrow> bytes option" where
  "descriptor_field descr field n img = read_at (descr + field) n img"

abbreviation "off_descriptor_major \<equiv> 8 :: nat"
abbreviation "off_descriptor_minor \<equiv> 9 :: nat"
abbreviation "off_descriptor_area_size \<equiv> 16 :: nat"
abbreviation "off_image_name \<equiv> 20 :: nat"
abbreviation "off_image_family \<equiv> 52 :: nat"
abbreviation "off_image_major \<equiv> 56 :: nat"
abbreviation "off_image_minor \<equiv> 60 :: nat"
abbreviation "off_image_point \<equiv> 64 :: nat"
abbreviation "off_image_subpoint \<equiv> 68 :: nat"
abbreviation "off_build_timestamp \<equiv> 72 :: nat"
abbreviation "off_image_type \<equiv> 80 :: nat"
abbreviation "off_hash_type \<equiv> 82 :: nat"
abbreviation "off_region_count \<equiv> 84 :: nat"
abbreviation "off_image_size \<equiv> 88 :: nat"
abbreviation "off_blob_size \<equiv> 92 :: nat"

record payload_version =
  pv_major :: u32
  pv_minor :: u32
  pv_point :: u32
  pv_subpoint :: u32

record payload_info =
  image_name :: bytes
  image_family :: u32
  image_version :: payload_version
  image_type :: u8
  image_hash :: bytes

record payload_region_info =
  region_name :: bytes
  region_offset :: u32
  region_size :: u32
  region_version :: u16
  region_attributes :: u16

record payload_info_all =
  info :: payload_info
  descriptor_major :: u8
  descriptor_minor :: u8
  build_timestamp :: u64
  hash_type :: u8
  region_count :: u8
  image_size :: u32
  blob_size :: u32
  regions :: "payload_region_info list"

section \<open>Finding the descriptor\<close>

function find_descriptor_from :: "bytes \<Rightarrow> nat \<Rightarrow> nat option option" where
  "find_descriptor_from img off =
    (if off + sizeof_descriptor - 1 < length img then
       (case read_at off 8 img of None \<Rightarrow> None
        | Some magic \<Rightarrow>
          if le_word magic = TITAN_IMAGE_DESCRIPTOR_MAGIC then
            (case descriptor_field off off_descriptor_area_size 4 img of None \<Rightarrow> None
             | Some area \<Rightarrow>
               if length img < le_nat area + off then Some None else Some (Some off))
          else find_descriptor_from img (off + TITAN_IMAGE_DESCRIPTOR_ALIGNMENT))
     else Some None)"
  by pat_completeness auto
termination
  by (relation "measure (\<lambda>(img, off). length img - off)")
    (auto simp: TITAN_IMAGE_DESCRIPTOR_ALIGNMENT_def)

declare find_descriptor_from.simps [simp del]

text \<open>The outer option is memory safety, the inner one the returned pointer.\<close>

definition libhoth_find_image_descriptor :: "bytes \<Rightarrow> nat option option" where
  "libhoth_find_image_descriptor img = find_descriptor_from img 0"

section \<open>Reading the descriptor\<close>

text \<open>The fields copied before the hash is looked at.\<close>

definition read_image_fields :: "bytes \<Rightarrow> nat \<Rightarrow> payload_info \<Rightarrow> payload_info option" where
  "read_image_fields img d pinfo =
    do {
      name \<leftarrow> descriptor_field d off_image_name 32 img;
      family \<leftarrow> descriptor_field d off_image_family 4 img;
      major \<leftarrow> descriptor_field d off_image_major 4 img;
      minor \<leftarrow> descriptor_field d off_image_minor 4 img;
      point \<leftarrow> descriptor_field d off_image_point 4 img;
      subpoint \<leftarrow> descriptor_field d off_image_subpoint 4 img;
      type \<leftarrow> descriptor_field d off_image_type 1 img;
      Some (pinfo\<lparr>
        image_name := name[31 := 0], image_family := le_word family,
        image_version := \<lparr>pv_major = le_word major, pv_minor = le_word minor,
                          pv_point = le_word point, pv_subpoint = le_word subpoint\<rparr>,
        image_type := le_word type\<rparr>)
    }"

definition libhoth_payload_info :: "bytes \<Rightarrow> payload_info \<Rightarrow> (bool \<times> payload_info) option" where
  "libhoth_payload_info img pinfo =
    do {
      found \<leftarrow> libhoth_find_image_descriptor img;
      (case found of None \<Rightarrow> Some (False, pinfo)
       | Some d \<Rightarrow>
         do {
           pinfo \<leftarrow> read_image_fields img d pinfo;
           hashtype \<leftarrow> descriptor_field d off_hash_type 1 img;
           if le_word hashtype \<noteq> HASH_SHA2_256
           then Some (False, pinfo\<lparr>image_hash := replicate 32 0\<rparr>)
           else
             do {
               area \<leftarrow> descriptor_field d off_descriptor_area_size 4 img;
               if le_nat area \<le> sizeof_descriptor + sizeof_hash then Some (False, pinfo)
               else
                 do {
                   count \<leftarrow> descriptor_field d off_region_count 1 img;
                   let region_bytes = le_nat count * sizeof_region;
                   if le_nat area - sizeof_descriptor - sizeof_hash < region_bytes
                   then Some (False, pinfo)
                   else
                     do {
                       hash \<leftarrow> read_at (d + sizeof_descriptor + region_bytes + 4) 32 img;
                       Some (True, pinfo\<lparr>image_hash := hash\<rparr>)
                     }
                 }
             }
         })
    }"

fun copy_regions ::
  "bytes \<Rightarrow> nat \<Rightarrow> nat \<Rightarrow> nat \<Rightarrow> payload_region_info list \<Rightarrow> payload_region_info list option" where
  "copy_regions img d i 0 dst = Some dst"
| "copy_regions img d i (Suc n) dst =
    do {
      r \<leftarrow> read_at (d + sizeof_descriptor + sizeof_region * i) sizeof_region img;
      copy_regions img d (Suc i) n
        (dst[i := \<lparr>region_name = (take 32 r)[31 := 0], region_offset = u32_at 32 r,
                   region_size = u32_at 36 r, region_version = u16_at 40 r,
                   region_attributes = u16_at 42 r\<rparr>])
    }"

definition libhoth_payload_info_all ::
  "bytes \<Rightarrow> payload_info_all \<Rightarrow> (bool \<times> payload_info_all) option" where
  "libhoth_payload_info_all img info_all =
    do {
      (ok, pinfo) \<leftarrow> libhoth_payload_info img (info info_all);
      let info_all = info_all\<lparr>info := pinfo\<rparr>;
      if \<not> ok then Some (False, info_all)
      else
        do {
          found \<leftarrow> libhoth_find_image_descriptor img;
          (case found of None \<Rightarrow> Some (False, info_all)
           | Some d \<Rightarrow>
             do {
               count \<leftarrow> descriptor_field d off_region_count 1 img;
               if PAYLOAD_INFO_ALL_MAX_REGIONS < le_nat count then Some (False, info_all)
               else
                 do {
                   area \<leftarrow> descriptor_field d off_descriptor_area_size 4 img;
                   if le_nat area < sizeof_descriptor + le_nat count * sizeof_region
                   then Some (False, info_all)
                   else
                     do {
                       major \<leftarrow> descriptor_field d off_descriptor_major 1 img;
                       minor \<leftarrow> descriptor_field d off_descriptor_minor 1 img;
                       stamp \<leftarrow> descriptor_field d off_build_timestamp 8 img;
                       hashtype \<leftarrow> descriptor_field d off_hash_type 1 img;
                       isize \<leftarrow> descriptor_field d off_image_size 4 img;
                       bsize \<leftarrow> descriptor_field d off_blob_size 4 img;
                       rs \<leftarrow> copy_regions img d 0 (le_nat count) (regions info_all);
                       Some (True, info_all\<lparr>
                         descriptor_major := le_word major, descriptor_minor := le_word minor,
                         build_timestamp := le_word stamp, hash_type := le_word hashtype,
                         region_count := le_word count, image_size := le_word isize,
                         blob_size := le_word bsize, regions := rs\<rparr>)
                     }
                 }
             })
        }
    }"

section \<open>Memory safety and the descriptor that is found\<close>

definition descriptor_at :: "bytes \<Rightarrow> nat \<Rightarrow> bool" where
  "descriptor_at img off \<longleftrightarrow>
    off + sizeof_descriptor \<le> length img \<and>
    le_word (byte_range off 8 img) = TITAN_IMAGE_DESCRIPTOR_MAGIC"

definition clipped :: "bytes \<Rightarrow> nat \<Rightarrow> bool" where
  "clipped img off \<longleftrightarrow> length img < le_nat (byte_range (off + off_descriptor_area_size) 4 img) + off"

lemma find_descriptor_from_spec:
  "find_descriptor_from img off =
    Some (if \<exists>k. descriptor_at img (off + 65536 * k)
          then let o' = off + 65536 * (LEAST k. descriptor_at img (off + 65536 * k))
               in if clipped img o' then None else Some o'
          else None)"
proof (induction img off rule: find_descriptor_from.induct)
  case (1 img off)
  show ?case
  proof (cases "off + 96 \<le> length img")
    case False
    then have "\<not> descriptor_at img (off + 65536 * k)" for k
      by (auto simp: descriptor_at_def)
    then show ?thesis using False by (subst find_descriptor_from.simps) auto
  next
    case inside: True
    show ?thesis
    proof (cases "descriptor_at img off")
      case True
      then have D: "descriptor_at img (off + 65536 * 0)" by simp
      then have L: "(LEAST k. descriptor_at img (off + 65536 * k)) = 0"
        by (intro Least_equality) auto
      have E: "\<exists>k. descriptor_at img (off + 65536 * k)" using D by (rule exI)
      show ?thesis using True inside E L
        by (subst find_descriptor_from.simps)
          (auto simp: descriptor_at_def descriptor_field_def clipped_def)
    next
      case False
      have step: "find_descriptor_from img off = find_descriptor_from img (off + 65536)"
        using False inside by (subst find_descriptor_from.simps)
          (auto simp: descriptor_at_def TITAN_IMAGE_DESCRIPTOR_ALIGNMENT_def)
      have shift: "descriptor_at img (off + 65536 * k) \<longleftrightarrow>
          (\<exists>j. k = Suc j \<and> descriptor_at img (off + 65536 + 65536 * j))" for k
        using False by (cases k) (auto simp: algebra_simps)
      have ex: "(\<exists>k. descriptor_at img (off + 65536 * k)) \<longleftrightarrow>
          (\<exists>k. descriptor_at img (off + 65536 + 65536 * k))"
        using shift by blast
      have least: "(LEAST k. descriptor_at img (off + 65536 * k)) =
          Suc (LEAST k. descriptor_at img (off + 65536 + 65536 * k))"
        if E: "\<exists>k. descriptor_at img (off + 65536 + 65536 * k)"
      proof (rule Least_equality)
        show "descriptor_at img (off + 65536 * Suc (LEAST k. descriptor_at img (off + 65536 + 65536 * k)))"
          using LeastI_ex [OF E] by (simp add: algebra_simps)
        show "Suc (LEAST k. descriptor_at img (off + 65536 + 65536 * k)) \<le> y"
          if "descriptor_at img (off + 65536 * y)" for y
          using that shift [of y] by (auto intro: Least_le)
      qed
      have IH: "find_descriptor_from img (off + 65536) =
        Some (if \<exists>k. descriptor_at img (off + 65536 + 65536 * k)
          then let o' = off + 65536 + 65536 * (LEAST k. descriptor_at img (off + 65536 + 65536 * k))
               in if clipped img o' then None else Some o'
          else None)"
        using 1 [of "byte_range off 8 img"] inside False
        by (auto simp: descriptor_at_def TITAN_IMAGE_DESCRIPTOR_ALIGNMENT_def)
      show ?thesis
      proof (cases "\<exists>k. descriptor_at img (off + 65536 + 65536 * k)")
        case True
        then show ?thesis using ex least by (simp add: step IH Let_def add.assoc)
      next
        case False
        then show ?thesis using ex by (simp add: step IH)
      qed
    qed
  qed
qed

lemma find_image_descriptor_inside:
  assumes "libhoth_find_image_descriptor img = Some (Some d)"
  shows "d + sizeof_descriptor \<le> length img"
    and "d + le_nat (byte_range (d + off_descriptor_area_size) 4 img) \<le> length img"
proof -
  let ?P = "\<lambda>k. descriptor_at img (0 + 65536 * k)"
  have P: "\<exists>k. ?P k" and d: "d = 65536 * (LEAST k. ?P k)" and c: "\<not> clipped img d"
    using assms find_descriptor_from_spec [of img 0]
    by (auto simp: libhoth_find_image_descriptor_def Let_def split: if_splits)
  from LeastI_ex [OF P] d show "d + sizeof_descriptor \<le> length img"
    by (simp add: descriptor_at_def)
  from c show "d + le_nat (byte_range (d + off_descriptor_area_size) 4 img) \<le> length img"
    by (simp add: clipped_def)
qed

lemma find_image_descriptor_safe: "libhoth_find_image_descriptor img \<noteq> None"
  using find_descriptor_from_spec [of img 0] by (simp add: libhoth_find_image_descriptor_def)

text \<open>
  The descriptor search is memory safe and finds the first aligned descriptor; a first
  descriptor whose area is clipped by the end of the image ends the search with no result.
\<close>

theorem find_image_descriptor_first:
  "(\<exists>d. libhoth_find_image_descriptor img = Some (Some d) \<and> 65536 dvd d \<and> descriptor_at img d \<and>
      \<not> clipped img d \<and> (\<forall>d' < d. 65536 dvd d' \<longrightarrow> \<not> descriptor_at img d')) \<or>
   libhoth_find_image_descriptor img = Some None \<and>
     ((\<forall>d. 65536 dvd d \<longrightarrow> \<not> descriptor_at img d) \<or>
      (\<exists>d. 65536 dvd d \<and> descriptor_at img d \<and> clipped img d \<and>
        (\<forall>d' < d. 65536 dvd d' \<longrightarrow> \<not> descriptor_at img d')))"
proof (cases "\<exists>k. descriptor_at img (65536 * k)")
  case True
  let ?d = "65536 * (LEAST k. descriptor_at img (65536 * k))"
  have D: "descriptor_at img ?d" using True by (rule LeastI_ex)
  have M: "\<not> descriptor_at img d'" if "d' < ?d" "65536 dvd d'" for d'
  proof -
    from that(2) obtain k where k: "d' = 65536 * k" by (rule dvdE)
    with that(1) have "k < (LEAST k. descriptor_at img (65536 * k))" by simp
    from not_less_Least [OF this] k show ?thesis by simp
  qed
  have F: "libhoth_find_image_descriptor img = Some (if clipped img ?d then None else Some ?d)"
    using find_descriptor_from_spec [of img 0] True
    by (simp add: libhoth_find_image_descriptor_def)
  show ?thesis
  proof (cases "clipped img ?d")
    case True
    with D M have "65536 dvd ?d \<and> descriptor_at img ?d \<and> clipped img ?d \<and>
        (\<forall>d' < ?d. 65536 dvd d' \<longrightarrow> \<not> descriptor_at img d')"
      using dvd_triv_left [of 65536] by blast
    moreover from True F have "libhoth_find_image_descriptor img = Some None" by simp
    ultimately show ?thesis by blast
  next
    case False
    with F have "libhoth_find_image_descriptor img = Some (Some ?d)" by simp
    with D M False show ?thesis using dvd_triv_left [of 65536] by blast
  qed
next
  case False
  then have "\<forall>d. 65536 dvd d \<longrightarrow> \<not> descriptor_at img d" by (metis dvdE)
  moreover have "libhoth_find_image_descriptor img = Some None"
    using find_descriptor_from_spec [of img 0] False by (simp add: libhoth_find_image_descriptor_def)
  ultimately show ?thesis by blast
qed

theorem find_image_descriptor_first_witness:
  "(\<exists>d. libhoth_find_image_descriptor (replicate 95 0) = Some (Some d)) \<or>
    libhoth_find_image_descriptor (replicate 95 0) = Some None"
  using find_image_descriptor_first [of "replicate 95 0"] by blast

section \<open>Reading is memory safe\<close>

definition region_of :: "bytes \<Rightarrow> payload_region_info" where
  "region_of r =
    \<lparr>region_name = (take 32 r)[31 := 0], region_offset = u32_at 32 r, region_size = u32_at 36 r,
     region_version = u16_at 40 r, region_attributes = u16_at 42 r\<rparr>"

lemma copy_regions_inside:
  assumes "d + sizeof_descriptor + sizeof_region * (i + n) \<le> length img" "i + n \<le> length dst"
  shows "\<exists>rs. copy_regions img d i n dst = Some rs \<and> length rs = length dst \<and>
    (\<forall>j < length dst. rs ! j =
      (if i \<le> j \<and> j < i + n then region_of (byte_range (d + sizeof_descriptor + sizeof_region * j) sizeof_region img)
       else dst ! j))"
  using assms
proof (induction n arbitrary: i dst)
  case 0
  then show ?case by auto
next
  case (Suc n)
  let ?r = "byte_range (d + sizeof_descriptor + sizeof_region * i) sizeof_region img"
  let ?dst = "dst[i := region_of ?r]"
  have "read_at (d + sizeof_descriptor + sizeof_region * i) sizeof_region img = Some ?r"
    using Suc.prems by (intro read_at_inside) simp
  then have step: "copy_regions img d i (Suc n) dst = copy_regions img d (Suc i) n ?dst"
    by (simp add: region_of_def)
  obtain rs where rs: "copy_regions img d (Suc i) n ?dst = Some rs" "length rs = length dst"
    "\<forall>j < length dst. rs ! j = (if Suc i \<le> j \<and> j < Suc i + n
      then region_of (byte_range (d + sizeof_descriptor + sizeof_region * j) sizeof_region img) else ?dst ! j)"
    using Suc.IH [of "Suc i" ?dst] Suc.prems by auto
  have "rs ! j = (if i \<le> j \<and> j < i + Suc n
      then region_of (byte_range (d + sizeof_descriptor + sizeof_region * j) sizeof_region img) else dst ! j)"
    if "j < length dst" for j
    using rs(3) that Suc.prems by (cases "j = i") auto
  then show ?case using step rs by auto
qed

lemma payload_info_safe:
  assumes "libhoth_find_image_descriptor img = Some (Some d)"
  shows "\<exists>ok out. libhoth_payload_info img pinfo = Some (ok, out) \<and>
    (ok \<longrightarrow> d + sizeof_descriptor + sizeof_region * le_nat (byte_range (d + off_region_count) 1 img) + sizeof_hash
            \<le> length img \<and>
        sizeof_descriptor + sizeof_region * le_nat (byte_range (d + off_region_count) 1 img) + sizeof_hash
            \<le> le_nat (byte_range (d + off_descriptor_area_size) 4 img) \<and>
        image_hash out = byte_range (d + sizeof_descriptor
          + sizeof_region * le_nat (byte_range (d + off_region_count) 1 img) + 4) 32 img)"
proof -
  note I = find_image_descriptor_inside [OF assms]
  have rd: "read_at (d + k) n img = Some (byte_range (d + k) n img)" if "k + n \<le> 96" for k n
    using that I(1) by simp
  obtain p where p: "read_image_fields img d pinfo = Some p"
    by (simp add: read_image_fields_def descriptor_field_def rd)
  define n where "n = le_nat (byte_range (d + off_region_count) 1 img)"
  define area where "area = le_nat (byte_range (d + off_descriptor_area_size) 4 img)"
  have rds: "read_at (d + off_hash_type) 1 img = Some (byte_range (d + off_hash_type) 1 img)"
    "read_at (d + off_descriptor_area_size) 4 img = Some (byte_range (d + off_descriptor_area_size) 4 img)"
    "read_at (d + off_region_count) 1 img = Some (byte_range (d + off_region_count) 1 img)"
    by (rule rd, simp)+
  have sizes: "sizeof_descriptor + sizeof_hash = 132" by simp
  have step: "libhoth_payload_info img pinfo =
    (if le_word (byte_range (d + off_hash_type) 1 img) \<noteq> HASH_SHA2_256
     then Some (False, p\<lparr>image_hash := replicate 32 0\<rparr>)
     else if area \<le> 132 then Some (False, p)
     else if area - 96 - 36 < n * 44 then Some (False, p)
     else map_option (\<lambda>h. (True, p\<lparr>image_hash := h\<rparr>)) (read_at (d + 96 + n * 44 + 4) 32 img))"
    unfolding libhoth_payload_info_def assms descriptor_field_def n_def area_def
    by (cases "read_at (d + 96 + le_nat (byte_range (d + off_region_count) 1 img) * 44 + 4) 32 img")
      (simp_all only: p rds Let_def option.case option.map bind.simps sizes)
  have hash: "read_at (d + 96 + n * 44 + 4) 32 img = Some (byte_range (d + 96 + 44 * n + 4) 32 img)"
    if "n * 44 + 132 \<le> area"
    using that I(2) by (subst read_at_inside) (simp_all add: area_def mult.commute)
  show ?thesis
  proof (cases "le_word (byte_range (d + off_hash_type) 1 img) = HASH_SHA2_256 \<and>
      \<not> area \<le> 132 \<and> \<not> area - 96 - 36 < n * 44")
    case True
    then have b: "n * 44 + 132 \<le> area" by arith
    have "libhoth_payload_info img pinfo =
        Some (True, p\<lparr>image_hash := byte_range (d + 96 + 44 * n + 4) 32 img\<rparr>)"
      using True by (simp only: step hash [OF b] if_False option.map simp_thms)
    then show ?thesis
      using b I(2) unfolding n_def [symmetric] area_def [symmetric]
      by (intro exI [of _ True] exI [of _ "p\<lparr>image_hash := byte_range (d + 96 + 44 * n + 4) 32 img\<rparr>"]) simp
  next
    case False
    then have "\<exists>q. libhoth_payload_info img pinfo = Some (False, q)"
      unfolding step by auto
    then show ?thesis by blast
  qed
qed

lemma payload_info_all_bounds:
  assumes "length (regions out0) = 32"
  shows "\<exists>ok out. libhoth_payload_info_all img out0 = Some (ok, out) \<and>
    (ok \<longrightarrow> (\<exists>d n. libhoth_find_image_descriptor img = Some (Some d) \<and>
      n = unat (region_count out) \<and> n \<le> 32 \<and> length (regions out) = 32 \<and>
      d + sizeof_descriptor + sizeof_region * n + sizeof_hash \<le> length img \<and>
      image_hash (info out) = byte_range (d + sizeof_descriptor + sizeof_region * n + 4) 32 img \<and>
      (\<forall>i < n. regions out ! i =
        region_of (byte_range (d + sizeof_descriptor + sizeof_region * i) sizeof_region img))))"
proof (cases "\<exists>d. libhoth_find_image_descriptor img = Some (Some d)")
  case False
  then have N: "libhoth_find_image_descriptor img = Some None"
    using find_image_descriptor_safe [of img] by (metis not_Some_eq)
  then have "libhoth_payload_info img (info out0) = Some (False, info out0)"
    by (simp add: libhoth_payload_info_def)
  then have "libhoth_payload_info_all img out0 = Some (False, out0\<lparr>info := info out0\<rparr>)"
    by (simp add: libhoth_payload_info_all_def)
  then show ?thesis by blast
next
  case True
  then obtain d where D: "libhoth_find_image_descriptor img = Some (Some d)" by blast
  note I = find_image_descriptor_inside [OF D]
  let ?n = "le_nat (byte_range (d + off_region_count) 1 img)"
  obtain ok pinfo where P: "libhoth_payload_info img (info out0) = Some (ok, pinfo)"
    and S: "ok \<longrightarrow> d + sizeof_descriptor + sizeof_region * ?n + sizeof_hash \<le> length img \<and>
        sizeof_descriptor + sizeof_region * ?n + sizeof_hash
            \<le> le_nat (byte_range (d + off_descriptor_area_size) 4 img) \<and>
        image_hash pinfo = byte_range (d + sizeof_descriptor + sizeof_region * ?n + 4) 32 img"
    using payload_info_safe [OF D, of "info out0"] by blast
  have rd: "read_at (d + k) n img = Some (byte_range (d + k) n img)" if "k + n \<le> 96" for k n
    using that I(1) by simp
  show ?thesis
  proof (cases "ok \<and> ?n \<le> 32")
    case False
    then show ?thesis
      by (auto simp: libhoth_payload_info_all_def P D descriptor_field_def rd Let_def
          PAYLOAD_INFO_ALL_MAX_REGIONS_def)
  next
    case ok: True
    then obtain rs where R: "copy_regions img d 0 ?n (regions out0) = Some rs" "length rs = 32"
      "\<forall>j < 32. rs ! j = (if j < ?n
        then region_of (byte_range (d + sizeof_descriptor + sizeof_region * j) sizeof_region img)
        else regions out0 ! j)"
      using copy_regions_inside [of d 0 ?n img "regions out0"] S assms by auto
    have len: "length (byte_range (d + off_region_count) 1 img) = 1" using I(1) by simp
    have n: "unat (le_word (byte_range (d + off_region_count) 1 img) :: u8) = ?n"
      using len by (subst unat_le_word) simp_all
    have "libhoth_payload_info_all img out0 = Some (True, out0\<lparr>info := pinfo,
        descriptor_major := le_word (byte_range (d + 8) 1 img),
        descriptor_minor := le_word (byte_range (d + 9) 1 img),
        build_timestamp := le_word (byte_range (d + 72) 8 img),
        hash_type := le_word (byte_range (d + 82) 1 img),
        region_count := le_word (byte_range (d + 84) 1 img),
        image_size := le_word (byte_range (d + 88) 4 img),
        blob_size := le_word (byte_range (d + 92) 4 img), regions := rs\<rparr>)"
      using ok S R(1) by (simp add: libhoth_payload_info_all_def P D descriptor_field_def rd Let_def
          PAYLOAD_INFO_ALL_MAX_REGIONS_def mult.commute)
    then show ?thesis using ok S R(2,3) n D by auto
  qed
qed

text \<open>
  C6: reading the whole descriptor of an arbitrary file is memory safe: the region table and the
  hash of a descriptor that is accepted lie inside the descriptor's area and inside the file, at
  most 32 regions are written, and each is the one found in the file.
\<close>

theorem payload_info_all_safe:
  assumes "length (regions out0) = 32"
  shows "\<exists>ok out. libhoth_payload_info_all img out0 = Some (ok, out) \<and>
    (ok \<longrightarrow> (\<exists>d n. libhoth_find_image_descriptor img = Some (Some d) \<and>
      n = unat (region_count out) \<and> n \<le> 32 \<and> length (regions out) = 32 \<and>
      d + sizeof_descriptor + sizeof_region * n + sizeof_hash \<le> length img \<and>
      image_hash (info out) = byte_range (d + sizeof_descriptor + sizeof_region * n + 4) 32 img \<and>
      (\<forall>i < n. regions out ! i =
        region_of (byte_range (d + sizeof_descriptor + sizeof_region * i) sizeof_region img))))"
  by (rule payload_info_all_bounds [OF assms])

text \<open>A file that is one descriptor with one region, of 176 bytes.\<close>

definition sample_image :: bytes where
  "sample_image = [0x5f, 0x49, 0x4d, 0x47, 0x44, 0x53, 0x43, 0x5f] @ replicate 8 0 @ [176, 0, 0, 0]
    @ replicate 62 1 @ [2, 0, 1] @ replicate 91 7"

definition empty_info :: payload_info_all where
  "empty_info = \<lparr>info = \<lparr>image_name = [], image_family = 0,
      image_version = \<lparr>pv_major = 0, pv_minor = 0, pv_point = 0, pv_subpoint = 0\<rparr>,
      image_type = 0, image_hash = []\<rparr>,
    descriptor_major = 0, descriptor_minor = 0, build_timestamp = 0, hash_type = 0, region_count = 0,
    image_size = 0, blob_size = 0,
    regions = replicate 32 \<lparr>region_name = [], region_offset = 0, region_size = 0, region_version = 0,
      region_attributes = 0\<rparr>\<rparr>"

theorem payload_info_all_safe_witness:
  "\<exists>out. libhoth_payload_info_all sample_image empty_info = Some (True, out) \<and>
    unat (region_count out) \<le> 32 \<and> length (image_hash (info out)) = 32"
proof -
  have "length (regions empty_info) = 32" by (simp add: empty_info_def)
  from payload_info_all_safe [OF this, of sample_image] obtain ok out where
    o: "libhoth_payload_info_all sample_image empty_info = Some (ok, out)"
    and r: "ok \<Longrightarrow> unat (region_count out) \<le> 32 \<and> length (image_hash (info out)) = 32"
    by auto
  moreover have "map_option fst (libhoth_payload_info_all sample_image empty_info) = Some True"
    by (simp add: libhoth_payload_info_all_def libhoth_payload_info_def libhoth_find_image_descriptor_def
      find_descriptor_from.simps [of _ 0] read_image_fields_def descriptor_field_def read_at_def byte_range_def
      sample_image_def le_word_def TITAN_IMAGE_DESCRIPTOR_MAGIC_def HASH_SHA2_256_def
      PAYLOAD_INFO_ALL_MAX_REGIONS_def)
  ultimately show ?thesis by auto
qed

end
