(* ===== verification/Payload_Update.thy ===== *)
theory Payload_Update
  imports Rot_Commands Payload_Info Hoth_Util
begin

text \<open>
  \<open>protocol/payload_update.c\<close>: erasing the staging side of the external flash, sending an image in
  packets that leave out erased (0xFF) bytes, finalising and activating it, reading it back and
  the confirmation protocol. The loops are shown to perform a list of requests (\<open>erase_plan\<close>,
  \<open>update_packets\<close>, \<open>read_plan\<close>), whatever the device does; the lists are then shown to cover the
  range and to rebuild the image on erased flash.
\<close>

section \<open>Requests\<close>

definition HOTH_PRV_CMD_HOTH_PAYLOAD_UPDATE :: u16 where
  "HOTH_PRV_CMD_HOTH_PAYLOAD_UPDATE = 0x0005"

abbreviation PAYLOAD_UPDATE_CMD :: u16 where
  "PAYLOAD_UPDATE_CMD \<equiv> HOTH_CMD_BOARD_SPECIFIC_BASE + HOTH_PRV_CMD_HOTH_PAYLOAD_UPDATE"

datatype payload_update_type =
    PAYLOAD_UPDATE_INITIATE
  | PAYLOAD_UPDATE_CONTINUE
  | PAYLOAD_UPDATE_FINALIZE
  | PAYLOAD_UPDATE_AUX_DATA
  | PAYLOAD_UPDATE_VERIFY
  | PAYLOAD_UPDATE_ACTIVATE
  | PAYLOAD_UPDATE_READ
  | PAYLOAD_UPDATE_GET_STATUS
  | PAYLOAD_UPDATE_ERASE
  | PAYLOAD_UPDATE_VERIFY_CHUNK
  | PAYLOAD_UPDATE_CONFIRM
  | PAYLOAD_UPDATE_VERIFY_DESCRIPTOR

fun update_type_val :: "payload_update_type \<Rightarrow> u8" where
  "update_type_val PAYLOAD_UPDATE_INITIATE = 0"
| "update_type_val PAYLOAD_UPDATE_CONTINUE = 1"
| "update_type_val PAYLOAD_UPDATE_FINALIZE = 2"
| "update_type_val PAYLOAD_UPDATE_AUX_DATA = 3"
| "update_type_val PAYLOAD_UPDATE_VERIFY = 4"
| "update_type_val PAYLOAD_UPDATE_ACTIVATE = 5"
| "update_type_val PAYLOAD_UPDATE_READ = 6"
| "update_type_val PAYLOAD_UPDATE_GET_STATUS = 7"
| "update_type_val PAYLOAD_UPDATE_ERASE = 8"
| "update_type_val PAYLOAD_UPDATE_VERIFY_CHUNK = 9"
| "update_type_val PAYLOAD_UPDATE_CONFIRM = 10"
| "update_type_val PAYLOAD_UPDATE_VERIFY_DESCRIPTOR = 11"

text \<open>\<open>struct payload_update_packet\<close>: 9 bytes, packed.\<close>

definition payload_update_packet :: "u32 \<Rightarrow> u32 \<Rightarrow> payload_update_type \<Rightarrow> bytes" where
  "payload_update_packet offset len type = le_bytes 4 offset @ le_bytes 4 len @ [update_type_val type]"

abbreviation sizeof_packet :: nat where "sizeof_packet \<equiv> 9"

lemma length_payload_update_packet [simp]: "length (payload_update_packet offset len type) = 9"
  by (simp add: payload_update_packet_def)

definition send_payload_update_request_with_command ::
  "'s libhoth_device option \<Rightarrow> payload_update_type \<Rightarrow> 's \<Rightarrow> (bytes, 's) hoth_result" where
  "send_payload_update_request_with_command dev command s =
    hostcmd dev PAYLOAD_UPDATE_CMD 0 (payload_update_packet 0 0 command) 0 False s"

text \<open>The version is 0 also for a firmware that does not know the version command.\<close>

definition get_payload_update_version ::
  "'s libhoth_device option \<Rightarrow> 's \<Rightarrow> (u8, 's) hoth_result" where
  "get_payload_update_version dev s =
    (case libhoth_get_command_versions dev PAYLOAD_UPDATE_CMD (Some 0) s of
       (Inl err, s') \<Rightarrow>
         if err = ec_err HOTH_RES_INVALID_COMMAND then (Inr 0, s') else (Inl err, s')
     | (Inr version_mask, s') \<Rightarrow>
         if version_mask AND 0x2 = 0 then (Inr 0, s') else (Inr 1, s'))"

section \<open>Finalising and activating\<close>

text \<open>The result is what \<open>*pld_needs_reinitialization\<close> receives.\<close>

definition libhoth_payload_update_finalize ::
  "'s libhoth_device option \<Rightarrow> 's \<Rightarrow> (u8, 's) hoth_result" where
  "libhoth_payload_update_finalize dev s =
    (case get_payload_update_version dev s of
       (Inl e, s') \<Rightarrow> (Inl e, s')
     | (Inr version, s') \<Rightarrow>
         if version = 0 then
           (case send_payload_update_request_with_command dev PAYLOAD_UPDATE_FINALIZE s' of
              (Inl e, s2) \<Rightarrow> (Inl e, s2)
            | (Inr _, s2) \<Rightarrow> (Inr 0, s2))
         else
           (case hostcmd dev PAYLOAD_UPDATE_CMD 1 (payload_update_packet 0 0 PAYLOAD_UPDATE_FINALIZE)
                  1 False s' of
              (Inl e, s2) \<Rightarrow> (Inl e, s2)
            | (Inr response, s2) \<Rightarrow> (Inr (response ! 0), s2)))"

definition activate_request :: "u8 \<Rightarrow> bytes" where
  "activate_request half = payload_update_packet 0 2 PAYLOAD_UPDATE_ACTIVATE @ [half, 1]"

definition libhoth_payload_update_activate_v0 ::
  "'s libhoth_device option \<Rightarrow> bytes \<Rightarrow> 's \<Rightarrow> (bytes, 's) hoth_result" where
  "libhoth_payload_update_activate_v0 dev request s =
    hostcmd dev PAYLOAD_UPDATE_CMD 0 request 0 False s"

definition libhoth_payload_update_activate_v1 ::
  "'s libhoth_device option \<Rightarrow> bytes \<Rightarrow> 's \<Rightarrow> (u8, 's) hoth_result" where
  "libhoth_payload_update_activate_v1 dev request s =
    (case hostcmd dev PAYLOAD_UPDATE_CMD 1 request 1 False s of
       (Inl e, s') \<Rightarrow> (Inl e, s')
     | (Inr response, s') \<Rightarrow> (Inr (response ! 0), s'))"

definition libhoth_payload_update_activate ::
  "'s libhoth_device option \<Rightarrow> u8 \<Rightarrow> 's \<Rightarrow> (u8, 's) hoth_result" where
  "libhoth_payload_update_activate dev half s =
    (case get_payload_update_version dev s of
       (Inl e, s') \<Rightarrow> (Inl e, s')
     | (Inr version, s') \<Rightarrow>
         if version = 0 then
           (case libhoth_payload_update_activate_v0 dev (activate_request half) s' of
              (Inl e, s2) \<Rightarrow> (Inl e, s2)
            | (Inr _, s2) \<Rightarrow> (Inr 0, s2))
         else libhoth_payload_update_activate_v1 dev (activate_request half) s')"

definition libhoth_payload_update_verify ::
  "'s libhoth_device option \<Rightarrow> 's \<Rightarrow> (bytes, 's) hoth_result" where
  "libhoth_payload_update_verify dev s =
    send_payload_update_request_with_command dev PAYLOAD_UPDATE_VERIFY s"

definition libhoth_payload_update_verify_descriptor ::
  "'s libhoth_device option \<Rightarrow> 's \<Rightarrow> (bytes, 's) hoth_result" where
  "libhoth_payload_update_verify_descriptor dev s =
    send_payload_update_request_with_command dev PAYLOAD_UPDATE_VERIFY_DESCRIPTOR s"

section \<open>Erasing\<close>

definition payload_update_erase_chunk ::
  "'s libhoth_device option \<Rightarrow> u32 \<Rightarrow> u32 \<Rightarrow> 's \<Rightarrow> (bytes, 's) hoth_result" where
  "payload_update_erase_chunk dev offset len s =
    hostcmd dev PAYLOAD_UPDATE_CMD 0 (payload_update_packet offset len PAYLOAD_UPDATE_ERASE) 0 False s"

definition kBlockErase :: u32 where "kBlockErase = 64 * 1024"
definition kSectorErase :: u32 where "kSectorErase = 4 * 1024"

text \<open>The loop on 32-bit counters: \<open>None\<close> if it does not end.\<close>

partial_function (option) erase_loop ::
  "(u32 \<Rightarrow> u32 \<Rightarrow> 's \<Rightarrow> (bytes, 's) hoth_result) \<Rightarrow> u32 \<Rightarrow> u32 \<Rightarrow> u32 \<Rightarrow> 's
    \<Rightarrow> (unit, 's) hoth_result option" where
  "erase_loop erase_chunk offset len erased s =
    (if erased < len then
       (let current_offset = offset + erased;
            remaining = len - erased;
            send_block_erase = (current_offset mod kBlockErase = 0 \<and> kBlockErase \<le> remaining);
            chunk_size = (if send_block_erase then kBlockErase else kSectorErase)
        in case erase_chunk current_offset chunk_size s of
             (Inl e, s') \<Rightarrow> Some (Inl e, s')
           | (Inr _, s') \<Rightarrow> erase_loop erase_chunk offset len (erased + chunk_size) s')
     else Some (Inr (), s))"

definition libhoth_payload_update_erase ::
  "'s libhoth_device option \<Rightarrow> u32 \<Rightarrow> u32 \<Rightarrow> 's \<Rightarrow> (unit, 's) hoth_result option" where
  "libhoth_payload_update_erase dev offset len s =
    (if len = 0 \<or> len mod kSectorErase \<noteq> 0
     then Some (Inl (cmd_err LIBHOTH_ERR_IMAGE_NOT_SECTOR_ALIGNED), s)
     else if offset mod kSectorErase \<noteq> 0
     then Some (Inl (cmd_err LIBHOTH_ERR_IMAGE_NOT_SECTOR_ALIGNED), s)
     else if UINT32_MAX - offset < len then Some (Inl (cmd_err LIBHOTH_ERR_INVALID_PARAMETER), s)
     else erase_loop (payload_update_erase_chunk dev) offset len 0 s)"

section \<open>Sending the image\<close>

text \<open>\<open>while (chunk_size > 0 && image[offset + chunk_size - 1] == 0xFF) --chunk_size;\<close>\<close>

fun trim_erased :: "bytes \<Rightarrow> nat \<Rightarrow> nat \<Rightarrow> nat" where
  "trim_erased img offset 0 = 0"
| "trim_erased img offset (Suc n) = (if img ! (offset + n) = 0xFF then trim_erased img offset n else Suc n)"

definition max_chunk_size :: nat where
  "max_chunk_size = LIBHOTH_MAILBOX_SIZE - sizeof_request - sizeof_packet"

definition send_packet ::
  "'s libhoth_device option \<Rightarrow> nat \<times> bytes \<Rightarrow> 's \<Rightarrow> (bytes, 's) hoth_result" where
  "send_packet dev p s =
    (let request = payload_update_packet (word_of_nat (fst p)) (word_of_nat (length (snd p)))
                     PAYLOAD_UPDATE_CONTINUE;
         buffer = memcpy_at 0 request (replicate (sizeof_packet + LIBHOTH_MAILBOX_SIZE) 0);
         buffer = memcpy_at sizeof_packet (snd p) buffer
     in hostcmd dev PAYLOAD_UPDATE_CMD 0 (take (sizeof_packet + length (snd p)) buffer) 0 False s)"

function update_loop ::
  "(nat \<times> bytes \<Rightarrow> 's \<Rightarrow> (bytes, 's) hoth_result) \<Rightarrow> bytes \<Rightarrow> nat \<Rightarrow> 's \<Rightarrow> (unit, 's) hoth_result" where
  "update_loop send img offset s =
    (if offset < length img then
       if img ! offset = 0xFF then update_loop send img (offset + 1) s
       else
         let chunk_size = max_chunk_size;
             chunk_size = (if length img - offset < chunk_size then length img - offset else chunk_size);
             chunk_size = trim_erased img offset chunk_size
         in if chunk_size = 0 then update_loop send img (offset + 1) s
            else
              case send (offset, byte_range offset chunk_size img) s of
                (Inl e, s') \<Rightarrow> (Inl e, s')
              | (Inr _, s') \<Rightarrow> update_loop send img (offset + (chunk_size - 1) + 1) s'
     else (Inr (), s))"
  by pat_completeness auto
termination by (relation "measure (\<lambda>(send, img, offset, s). length img - offset)") auto

declare update_loop.simps [simp del]

text \<open>
  The size handed to the erase is rounded up for a binary file; \<open>size_t\<close> sums stay below
  \<open>2 ^ 64\<close>. The verification of the descriptor search is in \<open>Payload_Info\<close>.
\<close>

definition erase_size_of :: "nat \<Rightarrow> bool \<Rightarrow> libhoth_error + nat" where
  "erase_size_of size0 binary_file =
    (let sector = unat kSectorErase in
     if binary_file \<and> size0 mod sector \<noteq> 0 then
       let pad = sector - size0 mod sector in
       if unat UINT32_MAX - pad < size0 then Inl (cmd_err LIBHOTH_ERR_INVALID_PARAMETER)
       else if unat UINT32_MAX < size0 + pad then Inl (cmd_err LIBHOTH_ERR_INVALID_PARAMETER)
       else Inr (size0 + pad)
     else if unat UINT32_MAX < size0 then Inl (cmd_err LIBHOTH_ERR_INVALID_PARAMETER)
     else Inr size0)"

definition erase_for_update ::
  "'s libhoth_device option \<Rightarrow> nat \<Rightarrow> bool \<Rightarrow> bool \<Rightarrow> 's \<Rightarrow> (unit, 's) hoth_result option" where
  "erase_for_update dev size0 skip_erase binary_file s =
    (if skip_erase then Some (Inr (), s)
     else case erase_size_of size0 binary_file of
            Inl e \<Rightarrow> Some (Inl e, s)
          | Inr n \<Rightarrow> libhoth_payload_update_erase dev 0 (word_of_nat n) s)"

definition libhoth_payload_update ::
  "'s libhoth_device option \<Rightarrow> bytes \<Rightarrow> bool \<Rightarrow> bool \<Rightarrow> 's \<Rightarrow> (unit, 's) hoth_result option" where
  "libhoth_payload_update dev img skip_erase binary_file s =
    (if \<not> binary_file \<and> libhoth_find_image_descriptor img = Some None
     then Some (Inl (cmd_err LIBHOTH_ERR_BAD_IMAGE), s)
     else
       case erase_for_update dev (length img) skip_erase binary_file s of
         None \<Rightarrow> None
       | Some (Inl e, s1) \<Rightarrow> Some (Inl e, s1)
       | Some (Inr _, s1) \<Rightarrow>
           (case update_loop (send_packet dev) img 0 s1 of
              (Inl e, s2) \<Rightarrow> Some (Inl e, s2)
            | (Inr _, s2) \<Rightarrow>
                if binary_file then Some (Inr (), s2)
                else (case libhoth_payload_update_finalize dev s2 of
                        (Inl e, s3) \<Rightarrow> Some (Inl e, s3)
                      | (Inr _, s3) \<Rightarrow> Some (Inr (), s3))))"

section \<open>Status, reading back, confirmation\<close>

record payload_update_status =
  a_valid :: u8
  b_valid :: u8
  active_half :: u8
  next_half :: u8
  persistent_half :: u8

definition libhoth_payload_update_getstatus ::
  "'s libhoth_device option \<Rightarrow> 's \<Rightarrow> (payload_update_status, 's) hoth_result" where
  "libhoth_payload_update_getstatus dev s =
    (case hostcmd dev PAYLOAD_UPDATE_CMD 0 (payload_update_packet 0 0 PAYLOAD_UPDATE_GET_STATUS) 5 True s of
       (Inl e, s') \<Rightarrow> (Inl e, s')
     | (Inr r, s') \<Rightarrow>
         if length r \<noteq> 5 then (Inl (cmd_err LIBHOTH_ERR_FAIL), s')
         else (Inr \<lparr>a_valid = r ! 0, b_valid = r ! 1, active_half = r ! 2, next_half = r ! 3,
                    persistent_half = r ! 4\<rparr>, s'))"

definition max_read_chunk :: nat where
  "max_read_chunk = LIBHOTH_MAILBOX_SIZE - sizeof_response"

text \<open>\<open>wr\<close> is \<open>write\<close> on \<open>fd\<close>.\<close>

function libhoth_payload_update_read_chunk ::
  "(bytes \<Rightarrow> 's \<Rightarrow> (int + nat) \<times> 's) \<Rightarrow> 's libhoth_device option \<Rightarrow> nat \<Rightarrow> nat \<Rightarrow> 's
    \<Rightarrow> (unit, 's) hoth_result option" where
  "libhoth_payload_update_read_chunk wr dev len offset s =
    (if 0 < len then
       (let chunk_size = (if len < max_read_chunk then len else max_read_chunk);
            pkt = payload_update_packet (word_of_nat offset) (word_of_nat chunk_size) PAYLOAD_UPDATE_READ
        in case hostcmd dev PAYLOAD_UPDATE_CMD 0 pkt chunk_size False s of
             (Inl e, s1) \<Rightarrow> Some (Inl e, s1)
           | (Inr buffer, s1) \<Rightarrow>
             (case libhoth_force_write wr buffer s1 of
                None \<Rightarrow> None
              | Some (write_errno, s2) \<Rightarrow>
                  if write_errno \<noteq> 0
                  then Some (Inl (hoth_err HOTH_CTX_CMD_EXEC HOTH_HOST_SPACE_POSIX (word_of_int write_errno)), s2)
                  else libhoth_payload_update_read_chunk wr dev (len - chunk_size) (offset + chunk_size) s2))
     else Some (Inr (), s))"
  by pat_completeness auto
termination
  by (relation "measure (\<lambda>(wr, dev, len, offset, s). len)")
    (auto simp: max_read_chunk_def LIBHOTH_MAILBOX_SIZE_def)

declare libhoth_payload_update_read_chunk.simps [simp del]

datatype payload_update_confirm_op =
    PAYLOAD_UPDATE_CONFIRM_OP_ENABLE
  | PAYLOAD_UPDATE_CONFIRM_OP_ENABLE_WITH_TIMEOUT
  | PAYLOAD_UPDATE_CONFIRM_OP_DISABLE
  | PAYLOAD_UPDATE_CONFIRM_OP_CONFIRM
  | PAYLOAD_UPDATE_CONFIRM_OP_GET_STAGED_TIMEOUT_VALUES

fun confirm_op_val :: "payload_update_confirm_op \<Rightarrow> u8" where
  "confirm_op_val PAYLOAD_UPDATE_CONFIRM_OP_ENABLE = 0"
| "confirm_op_val PAYLOAD_UPDATE_CONFIRM_OP_ENABLE_WITH_TIMEOUT = 1"
| "confirm_op_val PAYLOAD_UPDATE_CONFIRM_OP_DISABLE = 2"
| "confirm_op_val PAYLOAD_UPDATE_CONFIRM_OP_CONFIRM = 3"
| "confirm_op_val PAYLOAD_UPDATE_CONFIRM_OP_GET_STAGED_TIMEOUT_VALUES = 4"

record payload_update_confirm_timeouts =
  timeout_min :: u32
  timeout_max :: u32
  timeout_default_val :: u32
  timeout_current :: u32

text \<open>\<open>payload_update_confirm_request_t\<close> with a cookie of zero, behind its packet header.\<close>

definition confirm_request :: "payload_update_confirm_op \<Rightarrow> u32 \<Rightarrow> bytes" where
  "confirm_request op timeout =
    payload_update_packet 0 16 PAYLOAD_UPDATE_CONFIRM
    @ [confirm_op_val op, 0, 0, 0] @ le_bytes 4 timeout @ le_bytes 8 (0 :: u64)"

definition libhoth_payload_update_confirm ::
  "'s libhoth_device option \<Rightarrow> 's \<Rightarrow> (bytes, 's) hoth_result" where
  "libhoth_payload_update_confirm dev s =
    hostcmd dev PAYLOAD_UPDATE_CMD 0 (confirm_request PAYLOAD_UPDATE_CONFIRM_OP_CONFIRM 0) 16 False s"

definition libhoth_payload_update_confirm_enable ::
  "'s libhoth_device option \<Rightarrow> bool \<Rightarrow> u32 \<Rightarrow> 's \<Rightarrow> (bytes, 's) hoth_result" where
  "libhoth_payload_update_confirm_enable dev enable timeout_seconds s =
    (let op = (if enable then PAYLOAD_UPDATE_CONFIRM_OP_ENABLE_WITH_TIMEOUT
               else PAYLOAD_UPDATE_CONFIRM_OP_DISABLE);
         op = (if timeout_seconds = 0 \<and> enable = True then PAYLOAD_UPDATE_CONFIRM_OP_ENABLE else op)
     in hostcmd dev PAYLOAD_UPDATE_CMD 0 (confirm_request op timeout_seconds) 16 False s)"

definition libhoth_payload_update_confirm_get_staged_timeout ::
  "'s libhoth_device option \<Rightarrow> 's \<Rightarrow> (payload_update_confirm_timeouts, 's) hoth_result" where
  "libhoth_payload_update_confirm_get_staged_timeout dev s =
    (case hostcmd dev PAYLOAD_UPDATE_CMD 0
            (confirm_request PAYLOAD_UPDATE_CONFIRM_OP_GET_STAGED_TIMEOUT_VALUES 0) 16 False s of
       (Inl e, s') \<Rightarrow> (Inl e, s')
     | (Inr r, s') \<Rightarrow> (Inr \<lparr>timeout_min = u32_at 0 r, timeout_max = u32_at 4 r,
                          timeout_default_val = u32_at 8 r, timeout_current = u32_at 12 r\<rparr>, s'))"

section \<open>The packets of an image\<close>

lemma trim_erased_le: "trim_erased img offset n \<le> n"
  by (induction n) auto

lemma trim_erased_rest:
  "trim_erased img offset n \<le> i \<Longrightarrow> i < n \<Longrightarrow> img ! (offset + i) = 0xFF"
  by (induction n) (auto split: if_splits simp: less_Suc_eq)

lemma trim_erased_pos: "0 < n \<Longrightarrow> img ! offset \<noteq> 0xFF \<Longrightarrow> 0 < trim_erased img offset n"
proof (induction n)
  case (Suc n)
  then show ?case by (cases n) auto
qed simp

text \<open>The chunk that starts at an offset holding a programmed byte.\<close>

definition chunk_at :: "bytes \<Rightarrow> nat \<Rightarrow> nat" where
  "chunk_at img offset = trim_erased img offset (min 1007 (length img - offset))"

lemma chunk_at_bounds:
  assumes "offset < length img" "img ! offset \<noteq> 0xFF"
  shows "0 < chunk_at img offset" "chunk_at img offset \<le> 1007" "offset + chunk_at img offset \<le> length img"
  using assms trim_erased_le [of img offset "min 1007 (length img - offset)"]
  by (auto simp: chunk_at_def intro: trim_erased_pos)

function update_packets :: "bytes \<Rightarrow> nat \<Rightarrow> (nat \<times> bytes) list" where
  "update_packets img offset =
    (if length img \<le> offset then []
     else if img ! offset = 0xFF then update_packets img (offset + 1)
     else if chunk_at img offset = 0 then []
     else (offset, byte_range offset (chunk_at img offset) img)
            # update_packets img (offset + chunk_at img offset))"
  by pat_completeness auto
termination by (relation "measure (\<lambda>(img, offset). length img - offset)") auto

declare update_packets.simps [simp del]

lemma update_loop_packets: "update_loop send img offset s = run_requests send (update_packets img offset) s"
proof (induction img offset arbitrary: s rule: update_packets.induct)
  case (1 img offset)
  have m: "(if length img - offset < max_chunk_size then length img - offset else max_chunk_size) =
      min 1007 (length img - offset)"
    by (auto simp: max_chunk_size_def LIBHOTH_MAILBOX_SIZE_def)
  show ?case
  proof (cases "offset < length img")
    case False
    then show ?thesis by (subst update_loop.simps, subst update_packets.simps) simp
  next
    case inside: True
    show ?thesis
    proof (cases "img ! offset = 0xFF")
      case True
      then show ?thesis using 1(1) inside
        by (subst update_loop.simps, subst update_packets.simps) simp
    next
      case False
      note b = chunk_at_bounds [OF inside False]
      then have c: "offset + (chunk_at img offset - 1) + 1 = offset + chunk_at img offset" by simp
      have "update_loop send img offset s =
          (case send (offset, byte_range offset (chunk_at img offset) img) s of
             (Inl e, s') \<Rightarrow> (Inl e, s')
           | (Inr _, s') \<Rightarrow> update_loop send img (offset + chunk_at img offset) s')"
        using inside False b
        by (subst update_loop.simps, unfold Let_def m chunk_at_def [symmetric] c) simp
      then show ?thesis using 1(2) inside False b
        by (subst update_packets.simps) (auto split: prod.splits sum.splits)
    qed
  qed
qed

lemma update_packets_bounds:
  "(o', d) \<in> set (update_packets img offset) \<Longrightarrow>
    offset \<le> o' \<and> 0 < length d \<and> length d \<le> 1007 \<and> o' + length d \<le> length img \<and>
    d = byte_range o' (length d) img"
proof (induction img offset rule: update_packets.induct)
  case (1 img offset)
  show ?case
  proof (cases "offset < length img")
    case False
    with "1.prems" show ?thesis by (subst (asm) update_packets.simps) simp
  next
    case inside: True
    show ?thesis
    proof (cases "img ! offset = 0xFF")
      case True
      with "1.prems" inside have "(o', d) \<in> set (update_packets img (offset + 1))"
        by (subst (asm) update_packets.simps) simp
      from "1.IH"(1) [OF _ True this] inside show ?thesis by simp
    next
      case False
      note b = chunk_at_bounds [OF inside False]
      with "1.prems" inside False have "(o', d) = (offset, byte_range offset (chunk_at img offset) img)
          \<or> (o', d) \<in> set (update_packets img (offset + chunk_at img offset))"
        by (subst (asm) update_packets.simps) auto
      then show ?thesis
      proof
        assume "(o', d) = (offset, byte_range offset (chunk_at img offset) img)"
        then show ?thesis using b by simp
      next
        assume "(o', d) \<in> set (update_packets img (offset + chunk_at img offset))"
        from "1.IH"(2) [OF _ False _ this] inside b show ?thesis by simp
      qed
    qed
  qed
qed

section \<open>Programming erased flash rebuilds the image\<close>

definition program_packets :: "(nat \<times> bytes) list \<Rightarrow> bytes \<Rightarrow> bytes" where
  "program_packets ps flash = fold (\<lambda>(o', d) fl. memcpy_at o' d fl) ps flash"

lemma program_packets_simps [simp]:
  "program_packets [] flash = flash"
  "program_packets ((o', d) # ps) flash = program_packets ps (memcpy_at o' d flash)"
  by (simp_all add: program_packets_def)

lemma program_update_packets:
  assumes "length img \<le> length flash"
    and "\<And>i. i < offset \<Longrightarrow> i < length img \<Longrightarrow> flash ! i = img ! i"
    and "\<And>i. offset \<le> i \<Longrightarrow> i < length img \<Longrightarrow> flash ! i = 0xFF"
  shows "length (program_packets (update_packets img offset) flash) = length flash \<and>
    (\<forall>i < length flash. program_packets (update_packets img offset) flash ! i =
      (if i < length img then img ! i else flash ! i))"
  using assms
proof (induction img offset arbitrary: flash rule: update_packets.induct)
  case (1 img offset)
  show ?case
  proof (cases "offset < length img")
    case False
    then show ?thesis using "1.prems" by (subst (1 2) update_packets.simps) auto
  next
    case inside: True
    show ?thesis
    proof (cases "img ! offset = 0xFF")
      case True
      have p: "update_packets img offset = update_packets img (offset + 1)"
        using True inside by (subst update_packets.simps) simp
      have past: "flash ! i = img ! i" if "i < offset + 1" "i < length img" for i
        using that "1.prems"(2,3) [of i] True by (cases "i = offset") auto
      show ?thesis
        using "1.IH"(1) [OF _ True "1.prems"(1) past] "1.prems"(3) inside unfolding p by simp
    next
      case False
      note b = chunk_at_bounds [OF inside False]
      let ?c = "chunk_at img offset"
      let ?fl = "memcpy_at offset (byte_range offset ?c img) flash"
      have p: "update_packets img offset = (offset, byte_range offset ?c img) # update_packets img (offset + ?c)"
        using inside False b by (subst update_packets.simps) simp
      have len: "length ?fl = length flash" using b "1.prems"(1) by simp
      have nth: "?fl ! i = (if offset \<le> i \<and> i < offset + ?c then img ! i else flash ! i)"
        if "i < length flash" for i
        using that b "1.prems"(1) by (subst nth_memcpy_at) (auto simp: byte_range_def)
      have IH: "length (program_packets (update_packets img (offset + ?c)) ?fl) = length ?fl \<and>
          (\<forall>i < length ?fl. program_packets (update_packets img (offset + ?c)) ?fl ! i =
            (if i < length img then img ! i else ?fl ! i))"
      proof (rule "1.IH"(2) [OF _ False])
        show "\<not> length img \<le> offset" "?c \<noteq> 0" "length img \<le> length ?fl"
          using inside b len "1.prems"(1) by simp_all
        show "?fl ! i = img ! i" if "i < offset + ?c" "i < length img" for i
          using that nth [of i] "1.prems"(1,2) by auto
        show "?fl ! i = 0xFF" if "offset + ?c \<le> i" "i < length img" for i
          using that nth [of i] "1.prems"(1,3) by auto
      qed
      show ?thesis unfolding p program_packets_simps using IH len nth b by auto
    qed
  qed
qed

text \<open>
  The packets of an image fit the mailbox and rebuild it: programmed in order on flash that
  is erased up to the image's length, they leave exactly the image there and nothing else changed.
\<close>

theorem update_packets_rebuild_image:
  assumes "length img \<le> length flash" and "\<forall>i < length img. flash ! i = 0xFF"
  shows "program_packets (update_packets img 0) flash = img @ drop (length img) flash \<and>
    (\<forall>(offset, d) \<in> set (update_packets img 0). 0 < length d \<and>
      sizeof_request + sizeof_packet + length d \<le> LIBHOTH_MAILBOX_SIZE \<and> offset + length d \<le> length img)"
proof
  show "program_packets (update_packets img 0) flash = img @ drop (length img) flash"
    using program_update_packets [of img flash 0] assms
    by (intro nth_equalityI) (auto simp: nth_append)
  show "\<forall>(offset, d) \<in> set (update_packets img 0). 0 < length d \<and>
      sizeof_request + sizeof_packet + length d \<le> LIBHOTH_MAILBOX_SIZE \<and> offset + length d \<le> length img"
    using update_packets_bounds [of _ _ img 0] by (auto simp: LIBHOTH_MAILBOX_SIZE_def)
qed

theorem update_packets_rebuild_image_witness:
  "program_packets (update_packets [0xFF, 1, 0xFF, 2, 0xFF] 0) [0xFF, 0xFF, 0xFF, 0xFF, 0xFF, 7] =
    [0xFF, 1, 0xFF, 2, 0xFF, 7]"
proof -
  have "\<forall>i < length [0xFF, 1, 0xFF, 2, 0xFF :: u8]. [0xFF, 0xFF, 0xFF, 0xFF, 0xFF, 7 :: u8] ! i = 0xFF"
    by (auto simp: less_Suc_eq numeral_eq_Suc)
  from update_packets_rebuild_image [OF _ this] show ?thesis by simp
qed

section \<open>The erase covers the range\<close>

function erase_plan :: "nat \<Rightarrow> nat \<Rightarrow> (nat \<times> nat) list" where
  "erase_plan offset n =
    (if n = 0 then []
     else let c = (if offset mod 65536 = 0 \<and> 65536 \<le> n then 65536 else 4096)
          in (offset, c) # erase_plan (offset + c) (n - c))"
  by pat_completeness auto
termination by (relation "measure (\<lambda>(offset, n). n)") (auto split: if_splits)

declare erase_plan.simps [simp del]

text \<open>The requests follow each other from one offset to another.\<close>

fun contiguous :: "nat \<Rightarrow> (nat \<times> nat) list \<Rightarrow> nat \<Rightarrow> bool" where
  "contiguous offset [] end = (offset = end)"
| "contiguous offset ((o', c) # ps) end = (o' = offset \<and> contiguous (offset + c) ps end)"

lemma erase_plan_tiles:
  assumes "4096 dvd offset" "4096 dvd n"
  shows "contiguous offset (erase_plan offset n) (offset + n) \<and>
    (\<forall>(o', c) \<in> set (erase_plan offset n). (c = 4096 \<or> c = 65536) \<and> c dvd o' \<and> o' + c \<le> offset + n)"
  using assms
proof (induction offset n rule: erase_plan.induct)
  case (1 offset n)
  show ?case
  proof (cases "n = 0")
    case True
    then show ?thesis by (simp add: erase_plan.simps)
  next
    case False
    define c where "c = (if offset mod 65536 = 0 \<and> 65536 \<le> n then 65536 else 4096 :: nat)"
    have p: "erase_plan offset n = (offset, c) # erase_plan (offset + c) (n - c)"
      using False by (subst erase_plan.simps) (simp add: c_def Let_def)
    have n: "4096 \<le> n" using False "1.prems"(2) by (auto elim: dvdE)
    then have cn: "c \<le> n" "4096 dvd c" "c = 4096 \<or> c = 65536" by (auto simp: c_def)
    have cd: "c dvd offset" using "1.prems"(1) by (auto simp: c_def)
    have "4096 dvd offset + c" "4096 dvd n - c"
      using "1.prems" cn by (auto intro: dvd_diff_nat)
    from "1.IH" [OF False c_def this] cn cd show ?thesis unfolding p by auto
  qed
qed

lemma unat_mod_block: "x mod kBlockErase = 0 \<longleftrightarrow> unat x mod 65536 = 0"
  and unat_mod_sector: "x mod kSectorErase = 0 \<longleftrightarrow> 4096 dvd unat x"
  by (simp_all add: kBlockErase_def kSectorErase_def unat_arith_simps(1,3) unat_mod dvd_eq_mod_eq_0 word_unat_eq_iff)

definition erase_request ::
  "(u32 \<Rightarrow> u32 \<Rightarrow> 's \<Rightarrow> (bytes, 's) hoth_result) \<Rightarrow> nat \<times> nat \<Rightarrow> 's \<Rightarrow> (bytes, 's) hoth_result" where
  "erase_request f r = f (word_of_nat (fst r)) (word_of_nat (snd r))"

lemma erase_loop_plan:
  assumes "erased \<le> len" "4096 dvd unat len - unat erased" "unat offset + unat len < 2 ^ 32"
  shows "erase_loop f offset len erased s =
    Some (run_requests (erase_request f) (erase_plan (unat offset + unat erased) (unat len - unat erased)) s)"
  using assms
proof (induction "unat len - unat erased" arbitrary: erased s rule: less_induct)
  case less
  show ?case
  proof (cases "erased < len")
    case False
    with less.prems(1) show ?thesis
      by (subst erase_loop.simps, subst erase_plan.simps) simp
  next
    case True
    let ?n = "unat len - unat erased"
    have lt: "unat erased < unat len" using True by (simp add: word_less_nat_alt)
    have u: "unat (offset + erased) = unat offset + unat erased"
      using lt less.prems(3) by (simp add: unat_word_ariths)
    have r: "unat (len - erased) = ?n" using less.prems(1) by (rule unat_sub)
    have n: "4096 \<le> ?n" using lt less.prems(2) by (auto elim!: dvdE)
    define c where "c = (if (unat offset + unat erased) mod 65536 = 0 \<and> 65536 \<le> ?n then 65536 else 4096 :: nat)"
    have c: "c \<le> ?n" "4096 dvd c" "0 < c" "c \<le> 65536" using n by (auto simp: c_def)
    define w where "w = (if (offset + erased) mod kBlockErase = 0 \<and> kBlockErase \<le> len - erased
      then kBlockErase else kSectorErase)"
    have blk: "kBlockErase \<le> len - erased \<longleftrightarrow> 65536 \<le> ?n"
      by (simp add: word_le_nat_alt r kBlockErase_def)
    have wc: "w = word_of_nat c"
      unfolding w_def c_def unat_mod_block u blk by (simp add: kBlockErase_def kSectorErase_def)
    have uw: "unat w = c" using c(4) by (simp add: wc unat_of_nat)
    have ue: "unat (erased + w) = unat erased + c"
      using lt c(1) unat_bound [of len] by (simp add: unat_word_ariths uw)
    have le: "erased + w \<le> len" using c(1) lt by (simp add: word_le_nat_alt ue)
    have dv: "4096 dvd unat len - unat (erased + w)"
      using less.prems(2) c(2) by (simp add: ue flip: diff_diff_left)
    have lt': "unat len - unat (erased + w) < ?n" using lt c(3) by (simp add: ue)
    have o: "(word_of_nat (unat offset + unat erased) :: u32) = offset + erased"
      by (simp flip: u)
    have step: "erase_loop f offset len erased s =
        (case f (offset + erased) w s of (Inl e, s') \<Rightarrow> Some (Inl e, s')
         | (Inr _, s') \<Rightarrow> erase_loop f offset len (erased + w) s')"
      using True by (subst erase_loop.simps, unfold Let_def w_def [symmetric]) simp
    have plan: "erase_plan (unat offset + unat erased) ?n =
        (unat offset + unat erased, c) # erase_plan (unat offset + unat erased + c) (?n - c)"
      using lt by (subst erase_plan.simps) (simp add: c_def Let_def)
    have IH: "erase_loop f offset len (erased + w) t =
        Some (run_requests (erase_request f) (erase_plan (unat offset + unat erased + c) (?n - c)) t)" for t
      using less.hyps [OF lt' le dv less.prems(3)] by (simp add: ue add.assoc)
    show ?thesis
      unfolding step plan
      by (simp add: erase_request_def o wc [symmetric] IH split: prod.splits sum.splits)
  qed
qed

text \<open>
  Erasing an aligned range that does not wrap issues aligned block and sector erases that tile
  exactly that range, and always returns.
\<close>

theorem payload_update_erase_tiles:
  assumes "len \<noteq> 0" "4096 dvd unat len" "4096 dvd unat offset" "unat offset + unat len < 2 ^ 32"
  shows "\<exists>plan. libhoth_payload_update_erase dev offset len s =
      Some (run_requests (erase_request (payload_update_erase_chunk dev)) plan s) \<and>
    contiguous (unat offset) plan (unat offset + unat len) \<and>
    (\<forall>(o', c) \<in> set plan. (c = 4096 \<or> c = 65536) \<and> c dvd o' \<and> o' + c \<le> unat offset + unat len)"
proof -
  have r: "\<not> UINT32_MAX - offset < len"
    using assms(4) by (simp add: word_less_nat_alt unat_UINT32_MAX_sub)
  have "libhoth_payload_update_erase dev offset len s =
      erase_loop (payload_update_erase_chunk dev) offset len 0 s"
    using assms r unat_mod_sector [of len] unat_mod_sector [of offset]
    by (simp add: libhoth_payload_update_erase_def)
  also have "\<dots> = Some (run_requests (erase_request (payload_update_erase_chunk dev))
      (erase_plan (unat offset) (unat len)) s)"
    using erase_loop_plan [of 0 len offset "payload_update_erase_chunk dev" s] assms by simp
  finally show ?thesis using erase_plan_tiles [OF assms(3,2)] by blast
qed

theorem payload_update_erase_tiles_witness:
  "\<exists>plan. contiguous 0xF000 plan 0x21000 \<and>
    (\<forall>(o', c) \<in> set plan. (c = 4096 \<or> c = 65536) \<and> c dvd o' \<and> o' + c \<le> 0x21000)"
  using payload_update_erase_tiles [where len = "0x12000" and offset = "0xF000" and
      dev = "None :: unit libhoth_device option" and s = "()"] by auto

section \<open>The whole update on a device with flash\<close>

text \<open>
  What the update relies on the firmware for: an erase request sets its range to 0xFF, a
  CONTINUE request programs its data, and a failing request is reported. \<open>fl\<close> reads the staging
  side.
\<close>

definition flash_firmware :: "'w rot_handler \<Rightarrow> ('w \<Rightarrow> bytes) \<Rightarrow> bool" where
  "flash_firmware h fl \<longleftrightarrow>
    (\<forall>w offset len. unat offset + unat len \<le> length (fl w) \<longrightarrow>
      (\<exists>w'. h PAYLOAD_UPDATE_CMD 0 (payload_update_packet offset len PAYLOAD_UPDATE_ERASE) w = ((0, []), w') \<and>
        fl w' = memcpy_at (unat offset) (replicate (unat len) 0xFF) (fl w))) \<and>
    (\<forall>w offset d. unat offset + length d \<le> length (fl w) \<longrightarrow>
      (\<exists>w'. h PAYLOAD_UPDATE_CMD 0
          (payload_update_packet offset (word_of_nat (length d)) PAYLOAD_UPDATE_CONTINUE @ d) w = ((0, []), w') \<and>
        fl w' = memcpy_at (unat offset) d (fl w)))"

lemma send_packet_hostcmd:
  assumes "length d \<le> 1007"
  shows "send_packet dev (o', d) s = hostcmd dev PAYLOAD_UPDATE_CMD 0
    (payload_update_packet (word_of_nat o') (word_of_nat (length d)) PAYLOAD_UPDATE_CONTINUE @ d) 0 False s"
  using assms by (simp add: send_packet_def memcpy_at_def Let_def LIBHOTH_MAILBOX_SIZE_def)

lemma send_packets_program:
  assumes "flash_firmware h fl"
    and "\<And>o' d. (o', d) \<in> set ps \<Longrightarrow> length d \<le> 1007 \<and> o' + length d \<le> length (fl w) \<and> o' < 2 ^ 32"
  shows "\<exists>w' q'. run_requests (send_packet (Some (rot_device h))) ps (w, q) = (Inr (), (w', q')) \<and>
    fl w' = program_packets ps (fl w)"
  using assms(2)
proof (induction ps arbitrary: w q)
  case (Cons p ps)
  obtain o' d where p: "p = (o', d)" by (cases p)
  have b: "length d \<le> 1007" "o' + length d \<le> length (fl w)" "o' < 2 ^ 32"
    using Cons.prems [of o' d] p by auto
  then have u: "unat (word_of_nat o' :: u32) = o'" by (simp add: unat_of_nat)
  obtain w1 where w1: "h PAYLOAD_UPDATE_CMD 0
      (payload_update_packet (word_of_nat o') (word_of_nat (length d)) PAYLOAD_UPDATE_CONTINUE @ d) w = ((0, []), w1)"
    "fl w1 = memcpy_at o' d (fl w)"
    using assms(1) b(2) u unfolding flash_firmware_def by metis
  obtain q1 where s: "send_packet (Some (rot_device h)) (o', d) (w, q) = (Inr [], (w1, q1))"
    using b(1) w1(1) by (simp add: send_packet_hostcmd hostcmd_rot rpc_def)
  have "length (fl w1) = length (fl w)" using w1(2) b(2) by simp
  then show ?case using Cons.IH [of w1 q1] Cons.prems w1(2) s p by fastforce
qed simp

fun erase_effect :: "(nat \<times> nat) list \<Rightarrow> bytes \<Rightarrow> bytes" where
  "erase_effect [] flash = flash"
| "erase_effect ((o', n) # ps) flash = erase_effect ps (memcpy_at o' (replicate n 0xFF) flash)"

lemma erase_effect_contiguous:
  assumes "contiguous offset ps end" "end \<le> length flash"
  shows "offset \<le> end \<and> erase_effect ps flash = memcpy_at offset (replicate (end - offset) 0xFF) flash"
  using assms
proof (induction ps arbitrary: offset flash)
  case Nil
  then show ?case by (simp add: memcpy_at_def)
next
  case (Cons p ps)
  obtain n where p: "p = (offset, n)" and c: "contiguous (offset + n) ps end"
    using Cons.prems(1) by (cases p) auto
  let ?fl = "memcpy_at offset (replicate n 0xFF) flash"
  have le: "offset + n \<le> end"
    using Cons.IH [OF c Cons.prems(2)] by simp
  then have l: "length ?fl = length flash" using Cons.prems(2) by simp
  then have "erase_effect ps ?fl = memcpy_at (offset + n) (replicate (end - (offset + n)) 0xFF) ?fl"
    using Cons.IH [OF c, of ?fl] Cons.prems(2) by simp
  also have "\<dots> = memcpy_at offset (replicate (end - offset) 0xFF) flash"
    using le l Cons.prems(2)
    by (intro nth_equalityI) (auto simp: nth_memcpy_at)
  finally show ?case using p le by simp
qed

lemma send_erases_effect:
  assumes "flash_firmware h fl"
    and "\<And>o' n. (o', n) \<in> set ps \<Longrightarrow> o' + n \<le> length (fl w) \<and> o' < 2 ^ 32 \<and> n < 2 ^ 32"
  shows "\<exists>w' q'. run_requests (erase_request (payload_update_erase_chunk (Some (rot_device h)))) ps (w, q)
      = (Inr (), (w', q')) \<and> fl w' = erase_effect ps (fl w)"
  using assms(2)
proof (induction ps arbitrary: w q)
  case (Cons p ps)
  obtain o' n where p: "p = (o', n)" by (cases p)
  have b: "o' + n \<le> length (fl w)" "o' < 2 ^ 32" "n < 2 ^ 32" using Cons.prems [of o' n] p by auto
  then have u: "unat (word_of_nat o' :: u32) = o'" "unat (word_of_nat n :: u32) = n"
    by (simp_all add: unat_of_nat)
  obtain w1 where w1: "h PAYLOAD_UPDATE_CMD 0
      (payload_update_packet (word_of_nat o') (word_of_nat n) PAYLOAD_UPDATE_ERASE) w = ((0, []), w1)"
    "fl w1 = memcpy_at o' (replicate n 0xFF) (fl w)"
    using assms(1) b(1) u unfolding flash_firmware_def by metis
  obtain q1 where s: "erase_request (payload_update_erase_chunk (Some (rot_device h))) (o', n) (w, q)
      = (Inr [], (w1, q1))"
    using w1(1) by (simp add: erase_request_def payload_update_erase_chunk_def hostcmd_rot rpc_def)
  have "length (fl w1) = length (fl w)" using w1(2) b(1) by simp
  then show ?case using Cons.IH [of w1 q1] Cons.prems w1(2) s p by fastforce
qed simp

lemma sector_round:
  fixes n :: nat
  shows "(n + 4095) div 4096 * 4096 = (if n mod 4096 = 0 then n else n + (4096 - n mod 4096))"
    and "n \<le> (n + 4095) div 4096 * 4096"
proof -
  define a b where "a = n div 4096" and "b = n mod 4096"
  have n: "n = b + a * 4096" and b: "b < 4096" by (simp_all add: a_def b_def)
  have "(b + 4095) div 4096 = (if b = 0 then 0 else 1)"
    using b by (auto intro: div_nat_eqI)
  then have d: "(n + 4095) div 4096 = (if b = 0 then 0 else 1) + a"
  proof -
    have "n + 4095 = (b + 4095) + a * 4096" using n by simp
    then have "(n + 4095) div 4096 = a + (b + 4095) div 4096"
      by (simp only: div_mult_self1 [of 4096] zero_neq_numeral not_False_eq_True)
    with \<open>(b + 4095) div 4096 = _\<close> show ?thesis by simp
  qed
  show e: "(n + 4095) div 4096 * 4096 = (if n mod 4096 = 0 then n else n + (4096 - n mod 4096))"
    unfolding d b_def [symmetric] using n b by auto
  show "n \<le> (n + 4095) div 4096 * 4096" 
    unfolding e by (cases "n mod 4096 = 0") simp_all
qed

lemma erase_size_of_binary:
  assumes "(n + 4095) div 4096 * 4096 < 2 ^ 32"
  shows "erase_size_of n True = Inr ((n + 4095) div 4096 * 4096)"
proof -
  have k: "n mod 4096 \<noteq> 0 \<Longrightarrow> (n + 4095) div 4096 * 4096 = n + (4096 - n mod 4096)"
    "n mod 4096 = 0 \<Longrightarrow> (n + 4095) div 4096 * 4096 = n" by (simp_all add: sector_round(1))
  show ?thesis
  proof (cases "n mod 4096 = 0")
    case True
    then show ?thesis using assms k(2)
      by (simp add: erase_size_of_def kSectorErase_def UINT32_MAX_def)
  next
    case False
    then have "n + (4096 - n mod 4096) \<le> 4294967295" using assms k(1) by simp
    then show ?thesis using False k(1)
      by (simp add: erase_size_of_def kSectorErase_def UINT32_MAX_def Let_def)
  qed
qed

text \<open>
  The whole update relies on more: the flash requests leave the number \<open>finals\<close> of finalised images
  alone, the version query is answered (or rejected as an unknown command, which counts as
  version 0), and the FINALIZE request of the version found raises \<open>finals\<close> and leaves the flash alone.
\<close>

definition update_keeps :: "'w rot_handler \<Rightarrow> ('w \<Rightarrow> 'g) \<Rightarrow> bool" where
  "update_keeps h g \<longleftrightarrow>
    (\<forall>w offset len. g (snd (h PAYLOAD_UPDATE_CMD 0
      (payload_update_packet offset len PAYLOAD_UPDATE_ERASE) w)) = g w) \<and>
    (\<forall>w offset d. g (snd (h PAYLOAD_UPDATE_CMD 0
      (payload_update_packet offset (word_of_nat (length d)) PAYLOAD_UPDATE_CONTINUE @ d) w)) = g w)"

definition update_firmware :: "'w rot_handler \<Rightarrow> ('w \<Rightarrow> bytes) \<Rightarrow> ('w \<Rightarrow> nat) \<Rightarrow> bool" where
  "update_firmware h fl finals \<longleftrightarrow>
    flash_firmware h fl \<and> update_keeps h finals \<and>
    (\<forall>w. \<exists>version_mask w1 v w2.
      (h HOTH_CMD_GET_CMD_VERSIONS 1 (le_bytes 2 PAYLOAD_UPDATE_CMD) w = ((1, []), w1) \<and> v = 0 \<or>
       h HOTH_CMD_GET_CMD_VERSIONS 1 (le_bytes 2 PAYLOAD_UPDATE_CMD) w = ((0, le_bytes 4 (version_mask :: u32)), w1) \<and>
         v = (if bit version_mask 1 then 1 else 0)) \<and>
      (\<exists>b. h PAYLOAD_UPDATE_CMD v (payload_update_packet 0 0 PAYLOAD_UPDATE_FINALIZE) w1 =
        ((0, if v = 0 then [] else [b]), w2)) \<and>
      fl w2 = fl w \<and> finals w2 = finals w + 1)"

lemma bit_1_mask: "(x :: u32) AND 2 = 0 \<longleftrightarrow> \<not> bit x 1"
  using and_exp_eq_0_iff_not_bit [of x 1] by simp

lemma update_finalize:
  assumes "update_firmware h fl finals"
  shows "\<exists>r w' q'. libhoth_payload_update_finalize (Some (rot_device h)) (w, q) = (Inr r, (w', q')) \<and>
    fl w' = fl w \<and> finals w' = finals w + 1"
proof -
  from assms [unfolded update_firmware_def, THEN conjunct2, THEN conjunct2, THEN spec, of w]
  obtain version_mask w1 v w2 b where f:
    "h HOTH_CMD_GET_CMD_VERSIONS 1 (le_bytes 2 PAYLOAD_UPDATE_CMD) w = ((1, []), w1) \<and> v = 0 \<or>
     h HOTH_CMD_GET_CMD_VERSIONS 1 (le_bytes 2 PAYLOAD_UPDATE_CMD) w = ((0, le_bytes 4 (version_mask :: u32)), w1) \<and>
       v = (if bit version_mask 1 then 1 else 0)"
    "h PAYLOAD_UPDATE_CMD v (payload_update_packet 0 0 PAYLOAD_UPDATE_FINALIZE) w1 =
      ((0, if v = 0 then [] else [b]), w2)" "fl w2 = fl w" "finals w2 = finals w + 1"
    by (elim exE conjE) (rule that)
  have v: "\<exists>q1. get_payload_update_version (Some (rot_device h)) (w, q) = (Inr v, (w1, q1))"
    using f(1)
  proof
    assume "h HOTH_CMD_GET_CMD_VERSIONS 1 (le_bytes 2 PAYLOAD_UPDATE_CMD) w = ((1, []), w1) \<and> v = 0"
    then show ?thesis
      by (simp add: get_payload_update_version_def libhoth_get_command_versions_def
        hostcmd_rot rpc_def)
  next
    assume "h HOTH_CMD_GET_CMD_VERSIONS 1 (le_bytes 2 PAYLOAD_UPDATE_CMD) w = ((0, le_bytes 4 (version_mask :: u32)), w1) \<and>
       v = (if bit version_mask 1 then 1 else 0)"
    then show ?thesis
      by (simp add: get_payload_update_version_def libhoth_get_command_versions_def
        hostcmd_rot rpc_def bit_1_mask u32_at_le_bytes [of _ "[]", simplified])
  qed
  then obtain q1 where v: "get_payload_update_version (Some (rot_device h)) (w, q) = (Inr v, (w1, q1))" by blast
  have v01: "v = 0 \<or> v = 1" using f(1) by auto
  then show ?thesis
    using f(2-4) v
    by (elim disjE) (simp_all add: libhoth_payload_update_finalize_def
      send_payload_update_request_with_command_def hostcmd_rot rpc_def)
qed


lemma rpc_state: "snd (rpc h c v p n want w) = (if 1016 < length p then w else snd (h c v p w))"
  by (simp add: rpc_def split_beta)

lemma send_erase_keeps:
  assumes "update_keeps h g"
  shows "g (fst (snd (erase_request (payload_update_erase_chunk (Some (rot_device h))) p s))) = g (fst s)"
  using assms
  by (cases s) (simp add: erase_request_def payload_update_erase_chunk_def hostcmd_rot rpc_state update_keeps_def)

lemma send_packet_keeps:
  assumes "update_keeps h g" "length (snd p) \<le> 1007"
  shows "g (fst (snd (send_packet (Some (rot_device h)) p s))) = g (fst s)"
  using assms
  by (cases s; cases p) (simp add: send_packet_hostcmd hostcmd_rot rpc_state update_keeps_def)

lemma run_requests_keeps:
  "(\<And>p s. p \<in> set ps \<Longrightarrow> g (snd (f p s)) = g s) \<Longrightarrow> g (snd (run_requests f ps s)) = g s"
proof (induction ps arbitrary: s)
  case (Cons p ps)
  obtain r s1 where f: "f p s = (r, s1)" by (cases "f p s")
  then have "g s1 = g s" using Cons.prems [of p s] by simp
  moreover have "g (snd (run_requests f ps s1)) = g s1" using Cons.prems by (intro Cons.IH) auto
  ultimately show ?case using f by (simp split: sum.split)
qed simp

text \<open>The erase of \<open>k\<close> bytes from the start, and the packets on erased flash.\<close>

lemma erase_from_start:
  assumes "flash_firmware h fl" "update_keeps h g" "4096 dvd k" "k \<noteq> 0" "k < 2 ^ 32" "k \<le> length (fl w)"
  shows "\<exists>w' q'. libhoth_payload_update_erase (Some (rot_device h)) 0 (word_of_nat k) (w, q) =
      Some (Inr (), (w', q')) \<and>
    fl w' = replicate k 0xFF @ drop k (fl w) \<and> g w' = g w"
proof -
  let ?dev = "Some (rot_device h)"
  have u: "unat (word_of_nat k :: u32) = k" using assms(5) by (simp add: unat_of_nat)
  have "(word_of_nat k :: u32) \<noteq> 0" using u assms(4) by auto
  from payload_update_erase_tiles [OF this, of 0 ?dev "(w, q)"] assms(3) u assms(5)
  obtain plan where plan: "libhoth_payload_update_erase ?dev 0 (word_of_nat k) (w, q) =
      Some (run_requests (erase_request (payload_update_erase_chunk ?dev)) plan (w, q))"
    "contiguous 0 plan k" "\<forall>(o', c) \<in> set plan. (c = 4096 \<or> c = 65536) \<and> c dvd o' \<and> o' + c \<le> k"
    by auto
  have "o' + c \<le> length (fl w) \<and> o' < 2 ^ 32 \<and> c < 2 ^ 32" if "(o', c) \<in> set plan" for o' c
    using plan(3) that assms(5,6) by fastforce
  from send_erases_effect [OF assms(1) this] obtain w1 q1 where
    w1: "run_requests (erase_request (payload_update_erase_chunk ?dev)) plan (w, q) = (Inr (), (w1, q1))"
    "fl w1 = erase_effect plan (fl w)" by blast
  have "g w1 = g w"
    using run_requests_keeps [of plan "\<lambda>s. g (fst s)"
        "erase_request (payload_update_erase_chunk ?dev)" "(w, q)"] send_erase_keeps [OF assms(2)] w1(1)
    by simp
  then show ?thesis
    using plan(1) w1 erase_effect_contiguous [OF plan(2) assms(6)] by (simp add: memcpy_at_def)
qed

lemma packets_on_erased:
  assumes "flash_firmware h fl" "update_keeps h g" "length img < 2 ^ 32" "length img \<le> length (fl w)"
    and "take (length img) (fl w) = replicate (length img) 0xFF"
  shows "\<exists>w' q'. update_loop (send_packet (Some (rot_device h))) img 0 (w, q) = (Inr (), (w', q')) \<and>
    fl w' = img @ drop (length img) (fl w) \<and> g w' = g w"
proof -
  let ?dev = "Some (rot_device h)"
  have b: "length d \<le> 1007 \<and> o' + length d \<le> length (fl w) \<and> o' < 2 ^ 32"
    if "(o', d) \<in> set (update_packets img 0)" for o' d
    using update_packets_bounds [OF that] assms(3,4) by linarith
  from send_packets_program [OF assms(1) this] obtain w2 q2 where
    w2: "run_requests (send_packet ?dev) (update_packets img 0) (w, q) = (Inr (), (w2, q2))"
    "fl w2 = program_packets (update_packets img 0) (fl w)" by blast
  have "\<forall>i < length img. fl w ! i = 0xFF" using assms(5) by (metis nth_replicate nth_take)
  then have "fl w2 = img @ drop (length img) (fl w)"
    using w2(2) program_update_packets [of img "fl w" 0] assms(4)
    by (intro nth_equalityI) (auto simp: nth_append)
  moreover have "g w2 = g w"
    using run_requests_keeps [of "update_packets img 0" "\<lambda>s. g (fst s)" "send_packet ?dev" "(w, q)"]
      send_packet_keeps [OF assms(2)] b w2(1) by fastforce
  ultimately show ?thesis using w2(1) by (simp add: update_loop_packets)
qed

lemma erase_for_update_unaligned:
  assumes "img = [] \<or> \<not> binary_file \<and> length img mod 4096 \<noteq> 0" "length img < 2 ^ 32"
  shows "erase_for_update dev (length img) False binary_file s =
    Some (Inl (cmd_err LIBHOTH_ERR_IMAGE_NOT_SECTOR_ALIGNED), s)"
proof -
  have "unat (word_of_nat (length img) :: u32) = length img" using assms(2) by (simp add: unat_of_nat)
  then have "img = [] \<or> (word_of_nat (length img) :: u32) mod kSectorErase \<noteq> 0"
    using assms(1) by (auto simp: unat_mod_sector dvd_eq_mod_eq_0)
  then have "libhoth_payload_update_erase dev 0 (word_of_nat (length img)) s =
      Some (Inl (cmd_err LIBHOTH_ERR_IMAGE_NOT_SECTOR_ALIGNED), s)"
    by (elim disjE) (simp_all add: libhoth_payload_update_erase_def)
  moreover have "erase_size_of (length img) binary_file = Inr (length img)"
    using assms by (elim disjE) (simp_all add: erase_size_of_def UINT32_MAX_def)
  ultimately show ?thesis by (simp add: erase_for_update_def)
qed

lemma erase_for_update_aligned:
  assumes "flash_firmware h fl" "update_keeps h g" "img \<noteq> []" "\<not> binary_file \<longrightarrow> length img mod 4096 = 0"
    and "k = (length img + 4095) div 4096 * 4096" "k < 2 ^ 32" "k \<le> length (fl w)"
  shows "\<exists>w' q'. erase_for_update (Some (rot_device h)) (length img) False binary_file (w, q) =
      Some (Inr (), (w', q')) \<and>
    fl w' = replicate k 0xFF @ drop k (fl w) \<and> g w' = g w"
proof -
  have n: "length img \<le> k" "4096 dvd k"
    using sector_round(2) [of "length img"] by (simp_all add: assms(5))
  then have k0: "k \<noteq> 0" using assms(3) by (metis le_zero_eq length_0_conv)
  have "erase_size_of (length img) binary_file = Inr k"
  proof (cases binary_file)
    case True
    then show ?thesis using assms(5,6) by (simp add: erase_size_of_binary)
  next
    case False
    then have "k = length img" using assms(4,5) sector_round(1) [of "length img"] by simp
    then show ?thesis using False assms(6) by (simp add: erase_size_of_def UINT32_MAX_def)
  qed
  then show ?thesis
    using erase_from_start [OF assms(1,2) n(2) k0 assms(6,7), of q] by (simp add: erase_for_update_def)
qed

text \<open>A binary image needs no finalisation.\<close>

lemma binary_update_flash:
  assumes "flash_firmware h fl" and "img \<noteq> []"
    and "k = (length img + 4095) div 4096 * 4096" and "k < 2 ^ 32" and "k \<le> length (fl w)"
  shows "\<exists>w' q'. libhoth_payload_update (Some (rot_device h)) img False True (w, q) =
      Some (Inr (), (w', q')) \<and>
    fl w' = img @ replicate (k - length img) 0xFF @ drop k (fl w)"
proof -
  let ?dev = "Some (rot_device h)"
  have keeps: "update_keeps h (\<lambda>_. ())" by (simp add: update_keeps_def)
  obtain w1 q1 where w1: "erase_for_update ?dev (length img) False True (w, q) = Some (Inr (), (w1, q1))"
    "fl w1 = replicate k 0xFF @ drop k (fl w)"
    using erase_for_update_aligned [OF assms(1) keeps assms(2) _ assms(3-5), of True q] by auto
  have n: "length img \<le> k" using sector_round(2) [of "length img"] by (simp add: assms(3))
  have "length (fl w1) = length (fl w)" using w1(2) assms(5) by simp
  then obtain w2 q2 where "update_loop (send_packet ?dev) img 0 (w1, q1) = (Inr (), (w2, q2))"
    "fl w2 = img @ replicate (k - length img) 0xFF @ drop k (fl w)"
    using packets_on_erased [OF assms(1) keeps, of img w1 q1] n assms(4,5) w1(2) by auto
  then show ?thesis using w1(1) by (auto simp: libhoth_payload_update_def)
qed

text \<open>
  C2: updating a conforming device, whatever the options. An image without a descriptor is
  refused unless it is a binary file, and what cannot be erased by sectors (an empty image, or one
  with a descriptor whose length is not a multiple of 4096) is refused unless the erase is
  skipped; both leave the device alone. Otherwise the update succeeds: the staging side holds the
  image, erased bytes up to the end of the erased range, and what was there beyond it; and the image
  is finalised exactly once, or not at all for a binary file. With \<open>skip_erase\<close> the range of
  the image has to be erased already; the erased range fits 32 bits and the flash.
\<close>

theorem payload_update_programs_flash:
  assumes "update_firmware h fl finals"
    and "k = (if skip_erase then length img else (length img + 4095) div 4096 * 4096)"
    and "k < 2 ^ 32" and "k \<le> length (fl w)"
    and "skip_erase \<longrightarrow> take (length img) (fl w) = replicate (length img) 0xFF"
  shows "\<exists>res w' q'. libhoth_payload_update (Some (rot_device h)) img skip_erase binary_file (w, q) =
      Some (res, (w', q')) \<and>
    (if \<not> binary_file \<and> libhoth_find_image_descriptor img = Some None
     then res = Inl (cmd_err LIBHOTH_ERR_BAD_IMAGE) \<and> w' = w
     else if \<not> skip_erase \<and> (img = [] \<or> \<not> binary_file \<and> length img mod 4096 \<noteq> 0)
     then res = Inl (cmd_err LIBHOTH_ERR_IMAGE_NOT_SECTOR_ALIGNED) \<and> w' = w
     else res = Inr () \<and> fl w' = img @ replicate (k - length img) 0xFF @ drop k (fl w) \<and>
       finals w' = finals w + (if binary_file then 0 else 1))"
proof -
  let ?dev = "Some (rot_device h)"
  have ff: "flash_firmware h fl" "update_keeps h finals"
    using assms(1) by (simp_all add: update_firmware_def)
  let ?bad = "\<not> binary_file \<and> libhoth_find_image_descriptor img = Some None"
  let ?unaligned = "\<not> skip_erase \<and> (img = [] \<or> \<not> binary_file \<and> length img mod 4096 \<noteq> 0)"
  have n: "length img \<le> k" using sector_round(2) [of "length img"] by (simp add: assms(2))
  consider "?bad" | "\<not> ?bad" "?unaligned" | "\<not> ?bad" "\<not> ?unaligned" by blast
  then show ?thesis
  proof cases
    case 1
    then show ?thesis by (simp add: libhoth_payload_update_def)
  next
    case 2
    then show ?thesis using erase_for_update_unaligned [of img binary_file ?dev "(w, q)"] n assms(3)
      by (auto simp: libhoth_payload_update_def)
  next
    case 3
    have "\<exists>w1 q1. erase_for_update ?dev (length img) skip_erase binary_file (w, q) = Some (Inr (), (w1, q1)) \<and>
      fl w1 = replicate k 0xFF @ drop k (fl w) \<and> finals w1 = finals w"
    proof (cases skip_erase)
      case True
      then have "fl w = replicate k 0xFF @ drop k (fl w)"
        using assms(2,5) by (metis append_take_drop_id)
      then show ?thesis using True by (auto simp: erase_for_update_def)
    next
      case False
      then show ?thesis
        using erase_for_update_aligned [OF ff _ _ _ assms(3,4), of img binary_file q] 3(2) assms(2) by auto
    qed
    then obtain w1 q1 where w1: "erase_for_update ?dev (length img) skip_erase binary_file (w, q) = Some (Inr (), (w1, q1))"
      "fl w1 = replicate k 0xFF @ drop k (fl w)" "finals w1 = finals w" by blast
    have "length (fl w1) = length (fl w)" using w1(2) assms(4) by simp
    then obtain w2 q2 where w2: "update_loop (send_packet ?dev) img 0 (w1, q1) = (Inr (), (w2, q2))"
      "fl w2 = img @ replicate (k - length img) 0xFF @ drop k (fl w)" "finals w2 = finals w"
      using packets_on_erased [OF ff, of img w1 q1] n assms(3,4) w1(2,3) by auto
    show ?thesis
    proof (cases binary_file)
      case True
      then show ?thesis using 3 w1(1) w2 by (auto simp: libhoth_payload_update_def)
    next
      case False
      obtain r w3 q3 where "libhoth_payload_update_finalize ?dev (w2, q2) = (Inr r, (w3, q3))"
        "fl w3 = fl w2" "finals w3 = finals w2 + 1" using update_finalize [OF assms(1)] by blast
      then show ?thesis using False 3 w1(1) w2 by (auto simp: libhoth_payload_update_def)
    qed
  qed
qed

text \<open>A device that is its flash.\<close>

definition flash_device :: "bytes rot_handler" where
  "flash_device c v p w =
    (if c = PAYLOAD_UPDATE_CMD \<and> v = 0 \<and> 9 \<le> length p then
       (let offset = unat (u32_at 0 p); len = unat (u32_at 4 p) in
        if p ! 8 = 8 then ((0, []), memcpy_at offset (replicate len 0xFF) w)
        else if p ! 8 = 1 then ((0, []), memcpy_at offset (drop 9 p) w)
        else ((1, []), w))
     else ((1, []), w))"

lemma packet_fields [simp]:
  "u32_at 0 (payload_update_packet offset len type @ d) = offset"
  "u32_at 4 (payload_update_packet offset len type @ d) = len"
  "u32_at 0 (payload_update_packet offset len type) = offset"
  "u32_at 4 (payload_update_packet offset len type) = len"
  "(payload_update_packet offset len type @ d) ! 8 = update_type_val type"
  "payload_update_packet offset len type ! 8 = update_type_val type"
  by (simp_all add: payload_update_packet_def field_defs nth_append)

lemma flash_device_conforms: "flash_firmware flash_device (\<lambda>w. w)"
  by (simp add: flash_firmware_def flash_device_def)

text \<open>A device that also counts the images finalised; its firmware does not know the version query.\<close>

definition update_device :: "(bytes \<times> nat) rot_handler" where
  "update_device c v p w =
    (if c = PAYLOAD_UPDATE_CMD \<and> v = 0 \<and> p = payload_update_packet 0 0 PAYLOAD_UPDATE_FINALIZE
     then ((0, []), (fst w, snd w + 1))
     else let (r, flash) = flash_device c v p (fst w) in (r, (flash, snd w)))"

lemma update_device_conforms: "update_firmware update_device fst snd"
proof -
  have n: "payload_update_packet offset len PAYLOAD_UPDATE_ERASE \<noteq> payload_update_packet 0 0 PAYLOAD_UPDATE_FINALIZE"
    "payload_update_packet offset len PAYLOAD_UPDATE_CONTINUE @ d \<noteq> payload_update_packet 0 0 PAYLOAD_UPDATE_FINALIZE"
    for offset len d
    by (auto simp: payload_update_packet_def)
  show ?thesis
    unfolding update_firmware_def flash_firmware_def update_keeps_def
    by (auto simp: update_device_def flash_device_def n HOTH_CMD_GET_CMD_VERSIONS_def
      HOTH_CMD_BOARD_SPECIFIC_BASE_def HOTH_PRV_CMD_HOTH_PAYLOAD_UPDATE_def Let_def)
qed

theorem payload_update_programs_flash_witness:
  "\<exists>w' q'. libhoth_payload_update (Some (rot_device update_device)) [1, 2, 3] False True
      ((replicate 5000 7, 0), []) = Some (Inr (), (w', q')) \<and>
    w' = ([1, 2, 3] @ replicate 4093 0xFF @ replicate 904 7, 0)"
  using payload_update_programs_flash [OF update_device_conforms, of 4096 False "[1, 2, 3]" "(replicate 5000 7, 0)"
    True "[]"]
  by (auto simp: prod_eq_iff)

section \<open>Reading the flash back\<close>

definition flash_reader :: "'w rot_handler \<Rightarrow> ('w \<Rightarrow> bytes) \<Rightarrow> ('w \<Rightarrow> bytes) \<Rightarrow> bool" where
  "flash_reader h fl out \<longleftrightarrow>
    (\<forall>w offset len. unat offset + unat len \<le> length (fl w) \<longrightarrow>
      (\<exists>w'. h PAYLOAD_UPDATE_CMD 0 (payload_update_packet offset len PAYLOAD_UPDATE_READ) w =
          ((0, byte_range (unat offset) (unat len) (fl w)), w') \<and> fl w' = fl w \<and> out w' = out w))"

text \<open>
  Reading a range of the staging side ends, and if it succeeds it has appended exactly the
  bytes of that range to the file.
\<close>

theorem payload_update_read_back:
  assumes "flash_reader h fl out" and "takes_some wr (\<lambda>s. out (fst s))"
    and "\<forall>buf s. fl (fst (snd (wr buf s))) = fl (fst s)"
    and "offset + len \<le> length (fl w)" and "offset + len < 2 ^ 32"
  shows "\<exists>res w' q'. libhoth_payload_update_read_chunk wr (Some (rot_device h)) len offset (w, q) =
      Some (res, (w', q')) \<and> (res = Inr () \<longrightarrow> out w' = out w @ byte_range offset len (fl w))"
  using assms(4,5)
proof (induction len arbitrary: offset w q rule: less_induct)
  case (less len)
  show ?case
  proof (cases "len = 0")
    case True
    then show ?thesis
      by (subst libhoth_payload_update_read_chunk.simps) (simp add: byte_range_def)
  next
    case False
    define c where "c = (if len < max_read_chunk then len else max_read_chunk)"
    have c: "0 < c" "c \<le> len" "c \<le> 1016"
      using False by (auto simp: c_def max_read_chunk_def LIBHOTH_MAILBOX_SIZE_def)
    have u: "unat (word_of_nat offset :: u32) = offset" "unat (word_of_nat c :: u32) = c"
      using c less.prems by (simp_all add: unat_of_nat)
    have in_flash: "unat (word_of_nat offset :: u32) + unat (word_of_nat c :: u32) \<le> length (fl w)"
      using u c(2) less.prems(1) by simp
    obtain w1 where w1: "h PAYLOAD_UPDATE_CMD 0
        (payload_update_packet (word_of_nat offset) (word_of_nat c) PAYLOAD_UPDATE_READ) w =
          ((0, byte_range offset c (fl w)), w1)" "fl w1 = fl w" "out w1 = out w"
      using assms(1) in_flash u unfolding flash_reader_def by metis
    let ?d = "byte_range offset c (fl w)"
    have ld: "length ?d = c" using c(2) less.prems(1) by simp
    obtain q1 where h1: "hostcmd (Some (rot_device h)) PAYLOAD_UPDATE_CMD 0
        (payload_update_packet (word_of_nat offset) (word_of_nat c) PAYLOAD_UPDATE_READ) c False (w, q) =
        (Inr ?d, (w1, q1))"
      using w1(1) c ld by (simp add: hostcmd_rot rpc_def)
    obtain errno w2 q2 n where fw: "libhoth_force_write wr ?d (w1, q1) = Some (errno, (w2, q2))"
      "errno = 0 \<longrightarrow> out w2 = out w1 @ ?d"
      using force_write_returns [OF assms(2), of ?d "(w1, q1)"] by (auto simp: ld)
    have fl2: "fl w2 = fl w"
      using force_write_frame [OF fw(1), of "\<lambda>s. fl (fst s)"] assms(3) w1(2) by simp
    have step: "libhoth_payload_update_read_chunk wr (Some (rot_device h)) len offset (w, q) =
      (if errno \<noteq> 0
       then Some (Inl (hoth_err HOTH_CTX_CMD_EXEC HOTH_HOST_SPACE_POSIX (word_of_int errno)), (w2, q2))
       else libhoth_payload_update_read_chunk wr (Some (rot_device h)) (len - c) (offset + c) (w2, q2))"
      using False by (subst libhoth_payload_update_read_chunk.simps, unfold Let_def c_def [symmetric])
        (simp add: h1 fw(1))
    show ?thesis
    proof (cases "errno = 0")
      case False
      then show ?thesis unfolding step by simp
    next
      case True
      have "len - c < len" "offset + c + (len - c) \<le> length (fl w2)" "offset + c + (len - c) < 2 ^ 32"
        using c less.prems fl2 by auto
      from less.IH [OF this, of q2] obtain res w3 q3 where
        r: "libhoth_payload_update_read_chunk wr (Some (rot_device h)) (len - c) (offset + c) (w2, q2) =
          Some (res, (w3, q3))" "res = Inr () \<longrightarrow> out w3 = out w2 @ byte_range (offset + c) (len - c) (fl w2)"
        by blast
      have "byte_range offset c (fl w) @ byte_range (offset + c) (len - c) (fl w) = byte_range offset len (fl w)"
        using c by (intro byte_range_join) auto
      then show ?thesis using r True fw(2) w1(3) fl2 unfolding step by auto
    qed
  qed
qed

text \<open>A device whose world is the flash and the file that is written.\<close>

definition reading_device :: "(bytes \<times> bytes) rot_handler" where
  "reading_device c v p w = ((0, byte_range (unat (u32_at 0 p)) (unat (u32_at 4 p)) (fst w)), w)"

definition append_to_file :: "bytes \<Rightarrow> (bytes \<times> bytes) \<times> bytes \<Rightarrow> (int + nat) \<times> ((bytes \<times> bytes) \<times> bytes)" where
  "append_to_file buf s = (Inr (length buf), ((fst (fst s), snd (fst s) @ buf), snd s))"

theorem payload_update_read_back_witness:
  "\<exists>res w' q'. libhoth_payload_update_read_chunk append_to_file (Some (rot_device reading_device)) 2 1
      (([5, 6, 7, 8], [9]), []) = Some (res, (w', q')) \<and> (res = Inr () \<longrightarrow> snd w' = [9, 6, 7])"
proof -
  have "flash_reader reading_device fst snd"
    by (simp add: flash_reader_def reading_device_def)
  moreover have "takes_some append_to_file (\<lambda>s. snd (fst s))"
    by (simp add: takes_some_def append_to_file_def)
  moreover have "\<forall>buf s. fst (fst (snd (append_to_file buf s))) = fst (fst s)"
    by (simp add: append_to_file_def)
  ultimately show ?thesis
    using payload_update_read_back [of reading_device fst snd append_to_file 1 2 "([5, 6, 7, 8], [9])" "[]"]
    by (simp add: byte_range_def)
qed

end
