(* ===== verification/Spi_Proxy.thy ===== *)
theory Spi_Proxy
  imports Rot_Commands
begin

text \<open>
  \<open>protocol/spi_proxy.c\<close>: SPI flash access through the root of trust. Transactions are collected in
  a 1016-byte buffer and executed by one host command. An \<open>assert\<close> that fails is the value \<open>None\<close>
  (the process aborts); the theorems show that no assertion fails, what the requests contain,
  and what they do to a flash chip. \<open>addr\<close> is 32 bits and wraps; \<open>size_t\<close> values that may wrap are
  64-bit words, the others \<open>nat\<close>. The progress callback only prints.
\<close>

section \<open>Collecting transactions\<close>

definition SPI_OP_PAGE_PROGRAM :: u8 where "SPI_OP_PAGE_PROGRAM = 0x02"
definition SPI_OP_READ :: u8 where "SPI_OP_READ = 0x03"
definition SPI_OP_ERASE_4K :: u8 where "SPI_OP_ERASE_4K = 0x20"
definition SPI_OP_ERASE_64K :: u8 where "SPI_OP_ERASE_64K = 0xd8"
definition SPI_OP_WRITE_ENABLE :: u8 where "SPI_OP_WRITE_ENABLE = 0x06"
definition SPI_OP_ENTER_4B :: u8 where "SPI_OP_ENTER_4B = 0xb7"
definition SPI_OP_READ_STATUS :: u8 where "SPI_OP_READ_STATUS = 0x05"

lemmas spi_opcodes = SPI_OP_PAGE_PROGRAM_def SPI_OP_READ_def SPI_OP_ERASE_4K_def SPI_OP_ERASE_64K_def
  SPI_OP_WRITE_ENABLE_def SPI_OP_ENTER_4B_def SPI_OP_READ_STATUS_def

definition HOTH_PRV_CMD_HOTH_SPI_OPERATION :: u16 where
  "HOTH_PRV_CMD_HOTH_SPI_OPERATION = 0x0020"

definition MAX_TRANSACTIONS :: nat where "MAX_TRANSACTIONS = 12"
definition MAX_SPI_OP_PAYLOAD_BYTES :: nat where "MAX_SPI_OP_PAYLOAD_BYTES = 1016"
definition OPCODE_AND_ADDRESS_MAX_SIZE :: nat where "OPCODE_AND_ADDRESS_MAX_SIZE = 5"

abbreviation sizeof_spi_header :: nat where "sizeof_spi_header \<equiv> 4"

definition READ_CHUNK_SIZE :: nat where
  "READ_CHUNK_SIZE = MAX_SPI_OP_PAYLOAD_BYTES - sizeof_spi_header - OPCODE_AND_ADDRESS_MAX_SIZE"

lemmas spi_limits = MAX_TRANSACTIONS_def MAX_SPI_OP_PAYLOAD_BYTES_def READ_CHUNK_SIZE_def
  OPCODE_AND_ADDRESS_MAX_SIZE_def

text \<open>\<open>has_dest\<close>: whether \<open>miso_dest_buf\<close> is not NULL.\<close>

record spi_operation_transaction =
  header_offset :: nat
  skip_miso_nbytes :: nat
  has_dest :: bool
  miso_dest_buf_len :: nat

text \<open>
  \<open>op_current\<close> is the header offset stored in the transaction under construction,
  \<open>transactions[num_transactions]\<close>; \<open>op_transactions\<close> are those completed.
\<close>

record spi_operation =
  op_buf :: bytes
  op_pos :: nat
  op_current :: nat
  op_transactions :: "spi_operation_transaction list"

definition spi_operation_init :: "spi_operation \<Rightarrow> spi_operation" where
  "spi_operation_init op = op\<lparr>op_pos := 0, op_transactions := []\<rparr>"

definition spi_operation_begin_transaction :: "spi_operation \<Rightarrow> spi_operation option" where
  "spi_operation_begin_transaction op =
    (if \<not> length (op_transactions op) < MAX_TRANSACTIONS then None
     else if \<not> op_pos op + sizeof_spi_header < MAX_SPI_OP_PAYLOAD_BYTES then None
     else Some (op\<lparr>op_current := op_pos op, op_pos := op_pos op + sizeof_spi_header\<rparr>))"

definition spi_operation_write_mosi :: "bytes \<Rightarrow> spi_operation \<Rightarrow> spi_operation option" where
  "spi_operation_write_mosi mosi op =
    (if \<not> op_pos op + length mosi < MAX_SPI_OP_PAYLOAD_BYTES then None
     else Some (op\<lparr>op_buf := memcpy_at (op_pos op) mosi (op_buf op), op_pos := op_pos op + length mosi\<rparr>))"

definition spi_address_bytes :: "bool \<Rightarrow> u32 \<Rightarrow> bytes" where
  "spi_address_bytes is_4_byte addr =
    (let buf = [ucast (drop_bit 24 addr), ucast (drop_bit 16 addr), ucast (drop_bit 8 addr), ucast addr]
     in if is_4_byte then buf else drop 1 buf)"

definition spi_operation_write_mosi_address :: "bool \<Rightarrow> u32 \<Rightarrow> spi_operation \<Rightarrow> spi_operation option" where
  "spi_operation_write_mosi_address is_4_byte addr op =
    spi_operation_write_mosi (spi_address_bytes is_4_byte addr) op"

definition spi_operation_read_miso_and_end_transaction ::
  "bool \<Rightarrow> nat \<Rightarrow> spi_operation \<Rightarrow> spi_operation option" where
  "spi_operation_read_miso_and_end_transaction dest dest_len op =
    (if \<not> length (op_transactions op) < MAX_TRANSACTIONS then None
     else
       let mosi_len = op_pos op - op_current op - sizeof_spi_header;
           miso_len = (if 0 < dest_len then mosi_len + dest_len else 0);
           req = le_bytes 2 (word_of_nat mosi_len :: u16) @ le_bytes 2 (word_of_nat miso_len :: u16);
           t = \<lparr>header_offset = op_current op, skip_miso_nbytes = mosi_len, has_dest = dest,
                miso_dest_buf_len = dest_len\<rparr>
       in Some (op\<lparr>op_buf := memcpy_at (op_current op) req (op_buf op),
                  op_transactions := op_transactions op @ [t]\<rparr>))"

definition spi_operation_end_transaction :: "spi_operation \<Rightarrow> spi_operation option" where
  "spi_operation_end_transaction op = spi_operation_read_miso_and_end_transaction False 0 op"

section \<open>Executing\<close>

text \<open>The data of the destination buffers, in order, or \<open>None\<close> when the response is too short.\<close>

fun collect_miso :: "bytes \<Rightarrow> nat \<Rightarrow> spi_operation_transaction list \<Rightarrow> bytes list option" where
  "collect_miso response pos [] = Some []"
| "collect_miso response pos (t # ts) =
    (let pos' = pos + (skip_miso_nbytes t + miso_dest_buf_len t) in
     if 0 < miso_dest_buf_len t then
       (if length response < pos + miso_dest_buf_len t + skip_miso_nbytes t then None
        else
          (case collect_miso response pos' ts of
             None \<Rightarrow> None
           | Some ds \<Rightarrow>
               Some (if has_dest t
                     then byte_range (pos + skip_miso_nbytes t) (miso_dest_buf_len t) response # ds
                     else ds)))
     else collect_miso response pos' ts)"

definition spi_operation_execute ::
  "spi_operation \<Rightarrow> 's libhoth_device option \<Rightarrow> 's \<Rightarrow> (bytes list, 's) hoth_result" where
  "spi_operation_execute op dev s =
    (case hostcmd dev (HOTH_CMD_BOARD_SPECIFIC_BASE + HOTH_PRV_CMD_HOTH_SPI_OPERATION) 0
            (take (op_pos op) (op_buf op)) MAX_SPI_OP_PAYLOAD_BYTES True s of
       (Inl e, s') \<Rightarrow> (Inl e, s')
     | (Inr response, s') \<Rightarrow>
         (case collect_miso response 0 (op_transactions op) of
            None \<Rightarrow> (Inl (cmd_err LIBHOTH_ERR_FAIL), s')
          | Some ds \<Rightarrow> (Inr ds, s')))"

section \<open>Reading\<close>

text \<open>\<open>stk\<close> is the uninitialised operation on the stack.\<close>

definition spi_read_chunk ::
  "spi_operation \<Rightarrow> 's libhoth_device option \<Rightarrow> bool \<Rightarrow> u32 \<Rightarrow> nat \<Rightarrow> 's \<Rightarrow> (bytes, 's) hoth_result option" where
  "spi_read_chunk stk dev is_4_byte addr len s =
    (case Option.bind (spi_operation_begin_transaction (spi_operation_init stk)) (\<lambda>op.
          Option.bind (spi_operation_write_mosi [SPI_OP_READ] op) (\<lambda>op.
          Option.bind (spi_operation_write_mosi_address is_4_byte addr op)
            (spi_operation_read_miso_and_end_transaction True len))) of
       None \<Rightarrow> None
     | Some op \<Rightarrow>
         (case spi_operation_execute op dev s of
            (Inl e, s') \<Rightarrow> Some (Inl e, s')
          | (Inr ds, s') \<Rightarrow> Some (Inr (concat ds), s')))"

function libhoth_spi_proxy_read ::
  "spi_operation \<Rightarrow> 's libhoth_device option \<Rightarrow> bool \<Rightarrow> u32 \<Rightarrow> nat \<Rightarrow> 's \<Rightarrow> (bytes, 's) hoth_result option" where
  "libhoth_spi_proxy_read stk dev is_4_byte addr len s =
    (if 0 < len then
       (let read_len = min len READ_CHUNK_SIZE in
        case spi_read_chunk stk dev is_4_byte addr read_len s of
          None \<Rightarrow> None
        | Some (Inl e, s') \<Rightarrow> Some (Inl e, s')
        | Some (Inr d, s') \<Rightarrow>
          (case libhoth_spi_proxy_read stk dev is_4_byte (addr + word_of_nat read_len) (len - read_len) s' of
             None \<Rightarrow> None
           | Some (Inl e, s2) \<Rightarrow> Some (Inl e, s2)
           | Some (Inr ds, s2) \<Rightarrow> Some (Inr (d @ ds), s2)))
     else Some (Inr [], s))"
  by pat_completeness auto
termination
  by (relation "measure (\<lambda>(stk, dev, is_4_byte, addr, len, s). len)") (auto simp: spi_limits)

declare libhoth_spi_proxy_read.simps [simp del]

function libhoth_spi_proxy_verify ::
  "spi_operation \<Rightarrow> 's libhoth_device option \<Rightarrow> bool \<Rightarrow> u32 \<Rightarrow> bytes \<Rightarrow> 's \<Rightarrow> (unit, 's) hoth_result option" where
  "libhoth_spi_proxy_verify stk dev is_4_byte addr buf s =
    (if buf \<noteq> [] then
       (let read_len = min (length buf) READ_CHUNK_SIZE in
        case spi_read_chunk stk dev is_4_byte addr read_len s of
          None \<Rightarrow> None
        | Some (Inl e, s') \<Rightarrow> Some (Inl e, s')
        | Some (Inr d, s') \<Rightarrow>
            if take read_len buf = d
            then libhoth_spi_proxy_verify stk dev is_4_byte (addr + word_of_nat read_len)
                   (drop read_len buf) s'
            else Some (Inl (cmd_err LIBHOTH_ERR_FAIL), s'))
     else Some (Inr (), s))"
  by pat_completeness auto
termination
  by (relation "measure (\<lambda>(stk, dev, is_4_byte, addr, buf, s). length buf)") (auto simp: spi_limits)

declare libhoth_spi_proxy_verify.simps [simp del]

section \<open>Erasing and writing\<close>

definition spi_write_page :: "bool \<Rightarrow> u32 \<Rightarrow> bytes \<Rightarrow> spi_operation \<Rightarrow> spi_operation option" where
  "spi_write_page is_4_byte addr buf op =
    Option.bind (spi_operation_begin_transaction op) (\<lambda>op.
    Option.bind (spi_operation_write_mosi [SPI_OP_WRITE_ENABLE] op) (\<lambda>op.
    Option.bind (spi_operation_end_transaction op) (\<lambda>op.
    Option.bind (spi_operation_begin_transaction op) (\<lambda>op.
    Option.bind (spi_operation_write_mosi [SPI_OP_PAGE_PROGRAM] op) (\<lambda>op.
    Option.bind (spi_operation_write_mosi_address is_4_byte addr op) (\<lambda>op.
    Option.bind (spi_operation_write_mosi buf op)
      spi_operation_end_transaction))))))"

definition spi_erase_generic :: "bool \<Rightarrow> u32 \<Rightarrow> u8 \<Rightarrow> spi_operation \<Rightarrow> spi_operation option" where
  "spi_erase_generic is_4_byte addr opcode op =
    Option.bind (spi_operation_begin_transaction op) (\<lambda>op.
    Option.bind (spi_operation_write_mosi [SPI_OP_WRITE_ENABLE] op) (\<lambda>op.
    Option.bind (spi_operation_end_transaction op) (\<lambda>op.
    Option.bind (spi_operation_begin_transaction op) (\<lambda>op.
    Option.bind (spi_operation_write_mosi [opcode] op) (\<lambda>op.
    Option.bind (spi_operation_write_mosi_address is_4_byte addr op)
      spi_operation_end_transaction)))))"

text \<open>The proxy structure is the device and \<open>is_4_byte\<close>; only the status is left to return.\<close>

definition libhoth_spi_proxy_init ::
  "spi_operation \<Rightarrow> 's libhoth_device option \<Rightarrow> bool \<Rightarrow> 's \<Rightarrow> (bytes list, 's) hoth_result option" where
  "libhoth_spi_proxy_init stk dev enter_exit_4b s =
    map_option (\<lambda>op. spi_operation_execute op dev s)
      (Option.bind (spi_operation_begin_transaction (spi_operation_init stk)) (\<lambda>op.
       Option.bind (spi_operation_write_mosi
           [if enter_exit_4b then SPI_OP_ENTER_4B else SPI_OP_READ_STATUS] op)
         spi_operation_end_transaction))"

definition SPI_PAGE_SIZE :: u32 where "SPI_PAGE_SIZE = 256"
definition MAX_PAGES_PER_OP :: nat where "MAX_PAGES_PER_OP = 3"

definition spi_page_end :: "u32 \<Rightarrow> u64" where
  "spi_page_end addr = ucast (((addr + SPI_PAGE_SIZE) div SPI_PAGE_SIZE) * SPI_PAGE_SIZE)"

definition spi_write_len :: "u32 \<Rightarrow> nat \<Rightarrow> nat" where
  "spi_write_len addr len_remaining = min (unat (spi_page_end addr - ucast addr)) len_remaining"

text \<open>The erase that precedes the page at \<open>addr\<close>: its start, opcode and the new \<open>need_erase_addr\<close>.\<close>

definition spi_choose_erase :: "u32 \<Rightarrow> nat \<Rightarrow> u32 \<times> u8 \<times> u32" where
  "spi_choose_erase addr len_remaining =
    (let erase_start_64k = (addr div 65536) * 65536;
         erase_start_4k = (addr div 4096) * 4096;
         erase_end_64k = erase_start_64k + 65536;
         erase_end_4k = erase_start_4k + 4096
     in if (addr \<le> erase_start_64k \<or> erase_start_64k = erase_start_4k) \<and>
           (unat erase_end_64k \<le> unat addr + len_remaining \<or> erase_end_64k = erase_end_4k)
        then (erase_start_64k, SPI_OP_ERASE_64K, erase_end_64k)
        else (erase_start_4k, SPI_OP_ERASE_4K, erase_end_4k))"

definition spi_add_page ::
  "bool \<Rightarrow> u32 \<Rightarrow> u32 \<Rightarrow> bytes \<Rightarrow> spi_operation \<Rightarrow> (u32 \<times> spi_operation) option" where
  "spi_add_page is_4_byte addr need_erase_addr buf op =
    (let write_len = spi_write_len addr (length buf) in
     if ucast need_erase_addr < spi_page_end addr then
       (let (start, opcode, need') = spi_choose_erase addr (length buf) in
        Option.bind (spi_erase_generic is_4_byte start opcode op) (\<lambda>op.
        Option.bind (spi_write_page is_4_byte addr (take write_len buf) op) (\<lambda>op.
        Some (need', op))))
     else
       Option.bind (spi_write_page is_4_byte addr (take write_len buf) op) (\<lambda>op.
       Some (need_erase_addr, op)))"

lemma spi_page_end_neq: "spi_page_end addr \<noteq> ucast addr"
proof
  assume "spi_page_end addr = ucast addr"
  then have e: "((addr + 256) div 256) * 256 = addr"
    by (simp add: spi_page_end_def SPI_PAGE_SIZE_def)
  let ?q = "(addr + 256) div 256"
  have "unat ?q = unat (addr + 256) div 256" by (simp add: unat_div)
  then have "unat ?q * 256 \<le> unat (addr + 256)" by simp
  then have "unat (?q * 256) = unat (addr + 256) div 256 * 256"
    using unat_bound [of "addr + 256"] \<open>unat ?q = _\<close> by (simp add: unat_word_ariths)
  then have u: "unat addr = unat (addr + 256) div 256 * 256" using e by simp
  have "unat (addr + 256) = (unat addr + 256) mod 2 ^ 32" by (simp add: unat_word_ariths)
  moreover have "(unat addr + 256) mod 2 ^ 32 =
      (if unat addr + 256 < 2 ^ 32 then unat addr + 256 else unat addr + 256 - 2 ^ 32)"
    using unat_bound [of addr] by (auto simp: mod_if)
  ultimately show False using u unat_bound [of addr] by (auto split: if_splits)
qed

lemma spi_write_len_pos: "0 < n \<Longrightarrow> 0 < spi_write_len addr n"
  using spi_page_end_neq [of addr] by (auto simp: spi_write_len_def neq0_conv [symmetric] unat_eq_0
      simp del: neq0_conv)

lemma spi_write_len_drop: "buf \<noteq> [] \<Longrightarrow> length (drop (spi_write_len addr (length buf)) buf) < length buf"
  using spi_write_len_pos [of "length buf" addr] by (cases buf) auto

function spi_update_loop ::
  "'s libhoth_device option \<Rightarrow> bool \<Rightarrow> u32 \<Rightarrow> u32 \<Rightarrow> nat \<Rightarrow> bytes \<Rightarrow> spi_operation \<Rightarrow> 's
    \<Rightarrow> (unit, 's) hoth_result option" where
  "spi_update_loop dev is_4_byte addr need_erase_addr pages_in_op buf op s =
    (if buf \<noteq> [] then
       (case spi_add_page is_4_byte addr need_erase_addr buf op of
          None \<Rightarrow> None
        | Some (need', op') \<Rightarrow>
            let write_len = spi_write_len addr (length buf);
                rest = drop write_len buf;
                addr' = addr + word_of_nat write_len;
                pages = pages_in_op + 1
            in if MAX_PAGES_PER_OP \<le> pages \<or> rest = [] then
                 (case spi_operation_execute op' dev s of
                    (Inl e, s') \<Rightarrow> Some (Inl e, s')
                  | (Inr _, s') \<Rightarrow>
                      spi_update_loop dev is_4_byte addr' need' 0 rest (spi_operation_init op') s')
               else spi_update_loop dev is_4_byte addr' need' pages rest op' s)
     else Some (Inr (), s))"
  by pat_completeness auto
termination
  by (relation "measure (\<lambda>(dev, is_4_byte, addr, need, pages, buf, op, s). length buf)")
    (use spi_write_len_drop in \<open>auto simp del: length_drop\<close>)

declare spi_update_loop.simps [simp del]

definition libhoth_spi_proxy_update ::
  "spi_operation \<Rightarrow> 's libhoth_device option \<Rightarrow> bool \<Rightarrow> u32 \<Rightarrow> bytes \<Rightarrow> 's
    \<Rightarrow> (unit, 's) hoth_result option" where
  "libhoth_spi_proxy_update stk dev is_4_byte addr buf s =
    spi_update_loop dev is_4_byte addr addr 0 buf (spi_operation_init stk) s"

section \<open>What an operation holds\<close>

type_synonym spi_transaction = "bytes \<times> nat"

definition encode_transaction :: "spi_transaction \<Rightarrow> bytes" where
  "encode_transaction t =
    le_bytes 2 (word_of_nat (length (fst t)) :: u16)
    @ le_bytes 2 (word_of_nat (if 0 < snd t then length (fst t) + snd t else 0) :: u16) @ fst t"

definition encode_transactions :: "spi_transaction list \<Rightarrow> bytes" where
  "encode_transactions ts = concat (map encode_transaction ts)"

lemma length_encode_transaction [simp]: "length (encode_transaction t) = 4 + length (fst t)"
  by (simp add: encode_transaction_def)

lemma encode_transactions_simps [simp]:
  "encode_transactions [] = []"
  "encode_transactions (ts @ us) = encode_transactions ts @ encode_transactions us"
  "encode_transactions (t # ts) = encode_transaction t @ encode_transactions ts"
  by (simp_all add: encode_transactions_def)

definition transaction_shape :: "spi_operation_transaction \<Rightarrow> nat \<times> bool \<times> nat" where
  "transaction_shape t = (skip_miso_nbytes t, has_dest t, miso_dest_buf_len t)"

definition spi_shapes :: "spi_operation \<Rightarrow> spi_transaction list \<Rightarrow> bool" where
  "spi_shapes op ts \<longleftrightarrow> length (op_buf op) = MAX_SPI_OP_PAYLOAD_BYTES \<and>
    map transaction_shape (op_transactions op) = map (\<lambda>t. (length (fst t), 0 < snd t, snd t)) ts"

text \<open>\<open>op\<close> holds the complete transactions \<open>ts\<close>; or those and the MOSI bytes \<open>m\<close> of the next.\<close>

definition spi_built :: "spi_operation \<Rightarrow> spi_transaction list \<Rightarrow> bool" where
  "spi_built op ts \<longleftrightarrow> spi_shapes op ts \<and> op_pos op = length (encode_transactions ts) \<and>
    op_pos op \<le> MAX_SPI_OP_PAYLOAD_BYTES \<and> take (op_pos op) (op_buf op) = encode_transactions ts"

definition spi_building :: "spi_operation \<Rightarrow> spi_transaction list \<Rightarrow> bytes \<Rightarrow> bool" where
  "spi_building op ts m \<longleftrightarrow> spi_shapes op ts \<and> op_current op = length (encode_transactions ts) \<and>
    op_pos op = op_current op + sizeof_spi_header + length m \<and> op_pos op < MAX_SPI_OP_PAYLOAD_BYTES \<and>
    take (op_current op) (op_buf op) = encode_transactions ts \<and>
    byte_range (op_current op + sizeof_spi_header) (length m) (op_buf op) = m"

lemma spi_shapes_length: "spi_shapes op ts \<Longrightarrow> length (op_transactions op) = length ts"
  by (auto simp: spi_shapes_def dest: map_eq_imp_length_eq)

lemma spi_init_built: "length (op_buf op) = MAX_SPI_OP_PAYLOAD_BYTES \<Longrightarrow> spi_built (spi_operation_init op) []"
  by (simp add: spi_built_def spi_shapes_def spi_operation_init_def)

lemma spi_begin:
  assumes "spi_built op ts" "length ts < 12" "length (encode_transactions ts) + 4 < 1016"
  shows "\<exists>op'. spi_operation_begin_transaction op = Some op' \<and> spi_building op' ts []"
  using assms spi_shapes_length [of op ts]
  by (auto simp: spi_operation_begin_transaction_def spi_built_def spi_building_def spi_limits
      spi_shapes_def byte_range_def)

lemma spi_write:
  assumes "spi_building op ts m" "length (encode_transactions ts) + 4 + length m + length x < 1016"
  shows "\<exists>op'. spi_operation_write_mosi x op = Some op' \<and> spi_building op' ts (m @ x)"
proof -
  let ?k = "length (encode_transactions ts)"
  let ?buf = "memcpy_at (?k + 4 + length m) x (op_buf op)"
  have len: "length (op_buf op) = 1016" and m: "byte_range (?k + 4) (length m) (op_buf op) = m"
    and pos: "op_pos op = ?k + 4 + length m" and cur: "op_current op = ?k"
    and pre: "take ?k (op_buf op) = encode_transactions ts"
    using assms(1) by (auto simp: spi_building_def spi_shapes_def spi_limits)
  have "byte_range (?k + 4) (length m) ?buf = byte_range (?k + 4) (length m) (op_buf op)"
    using len assms(2) by (intro nth_equalityI) (simp_all add: byte_range_def nth_memcpy_at)
  moreover have "byte_range (?k + 4 + length m) (length x) ?buf = x"
    using len assms(2) by (simp add: byte_range_def memcpy_at_inside)
  ultimately have "byte_range (?k + 4) (length m + length x) ?buf = m @ x"
    using m byte_range_join [of "?k + 4 + length m" "?k + 4" "length m" "length m + length x" "length x" ?buf]
    by simp
  moreover have "take ?k ?buf = encode_transactions ts" using len assms(2) pre by simp
  ultimately show ?thesis
    using assms len pos cur
    by (simp add: spi_operation_write_mosi_def spi_building_def spi_shapes_def spi_limits)
qed

lemma spi_end:
  assumes "spi_building op ts m" "length ts < 12"
  shows "\<exists>op'. spi_operation_read_miso_and_end_transaction (0 < n) n op = Some op' \<and>
    spi_built op' (ts @ [(m, n)])"
proof -
  let ?k = "length (encode_transactions ts)"
  have len: "length (op_buf op) = 1016" and m: "byte_range (?k + 4) (length m) (op_buf op) = m"
    and pos: "op_pos op = ?k + 4 + length m" "?k + 4 + length m < 1016" and cur: "op_current op = ?k"
    and pre: "take ?k (op_buf op) = encode_transactions ts" and sh: "spi_shapes op ts"
    using assms(1) by (auto simp: spi_building_def spi_shapes_def spi_limits)
  define req where "req = le_bytes 2 (word_of_nat (length m) :: u16)
    @ le_bytes 2 (word_of_nat (if 0 < n then length m + n else 0) :: u16)"
  have lr: "length req = 4" by (simp add: req_def)
  let ?buf = "memcpy_at ?k req (op_buf op)"
  have "take (?k + 4 + length m) ?buf = take ?k (op_buf op) @ req @ take (length m) (drop (?k + 4) (op_buf op))"
    using lr len pos(2) by (simp add: memcpy_at_def)
  also have "\<dots> = encode_transactions (ts @ [(m, n)])"
    using m pre by (simp add: byte_range_def encode_transaction_def req_def)
  finally have t: "take (?k + 4 + length m) ?buf = encode_transactions (ts @ [(m, n)])" .
  have "spi_operation_read_miso_and_end_transaction (0 < n) n op = Some (op\<lparr>op_buf := ?buf,
      op_transactions := op_transactions op @ [\<lparr>header_offset = ?k, skip_miso_nbytes = length m,
        has_dest = (0 < n), miso_dest_buf_len = n\<rparr>]\<rparr>)"
    using assms(2) spi_shapes_length [OF sh] pos cur
    by (simp add: spi_operation_read_miso_and_end_transaction_def Let_def req_def MAX_TRANSACTIONS_def)
  then show ?thesis
    using sh t pos len lr
    by (simp add: spi_built_def spi_shapes_def spi_limits transaction_shape_def)
qed

lemmas spi_end_none = spi_end [where n = 0, simplified, folded spi_operation_end_transaction_def]

text \<open>A whole transaction that writes one or two or three runs of bytes.\<close>

lemma length_spi_address [simp]: "length (spi_address_bytes is_4_byte addr) = (if is_4_byte then 4 else 3)"
  by (simp add: spi_address_bytes_def Let_def)

definition wren_then :: "bytes \<Rightarrow> spi_transaction list" where
  "wren_then m = [([SPI_OP_WRITE_ENABLE], 0), (m, 0)]"

lemma spi_end_transaction_built:
  assumes "spi_building op ts m" "length ts < 12"
  shows "\<exists>op'. spi_operation_end_transaction op = Some op' \<and> spi_built op' (ts @ [(m, 0)])"
  using spi_end [OF assms, of 0] by (simp add: spi_operation_end_transaction_def)

lemma spi_write_enable:
  assumes "spi_built op ts" "length ts \<le> 10" "length (encode_transactions ts) + 9 + length m < 1016"
  shows "\<exists>op1 op2 op3 op4. spi_operation_begin_transaction op = Some op1 \<and>
    spi_operation_write_mosi [SPI_OP_WRITE_ENABLE] op1 = Some op2 \<and>
    spi_operation_end_transaction op2 = Some op3 \<and>
    spi_operation_begin_transaction op3 = Some op4 \<and>
    spi_building op4 (ts @ [([SPI_OP_WRITE_ENABLE], 0)]) []"
proof -
  obtain op1 where 1: "spi_operation_begin_transaction op = Some op1" "spi_building op1 ts []"
    using spi_begin [OF assms(1)] assms(2,3) by auto
  obtain op2 where 2: "spi_operation_write_mosi [SPI_OP_WRITE_ENABLE] op1 = Some op2"
    "spi_building op2 ts [SPI_OP_WRITE_ENABLE]"
    using spi_write [OF 1(2), of "[SPI_OP_WRITE_ENABLE]"] assms(3) by auto
  obtain op3 where 3: "spi_operation_end_transaction op2 = Some op3"
    "spi_built op3 (ts @ [([SPI_OP_WRITE_ENABLE], 0)])"
    using spi_end_transaction_built [OF 2(2)] assms(2) by auto
  obtain op4 where "spi_operation_begin_transaction op3 = Some op4"
    "spi_building op4 (ts @ [([SPI_OP_WRITE_ENABLE], 0)]) []"
    using spi_begin [OF 3(2)] assms(2,3) by auto
  with 1 2 3 show ?thesis by blast
qed

lemma spi_write_page_built:
  assumes "spi_built op ts" "length ts \<le> 10" "length (encode_transactions ts) + 14 + length buf < 1016"
  shows "\<exists>op'. spi_write_page is_4_byte addr buf op = Some op' \<and>
    spi_built op' (ts @ wren_then (SPI_OP_PAGE_PROGRAM # spi_address_bytes is_4_byte addr @ buf))"
proof -
  let ?ts = "ts @ [([SPI_OP_WRITE_ENABLE], 0)]"
  obtain op1 op2 op3 op4 where b: "spi_operation_begin_transaction op = Some op1"
    "spi_operation_write_mosi [SPI_OP_WRITE_ENABLE] op1 = Some op2"
    "spi_operation_end_transaction op2 = Some op3" "spi_operation_begin_transaction op3 = Some op4"
    "spi_building op4 ?ts []"
    using spi_write_enable [OF assms(1,2), of "[]"] assms(3) by auto
  obtain op5 where 5: "spi_operation_write_mosi [SPI_OP_PAGE_PROGRAM] op4 = Some op5"
    "spi_building op5 ?ts [SPI_OP_PAGE_PROGRAM]"
    using spi_write [OF b(5), of "[SPI_OP_PAGE_PROGRAM]"] assms(3) by auto
  obtain op6 where 6: "spi_operation_write_mosi_address is_4_byte addr op5 = Some op6"
    "spi_building op6 ?ts (SPI_OP_PAGE_PROGRAM # spi_address_bytes is_4_byte addr)"
    using spi_write [OF 5(2), of "spi_address_bytes is_4_byte addr"] assms(3)
    by (cases is_4_byte) (auto simp: spi_operation_write_mosi_address_def)
  obtain op7 where 7: "spi_operation_write_mosi buf op6 = Some op7"
    "spi_building op7 ?ts (SPI_OP_PAGE_PROGRAM # spi_address_bytes is_4_byte addr @ buf)"
    using spi_write [OF 6(2), of buf] assms(3) by (cases is_4_byte) auto
  show ?thesis
    using spi_end_transaction_built [OF 7(2)] assms(2) b 5 6 7
    by (simp add: spi_write_page_def wren_then_def)
qed

lemma spi_erase_built:
  assumes "spi_built op ts" "length ts \<le> 10" "length (encode_transactions ts) + 14 < 1016"
  shows "\<exists>op'. spi_erase_generic is_4_byte addr opcode op = Some op' \<and>
    spi_built op' (ts @ wren_then (opcode # spi_address_bytes is_4_byte addr))"
proof -
  let ?ts = "ts @ [([SPI_OP_WRITE_ENABLE], 0)]"
  obtain op1 op2 op3 op4 where b: "spi_operation_begin_transaction op = Some op1"
    "spi_operation_write_mosi [SPI_OP_WRITE_ENABLE] op1 = Some op2"
    "spi_operation_end_transaction op2 = Some op3" "spi_operation_begin_transaction op3 = Some op4"
    "spi_building op4 ?ts []"
    using spi_write_enable [OF assms(1,2), of "[]"] assms(3) by auto
  obtain op5 where 5: "spi_operation_write_mosi [opcode] op4 = Some op5" "spi_building op5 ?ts [opcode]"
    using spi_write [OF b(5), of "[opcode]"] assms(3) by auto
  obtain op6 where 6: "spi_operation_write_mosi_address is_4_byte addr op5 = Some op6"
    "spi_building op6 ?ts (opcode # spi_address_bytes is_4_byte addr)"
    using spi_write [OF 5(2), of "spi_address_bytes is_4_byte addr"] assms(3)
    by (cases is_4_byte) (auto simp: spi_operation_write_mosi_address_def)
  show ?thesis
    using spi_end_transaction_built [OF 6(2)] assms(2) b 5 6
    by (simp add: spi_erase_generic_def wren_then_def)
qed

section \<open>The update as a list of operations\<close>

text \<open>The transactions of one page and the address up to which the flash is then erased.\<close>

definition page_need :: "u32 \<Rightarrow> u32 \<Rightarrow> bytes \<Rightarrow> u32" where
  "page_need addr need buf =
    (if ucast need < spi_page_end addr then snd (snd (spi_choose_erase addr (length buf))) else need)"

definition page_transactions :: "bool \<Rightarrow> u32 \<Rightarrow> u32 \<Rightarrow> bytes \<Rightarrow> spi_transaction list" where
  "page_transactions is_4_byte addr need buf =
    (if ucast need < spi_page_end addr
     then wren_then (fst (snd (spi_choose_erase addr (length buf)))
            # spi_address_bytes is_4_byte (fst (spi_choose_erase addr (length buf))))
     else [])
    @ wren_then (SPI_OP_PAGE_PROGRAM # spi_address_bytes is_4_byte addr
        @ take (spi_write_len addr (length buf)) buf)"

text \<open>At most four transactions and 284 bytes for a page of at most 256 bytes.\<close>

lemma page_transactions_bounds:
  assumes "spi_write_len addr (length buf) \<le> 256"
  shows "length (page_transactions is_4_byte addr need buf) \<le> 4"
    and "length (encode_transactions (page_transactions is_4_byte addr need buf)) \<le> 284"
  using assms by (auto simp: page_transactions_def wren_then_def)

lemma spi_add_page_built:
  assumes "spi_built op ts" "length ts \<le> 8" "length (encode_transactions ts) \<le> 568"
    "spi_write_len addr (length buf) \<le> 256"
  shows "\<exists>op'. spi_add_page is_4_byte addr need buf op = Some (page_need addr need buf, op') \<and>
    spi_built op' (ts @ page_transactions is_4_byte addr need buf)"
proof -
  let ?wl = "spi_write_len addr (length buf)"
  have wl: "length (take ?wl buf) \<le> 256" using assms(4) by simp
  obtain start opcode need' where e: "spi_choose_erase addr (length buf) = (start, opcode, need')"
    by (metis surj_pair)
  show ?thesis
  proof (cases "ucast need < spi_page_end addr")
    case True
    obtain op1 where 1: "spi_erase_generic is_4_byte start opcode op = Some op1"
      "spi_built op1 (ts @ wren_then (opcode # spi_address_bytes is_4_byte start))"
      using spi_erase_built [OF assms(1), of is_4_byte start opcode] assms(2,3) by auto
    have "length (encode_transactions (ts @ wren_then (opcode # spi_address_bytes is_4_byte start)))
        + 14 + length (take ?wl buf) < 1016"
      using assms(3) wl by (simp add: wren_then_def)
    with spi_write_page_built [OF 1(2), of "take ?wl buf" is_4_byte addr] assms(2)
    obtain op2 where "spi_write_page is_4_byte addr (take ?wl buf) op1 = Some op2"
      "spi_built op2 ((ts @ wren_then (opcode # spi_address_bytes is_4_byte start)) @
        wren_then (SPI_OP_PAGE_PROGRAM # spi_address_bytes is_4_byte addr @ take ?wl buf))"
      by (auto simp: wren_then_def)
    then show ?thesis using True 1 e
      by (simp add: spi_add_page_def page_need_def page_transactions_def Let_def)
  next
    case False
    with spi_write_page_built [OF assms(1), of "take ?wl buf" is_4_byte addr] assms(2,3) wl
    obtain op2 where "spi_write_page is_4_byte addr (take ?wl buf) op = Some op2"
      "spi_built op2 (ts @ wren_then (SPI_OP_PAGE_PROGRAM # spi_address_bytes is_4_byte addr @ take ?wl buf))"
      by auto
    then show ?thesis using False
      by (simp add: spi_add_page_def page_need_def page_transactions_def Let_def)
  qed
qed

text \<open>One operation per three pages.\<close>

function spi_update_ops ::
  "bool \<Rightarrow> u32 \<Rightarrow> u32 \<Rightarrow> nat \<Rightarrow> bytes \<Rightarrow> spi_transaction list \<Rightarrow> spi_transaction list list" where
  "spi_update_ops is_4_byte addr need pages buf ts =
    (if buf = [] then []
     else
       let wl = spi_write_len addr (length buf);
           ts' = ts @ page_transactions is_4_byte addr need buf;
           addr' = addr + word_of_nat wl
       in if 3 \<le> pages + 1 \<or> drop wl buf = []
          then ts' # spi_update_ops is_4_byte addr' (page_need addr need buf) 0 (drop wl buf) []
          else spi_update_ops is_4_byte addr' (page_need addr need buf) (pages + 1) (drop wl buf) ts')"
  by pat_completeness auto
termination
  by (relation "measure (\<lambda>(is_4_byte, addr, need, pages, buf, ts). length buf)")
    (use spi_write_len_drop in \<open>auto simp del: length_drop\<close>)

declare spi_update_ops.simps [simp del]

definition spi_exec ::
  "'s libhoth_device option \<Rightarrow> spi_transaction list \<Rightarrow> 's \<Rightarrow> (bytes, 's) hoth_result" where
  "spi_exec dev ts = hostcmd dev (HOTH_CMD_BOARD_SPECIFIC_BASE + HOTH_PRV_CMD_HOTH_SPI_OPERATION) 0
     (encode_transactions ts) 1016 True"

lemma collect_miso_none:
  "map transaction_shape us = map (\<lambda>t. (length (fst t), 0 < snd t, snd t)) ts \<Longrightarrow> \<forall>t \<in> set ts. snd t = 0
    \<Longrightarrow> collect_miso response pos us = Some []"
  by (induction us arbitrary: pos ts) (auto simp: transaction_shape_def)

lemma spi_execute_built:
  assumes "spi_built op ts" "\<forall>t \<in> set ts. snd t = 0"
  shows "spi_operation_execute op dev s =
    (case spi_exec dev ts s of (Inl e, s') \<Rightarrow> (Inl e, s') | (Inr _, s') \<Rightarrow> (Inr [], s'))"
  using assms collect_miso_none [of "op_transactions op" ts]
  by (auto simp: spi_operation_execute_def spi_exec_def spi_built_def spi_shapes_def spi_limits
      split: prod.splits sum.splits)

text \<open>Addresses that stay a page below the end of the 32-bit space: no page end wraps.\<close>

lemma spi_write_len_bound:
  assumes "unat addr + n \<le> 2 ^ 32 - 256" "0 < n"
  shows "spi_write_len addr n = min ((unat addr + 256) div 256 * 256 - unat addr) n"
    and "spi_write_len addr n \<le> 256" and "spi_write_len addr n \<le> n"
    and "unat (spi_page_end addr) = (unat addr + 256) div 256 * 256"
    and "unat (addr + word_of_nat (spi_write_len addr n)) = unat addr + spi_write_len addr n"
proof -
  have a: "unat addr < 2 ^ 32 - 256" using assms by simp
  then have u: "unat (addr + 256) = unat addr + 256" by (simp add: unat_word_ariths)
  have "unat (((addr + 256) div 256) * 256) = (unat addr + 256) div 256 * 256"
    using a by (simp add: unat_word_ariths u unat_div)
  then show p: "unat (spi_page_end addr) = (unat addr + 256) div 256 * 256"
    by (simp add: spi_page_end_def SPI_PAGE_SIZE_def)
  have "unat addr \<le> unat (spi_page_end addr)" using p by simp
  then have "unat (spi_page_end addr - ucast addr) = unat (spi_page_end addr) - unat addr"
    by (subst unat_sub) (simp_all add: word_le_nat_alt)
  with p show w: "spi_write_len addr n = min ((unat addr + 256) div 256 * 256 - unat addr) n"
    by (simp add: spi_write_len_def)
  then show b: "spi_write_len addr n \<le> 256" and l: "spi_write_len addr n \<le> n" by auto
  show "unat (addr + word_of_nat (spi_write_len addr n)) = unat addr + spi_write_len addr n"
    using assms(1) l b by (simp add: unat_word_ariths unat_of_nat)
qed

lemma page_transactions_no_miso: "t \<in> set (page_transactions is_4_byte addr need buf) \<Longrightarrow> snd t = 0"
  by (auto simp: page_transactions_def wren_then_def split: if_splits)

lemma spi_update_loop_ops:
  assumes "spi_built op ts" "pages \<le> 2" "length ts \<le> 4 * pages"
    "length (encode_transactions ts) \<le> 284 * pages" "\<forall>t \<in> set ts. snd t = 0"
    "unat addr + length buf \<le> 2 ^ 32 - 256"
  shows "spi_update_loop dev is_4_byte addr need pages buf op s =
      Some (run_requests (spi_exec dev) (spi_update_ops is_4_byte addr need pages buf ts) s) \<and>
    (\<forall>us \<in> set (spi_update_ops is_4_byte addr need pages buf ts).
      length us \<le> 12 \<and> length (encode_transactions us) \<le> 852)"
  using assms
proof (induction "length buf" arbitrary: addr need pages buf ts op s rule: less_induct)
  case less
  show ?case
  proof (cases "buf = []")
    case True
    then show ?thesis by (simp add: spi_update_loop.simps spi_update_ops.simps)
  next
    case False
    let ?wl = "spi_write_len addr (length buf)"
    let ?us = "ts @ page_transactions is_4_byte addr need buf"
    let ?a = "addr + word_of_nat ?wl"
    let ?n = "page_need addr need buf"
    note wl = spi_write_len_bound [OF less.prems(6)]
    have wl2: "?wl \<le> 256" "?wl \<le> length buf" "unat ?a = unat addr + ?wl" using wl False by auto
    obtain op' where op': "spi_add_page is_4_byte addr need buf op = Some (?n, op')" "spi_built op' ?us"
      using spi_add_page_built [OF less.prems(1) _ _ wl2(1), of is_4_byte need] less.prems(2-4) by auto
    have us: "length ?us \<le> 4 * (pages + 1)" "length (encode_transactions ?us) \<le> 284 * (pages + 1)"
      "\<forall>t \<in> set ?us. snd t = 0"
      using less.prems(3-5) page_transactions_bounds [OF wl2(1), of is_4_byte need]
        page_transactions_no_miso [of _ is_4_byte addr need buf] by auto
    have lt: "length (drop ?wl buf) < length buf" using False by (rule spi_write_len_drop)
    have a: "unat ?a + length (drop ?wl buf) \<le> 2 ^ 32 - 256" using wl2 less.prems(6) by simp
    show ?thesis
    proof (cases "3 \<le> pages + 1 \<or> drop ?wl buf = []")
      case True
      have l: "length (op_buf op') = MAX_SPI_OP_PAYLOAD_BYTES"
        using op'(2) by (simp add: spi_built_def spi_shapes_def)
      have hyp: "spi_update_loop dev is_4_byte ?a ?n 0 (drop ?wl buf) (spi_operation_init op') t =
          Some (run_requests (spi_exec dev) (spi_update_ops is_4_byte ?a ?n 0 (drop ?wl buf) []) t) \<and>
        (\<forall>us \<in> set (spi_update_ops is_4_byte ?a ?n 0 (drop ?wl buf) []).
          length us \<le> 12 \<and> length (encode_transactions us) \<le> 852)" for t
        by (rule less.hyps [OF lt spi_init_built [OF l]]) (use a in simp_all)
      note IH = conjunct1 [OF hyp] and IH2 = conjunct2 [OF hyp]
      have ops: "spi_update_ops is_4_byte addr need pages buf ts =
          ?us # spi_update_ops is_4_byte ?a ?n 0 (drop ?wl buf) []"
        using False True by (subst spi_update_ops.simps) (simp add: Let_def)
      have step: "spi_update_loop dev is_4_byte addr need pages buf op s =
          (case spi_operation_execute op' dev s of
             (Inl e, s') \<Rightarrow> Some (Inl e, s')
           | (Inr _, s') \<Rightarrow> spi_update_loop dev is_4_byte ?a ?n 0 (drop ?wl buf) (spi_operation_init op') s')"
        using False True op'(1)
        by (subst spi_update_loop.simps) (simp add: Let_def MAX_PAGES_PER_OP_def)
      have "4 * (pages + 1) \<le> 12" "284 * (pages + 1) \<le> 852" using less.prems(2) by simp_all
      then have "length ?us \<le> 12 \<and> length (encode_transactions ?us) \<le> 852"
        using us(1,2) le_trans by blast
      moreover have "spi_update_loop dev is_4_byte addr need pages buf op s =
          Some (run_requests (spi_exec dev) (?us # spi_update_ops is_4_byte ?a ?n 0 (drop ?wl buf) []) s)"
        unfolding step spi_execute_built [OF op'(2) us(3)]
        by (simp add: IH split: prod.splits sum.splits)
      ultimately show ?thesis using IH2 unfolding ops by simp
    next
      case F2: False
      then have "pages + 1 \<le> 2" by simp
      from less.hyps [OF lt op'(2) this us(1,2,3) a]
      have IH: "spi_update_loop dev is_4_byte ?a ?n (pages + 1) (drop ?wl buf) op' s =
          Some (run_requests (spi_exec dev) (spi_update_ops is_4_byte ?a ?n (pages + 1) (drop ?wl buf) ?us) s)"
        "\<forall>us \<in> set (spi_update_ops is_4_byte ?a ?n (pages + 1) (drop ?wl buf) ?us).
          length us \<le> 12 \<and> length (encode_transactions us) \<le> 852" by simp_all
      have ops: "spi_update_ops is_4_byte addr need pages buf ts =
          spi_update_ops is_4_byte ?a ?n (pages + 1) (drop ?wl buf) ?us"
        using False F2 by (subst spi_update_ops.simps) (simp add: Let_def)
      have "spi_update_loop dev is_4_byte addr need pages buf op s =
          spi_update_loop dev is_4_byte ?a ?n (pages + 1) (drop ?wl buf) op' s"
        using False F2 op'(1)
        by (subst spi_update_loop.simps) (simp add: Let_def MAX_PAGES_PER_OP_def)
      with IH ops show ?thesis by simp
    qed
  qed
qed

text \<open>
  An update whose range ends a page below 4 GiB never trips an assertion: it sends a list of
  operations of at most 12 transactions and 852 bytes each, stopping at the first error.
\<close>

theorem spi_proxy_update_no_abort:
  assumes "length (op_buf stk) = 1016" and "unat addr + length buf \<le> 2 ^ 32 - 256"
  shows "libhoth_spi_proxy_update stk dev is_4_byte addr buf s =
      Some (run_requests (spi_exec dev) (spi_update_ops is_4_byte addr addr 0 buf []) s) \<and>
    (\<forall>ts \<in> set (spi_update_ops is_4_byte addr addr 0 buf []).
      length ts \<le> MAX_TRANSACTIONS \<and> length (encode_transactions ts) < MAX_SPI_OP_PAYLOAD_BYTES)"
proof -
  have "spi_built (spi_operation_init stk) []"
    using assms(1) by (intro spi_init_built) (simp add: spi_limits)
  from spi_update_loop_ops [OF this, of 0 addr buf dev is_4_byte addr s] assms(2)
  show ?thesis by (auto simp: libhoth_spi_proxy_update_def spi_limits)
qed

definition fresh_op :: spi_operation where
  "fresh_op = \<lparr>op_buf = replicate 1016 0, op_pos = 0, op_current = 0, op_transactions = []\<rparr>"

theorem spi_proxy_update_no_abort_witness:
  "libhoth_spi_proxy_update fresh_op (None :: unit libhoth_device option) True 0x1000 (replicate 600 7) () \<noteq> None"
  using spi_proxy_update_no_abort [where stk = fresh_op and addr = "0x1000" and buf = "replicate 600 7"
      and dev = "None :: unit libhoth_device option" and is_4_byte = True and s = "()"]
  by (simp add: fresh_op_def)

section \<open>The effect on the flash chip\<close>

text \<open>
  A SPI NOR flash as its commands are documented: erases set an aligned block to 0xFF and page
  programs clear bits; both need the write-enable latch and reset it. A program that crosses a
  page or an access outside the chip is \<open>None\<close>.
\<close>

definition nor_erase :: "nat \<Rightarrow> nat \<Rightarrow> bytes \<Rightarrow> (bool \<times> bytes) option" where
  "nor_erase sz a fl =
    (let start = a div sz * sz in
     if start + sz \<le> length fl then Some (False, memcpy_at start (replicate sz 0xFF) fl) else None)"

definition nor_step :: "bool \<Rightarrow> bytes \<Rightarrow> bool \<times> bytes \<Rightarrow> (bool \<times> bytes) option" where
  "nor_step is_4_byte mosi st =
    (let n = (if is_4_byte then 4 else 3); a = be_nat (take n (tl mosi)); d = drop n (tl mosi);
         fl = snd st in
     if mosi = [] then Some st
     else if hd mosi = SPI_OP_WRITE_ENABLE then Some (True, fl)
     else if \<not> fst st then Some st
     else if hd mosi = SPI_OP_ERASE_4K then nor_erase 4096 a fl
     else if hd mosi = SPI_OP_ERASE_64K then nor_erase 65536 a fl
     else if hd mosi = SPI_OP_PAGE_PROGRAM then
       (if a mod 256 + length d \<le> 256 \<and> a + length d \<le> length fl
        then Some (False, memcpy_at a (map2 (AND) (byte_range a (length d) fl) d) fl)
        else None)
     else Some st)"

fun nor_run :: "bool \<Rightarrow> spi_transaction list \<Rightarrow> bool \<times> bytes \<Rightarrow> (bool \<times> bytes) option" where
  "nor_run is_4_byte [] st = Some st"
| "nor_run is_4_byte (t # ts) st =
    (case nor_step is_4_byte (fst t) st of None \<Rightarrow> None | Some st' \<Rightarrow> nor_run is_4_byte ts st')"

lemma nor_run_append:
  "nor_run is_4_byte (ts @ us) st =
    (case nor_run is_4_byte ts st of None \<Rightarrow> None | Some st' \<Rightarrow> nor_run is_4_byte us st')"
  by (induction ts arbitrary: st) (auto split: option.splits)

lemma be_nat_address:
  "is_4_byte \<or> unat addr < 2 ^ 24 \<Longrightarrow> be_nat (spi_address_bytes is_4_byte addr) = unat addr"
  by (auto simp: spi_address_bytes_def Let_def be_nat_32 be_nat_24)

lemma map2_and_erased: "length xs = length d \<Longrightarrow> \<forall>x \<in> set xs. x = 0xFF \<Longrightarrow> map2 (AND) xs d = (d :: bytes)"
proof (induction xs d rule: list_induct2)
  case (Cons x xs y ys)
  have "(0xFF :: u8) AND y = y"
  proof -
    have "(0xFF :: u8) = - 1" by simp
    then show ?thesis by (simp only: and.left_neutral)
  qed
  then show ?case using Cons by simp
qed simp

lemma nor_program:
  assumes "is_4_byte \<or> unat addr < 2 ^ 24" "unat addr mod 256 + length d \<le> 256"
    "unat addr + length d \<le> length fl" "\<And>i. unat addr \<le> i \<Longrightarrow> i < unat addr + length d \<Longrightarrow> fl ! i = 0xFF"
  shows "nor_run is_4_byte (wren_then (SPI_OP_PAGE_PROGRAM # spi_address_bytes is_4_byte addr @ d)) (w, fl) =
    Some (False, memcpy_at (unat addr) d fl)"
proof -
  have "\<forall>x \<in> set (byte_range (unat addr) (length d) fl). x = 0xFF"
    using assms(3,4) by (auto simp: in_set_conv_nth byte_range_def)
  then have "map2 (AND) (byte_range (unat addr) (length d) fl) d = d"
    using assms(3) by (intro map2_and_erased) simp_all
  then show ?thesis
    using assms(2,3) be_nat_address [OF assms(1)]
    by (simp add: wren_then_def nor_step_def Let_def spi_opcodes)
qed

lemma nor_erase_run:
  assumes "is_4_byte \<or> unat addr < 2 ^ 24" "opcode = SPI_OP_ERASE_4K \<and> sz = 4096 \<or> opcode = SPI_OP_ERASE_64K \<and> sz = 65536"
    "sz dvd unat addr" "unat addr + sz \<le> length fl"
  shows "nor_run is_4_byte (wren_then (opcode # spi_address_bytes is_4_byte addr)) (w, fl) =
    Some (False, memcpy_at (unat addr) (replicate sz 0xFF) fl)"
  using assms(2-4) be_nat_address [OF assms(1)]
  by (auto simp: wren_then_def nor_step_def nor_erase_def Let_def spi_opcodes)

text \<open>The erase that is chosen starts at the sector of the address and stays below the range's last sector.\<close>

lemma spi_choose_erase_nat:
  assumes "unat addr + n \<le> 2 ^ 32 - 65536" "0 < n"
  shows "\<exists>start opcode end sz. spi_choose_erase addr n = (start, opcode, end) \<and>
    (opcode = SPI_OP_ERASE_4K \<and> sz = 4096 \<or> opcode = SPI_OP_ERASE_64K \<and> sz = 65536) \<and>
    sz dvd unat start \<and> unat start = unat addr div 4096 * 4096 \<and> unat end = unat start + sz \<and>
    unat end \<le> (unat addr + n + 4095) div 4096 * 4096"
proof -
  let ?a = "unat addr"
  let ?s64 = "?a div 65536 * 65536" and ?s4 = "?a div 4096 * 4096"
  have a: "?a < 2 ^ 32 - 65536" using assms by simp
  have le: "?s64 \<le> ?a" "?s4 \<le> ?a" by simp_all
  have u: "unat (addr div 65536 * 65536) = ?s64" "unat (addr div 4096 * 4096) = ?s4"
    using a le by (simp_all add: unat_word_ariths unat_div)
  have u2: "unat (addr div 65536 * 65536 + 65536) = ?s64 + 65536"
    "unat (addr div 4096 * 4096 + 4096) = ?s4 + 4096"
    using a le u by (simp_all add: unat_word_ariths)
  have s: "?s64 \<le> ?s4"
    by (intro le_round_down) simp_all
  have hi: "?s4 + 4096 \<le> (?a + n + 4095) div 4096 * 4096"
  proof -
    have "(?s4 + 4096) \<le> (?a + n + 4095) div 4096 * 4096"
      using assms(2) by (intro le_round_down) simp_all
    then show ?thesis .
  qed
  show ?thesis
  proof (cases "?s64 = ?s4 \<and> ?s64 + 65536 \<le> ?a + n")
    case True
    then have "?s64 + 65536 \<le> (?a + n + 4095) div 4096 * 4096"
      using round_up_le [of 4096 "?a + n"] by simp
    moreover have "addr div 65536 * 65536 = addr div 4096 * 4096"
      using True unfolding word_unat_eq_iff u by simp
    then have "spi_choose_erase addr n =
        (addr div 65536 * 65536, SPI_OP_ERASE_64K, addr div 65536 * 65536 + 65536)"
      using True unfolding spi_choose_erase_def Let_def u2 by simp
    moreover have "65536 dvd unat (addr div 65536 * 65536)" unfolding u by simp
    ultimately show ?thesis using u(1) u2(1) True by auto
  next
    case False
    have "\<not> ((addr \<le> addr div 65536 * 65536 \<or> addr div 65536 * 65536 = addr div 4096 * 4096) \<and>
        (unat (addr div 65536 * 65536 + 65536) \<le> ?a + n \<or>
         addr div 65536 * 65536 + 65536 = addr div 4096 * 4096 + 4096))"
      using False s le unfolding word_le_nat_alt word_unat_eq_iff u u2 by linarith
    then have "spi_choose_erase addr n =
        (addr div 4096 * 4096, SPI_OP_ERASE_4K, addr div 4096 * 4096 + 4096)"
      by (simp only: spi_choose_erase_def Let_def if_False)
    then show ?thesis using u u2 hi by auto
  qed
qed

function update_transactions :: "bool \<Rightarrow> u32 \<Rightarrow> u32 \<Rightarrow> bytes \<Rightarrow> spi_transaction list" where
  "update_transactions is_4_byte addr need buf =
    (if buf = [] then []
     else page_transactions is_4_byte addr need buf
       @ update_transactions is_4_byte (addr + word_of_nat (spi_write_len addr (length buf)))
           (page_need addr need buf) (drop (spi_write_len addr (length buf)) buf))"
  by pat_completeness auto
termination
  by (relation "measure (\<lambda>(is_4_byte, addr, need, buf). length buf)")
    (use spi_write_len_drop in \<open>auto simp del: length_drop\<close>)

declare update_transactions.simps [simp del]

lemma concat_spi_update_ops:
  "concat (spi_update_ops is_4_byte addr need pages buf ts) =
    (if buf = [] then [] else ts @ update_transactions is_4_byte addr need buf)"
proof (induction "length buf" arbitrary: addr need pages buf ts rule: less_induct)
  case less
  show ?case
  proof (cases "buf = []")
    case True
    then show ?thesis by (simp add: spi_update_ops.simps)
  next
    case False
    have lt: "length (drop (spi_write_len addr (length buf)) buf) < length buf"
      using False by (rule spi_write_len_drop)
    show ?thesis
      using False less.hyps [OF lt]
      by (subst spi_update_ops.simps, subst update_transactions.simps)
        (auto simp: Let_def update_transactions.simps [of _ _ _ "[]"] simp del: length_drop drop_eq_Nil)
  qed
qed

text \<open>The state of the loop: what is erased ahead of the address.\<close>

definition erased_ahead :: "nat \<Rightarrow> nat \<Rightarrow> bool \<Rightarrow> bytes \<Rightarrow> bool" where
  "erased_ahead a need last_page fl \<longleftrightarrow>
    need = a \<and> (last_page \<longrightarrow> 4096 dvd a) \<or>
    a < need \<and> 4096 dvd need \<and> (\<not> last_page \<longrightarrow> 256 dvd a) \<and> (\<forall>i. a \<le> i \<and> i < need \<longrightarrow> fl ! i = 0xFF)"

text \<open>What one page does: the sector or block is erased if necessary, and the page written.\<close>

lemma page_effect:
  assumes "unat addr + length buf \<le> 2 ^ 32 - 65536" "buf \<noteq> []"
    and "is_4_byte \<or> unat addr + length buf \<le> 2 ^ 24"
    and "(unat addr + length buf + 4095) div 4096 * 4096 \<le> length fl"
    and "unat need \<le> (unat addr + length buf + 4095) div 4096 * 4096"
    and "erased_ahead (unat addr) (unat need) False fl"
    and wl: "wl = spi_write_len addr (length buf)"
    and lo: "lo = (if need = addr then unat addr div 4096 * 4096 else unat addr)"
  shows "\<exists>fl'. nor_run is_4_byte (page_transactions is_4_byte addr need buf) (w, fl) = Some (False, fl') \<and>
    length fl' = length fl \<and>
    unat (page_need addr need buf) \<le> (unat addr + length buf + 4095) div 4096 * 4096 \<and>
    4096 dvd unat (page_need addr need buf) \<and>
    erased_ahead (unat addr + wl) (unat (page_need addr need buf)) (drop wl buf = []) fl' \<and>
    (\<forall>i < length fl. i < unat addr + wl \<or> unat (page_need addr need buf) \<le> i \<longrightarrow>
      fl' ! i = (if i < lo then fl ! i else if i < unat addr then 0xFF
                 else if i < unat addr + wl then buf ! (i - unat addr) else fl ! i))"
proof -
  let ?a = "unat addr" and ?hi = "(unat addr + length buf + 4095) div 4096 * 4096"
  have n: "0 < length buf" and b256: "?a + length buf \<le> 2 ^ 32 - 256"
    using assms(2) by simp (use assms(1) in simp)
  note W = spi_write_len_bound [OF b256 n, folded wl]
  let ?pe = "(?a + 256) div 256 * 256"
  have pe: "?a < ?pe" "?pe \<le> ?a + 256" using round_down_plus [of 256 ?a] by simp_all
  have wlb: "0 < wl" "?a + wl \<le> ?pe" "wl \<le> length buf" "wl = min (?pe - ?a) (length buf)"
    using W(1,3) n pe by auto
  have inside: "?a + length buf \<le> length fl"
    using round_up_le [of 4096 "?a + length buf"] assms(4) by simp
  have page: "?a mod 256 + wl \<le> 256"
  proof -
    have "?pe = ?a div 256 * 256 + 256" by (rule round_down_step) simp
    then show ?thesis using wlb(2) div_mult_mod_eq [of ?a 256] by linarith
  qed
  have dl: "length (take wl buf) = wl" using wlb(3) by simp
  have adr: "is_4_byte \<or> ?a < 2 ^ 24" using assms(3) n by linarith
  have rest: "drop wl buf = [] \<or> ?a + wl = ?pe" using wlb(3,4) by auto
  show ?thesis
  proof (cases "need = addr")
    case True
    have er: "ucast need < spi_page_end addr" using True W(4) pe by (simp add: word_less_nat_alt)
    obtain start opcode end' sz where c: "spi_choose_erase addr (length buf) = (start, opcode, end')"
      "opcode = SPI_OP_ERASE_4K \<and> sz = 4096 \<or> opcode = SPI_OP_ERASE_64K \<and> sz = 65536"
      "sz dvd unat start" "unat start = ?a div 4096 * 4096" "unat end' = unat start + sz" "unat end' \<le> ?hi"
      using spi_choose_erase_nat [OF assms(1) n] by blast
    have sz: "4096 \<le> sz" "4096 dvd sz" using c(2) by auto
    have st: "unat start \<le> ?a" "?a < unat start + 4096"
      using c(4) round_down_plus [of 4096 ?a] by simp_all
    have pend: "?pe \<le> unat start + 4096"
    proof -
      have "?a div 256 * 256 < unat start + 4096" using st(2) le_less_trans by (metis div_times_less_eq_dividend)
      moreover have "256 dvd unat start + 4096" using c(4) by simp
      ultimately have "?a div 256 * 256 + 256 \<le> unat start + 4096" by (auto elim!: dvdE)
      then show ?thesis using round_down_step [of 256 ?a] by simp
    qed
    let ?fl0 = "memcpy_at (unat start) (replicate sz 0xFF) fl"
    let ?fl1 = "memcpy_at ?a (take wl buf) ?fl0"
    have l0: "length ?fl0 = length fl" using c(5,6) assms(4) by simp
    have l1: "length ?fl1 = length fl" using l0 inside wlb(3) dl by simp
    have e: "nor_run is_4_byte (wren_then (opcode # spi_address_bytes is_4_byte start)) (w, fl) = Some (False, ?fl0)"
      using c assms(4) adr st by (intro nor_erase_run) auto
    have ff: "?fl0 ! i = 0xFF" if "unat start \<le> i" "i < unat end'" for i
      using that c(5,6) assms(4) by (subst nth_memcpy_at) simp_all
    have p: "nor_run is_4_byte (wren_then (SPI_OP_PAGE_PROGRAM # spi_address_bytes is_4_byte addr @ take wl buf))
        (False, ?fl0) = Some (False, ?fl1)"
    proof (rule nor_program [OF adr])
      show "?a mod 256 + length (take wl buf) \<le> 256" using page by (simp only: dl)
      show "?a + length (take wl buf) \<le> length ?fl0" using inside wlb(3) by (simp only: dl l0)
      show "?fl0 ! i = 0xFF" if "?a \<le> i" "i < ?a + length (take wl buf)" for i
      proof (rule ff)
        show "unat start \<le> i" using st(1) that(1) by (rule le_trans)
        show "i < unat end'" using that(2) wlb(2) pend sz(1) unfolding dl c(5) by linarith
      qed
    qed
    have run: "nor_run is_4_byte (page_transactions is_4_byte addr need buf) (w, fl) = Some (False, ?fl1)"
      using er c(1) e p by (simp add: page_transactions_def nor_run_append wl)
    have pn: "page_need addr need buf = end'" using er c(1) by (simp add: page_need_def)
    have nth: "?fl1 ! i = (if ?a \<le> i \<and> i < ?a + wl then buf ! (i - ?a)
        else if unat start \<le> i \<and> i < unat end' then 0xFF else fl ! i)" if "i < length fl" for i
      using that l0 inside wlb(3) dl c(5,6) assms(4) by (auto simp: nth_memcpy_at)
    have d: "4096 dvd unat end'" using c(4,5) sz(2) by simp
    have ahead: "erased_ahead (?a + wl) (unat end') (drop wl buf = []) ?fl1"
    proof -
      have le: "?a + wl \<le> unat end'" using wlb(2) pend sz(1) c(5) by linarith
      have "256 dvd ?a + wl" if "drop wl buf \<noteq> []" using rest that by auto
      then show ?thesis using le d nth c(6) assms(4) st(1)
        by (cases "?a + wl = unat end'") (auto simp: erased_ahead_def)
    qed
    show ?thesis
      using run l1 pn c(6) d ahead nth True lo c(4,5) st sz(1)
      by (intro exI [of _ ?fl1]) auto
  next
    case False
    then have need: "?a < unat need" "4096 dvd unat need" "256 dvd ?a"
      "\<And>i. ?a \<le> i \<Longrightarrow> i < unat need \<Longrightarrow> fl ! i = 0xFF"
      using assms(6) by (auto simp: erased_ahead_def word_unat_eq_iff)
    have "256 dvd unat need" using need(2) by (rule dvd_trans [rotated]) simp
    then have pn: "?pe \<le> unat need" using need(1,3) by (auto elim!: dvdE)
    then have er: "\<not> ucast need < spi_page_end addr" using W(4) by (simp add: word_less_nat_alt)
    let ?fl1 = "memcpy_at ?a (take wl buf) fl"
    have l1: "length ?fl1 = length fl" using inside wlb(3) dl by simp
    have p: "nor_run is_4_byte (wren_then (SPI_OP_PAGE_PROGRAM # spi_address_bytes is_4_byte addr @ take wl buf))
        (w, fl) = Some (False, ?fl1)"
    proof (rule nor_program [OF adr])
      show "?a mod 256 + length (take wl buf) \<le> 256" using page by (simp only: dl)
      show "?a + length (take wl buf) \<le> length fl" using inside wlb(3) by (simp only: dl)
      show "fl ! i = 0xFF" if "?a \<le> i" "i < ?a + length (take wl buf)" for i
        using that need(4) wlb(2) pn unfolding dl by simp
    qed
    have run: "nor_run is_4_byte (page_transactions is_4_byte addr need buf) (w, fl) = Some (False, ?fl1)"
      using er p by (simp add: page_transactions_def wl)
    have nth: "?fl1 ! i = (if ?a \<le> i \<and> i < ?a + wl then buf ! (i - ?a) else fl ! i)" if "i < length fl" for i
      using that inside wlb(3) dl by (auto simp: nth_memcpy_at)
    have ahead: "erased_ahead (?a + wl) (unat need) (drop wl buf = []) ?fl1"
    proof -
      have le: "?a + wl \<le> unat need" using wlb(2) pn by linarith
      have "256 dvd ?a + wl" if "drop wl buf \<noteq> []" using rest that by auto
      then show ?thesis using le need nth assms(4,5)
        by (cases "?a + wl = unat need") (auto simp: erased_ahead_def)
    qed
    show ?thesis
      using run l1 er assms(5) need(2) ahead nth False lo
      by (intro exI [of _ ?fl1]) (auto simp: page_need_def)
  qed
qed

lemma update_transactions_effect:
  assumes "unat addr + length buf \<le> 2 ^ 32 - 65536"
    and "is_4_byte \<or> unat addr + length buf \<le> 2 ^ 24"
    and "hi = (unat addr + length buf + 4095) div 4096 * 4096" and "hi \<le> length fl"
    and "unat need \<le> hi" and "erased_ahead (unat addr) (unat need) (buf = []) fl"
    and "lo = (if need = addr then unat addr div 4096 * 4096 else unat addr)"
  shows "\<exists>fl' w'. nor_run is_4_byte (update_transactions is_4_byte addr need buf) (w, fl) = Some (w', fl') \<and>
    length fl' = length fl \<and>
    (\<forall>i < length fl. fl' ! i =
      (if i < lo then fl ! i else if i < unat addr then 0xFF
       else if i < unat addr + length buf then buf ! (i - unat addr)
       else if i < hi then 0xFF else fl ! i))"
  using assms
proof (induction "length buf" arbitrary: addr need buf w fl lo rule: less_induct)
  case less
  show ?case
  proof (cases "buf = []")
    case True
    have "unat addr \<le> unat need" "4096 dvd unat need" "\<forall>i. unat addr \<le> i \<and> i < unat need \<longrightarrow> fl ! i = 0xFF"
      using less.prems(6) True by (auto simp: erased_ahead_def)
    moreover from this have "hi \<le> unat need"
      using round_up_least [of 4096 "unat need" "unat addr"] less.prems(3) True by simp
    moreover have "lo = unat addr"
      using less.prems(6,7) True by (auto simp: erased_ahead_def word_unat_eq_iff split: if_splits)
    ultimately show ?thesis using True less.prems(5)
      by (simp add: update_transactions.simps)
  next
    case False
    define wl where "wl = spi_write_len addr (length buf)"
    let ?a = "unat addr" and ?n = "page_need addr need buf" and ?rest = "drop wl buf"
    let ?addr = "addr + word_of_nat wl"
    have ahead: "erased_ahead ?a (unat need) False fl"
      using less.prems(6) False by simp
    obtain fl1 where fl1: "nor_run is_4_byte (page_transactions is_4_byte addr need buf) (w, fl) = Some (False, fl1)"
      "length fl1 = length fl" "unat ?n \<le> hi" "4096 dvd unat ?n" "erased_ahead (?a + wl) (unat ?n) (?rest = []) fl1"
      "\<forall>i < length fl. i < ?a + wl \<or> unat ?n \<le> i \<longrightarrow>
        fl1 ! i = (if i < lo then fl ! i else if i < ?a then 0xFF
                   else if i < ?a + wl then buf ! (i - ?a) else fl ! i)"
      using page_effect [OF less.prems(1) False less.prems(2) _ _ ahead wl_def less.prems(7)] less.prems(3-5)
      by blast
    have "?a + length buf \<le> 2 ^ 32 - 256" "0 < length buf"
      using less.prems(1) by simp (use False in simp)
    note W = spi_write_len_bound [OF this, folded wl_def]
    have wl: "wl \<le> length buf" and u: "unat ?addr = ?a + wl" using W(3,5) by auto
    have lt: "length ?rest < length buf" using False wl_def spi_write_len_drop by simp
    have sum: "unat ?addr + length ?rest = ?a + length buf" using u wl by simp
    have n: "?a + wl \<le> unat ?n" using fl1(5) by (auto simp: erased_ahead_def)
    have lo': "(if ?n = ?addr then unat ?addr div 4096 * 4096 else unat ?addr) = ?a + wl"
      using fl1(4) u by auto
    have "\<exists>fl2 w2. nor_run is_4_byte (update_transactions is_4_byte ?addr ?n ?rest) (False, fl1) = Some (w2, fl2) \<and>
      length fl2 = length fl1 \<and>
      (\<forall>i < length fl1. fl2 ! i =
        (if i < ?a + wl then fl1 ! i else if i < unat ?addr then 0xFF
         else if i < unat ?addr + length ?rest then ?rest ! (i - unat ?addr)
         else if i < hi then 0xFF else fl1 ! i))"
    proof (rule less.hyps [OF lt])
      show "unat ?addr + length ?rest \<le> 2 ^ 32 - 65536" "is_4_byte \<or> unat ?addr + length ?rest \<le> 2 ^ 24"
        "hi = (unat ?addr + length ?rest + 4095) div 4096 * 4096"
        using less.prems(1-3) unfolding sum .
      show "hi \<le> length fl1" using less.prems(4) fl1(2) by simp
      show "unat ?n \<le> hi" by (rule fl1(3))
      show "erased_ahead (unat ?addr) (unat ?n) (?rest = []) fl1" using fl1(5) unfolding u .
      show "?a + wl = (if ?n = ?addr then unat ?addr div 4096 * 4096 else unat ?addr)"
        by (rule lo' [symmetric])
    qed
    then obtain fl2 w2 where
      fl2: "nor_run is_4_byte (update_transactions is_4_byte ?addr ?n ?rest) (False, fl1) = Some (w2, fl2)"
      "length fl2 = length fl1"
      and nth: "\<And>i. i < length fl1 \<Longrightarrow> fl2 ! i =
        (if i < ?a + wl then fl1 ! i else if i < unat ?addr then 0xFF
         else if i < unat ?addr + length ?rest then ?rest ! (i - unat ?addr)
         else if i < hi then 0xFF else fl1 ! i)" by blast
    have "update_transactions is_4_byte addr need buf =
        page_transactions is_4_byte addr need buf @ update_transactions is_4_byte ?addr ?n ?rest"
      using False by (subst update_transactions.simps) (simp add: wl_def)
    then have run: "nor_run is_4_byte (update_transactions is_4_byte addr need buf) (w, fl) = Some (w2, fl2)"
      using fl1(1) fl2(1) by (simp add: nor_run_append)
    have lo: "lo \<le> ?a" using less.prems(7) by simp
    have "fl2 ! i =
      (if i < lo then fl ! i else if i < ?a then 0xFF
       else if i < ?a + length buf then buf ! (i - ?a)
       else if i < hi then 0xFF else fl ! i)" if i: "i < length fl" for i
    proof (cases "i < ?a + wl")
      case True
      then have "fl2 ! i = fl1 ! i" using nth i fl1(2) by simp
      then show ?thesis using True fl1(6) i wl by simp
    next
      case F: False
      show ?thesis
      proof (cases "i < ?a + length buf \<or> i < hi")
        case True
        then show ?thesis using nth [of i] i fl1(2) F u sum lo wl
          by (auto simp: nth_drop less_diff_conv2 add.commute)
      next
        case far: False
        then have "fl2 ! i = fl1 ! i" using nth [of i] i fl1(2) F u sum by auto
        then show ?thesis using far F fl1(3,6) i lo by auto
      qed
    qed
    with run fl1(2) fl2(2) show ?thesis by auto
  qed
qed

lemma spi_ops_effect:
  assumes "unat addr + length buf \<le> 2 ^ 32 - 65536" and "is_4_byte \<or> unat addr + length buf \<le> 2 ^ 24"
    and "buf \<noteq> []" and "hi = (unat addr + length buf + 4095) div 4096 * 4096" and "hi \<le> length fl"
    and "lo = unat addr div 4096 * 4096"
  shows "\<exists>w' fl'. nor_run is_4_byte (concat (spi_update_ops is_4_byte addr addr 0 buf [])) (False, fl) = Some (w', fl') \<and>
    fl' = take lo fl @ replicate (unat addr - lo) 0xFF @ buf
          @ replicate (hi - (unat addr + length buf)) 0xFF @ drop hi fl"
proof -
  have hi: "unat addr + length buf \<le> hi" using round_up_le [of 4096 "unat addr + length buf"] assms(4) by simp
  have lo: "lo \<le> unat addr" using assms(6) by simp
  have "erased_ahead (unat addr) (unat addr) (buf = []) fl" using assms(3) by (simp add: erased_ahead_def)
  then obtain fl' w' where
    r: "nor_run is_4_byte (update_transactions is_4_byte addr addr buf) (False, fl) = Some (w', fl')"
    "length fl' = length fl"
    and nth: "\<And>i. i < length fl \<Longrightarrow> fl' ! i =
      (if i < lo then fl ! i else if i < unat addr then 0xFF
       else if i < unat addr + length buf then buf ! (i - unat addr)
       else if i < hi then 0xFF else fl ! i)"
    using update_transactions_effect [OF assms(1,2,4,5), of addr lo False] assms(6) hi by auto
  have "fl' = take lo fl @ replicate (unat addr - lo) 0xFF @ buf
      @ replicate (hi - (unat addr + length buf)) 0xFF @ drop hi fl"
    using r(2) hi lo assms(5) by (intro nth_equalityI) (auto simp: nth nth_append)
  with r(1) show ?thesis using assms(3) by (simp add: concat_spi_update_ops)
qed

end
