(* ===== verification/Rot_Peripherals.thy ===== *)
theory Rot_Peripherals
  imports Rot_Commands
begin

text \<open>
  The commands about devices behind the root of trust: \<open>i2c.c\<close>, \<open>jtag.c\<close>, \<open>chipinfo.c\<close>,
  \<open>mauv.c\<close> and \<open>payload_status.c\<close>. Pointers are options as in \<open>Rot_Commands\<close>; requests that the
  caller builds in memory are the bytes of that memory.
\<close>

section \<open>I2C\<close>

definition HOTH_PRV_CMD_HOTH_I2C_DETECT :: u16 where "HOTH_PRV_CMD_HOTH_I2C_DETECT = 0x0045"
definition HOTH_PRV_CMD_HOTH_I2C_TRANSFER :: u16 where "HOTH_PRV_CMD_HOTH_I2C_TRANSFER = 0x0046"
definition I2C_DETECT_DATA_MAX_SIZE_BYTES :: nat where "I2C_DETECT_DATA_MAX_SIZE_BYTES = 16"
definition I2C_TRANSFER_DATA_MAX_SIZE_BYTES :: nat where "I2C_TRANSFER_DATA_MAX_SIZE_BYTES = 256"

text \<open>The structures are packed and padded to a multiple of four bytes; \<open>pad\<close> is what the padding holds.\<close>

record hoth_request_i2c_detect =
  det_bus_number :: u8
  det_start_address :: u8
  det_end_address :: u8

record hoth_response_i2c_detect =
  bus_response :: u8
  devices_count :: u8
  devices_mask :: bytes

record hoth_request_i2c_transfer =
  xfer_bus_number :: u8
  speed_khz :: u16
  dev_address :: u8
  xfer_flags :: u32
  size_write :: u16
  size_read :: u16
  arg_bytes :: bytes

record hoth_response_i2c_transfer =
  xfer_bus_response :: u8
  read_bytes :: u16
  resp_bytes :: bytes

definition i2c_detect_request_bytes :: "u8 \<Rightarrow> hoth_request_i2c_detect \<Rightarrow> bytes" where
  "i2c_detect_request_bytes pad r = [det_bus_number r, det_start_address r, det_end_address r, pad]"

definition i2c_transfer_request_bytes :: "hoth_request_i2c_transfer \<Rightarrow> bytes" where
  "i2c_transfer_request_bytes r =
    [xfer_bus_number r] @ le_bytes 2 (speed_khz r) @ [dev_address r] @ le_bytes 4 (xfer_flags r)
    @ le_bytes 2 (size_write r) @ le_bytes 2 (size_read r) @ arg_bytes r"

definition libhoth_i2c_detect ::
  "u8 \<Rightarrow> 's libhoth_device option \<Rightarrow> hoth_request_i2c_detect option \<Rightarrow> hoth_response_i2c_detect option
    \<Rightarrow> 's \<Rightarrow> (hoth_response_i2c_detect, 's) hoth_result" where
  "libhoth_i2c_detect pad dev req resp s =
    (case req of None \<Rightarrow> (Inl (cmd_err LIBHOTH_ERR_INVALID_PARAMETER), s)
     | Some rq \<Rightarrow>
       if resp = None then (Inl (cmd_err LIBHOTH_ERR_INVALID_PARAMETER), s)
       else
         (case hostcmd dev (HOTH_CMD_BOARD_SPECIFIC_BASE + HOTH_PRV_CMD_HOTH_I2C_DETECT) 0
                (i2c_detect_request_bytes pad rq) 20 True s of
            (Inl e, s') \<Rightarrow> (Inl e, s')
          | (Inr r, s') \<Rightarrow>
              if length r \<noteq> 20 then (Inl (cmd_err LIBHOTH_ERR_FAIL), s')
              else (Inr \<lparr>bus_response = r ! 0, devices_count = r ! 1,
                         devices_mask = byte_range 2 I2C_DETECT_DATA_MAX_SIZE_BYTES r\<rparr>, s')))"

text \<open>
  The two nested loops that write into \<open>device_list\<close>: \<open>(i, b)\<close> runs over byte and bit numbers in
  their order. A write outside the caller's list has no effect on the model.
\<close>

fun i2c_scan :: "bytes \<Rightarrow> nat \<Rightarrow> (nat \<times> nat) list \<Rightarrow> nat \<Rightarrow> bytes \<Rightarrow> bytes" where
  "i2c_scan dmask count [] found device_list = device_list"
| "i2c_scan dmask count ((i, b) # rest) found device_list =
    (if dmask ! i AND push_bit b 1 \<noteq> 0 then
       (let device_list = device_list[found := word_of_nat (i * 8 + b)]; found = found + 1 in
        if count = found then device_list else i2c_scan dmask count rest found device_list)
     else i2c_scan dmask count rest found device_list)"

definition i2c_positions :: "(nat \<times> nat) list" where
  "i2c_positions = concat (map (\<lambda>i. map (\<lambda>b. (i, b)) [0..<8]) [0..<I2C_DETECT_DATA_MAX_SIZE_BYTES])"

definition libhoth_i2c_device_list :: "bytes \<Rightarrow> nat \<Rightarrow> bytes \<Rightarrow> bytes" where
  "libhoth_i2c_device_list dmask count device_list =
    (if count = 0 then device_list else i2c_scan dmask count i2c_positions 0 device_list)"

definition libhoth_i2c_transfer ::
  "'s libhoth_device option \<Rightarrow> hoth_request_i2c_transfer option \<Rightarrow> hoth_response_i2c_transfer option
    \<Rightarrow> 's \<Rightarrow> (hoth_response_i2c_transfer, 's) hoth_result" where
  "libhoth_i2c_transfer dev req resp s =
    (case req of None \<Rightarrow> (Inl (cmd_err LIBHOTH_ERR_INVALID_PARAMETER), s)
     | Some rq \<Rightarrow>
       if resp = None then (Inl (cmd_err LIBHOTH_ERR_INVALID_PARAMETER), s)
       else
         (case hostcmd dev (HOTH_CMD_BOARD_SPECIFIC_BASE + HOTH_PRV_CMD_HOTH_I2C_TRANSFER) 0
                (i2c_transfer_request_bytes rq) 260 True s of
            (Inl e, s') \<Rightarrow> (Inl e, s')
          | (Inr r, s') \<Rightarrow>
              if length r \<noteq> 260 then (Inl (cmd_err LIBHOTH_ERR_FAIL), s')
              else (Inr \<lparr>xfer_bus_response = r ! 0, read_bytes = u16_at 1 r,
                         resp_bytes = byte_range 3 I2C_TRANSFER_DATA_MAX_SIZE_BYTES r\<rparr>, s')))"

section \<open>JTAG\<close>

definition HOTH_PRV_CMD_HOTH_JTAG_OPERATION :: u16 where "HOTH_PRV_CMD_HOTH_JTAG_OPERATION = 0x0048"
definition HOTH_JTAG_TEST_BYPASS_PATTERN_LEN :: nat where "HOTH_JTAG_TEST_BYPASS_PATTERN_LEN = 64"

datatype hoth_jtag_operation =
    HOTH_JTAG_OP_UNDEFINED
  | HOTH_JTAG_OP_READ_IDCODE
  | HOTH_JTAG_OP_TEST_BYPASS
  | HOTH_JTAG_OP_PROGRAM_AND_VERIFY_PLD
  | HOTH_JTAG_OP_VERIFY_PLD

fun jtag_op_val :: "hoth_jtag_operation \<Rightarrow> u8" where
  "jtag_op_val HOTH_JTAG_OP_UNDEFINED = 0"
| "jtag_op_val HOTH_JTAG_OP_READ_IDCODE = 1"
| "jtag_op_val HOTH_JTAG_OP_TEST_BYPASS = 2"
| "jtag_op_val HOTH_JTAG_OP_PROGRAM_AND_VERIFY_PLD = 3"
| "jtag_op_val HOTH_JTAG_OP_VERIFY_PLD = 4"

definition hoth_request_jtag_operation :: "u16 \<Rightarrow> hoth_jtag_operation \<Rightarrow> u8 \<Rightarrow> bytes" where
  "hoth_request_jtag_operation clk_idiv operation interface_id =
    le_bytes 2 clk_idiv @ [jtag_op_val operation, interface_id]"

definition libhoth_jtag_read_idcode ::
  "'s libhoth_device option \<Rightarrow> u8 \<Rightarrow> u16 \<Rightarrow> u32 option \<Rightarrow> 's \<Rightarrow> (u32, 's) hoth_result" where
  "libhoth_jtag_read_idcode dev interface_id clk_idiv idcode s =
    (if dev = None \<or> idcode = None then (Inl (cmd_err LIBHOTH_ERR_INVALID_PARAMETER), s)
     else
       (case hostcmd dev (HOTH_CMD_BOARD_SPECIFIC_BASE + HOTH_PRV_CMD_HOTH_JTAG_OPERATION) 0
              (hoth_request_jtag_operation clk_idiv HOTH_JTAG_OP_READ_IDCODE interface_id) 4 True s of
          (Inl e, s') \<Rightarrow> (Inl e, s')
        | (Inr r, s') \<Rightarrow>
            if length r \<noteq> 4 then (Inl (cmd_err LIBHOTH_ERR_FAIL), s') else (Inr (u32_at 0 r), s')))"

text \<open>The patterns are arrays of 64 bytes; the result is what \<open>tdo_bytes\<close> receives.\<close>

definition libhoth_jtag_test_bypass ::
  "'s libhoth_device option \<Rightarrow> u8 \<Rightarrow> u16 \<Rightarrow> bytes option \<Rightarrow> bytes option \<Rightarrow> 's \<Rightarrow> (bytes, 's) hoth_result" where
  "libhoth_jtag_test_bypass dev interface_id clk_idiv tdi_bytes tdo_bytes s =
    (case tdi_bytes of None \<Rightarrow> (Inl (cmd_err LIBHOTH_ERR_INVALID_PARAMETER), s)
     | Some tdi \<Rightarrow>
       if dev = None \<or> tdo_bytes = None then (Inl (cmd_err LIBHOTH_ERR_INVALID_PARAMETER), s)
       else
         (case hostcmd dev (HOTH_CMD_BOARD_SPECIFIC_BASE + HOTH_PRV_CMD_HOTH_JTAG_OPERATION) 0
                (hoth_request_jtag_operation clk_idiv HOTH_JTAG_OP_TEST_BYPASS interface_id
                 @ take HOTH_JTAG_TEST_BYPASS_PATTERN_LEN tdi) HOTH_JTAG_TEST_BYPASS_PATTERN_LEN True s of
            (Inl e, s') \<Rightarrow> (Inl e, s')
          | (Inr r, s') \<Rightarrow>
              if length r \<noteq> HOTH_JTAG_TEST_BYPASS_PATTERN_LEN then (Inl (cmd_err LIBHOTH_ERR_FAIL), s')
              else (Inr r, s')))"

definition jtag_pld_operation ::
  "'s libhoth_device option \<Rightarrow> hoth_jtag_operation \<Rightarrow> u8 \<Rightarrow> u32 \<Rightarrow> 's \<Rightarrow> (unit, 's) hoth_result" where
  "jtag_pld_operation dev operation interface_id offset s =
    (if dev = None then (Inl (cmd_err LIBHOTH_ERR_INVALID_PARAMETER), s)
     else
       (case hostcmd dev (HOTH_CMD_BOARD_SPECIFIC_BASE + HOTH_PRV_CMD_HOTH_JTAG_OPERATION) 0
              (hoth_request_jtag_operation 0 operation interface_id @ le_bytes 4 offset) 0 True s of
          (Inl e, s') \<Rightarrow> (Inl e, s')
        | (Inr r, s') \<Rightarrow>
            if length r \<noteq> 0 then (Inl (cmd_err LIBHOTH_ERR_FAIL), s') else (Inr (), s')))"

definition libhoth_jtag_program_and_verify_pld ::
  "'s libhoth_device option \<Rightarrow> u8 \<Rightarrow> u32 \<Rightarrow> 's \<Rightarrow> (unit, 's) hoth_result" where
  "libhoth_jtag_program_and_verify_pld dev interface_id offset s =
    jtag_pld_operation dev HOTH_JTAG_OP_PROGRAM_AND_VERIFY_PLD interface_id offset s"

definition libhoth_jtag_verify_pld ::
  "'s libhoth_device option \<Rightarrow> u8 \<Rightarrow> u32 \<Rightarrow> 's \<Rightarrow> (unit, 's) hoth_result" where
  "libhoth_jtag_verify_pld dev interface_id offset s =
    jtag_pld_operation dev HOTH_JTAG_OP_VERIFY_PLD interface_id offset s"

section \<open>Chip information\<close>

definition HOTH_PRV_CMD_HOTH_CHIP_INFO :: u16 where "HOTH_PRV_CMD_HOTH_CHIP_INFO = 0x0010"
definition OPENTITAN_DEVICE_ID_LEN :: nat where "OPENTITAN_DEVICE_ID_LEN = 32"

record hoth_device_id =
  hardware_identity :: u64
  hardware_category :: u16
  devid_reserved0 :: u16
  info_variant :: u32

datatype chip_info_data = Hoth_Device_Id hoth_device_id | Open_Titan_Device_Id bytes

text \<open>The response structure: the version and the member of the union that was written.\<close>

record hoth_response_chip_info =
  chip_version :: u32
  chip_data :: chip_info_data

definition libhoth_chipinfo ::
  "'s libhoth_device option \<Rightarrow> hoth_response_chip_info option \<Rightarrow> 's
    \<Rightarrow> (hoth_response_chip_info, 's) hoth_result" where
  "libhoth_chipinfo dev chipinfo s =
    (if chipinfo = None then (Inl (cmd_err LIBHOTH_ERR_INVALID_PARAMETER), s)
     else
       (case hostcmd dev (HOTH_CMD_BOARD_SPECIFIC_BASE + HOTH_PRV_CMD_HOTH_CHIP_INFO) 0 []
              OPENTITAN_DEVICE_ID_LEN True s of
          (Inl e, s') \<Rightarrow> (Inl e, s')
        | (Inr r, s') \<Rightarrow>
            if length r = 16
            then (Inr \<lparr>chip_version = 0, chip_data = Hoth_Device_Id
                    \<lparr>hardware_identity = u64_at 0 r, hardware_category = u16_at 8 r,
                     devid_reserved0 = u16_at 10 r, info_variant = u32_at 12 r\<rparr>\<rparr>, s')
            else if length r = OPENTITAN_DEVICE_ID_LEN
            then (Inr \<lparr>chip_version = 1, chip_data = Open_Titan_Device_Id r\<rparr>, s')
            else (Inl (cmd_err LIBHOTH_ERR_FAIL), s')))"

record opentitan_device_id =
  creator_id :: u16
  product_id :: u16
  device_year :: u16
  device_week :: u8
  lot_number :: u16
  wafer_number :: u8
  wafer_x :: u16
  wafer_y :: u16
  reserved_din :: u8
  otid_reserved :: u32
  package_id :: u8
  ast_config_version :: u8
  otp_id :: bytes
  otp_version :: u8
  sku_id_string :: bytes
  sku_specific_version :: u8

text \<open>The expressions are computed as \<open>int\<close> and truncated to the field.\<close>

definition hi_nibble :: "u8 \<Rightarrow> nat" where "hi_nibble b = unat b div 16"
definition lo_nibble :: "u8 \<Rightarrow> nat" where "lo_nibble b = unat b mod 16"

definition parse_opentitan_device_id :: "bytes option \<Rightarrow> opentitan_device_id option \<Rightarrow> opentitan_device_id option" where
  "parse_opentitan_device_id src dst =
    (case src of None \<Rightarrow> None
     | Some b \<Rightarrow>
       if dst = None then None
       else Some
         \<lparr>creator_id = ucast (b ! 31) OR push_bit 8 (ucast (b ! 30)),
          product_id = ucast (b ! 29) OR push_bit 8 (ucast (b ! 28)),
          device_year = word_of_nat (2020 + lo_nibble (b ! 27)),
          device_week = word_of_nat (lo_nibble (b ! 26) * 10 + hi_nibble (b ! 27)),
          lot_number = word_of_nat (hi_nibble (b ! 25) * 100 + lo_nibble (b ! 25) * 10 + hi_nibble (b ! 26)),
          wafer_number = word_of_nat (hi_nibble (b ! 24) * 10 + lo_nibble (b ! 24)),
          wafer_x = word_of_nat (lo_nibble (b ! 22) * 100 + hi_nibble (b ! 23) * 10 + lo_nibble (b ! 23)),
          wafer_y = word_of_nat (hi_nibble (b ! 21) * 100 + lo_nibble (b ! 21) * 10 + hi_nibble (b ! 22)),
          reserved_din = b ! 20,
          otid_reserved = push_bit 24 (ucast (b ! 16)) OR push_bit 16 (ucast (b ! 17))
            OR push_bit 8 (ucast (b ! 18)) OR ucast (b ! 19),
          package_id = b ! 15, ast_config_version = b ! 14,
          otp_id = [b ! 12, b ! 13, 0], otp_version = b ! 11,
          sku_id_string = [b ! 4, b ! 5, b ! 6, b ! 7, 0], sku_specific_version = b ! 0\<rparr>)"

section \<open>Minimum acceptable update version\<close>

definition EC_PRV_CMD_HAVEN_MAUV :: u16 where "EC_PRV_CMD_HAVEN_MAUV = 0x000B"
definition EC_PRV_CMD_UPDATE_MAUV :: u16 where "EC_PRV_CMD_UPDATE_MAUV = 0x0057"
definition MAUV_MAX_RECORD_SIZE :: nat where "MAUV_MAX_RECORD_SIZE = 1016"

text \<open>\<open>struct hoth_response_mauv\<close> is a union of 156 bytes; \<open>mauv\<close> is the caller's.\<close>

definition libhoth_fetch_mauv ::
  "'s libhoth_device option \<Rightarrow> u8 \<Rightarrow> u8 \<Rightarrow> bytes \<Rightarrow> 's \<Rightarrow> (bytes, 's) hoth_result" where
  "libhoth_fetch_mauv dev state category mauv s =
    (case hostcmd dev (HOTH_CMD_BOARD_SPECIFIC_BASE + EC_PRV_CMD_HAVEN_MAUV) 0
            ([category, state] @ le_bytes 2 (0 :: u16)) 156 True s of
       (Inl e, s') \<Rightarrow> (Inl e, s')
     | (Inr r, s') \<Rightarrow>
         if length r = 4 then (Inr (memcpy_at 0 r mauv), s')
         else if length r \<noteq> 156 then (Inl (cmd_err LIBHOTH_ERR_FAIL), s')
         else (Inr (memcpy_at 0 r mauv), s'))"

definition libhoth_update_mauv ::
  "'s libhoth_device option \<Rightarrow> bytes \<Rightarrow> 's \<Rightarrow> (bytes, 's) hoth_result" where
  "libhoth_update_mauv dev rec s =
    (if MAUV_MAX_RECORD_SIZE < length rec then (Inl (cmd_err LIBHOTH_ERR_INVALID_PARAMETER), s)
     else hostcmd dev (HOTH_CMD_BOARD_SPECIFIC_BASE + EC_PRV_CMD_UPDATE_MAUV) 0 rec 0 True s)"

section \<open>Payload status\<close>

definition HOTH_PRV_CMD_HOTH_PAYLOAD_STATUS :: u16 where "HOTH_PRV_CMD_HOTH_PAYLOAD_STATUS = 0x0006"

record payload_region_state =
  validation_state :: u8
  failure_reason :: u8
  region_reserved_0 :: u8
  region_image_type :: u8
  key_index :: u16
  region_reserved_1 :: u16
  region_image_family :: u32
  version_major :: u32
  version_minor :: u32
  version_point :: u32
  version_subpoint :: u32
  descriptor_offset :: u32

definition region_state_at :: "nat \<Rightarrow> bytes \<Rightarrow> payload_region_state" where
  "region_state_at k b =
    \<lparr>validation_state = b ! k, failure_reason = b ! (k + 1), region_reserved_0 = b ! (k + 2),
     region_image_type = b ! (k + 3), key_index = u16_at (k + 4) b, region_reserved_1 = u16_at (k + 6) b,
     region_image_family = u32_at (k + 8) b, version_major = u32_at (k + 12) b,
     version_minor = u32_at (k + 16) b, version_point = u32_at (k + 20) b,
     version_subpoint = u32_at (k + 24) b, descriptor_offset = u32_at (k + 28) b\<rparr>"

text \<open>
  The structure holds a header of four bytes, of which the last is the region count, and two
  regions of 32 bytes. The result is its memory, over what it held before.
\<close>

definition libhoth_payload_status ::
  "'s libhoth_device option \<Rightarrow> bytes option \<Rightarrow> 's \<Rightarrow> (bytes, 's) hoth_result" where
  "libhoth_payload_status dev status s =
    (case status of None \<Rightarrow> (Inl (cmd_err LIBHOTH_ERR_INVALID_PARAMETER), s)
     | Some old \<Rightarrow>
       (case hostcmd dev (HOTH_CMD_BOARD_SPECIFIC_BASE + HOTH_PRV_CMD_HOTH_PAYLOAD_STATUS) 0 [] 68 True s of
          (Inl e, s') \<Rightarrow> (Inl e, s')
        | (Inr r, s') \<Rightarrow>
            let new = memcpy_at 0 r old; expected_rlen = 4 + unat (new ! 3) * 32 in
            if length r \<noteq> expected_rlen then (Inl (cmd_err LIBHOTH_ERR_FAIL), s') else (Inr new, s')))"

definition libhoth_sps_eeprom_lockdown_status_string :: "u8 \<Rightarrow> string" where
  "libhoth_sps_eeprom_lockdown_status_string st =
    (if st = 0 then ''Failsafe'' else if st = 1 then ''Ready'' else if st = 2 then ''Immutable''
     else if st = 3 then ''Enabled'' else ''(unknown sps_eeprom_lockdown_status)'')"

definition libhoth_payload_validation_state_string :: "u8 \<Rightarrow> string" where
  "libhoth_payload_validation_state_string st =
    (if st = 0 then ''Invalid'' else if st = 1 then ''Unverified'' else if st = 2 then ''Valid''
     else if st = 3 then ''Descriptor Valid'' else ''(unknown payload_validation_state)'')"

definition libhoth_payload_validation_failure_reason_string :: "u8 \<Rightarrow> string" where
  "libhoth_payload_validation_failure_reason_string r =
    (case map_of [(0, ''Success''), (1, ''Runtime Failure''), (2, ''Unsupported Descriptor''),
        (3, ''Invalid Descriptor''), (4, ''Invalid Image Family''), (5, ''Image Type Disallowed''),
        (6, ''Denylisted Version''), (7, ''Untrusted Key''), (8, ''Invalid Signature''),
        (9, ''Invalid Hash'')] r of
       None \<Rightarrow> ''(unknown payload_validation_failure_reason)'' | Some t \<Rightarrow> t)"

definition libhoth_image_type_string :: "u8 \<Rightarrow> string" where
  "libhoth_image_type_string type =
    (case map_of [(0, ''Dev''), (1, ''Prod''), (2, ''Breakout''), (3, ''Test''),
        (4, ''UnsignedIntegrity''), (255, ''Unspecified'')] type of
       None \<Rightarrow> ''(unknown image_type)'' | Some t \<Rightarrow> t)"

section \<open>The I2C device list\<close>

definition i2c_detected :: "bytes \<Rightarrow> nat \<times> nat \<Rightarrow> bool" where
  "i2c_detected dmask p \<longleftrightarrow> dmask ! fst p AND push_bit (snd p) 1 \<noteq> 0"

lemma i2c_scan_filter:
  assumes "found < count" "count \<le> length out"
  shows "i2c_scan dmask count ps found out =
    (let as = take (count - found) (map (\<lambda>p. word_of_nat (fst p * 8 + snd p)) (filter (i2c_detected dmask) ps))
     in take found out @ as @ drop (found + length as) out)"
  using assms
proof (induction ps arbitrary: found out)
  case Nil
  then show ?case by simp
next
  case (Cons p ps)
  obtain i b where p: "p = (i, b)" by (cases p)
  show ?case
  proof (cases "i2c_detected dmask p")
    case False
    then show ?thesis using Cons p by (simp add: i2c_detected_def)
  next
    case True
    let ?x = "word_of_nat (i * 8 + b) :: u8"
    have upd: "take (Suc found) (out[found := ?x]) = take found out @ [?x]"
      "drop (Suc found + n) (out[found := ?x]) = drop (Suc found + n) out" for n
      using Cons.prems by (simp_all add: take_Suc_conv_app_nth)
    obtain m where m: "count - found = Suc m" using Cons.prems(1) by (cases "count - found") auto
    then have m': "count - Suc found = m" by simp
    show ?thesis
    proof (cases "count = found + 1")
      case True
      then have "i2c_scan dmask count (p # ps) found out = out[found := ?x]"
        using \<open>i2c_detected dmask p\<close> p by (simp add: i2c_detected_def Let_def)
      moreover have "out[found := ?x] = take found out @ [?x] @ drop (Suc found) out"
        using Cons.prems by (simp add: upd_conv_take_nth_drop)
      ultimately show ?thesis using \<open>i2c_detected dmask p\<close> p m True by simp
    next
      case False
      then have "i2c_scan dmask count (p # ps) found out = i2c_scan dmask count ps (found + 1) (out[found := ?x])"
        using \<open>i2c_detected dmask p\<close> p by (simp add: i2c_detected_def Let_def)
      then show ?thesis
        using Cons.IH [of "found + 1" "out[found := ?x]"] Cons.prems False \<open>i2c_detected dmask p\<close> p m m' upd
        by (simp add: Let_def)
    qed
  qed
qed

text \<open>
  The device list receives the addresses of the set bits in ascending order, at most
  \<open>count\<close> of them, and the rest of the buffer is left alone.
\<close>

theorem i2c_device_list_addresses:
  assumes "count \<le> length out"
  shows "libhoth_i2c_device_list dmask count out =
    (let as = take count (map word_of_nat (filter (\<lambda>a. dmask ! (a div 8) AND push_bit (a mod 8) 1 \<noteq> 0) [0..<128]))
     in as @ drop (length as) out)"
proof -
  have pos: "i2c_positions = map (\<lambda>a. (a div 8, a mod 8)) [0..<128]"
    by (simp add: i2c_positions_def I2C_DETECT_DATA_MAX_SIZE_BYTES_def upt_rec)
  have f: "filter (i2c_detected dmask) i2c_positions =
      map (\<lambda>a. (a div 8, a mod 8)) (filter (\<lambda>a. dmask ! (a div 8) AND push_bit (a mod 8) 1 \<noteq> 0) [0..<128])"
    unfolding pos by (simp add: filter_map i2c_detected_def comp_def)
  show ?thesis
  proof (cases "count = 0")
    case True
    then show ?thesis by (simp add: libhoth_i2c_device_list_def)
  next
    case False
    have m: "map (\<lambda>p. word_of_nat (fst p * 8 + snd p)) (map (\<lambda>a. (a div 8, a mod 8)) xs) = map word_of_nat xs"
      for xs :: "nat list"
      by (simp only: map_map comp_def fst_conv snd_conv div_mult_mod_eq)
    have "i2c_scan dmask count i2c_positions 0 out =
        (let as = take count (map word_of_nat
           (filter (\<lambda>a. dmask ! (a div 8) AND push_bit (a mod 8) 1 \<noteq> 0) [0..<128]))
         in as @ drop (length as) out)"
      using i2c_scan_filter [of 0 count out dmask i2c_positions] False assms unfolding f m by simp
    then show ?thesis using False by (simp only: libhoth_i2c_device_list_def if_False)
  qed
qed

theorem i2c_device_list_addresses_witness:
  "libhoth_i2c_device_list ([0, 0x81] @ replicate 14 0) 2 [7, 7, 7] = [8, 15, 7]"
proof -
  have "[0..<128] = [0..<8] @ [8, 9, 10, 11, 12, 13, 14, 15] @ [16..<128]" by (simp add: upt_rec)
  then have "filter (\<lambda>a. ([0, 0x81 :: u8] @ replicate 14 0) ! (a div 8) AND push_bit (a mod 8) 1 \<noteq> 0) [0..<128] =
      [8, 15]"
    by (simp add: filter_empty_conv nth_append nth_Cons')
  then show ?thesis
    using i2c_device_list_addresses [of 2 "[7, 7, 7]" "[0, 0x81] @ replicate 14 0"] by (simp add: Let_def)
qed

section \<open>The payload status is consistent\<close>

text \<open>
  A payload status is accepted only if the response holds exactly the regions its header
  announces, which are at most the two the structure has room for.
\<close>

theorem payload_status_regions:
  assumes "libhoth_payload_status dev (Some old) s = (Inr new, s')" and "length old = 68"
  shows "unat (new ! 3) \<le> 2 \<and> length new = 68 \<and>
    (\<exists>r. length r = 4 + 32 * unat (new ! 3) \<and> take (length r) new = r \<and> drop (length r) new = drop (length r) old)"
proof -
  obtain r where h: "hostcmd dev (HOTH_CMD_BOARD_SPECIFIC_BASE + HOTH_PRV_CMD_HOTH_PAYLOAD_STATUS) 0 [] 68 True s = (Inr r, s')"
    and new: "new = memcpy_at 0 r old" and l: "length r = 4 + unat (new ! 3) * 32"
    using assms(1) by (auto simp: libhoth_payload_status_def Let_def split: prod.splits sum.splits if_splits)
  have "length r \<le> 68" using h by (rule hc.exec_bounded)
  with l new assms(2) show ?thesis
    by (intro conjI exI [of _ r]) (auto simp: memcpy_at_def)
qed

theorem payload_status_regions_witness:
  "unat ((memcpy_at 0 [0, 0, 0, 0] (replicate 68 9) :: bytes) ! 3) \<le> 2"
proof -
  have "libhoth_payload_status (Some (rot_device (\<lambda>c v p w. ((0, [0, 0, 0, 0]), w)))) (Some (replicate 68 9)) ((), []) =
    (Inr (memcpy_at 0 [0, 0, 0, 0] (replicate 68 9)), ((), request_frame (HOTH_CMD_BOARD_SPECIFIC_BASE + HOTH_PRV_CMD_HOTH_PAYLOAD_STATUS) 0 []))"
    by (simp add: libhoth_payload_status_def hostcmd_rot rpc_def memcpy_at_def Let_def)
  from payload_status_regions [OF this] show ?thesis by simp
qed

end
