(* ===== verification/Key_Rotation.thy ===== *)
theory Key_Rotation
  imports Rot_Commands
begin

text \<open>
  \<open>protocol/key_rotation.c\<close>: writing, reading and inspecting the key rotation record. Fields of a
  request that the code leaves uninitialised are parameters (\<open>junk\<close>, \<open>stk\<close>). The read functions
  write into the caller's 2048-byte buffer: the outer option is \<open>None\<close> for a write or a read
  outside it.
\<close>

section \<open>Layout\<close>

definition HOTH_PRV_CMD_HAVEN_KEY_ROTATION_OP :: u16 where "HOTH_PRV_CMD_HAVEN_KEY_ROTATION_OP = 0x004d"
definition KEY_ROTATION_HASH_DIGEST_SIZE :: nat where "KEY_ROTATION_HASH_DIGEST_SIZE = 32"
definition KEY_ROTATION_FLASH_AREA_SIZE :: nat where "KEY_ROTATION_FLASH_AREA_SIZE = 2048"
definition KEY_ROTATION_MAX_RECORD_SIZE :: nat where
  "KEY_ROTATION_MAX_RECORD_SIZE = KEY_ROTATION_FLASH_AREA_SIZE - KEY_ROTATION_HASH_DIGEST_SIZE"

abbreviation KEY_ROTATION_CMD :: u16 where
  "KEY_ROTATION_CMD \<equiv> HOTH_CMD_BOARD_SPECIFIC_BASE + HOTH_PRV_CMD_HAVEN_KEY_ROTATION_OP"

definition KEY_ROTATION_RECORD_WRITE_MAX_SIZE :: nat where
  "KEY_ROTATION_RECORD_WRITE_MAX_SIZE = LIBHOTH_MAILBOX_SIZE - sizeof_request - 8"
definition KEY_ROTATION_RECORD_READ_MAX_SIZE :: nat where
  "KEY_ROTATION_RECORD_READ_MAX_SIZE = LIBHOTH_MAILBOX_SIZE - sizeof_response - 8 - 4"
definition KEY_ROTATION_RECORD_READ_CHUNK_TYPE_MAX_SIZE :: nat where
  "KEY_ROTATION_RECORD_READ_CHUNK_TYPE_MAX_SIZE = LIBHOTH_MAILBOX_SIZE - sizeof_response - 8 - 8 - 4"
definition KEY_ROTATION_RECORD_SIGNATURE_SIZE :: nat where "KEY_ROTATION_RECORD_SIGNATURE_SIZE = 96"
definition STRUCT_CHUNK_SIZE :: nat where "STRUCT_CHUNK_SIZE = 8"

lemmas key_rotation_sizes = KEY_ROTATION_HASH_DIGEST_SIZE_def KEY_ROTATION_FLASH_AREA_SIZE_def
  KEY_ROTATION_MAX_RECORD_SIZE_def KEY_ROTATION_RECORD_WRITE_MAX_SIZE_def
  KEY_ROTATION_RECORD_READ_MAX_SIZE_def KEY_ROTATION_RECORD_READ_CHUNK_TYPE_MAX_SIZE_def
  KEY_ROTATION_RECORD_SIGNATURE_SIZE_def STRUCT_CHUNK_SIZE_def LIBHOTH_MAILBOX_SIZE_def

datatype key_rotation_record_op =
    KEY_ROTATION_RECORD_INITIATE
  | KEY_ROTATION_RECORD_WRITE
  | KEY_ROTATION_RECORD_COMMIT
  | KEY_ROTATION_RECORD_GET_VERSION
  | KEY_ROTATION_RECORD_READ
  | KEY_ROTATION_RECORD_GET_STATUS
  | KEY_ROTATION_RECORD_READ_CHUNK_TYPE
  | KEY_ROTATION_RECORD_PAYLOAD_STATUS
  | KEY_ROTATION_RECORD_CHUNK_TYPE_COUNT
  | KEY_ROTATION_RECORD_ERASE_RECORD
  | KEY_ROTATION_RECORD_SET_MAUV
  | KEY_ROTATION_RECORD_GET_MAUV

fun kr_op_val :: "key_rotation_record_op \<Rightarrow> u16" where
  "kr_op_val KEY_ROTATION_RECORD_INITIATE = 0"
| "kr_op_val KEY_ROTATION_RECORD_WRITE = 1"
| "kr_op_val KEY_ROTATION_RECORD_COMMIT = 2"
| "kr_op_val KEY_ROTATION_RECORD_GET_VERSION = 3"
| "kr_op_val KEY_ROTATION_RECORD_READ = 4"
| "kr_op_val KEY_ROTATION_RECORD_GET_STATUS = 5"
| "kr_op_val KEY_ROTATION_RECORD_READ_CHUNK_TYPE = 6"
| "kr_op_val KEY_ROTATION_RECORD_PAYLOAD_STATUS = 7"
| "kr_op_val KEY_ROTATION_RECORD_CHUNK_TYPE_COUNT = 8"
| "kr_op_val KEY_ROTATION_RECORD_ERASE_RECORD = 9"
| "kr_op_val KEY_ROTATION_RECORD_SET_MAUV = 10"
| "kr_op_val KEY_ROTATION_RECORD_GET_MAUV = 11"

text \<open>\<open>struct hoth_request_key_rotation_record\<close>.\<close>

definition key_rotation_header :: "key_rotation_record_op \<Rightarrow> u16 \<Rightarrow> u16 \<Rightarrow> u16 \<Rightarrow> bytes" where
  "key_rotation_header operation packet_offset packet_size reserved =
    le_bytes 2 (kr_op_val operation) @ le_bytes 2 packet_offset @ le_bytes 2 packet_size @ le_bytes 2 reserved"

lemma length_key_rotation_header [simp]: "length (key_rotation_header op off sz res) = 8"
  by (simp add: key_rotation_header_def)

record hoth_response_key_rotation_status =
  kr_version :: u32
  kr_image_family :: u16
  kr_image_family_variant :: u16
  kr_validation_method :: u32
  kr_validation_key_data :: u32
  kr_validation_hash_data :: u32

record hoth_response_key_rotation_payload_status =
  kp_validation_method :: u32
  kp_validation_key_data :: u32
  kp_validation_hash_data :: u32

section \<open>Single requests\<close>

definition send_key_rotation_request ::
  "'s libhoth_device option \<Rightarrow> key_rotation_record_op \<Rightarrow> 's \<Rightarrow> (unit, 's) hoth_result" where
  "send_key_rotation_request dev command s =
    (if dev = None then (Inl (cmd_err LIBHOTH_ERR_INVALID_PARAMETER), s)
     else
       (case hostcmd dev KEY_ROTATION_CMD 0 (key_rotation_header command 0 0 0) 0 True s of
          (Inl e, s') \<Rightarrow> (Inl e, s')
        | (Inr r, s') \<Rightarrow>
            if length r \<noteq> 0 then (Inl (ec_err HOTH_RES_INVALID_RESPONSE_SIZE), s') else (Inr (), s')))"

text \<open>A request that reads a structure of \<open>n\<close> bytes, given as the reader of that structure.\<close>

definition key_rotation_get ::
  "key_rotation_record_op \<Rightarrow> nat \<Rightarrow> (bytes \<Rightarrow> 'r) \<Rightarrow> 's libhoth_device option \<Rightarrow> 'r option \<Rightarrow> 's
    \<Rightarrow> ('r, 's) hoth_result" where
  "key_rotation_get operation n parse dev out s =
    (if dev = None \<or> Option.is_none out then (Inl (cmd_err LIBHOTH_ERR_INVALID_PARAMETER), s)
     else
       (case hostcmd dev KEY_ROTATION_CMD 0 (key_rotation_header operation 0 0 0) n True s of
          (Inl e, s') \<Rightarrow> (Inl e, s')
        | (Inr r, s') \<Rightarrow>
            if length r \<noteq> n then (Inl (ec_err HOTH_RES_INVALID_RESPONSE_SIZE), s')
            else (Inr (parse r), s')))"

definition libhoth_key_rotation_get_version ::
  "'s libhoth_device option \<Rightarrow> u32 option \<Rightarrow> 's \<Rightarrow> (u32, 's) hoth_result" where
  "libhoth_key_rotation_get_version = key_rotation_get KEY_ROTATION_RECORD_GET_VERSION 4 (u32_at 0)"

definition libhoth_key_rotation_get_status ::
  "'s libhoth_device option \<Rightarrow> hoth_response_key_rotation_status option \<Rightarrow> 's
    \<Rightarrow> (hoth_response_key_rotation_status, 's) hoth_result" where
  "libhoth_key_rotation_get_status = key_rotation_get KEY_ROTATION_RECORD_GET_STATUS 20
    (\<lambda>r. \<lparr>kr_version = u32_at 0 r, kr_image_family = u16_at 4 r, kr_image_family_variant = u16_at 6 r,
          kr_validation_method = u32_at 8 r, kr_validation_key_data = u32_at 12 r,
          kr_validation_hash_data = u32_at 16 r\<rparr>)"

definition libhoth_key_rotation_payload_status ::
  "'s libhoth_device option \<Rightarrow> hoth_response_key_rotation_payload_status option \<Rightarrow> 's
    \<Rightarrow> (hoth_response_key_rotation_payload_status, 's) hoth_result" where
  "libhoth_key_rotation_payload_status = key_rotation_get KEY_ROTATION_RECORD_PAYLOAD_STATUS 12
    (\<lambda>r. \<lparr>kp_validation_method = u32_at 0 r, kp_validation_key_data = u32_at 4 r,
          kp_validation_hash_data = u32_at 8 r\<rparr>)"

definition libhoth_key_rotation_get_mauv ::
  "'s libhoth_device option \<Rightarrow> u32 option \<Rightarrow> 's \<Rightarrow> (u32, 's) hoth_result" where
  "libhoth_key_rotation_get_mauv = key_rotation_get KEY_ROTATION_RECORD_GET_MAUV 4 (u32_at 0)"

definition libhoth_key_rotation_erase_record ::
  "'s libhoth_device option \<Rightarrow> 's \<Rightarrow> (unit, 's) hoth_result" where
  "libhoth_key_rotation_erase_record dev s = send_key_rotation_request dev KEY_ROTATION_RECORD_ERASE_RECORD s"

definition libhoth_key_rotation_set_mauv ::
  "u16 \<Rightarrow> 's libhoth_device option \<Rightarrow> u32 \<Rightarrow> 's \<Rightarrow> (unit, 's) hoth_result" where
  "libhoth_key_rotation_set_mauv junk dev mauv s =
    (if dev = None then (Inl (cmd_err LIBHOTH_ERR_INVALID_PARAMETER), s)
     else
       (case hostcmd dev KEY_ROTATION_CMD 0
              (key_rotation_header KEY_ROTATION_RECORD_SET_MAUV 0 0 junk @ le_bytes 4 mauv) 0 True s of
          (Inl e, s') \<Rightarrow> (Inl e, s')
        | (Inr r, s') \<Rightarrow>
            if length r \<noteq> 0 then (Inl (ec_err HOTH_RES_INVALID_RESPONSE_SIZE), s') else (Inr (), s')))"

text \<open>\<open>stk\<close> is the uninitialised \<open>data\<close> of the request, all of which is sent.\<close>

definition libhoth_key_rotation_chunk_type_count ::
  "u16 \<Rightarrow> bytes \<Rightarrow> 's libhoth_device option \<Rightarrow> u32 \<Rightarrow> u16 option \<Rightarrow> 's \<Rightarrow> (u16, 's) hoth_result" where
  "libhoth_key_rotation_chunk_type_count junk stk dev chunk_typecode chunk_count s =
    (if dev = None \<or> chunk_count = None then (Inl (cmd_err LIBHOTH_ERR_INVALID_PARAMETER), s)
     else
       (case hostcmd dev KEY_ROTATION_CMD 0
              (key_rotation_header KEY_ROTATION_RECORD_CHUNK_TYPE_COUNT 0 0 junk
               @ memcpy_at 0 (le_bytes 4 chunk_typecode) (take KEY_ROTATION_RECORD_WRITE_MAX_SIZE stk)) 4 True s of
          (Inl e, s') \<Rightarrow> (Inl e, s')
        | (Inr r, s') \<Rightarrow>
            if length r \<noteq> 4 then (Inl (ec_err HOTH_RES_INVALID_RESPONSE_SIZE), s')
            else (Inr (ucast (u32_at 0 r)), s')))"

section \<open>Writing the record\<close>

definition HTOOL_CMD_INITIATE_FAIL :: libhoth_error where
  "HTOOL_CMD_INITIATE_FAIL = cmd_err LIBHOTH_ERR_INITIATE_FAIL"
definition HTOOL_CMD_COMMIT_FAIL :: libhoth_error where
  "HTOOL_CMD_COMMIT_FAIL = cmd_err LIBHOTH_ERR_COMMIT_FAIL"

definition key_rotation_write ::
  "u16 \<Rightarrow> 's libhoth_device option \<Rightarrow> u16 \<times> bytes \<Rightarrow> 's \<Rightarrow> (unit, 's) hoth_result" where
  "key_rotation_write junk dev packet s =
    (case hostcmd dev KEY_ROTATION_CMD 0
            (key_rotation_header KEY_ROTATION_RECORD_WRITE (fst packet) (word_of_nat (length (snd packet))) junk
             @ snd packet) 0 True s of
       (Inl e, s') \<Rightarrow> (Inl e, s')
     | (Inr r, s') \<Rightarrow>
         if length r \<noteq> 0 then (Inl (ec_err HOTH_RES_INVALID_RESPONSE_SIZE), s') else (Inr (), s'))"

function key_rotation_write_loop ::
  "(u16 \<times> bytes \<Rightarrow> 's \<Rightarrow> (unit, 's) hoth_result) \<Rightarrow> u16 \<Rightarrow> bytes \<Rightarrow> 's \<Rightarrow> (unit, 's) hoth_result" where
  "key_rotation_write_loop wr offset packet_data s =
    (if packet_data = [] then (Inr (), s)
     else
       let size_to_send = (if length packet_data < KEY_ROTATION_RECORD_WRITE_MAX_SIZE
                           then length packet_data else KEY_ROTATION_RECORD_WRITE_MAX_SIZE)
       in case wr (offset, take size_to_send packet_data) s of
            (Inl e, s') \<Rightarrow> (Inl e, s')
          | (Inr _, s') \<Rightarrow>
              key_rotation_write_loop wr (offset + word_of_nat size_to_send) (drop size_to_send packet_data) s')"
  by pat_completeness auto
termination
  by (relation "measure (\<lambda>(wr, offset, data, s). length data)") (auto simp: key_rotation_sizes)

declare key_rotation_write_loop.simps [simp del]

definition libhoth_key_rotation_update ::
  "u16 \<Rightarrow> 's libhoth_device option \<Rightarrow> bytes option \<Rightarrow> 's \<Rightarrow> (unit, 's) hoth_result" where
  "libhoth_key_rotation_update junk dev img s =
    (case img of None \<Rightarrow> (Inl (cmd_err LIBHOTH_ERR_INVALID_PARAMETER), s)
     | Some data \<Rightarrow>
       if dev = None then (Inl (cmd_err LIBHOTH_ERR_INVALID_PARAMETER), s)
       else if length data \<le> KEY_ROTATION_RECORD_SIGNATURE_SIZE \<or> KEY_ROTATION_FLASH_AREA_SIZE < length data
       then (Inl (cmd_err LIBHOTH_ERR_INVALID_PARAMETER), s)
       else
         (case send_key_rotation_request dev KEY_ROTATION_RECORD_INITIATE s of
            (Inl _, s1) \<Rightarrow> (Inl HTOOL_CMD_INITIATE_FAIL, s1)
          | (Inr _, s1) \<Rightarrow>
            (case key_rotation_write_loop (key_rotation_write junk dev) 0 data s1 of
               (Inl e, s2) \<Rightarrow> (Inl e, s2)
             | (Inr _, s2) \<Rightarrow>
               (case send_key_rotation_request dev KEY_ROTATION_RECORD_COMMIT s2 of
                  (Inl _, s3) \<Rightarrow> (Inl HTOOL_CMD_COMMIT_FAIL, s3)
                | (Inr _, s3) \<Rightarrow> (Inr (), s3)))))"

section \<open>Reading the record\<close>

definition send_key_rotation_read_helper ::
  "u16 \<Rightarrow> 's libhoth_device option \<Rightarrow> key_rotation_record_op \<Rightarrow> u16 \<Rightarrow> u16 \<Rightarrow> bytes \<Rightarrow> nat \<Rightarrow> 's
    \<Rightarrow> (bytes, 's) hoth_result" where
  "send_key_rotation_read_helper junk dev operation offset sz request_payload response_buffer_size s =
    (if dev = None then (Inl (cmd_err LIBHOTH_ERR_INVALID_PARAMETER), s)
     else if request_payload \<noteq> [] \<and>
       (KEY_ROTATION_RECORD_WRITE_MAX_SIZE < length request_payload \<or>
        operation = KEY_ROTATION_RECORD_READ \<and> length request_payload \<noteq> 4 \<or>
        operation = KEY_ROTATION_RECORD_READ_CHUNK_TYPE \<and> length request_payload \<noteq> 8)
     then (Inl (cmd_err LIBHOTH_ERR_INVALID_PARAMETER), s)
     else hostcmd dev KEY_ROTATION_CMD 0 (key_rotation_header operation offset sz junk @ request_payload)
       response_buffer_size True s)"

function key_rotation_read_loop ::
  "u16 \<Rightarrow> 's libhoth_device option \<Rightarrow> u16 \<Rightarrow> u32 \<Rightarrow> u16 \<Rightarrow> u16 \<Rightarrow> bytes \<Rightarrow> 's
    \<Rightarrow> (bytes, 's) hoth_result option" where
  "key_rotation_read_loop junk dev record_offset read_half read_offset read_size buf s =
    (if 0 < read_size then
       (if KEY_ROTATION_FLASH_AREA_SIZE < unat read_offset + unat read_size
        then Some (Inl (cmd_err LIBHOTH_ERR_INVALID_PARAMETER), s)
        else
          let packet_size = (if word_of_nat KEY_ROTATION_RECORD_READ_MAX_SIZE < read_size
                             then word_of_nat KEY_ROTATION_RECORD_READ_MAX_SIZE else read_size)
          in case send_key_rotation_read_helper junk dev KEY_ROTATION_RECORD_READ (read_offset + record_offset)
                    packet_size (le_bytes 4 read_half) (unat packet_size) s of
               (Inl e, s') \<Rightarrow> Some (Inl e, s')
             | (Inr r, s') \<Rightarrow>
               (case store_response (unat read_offset) r buf of
                  None \<Rightarrow> None
                | Some buf' \<Rightarrow>
                    if length r \<noteq> unat packet_size
                    then Some (Inl (ec_err HOTH_RES_INVALID_RESPONSE_SIZE), s')
                    else key_rotation_read_loop junk dev record_offset read_half (read_offset + packet_size)
                           (read_size - packet_size) buf' s'))
     else Some (Inr buf, s))"
  by pat_completeness auto

lemma u16_packet_less:
  fixes n :: u16
  assumes "0 < n" "m < n" "0 < m"
  shows "unat (n - m) < unat n"
proof -
  have "unat (n - m) = unat n - unat m" using assms(2) by (intro unat_sub) simp
  then show ?thesis using assms by (simp add: word_less_nat_alt)
qed

termination key_rotation_read_loop
  by (relation "measure (\<lambda>(junk, dev, ro, half, off, read_size, buf, s). unat read_size)")
    (auto simp: key_rotation_sizes word_less_nat_alt split: if_splits intro!: u16_packet_less [simplified word_less_nat_alt])

declare key_rotation_read_loop.simps [simp del]

definition libhoth_key_rotation_read ::
  "u16 \<Rightarrow> 's libhoth_device option \<Rightarrow> u16 \<Rightarrow> u16 \<Rightarrow> u32 \<Rightarrow> bytes option \<Rightarrow> 's
    \<Rightarrow> (bytes, 's) hoth_result option" where
  "libhoth_key_rotation_read junk dev record_offset read_size read_half read_response s =
    (case read_response of None \<Rightarrow> Some (Inl (cmd_err LIBHOTH_ERR_INVALID_PARAMETER), s)
     | Some buf \<Rightarrow>
       if dev = None \<or> KEY_ROTATION_FLASH_AREA_SIZE < unat read_size \<or> read_size = 0
       then Some (Inl (cmd_err LIBHOTH_ERR_INVALID_PARAMETER), s)
       else key_rotation_read_loop junk dev record_offset read_half 0 read_size buf s)"

section \<open>Reading a chunk by its type\<close>

text \<open>
  The do-while loop. A read size of 0 asks for the chunk's size first, which is then taken from
  the end of the response. \<open>chunk_length\<close> is read at \<open>response[response_length]\<close>, whatever
  \<open>read_offset\<close> is. A response of another length is only reported on standard error.
\<close>

function read_chunk_type_loop ::
  "u16 \<Rightarrow> 's libhoth_device option \<Rightarrow> u32 \<Rightarrow> u32 \<Rightarrow> u16 \<Rightarrow> u16 \<Rightarrow> u16 \<Rightarrow> bytes \<Rightarrow> 's
    \<Rightarrow> (bytes \<times> u16, 's) hoth_result option" where
  "read_chunk_type_loop junk dev chunk_typecode chunk_index chunk_offset read_offset read_size buf s =
    (if KEY_ROTATION_FLASH_AREA_SIZE < unat read_offset + unat read_size
     then Some (Inl (cmd_err LIBHOTH_ERR_INVALID_PARAMETER), s)
     else
       let packet_size = min read_size (word_of_nat KEY_ROTATION_RECORD_READ_CHUNK_TYPE_MAX_SIZE) in
       case send_key_rotation_read_helper junk dev KEY_ROTATION_RECORD_READ_CHUNK_TYPE
              (read_offset + chunk_offset) packet_size (le_bytes 4 chunk_typecode @ le_bytes 4 chunk_index)
              (KEY_ROTATION_RECORD_READ_CHUNK_TYPE_MAX_SIZE + 4) s of
         (Inl e, s') \<Rightarrow> Some (Inl e, s')
       | (Inr r, s') \<Rightarrow>
         (case store_response (unat read_offset) r buf of
            None \<Rightarrow> None
          | Some buf' \<Rightarrow>
            if length r < 4 then Some (Inl (ec_err HOTH_RES_INVALID_RESPONSE_SIZE), s')
            else
              (case read_at (length r - 4) 2 buf' of
                 None \<Rightarrow> None
               | Some cl \<Rightarrow>
                 let chunk_length = (le_word cl :: u16) in
                 if unat chunk_length < STRUCT_CHUNK_SIZE then Some (Inl (cmd_err LIBHOTH_ERR_FAIL), s')
                 else
                   let read_size' = (if read_size = 0 then chunk_length - chunk_offset else read_size);
                       packet_size' = min read_size' (word_of_nat KEY_ROTATION_RECORD_READ_CHUNK_TYPE_MAX_SIZE);
                       left = read_size' - packet_size'
                   in if 0 < left
                      then read_chunk_type_loop junk dev chunk_typecode chunk_index chunk_offset
                             (read_offset + packet_size') left buf' s'
                      else Some (Inr (buf', read_offset + packet_size'), s'))))"
  by pat_completeness auto

lemma read_chunk_measure:
  fixes n :: u16
  assumes "0 < n - min n m" "0 < m"
  shows "unat (n - min n m) < unat n"
proof -
  have "m < n" using assms(1) by (cases "n \<le> m") (auto simp: min_def)
  then show ?thesis using assms(2) by (auto simp: min_def intro: u16_packet_less word_neq_0_conv [THEN iffD1])
qed

termination read_chunk_type_loop
proof (relation "measure (\<lambda>(junk, dev, tc, ix, co, off, read_size, buf, s).
    if read_size = 0 then 65536 else unat read_size)", goal_cases)
  case 1
  then show ?case by simp
next
  case (2 junk dev tc ix co off read_size buf s)
  have m: "0 < (word_of_nat KEY_ROTATION_RECORD_READ_CHUNK_TYPE_MAX_SIZE :: u16)"
    by (simp add: key_rotation_sizes)
  have b: "unat (x :: u16) < 65536" for x using unat_bound [of x] by simp
  from 2 show ?case
    using m read_chunk_measure b by (auto simp: Let_def word_gt_0)
qed

declare read_chunk_type_loop.simps [simp del]

definition libhoth_key_rotation_read_chunk_type ::
  "u16 \<Rightarrow> 's libhoth_device option \<Rightarrow> u32 \<Rightarrow> u32 \<Rightarrow> u16 \<Rightarrow> u16 \<Rightarrow> bytes option \<Rightarrow> u16 option \<Rightarrow> 's
    \<Rightarrow> (bytes \<times> u16, 's) hoth_result option" where
  "libhoth_key_rotation_read_chunk_type junk dev chunk_typecode chunk_index chunk_offset read_size
      read_response response_size s =
    (case read_response of None \<Rightarrow> Some (Inl (cmd_err LIBHOTH_ERR_INVALID_PARAMETER), s)
     | Some buf \<Rightarrow>
       if dev = None \<or> response_size = None \<or> KEY_ROTATION_MAX_RECORD_SIZE < unat read_size \<or>
          KEY_ROTATION_MAX_RECORD_SIZE < unat chunk_offset
       then Some (Inl (cmd_err LIBHOTH_ERR_INVALID_PARAMETER), s)
       else read_chunk_type_loop junk dev chunk_typecode chunk_index chunk_offset 0 read_size buf s)"

section \<open>The record that is written\<close>

interpretation kr_write: chunk_loop KEY_ROTATION_RECORD_WRITE_MAX_SIZE data
    "\<lambda>(o', p). wr (word_of_nat o', p)" id
    "\<lambda>off. key_rotation_write_loop wr (word_of_nat off) (drop off data)" for wr data
proof
  show "0 < KEY_ROTATION_RECORD_WRITE_MAX_SIZE" by (simp add: key_rotation_sizes)
  show "key_rotation_write_loop wr (word_of_nat off) (drop off data) s = id (Inr (), s)"
    if "off = length data" for off s
    using that by (simp add: key_rotation_write_loop.simps)
  show "key_rotation_write_loop wr (word_of_nat off) (drop off data) s =
      (case (case (off, byte_range off k data) of (o', p) \<Rightarrow> wr (word_of_nat o', p)) s of
         (Inl e, s') \<Rightarrow> id (Inl e, s')
       | (Inr _, s') \<Rightarrow> key_rotation_write_loop wr (word_of_nat (off + k)) (drop (off + k) data) s')"
    if "off < length data" "k = min KEY_ROTATION_RECORD_WRITE_MAX_SIZE (length data - off)" for off k s
  proof -
    have k: "(if length (drop off data) < KEY_ROTATION_RECORD_WRITE_MAX_SIZE
        then length (drop off data) else KEY_ROTATION_RECORD_WRITE_MAX_SIZE) = k"
      using that(2) by auto
    show ?thesis
      using that(1) by (subst key_rotation_write_loop.simps, unfold Let_def k)
        (simp add: byte_range_def add.commute split: prod.split sum.split)
  qed
qed

lemma key_rotation_write_loop_packets:
  "key_rotation_write_loop wr 0 data s = run_requests wr (packets 1008 data) s"
  using kr_write.loop_requests [of 0 data wr s]
  by (simp add: packets_def run_requests_map key_rotation_sizes case_prod_unfold)

text \<open>
  What the update relies on the firmware for, in the bytes of the requests: INITIATE (0) erases the
  staging half, WRITE (1) puts its data at its offset, COMMIT (2) makes the staging half active. Each
  may also be refused, and then changes neither half. The reserved field of a WRITE is arbitrary.
\<close>

definition refused :: "(u16 \<times> bytes) \<times> 'w \<Rightarrow> ('w \<Rightarrow> bytes) \<Rightarrow> ('w \<Rightarrow> bytes) \<Rightarrow> 'w \<Rightarrow> bool" where
  "refused answer staging active w \<longleftrightarrow>
    (case answer of ((result, r), w') \<Rightarrow> result \<noteq> 0 \<and> staging w' = staging w \<and> active w' = active w)"

definition staging_firmware :: "'w rot_handler \<Rightarrow> ('w \<Rightarrow> bytes) \<Rightarrow> ('w \<Rightarrow> bytes) \<Rightarrow> bool" where
  "staging_firmware h staging active \<longleftrightarrow>
    (\<forall>w. let answer = h KEY_ROTATION_CMD 0 [0, 0, 0, 0, 0, 0, 0, 0] w in
      refused answer staging active w \<or>
      fst answer = (0, []) \<and> staging (snd answer) = replicate 2048 0xFF \<and> active (snd answer) = active w) \<and>
    (\<forall>w off reserved d. let answer = h KEY_ROTATION_CMD 0
        ([1, 0] @ le_bytes 2 (off :: u16) @ le_bytes 2 (word_of_nat (length d) :: u16) @ le_bytes 2 (reserved :: u16) @ d) w in
      unat off + length d \<le> length (staging w) \<longrightarrow>
      refused answer staging active w \<or>
      fst answer = (0, []) \<and> staging (snd answer) = memcpy_at (unat off) d (staging w) \<and> active (snd answer) = active w) \<and>
    (\<forall>w. let answer = h KEY_ROTATION_CMD 0 [2, 0, 0, 0, 0, 0, 0, 0] w in
      refused answer staging active w \<or> fst answer = (0, []) \<and> active (snd answer) = staging w)"

text \<open>Some request is refused in some state.\<close>

definition refuses :: "'w rot_handler \<Rightarrow> bool" where
  "refuses h \<longleftrightarrow> (\<exists>p w. fst (fst (h KEY_ROTATION_CMD 0 p w)) \<noteq> 0)"

lemma refusesI: "h KEY_ROTATION_CMD 0 p w = ((result, r), w') \<Longrightarrow> result \<noteq> 0 \<Longrightarrow> refuses h"
  unfolding refuses_def by (metis fst_conv)

lemma send_key_rotation_rot:
  assumes "h KEY_ROTATION_CMD 0 (key_rotation_header op 0 0 0) w = ((result, r), w')" "result = 0 \<longrightarrow> r = []"
  shows "\<exists>e q'. send_key_rotation_request (Some (rot_device h)) op (w, q) =
    (if result = 0 then Inr () else Inl e, (w', q'))"
  using assms by (cases "result = 0") (auto simp: send_key_rotation_request_def hostcmd_rot rpc_def)

lemma key_rotation_write_rot:
  assumes "h KEY_ROTATION_CMD 0 (key_rotation_header KEY_ROTATION_RECORD_WRITE off (word_of_nat (length p)) junk @ p) w =
      ((result, r), w')" "result = 0 \<longrightarrow> r = []" "length p \<le> 1008"
  shows "\<exists>e q'. key_rotation_write junk (Some (rot_device h)) (off, p) (w, q) =
    (if result = 0 then Inr () else Inl e, (w', q'))"
  using assms by (cases "result = 0") (auto simp: key_rotation_write_def hostcmd_rot rpc_def)

lemma key_rotation_initiate_firmware:
  assumes "staging_firmware h staging active"
  shows "\<exists>res w' q'. send_key_rotation_request (Some (rot_device h)) KEY_ROTATION_RECORD_INITIATE (w, q) = (res, (w', q')) \<and>
    active w' = active w \<and> (res = Inr () \<longrightarrow> staging w' = replicate 2048 0xFF) \<and>
    (res \<noteq> Inr () \<longrightarrow> refuses h)"
proof -
  have b: "key_rotation_header KEY_ROTATION_RECORD_INITIATE 0 0 0 = [0, 0, 0, 0, 0, 0, 0, 0]" by code_simp
  obtain result r w' where h: "h KEY_ROTATION_CMD 0 [0, 0, 0, 0, 0, 0, 0, 0] w = ((result, r), w')" by (metis surj_pair)
  have "refused ((result, r), w') staging active w \<or>
      (result, r) = (0, []) \<and> staging w' = replicate 2048 0xFF \<and> active w' = active w"
    using assms [unfolded staging_firmware_def, THEN conjunct1, THEN spec, of w] by (simp add: h)
  moreover from this have "result = 0 \<longrightarrow> r = []" by (auto simp: refused_def)
  with send_key_rotation_rot [of h KEY_ROTATION_RECORD_INITIATE w result r w' q, unfolded b, OF h]
  obtain e q' where "send_key_rotation_request (Some (rot_device h)) KEY_ROTATION_RECORD_INITIATE (w, q) =
    (if result = 0 then Inr () else Inl e, (w', q'))" by blast
  ultimately show ?thesis using refusesI [of h _ w result r w', OF h] by (auto simp: refused_def split: if_splits)
qed

lemma key_rotation_commit_firmware:
  assumes "staging_firmware h staging active"
  shows "\<exists>res w' q'. send_key_rotation_request (Some (rot_device h)) KEY_ROTATION_RECORD_COMMIT (w, q) = (res, (w', q')) \<and>
    active w' = (if res = Inr () then staging w else active w) \<and>
    (res \<noteq> Inr () \<longrightarrow> refuses h)"
proof -
  have b: "key_rotation_header KEY_ROTATION_RECORD_COMMIT 0 0 0 = [2, 0, 0, 0, 0, 0, 0, 0]" by code_simp
  obtain result r w' where h: "h KEY_ROTATION_CMD 0 [2, 0, 0, 0, 0, 0, 0, 0] w = ((result, r), w')" by (metis surj_pair)
  have "refused ((result, r), w') staging active w \<or> (result, r) = (0, []) \<and> active w' = staging w"
    using assms [unfolded staging_firmware_def, THEN conjunct2, THEN conjunct2, THEN spec, of w] by (simp add: h)
  moreover from this have "result = 0 \<longrightarrow> r = []" by (auto simp: refused_def)
  with send_key_rotation_rot [of h KEY_ROTATION_RECORD_COMMIT w result r w' q, unfolded b, OF h]
  obtain e q' where "send_key_rotation_request (Some (rot_device h)) KEY_ROTATION_RECORD_COMMIT (w, q) =
    (if result = 0 then Inr () else Inl e, (w', q'))" by blast
  ultimately show ?thesis using refusesI [of h _ w result r w', OF h] by (auto simp: refused_def split: if_splits)
qed

lemma key_rotation_write_firmware:
  assumes "staging_firmware h staging active" "length p \<le> 1008" "unat off + length p \<le> length (staging w)"
  shows "\<exists>res w' q'. key_rotation_write junk (Some (rot_device h)) (off, p) (w, q) = (res, (w', q')) \<and>
    active w' = active w \<and> (res = Inr () \<longrightarrow> staging w' = memcpy_at (unat off) p (staging w)) \<and>
    (res \<noteq> Inr () \<longrightarrow> refuses h)"
proof -
  let ?m = "[1, 0] @ le_bytes 2 off @ le_bytes 2 (word_of_nat (length p) :: u16) @ le_bytes 2 junk @ p"
  have b: "key_rotation_header KEY_ROTATION_RECORD_WRITE off (word_of_nat (length p)) junk @ p = ?m"
    by (simp add: key_rotation_header_def numeral_2_eq_2)
  obtain result r w' where h: "h KEY_ROTATION_CMD 0 ?m w = ((result, r), w')" by (metis surj_pair)
  have "refused ((result, r), w') staging active w \<or>
      (result, r) = (0, []) \<and> staging w' = memcpy_at (unat off) p (staging w) \<and> active w' = active w"
    using assms(1) [unfolded staging_firmware_def, THEN conjunct2, THEN conjunct1, THEN spec, of w,
      THEN spec, of off, THEN spec, of junk, THEN spec, of p] assms(3) unfolding Let_def h by simp
  moreover from this have "result = 0 \<longrightarrow> r = []" by (auto simp: refused_def)
  with key_rotation_write_rot [of h off p junk w result r w' q, unfolded b, OF h _ assms(2)]
  obtain e q' where "key_rotation_write junk (Some (rot_device h)) (off, p) (w, q) =
    (if result = 0 then Inr () else Inl e, (w', q'))" by blast
  ultimately show ?thesis using refusesI [of h _ w result r w', OF h] by (auto simp: refused_def split: if_splits)
qed

lemma key_rotation_writes_firmware:
  assumes "staging_firmware h staging active" "\<forall>p \<in> set ps. length p \<le> 1008"
    and "length (staging w) = 2048" "off + length (concat ps) \<le> 2048"
  shows "\<exists>res w' q'. run_requests (key_rotation_write junk (Some (rot_device h)))
      (map (\<lambda>(off, p). (word_of_nat off, p)) (with_offsets off ps)) (w, q) = (res, (w', q')) \<and>
    active w' = active w \<and> (res = Inr () \<longrightarrow> staging w' = memcpy_at off (concat ps) (staging w)) \<and>
    (res \<noteq> Inr () \<longrightarrow> refuses h)"
  using assms(2-4)
proof (induction ps arbitrary: off w q)
  case Nil
  then show ?case by (simp add: memcpy_at_def)
next
  case (Cons p ps)
  have u: "unat (word_of_nat off :: u16) = off" using Cons.prems(3) by (simp add: unat_of_nat)
  have "length p \<le> 1008" "unat (word_of_nat off :: u16) + length p \<le> length (staging w)" using Cons.prems u by auto
  from key_rotation_write_firmware [OF assms(1) this, of junk q, unfolded u]
  obtain res w1 q1 where 1: "key_rotation_write junk (Some (rot_device h)) (word_of_nat off, p) (w, q) = (res, (w1, q1))"
    "active w1 = active w" "res = Inr () \<longrightarrow> staging w1 = memcpy_at off p (staging w)"
    "res \<noteq> Inr () \<longrightarrow> refuses h"
    by blast
  show ?case
  proof (cases res)
    case (Inl e)
    then show ?thesis using 1 by simp
  next
    case (Inr x)
    then have s: "staging w1 = memcpy_at off p (staging w)" using 1(3) by simp
    have l: "length (staging w1) = 2048" using s Cons.prems(2,3) by simp
    have "memcpy_at (off + length p) (concat ps) (staging w1) = memcpy_at off (p @ concat ps) (staging w)"
      unfolding s using Cons.prems(2,3) by (intro memcpy_at_append) simp
    moreover have "\<forall>p \<in> set ps. length p \<le> 1008" "off + length p + length (concat ps) \<le> 2048" using Cons.prems by simp_all
    ultimately show ?thesis
      using Cons.IH [OF _ l, of "off + length p" q1] 1(1,2) Inr by auto
  qed
qed

text \<open>
  C27: updating the record on such a firmware. Data of 96 bytes or less or of more than 2048 bytes is
  refused without a request. Otherwise success makes the data, padded with erased bytes, the active
  half; without success the active half is what it was, and this happens only with a firmware that
  refuses some request.
\<close>

theorem key_rotation_update_writes:
  assumes "staging_firmware h staging active"
  shows "\<exists>res w' q'. libhoth_key_rotation_update junk (Some (rot_device h)) (Some data) (w, q) = (res, (w', q')) \<and>
    (if length data \<le> 96 \<or> 2048 < length data then res = Inl (cmd_err LIBHOTH_ERR_INVALID_PARAMETER) \<and> w' = w
     else if res = Inr () then active w' = data @ replicate (2048 - length data) 0xFF
     else active w' = active w \<and> refuses h)"
proof (cases "length data \<le> 96 \<or> 2048 < length data")
  case True
  then show ?thesis by (auto simp: libhoth_key_rotation_update_def key_rotation_sizes)
next
  case False
  let ?dev = "Some (rot_device h)"
  have k: "libhoth_key_rotation_update junk ?dev (Some data) s =
         (case send_key_rotation_request ?dev KEY_ROTATION_RECORD_INITIATE s of
            (Inl _, s1) \<Rightarrow> (Inl HTOOL_CMD_INITIATE_FAIL, s1)
          | (Inr _, s1) \<Rightarrow>
            (case run_requests (key_rotation_write junk ?dev) (packets 1008 data) s1 of
               (Inl e, s2) \<Rightarrow> (Inl e, s2)
             | (Inr _, s2) \<Rightarrow>
               (case send_key_rotation_request ?dev KEY_ROTATION_RECORD_COMMIT s2 of
                  (Inl _, s3) \<Rightarrow> (Inl HTOOL_CMD_COMMIT_FAIL, s3)
                | (Inr _, s3) \<Rightarrow> (Inr (), s3))))" for s
    unfolding libhoth_key_rotation_update_def option.case key_rotation_write_loop_packets
    using False by (simp add: key_rotation_sizes)
  obtain r1 w1 q1 where 1: "send_key_rotation_request ?dev KEY_ROTATION_RECORD_INITIATE (w, q) = (r1, (w1, q1))"
    "active w1 = active w" "r1 = Inr () \<longrightarrow> staging w1 = replicate 2048 0xFF"
    "r1 \<noteq> Inr () \<longrightarrow> refuses h"
    using key_rotation_initiate_firmware [OF assms, of w q] by blast
  show ?thesis
  proof (cases "r1 = Inr ()")
    case False
    then obtain e where "r1 = Inl e" by (cases r1) auto
    then show ?thesis using 1 \<open>\<not> (length data \<le> 96 \<or> 2048 < length data)\<close> k by simp
  next
    case True
    then have s1: "staging w1 = replicate 2048 0xFF" using 1(3) by simp
    have "\<forall>p \<in> set (pieces 1008 data). length p \<le> 1008" using pieces_bound by blast
    then obtain r2 w2 q2 where 2: "run_requests (key_rotation_write junk ?dev) (packets 1008 data) (w1, q1) = (r2, (w2, q2))"
      "active w2 = active w1" "r2 = Inr () \<longrightarrow> staging w2 = memcpy_at 0 data (staging w1)"
      "r2 \<noteq> Inr () \<longrightarrow> refuses h"
      using key_rotation_writes_firmware [OF assms, of "pieces 1008 data" w1 0 junk q1] s1 False
      by (auto simp: packets_def)
    show ?thesis
    proof (cases "r2 = Inr ()")
      case False
      then obtain e where "r2 = Inl e" by (cases r2) auto
      then show ?thesis using 1 2 True \<open>\<not> (length data \<le> 96 \<or> 2048 < length data)\<close> k by simp
    next
      case r2: True
      obtain r3 w3 q3 where "send_key_rotation_request ?dev KEY_ROTATION_RECORD_COMMIT (w2, q2) = (r3, (w3, q3))"
        "active w3 = (if r3 = Inr () then staging w2 else active w2)"
        "r3 \<noteq> Inr () \<longrightarrow> refuses h"
        using key_rotation_commit_firmware [OF assms, of w2 q2] by blast
      then show ?thesis
        using 1 2 True r2 s1 False k by (cases r3) (auto simp: memcpy_at_def)
    qed
  qed
qed

text \<open>A firmware with two halves that accepts everything.\<close>

definition two_halves :: "(bytes \<times> bytes) rot_handler" where
  "two_halves c v p w =
    ((0, []),
     if p ! 0 = 0 then (replicate 2048 0xFF, snd w)
     else if p ! 0 = 1 then (memcpy_at (unat (u16_at 2 p)) (drop 8 p) (fst w), snd w)
     else (fst w, fst w))"

theorem key_rotation_update_writes_witness:
  "\<exists>w' q'. libhoth_key_rotation_update 7 (Some (rot_device two_halves)) (Some (replicate 1500 7)) (([], []), []) = (Inr (), (w', q')) \<and>
    snd w' = replicate 1500 7 @ replicate 548 0xFF"
proof -
  have u: "u16_at 2 ([1, 0] @ le_bytes 2 off @ xs) = off" for off xs
    by (simp add: u16_at_def byte_range_def)
  have "staging_firmware two_halves fst snd"
    using u by (simp add: staging_firmware_def two_halves_def Let_def)
  from key_rotation_update_writes [OF this, of 7 "replicate 1500 7" "([], [])" "[]"]
  show ?thesis by (auto simp: two_halves_def refuses_def split: if_splits)
qed

section \<open>The record that is read\<close>

text \<open>A firmware that answers READ requests from a stored record.\<close>

definition record_firmware :: "'w rot_handler \<Rightarrow> bytes \<Rightarrow> bool" where
  "record_firmware h stored \<longleftrightarrow>
    (\<forall>off sz junk half w. unat off + unat sz \<le> length stored \<longrightarrow>
      h KEY_ROTATION_CMD 0 (key_rotation_header KEY_ROTATION_RECORD_READ off sz junk @ le_bytes 4 (half :: u32)) w =
        ((0, byte_range (unat off) (unat sz) stored), w))"

lemma key_rotation_read_loop_reads:
  assumes "record_firmware h stored" and "length stored \<le> 2048"
    and "unat ro + unat off + unat n \<le> length stored" and "unat off + unat n \<le> length buf"
    and "length buf = 2048"
  shows "\<exists>s'. key_rotation_read_loop junk (Some (rot_device h)) ro half off n buf (w, q) =
    Some (Inr (memcpy_at (unat off) (byte_range (unat ro + unat off) (unat n) stored) buf), s')"
  using assms(3-5)
proof (induction "unat n" arbitrary: off n buf q rule: less_induct)
  case less
  show ?case
  proof (cases "0 < n")
    case False
    then have "n = 0" by (simp add: word_gt_0)
    then show ?thesis
      by (subst key_rotation_read_loop.simps) (simp add: byte_range_def memcpy_at_def)
  next
    case True
    define p where "p = (if word_of_nat KEY_ROTATION_RECORD_READ_MAX_SIZE < n
      then word_of_nat KEY_ROTATION_RECORD_READ_MAX_SIZE else n)"
    have p: "p \<le> n" "0 < unat p" "unat p \<le> 1004"
      using True by (auto simp: p_def key_rotation_sizes word_less_nat_alt word_le_nat_alt not_less)
    have un: "unat (n - p) = unat n - unat p" using p(1) by (rule unat_sub)
    have pn: "unat p \<le> unat n" using p(1) by (simp add: word_le_nat_alt)
    have uo: "unat (off + p) = unat off + unat p" "unat (off + ro) = unat off + unat ro"
      using less.prems(1) assms(2) pn by (simp_all add: unat_word_ariths)
    let ?r = "byte_range (unat ro + unat off) (unat p) stored"
    have lr: "length ?r = unat p" using less.prems(1) pn by simp
    have in_rec: "unat (off + ro) + unat p \<le> length stored" using uo(2) less.prems(1) pn by simp
    have "h KEY_ROTATION_CMD 0 (key_rotation_header KEY_ROTATION_RECORD_READ (off + ro) p junk @ le_bytes 4 half) w =
        ((0, ?r), w)"
      using assms(1) in_rec uo(2) unfolding record_firmware_def by (simp add: add.commute)
    then obtain q1 where hc: "send_key_rotation_read_helper junk (Some (rot_device h)) KEY_ROTATION_RECORD_READ
        (off + ro) p (le_bytes 4 half) (unat p) (w, q) = (Inr ?r, (w, q1))"
      using lr p(3) by (auto simp: send_key_rotation_read_helper_def hostcmd_rot rpc_def key_rotation_sizes)
    let ?buf = "memcpy_at (unat off) ?r buf"
    have st: "store_response (unat off) ?r buf = Some ?buf"
      using lr less.prems(2) pn by (simp add: store_response_def)
    have step: "key_rotation_read_loop junk (Some (rot_device h)) ro half off n buf (w, q) =
        key_rotation_read_loop junk (Some (rot_device h)) ro half (off + p) (n - p) ?buf (w, q1)"
      using True less.prems(2,3) hc st lr
      by (subst key_rotation_read_loop.simps, unfold Let_def p_def [symmetric])
        (simp add: KEY_ROTATION_FLASH_AREA_SIZE_def)
    have lb: "length ?buf = 2048" using lr less.prems(2,3) pn by simp
    obtain s' where IH: "key_rotation_read_loop junk (Some (rot_device h)) ro half (off + p) (n - p) ?buf (w, q1) =
        Some (Inr (memcpy_at (unat (off + p)) (byte_range (unat ro + unat (off + p)) (unat (n - p)) stored) ?buf), s')"
      using less.hyps [of "n - p" "off + p" ?buf q1] un uo(1) pn p(2) less.prems lb by auto
    have join: "?r @ byte_range (unat ro + unat off + unat p) (unat n - unat p) stored =
        byte_range (unat ro + unat off) (unat n) stored"
      using pn by (intro byte_range_join) auto
    have "memcpy_at (unat off + unat p) (byte_range (unat ro + unat off + unat p) (unat n - unat p) stored) ?buf =
        memcpy_at (unat off) (byte_range (unat ro + unat off) (unat n) stored) buf"
      unfolding join [symmetric] using lr less.prems pn by (simp add: memcpy_at_def add.assoc add.commute)
    then show ?thesis using step IH un uo(1) by (simp add: add.assoc)
  qed
qed

text \<open>
  C26: reading from a firmware that answers from its record writes exactly the requested bytes into
  the caller's buffer, never outside it, and leaves the rest of it alone.
\<close>

theorem key_rotation_read_record:
  assumes "record_firmware h stored" and "length stored \<le> 2048" and "length buf = 2048"
    and "0 < n" and "unat ro + unat n \<le> length stored"
  shows "\<exists>s'. libhoth_key_rotation_read junk (Some (rot_device h)) ro n half (Some buf) (w, q) =
    Some (Inr (byte_range (unat ro) (unat n) stored @ drop (unat n) buf), s')"
proof -
  have n: "unat n \<le> 2048" "n \<noteq> 0" using assms(2,4,5) by auto
  obtain s' where "key_rotation_read_loop junk (Some (rot_device h)) ro half 0 n buf (w, q) =
      Some (Inr (memcpy_at 0 (byte_range (unat ro) (unat n) stored) buf), s')"
    using key_rotation_read_loop_reads [OF assms(1,2), of ro 0 n buf junk half w q] assms(3,5) n by auto
  then show ?thesis using n assms(5)
    by (simp add: libhoth_key_rotation_read_def KEY_ROTATION_FLASH_AREA_SIZE_def memcpy_at_def)
qed

definition stored_record :: bytes where
  "stored_record = replicate 1500 1 @ replicate 548 2"

definition record_device :: "unit rot_handler" where
  "record_device c v p w = ((0, byte_range (unat (u16_at 2 p)) (unat (u16_at 4 p)) stored_record), w)"

lemma key_rotation_header_fields [simp]:
  "u16_at 2 (key_rotation_header op off sz res @ d) = off"
  "u16_at 4 (key_rotation_header op off sz res @ d) = sz"
  by (simp_all add: key_rotation_header_def field_defs)

theorem key_rotation_read_record_witness:
  "\<exists>s'. libhoth_key_rotation_read 0 (Some (rot_device record_device)) 400 1200 0 (Some (replicate 2048 0)) ((), []) =
    Some (Inr (byte_range 400 1200 stored_record @ drop 1200 (replicate 2048 0)), s')"
proof -
  have "record_firmware record_device stored_record"
    by (simp add: record_firmware_def record_device_def)
  then show ?thesis
    using key_rotation_read_record [of record_device stored_record "replicate 2048 0" 1200 400 0 0 "()" "[]"]
    by (simp add: stored_record_def)
qed

end
