(* ===== verification/Provisioning.thy ===== *)
theory Provisioning
  imports Rot_Commands
begin

text \<open>
  \<open>protocol/provisioning.c\<close>: the CRC of the personalisation blob, the provisioning log (read,
  write, commit, validate and sign) and the key provisioning commands. The log functions that use
  the legacy status codes return them with the caller's buffer as it is afterwards; the outer
  option of the read is \<open>None\<close> for a write outside the buffer, that of the write loop for a loop
  that does not end.
\<close>

section \<open>Layout\<close>

definition HOTH_PRV_CMD_HOTH_PROVISIONING_LOG :: u16 where "HOTH_PRV_CMD_HOTH_PROVISIONING_LOG = 0x0040"
definition HOTH_PRV_CMD_HOTH_KEY_PROVISIONING :: u16 where "HOTH_PRV_CMD_HOTH_KEY_PROVISIONING = 0x0043"
definition HOTH_KEY_PROVISIONING_REQUEST_VERSION :: u8 where "HOTH_KEY_PROVISIONING_REQUEST_VERSION = 1"

datatype hoth_key_provisioning_command =
    HOTH_KEY_PROVISIONING_GET_ENCRYPTION_KEY
  | HOTH_KEY_PROVISIONING_STORE_SECRETS
  | HOTH_KEY_PROVISIONING_LOAD_MLDSA_PUBLIC_KEY

fun kp_cmd_val :: "hoth_key_provisioning_command \<Rightarrow> u8" where
  "kp_cmd_val HOTH_KEY_PROVISIONING_GET_ENCRYPTION_KEY = 0"
| "kp_cmd_val HOTH_KEY_PROVISIONING_STORE_SECRETS = 1"
| "kp_cmd_val HOTH_KEY_PROVISIONING_LOAD_MLDSA_PUBLIC_KEY = 2"

definition HOTH_KEY_PROVISIONING_MAX_SECRETS_SIZE :: nat where
  "HOTH_KEY_PROVISIONING_MAX_SECRETS_SIZE = LIBHOTH_MAILBOX_SIZE - sizeof_request - 4"
definition HOTH_KEY_PROVISIONING_MLDSA44_PUBLIC_KEY_BYTES :: nat where
  "HOTH_KEY_PROVISIONING_MLDSA44_PUBLIC_KEY_BYTES = 1312"
definition HOTH_KEY_PROVISIONING_LOAD_KEY_CHUNK_MAX_SIZE :: nat where
  "HOTH_KEY_PROVISIONING_LOAD_KEY_CHUNK_MAX_SIZE = LIBHOTH_MAILBOX_SIZE - sizeof_request - 4 - 4"
definition PROVISIONING_LOG_CHUNK_MAX_SIZE :: nat where "PROVISIONING_LOG_CHUNK_MAX_SIZE = 1008"
definition PROVISIONING_LOG_WRITE_CHUNK_MAX_SIZE :: nat where
  "PROVISIONING_LOG_WRITE_CHUNK_MAX_SIZE = LIBHOTH_MAILBOX_SIZE - sizeof_request - 12"

lemmas provisioning_sizes = HOTH_KEY_PROVISIONING_MAX_SECRETS_SIZE_def
  HOTH_KEY_PROVISIONING_MLDSA44_PUBLIC_KEY_BYTES_def HOTH_KEY_PROVISIONING_LOAD_KEY_CHUNK_MAX_SIZE_def
  PROVISIONING_LOG_CHUNK_MAX_SIZE_def PROVISIONING_LOG_WRITE_CHUNK_MAX_SIZE_def LIBHOTH_MAILBOX_SIZE_def

datatype provisioning_log_op =
    PROVISIONING_LOG_READ
  | PROVISIONING_LOG_WRITE
  | PROVISIONING_LOG_COMMIT
  | PROVISIONING_LOG_VALIDATE_AND_SIGN

fun log_op_val :: "provisioning_log_op \<Rightarrow> u8" where
  "log_op_val PROVISIONING_LOG_READ = 0"
| "log_op_val PROVISIONING_LOG_WRITE = 1"
| "log_op_val PROVISIONING_LOG_COMMIT = 2"
| "log_op_val PROVISIONING_LOG_VALIDATE_AND_SIGN = 3"

text \<open>\<open>struct hoth_provisioning_log_request\<close> and the request header of key provisioning.\<close>

definition provisioning_log_request :: "provisioning_log_op \<Rightarrow> u16 \<Rightarrow> u16 \<Rightarrow> u32 \<Rightarrow> bytes" where
  "provisioning_log_request operation offset sz checksum =
    [1, log_op_val operation] @ le_bytes 2 (0 :: u16) @ le_bytes 2 offset @ le_bytes 2 sz @ le_bytes 4 checksum"

definition key_provisioning_header :: "hoth_key_provisioning_command \<Rightarrow> u16 \<Rightarrow> bytes" where
  "key_provisioning_header command sz =
    [HOTH_KEY_PROVISIONING_REQUEST_VERSION, kp_cmd_val command] @ le_bytes 2 sz"

lemma length_provisioning_requests [simp]:
  "length (provisioning_log_request op off sz crc) = 12"
  "length (key_provisioning_header cmd sz) = 4"
  by (simp_all add: provisioning_log_request_def key_provisioning_header_def)

section \<open>The checksum\<close>

definition crc_bit :: "u32 \<Rightarrow> u32" where
  "crc_bit crc = drop_bit 1 crc XOR (if crc AND 1 \<noteq> 0 then 0xEDB88320 else 0)"

definition crc_byte :: "u32 \<Rightarrow> u8 \<Rightarrow> u32" where
  "crc_byte crc b = (crc_bit ^^ 8) (crc XOR ucast b)"

definition libhoth_provisioning_crc32 :: "u32 \<Rightarrow> bytes \<Rightarrow> u32" where
  "libhoth_provisioning_crc32 initial_value buf = NOT (foldl crc_byte (NOT initial_value) buf)"

section \<open>Executing the commands\<close>

definition min_u16 :: "u16 \<Rightarrow> u16 \<Rightarrow> u16" where
  "min_u16 a b = (if a < b then a else b)"

definition exec_provisioning_log_cmd ::
  "'s libhoth_device option \<Rightarrow> bytes \<Rightarrow> nat \<Rightarrow> 's \<Rightarrow> (bytes, 's) hoth_result" where
  "exec_provisioning_log_cmd dev req resp_buf_size =
    hostcmd dev (HOTH_CMD_BOARD_SPECIFIC_BASE + HOTH_PRV_CMD_HOTH_PROVISIONING_LOG) 0 req resp_buf_size True"

text \<open>The callers set the size of the response to 0 before, so that nothing written is an empty response.\<close>

definition exec_provisioning_log_cmd_legacy ::
  "'s libhoth_device option \<Rightarrow> bytes \<Rightarrow> nat \<Rightarrow> 's \<Rightarrow> (int \<times> bytes) \<times> 's" where
  "exec_provisioning_log_cmd_legacy dev req resp_buf_size s =
    (let ((status, r), s') = libhoth_hostcmd_exec [] dev
           (HOTH_CMD_BOARD_SPECIFIC_BASE + HOTH_PRV_CMD_HOTH_PROVISIONING_LOG) 0
           (Some req) (length req) resp_buf_size True s
     in ((status, case r of Some p \<Rightarrow> p | None \<Rightarrow> []), s'))"

definition exec_key_provisioning_cmd ::
  "'s libhoth_device option \<Rightarrow> bytes \<Rightarrow> 's \<Rightarrow> (unit, 's) hoth_result" where
  "exec_key_provisioning_cmd dev req s =
    (case hostcmd dev (HOTH_CMD_BOARD_SPECIFIC_BASE + HOTH_PRV_CMD_HOTH_KEY_PROVISIONING) 0 req 0 True s of
       (Inl e, s') \<Rightarrow> (Inl e, s') | (Inr _, s') \<Rightarrow> (Inr (), s'))"

section \<open>Reading the log\<close>

function provisioning_log_read_loop ::
  "'s libhoth_device option \<Rightarrow> nat \<Rightarrow> u16 \<Rightarrow> u16 \<Rightarrow> bytes \<Rightarrow> 's
    \<Rightarrow> ((int \<times> bytes \<times> nat option) \<times> 's) option" where
  "provisioning_log_read_loop dev buf_size log_size bytes_read buf s =
    (if bytes_read < log_size then
       let chunk_size = min_u16 (log_size - bytes_read) (word_of_nat PROVISIONING_LOG_CHUNK_MAX_SIZE);
           req = provisioning_log_request PROVISIONING_LOG_READ bytes_read chunk_size 0;
           ((exec_status, r), s') = exec_provisioning_log_cmd_legacy dev req (8 + PROVISIONING_LOG_CHUNK_MAX_SIZE) s;
           response = memcpy_at 0 r (replicate (8 + PROVISIONING_LOG_CHUNK_MAX_SIZE) 0)
       in if exec_status \<noteq> 0 then Some ((exec_status, buf, None), s')
          else if length r \<noteq> unat chunk_size + 8 then Some ((1, buf, None), s')
          else if buf_size < unat bytes_read + unat chunk_size then Some ((-1, buf, None), s')
          else (case store_response (unat bytes_read) (byte_range 8 (unat chunk_size) response) buf of
                  None \<Rightarrow> None
                | Some buf' \<Rightarrow>
                    provisioning_log_read_loop dev buf_size log_size (bytes_read + chunk_size) buf' s')
     else Some ((0, buf, Some (unat bytes_read)), s))"
  by pat_completeness auto

text \<open>A chunk is not empty and does not go beyond the size it is taken from.\<close>

lemma min_u16_unat: "unat (min_u16 a b) = min (unat a) (unat b)"
  by (auto simp: min_u16_def word_less_nat_alt)

lemma log_chunk:
  fixes n r :: u16
  assumes "r < n"
  defines "c \<equiv> min_u16 (n - r) (word_of_nat PROVISIONING_LOG_CHUNK_MAX_SIZE)"
  shows "unat c = min (unat n - unat r) 1008" "0 < unat c" "unat (r + c) = unat r + unat c"
    "unat r + unat c \<le> unat n"
proof -
  have s: "unat (n - r) = unat n - unat r" using assms(1) by (intro unat_sub) simp
  show 1: "unat c = min (unat n - unat r) 1008"
    by (simp add: c_def min_u16_unat s provisioning_sizes)
  show 2: "0 < unat c" using 1 assms(1) by (simp add: word_less_nat_alt)
  show 3: "unat r + unat c \<le> unat n" using 1 assms(1) by (simp add: word_less_nat_alt)
  have "unat n < 65536" using unat_bound [of n] by simp
  then show "unat (r + c) = unat r + unat c" using 3 by (simp add: unat_word_ariths)
qed

lemma log_chunk_measure:
  "r < n \<Longrightarrow>
    unat n - unat (r + min_u16 (n - r) (word_of_nat PROVISIONING_LOG_CHUNK_MAX_SIZE)) < unat n - unat r"
  using log_chunk [of r n] by linarith

termination provisioning_log_read_loop
proof (relation "measure (\<lambda>(dev, bs, n, r, buf, s). unat n - unat r)", goal_cases)
  case 1
  then show ?case by simp
next
  case (2 dev bs n r buf s c req p s' er st w response buf')
  then show ?case by (auto simp: log_chunk_measure)
qed

declare provisioning_log_read_loop.simps [simp del]

definition libhoth_provisioning_log_read ::
  "'s libhoth_device option \<Rightarrow> bytes \<Rightarrow> nat \<Rightarrow> 's \<Rightarrow> ((int \<times> bytes \<times> nat option) \<times> 's) option" where
  "libhoth_provisioning_log_read dev buf buf_size s =
    (let ((exec_status, r), s') = exec_provisioning_log_cmd_legacy dev
           (provisioning_log_request PROVISIONING_LOG_READ 0 0 0) 8 s;
         prov_log_hdr_resp = memcpy_at 0 r (replicate 8 0)
     in if exec_status \<noteq> 0 then Some ((exec_status, buf, None), s')
        else provisioning_log_read_loop dev buf_size (u16_at 2 prov_log_hdr_resp) 0 buf s')"

section \<open>Validating, signing and committing\<close>

definition libhoth_provisioning_log_validate_and_sign ::
  "'s libhoth_device option \<Rightarrow> bytes \<Rightarrow> bytes \<Rightarrow> nat \<Rightarrow> 's \<Rightarrow> (int \<times> bytes \<times> nat option) \<times> 's" where
  "libhoth_provisioning_log_validate_and_sign dev blob cert cert_capacity s =
    (let checksum = libhoth_provisioning_crc32 0 blob;
         ((exec_status, r), s') = exec_provisioning_log_cmd_legacy dev
           (provisioning_log_request PROVISIONING_LOG_VALIDATE_AND_SIGN 0 (word_of_nat (length blob)) checksum)
           cert_capacity s;
         cert' = memcpy_at 0 r cert
     in if exec_status \<noteq> 0 then ((exec_status, cert', None), s')
        else if cert_capacity < length r then ((-1, cert', None), s')
        else ((0, cert', Some (length r)), s'))"

definition libhoth_provisioning_log_commit ::
  "'s libhoth_device option \<Rightarrow> bytes \<Rightarrow> 's \<Rightarrow> (bytes, 's) hoth_result" where
  "libhoth_provisioning_log_commit dev data s =
    exec_provisioning_log_cmd dev
      (provisioning_log_request PROVISIONING_LOG_COMMIT 0 (word_of_nat (length data))
        (libhoth_provisioning_crc32 0 data)) 0 s"

section \<open>Writing the log\<close>

definition provisioning_log_write_chunk ::
  "'s libhoth_device option \<Rightarrow> u16 \<times> bytes \<Rightarrow> 's \<Rightarrow> (unit, 's) hoth_result" where
  "provisioning_log_write_chunk dev packet s =
    (case exec_provisioning_log_cmd dev
            (provisioning_log_request PROVISIONING_LOG_WRITE (fst packet) (word_of_nat (length (snd packet))) 0
             @ snd packet) 0 s of
       (Inl e, s') \<Rightarrow> (Inl e, s') | (Inr _, s') \<Rightarrow> (Inr (), s'))"

text \<open>The test \<open>bytes_written < size\<close> compares a \<open>uint16_t\<close> with a \<open>size_t\<close>.\<close>

definition log_write_chunk_size :: "nat \<Rightarrow> u16 \<Rightarrow> u16" where
  "log_write_chunk_size sz bytes_written =
    (let chunk_size = (word_of_nat (sz - unat bytes_written) :: u16)
     in if word_of_nat PROVISIONING_LOG_WRITE_CHUNK_MAX_SIZE < chunk_size
        then word_of_nat PROVISIONING_LOG_WRITE_CHUNK_MAX_SIZE else chunk_size)"

partial_function (option) provisioning_log_write_loop ::
  "(u16 \<times> bytes \<Rightarrow> 's \<Rightarrow> (unit, 's) hoth_result) \<Rightarrow> bytes \<Rightarrow> u16 \<Rightarrow> 's \<Rightarrow> (unit, 's) hoth_result option" where
  "provisioning_log_write_loop wr data bytes_written s =
    (if unat bytes_written < length data then
       (case wr (bytes_written, byte_range (unat bytes_written)
               (unat (log_write_chunk_size (length data) bytes_written)) data) s of
          (Inl e, s') \<Rightarrow> Some (Inl e, s')
        | (Inr _, s') \<Rightarrow> provisioning_log_write_loop wr data
            (bytes_written + log_write_chunk_size (length data) bytes_written) s')
     else Some (Inr (), s))"

definition libhoth_provisioning_log_write ::
  "'s libhoth_device option \<Rightarrow> bytes \<Rightarrow> 's \<Rightarrow> (unit, 's) hoth_result option" where
  "libhoth_provisioning_log_write dev data s =
    provisioning_log_write_loop (provisioning_log_write_chunk dev) data 0 s"

section \<open>Key provisioning\<close>

definition libhoth_key_provisioning_store_secrets ::
  "'s libhoth_device option \<Rightarrow> bytes \<Rightarrow> 's \<Rightarrow> (unit, 's) hoth_result" where
  "libhoth_key_provisioning_store_secrets dev secrets s =
    (if HOTH_KEY_PROVISIONING_MAX_SECRETS_SIZE < length secrets
     then (Inl (cmd_err LIBHOTH_ERR_INVALID_PARAMETER), s)
     else exec_key_provisioning_cmd dev
       (key_provisioning_header HOTH_KEY_PROVISIONING_STORE_SECRETS (word_of_nat (4 + length secrets)) @ secrets) s)"

definition load_key_chunk ::
  "'s libhoth_device option \<Rightarrow> u16 \<times> bytes \<Rightarrow> 's \<Rightarrow> (unit, 's) hoth_result" where
  "load_key_chunk dev packet =
    exec_key_provisioning_cmd dev
      (key_provisioning_header HOTH_KEY_PROVISIONING_LOAD_MLDSA_PUBLIC_KEY
         (word_of_nat (4 + 4 + length (snd packet)))
       @ le_bytes 2 (fst packet) @ le_bytes 2 (word_of_nat (length (snd packet)) :: u16) @ snd packet)"

text \<open>The loop of the key load; the size has been checked to be that of an ML-DSA-44 key.\<close>

definition load_key_chunk_size :: "u16 \<Rightarrow> u16" where
  "load_key_chunk_size offset =
    (let chunk_size = (word_of_nat (HOTH_KEY_PROVISIONING_MLDSA44_PUBLIC_KEY_BYTES - unat offset) :: u16)
     in if word_of_nat HOTH_KEY_PROVISIONING_LOAD_KEY_CHUNK_MAX_SIZE < chunk_size
        then word_of_nat HOTH_KEY_PROVISIONING_LOAD_KEY_CHUNK_MAX_SIZE else chunk_size)"

lemma load_key_chunk_bound:
  assumes "unat off < 1312"
  shows "unat (load_key_chunk_size off) = min 1008 (1312 - unat off)"
    and "unat (off + load_key_chunk_size off) = unat off + min 1008 (1312 - unat off)"
proof -
  show 1: "unat (load_key_chunk_size off) = min 1008 (1312 - unat off)"
    unfolding load_key_chunk_size_def Let_def using assms
    by (subst unat_cap) (simp_all add: provisioning_sizes)
  show "unat (off + load_key_chunk_size off) = unat off + min 1008 (1312 - unat off)"
    using assms by (simp add: unat_word_ariths 1)
qed

lemma load_key_measure:
  "unat off < 1312 \<Longrightarrow> 1312 - unat (off + load_key_chunk_size off) < 1312 - unat off"
  using load_key_chunk_bound [of off] by linarith

function load_key_loop ::
  "(u16 \<times> bytes \<Rightarrow> 's \<Rightarrow> (unit, 's) hoth_result) \<Rightarrow> bytes \<Rightarrow> u16 \<Rightarrow> 's \<Rightarrow> (unit, 's) hoth_result" where
  "load_key_loop send key offset s =
    (if unat offset < HOTH_KEY_PROVISIONING_MLDSA44_PUBLIC_KEY_BYTES then
       (case send (offset, byte_range (unat offset) (unat (load_key_chunk_size offset)) key) s of
          (Inl e, s') \<Rightarrow> (Inl e, s')
        | (Inr _, s') \<Rightarrow> load_key_loop send key (offset + load_key_chunk_size offset) s')
     else (Inr (), s))"
  by pat_completeness auto
termination
  by (relation "measure (\<lambda>(send, key, off, s). 1312 - unat off)")
    (auto simp: HOTH_KEY_PROVISIONING_MLDSA44_PUBLIC_KEY_BYTES_def load_key_measure)

declare load_key_loop.simps [simp del]

definition libhoth_key_provisioning_load_mldsa_key ::
  "'s libhoth_device option \<Rightarrow> bytes \<Rightarrow> 's \<Rightarrow> (unit, 's) hoth_result" where
  "libhoth_key_provisioning_load_mldsa_key dev key s =
    (if length key \<noteq> HOTH_KEY_PROVISIONING_MLDSA44_PUBLIC_KEY_BYTES
     then (Inl (cmd_err LIBHOTH_ERR_INVALID_PARAMETER), s)
     else load_key_loop (load_key_chunk dev) key 0 s)"

section \<open>The checksum detects burst errors\<close>

lemma crc_bit_xor: "crc_bit (a XOR b) = crc_bit a XOR crc_bit b"
proof -
  have d: "(a XOR b) AND 1 = (a AND 1) XOR (b AND 1)" by (rule bit.conj_xor_distrib2)
  have one: "x AND 1 = 0 \<or> x AND 1 = 1" for x :: u32
    by (simp add: and_one_eq mod2_eq_if)
  from one [of a] one [of b] show ?thesis
    by (elim disjE) (simp_all add: crc_bit_def d bit.xor_left_self xor.assoc xor.commute xor.left_commute)
qed

lemma crc_bits_xor: "(crc_bit ^^ n) (a XOR b) = (crc_bit ^^ n) a XOR (crc_bit ^^ n) b"
  by (induction n) (simp_all add: crc_bit_xor)

lemma xor_zero: "a XOR b = 0 \<Longrightarrow> a = (b :: u32)"
  using bit.xor_left_self [of a b] by simp

lemma crc_bit_zero: "crc_bit z = 0 \<Longrightarrow> z = 0"
proof -
  assume 0: "crc_bit z = 0"
  have d: "unat (drop_bit 1 z) = unat z div 2" by (simp only: unat_drop_bit_div power_one_right)
  have b: "unat z < 2 ^ 32" using unat_bound [of z] by simp
  show "z = 0"
  proof (cases "z AND 1 = 0")
    case True
    then have "unat z div 2 = 0" using 0 d by (simp add: crc_bit_def)
    moreover have "z mod 2 = 0" using True by (simp only: and_one_eq)
    then have "unat z mod 2 = 0" using unat_mod [of z 2] by simp
    ultimately have "unat z = 0" using div_mult_mod_eq [of "unat z" 2] by simp
    then show ?thesis by (simp add: unat_eq_0)
  next
    case False
    then have "drop_bit 1 z XOR 0xEDB88320 = 0"
      using 0 by (simp only: crc_bit_def not_False_eq_True if_True simp_thms)
    then have "drop_bit 1 z = 0xEDB88320" by (rule xor_zero)
    then have "unat z div 2 = 0xEDB88320" using d by simp
    then show ?thesis using b by simp
  qed
qed

lemma crc_bits_zero: "(crc_bit ^^ n) z = 0 \<Longrightarrow> z = 0"
  by (induction n) (auto dest: crc_bit_zero)

lemma crc_bits_inj: "(crc_bit ^^ n) a = (crc_bit ^^ n) b \<Longrightarrow> a = b"
proof -
  assume "(crc_bit ^^ n) a = (crc_bit ^^ n) b"
  then have "(crc_bit ^^ n) (a XOR b) = 0" by (simp add: crc_bits_xor)
  then have "a XOR b = 0" by (rule crc_bits_zero)
  then show "a = b" by (rule xor_zero)
qed

lemma crc_state_inj: "foldl crc_byte c xs = foldl crc_byte c' xs \<Longrightarrow> c = c'"
proof (induction xs arbitrary: c c')
  case Nil
  then show ?case by simp
next
  case (Cons b xs)
  then have "crc_byte c b = crc_byte c' b" by simp
  then have "c XOR ucast b = c' XOR ucast b" unfolding crc_byte_def by (rule crc_bits_inj)
  then show ?case by (metis bit.xor_left_self xor.commute)
qed

lemma crc_bits_push: "2 ^ n * unat w < 2 ^ 32 \<Longrightarrow> (crc_bit ^^ n) (push_bit n w) = w"
proof (induction n arbitrary: w)
  case 0
  then show ?case by simp
next
  case (Suc n)
  let ?v = "push_bit n w"
  have "?v = word_of_nat (2 ^ n * unat w)" by (simp add: push_bit_eq_mult)
  then have v: "unat ?v = 2 ^ n * unat w" using Suc.prems by (simp only: unat_of_nat) (simp add: mult.commute)
  have 2: "unat (push_bit 1 ?v) = 2 * unat ?v"
    using Suc.prems v by (simp add: push_bit_eq_mult unat_word_ariths)
  have "unat (drop_bit 1 (push_bit 1 ?v)) = unat ?v"
    using 2 by (simp only: unat_drop_bit_div) simp
  then have "drop_bit 1 (push_bit 1 ?v) = ?v" by (simp only: word_unat_eq_iff)
  moreover have "push_bit 1 ?v AND 1 = 0" by (simp add: and_one_eq push_bit_eq_mult mod2_eq_if)
  ultimately have "crc_bit (push_bit 1 ?v) = ?v" by (simp add: crc_bit_def)
  moreover have "push_bit (Suc n) w = push_bit 1 ?v" by (simp add: push_bit_push_bit)
  moreover have "(crc_bit ^^ n) ?v = w" using Suc.prems by (intro Suc.IH) (simp add: mult.commute)
  ultimately show ?case by (simp only: funpow_Suc_right o_apply)
qed

lemma le_word_Cons_xor:
  "(le_word (b # xs) :: u32) = ucast b XOR push_bit 8 (le_word xs)"
proof -
  have "(ucast b :: u32) AND push_bit 8 (le_word xs) = 0"
    by (rule bit_eqI) (auto simp: bit_and_iff bit_push_bit_iff bit_ucast_iff dest: bit_imp_le_length)
  then have "(ucast b :: u32) XOR push_bit 8 (le_word xs) = ucast b + push_bit 8 (le_word xs)"
    by (simp add: disjunctive_add_eq_xor)
  then show ?thesis by (simp add: le_word_def push_bit_eq_mult)
qed

lemma crc_packed:
  "length xs \<le> 4 \<Longrightarrow> foldl crc_byte c xs = (crc_bit ^^ (8 * length xs)) (c XOR le_word xs)"
proof (induction xs arbitrary: c)
  case Nil
  then show ?case by (simp add: le_word_def)
next
  case (Cons b xs)
  have l: "unat (le_word xs :: u32) = le_nat xs"
    using Cons.prems by (intro unat_le_word) simp
  have "le_nat xs < 256 ^ length xs" by (rule le_nat_bound)
  also have "(256 :: nat) ^ length xs \<le> 256 ^ 3" using Cons.prems by (intro power_increasing) auto
  finally have "2 ^ 8 * unat (le_word xs :: u32) < 2 ^ 32" using l by simp
  then have p: "(crc_bit ^^ 8) (push_bit 8 (le_word xs)) = le_word xs" by (rule crc_bits_push)
  have "crc_byte c b XOR le_word xs = (crc_bit ^^ 8) ((c XOR ucast b) XOR push_bit 8 (le_word xs))"
    unfolding crc_bits_xor [of 8 "c XOR ucast b"] p by (simp only: crc_byte_def)
  also have "\<dots> = (crc_bit ^^ 8) (c XOR le_word (b # xs))"
    by (simp only: le_word_Cons_xor xor.assoc)
  finally have e: "crc_byte c b XOR le_word xs = (crc_bit ^^ 8) (c XOR le_word (b # xs))" .
  have "foldl crc_byte c (b # xs) = (crc_bit ^^ (8 * length xs)) (crc_byte c b XOR le_word xs)"
    using Cons by simp
  also have "\<dots> = (crc_bit ^^ (8 * length xs + 8)) (c XOR le_word (b # xs))"
    by (simp only: e funpow_add o_apply)
  finally show ?case by (simp add: add.commute)
qed

text \<open>
  C35: two blobs of equal length that differ only within four consecutive bytes have different
  checksums, whatever precedes and follows them; and the checksum of a blob can be computed in
  parts.
\<close>

theorem crc32_detects_burst:
  assumes "length x = length y" and "length x \<le> 4" and "x \<noteq> y"
  shows "libhoth_provisioning_crc32 init (pre @ x @ post) \<noteq> libhoth_provisioning_crc32 init (pre @ y @ post) \<and>
    libhoth_provisioning_crc32 init (pre @ post) =
      libhoth_provisioning_crc32 (libhoth_provisioning_crc32 init pre) post"
proof
  let ?c = "foldl crc_byte (NOT init) pre"
  show "libhoth_provisioning_crc32 init (pre @ x @ post) \<noteq> libhoth_provisioning_crc32 init (pre @ y @ post)"
  proof
    assume "libhoth_provisioning_crc32 init (pre @ x @ post) = libhoth_provisioning_crc32 init (pre @ y @ post)"
    then have "foldl crc_byte (foldl crc_byte ?c x) post = foldl crc_byte (foldl crc_byte ?c y) post"
      by (simp add: libhoth_provisioning_crc32_def)
    then have "foldl crc_byte ?c x = foldl crc_byte ?c y" by (rule crc_state_inj)
    then have "?c XOR le_word x = ?c XOR le_word y"
      using assms(1,2) crc_packed [of x ?c] crc_packed [of y ?c] by (auto dest: crc_bits_inj)
    then have w: "(le_word x :: u32) = le_word y" by (metis bit.xor_left_self)
    have "x = le_bytes (length x) (le_word x :: u32)"
      by (rule le_bytes_le_word [symmetric]) (use assms(2) in simp_all)
    also have "\<dots> = y"
      unfolding w by (rule le_bytes_le_word) (use assms(1,2) in simp_all)
    finally show False using assms(3) by simp
  qed
qed (simp add: libhoth_provisioning_crc32_def)

theorem crc32_detects_burst_witness:
  "libhoth_provisioning_crc32 0 ([1, 2] @ [7, 7] @ [3]) \<noteq> libhoth_provisioning_crc32 0 ([1, 2] @ [7, 8] @ [3])"
  using crc32_detects_burst [of "[7, 7]" "[7, 8]" 0 "[1, 2]" "[3]"] by simp

section \<open>What is written\<close>

text \<open>Below 64 KiB the write loop, and always the key load loop, are chunk loops.\<close>

lemma log_write_chunk:
  assumes "off < sz" "sz < 65536"
  shows "unat (log_write_chunk_size sz (word_of_nat off)) = min 1004 (sz - off)"
    and "word_of_nat off + log_write_chunk_size sz (word_of_nat off) = word_of_nat (off + min 1004 (sz - off))"
proof -
  have o: "unat (word_of_nat off :: u16) = off" using assms by (simp add: unat_of_nat)
  show 1: "unat (log_write_chunk_size sz (word_of_nat off)) = min 1004 (sz - off)"
    unfolding log_write_chunk_size_def Let_def o using assms
    by (subst unat_cap) (simp_all add: provisioning_sizes)
  show "word_of_nat off + log_write_chunk_size sz (word_of_nat off) = word_of_nat (off + min 1004 (sz - off))"
    unfolding of_nat_add 1 [symmetric] by simp
qed

interpretation log_write: chunk_loop 1004 "take 65535 data" "\<lambda>(o', p). wr (word_of_nat o', p)" Some
    "\<lambda>off. provisioning_log_write_loop wr (take 65535 data) (word_of_nat off)" for wr data
proof
  let ?d = "take 65535 data"
  show "(0 :: nat) < 1004" by simp
  show "provisioning_log_write_loop wr ?d (word_of_nat off) s = Some (Inr (), s)"
    if "off = length ?d" for off s
    using that by (subst provisioning_log_write_loop.simps) (simp add: unat_of_nat)
  show "provisioning_log_write_loop wr ?d (word_of_nat off) s =
      (case (case (off, byte_range off k ?d) of (o', p) \<Rightarrow> wr (word_of_nat o', p)) s of
         (Inl e, s') \<Rightarrow> Some (Inl e, s')
       | (Inr _, s') \<Rightarrow> provisioning_log_write_loop wr ?d (word_of_nat (off + k)) s')"
    if "off < length ?d" "k = min 1004 (length ?d - off)" for off k s
  proof -
    have o: "unat (word_of_nat off :: u16) = off" using that(1) by (simp add: unat_of_nat)
    have b: "length ?d < 65536" by simp
    show ?thesis
      using that(1) unfolding prod.case
      by (subst provisioning_log_write_loop.simps,
          unfold o log_write_chunk [OF that(1) b] that(2) [symmetric]) (simp only: if_True)
  qed
qed

interpretation key_load: chunk_loop 1008 "take 1312 (key @ replicate 1312 0)" "\<lambda>(o', p). send (word_of_nat o', p)" id
    "\<lambda>off. load_key_loop send (take 1312 (key @ replicate 1312 0)) (word_of_nat off)" for send key
proof
  let ?d = "take 1312 (key @ replicate 1312 0)"
  show "(0 :: nat) < 1008" by simp
  show "load_key_loop send ?d (word_of_nat off) s = id (Inr (), s)" if "off = length ?d" for off s
  proof -
    have "off = 1312" using that by simp
    then show ?thesis by (subst load_key_loop.simps) (simp add: provisioning_sizes)
  qed
  show "load_key_loop send ?d (word_of_nat off) s =
      (case (case (off, byte_range off k ?d) of (o', p) \<Rightarrow> send (word_of_nat o', p)) s of
         (Inl e, s') \<Rightarrow> id (Inl e, s')
       | (Inr _, s') \<Rightarrow> load_key_loop send ?d (word_of_nat (off + k)) s')"
    if "off < length ?d" "k = min 1008 (length ?d - off)" for off k s
  proof -
    have ld: "length ?d = 1312" by simp
    have l: "off < 1312" and k: "k = min 1008 (1312 - off)" using that unfolding ld by auto
    have o: "unat (word_of_nat off :: u16) = off" using l by (simp add: unat_of_nat)
    have c: "unat (load_key_chunk_size (word_of_nat off)) = k"
      using load_key_chunk_bound(1) [of "word_of_nat off"] l by (simp only: o k)
    have a: "word_of_nat off + load_key_chunk_size (word_of_nat off) = word_of_nat (off + k)"
      unfolding of_nat_add c [symmetric] by simp
    show ?thesis
      using l unfolding prod.case id_apply
      by (subst load_key_loop.simps, unfold o c a) (simp only: provisioning_sizes if_True)
  qed
qed

text \<open>
  Writing a provisioning log of less than 64 KiB returns; it performs the requests of the
  packets that make up the log, each fitting the mailbox and sent at its own offset, in order and
  up to the first error.
\<close>

theorem provisioning_log_write_packets:
  assumes "length data < 65536"
  shows "\<exists>ps. concat (map snd ps) = data \<and>
    (\<forall>(off, p) \<in> set ps. 0 < length p \<and> sizeof_request + 12 + length p \<le> LIBHOTH_MAILBOX_SIZE \<and>
      byte_range (unat off) (length p) data = p) \<and>
    libhoth_provisioning_log_write dev data s = Some (run_requests (provisioning_log_write_chunk dev) ps s)"
proof (intro exI conjI)
  show "concat (map snd (packets 1004 data)) = data" by (simp add: packets_concat)
  show "\<forall>(off, p) \<in> set (packets 1004 data). 0 < length p \<and>
      sizeof_request + 12 + length p \<le> LIBHOTH_MAILBOX_SIZE \<and> byte_range (unat off) (length p) data = p"
    using packets_in_range [of _ _ 1004 data] assms by (fastforce simp: LIBHOTH_MAILBOX_SIZE_def)
  show "libhoth_provisioning_log_write dev data s =
      Some (run_requests (provisioning_log_write_chunk dev) (packets 1004 data) s)"
    using log_write.loop_requests [of 0 data "provisioning_log_write_chunk dev" s] assms
    by (simp add: libhoth_provisioning_log_write_def packets_def run_requests_map case_prod_unfold)
qed

theorem provisioning_log_write_packets_witness:
  "libhoth_provisioning_log_write (None :: unit libhoth_device option) (replicate 3000 7) () \<noteq> None"
proof -
  have "length (replicate 3000 7 :: bytes) < 65536" by simp
  from provisioning_log_write_packets [OF this, of "None :: unit libhoth_device option" "()"]
  obtain ps where "libhoth_provisioning_log_write (None :: unit libhoth_device option) (replicate 3000 7) () =
    Some (run_requests (provisioning_log_write_chunk None) ps ())" by blast
  then show ?thesis by (simp only: option.distinct not_False_eq_True)
qed

text \<open>
  A log of 64 KiB or more is never written completely and the function never returns, on a
  device that accepts every chunk: the 16-bit count cannot reach the size.
\<close>

theorem provisioning_log_write_diverges:
  assumes "65536 \<le> length data"
    and "\<And>p w. \<exists>w'. h (HOTH_CMD_BOARD_SPECIFIC_BASE + HOTH_PRV_CMD_HOTH_PROVISIONING_LOG) 0 p w = ((0, []), w')"
  shows "libhoth_provisioning_log_write (Some (rot_device h)) data s = None"
proof -
  let ?wr = "provisioning_log_write_chunk (Some (rot_device h))"
  have acc: "\<exists>t'. ?wr (off, p) t = (Inr (), t')" if "length p \<le> 1004" for off p t
  proof -
    let ?req = "provisioning_log_request PROVISIONING_LOG_WRITE off (word_of_nat (length p)) 0 @ p"
    obtain w' where "h (HOTH_CMD_BOARD_SPECIFIC_BASE + HOTH_PRV_CMD_HOTH_PROVISIONING_LOG) 0 ?req (fst t) =
        ((0, []), w')" using assms(2) by blast
    then show ?thesis
      using that by (simp add: provisioning_log_write_chunk_def exec_provisioning_log_cmd_def
          hostcmd_rot_simple rpc_ok)
  qed
  have never: "wr = ?wr \<longrightarrow> d = data \<longrightarrow> False"
    if "provisioning_log_write_loop wr d n t = Some y" for wr d n t y
    using that
  proof (induction rule: provisioning_log_write_loop.raw_induct [rotated, consumes 1, case_names step])
    case (step f wr d n t y)
    show ?case
    proof (intro impI)
      assume eq: "wr = ?wr" "d = data"
      let ?k = "log_write_chunk_size (length data) n"
      have n: "unat n < length data" using assms(1) unat_bound [of n] by simp
      have "unat ?k \<le> 1004"
        by (auto simp: log_write_chunk_size_def Let_def provisioning_sizes word_less_nat_alt)
      then have "length (byte_range (unat n) (unat ?k) data) \<le> 1004" by (simp add: byte_range_def)
      then obtain t' where "?wr (n, byte_range (unat n) (unat ?k) data) t = (Inr (), t')" using acc by blast
      then have "f wr d (n + ?k) t' = Some y" using step(2) n eq by simp
      then show False using step(1) eq by blast
    qed
  qed
  then show ?thesis
    unfolding libhoth_provisioning_log_write_def by (metis not_Some_eq)
qed

theorem provisioning_log_write_diverges_witness:
  "libhoth_provisioning_log_write (Some (rot_device (\<lambda>c v p (w :: unit). ((0, []), w)))) (replicate 65536 7) ((), []) = None"
  by (rule provisioning_log_write_diverges) simp_all

section \<open>What is read\<close>

lemma provisioning_log_read_loop_safe:
  assumes "length buf = buf_size" and "r \<le> n" and "unat r \<le> buf_size"
  shows "\<exists>st buf' out s'. provisioning_log_read_loop dev buf_size n r buf s = Some ((st, buf', out), s') \<and>
    length buf' = buf_size \<and> take (unat r) buf' = take (unat r) buf \<and>
    (case out of None \<Rightarrow> st \<noteq> 0 | Some k \<Rightarrow> st = 0 \<and> k = unat n \<and> k \<le> buf_size \<and> drop k buf' = drop k buf)"
  using assms
proof (induction dev buf_size n r buf s rule: provisioning_log_read_loop.induct)
  case (1 dev buf_size n r buf s)
  show ?case
  proof (cases "r < n")
    case False
    then have "r = n" using "1.prems"(2) by simp
    then show ?thesis using "1.prems"(1,3) by (simp add: provisioning_log_read_loop.simps [of _ _ n n])
  next
    case True
    let ?c = "min_u16 (n - r) (word_of_nat PROVISIONING_LOG_CHUNK_MAX_SIZE)"
    let ?x = "exec_provisioning_log_cmd_legacy dev (provisioning_log_request PROVISIONING_LOG_READ r ?c 0)
      (8 + PROVISIONING_LOG_CHUNK_MAX_SIZE) s"
    obtain st0 p s' where x: "?x = ((st0, p), s')" by (metis surj_pair)
    let ?d = "byte_range 8 (unat ?c) (memcpy_at 0 p (replicate (8 + PROVISIONING_LOG_CHUNK_MAX_SIZE) 0))"
    show ?thesis
    proof (cases "st0 \<noteq> 0 \<or> length p \<noteq> unat ?c + 8 \<or> buf_size < unat r + unat ?c")
      case bad: True
      then show ?thesis
        using True "1.prems"(1) x by (subst (1) provisioning_log_read_loop.simps) (auto simp: Let_def)
    next
      case ok: False
      have ld: "length ?d = unat ?c"
        using ok by (simp add: memcpy_at_def byte_range_def)
      let ?b = "memcpy_at (unat r) ?d buf"
      have st: "store_response (unat r) ?d buf = Some ?b"
        using ok ld "1.prems"(1) by (simp add: store_response_def)
      have step: "provisioning_log_read_loop dev buf_size n r buf s =
          provisioning_log_read_loop dev buf_size n (r + ?c) ?b s'"
        using True ok x st by (subst provisioning_log_read_loop.simps) (simp add: Let_def)
      have rc: "unat (r + ?c) = unat r + unat ?c" "r + ?c \<le> n"
        using log_chunk [OF True] by (simp_all add: word_le_nat_alt)
      have lb: "length ?b = buf_size" using ok ld "1.prems"(1) by simp
      have "\<exists>st buf' out s''. provisioning_log_read_loop dev buf_size n (r + ?c) ?b s' = Some ((st, buf', out), s'') \<and>
          length buf' = buf_size \<and> take (unat (r + ?c)) buf' = take (unat (r + ?c)) ?b \<and>
          (case out of None \<Rightarrow> st \<noteq> 0 | Some k \<Rightarrow> st = 0 \<and> k = unat n \<and> k \<le> buf_size \<and> drop k buf' = drop k ?b)"
        using ok st rc(1) by (intro "1.IH" [OF True refl refl x [symmetric] refl refl] lb rc(2)) simp_all
      then obtain st2 buf' out s'' where res: "provisioning_log_read_loop dev buf_size n (r + ?c) ?b s' =
            Some ((st2, buf', out), s'')"
        and l: "length buf' = buf_size" and t: "take (unat (r + ?c)) buf' = take (unat (r + ?c)) ?b"
        and o: "case out of None \<Rightarrow> st2 \<noteq> 0 | Some k \<Rightarrow> st2 = 0 \<and> k = unat n \<and> k \<le> buf_size \<and> drop k buf' = drop k ?b"
        by blast
      have "take (unat r) buf' = take (unat r) (take (unat (r + ?c)) buf')" by (simp add: rc(1))
      also have "\<dots> = take (unat r) buf" using t ok "1.prems"(1) by (simp add: rc(1) min_def)
      finally have t': "take (unat r) buf' = take (unat r) buf" .
      have "drop (unat n) ?b = drop (unat n) buf"
        using ok ld "1.prems"(1) log_chunk(4) [OF True]
        by (simp add: memcpy_at_def)
      then show ?thesis using res l t' o unfolding step by (auto split: option.splits)
    qed
  qed
qed

text \<open>
  C28: reading the log from any device returns, never writes outside the caller's buffer, leaves
  its size and the part behind the log alone, and reports at most as many bytes as it holds.
\<close>

theorem provisioning_log_read_safe:
  assumes "length buf = buf_size"
  shows "\<exists>status buf' out s'. libhoth_provisioning_log_read dev buf buf_size s = Some ((status, buf', out), s') \<and>
    length buf' = buf_size \<and>
    (case out of None \<Rightarrow> status \<noteq> 0 | Some k \<Rightarrow> status = 0 \<and> k \<le> buf_size \<and> drop k buf' = drop k buf)"
proof -
  obtain st0 p s' where x: "exec_provisioning_log_cmd_legacy dev
      (provisioning_log_request PROVISIONING_LOG_READ 0 0 0) 8 s = ((st0, p), s')" by (metis surj_pair)
  show ?thesis
  proof (cases "st0 = 0")
    case False
    then show ?thesis using assms x by (simp add: libhoth_provisioning_log_read_def)
  next
    case True
    let ?n = "u16_at 2 (memcpy_at 0 p (replicate 8 0))"
    have "libhoth_provisioning_log_read dev buf buf_size s =
        provisioning_log_read_loop dev buf_size ?n 0 buf s'"
      using True x by (simp add: libhoth_provisioning_log_read_def)
    moreover from provisioning_log_read_loop_safe [OF assms, of 0 ?n dev s'] obtain st buf' out s'' where
      "provisioning_log_read_loop dev buf_size ?n 0 buf s' = Some ((st, buf', out), s'')"
      "length buf' = buf_size"
      "case out of None \<Rightarrow> st \<noteq> 0
       | Some k \<Rightarrow> st = 0 \<and> k = unat ?n \<and> k \<le> buf_size \<and> drop k buf' = drop k buf" by auto
    ultimately show ?thesis by (auto split: option.splits)
  qed
qed

theorem provisioning_log_read_safe_witness:
  "\<exists>status buf' out s'. libhoth_provisioning_log_read (None :: unit libhoth_device option) [1, 2, 3] 3 () =
    Some ((status, buf', out), s') \<and> length buf' = 3"
  using provisioning_log_read_safe [of "[1, 2, 3]" 3 "None :: unit libhoth_device option" "()"]
  by fastforce

text \<open>A firmware that answers READ requests from a stored log.\<close>

definition log_response :: "bytes \<Rightarrow> bytes \<Rightarrow> bytes" where
  "log_response log data = [1, 0] @ le_bytes 2 (word_of_nat (length log) :: u16)
     @ le_bytes 4 (libhoth_provisioning_crc32 0 log) @ data"

definition log_firmware :: "'w rot_handler \<Rightarrow> bytes \<Rightarrow> bool" where
  "log_firmware h log \<longleftrightarrow>
    (\<forall>off sz w. unat off + unat sz \<le> length log \<longrightarrow>
      h (HOTH_CMD_BOARD_SPECIFIC_BASE + HOTH_PRV_CMD_HOTH_PROVISIONING_LOG) 0
          (provisioning_log_request PROVISIONING_LOG_READ off sz 0) w =
        ((0, log_response log (byte_range (unat off) (unat sz) log)), w))"

lemma log_response [simp]:
  "length (log_response log data) = 8 + length data"
  "drop 8 (log_response log data) = data"
  "u16_at 2 (log_response log data) = word_of_nat (length log)"
  by (simp_all add: log_response_def field_defs)

lemma log_firmware_exec:
  assumes "log_firmware h log" and "unat off + unat sz \<le> length log" and "8 + unat sz \<le> n" "n \<le> 1016"
  shows "\<exists>q'. exec_provisioning_log_cmd_legacy (Some (rot_device h))
      (provisioning_log_request PROVISIONING_LOG_READ off sz 0) n (w, q) =
    ((0, log_response log (byte_range (unat off) (unat sz) log)), (w, q'))"
proof -
  let ?req = "provisioning_log_request PROVISIONING_LOG_READ off sz 0"
  have "h (HOTH_CMD_BOARD_SPECIFIC_BASE + HOTH_PRV_CMD_HOTH_PROVISIONING_LOG) 0 ?req w =
      ((0, log_response log (byte_range (unat off) (unat sz) log)), w)"
    using assms(1,2) by (simp add: log_firmware_def)
  then show ?thesis
    unfolding exec_provisioning_log_cmd_legacy_def libhoth_hostcmd_exec_def exec_v2_hostcmd hostcmd_rot
    using assms by (simp add: rpc_ok)
qed

lemma provisioning_log_read_loop_reads:
  assumes "log_firmware h log" and "length log < 65536"
    and "unat r \<le> length log" and "length log \<le> length buf"
  shows "\<exists>s'. provisioning_log_read_loop (Some (rot_device h)) (length buf) (word_of_nat (length log)) r buf (w, q) =
    Some ((0, memcpy_at (unat r) (drop (unat r) log) buf, Some (length log)), s')"
  using assms(3,4)
proof (induction "length log - unat r" arbitrary: r buf q rule: less_induct)
  case less
  let ?n = "word_of_nat (length log) :: u16"
  have n: "unat ?n = length log" using assms(2) by (simp add: unat_of_nat)
  show ?case
  proof (cases "r < ?n")
    case False
    then have "unat r = length log" using less.prems(1) n by (simp add: word_less_nat_alt)
    then show ?thesis
      using False by (subst provisioning_log_read_loop.simps) (simp add: memcpy_at_def)
  next
    case True
    define c where "c = min_u16 (?n - r) (word_of_nat PROVISIONING_LOG_CHUNK_MAX_SIZE)"
    have c: "unat c \<le> 1008" "0 < unat c" "unat (r + c) = unat r + unat c" "unat r + unat c \<le> length log"
      using log_chunk [OF True] n unfolding c_def [symmetric] by simp_all
    let ?d = "byte_range (unat r) (unat c) log"
    have ld: "length ?d = unat c" using c(4) by simp
    obtain q' where x: "exec_provisioning_log_cmd_legacy (Some (rot_device h))
        (provisioning_log_request PROVISIONING_LOG_READ r c 0) (8 + PROVISIONING_LOG_CHUNK_MAX_SIZE) (w, q) =
        ((0, log_response log ?d), (w, q'))"
      using log_firmware_exec [OF assms(1) c(4), of "8 + PROVISIONING_LOG_CHUNK_MAX_SIZE" w q] c(1)
      by (auto simp: provisioning_sizes)
    have d: "byte_range 8 (unat c) (memcpy_at 0 (log_response log ?d)
        (replicate (8 + PROVISIONING_LOG_CHUNK_MAX_SIZE) 0)) = ?d"
      using ld by (simp add: memcpy_at_def byte_range_def)
    let ?b = "memcpy_at (unat r) ?d buf"
    have st: "store_response (unat r) ?d buf = Some ?b"
      using ld c(4) less.prems(2) by (simp add: store_response_def)
    have lb: "length ?b = length buf" using ld c(4) less.prems(2) by simp
    have step: "provisioning_log_read_loop (Some (rot_device h)) (length buf) ?n r buf (w, q) =
        provisioning_log_read_loop (Some (rot_device h)) (length buf) ?n (r + c) ?b (w, q')"
      using True x d st ld c(4) less.prems(2)
      by (subst provisioning_log_read_loop.simps, unfold c_def [symmetric]) (simp add: Let_def)
    have "length log - unat (r + c) < length log - unat r" using c by simp
    then obtain s' where IH: "provisioning_log_read_loop (Some (rot_device h)) (length buf) ?n (r + c) ?b (w, q') =
        Some ((0, memcpy_at (unat (r + c)) (drop (unat (r + c)) log) ?b, Some (length log)), s')"
      using less.hyps [of "r + c" ?b q'] c(3,4) lb less.prems(2) by auto
    have "?d @ drop (unat r + unat c) log = drop (unat r) log"
      by (simp add: byte_range_def add.commute flip: drop_drop)
    then have "memcpy_at (unat r + unat c) (drop (unat r + unat c) log) ?b = memcpy_at (unat r) (drop (unat r) log) buf"
      using ld c(4) less.prems(2) by (auto simp: memcpy_at_def add.commute dest: sym)
    then show ?thesis using step IH c(3) by simp
  qed
qed

text \<open>
  C31: reading the log from a firmware that answers from its stored log, of less than 65536 bytes, puts
  exactly the log into a buffer that can hold it, leaves the rest of the buffer alone and reports the length.
\<close>

theorem provisioning_log_read_log:
  assumes "log_firmware h log" and "length log < 65536" and "length log \<le> length buf"
  shows "\<exists>s'. libhoth_provisioning_log_read (Some (rot_device h)) buf (length buf) (w, q) =
    Some ((0, log @ drop (length log) buf, Some (length log)), s')"
proof -
  obtain q' where x: "exec_provisioning_log_cmd_legacy (Some (rot_device h))
      (provisioning_log_request PROVISIONING_LOG_READ 0 0 0) 8 (w, q) = ((0, log_response log []), (w, q'))"
    using log_firmware_exec [OF assms(1), of 0 0 8 w q] by (auto simp: byte_range_def)
  have "memcpy_at 0 (log_response log []) (replicate 8 0) = log_response log []"
    by (simp add: memcpy_at_def)
  then have "libhoth_provisioning_log_read (Some (rot_device h)) buf (length buf) (w, q) =
      provisioning_log_read_loop (Some (rot_device h)) (length buf) (word_of_nat (length log)) 0 buf (w, q')"
    using x by (simp add: libhoth_provisioning_log_read_def)
  then show ?thesis
    using provisioning_log_read_loop_reads [OF assms(1,2), of 0 buf w q'] assms(3)
    by (simp add: memcpy_at_def)
qed

definition log_device :: "bytes \<Rightarrow> unit rot_handler" where
  "log_device log c v p w = ((0, log_response log (byte_range (unat (u16_at 4 p)) (unat (u16_at 6 p)) log)), w)"

lemma log_device_conforms: "log_firmware (log_device log) log"
  by (simp add: log_firmware_def log_device_def provisioning_log_request_def field_defs)

theorem provisioning_log_read_log_witness:
  "\<exists>s'. libhoth_provisioning_log_read (Some (rot_device (log_device (replicate 1500 7)))) (replicate 2000 0) 2000 ((), []) =
    Some ((0, replicate 1500 7 @ replicate 500 0, Some 1500), s')"
  using provisioning_log_read_log [OF log_device_conforms, of "replicate 1500 7" "replicate 2000 0" "()" "[]"]
  by simp

end
