(* ===== verification/Ot_Version.thy ===== *)
theory Ot_Version
  imports Rot_Commands Hoth_Text "HOL-Library.Monad_Syntax"
begin

text \<open>
  \<open>protocol/opentitan_version.c\<close>: the version report of an OpenTitan root of trust, the versions
  in a firmware bundle, and the comparisons that decide whether a device is up to date. A read of
  the bundle outside the file is the outer option of \<open>libhoth_extract_ot_bundle\<close>.
\<close>

section \<open>Layout\<close>

definition HOTH_OPENTITAN_GET_VERSION :: u16 where "HOTH_OPENTITAN_GET_VERSION = 0x3300"

definition OPENTITAN_OFFSET_HEADER_DATA :: nat where "OPENTITAN_OFFSET_HEADER_DATA = 36"
definition OPENTITAN_OFFSET_APP_FW :: u32 where "OPENTITAN_OFFSET_APP_FW = 65536"
definition OPENTITAN_OFFSET_VERSION_MAJOR :: u32 where "OPENTITAN_OFFSET_VERSION_MAJOR = 836"
definition OPENTITAN_OFFSET_VERSION_MINOR :: u32 where "OPENTITAN_OFFSET_VERSION_MINOR = 840"
definition OPENTITAN_OFFSET_VERSION_SECURITY :: u32 where "OPENTITAN_OFFSET_VERSION_SECURITY = 844"

lemmas ot_offsets = OPENTITAN_OFFSET_HEADER_DATA_def OPENTITAN_OFFSET_APP_FW_def
  OPENTITAN_OFFSET_VERSION_MAJOR_def OPENTITAN_OFFSET_VERSION_MINOR_def OPENTITAN_OFFSET_VERSION_SECURITY_def

definition kOpentitanBootSlotA :: u32 where "kOpentitanBootSlotA = 0x5f5f4141"
definition kOpentitanBootSlotB :: u32 where "kOpentitanBootSlotB = 0x42425f5f"

record opentitan_image_version =
  major :: u32
  minor :: u32
  security_version :: u32
  ot_reserved :: "u32 list"
  timestamp :: u64
  measurement :: "u32 list"

text \<open>The two slots of the array \<open>slots\<close> are a pair of fields.\<close>

record opentitan_image_boot_info =
  slot0 :: opentitan_image_version
  slot1 :: opentitan_image_version
  booted_slot :: u32
  boot_reserved :: "u32 list"

record opentitan_owner_config_version =
  config_version :: u32
  config_reserved :: "u32 list"
  sha256 :: "u32 list"

record opentitan_get_version_resp =
  rom_ext :: opentitan_image_boot_info
  app :: opentitan_image_boot_info
  primary_bl0_slot :: u32
  bl0_min_sec_ver :: u32
  owner_config :: opentitan_owner_config_version

text \<open>An array of \<open>n\<close> words at an offset of a packed structure.\<close>

definition u32s_at :: "nat \<Rightarrow> nat \<Rightarrow> bytes \<Rightarrow> u32 list" where
  "u32s_at k n bs = map (\<lambda>i. u32_at (k + 4 * i) bs) [0..<n]"

definition image_version_at :: "nat \<Rightarrow> bytes \<Rightarrow> opentitan_image_version" where
  "image_version_at k bs =
    \<lparr>major = u32_at k bs, minor = u32_at (k + 4) bs, security_version = u32_at (k + 8) bs,
     ot_reserved = u32s_at (k + 12) 3 bs, timestamp = u64_at (k + 24) bs,
     measurement = u32s_at (k + 32) 8 bs\<rparr>"

definition boot_info_at :: "nat \<Rightarrow> bytes \<Rightarrow> opentitan_image_boot_info" where
  "boot_info_at k bs =
    \<lparr>slot0 = image_version_at k bs, slot1 = image_version_at (k + 64) bs, booted_slot = u32_at (k + 128) bs,
     boot_reserved = u32s_at (k + 132) 3 bs\<rparr>"

definition version_resp_of_bytes :: "bytes \<Rightarrow> opentitan_get_version_resp" where
  "version_resp_of_bytes bs =
    \<lparr>rom_ext = boot_info_at 0 bs, app = boot_info_at 144 bs, primary_bl0_slot = u32_at 288 bs,
     bl0_min_sec_ver = u32_at 292 bs, 
     owner_config = \<lparr>config_version = u32_at 296 bs, config_reserved = u32s_at 300 3 bs,
                     sha256 = u32s_at 312 8 bs\<rparr>\<rparr>"

definition sizeof_version_resp :: nat where "sizeof_version_resp = 344"

definition zero_version :: opentitan_image_version where
  "zero_version = \<lparr>major = 0, minor = 0, security_version = 0, ot_reserved = [0, 0, 0], timestamp = 0,
     measurement = replicate 8 0\<rparr>"

section \<open>The version command\<close>

definition libhoth_opentitan_version ::
  "'s libhoth_device option \<Rightarrow> 's \<Rightarrow> (opentitan_get_version_resp, 's) hoth_result" where
  "libhoth_opentitan_version dev s =
    (case hostcmd dev HOTH_OPENTITAN_GET_VERSION 0 (le_bytes 4 (0 :: u32)) sizeof_version_resp False s of
       (Inl e, s') \<Rightarrow> (Inl e, s')
     | (Inr r, s') \<Rightarrow> (Inr (version_resp_of_bytes r), s'))"

section \<open>The versions in a bundle\<close>

definition ot_magic :: bytes where
  "ot_magic = map of_char ''_OTFWUPDATE_''"

text \<open>\<open>smallest_fw\<close>: the application area and one version structure.\<close>

definition smallest_fw :: nat where
  "smallest_fw = unat OPENTITAN_OFFSET_APP_FW + 64"

text \<open>One field, at an offset that is computed on 32 bits.\<close>

definition bundle_field :: "bytes \<Rightarrow> u32 \<Rightarrow> u32 option" where
  "bundle_field img off = map_option le_word (read_at (unat off) 4 img)"

definition bundle_version :: "bytes \<Rightarrow> u32 \<Rightarrow> opentitan_image_version \<Rightarrow> opentitan_image_version option" where
  "bundle_version img offset v =
    do {
      maj \<leftarrow> bundle_field img (offset + OPENTITAN_OFFSET_VERSION_MAJOR);
      min \<leftarrow> bundle_field img (offset + OPENTITAN_OFFSET_VERSION_MINOR);
      sec \<leftarrow> bundle_field img (offset + OPENTITAN_OFFSET_VERSION_SECURITY);
      Some (v\<lparr>major := maj, minor := min, security_version := sec\<rparr>)
    }"

text \<open>
  The result is the return value and the two version structures, of which only three fields are
  written; an offset beyond the file is tested on the 32-bit sum, then that the sum did not wrap.
\<close>

definition libhoth_extract_ot_bundle ::
  "bytes option \<Rightarrow> opentitan_image_version \<Rightarrow> opentitan_image_version
    \<Rightarrow> (int \<times> opentitan_image_version \<times> opentitan_image_version) option" where
  "libhoth_extract_ot_bundle img rom_ext_v app_v =
    (case img of None \<Rightarrow> Some (-1, rom_ext_v, app_v)
     | Some img \<Rightarrow>
       if length img < smallest_fw then Some (-1, rom_ext_v, app_v)
       else
         do {
           magic \<leftarrow> read_at 0 (length ot_magic) img;
           if magic \<noteq> ot_magic then Some (-1, rom_ext_v, app_v)
           else
             do {
               offset \<leftarrow> map_option le_word (read_at OPENTITAN_OFFSET_HEADER_DATA 4 img);
               let limit = offset + OPENTITAN_OFFSET_APP_FW + OPENTITAN_OFFSET_VERSION_SECURITY + 4;
               if length img < unat limit then Some (-1, rom_ext_v, app_v)
               else if limit < offset then Some (-1, rom_ext_v, app_v)
               else
                 do {
                   rom_ext_v \<leftarrow> bundle_version img offset rom_ext_v;
                   app_v \<leftarrow> bundle_version img (offset + OPENTITAN_OFFSET_APP_FW) app_v;
                   Some (0, rom_ext_v, app_v)
                 }
             }
         })"

section \<open>Comparing versions\<close>

definition libhoth_ot_version_eq :: "opentitan_image_version \<Rightarrow> opentitan_image_version \<Rightarrow> bool" where
  "libhoth_ot_version_eq a b = (if major a = major b \<and> minor a = minor b then True else False)"

definition libhoth_ot_app_version_cmp_for_update ::
  "opentitan_image_version \<Rightarrow> opentitan_image_version \<Rightarrow> int" where
  "libhoth_ot_app_version_cmp_for_update a b =
    (if major a \<noteq> major b then (if major b < major a then 1 else -1)
     else if minor a \<noteq> minor b then (if minor b < minor a then 1 else -1)
     else 0)"

definition libhoth_ot_rom_ext_version_cmp_for_update ::
  "opentitan_image_version \<Rightarrow> opentitan_image_version \<Rightarrow> int" where
  "libhoth_ot_rom_ext_version_cmp_for_update a b =
    (if security_version a \<noteq> security_version b
     then (if security_version b < security_version a then 1 else -1)
     else if major a \<noteq> major b then (if major b < major a then 1 else -1)
     else if minor a \<noteq> minor b then (if minor b < minor a then 1 else -1)
     else 0)"

section \<open>Slots\<close>

definition bootslot_str :: "u32 \<Rightarrow> string" where
  "bootslot_str input =
    (if input = kOpentitanBootSlotA then ''A'' else if input = kOpentitanBootSlotB then ''B'' else ''Unknown'')"

definition bootslot_int :: "u32 \<Rightarrow> nat" where
  "bootslot_int input =
    (if input = kOpentitanBootSlotA then 0 else if input = kOpentitanBootSlotB then 1 else 0)"

definition slot_of :: "opentitan_image_boot_info \<Rightarrow> nat \<Rightarrow> opentitan_image_version" where
  "slot_of b i = (if i = 0 then slot0 b else slot1 b)"

definition libhoth_ot_boot_app :: "opentitan_get_version_resp \<Rightarrow> opentitan_image_version" where
  "libhoth_ot_boot_app resp = slot_of (app resp) (bootslot_int (booted_slot (app resp)))"

definition libhoth_ot_boot_romext :: "opentitan_get_version_resp \<Rightarrow> opentitan_image_version" where
  "libhoth_ot_boot_romext resp = slot_of (rom_ext resp) (bootslot_int (booted_slot (rom_ext resp)))"

definition libhoth_ot_staged_app :: "opentitan_get_version_resp \<Rightarrow> opentitan_image_version" where
  "libhoth_ot_staged_app resp =
    slot_of (app resp) (if bootslot_int (booted_slot (app resp)) = 0 then 1 else 0)"

definition libhoth_ot_staged_romext :: "opentitan_get_version_resp \<Rightarrow> opentitan_image_version" where
  "libhoth_ot_staged_romext resp =
    slot_of (rom_ext resp) (if bootslot_int (booted_slot (rom_ext resp)) = 0 then 1 else 0)"

section \<open>Is a device up to date\<close>

definition libhoth_ot_check_update_successful ::
  "opentitan_get_version_resp \<Rightarrow> opentitan_image_version \<Rightarrow> opentitan_image_version \<Rightarrow> bool" where
  "libhoth_ot_check_update_successful resp desired_romext desired_app \<longleftrightarrow>
    libhoth_ot_app_version_cmp_for_update (libhoth_ot_boot_app resp) desired_app = 0 \<and>
    0 \<le> libhoth_ot_rom_ext_version_cmp_for_update (libhoth_ot_boot_romext resp) desired_romext"

definition libhoth_ot_check_staged_slot_after_update ::
  "opentitan_get_version_resp \<Rightarrow> opentitan_image_version \<Rightarrow> opentitan_image_version \<Rightarrow> bool" where
  "libhoth_ot_check_staged_slot_after_update resp desired_romext desired_app \<longleftrightarrow>
    libhoth_ot_app_version_cmp_for_update (libhoth_ot_staged_app resp) desired_app = 0 \<and>
    libhoth_ot_rom_ext_version_cmp_for_update (libhoth_ot_staged_romext resp) desired_romext = 0"

definition libhoth_update_complete ::
  "opentitan_get_version_resp \<Rightarrow> opentitan_image_version \<Rightarrow> opentitan_image_version \<Rightarrow> libhoth_error" where
  "libhoth_update_complete resp desired_romext desired_app =
    (if libhoth_ot_app_version_cmp_for_update (libhoth_ot_boot_app resp) desired_app \<noteq> 0 \<or>
        libhoth_ot_app_version_cmp_for_update (libhoth_ot_staged_app resp) desired_app \<noteq> 0
     then cmd_err LIBHOTH_ERR_DFU_APP_MISMATCH
     else if libhoth_ot_rom_ext_version_cmp_for_update (libhoth_ot_boot_romext resp) desired_romext < 0 \<or>
        libhoth_ot_rom_ext_version_cmp_for_update (libhoth_ot_staged_romext resp) desired_romext \<noteq> 0
     then cmd_err LIBHOTH_ERR_DFU_ROMEXT_MISMATCH
     else HOTH_SUCCESS)"

section \<open>What is printed\<close>

text \<open>\<open>%d\<close> of an unsigned 32-bit field prints its signed value.\<close>

definition dec_u32 :: "u32 \<Rightarrow> string" where
  "dec_u32 w = dec_int (sint w)"

definition libhoth_print_ot_version :: "string \<Rightarrow> opentitan_image_version \<Rightarrow> string" where
  "libhoth_print_ot_version prefix ver =
    prefix @ '': '' @ dec_u32 (major ver) @ ''.'' @ dec_u32 (minor ver) @ '', sv='' @ dec_u32 (security_version ver)
    @ [CHR 0x22, CHR 0x0A, CHR 0x22] @ ''  measurement=''
    @ concat (map (\<lambda>m. ''[0x'' @ hex_padded hex_digits 8 (unat m) @ ''] '') (measurement ver))
    @ [CHR 0x22, CHR 0x0A, CHR 0x22]"

definition libhoth_print_ot_version_resp :: "opentitan_get_version_resp \<Rightarrow> string" where
  "libhoth_print_ot_version_resp ver =
    (let curr_romext = (if booted_slot (rom_ext ver) = kOpentitanBootSlotA then slot0 (rom_ext ver) else slot1 (rom_ext ver));
         curr_app = (if booted_slot (app ver) = kOpentitanBootSlotA then slot0 (app ver) else slot1 (app ver))
     in ''primary bl0 slot: '' @ bootslot_str (primary_bl0_slot ver) @ [CHR 0x22, CHR 0x0A, CHR 0x22] @ '' ''
        @ libhoth_print_ot_version ''ROM_EXT Slot A'' (slot0 (rom_ext ver))
        @ libhoth_print_ot_version ''ROM_EXT Slot B'' (slot1 (rom_ext ver))
        @ libhoth_print_ot_version ''App Slot A'' (slot0 (app ver))
        @ libhoth_print_ot_version ''App Slot B'' (slot1 (app ver))
        @ ''Booted out of: App=slot '' @ bootslot_str (booted_slot (app ver))
        @ '', ROMEXT=slot '' @ bootslot_str (booted_slot (rom_ext ver)) @ [CHR 0x22, CHR 0x0A, CHR 0x22] @ '' ''
        @ ''Currently running: '' @ dec_u32 (major curr_app) @ ''.'' @ dec_u32 (minor curr_app) @ ''/''
        @ dec_u32 (major curr_romext) @ ''.'' @ dec_u32 (minor curr_romext) @ [CHR 0x22, CHR 0x0A, CHR 0x22] @ '' '')"

section \<open>Reading a bundle is memory safe\<close>

text \<open>The position of the image header in a bundle, and when it is acceptable.\<close>

definition bundle_offset :: "bytes \<Rightarrow> nat" where
  "bundle_offset img = le_nat (byte_range OPENTITAN_OFFSET_HEADER_DATA 4 img)"

definition bundle_ok :: "bytes \<Rightarrow> bool" where
  "bundle_ok img \<longleftrightarrow> smallest_fw \<le> length img \<and> take 12 img = ot_magic \<and>
    bundle_offset img + 65536 + 844 + 4 \<le> length img \<and> bundle_offset img + 66384 < 2 ^ 32"

definition versions_from :: "bytes \<Rightarrow> nat \<Rightarrow> opentitan_image_version \<Rightarrow> opentitan_image_version" where
  "versions_from img off v =
    v\<lparr>major := u32_at (off + 836) img, minor := u32_at (off + 840) img, security_version := u32_at (off + 844) img\<rparr>"

lemma ot_magic_length [simp]: "length ot_magic = 12"
  by (simp add: ot_magic_def)

lemma bundle_version_inside:
  assumes "unat offset + 848 \<le> length img" "unat offset + 848 < 2 ^ 32"
  shows "bundle_version img offset v = Some (versions_from img (unat offset) v)"
  using assms
  by (simp add: bundle_version_def bundle_field_def ot_offsets versions_from_def u32_at_def unat_word_ariths)

text \<open>The two 32-bit tests reject exactly the offsets whose last field would end beyond the file.\<close>

lemma bundle_limit:
  fixes offset :: u32
  defines "limit \<equiv> offset + OPENTITAN_OFFSET_APP_FW + OPENTITAN_OFFSET_VERSION_SECURITY + 4"
  shows "(unat limit \<le> n \<and> offset \<le> limit) \<longleftrightarrow> (unat offset + 66384 \<le> n \<and> unat offset + 66384 < 2 ^ 32)"
proof -
  have l: "unat limit = (unat offset + 66384) mod 2 ^ 32"
    by (simp add: limit_def ot_offsets unat_word_ariths mod_simps add.assoc)
  have o: "unat offset < 2 ^ 32" using unat_bound [of offset] by simp
  show ?thesis
  proof (cases "unat offset + 66384 < 2 ^ 32")
    case True
    then show ?thesis using l by (simp add: word_le_nat_alt)
  next
    case False
    then have "unat limit = unat offset + 66384 - 2 ^ 32"
      using l o by (simp add: mod_if)
    then have "unat limit < unat offset" using False by simp
    then show ?thesis using False by (simp add: word_le_nat_alt)
  qed
qed

lemma extract_bundle:
  "libhoth_extract_ot_bundle (Some img) r a =
    Some (if bundle_ok img
          then (0, versions_from img (bundle_offset img) r, versions_from img (bundle_offset img + 65536) a)
          else (-1, r, a))"
proof (cases "smallest_fw \<le> length img \<and> take 12 img = ot_magic")
  case False
  then show ?thesis
    by (auto simp: libhoth_extract_ot_bundle_def bundle_ok_def read_at_def byte_range_def smallest_fw_def ot_offsets)
next
  case True
  define offset where "offset = (le_word (byte_range 36 4 img) :: u32)"
  have len: "65600 \<le> length img" using True by (simp add: smallest_fw_def ot_offsets)
  have uo: "unat offset = bundle_offset img"
    using len by (simp add: offset_def bundle_offset_def ot_offsets unat_le_word)
  let ?limit = "offset + OPENTITAN_OFFSET_APP_FW + OPENTITAN_OFFSET_VERSION_SECURITY + 4"
  have ex: "libhoth_extract_ot_bundle (Some img) r a =
      (if length img < unat ?limit then Some (-1, r, a)
       else if ?limit < offset then Some (-1, r, a)
       else do { r' \<leftarrow> bundle_version img offset r;
                 a' \<leftarrow> bundle_version img (offset + OPENTITAN_OFFSET_APP_FW) a; Some (0, r', a') })"
    using True len unfolding libhoth_extract_ot_bundle_def option.case Let_def
    by (simp add: read_at_def byte_range_def [of 0] OPENTITAN_OFFSET_HEADER_DATA_def flip: offset_def)
  show ?thesis
  proof (cases "bundle_ok img")
    case ok: True
    then have b: "bundle_offset img + 66384 \<le> length img" "bundle_offset img + 66384 < 2 ^ 32"
      by (simp_all add: bundle_ok_def)
    then have "unat ?limit \<le> length img \<and> offset \<le> ?limit" using bundle_limit [of offset] uo by simp
    moreover have "bundle_version img offset r = Some (versions_from img (bundle_offset img) r)"
      using b uo by (simp add: bundle_version_inside)
    moreover have "unat (offset + OPENTITAN_OFFSET_APP_FW) = bundle_offset img + 65536"
      using b uo by (simp add: ot_offsets unat_word_ariths)
    then have "bundle_version img (offset + OPENTITAN_OFFSET_APP_FW) a =
        Some (versions_from img (bundle_offset img + 65536) a)"
      using b by (subst bundle_version_inside) simp_all
    ultimately show ?thesis using ok unfolding ex by (simp add: not_less)
  next
    case bad: False
    then have "\<not> (unat ?limit \<le> length img \<and> offset \<le> ?limit)"
      using bundle_limit [of offset "length img"] uo True by (auto simp: bundle_ok_def)
    then show ?thesis using bad unfolding ex by (auto simp: not_le)
  qed
qed

text \<open>
  C25: extracting the versions never reads outside the file, whatever its contents; it succeeds
  exactly on the files that are large enough, carry the magic string and whose header offset
  leaves room for both images' version fields, and then returns those fields.
\<close>

theorem extract_ot_bundle_safe:
  "libhoth_extract_ot_bundle (Some img) r a =
    Some (if bundle_ok img
          then (0, versions_from img (bundle_offset img) r, versions_from img (bundle_offset img + 65536) a)
          else (-1, r, a))"
  by (rule extract_bundle)

section \<open>The order of versions\<close>

definition app_key :: "opentitan_image_version \<Rightarrow> int" where
  "app_key v = uint (major v) * 2 ^ 32 + uint (minor v)"

definition rom_ext_key :: "opentitan_image_version \<Rightarrow> int" where
  "rom_ext_key v = uint (security_version v) * 2 ^ 64 + app_key v"

lemma lex_sgn:
  fixes a b c d m :: int
  assumes "0 \<le> b" "b < m" "0 \<le> d" "d < m"
  shows "sgn (a * m + b - (c * m + d)) = (if a \<noteq> c then (if c < a then 1 else -1) else sgn (b - d))"
proof -
  have "(c + 1) * m \<le> a * m" if "c < a" using that assms by (intro mult_right_mono) auto
  moreover have "(a + 1) * m \<le> c * m" if "a < c" using that assms by (intro mult_right_mono) auto
  ultimately show ?thesis using assms
    by (cases a c rule: linorder_cases) (auto simp: sgn_if algebra_simps)
qed

lemma word_diff_sgn: "(if a \<noteq> b then (if b < a then 1 else -1) else 0) = sgn (uint (a :: u32) - uint b)"
  by (auto simp: sgn_if word_less_def word_uint_eq_iff)

lemma version_cmp:
  "libhoth_ot_app_version_cmp_for_update a b = sgn (app_key a - app_key b) \<and>
   libhoth_ot_rom_ext_version_cmp_for_update a b = sgn (rom_ext_key a - rom_ext_key b)"
proof
  have b32: "0 \<le> uint (x :: u32)" "uint x < 4294967296" for x using uint_bounded [of x] by simp_all
  show app: "libhoth_ot_app_version_cmp_for_update a b = sgn (app_key a - app_key b)"
    unfolding libhoth_ot_app_version_cmp_for_update_def app_key_def
    by (subst lex_sgn) (simp_all add: b32 word_diff_sgn [symmetric] word_uint_eq_iff word_less_def)
  have "0 \<le> app_key v" "app_key v < 2 ^ 64" for v
  proof -
    have "uint (major v) * 2 ^ 32 \<le> (2 ^ 32 - 1) * 2 ^ 32" using b32(2) [of "major v"] by (intro mult_right_mono) auto
    then show "0 \<le> app_key v" "app_key v < 2 ^ 64"
      using b32(1) [of "major v"] b32 [of "minor v"] by (simp_all add: app_key_def)
  qed
  then show "libhoth_ot_rom_ext_version_cmp_for_update a b = sgn (rom_ext_key a - rom_ext_key b)"
    unfolding rom_ext_key_def
    by (subst lex_sgn)
      (auto simp: app [symmetric] libhoth_ot_rom_ext_version_cmp_for_update_def
        libhoth_ot_app_version_cmp_for_update_def word_less_def word_uint_eq_iff)
qed

text \<open>
  Both comparisons order versions by one number each, so they are total orders: the sign of
  the difference of the keys is the result, the security version counting first for ROM_EXT.
\<close>

theorem version_cmp_keys:
  "libhoth_ot_app_version_cmp_for_update a b = sgn (app_key a - app_key b) \<and>
   libhoth_ot_rom_ext_version_cmp_for_update a b = sgn (rom_ext_key a - rom_ext_key b)"
  by (rule version_cmp)

end
