(* ===== verification/Console.thy ===== *)
theory Console
  imports Rot_Commands Hoth_Util
begin

text \<open>
  \<open>protocol/console.c\<close>: reading and writing the console channels of the root of trust and dumping
  the console history. What is printed on standard output is returned as bytes; the descriptor of
  the raw mode and standard input belong to the operating system and are parameters. The response
  buffer is uninitialised: \<open>stk\<close> is what its offset field holds before.
\<close>

section \<open>Layout\<close>

definition EROT_CHANNEL_ID :: u32 where "EROT_CHANNEL_ID = 0x45524F54"
definition HOTH_FIFO_MAX_REQUEST_SIZE :: nat where "HOTH_FIFO_MAX_REQUEST_SIZE = 1024"
definition HOTH_PRV_CMD_HOTH_CHANNEL_STATUS :: u16 where "HOTH_PRV_CMD_HOTH_CHANNEL_STATUS = 0x0037"
definition HOTH_PRV_CMD_HOTH_CHANNEL_READ :: u16 where "HOTH_PRV_CMD_HOTH_CHANNEL_READ = 0x0036"
definition HOTH_PRV_CMD_HOTH_CHANNEL_WRITE :: u16 where "HOTH_PRV_CMD_HOTH_CHANNEL_WRITE = 0x0038"
definition HOTH_PRV_CMD_HOTH_CHANNEL_UART_CONFIG_GET :: u16 where
  "HOTH_PRV_CMD_HOTH_CHANNEL_UART_CONFIG_GET = 0x0039"
definition HOTH_PRV_CMD_HOTH_CHANNEL_UART_CONFIG_SET :: u16 where
  "HOTH_PRV_CMD_HOTH_CHANNEL_UART_CONFIG_SET = 0x003a"
definition HOTH_CHANNEL_WRITE_REQUEST_FLAG_FORCE_DRIVE_TX :: u32 where
  "HOTH_CHANNEL_WRITE_REQUEST_FLAG_FORCE_DRIVE_TX = 1"
definition HOTH_CHANNEL_WRITE_REQUEST_FLAG_SEND_BREAK :: u32 where
  "HOTH_CHANNEL_WRITE_REQUEST_FLAG_SEND_BREAK = 2"
definition ESCAPE_CHAR :: u8 where "ESCAPE_CHAR = 20"

record unescape_flags =
  quit :: bool
  uart_break :: bool

record hoth_channel_read_request =
  read_channel_id :: u32
  read_req_offset :: u32
  read_req_size :: u32
  timeout_us :: u32

record hoth_channel_uart_config =
  baud_rate :: u32
  uart_reserved :: u32

record libhoth_htool_console_opts =
  opt_channel_id :: u32
  force_drive_tx :: bool
  history :: bool
  onlcr :: bool
  opt_baud_rate :: u32
  snapshot :: bool
  claim_timeout_secs :: u32
  yield_ms :: u32

definition channel_read_bytes :: "hoth_channel_read_request \<Rightarrow> bytes" where
  "channel_read_bytes r =
    le_bytes 4 (read_channel_id r) @ le_bytes 4 (read_req_offset r) @ le_bytes 4 (read_req_size r)
    @ le_bytes 4 (timeout_us r)"

lemma length_channel_read_bytes [simp]: "length (channel_read_bytes r) = 16"
  by (simp add: channel_read_bytes_def)

section \<open>Channel status\<close>

definition libhoth_get_channel_status ::
  "'s libhoth_device option \<Rightarrow> libhoth_htool_console_opts \<Rightarrow> 's \<Rightarrow> (u32, 's) hoth_result" where
  "libhoth_get_channel_status dev opts s =
    (case hostcmd dev (HOTH_CMD_BOARD_SPECIFIC_BASE + HOTH_PRV_CMD_HOTH_CHANNEL_STATUS) 0
            (le_bytes 4 (opt_channel_id opts)) 4 False s of
       (Inl e, s') \<Rightarrow> (Inl e, s')
     | (Inr r, s') \<Rightarrow> (Inr (u32_at 0 r), s'))"

section \<open>Reading\<close>

text \<open>The prototext format: newlines close and reopen the quoted string, returns become blanks.\<close>

definition prototext_char :: "u8 \<Rightarrow> bytes" where
  "prototext_char b =
    (if b = 10 then [0x22, 10, 0x22, 0x20] else if b = 13 then [0x20] else [b])"

definition read_size_max :: nat where
  "read_size_max = HOTH_FIFO_MAX_REQUEST_SIZE - sizeof_response - 4"

text \<open>
  \<open>len\<close> is an \<open>int\<close>: a response without a whole offset field makes it negative. The result is the
  status or the new offset, and what was printed; \<open>None\<close> stands for a write that does not end.
\<close>

definition libhoth_read_console ::
  "bytes \<Rightarrow> (bytes \<Rightarrow> 's \<Rightarrow> (int + nat) \<times> 's) \<Rightarrow> 's libhoth_device option \<Rightarrow> bool \<Rightarrow> u32 \<Rightarrow> u32 \<Rightarrow> 's
    \<Rightarrow> ((libhoth_error + u32) \<times> bytes \<times> 's) option" where
  "libhoth_read_console stk wr dev prototext_format_enabled channel_id offset s =
    (let req = \<lparr>read_channel_id = channel_id, read_req_offset = offset,
                read_req_size = word_of_nat read_size_max, timeout_us = 10000\<rparr>
     in case hostcmd dev (HOTH_CMD_BOARD_SPECIFIC_BASE + HOTH_PRV_CMD_HOTH_CHANNEL_READ) 0
               (channel_read_bytes req) (4 + read_size_max) True s of
          (Inl status, s1) \<Rightarrow> Some (Inl status, [], s1)
        | (Inr r, s1) \<Rightarrow>
            let resp_offset = u32_at 0 (memcpy_at 0 (take 4 r) stk);
                len = int (length r) - 4;
                buffer = drop 4 r
            in if 0 < len \<and> \<not> prototext_format_enabled then
                 (case libhoth_force_write wr buffer s1 of
                    None \<Rightarrow> None
                  | Some (errno, s2) \<Rightarrow>
                      if errno \<noteq> 0
                      then Some (Inl (hoth_err HOTH_CTX_CMD_EXEC HOTH_HOST_SPACE_POSIX (word_of_int errno)), [], s2)
                      else Some (Inr (resp_offset + word_of_int len), [], s2))
               else Some (Inr (resp_offset + word_of_int len),
                      if 0 < len then concat (map prototext_char buffer) else [], s1))"

text \<open>The dump of the history: \<open>None\<close> when the loop never ends.\<close>

partial_function (option) erot_console_loop ::
  "bytes \<Rightarrow> 's libhoth_device option \<Rightarrow> u32 \<Rightarrow> u32 \<Rightarrow> bytes \<Rightarrow> 's \<Rightarrow> (bytes \<times> 's) option" where
  "erot_console_loop stk dev current_offset offset out s =
    (case libhoth_read_console stk (\<lambda>_ t. (Inl 0, t)) dev True EROT_CHANNEL_ID offset s of
       None \<Rightarrow> None
     | Some (Inl _, printed, s') \<Rightarrow> Some (out @ printed, s')
     | Some (Inr offset', printed, s') \<Rightarrow>
         if \<not> (offset' < current_offset \<or> 0x80000000 < offset' - current_offset)
         then Some (out @ printed, s')
         else erot_console_loop stk dev current_offset offset' (out @ printed) s')"

definition erot_opts :: libhoth_htool_console_opts where
  "erot_opts = \<lparr>opt_channel_id = EROT_CHANNEL_ID, force_drive_tx = False, history = False, onlcr = False,
     opt_baud_rate = 0, snapshot = False, claim_timeout_secs = 0, yield_ms = 0\<rparr>"

definition libhoth_print_erot_console ::
  "bytes \<Rightarrow> 's libhoth_device option \<Rightarrow> 's \<Rightarrow> (bytes \<times> 's) option" where
  "libhoth_print_erot_console stk dev s =
    (case libhoth_get_channel_status dev erot_opts s of
       (Inl _, s') \<Rightarrow> Some ([], s')
     | (Inr current_offset, s') \<Rightarrow>
         erot_console_loop stk dev current_offset (current_offset - 0x80000000) [] s')"

section \<open>Writing\<close>

text \<open>
  \<open>escaped\<close> is a static variable: it survives from one call to the next. The result is its new
  value, the bytes left in the buffer and the flags.
\<close>

fun unescape_loop :: "bool \<Rightarrow> bytes \<Rightarrow> bytes \<Rightarrow> bool \<times> bytes \<times> unescape_flags" where
  "unescape_loop escaped out [] = (escaped, out, \<lparr>quit = False, uart_break = False\<rparr>)"
| "unescape_loop escaped out (b # bs) =
    (if \<not> escaped then
       (if b = ESCAPE_CHAR then unescape_loop True out bs else unescape_loop False (out @ [b]) bs)
     else if b = ESCAPE_CHAR then unescape_loop False (out @ [b]) bs
     else if b = 0x51 \<or> b = 0x71 then (False, [], \<lparr>quit = True, uart_break = False\<rparr>)
     else if b = 0x42 \<or> b = 0x62 then (False, [], \<lparr>quit = False, uart_break = True\<rparr>)
     else unescape_loop False out bs)"

definition unescape :: "bool \<Rightarrow> bytes \<Rightarrow> bool \<times> bytes \<times> unescape_flags" where
  "unescape escaped buf = unescape_loop escaped [] buf"

text \<open>\<open>input\<close> is what the non-blocking \<open>read\<close> of up to 64 bytes got, nothing when it failed.\<close>

definition libhoth_write_console ::
  "bool \<Rightarrow> bytes \<Rightarrow> 's libhoth_device option \<Rightarrow> u32 \<Rightarrow> bool \<Rightarrow> bool \<Rightarrow> 's
    \<Rightarrow> (bytes, 's) hoth_result \<times> bool \<times> bool" where
  "libhoth_write_console escaped input dev channel_id drive_tx quit0 s =
    (if input = [] then ((Inr [], s), quit0, escaped)
     else
       let (escaped', data, flags) = unescape escaped (take 64 input) in
       if quit flags \<or> data = [] \<and> \<not> uart_break flags then ((Inr [], s), quit flags, escaped')
       else
         let fl = (if drive_tx then HOTH_CHANNEL_WRITE_REQUEST_FLAG_FORCE_DRIVE_TX else 0)
                  OR (if uart_break flags then HOTH_CHANNEL_WRITE_REQUEST_FLAG_SEND_BREAK else 0)
         in (hostcmd dev (HOTH_CMD_BOARD_SPECIFIC_BASE + HOTH_PRV_CMD_HOTH_CHANNEL_WRITE) 1
               (le_bytes 4 channel_id @ le_bytes 4 fl @ data) 0 False s, quit flags, escaped'))"

section \<open>UART configuration\<close>

definition libhoth_get_uart_config ::
  "'s libhoth_device option \<Rightarrow> libhoth_htool_console_opts \<Rightarrow> 's \<Rightarrow> (hoth_channel_uart_config, 's) hoth_result" where
  "libhoth_get_uart_config dev opts s =
    (case hostcmd dev (HOTH_CMD_BOARD_SPECIFIC_BASE + HOTH_PRV_CMD_HOTH_CHANNEL_UART_CONFIG_GET) 0
            (le_bytes 4 (opt_channel_id opts)) 8 False s of
       (Inl e, s') \<Rightarrow> (Inl e, s')
     | (Inr r, s') \<Rightarrow> (Inr \<lparr>baud_rate = u32_at 0 r, uart_reserved = u32_at 4 r\<rparr>, s'))"

definition libhoth_set_uart_config ::
  "'s libhoth_device option \<Rightarrow> libhoth_htool_console_opts \<Rightarrow> hoth_channel_uart_config \<Rightarrow> 's
    \<Rightarrow> (bytes, 's) hoth_result" where
  "libhoth_set_uart_config dev opts config s =
    hostcmd dev (HOTH_CMD_BOARD_SPECIFIC_BASE + HOTH_PRV_CMD_HOTH_CHANNEL_UART_CONFIG_SET) 0
      (le_bytes 4 (opt_channel_id opts) @ le_bytes 4 (baud_rate config) @ le_bytes 4 (uart_reserved config))
      0 False s"

section \<open>Escaped text survives, however it is split into reads\<close>

definition escape_text :: "bytes \<Rightarrow> bytes" where
  "escape_text data = concat (map (\<lambda>b. if b = ESCAPE_CHAR then [ESCAPE_CHAR, ESCAPE_CHAR] else [b]) data)"

lemma escape_text_simps [simp]:
  "escape_text [] = []"
  "escape_text (b # data) = (if b = ESCAPE_CHAR then [ESCAPE_CHAR, ESCAPE_CHAR] else [b]) @ escape_text data"
  by (simp_all add: escape_text_def)

text \<open>Several calls in a row, with the static variable passed on; whether any of them saw a command.\<close>

fun unescape_reads :: "bool \<Rightarrow> bytes list \<Rightarrow> bool \<times> bytes \<times> bool" where
  "unescape_reads escaped [] = (escaped, [], False)"
| "unescape_reads escaped (r # rs) =
    (let (escaped', data, flags) = unescape escaped r;
         (escaped'', rest, cmd) = unescape_reads escaped' rs
     in (escaped'', data @ rest, quit flags \<or> uart_break flags \<or> cmd))"

lemma unescape_loop_prefix:
  assumes "(if e then [ESCAPE_CHAR] else []) @ r @ rest = escape_text data"
  shows "\<exists>e' d1 d2. unescape_loop e out r = (e', out @ d1, \<lparr>quit = False, uart_break = False\<rparr>) \<and>
    data = d1 @ d2 \<and> (if e' then [ESCAPE_CHAR] else []) @ rest = escape_text d2"
  using assms
proof (induction r arbitrary: e out data)
  case Nil
  then show ?case by auto
next
  case (Cons b r)
  then obtain c data' where data: "data = c # data'" by (cases data) (auto split: if_splits)
  show ?case
  proof (cases "c = ESCAPE_CHAR")
    case esc: True
    have b: "b = ESCAPE_CHAR" using Cons.prems data esc by (cases e) simp_all
    show ?thesis
    proof (cases e)
      case True
      then have "(if False then [ESCAPE_CHAR] else []) @ r @ rest = escape_text data'"
        using Cons.prems data esc by simp
      from Cons.IH [OF this, of "out @ [b]"] obtain e' d1 d2 where
        "unescape_loop False (out @ [b]) r = (e', (out @ [b]) @ d1, \<lparr>quit = False, uart_break = False\<rparr>)"
        "data' = d1 @ d2" "(if e' then [ESCAPE_CHAR] else []) @ rest = escape_text d2" by blast
      then show ?thesis using True b esc data by (intro exI [of _ e'] exI [of _ "b # d1"] exI [of _ d2]) simp
    next
      case False
      then have "(if True then [ESCAPE_CHAR] else []) @ r @ rest = escape_text data"
        using Cons.prems b by simp
      from Cons.IH [OF this, of out] show ?thesis using False b by simp
    qed
  next
    case plain: False
    have ne: "\<not> e" using Cons.prems data plain by (cases e) simp_all
    then have e: "\<not> e" "b = c" using Cons.prems data plain by simp_all
    then have "(if False then [ESCAPE_CHAR] else []) @ r @ rest = escape_text data'"
      using Cons.prems data plain by simp
    from Cons.IH [OF this, of "out @ [b]"] obtain e' d1 d2 where
        "unescape_loop False (out @ [b]) r = (e', (out @ [b]) @ d1, \<lparr>quit = False, uart_break = False\<rparr>)"
        "data' = d1 @ d2" "(if e' then [ESCAPE_CHAR] else []) @ rest = escape_text d2" by blast
      then show ?thesis using e plain data by (intro exI [of _ e'] exI [of _ "b # d1"] exI [of _ d2]) simp
  qed
qed

lemma unescape_reads_escaped:
  assumes "(if e then [ESCAPE_CHAR] else []) @ concat reads = escape_text data"
  shows "unescape_reads e reads = (False, data, False)"
  using assms
proof (induction reads arbitrary: e data)
  case Nil
  then show ?case by (cases data) (auto split: if_splits)
next
  case (Cons r reads)
  then have "(if e then [ESCAPE_CHAR] else []) @ r @ concat reads = escape_text data" by simp
  from unescape_loop_prefix [OF this, of "[]"] obtain e' d1 d2 where
    u: "unescape e r = (e', d1, \<lparr>quit = False, uart_break = False\<rparr>)" "data = d1 @ d2"
    and r: "(if e' then [ESCAPE_CHAR] else []) @ concat reads = escape_text d2"
    by (auto simp: unescape_def)
  then show ?case using Cons.IH [OF r] by simp
qed

text \<open>
  Text in which every escape character is doubled is delivered unchanged, without a quit or a
  break, however it is split into reads: an escape character at the end of one read is completed
  by the next.
\<close>

theorem console_unescape_roundtrip:
  assumes "concat reads = escape_text data"
  shows "unescape_reads False reads = (False, data, False)"
  using assms by (intro unescape_reads_escaped) simp

theorem console_unescape_roundtrip_witness:
  "unescape_reads False [[65, 20], [20, 66]] = (False, [65, 20, 66], False)"
  by (rule console_unescape_roundtrip) (simp add: ESCAPE_CHAR_def)

section \<open>The history is dumped completely\<close>

text \<open>
  A firmware whose console channel holds the bytes \<open>hist\<close> up to the write offset \<open>W\<close>: a read
  from before them starts at the first one, and at most the requested size is returned.
\<close>

definition erot_read_request :: "u32 \<Rightarrow> bytes" where
  "erot_read_request off = channel_read_bytes \<lparr>read_channel_id = EROT_CHANNEL_ID, read_req_offset = off,
     read_req_size = word_of_nat read_size_max, timeout_us = 10000\<rparr>"

definition channel_data :: "u32 \<Rightarrow> bytes \<Rightarrow> u32 \<Rightarrow> bytes" where
  "channel_data W hist off =
    (let d = min (unat (W - off)) (length hist)
     in le_bytes 4 (W - word_of_nat d) @ take read_size_max (drop (length hist - d) hist))"

definition console_firmware :: "'w rot_handler \<Rightarrow> u32 \<Rightarrow> bytes \<Rightarrow> bool" where
  "console_firmware h W hist \<longleftrightarrow>
    (\<forall>w. h (HOTH_CMD_BOARD_SPECIFIC_BASE + HOTH_PRV_CMD_HOTH_CHANNEL_STATUS) 0 (le_bytes 4 EROT_CHANNEL_ID) w =
      ((0, le_bytes 4 W), w)) \<and>
    (\<forall>off w. h (HOTH_CMD_BOARD_SPECIFIC_BASE + HOTH_PRV_CMD_HOTH_CHANNEL_READ) 0 (erot_read_request off) w =
      ((0, channel_data W hist off), w))"

lemma read_size_max_val: "read_size_max = 1012"
  by (simp add: read_size_max_def HOTH_FIFO_MAX_REQUEST_SIZE_def)

lemma erot_loop_condition:
  fixes W off :: u32
  assumes "unat (W - off) < 2 ^ 31"
  shows "(off < W \<or> 0x80000000 < off - W) \<longleftrightarrow> W \<noteq> off"
proof (cases "W = off")
  case False
  have "unat ((off - W) + (W - off)) = (unat (off - W) + unat (W - off)) mod 2 ^ 32"
    by (simp only: unat_word_ariths) simp
  then have "(unat (off - W) + unat (W - off)) mod 2 ^ 32 = 0" by simp
  moreover have "0 < unat (W - off)" using False by (simp add: unat_gt_0)
  moreover have "unat (off - W) < 2 ^ 32" using unat_bound [of "off - W"] by simp
  ultimately have "unat (off - W) = 2 ^ 32 - unat (W - off)"
    using assms by (cases "unat (off - W) + unat (W - off) < 2 ^ 32") (simp_all add: le_mod_geq)
  then have "2 ^ 31 < unat (off - W)" using assms by simp
  then show ?thesis using assms False by (simp add: word_less_nat_alt)
qed simp

lemma read_console_firmware:
  assumes "console_firmware h W hist"
  defines "d off \<equiv> min (unat (W - off)) (length hist)"
  shows "\<exists>q'. libhoth_read_console stk wr (Some (rot_device h)) True EROT_CHANNEL_ID off (w, q) =
    Some (Inr (W - word_of_nat (d off) + word_of_nat (min 1012 (d off))),
      concat (map prototext_char (take 1012 (drop (length hist - d off) hist))), (w, q'))"
proof -
  let ?r = "channel_data W hist off" and ?x = "take 1012 (drop (length hist - d off) hist)"
  have r: "?r = le_bytes 4 (W - word_of_nat (d off)) @ ?x"
    by (simp add: channel_data_def d_def Let_def read_size_max_val)
  have lx: "length ?x = min 1012 (d off)" by (simp add: d_def)
  have "h (HOTH_CMD_BOARD_SPECIFIC_BASE + HOTH_PRV_CMD_HOTH_CHANNEL_READ) 0
      (channel_read_bytes \<lparr>read_channel_id = EROT_CHANNEL_ID, read_req_offset = off,
         read_req_size = word_of_nat read_size_max, timeout_us = 10000\<rparr>) w = ((0, ?r), w)"
    using assms(1) by (simp add: console_firmware_def erot_read_request_def)
  then obtain q' where hc: "hostcmd (Some (rot_device h)) (HOTH_CMD_BOARD_SPECIFIC_BASE + HOTH_PRV_CMD_HOTH_CHANNEL_READ) 0
      (channel_read_bytes \<lparr>read_channel_id = EROT_CHANNEL_ID, read_req_offset = off,
         read_req_size = word_of_nat read_size_max, timeout_us = 10000\<rparr>) (4 + read_size_max) True (w, q) =
      (Inr ?r, (w, q'))"
    using lx r by (auto simp: hostcmd_rot rpc_ok read_size_max_val)
  have o: "u32_at 0 (memcpy_at 0 (take 4 ?r) stk) = W - word_of_nat (d off)"
    by (simp add: r memcpy_at_def)
  have l: "int (length ?r) - 4 = int (min 1012 (d off))" "drop 4 ?r = ?x"
    using lx by (simp_all add: r)
  show ?thesis
    unfolding libhoth_read_console_def Let_def hc prod.case sum.case o l
    by (auto simp: d_def)
qed

lemma erot_console_loop_dumps:
  assumes "console_firmware h W hist" and "length hist < 2 ^ 31"
    and "m = min (unat (W - off)) (length hist)"
  shows "\<exists>s'. erot_console_loop stk (Some (rot_device h)) W off out (w, q) =
    Some (out @ concat (map prototext_char (drop (length hist - m) hist)), s')"
  using assms(3)
proof (induction m arbitrary: off out q rule: less_induct)
  case (less m)
  define k where "k = min 1012 m"
  let ?off = "W - word_of_nat m + word_of_nat k"
  let ?x = "take 1012 (drop (length hist - m) hist)"
  obtain q' where rd: "libhoth_read_console stk (\<lambda>_ t. (Inl 0, t)) (Some (rot_device h)) True EROT_CHANNEL_ID off (w, q) =
      Some (Inr ?off, concat (map prototext_char ?x), (w, q'))"
    using read_console_firmware [OF assms(1), of stk "\<lambda>_ t. (Inl 0, t)" off w q]
    by (auto simp: less.prems [symmetric] k_def)
  have m: "m \<le> length hist" using less.prems by simp
  have "W - ?off = word_of_nat (m - k)" by (simp add: k_def of_nat_diff)
  moreover have "m - k < 2 ^ 32" using m assms(2) by simp
  ultimately have d: "unat (W - ?off) = m - k" by (simp add: unat_of_nat)
  have x: "drop (length hist - m) hist = ?x @ drop (length hist - (m - k)) hist"
  proof -
    have t: "?x = take k (drop (length hist - m) hist)" using m by (simp add: k_def min_def)
    have "length hist - (m - k) = k + (length hist - m)" using m by (auto simp: k_def)
    then show ?thesis unfolding t by (simp only: drop_drop [symmetric] append_take_drop_id)
  qed
  have cond: "(?off < W \<or> 0x80000000 < ?off - W) \<longleftrightarrow> W \<noteq> ?off"
    using erot_loop_condition [of W ?off] d m assms(2) by simp
  show ?case
  proof (cases "m \<le> 1012")
    case True
    then have "m - k = 0" by (simp add: k_def)
    then have "W = ?off" using d by (simp add: unat_eq_0)
    then show ?thesis
      using rd x cond True m by (subst erot_console_loop.simps) (simp add: k_def)
  next
    case False
    then have k: "0 < k" "m - k < m" "m - k \<noteq> 0" by (simp_all add: k_def)
    have "W \<noteq> ?off" using d k(3) by auto
    then have step: "erot_console_loop stk (Some (rot_device h)) W off out (w, q) =
        erot_console_loop stk (Some (rot_device h)) W ?off (out @ concat (map prototext_char ?x)) (w, q')"
      using rd cond by (subst erot_console_loop.simps) simp
    have "m - k = min (unat (W - ?off)) (length hist)" using d m by simp
    from less.IH [OF k(2) this, of "out @ concat (map prototext_char ?x)" q'] show ?thesis
      unfolding step by (subst x) (simp only: map_append concat_append append_assoc)
  qed
qed

text \<open>
  C34: dumping the console of a firmware that holds less than 2 GiB of history, which does not change
  meanwhile, ends, although offsets wrap around at 4 GiB, and prints the prototext rendering of
  every byte of that history, in order. The rendering is lossy: different bytes may print the same.
\<close>

theorem erot_console_dumps_history:
  assumes "console_firmware h W hist" and "length hist < 2 ^ 31"
  shows "\<exists>s'. libhoth_print_erot_console stk (Some (rot_device h)) (w, q) =
    Some (concat (map prototext_char hist), s')"
proof -
  have "h (HOTH_CMD_BOARD_SPECIFIC_BASE + HOTH_PRV_CMD_HOTH_CHANNEL_STATUS) 0 (le_bytes 4 EROT_CHANNEL_ID) w =
      ((0, le_bytes 4 W), w)" using assms(1) by (simp add: console_firmware_def)
  then obtain q' where st: "libhoth_get_channel_status (Some (rot_device h)) erot_opts (w, q) = (Inr W, (w, q'))"
    by (auto simp: libhoth_get_channel_status_def erot_opts_def hostcmd_rot rpc_ok u32_at_def byte_range_def)
  have "length hist = min (unat (W - (W - 0x80000000))) (length hist)" using assms(2) by simp
  from erot_console_loop_dumps [OF assms this, of stk "[]" w q'] show ?thesis
    by (simp add: libhoth_print_erot_console_def st)
qed

definition console_device :: "u32 \<Rightarrow> bytes \<Rightarrow> unit rot_handler" where
  "console_device W hist c v p w =
    (if c = HOTH_CMD_BOARD_SPECIFIC_BASE + HOTH_PRV_CMD_HOTH_CHANNEL_STATUS then ((0, le_bytes 4 W), w)
     else ((0, channel_data W hist (u32_at 4 p)), w))"

lemma console_device_conforms: "console_firmware (console_device W hist) W hist"
  by (simp add: console_firmware_def console_device_def erot_read_request_def channel_read_bytes_def
      HOTH_CMD_BOARD_SPECIFIC_BASE_def HOTH_PRV_CMD_HOTH_CHANNEL_STATUS_def HOTH_PRV_CMD_HOTH_CHANNEL_READ_def)

theorem erot_console_dumps_history_witness:
  "\<exists>s'. libhoth_print_erot_console [0, 0, 0, 0] (Some (rot_device (console_device 1000 (replicate 3000 13)))) ((), []) =
    Some (concat (replicate 3000 [0x20]), s')"
  using erot_console_dumps_history [OF console_device_conforms, of "replicate 3000 13" "[0, 0, 0, 0]" 1000 "()" "[]"]
  by (simp add: prototext_char_def map_replicate)

end
