(* ===== verification/Dfu.thy ===== *)
theory Dfu
  imports Ot_Version Console
begin

text \<open>
  \<open>protocol/dfu_hostcmd.c\<close> and \<open>protocol/dfu_check.c\<close>: sending a firmware bundle to an OpenTitan root
  of trust, installing it into both slots, and checking that it is installed. \<open>getrandom\<close> and
  \<open>usleep\<close> belong to the operating system and are parameters; what is printed on standard output
  is returned.
\<close>

section \<open>Layout\<close>

definition HOTH_CMD_DFU_WRITE :: u16 where "HOTH_CMD_DFU_WRITE = 0x3e4f"
definition HOTH_CMD_DFU_COMPLETE :: u16 where "HOTH_CMD_DFU_COMPLETE = 0x3e50"
definition HOTH_DFU_TARGET_EARLGREY_FW_UPDATE :: u32 where "HOTH_DFU_TARGET_EARLGREY_FW_UPDATE = 0x77664745"
definition HOTH_DFU_WRITE_FLAGS_NEW_SESSION :: u32 where "HOTH_DFU_WRITE_FLAGS_NEW_SESSION = 1"
definition HOTH_DFU_COMPLETE_FLAGS_COLD_RESTART :: u32 where "HOTH_DFU_COMPLETE_FLAGS_COLD_RESTART = 1"
definition HOTH_DFU_COMPLETE_FLAGS_WARM_RESTART :: u32 where "HOTH_DFU_COMPLETE_FLAGS_WARM_RESTART = 2"

record hoth_dfu_nonce =
  low :: u32
  high :: u32

record hoth_dfu_session_id =
  nonce :: hoth_dfu_nonce
  target :: u32

definition session_bytes :: "hoth_dfu_session_id \<Rightarrow> bytes" where
  "session_bytes sid = le_bytes 4 (low (nonce sid)) @ le_bytes 4 (high (nonce sid)) @ le_bytes 4 (target sid)"

definition dfu_write_request :: "hoth_dfu_session_id \<Rightarrow> u32 \<Rightarrow> bytes \<Rightarrow> bytes" where
  "dfu_write_request sid flags data = session_bytes sid @ le_bytes 4 flags @ data"

definition dfu_complete_request :: "hoth_dfu_session_id \<Rightarrow> u32 \<Rightarrow> bytes" where
  "dfu_complete_request sid flags = session_bytes sid @ le_bytes 4 flags"

lemma length_dfu_requests [simp]:
  "length (dfu_write_request sid flags data) = 16 + length data"
  "length (dfu_complete_request sid flags) = 16"
  by (simp_all add: dfu_write_request_def dfu_complete_request_def session_bytes_def)

section \<open>One update\<close>

text \<open>The nonce is read into the session id; \<open>None\<close> is a failed \<open>getrandom\<close>.\<close>

definition generate_random_nonce ::
  "('s \<Rightarrow> hoth_dfu_nonce option \<times> 's) \<Rightarrow> hoth_dfu_session_id \<Rightarrow> 's \<Rightarrow> (int \<times> hoth_dfu_session_id) \<times> 's" where
  "generate_random_nonce getrandom session_id s =
    (case getrandom s of
       (None, s') \<Rightarrow> ((-1, session_id), s')
     | (Some n, s') \<Rightarrow> ((0, session_id\<lparr>nonce := n\<rparr>), s'))"

definition dfu_write_chunk ::
  "'s libhoth_device option \<Rightarrow> hoth_dfu_session_id \<Rightarrow> nat \<times> bytes \<Rightarrow> 's \<Rightarrow> (unit, 's) hoth_result" where
  "dfu_write_chunk dev sid chunk s =
    (let flags = (if fst chunk = 0 then HOTH_DFU_WRITE_FLAGS_NEW_SESSION else 0)
     in case hostcmd dev HOTH_CMD_DFU_WRITE 0 (dfu_write_request sid flags (snd chunk)) 0 True s of
          (Inl e, s') \<Rightarrow> (Inl e, s')
        | (Inr r, s') \<Rightarrow> if length r \<noteq> 0 then (Inl (cmd_err LIBHOTH_ERR_FAIL), s') else (Inr (), s'))"

function dfu_write_loop ::
  "(nat \<times> bytes \<Rightarrow> 's \<Rightarrow> (unit, 's) hoth_result) \<Rightarrow> bytes \<Rightarrow> nat \<Rightarrow> 's \<Rightarrow> (unit, 's) hoth_result" where
  "dfu_write_loop wr img bytes_sent s =
    (if bytes_sent < length img then
       let chunk_len = min 1000 (length img - bytes_sent)
       in case wr (bytes_sent, byte_range bytes_sent chunk_len img) s of
            (Inl e, s') \<Rightarrow> (Inl e, s')
          | (Inr _, s') \<Rightarrow> dfu_write_loop wr img (bytes_sent + chunk_len) s'
     else (Inr (), s))"
  by pat_completeness auto
termination
  by (relation "measure (\<lambda>(wr, img, n, s). length img - n)") auto

declare dfu_write_loop.simps [simp del]

text \<open>The response to the completion is ignored: the chip may have restarted already.\<close>

definition libhoth_dfu_update ::
  "('s \<Rightarrow> hoth_dfu_nonce option \<times> 's) \<Rightarrow> (nat \<Rightarrow> 's \<Rightarrow> 's) \<Rightarrow> 's libhoth_device option \<Rightarrow> bytes option \<Rightarrow> u32
    \<Rightarrow> 's \<Rightarrow> libhoth_error \<times> 's" where
  "libhoth_dfu_update getrandom usleep dev img complete_flags s =
    (case img of None \<Rightarrow> (cmd_err LIBHOTH_ERR_INVALID_PARAMETER, s)
     | Some img \<Rightarrow>
       let sid0 = \<lparr>nonce = \<lparr>low = 0, high = 0\<rparr>, target = HOTH_DFU_TARGET_EARLGREY_FW_UPDATE\<rparr>;
           ((ret, sid), s1) = generate_random_nonce getrandom sid0 s
       in if ret \<noteq> 0 then (cmd_err LIBHOTH_ERR_FAIL, s1)
          else
            (case dfu_write_loop (dfu_write_chunk dev sid) img 0 s1 of
               (Inl e, s2) \<Rightarrow> (e, s2)
             | (Inr _, s2) \<Rightarrow>
                 let (_, s3) = hostcmd dev HOTH_CMD_DFU_COMPLETE 0 (dfu_complete_request sid complete_flags) 0 True s2
                 in libhoth_device_reconnect dev (usleep (LIBHOTH_REBOOT_DELAY_MS * 1000) s3)))"

section \<open>Installing into both slots\<close>

definition dfu_update_count ::
  "opentitan_image_version \<Rightarrow> opentitan_image_version \<Rightarrow> opentitan_get_version_resp \<Rightarrow> nat" where
  "dfu_update_count desired_romext desired_app resp =
    (let rom_ext_boot_slot = bootslot_int (booted_slot (rom_ext resp));
         rom_ext_stage_slot = (if rom_ext_boot_slot = 0 then 1 else 0);
         app_boot_slot = bootslot_int (booted_slot (app resp));
         app_stage_slot = (if app_boot_slot = 0 then 1 else 0);
         booted_romext = slot_of (rom_ext resp) rom_ext_boot_slot;
         staged_romext = slot_of (rom_ext resp) rom_ext_stage_slot;
         booted_app = slot_of (app resp) app_boot_slot;
         staged_app = slot_of (app resp) app_stage_slot
     in if libhoth_ot_app_version_cmp_for_update booted_app desired_app \<noteq> 0 \<or>
           libhoth_ot_rom_ext_version_cmp_for_update booted_romext desired_romext < 0 then 2
        else if libhoth_ot_app_version_cmp_for_update staged_app desired_app \<noteq> 0 \<or>
           libhoth_ot_rom_ext_version_cmp_for_update staged_romext desired_romext < 0 then 1
        else 0)"

text \<open>The loop over the updates: an error, or the last version report.\<close>

fun dfu_install_loop ::
  "('s \<Rightarrow> libhoth_error \<times> 's) \<Rightarrow> ('s \<Rightarrow> (opentitan_get_version_resp, 's) hoth_result) \<Rightarrow>
    opentitan_image_version \<Rightarrow> opentitan_image_version \<Rightarrow> nat \<Rightarrow> opentitan_get_version_resp \<Rightarrow> 's
    \<Rightarrow> (opentitan_get_version_resp, 's) hoth_result" where
  "dfu_install_loop update get_version desired_rom_ext desired_app 0 resp s = (Inr resp, s)"
| "dfu_install_loop update get_version desired_rom_ext desired_app (Suc n) resp s =
    (let (err, s1) = update s in
     if err \<noteq> HOTH_SUCCESS then (Inl err, s1)
     else
       (case get_version s1 of
          (Inl e, s2) \<Rightarrow> (Inl e, s2)
        | (Inr resp, s2) \<Rightarrow>
            if \<not> libhoth_ot_check_update_successful resp desired_rom_ext desired_app
            then (Inl (cmd_err LIBHOTH_ERR_FAIL), s2)
            else dfu_install_loop update get_version desired_rom_ext desired_app n resp s2))"

definition libhoth_dfu_install_firmware ::
  "('s \<Rightarrow> hoth_dfu_nonce option \<times> 's) \<Rightarrow> (nat \<Rightarrow> 's \<Rightarrow> 's) \<Rightarrow> 's libhoth_device option \<Rightarrow> bytes option \<Rightarrow> u32
    \<Rightarrow> 's \<Rightarrow> (libhoth_error \<times> 's) option" where
  "libhoth_dfu_install_firmware getrandom usleep dev img complete_flags s =
    (if dev = None \<or> img = None then Some (cmd_err LIBHOTH_ERR_INVALID_PARAMETER, s)
     else
       (case libhoth_extract_ot_bundle img zero_version zero_version of None \<Rightarrow> None
        | Some (retval, desired_rom_ext, desired_app) \<Rightarrow>
          if retval \<noteq> 0
          then Some (hoth_err HOTH_CTX_CMD_EXEC HOTH_HOST_SPACE_LIBHOTH (word_of_int retval), s)
          else Some
            (case libhoth_opentitan_version dev s of
               (Inl e, s1) \<Rightarrow> (e, s1)
             | (Inr resp, s1) \<Rightarrow>
               if security_version desired_app < bl0_min_sec_ver resp
               then (cmd_err LIBHOTH_ERR_INVALID_PARAMETER, s1)
               else
                 (case dfu_install_loop (libhoth_dfu_update getrandom usleep dev img complete_flags)
                         (libhoth_opentitan_version dev) desired_rom_ext desired_app
                         (dfu_update_count desired_rom_ext desired_app resp) resp s1 of
                    (Inl e, s2) \<Rightarrow> (e, s2)
                  | (Inr resp, s2) \<Rightarrow> (libhoth_update_complete resp desired_rom_ext desired_app, s2)))))"

section \<open>Checking\<close>

definition libhoth_print_boot_log ::
  "opentitan_get_version_resp \<Rightarrow> opentitan_image_version \<Rightarrow> opentitan_image_version \<Rightarrow> string" where
  "libhoth_print_boot_log resp desired_rom_ext desired_app =
    (let booted_rom_ext = libhoth_ot_boot_romext resp; booted_app = libhoth_ot_boot_app resp;
         ver = (\<lambda>v. CHR 0x22 # dec_u32 (major v) @ ''.'' @ dec_u32 (minor v) @ [CHR 0x22, CHR 0x0A])
     in ''installed_version: '' @ ver desired_app
        @ ''activated_versions: {'' @ [CHR 0x0A] @ ''key: '' @ CHR 0x22 # ''app'' @ [CHR 0x22, CHR 0x0A]
        @ ''value: '' @ ver booted_app @ ''}'' @ [CHR 0x0A]
        @ ''activated_versions: {'' @ [CHR 0x0A] @ ''key: '' @ CHR 0x22 # ''rom_ext'' @ [CHR 0x22, CHR 0x0A]
        @ ''value: '' @ ver booted_rom_ext @ ''}'' @ [CHR 0x0A])"

text \<open>The console dump at the end may not return; then neither does this function.\<close>

definition libhoth_print_dfu_error ::
  "bytes \<Rightarrow> 's libhoth_device option \<Rightarrow> opentitan_get_version_resp option \<Rightarrow> libhoth_error \<Rightarrow> 's
    \<Rightarrow> (string \<times> 's) option" where
  "libhoth_print_dfu_error stk dev resp err s =
    (let head = ''tool_failure_code: -1'' @ [CHR 0x0A] @ ''notes: '' @ [CHR 0x22]
           @ (if err \<noteq> HOTH_SUCCESS
              then ''dfu failed with error code 0x'' @ hex_padded hex_digits 16 (unat err) @ [CHR 0x0A] else []);
         (versions, s1) =
           (case resp of
              Some resp \<Rightarrow> (libhoth_print_ot_version_resp resp, s)
            | None \<Rightarrow>
                (case libhoth_opentitan_version dev s of
                   (Inr ot_resp, s') \<Rightarrow> (libhoth_print_ot_version_resp ot_resp, s')
                 | (Inl _, s') \<Rightarrow>
                     (''Failed to get OT version information from RoT'' @ [CHR 0x0A], s')))
     in case libhoth_print_erot_console stk dev s1 of
          None \<Rightarrow> None
        | Some (out, s2) \<Rightarrow> Some (head @ versions @ map (\<lambda>b. char_of (unat b)) out @ [CHR 0x22, CHR 0x0A], s2))"

definition libhoth_dfu_check ::
  "bytes \<Rightarrow> 's libhoth_device option \<Rightarrow> bytes option \<Rightarrow> opentitan_get_version_resp option \<Rightarrow> 's
    \<Rightarrow> (libhoth_error \<times> string \<times> 's) option" where
  "libhoth_dfu_check stk dev img resp s =
    (case resp of None \<Rightarrow> Some (cmd_err LIBHOTH_ERR_INVALID_PARAMETER, [], s)
     | Some resp \<Rightarrow>
       if img = None then Some (cmd_err LIBHOTH_ERR_INVALID_PARAMETER, [], s)
       else
         (case libhoth_extract_ot_bundle img zero_version zero_version of None \<Rightarrow> None
          | Some (retval, desired_rom_ext, desired_app) \<Rightarrow>
            if retval \<noteq> 0 then Some (init_err LIBHOTH_ERR_FAIL, [], s)
            else
              let log = libhoth_print_boot_log resp desired_rom_ext desired_app;
                  update_err = libhoth_update_complete resp desired_rom_ext desired_app
              in if update_err \<noteq> HOTH_SUCCESS then
                   (case libhoth_print_dfu_error stk dev (Some resp) update_err s of None \<Rightarrow> None
                    | Some (out, s') \<Rightarrow> Some (update_err, log @ out, s'))
                 else Some (HOTH_SUCCESS, log, s)))"

section \<open>What an update sends\<close>

interpretation dfu_write: chunk_loop 1000 img wr id "dfu_write_loop wr img" for wr img
proof
  show "(0 :: nat) < 1000" by simp
  show "dfu_write_loop wr img off s = id (Inr (), s)" if "off = length img" for off s
    using that by (simp add: dfu_write_loop.simps)
  show "dfu_write_loop wr img off s =
      (case wr (off, byte_range off k img) s of
         (Inl e, s') \<Rightarrow> id (Inl e, s') | (Inr _, s') \<Rightarrow> dfu_write_loop wr img (off + k) s')"
    if "off < length img" "k = min 1000 (length img - off)" for off k s
    using that(1) unfolding id_apply
    by (subst dfu_write_loop.simps, unfold Let_def that(2) [symmetric]) simp
qed

lemma dfu_write_loop_requests:
  "dfu_write_loop wr img 0 s = run_requests wr (with_offsets 0 (pieces 1000 img)) s"
  using dfu_write.loop_requests [of 0 img wr s] by simp

text \<open>
  An update sends the whole bundle, in chunks of at most 1000 bytes that fit the mailbox, all
  in the session of one nonce, exactly the first of them opening it; it stops at the first error,
  and only then completes the session and reconnects, whatever the completion answers.
\<close>

theorem dfu_update_requests:
  assumes "getrandom s = (Some n, s1)"
  shows "\<exists>ps. concat (map snd ps) = img \<and>
    (\<forall>(off, p) \<in> set ps. 0 < length p \<and> sizeof_request + 16 + length p \<le> LIBHOTH_MAILBOX_SIZE \<and>
      byte_range off (length p) img = p) \<and>
    libhoth_dfu_update getrandom usleep dev (Some img) flags s =
      (let sid = \<lparr>nonce = n, target = HOTH_DFU_TARGET_EARLGREY_FW_UPDATE\<rparr>
       in case run_requests (dfu_write_chunk dev sid) ps s1 of
            (Inl e, s2) \<Rightarrow> (e, s2)
          | (Inr _, s2) \<Rightarrow>
              libhoth_device_reconnect dev (usleep 1000000
                (snd (hostcmd dev HOTH_CMD_DFU_COMPLETE 0 (dfu_complete_request sid flags) 0 True s2))))"
proof (intro exI conjI)
  let ?ps = "with_offsets 0 (pieces 1000 img)"
  show "concat (map snd ?ps) = img" by simp
  show "\<forall>(off, p) \<in> set ?ps. 0 < length p \<and> sizeof_request + 16 + length p \<le> LIBHOTH_MAILBOX_SIZE \<and>
      byte_range off (length p) img = p"
    using with_offsets_pieces [of _ _ 1000 img] by (fastforce simp: LIBHOTH_MAILBOX_SIZE_def)
  show "libhoth_dfu_update getrandom usleep dev (Some img) flags s =
      (let sid = \<lparr>nonce = n, target = HOTH_DFU_TARGET_EARLGREY_FW_UPDATE\<rparr>
       in case run_requests (dfu_write_chunk dev sid) ?ps s1 of
            (Inl e, s2) \<Rightarrow> (e, s2)
          | (Inr _, s2) \<Rightarrow>
              libhoth_device_reconnect dev (usleep 1000000
                (snd (hostcmd dev HOTH_CMD_DFU_COMPLETE 0 (dfu_complete_request sid flags) 0 True s2))))"
    using assms unfolding libhoth_dfu_update_def dfu_write_loop_requests
    by (simp add: libhoth_dfu_update_def generate_random_nonce_def Let_def case_prod_beta
        LIBHOTH_REBOOT_DELAY_MS_def split: sum.split prod.split)
qed

theorem dfu_update_requests_witness:
  "\<exists>ps. concat (map snd (ps :: (nat \<times> bytes) list)) = replicate 2500 7 \<and> (\<forall>(off, p) \<in> set ps. length p \<le> 1000)"
  using dfu_update_requests [of "\<lambda>s. (Some \<lparr>low = 1, high = 2\<rparr>, s)" "()" "\<lparr>low = 1, high = 2\<rparr>" "()" "replicate 2500 7"
      "\<lambda>_ s. s" None 1]
  by (fastforce simp: LIBHOTH_MAILBOX_SIZE_def)

section \<open>Installing on a conforming root of trust\<close>

abbreviation bundle_rom_ext :: "bytes \<Rightarrow> opentitan_image_version" where
  "bundle_rom_ext img \<equiv> versions_from img (bundle_offset img) zero_version"

abbreviation bundle_app :: "bytes \<Rightarrow> opentitan_image_version" where
  "bundle_app img \<equiv> versions_from img (bundle_offset img + 65536) zero_version"

text \<open>
  The root of trust boots what was staged and stages what it had booted, for the application and
  for ROM_EXT. It is relied on to do so when a COMPLETE request asks for a restart; without one
  nothing is promised about the versions.
\<close>

definition boots_into :: "bytes \<Rightarrow> opentitan_get_version_resp \<Rightarrow> opentitan_get_version_resp \<Rightarrow> bool" where
  "boots_into img old new \<longleftrightarrow>
    app_key (libhoth_ot_boot_app new) = app_key (bundle_app img) \<and>
    rom_ext_key (libhoth_ot_boot_romext new) = rom_ext_key (bundle_rom_ext img) \<and>
    libhoth_ot_staged_app new = libhoth_ot_boot_app old \<and>
    libhoth_ot_staged_romext new = libhoth_ot_boot_romext old"

text \<open>The flags of a COMPLETE request that ask for a restart into the new firmware.\<close>

definition restarts :: "u32 \<Rightarrow> bool" where
  "restarts complete_flags \<longleftrightarrow>
    complete_flags AND (HOTH_DFU_COMPLETE_FLAGS_COLD_RESTART OR HOTH_DFU_COMPLETE_FLAGS_WARM_RESTART) \<noteq> 0"

definition dfu_firmware :: "'w rot_handler \<Rightarrow> ('w \<Rightarrow> bytes) \<Rightarrow> ('w \<Rightarrow> bytes) \<Rightarrow> bool" where
  "dfu_firmware h stage ver \<longleftrightarrow>
    (\<forall>sid fl d w. \<exists>w'. h HOTH_CMD_DFU_WRITE 0 (dfu_write_request sid fl d) w = ((0, []), w') \<and>
      stage w' = (if fl = HOTH_DFU_WRITE_FLAGS_NEW_SESSION then d else stage w @ d) \<and> ver w' = ver w) \<and>
    (\<forall>sid fl w. \<exists>r w'. h HOTH_CMD_DFU_COMPLETE 0 (dfu_complete_request sid fl) w = (r, w') \<and>
      (restarts fl \<and> bundle_ok (stage w) \<longrightarrow>
        boots_into (stage w) (version_resp_of_bytes (ver w)) (version_resp_of_bytes (ver w')))) \<and>
    (\<forall>w. h HOTH_OPENTITAN_GET_VERSION 0 (le_bytes 4 (0 :: u32)) w = ((0, ver w), w) \<and> length (ver w) = 344)"

definition os_ok :: "('s \<Rightarrow> hoth_dfu_nonce option \<times> 's) \<Rightarrow> (nat \<Rightarrow> 's \<Rightarrow> 's) \<Rightarrow> bool" where
  "os_ok getrandom usleep \<longleftrightarrow> (\<forall>s. \<exists>n. getrandom s = (Some n, s)) \<and> (\<forall>us s. usleep us s = s)"

lemma opentitan_version_firmware:
  assumes "dfu_firmware h stage ver"
  shows "\<exists>q'. libhoth_opentitan_version (Some (rot_device h)) (w, q) = (Inr (version_resp_of_bytes (ver w)), (w, q'))"
  using assms by (simp add: dfu_firmware_def libhoth_opentitan_version_def hostcmd_rot rpc_ok sizeof_version_resp_def)

lemma dfu_chunk_firmware:
  assumes "dfu_firmware h stage ver" and "length p \<le> 1000"
  shows "\<exists>w' q'. dfu_write_chunk (Some (rot_device h)) sid (off, p) (w, q) = (Inr (), (w', q')) \<and>
    stage w' = (if off = 0 then p else stage w @ p) \<and> ver w' = ver w"
proof -
  let ?fl = "if off = 0 then HOTH_DFU_WRITE_FLAGS_NEW_SESSION else 0"
  obtain w' where w': "h HOTH_CMD_DFU_WRITE 0 (dfu_write_request sid ?fl p) w = ((0, []), w')"
    "stage w' = (if ?fl = HOTH_DFU_WRITE_FLAGS_NEW_SESSION then p else stage w @ p)" "ver w' = ver w"
    using assms(1) unfolding dfu_firmware_def by blast
  have "stage w' = (if off = 0 then p else stage w @ p)"
    using w'(2) by (auto simp: HOTH_DFU_WRITE_FLAGS_NEW_SESSION_def split: if_splits)
  then show ?thesis
    using w' assms(2) by (simp add: dfu_write_chunk_def Let_def hostcmd_rot rpc_ok)
qed

lemma dfu_chunks_append:
  assumes "dfu_firmware h stage ver" and "\<forall>p \<in> set ps. length p \<le> 1000" and "0 < off"
  shows "\<exists>w' q'. run_requests (dfu_write_chunk (Some (rot_device h)) sid) (with_offsets off ps) (w, q) =
    (Inr (), (w', q')) \<and> stage w' = stage w @ concat ps \<and> ver w' = ver w"
  using assms(2,3)
proof (induction ps arbitrary: off w q)
  case (Cons p ps)
  obtain w1 q1 where 1: "dfu_write_chunk (Some (rot_device h)) sid (off, p) (w, q) = (Inr (), (w1, q1))"
    "stage w1 = stage w @ p" "ver w1 = ver w"
    using dfu_chunk_firmware [OF assms(1), of p sid off w q] Cons.prems by auto
  from Cons.IH [of "off + length p" w1 q1] Cons.prems 1 show ?case by auto
qed simp

lemma dfu_sends_bundle:
  assumes "dfu_firmware h stage ver" and "img \<noteq> []"
  shows "\<exists>w' q'. run_requests (dfu_write_chunk (Some (rot_device h)) sid) (with_offsets 0 (pieces 1000 img)) (w, q) =
    (Inr (), (w', q')) \<and> stage w' = img \<and> ver w' = ver w"
proof -
  have ps: "pieces 1000 img = take 1000 img # pieces 1000 (drop 1000 img)" using assms(2) by (intro pieces_step) simp
  obtain w1 q1 where 1: "dfu_write_chunk (Some (rot_device h)) sid (0, take 1000 img) (w, q) = (Inr (), (w1, q1))"
    "stage w1 = take 1000 img" "ver w1 = ver w"
    using dfu_chunk_firmware [OF assms(1), of "take 1000 img" sid 0 w q] by auto
  have "\<forall>p \<in> set (pieces 1000 (drop 1000 img)). length p \<le> 1000" using pieces_bound by blast
  moreover have "0 < length (take 1000 img)" using assms(2) by simp
  ultimately obtain w' q' where "run_requests (dfu_write_chunk (Some (rot_device h)) sid)
      (with_offsets (length (take 1000 img)) (pieces 1000 (drop 1000 img))) (w1, q1) = (Inr (), (w', q'))"
    "stage w' = stage w1 @ concat (pieces 1000 (drop 1000 img))" "ver w' = ver w1"
    using dfu_chunks_append [OF assms(1)] by blast
  then show ?thesis using 1 unfolding ps by (intro exI [of _ w'] exI [of _ q']) simp
qed

lemma dfu_update_firmware:
  assumes "dfu_firmware h stage ver" and "os_ok getrandom usleep" and "bundle_ok img" and "restarts flags"
  shows "\<exists>w' q'. libhoth_dfu_update getrandom usleep (Some (rot_device h)) (Some img) flags (w, q) =
      (HOTH_SUCCESS, (w', q')) \<and>
    boots_into img (version_resp_of_bytes (ver w)) (version_resp_of_bytes (ver w'))"
proof -
  obtain n where n: "getrandom (w, q) = (Some n, (w, q))" using assms(2) unfolding os_ok_def by blast
  have "img \<noteq> []" using assms(3) by (auto simp: bundle_ok_def smallest_fw_def)
  let ?sid = "\<lparr>nonce = n, target = HOTH_DFU_TARGET_EARLGREY_FW_UPDATE\<rparr>"
  obtain w1 q1 where s: "run_requests (dfu_write_chunk (Some (rot_device h)) ?sid) (with_offsets 0 (pieces 1000 img)) (w, q) =
      (Inr (), (w1, q1))" "stage w1 = img" "ver w1 = ver w"
    using dfu_sends_bundle [OF assms(1) \<open>img \<noteq> []\<close>] by blast
  obtain r w2 where c: "h HOTH_CMD_DFU_COMPLETE 0 (dfu_complete_request ?sid flags) w1 = (r, w2)"
    "boots_into img (version_resp_of_bytes (ver w)) (version_resp_of_bytes (ver w2))"
    using assms(1,3,4) s(2,3) unfolding dfu_firmware_def by metis
  have "snd (rpc h HOTH_CMD_DFU_COMPLETE 0 (dfu_complete_request ?sid flags) 0 True w1) = w2"
    using c(1) by (cases r) (simp add: rpc_def)
  then obtain q2 where "snd (hostcmd (Some (rot_device h)) HOTH_CMD_DFU_COMPLETE 0 (dfu_complete_request ?sid flags) 0 True (w1, q1)) =
      (w2, q2)" by (simp add: hostcmd_rot)
  then have "libhoth_dfu_update getrandom usleep (Some (rot_device h)) (Some img) flags (w, q) = (HOTH_SUCCESS, (w2, q2))"
    using n s(1) assms(2) unfolding libhoth_dfu_update_def dfu_write_loop_requests
    by (simp add: generate_random_nonce_def Let_def case_prod_beta os_ok_def libhoth_device_reconnect_def rot_device_def)
  with c(2) show ?thesis by blast
qed

text \<open>The decisions of the installer in terms of the keys.\<close>

lemma app_cmp_0: "libhoth_ot_app_version_cmp_for_update a b = 0 \<longleftrightarrow> app_key a = app_key b"
  using version_cmp by (simp add: sgn_if)

lemma rom_ext_cmp:
  "libhoth_ot_rom_ext_version_cmp_for_update a b = 0 \<longleftrightarrow> rom_ext_key a = rom_ext_key b"
  "libhoth_ot_rom_ext_version_cmp_for_update a b < 0 \<longleftrightarrow> rom_ext_key a < rom_ext_key b"
  "0 \<le> libhoth_ot_rom_ext_version_cmp_for_update a b \<longleftrightarrow> rom_ext_key b \<le> rom_ext_key a"
  using version_cmp by (simp_all add: sgn_if)

lemma update_complete_iff:
  "libhoth_update_complete resp R A = HOTH_SUCCESS \<longleftrightarrow>
    app_key (libhoth_ot_boot_app resp) = app_key A \<and> app_key (libhoth_ot_staged_app resp) = app_key A \<and>
    rom_ext_key R \<le> rom_ext_key (libhoth_ot_boot_romext resp) \<and>
    rom_ext_key (libhoth_ot_staged_romext resp) = rom_ext_key R"
  by (auto simp: libhoth_update_complete_def app_cmp_0 rom_ext_cmp)

lemma dfu_update_count_eq:
  "dfu_update_count R A resp =
    (if app_key (libhoth_ot_boot_app resp) \<noteq> app_key A \<or>
        rom_ext_key (libhoth_ot_boot_romext resp) < rom_ext_key R then 2
     else if app_key (libhoth_ot_staged_app resp) \<noteq> app_key A \<or>
        rom_ext_key (libhoth_ot_staged_romext resp) < rom_ext_key R then 1 else 0)"
  by (simp add: dfu_update_count_def Let_def app_cmp_0 rom_ext_cmp libhoth_ot_boot_app_def
      libhoth_ot_boot_romext_def libhoth_ot_staged_app_def libhoth_ot_staged_romext_def)

text \<open>One round of the loop on a conforming root of trust.\<close>

lemma dfu_install_round:
  assumes "dfu_firmware h stage ver" and "os_ok getrandom usleep" and "bundle_ok img" and "restarts flags"
  shows "\<exists>w' q'. boots_into img (version_resp_of_bytes (ver w)) (version_resp_of_bytes (ver w')) \<and>
    (\<forall>n resp. dfu_install_loop (libhoth_dfu_update getrandom usleep (Some (rot_device h)) (Some img) flags)
        (libhoth_opentitan_version (Some (rot_device h))) (bundle_rom_ext img) (bundle_app img) (Suc n) resp (w, q) =
      dfu_install_loop (libhoth_dfu_update getrandom usleep (Some (rot_device h)) (Some img) flags)
        (libhoth_opentitan_version (Some (rot_device h))) (bundle_rom_ext img) (bundle_app img) n
        (version_resp_of_bytes (ver w')) (w', q'))"
proof -
  obtain w1 q1 where u: "libhoth_dfu_update getrandom usleep (Some (rot_device h)) (Some img) flags (w, q) =
      (HOTH_SUCCESS, (w1, q1))"
    and b: "boots_into img (version_resp_of_bytes (ver w)) (version_resp_of_bytes (ver w1))"
    using dfu_update_firmware [OF assms] by blast
  obtain q2 where v: "libhoth_opentitan_version (Some (rot_device h)) (w1, q1) =
      (Inr (version_resp_of_bytes (ver w1)), (w1, q2))"
    using opentitan_version_firmware [OF assms(1)] by blast
  have "libhoth_ot_check_update_successful (version_resp_of_bytes (ver w1)) (bundle_rom_ext img) (bundle_app img)"
    using b by (simp add: libhoth_ot_check_update_successful_def boots_into_def app_cmp_0 rom_ext_cmp)
  with u v b show ?thesis by (intro exI [of _ w1] exI [of _ q2]) simp
qed

lemma install_firmware_unfold:
  assumes "dfu_firmware h stage ver" and "bundle_ok img"
    and "bl0_min_sec_ver (version_resp_of_bytes (ver w)) \<le> security_version (bundle_app img)"
  shows "\<exists>q1. libhoth_dfu_install_firmware getrandom usleep (Some (rot_device h)) (Some img) flags (w, q) =
    Some (case dfu_install_loop (libhoth_dfu_update getrandom usleep (Some (rot_device h)) (Some img) flags)
           (libhoth_opentitan_version (Some (rot_device h))) (bundle_rom_ext img) (bundle_app img)
           (dfu_update_count (bundle_rom_ext img) (bundle_app img) (version_resp_of_bytes (ver w)))
           (version_resp_of_bytes (ver w)) (w, q1) of
        (Inl e, s2) \<Rightarrow> (e, s2)
      | (Inr resp, s2) \<Rightarrow> (libhoth_update_complete resp (bundle_rom_ext img) (bundle_app img), s2))"
proof -
  obtain q1 where "libhoth_opentitan_version (Some (rot_device h)) (w, q) =
      (Inr (version_resp_of_bytes (ver w)), (w, q1))"
    using opentitan_version_firmware [OF assms(1)] by blast
  then show ?thesis
    using assms(2,3) by (intro exI [of _ q1])
      (simp add: libhoth_dfu_install_firmware_def extract_bundle not_less [symmetric])
qed

text \<open>
  A slot that does not hold the bundle: another application or an older ROM_EXT. The application
  and ROM_EXT of both slots are those of the bundle.
\<close>

definition outdated :: "bytes \<Rightarrow> opentitan_image_version \<Rightarrow> opentitan_image_version \<Rightarrow> bool" where
  "outdated img a r \<longleftrightarrow>
    app_key a \<noteq> app_key (bundle_app img) \<or> rom_ext_key r < rom_ext_key (bundle_rom_ext img)"

definition both_slots :: "bytes \<Rightarrow> opentitan_get_version_resp \<Rightarrow> bool" where
  "both_slots img resp \<longleftrightarrow>
    app_key (libhoth_ot_boot_app resp) = app_key (bundle_app img) \<and>
    app_key (libhoth_ot_staged_app resp) = app_key (bundle_app img) \<and>
    rom_ext_key (libhoth_ot_boot_romext resp) = rom_ext_key (bundle_rom_ext img) \<and>
    rom_ext_key (libhoth_ot_staged_romext resp) = rom_ext_key (bundle_rom_ext img)"

lemma dfu_update_count_outdated:
  "dfu_update_count (bundle_rom_ext img) (bundle_app img) resp =
    (if outdated img (libhoth_ot_boot_app resp) (libhoth_ot_boot_romext resp) then 2
     else if outdated img (libhoth_ot_staged_app resp) (libhoth_ot_staged_romext resp) then 1 else 0)"
  by (simp add: dfu_update_count_eq outdated_def)

lemma update_complete_current:
  assumes "\<not> outdated img (libhoth_ot_boot_app resp) (libhoth_ot_boot_romext resp)"
    and "\<not> outdated img (libhoth_ot_staged_app resp) (libhoth_ot_staged_romext resp)"
  shows "libhoth_update_complete resp (bundle_rom_ext img) (bundle_app img) =
    (if rom_ext_key (libhoth_ot_staged_romext resp) = rom_ext_key (bundle_rom_ext img) then HOTH_SUCCESS
     else cmd_err LIBHOTH_ERR_DFU_ROMEXT_MISMATCH)"
  using assms by (auto simp: outdated_def libhoth_update_complete_def app_cmp_0 rom_ext_cmp)

lemma install_outcome:
  assumes "dfu_firmware h stage ver" and "os_ok getrandom usleep" and "bundle_ok img" and "restarts flags"
    and "resp = version_resp_of_bytes (ver w)"
    and "bl0_min_sec_ver resp \<le> security_version (bundle_app img)"
  shows "\<exists>res w' q'. libhoth_dfu_install_firmware getrandom usleep (Some (rot_device h)) (Some img) flags (w, q) =
      Some (res, (w', q')) \<and>
    (if \<not> outdated img (libhoth_ot_boot_app resp) (libhoth_ot_boot_romext resp) \<and>
        \<not> outdated img (libhoth_ot_staged_app resp) (libhoth_ot_staged_romext resp)
     then w' = w \<and> res =
       (if rom_ext_key (libhoth_ot_staged_romext resp) = rom_ext_key (bundle_rom_ext img) then HOTH_SUCCESS
        else cmd_err LIBHOTH_ERR_DFU_ROMEXT_MISMATCH)
     else if outdated img (libhoth_ot_boot_app resp) (libhoth_ot_boot_romext resp) \<or>
        rom_ext_key (libhoth_ot_boot_romext resp) = rom_ext_key (bundle_rom_ext img)
     then res = HOTH_SUCCESS \<and> both_slots img (version_resp_of_bytes (ver w'))
     else res = cmd_err LIBHOTH_ERR_DFU_ROMEXT_MISMATCH \<and> boots_into img resp (version_resp_of_bytes (ver w')))"
proof -
  let ?R = "bundle_rom_ext img" and ?A = "bundle_app img" and ?n = "dfu_update_count (bundle_rom_ext img) (bundle_app img) resp"
  let ?v = "\<lambda>w. version_resp_of_bytes (ver w)"
  let ?loop = "dfu_install_loop (libhoth_dfu_update getrandom usleep (Some (rot_device h)) (Some img) flags)
    (libhoth_opentitan_version (Some (rot_device h))) ?R ?A"
  let ?b = "outdated img (libhoth_ot_boot_app resp) (libhoth_ot_boot_romext resp)"
  let ?s = "outdated img (libhoth_ot_staged_app resp) (libhoth_ot_staged_romext resp)"
  obtain q1 where inst: "libhoth_dfu_install_firmware getrandom usleep (Some (rot_device h)) (Some img) flags (w, q) =
      Some (case ?loop ?n resp (w, q1) of (Inl e, s2) \<Rightarrow> (e, s2)
        | (Inr resp, s2) \<Rightarrow> (libhoth_update_complete resp ?R ?A, s2))"
    using install_firmware_unfold [OF assms(1,3) assms(6) [unfolded assms(5)], of getrandom usleep flags q]
    unfolding assms(5) by blast
  obtain w1 q2 where r1: "boots_into img resp (?v w1)" "\<And>n r. ?loop (Suc n) r (w, q1) = ?loop n (?v w1) (w1, q2)"
    using dfu_install_round [OF assms(1-4), of w q1] unfolding assms(5) by blast
  obtain w2 q3 where r2: "boots_into img (?v w1) (?v w2)" "\<And>n r. ?loop (Suc n) r (w1, q2) = ?loop n (?v w2) (w2, q3)"
    using dfu_install_round [OF assms(1-4), of w1 q2] by blast
  consider "?b" | "\<not> ?b" "?s" | "\<not> ?b" "\<not> ?s" by blast
  then show ?thesis
  proof cases
    case 1
    then have "?loop ?n resp (w, q1) = (Inr (?v w2), (w2, q3))"
      using r1(2) r2(2) by (simp add: dfu_update_count_outdated numeral_2_eq_2)
    moreover have both: "both_slots img (?v w2)" using r1(1) r2(1) by (simp add: both_slots_def boots_into_def)
    then have "libhoth_update_complete (?v w2) ?R ?A = HOTH_SUCCESS" by (simp add: both_slots_def update_complete_iff)
    ultimately show ?thesis using inst both 1 by simp
  next
    case 2
    then have l: "?loop ?n resp (w, q1) = (Inr (?v w1), (w1, q2))"
      using r1(2) [of 0] by (simp add: dfu_update_count_outdated)
    have "libhoth_update_complete (?v w1) ?R ?A =
        (if rom_ext_key (libhoth_ot_boot_romext resp) = rom_ext_key ?R then HOTH_SUCCESS
         else cmd_err LIBHOTH_ERR_DFU_ROMEXT_MISMATCH)"
      using r1(1) 2(1) update_complete_current [of img "?v w1"] by (simp add: boots_into_def outdated_def)
    then show ?thesis using inst l 2 r1(1) by (auto simp: both_slots_def boots_into_def outdated_def)
  next
    case 3
    then have "?loop ?n resp (w, q1) = (Inr resp, (w, q1))" by (simp add: dfu_update_count_outdated)
    then show ?thesis using inst 3 update_complete_current [OF 3] by simp
  qed
qed


text \<open>A root of trust with two slots per image: the staged bundle, what is booted, what is staged.\<close>

type_synonym slot_pair = "opentitan_image_version \<times> opentitan_image_version"
type_synonym dfu_world = "bytes \<times> slot_pair \<times> slot_pair"

definition version_bytes :: "opentitan_image_version \<Rightarrow> bytes" where
  "version_bytes v = le_bytes 4 (major v) @ le_bytes 4 (minor v) @ le_bytes 4 (security_version v) @ replicate 52 0"

definition dfu_versions :: "dfu_world \<Rightarrow> bytes" where
  "dfu_versions w = (case w of (stage, (bR, bA), (sR, sA)) \<Rightarrow>
    version_bytes bR @ version_bytes sR @ le_bytes 4 kOpentitanBootSlotA @ replicate 12 0 @
    version_bytes bA @ version_bytes sA @ le_bytes 4 kOpentitanBootSlotA @ replicate 12 0 @ replicate 56 0)"

definition dfu_device :: "dfu_world rot_handler" where
  "dfu_device c v p w = (case w of (stage, booted, staged) \<Rightarrow>
     if c = HOTH_CMD_DFU_WRITE then
       ((0, []), ((if u32_at 12 p = HOTH_DFU_WRITE_FLAGS_NEW_SESSION then [] else stage) @ drop 16 p, booted, staged))
     else if c = HOTH_CMD_DFU_COMPLETE then
       ((0, []), ([], (bundle_rom_ext stage, bundle_app stage), booted))
     else ((0, dfu_versions w), w))"

definition padded_version :: "opentitan_image_version \<Rightarrow> opentitan_image_version" where
  "padded_version v = \<lparr>major = major v, minor = minor v, security_version = security_version v,
     ot_reserved = [0, 0, 0], timestamp = 0, measurement = replicate 8 0\<rparr>"

lemma length_version_bytes [simp]: "length (version_bytes v) = 64"
  by (simp add: version_bytes_def)

lemma image_version_at_prefix: "k = length xs \<Longrightarrow> image_version_at k (xs @ bs) = image_version_at 0 bs"
  by (simp add: image_version_at_def u32s_at_def field_defs add.assoc)

lemma le_nat_zeros [simp]: "le_nat (replicate n 0) = 0"
  by (induction n) simp_all

lemma le_word_zeros [simp]: "le_word (replicate n 0) = 0"
  by (simp add: le_word_def)

lemma byte_range_zeros:
  "length xs \<le> k \<Longrightarrow> k + n \<le> length xs + m \<Longrightarrow> byte_range k n (xs @ replicate m 0 @ ys) = replicate n 0"
  by (simp add: byte_range_def min_def)

lemma u32s_at_zeros:
  "length xs \<le> k \<Longrightarrow> k + 4 * n \<le> length xs + m \<Longrightarrow> u32s_at k n (xs @ replicate m 0 @ ys) = replicate n 0"
  by (intro nth_equalityI) (simp_all add: u32s_at_def u32_at_def byte_range_zeros le_word_def)

lemma image_version_of_bytes: "image_version_at 0 (version_bytes v @ ys) = padded_version v"
proof -
  let ?h = "le_bytes 4 (major v) @ le_bytes 4 (minor v) @ le_bytes 4 (security_version v)"
  let ?b = "?h @ replicate 52 0 @ ys"
  have "u32s_at 12 3 ?b = replicate 3 0" "u32s_at 32 8 ?b = replicate 8 0"
    by (rule u32s_at_zeros; simp)+
  moreover have "byte_range 24 8 ?b = replicate 8 0" by (rule byte_range_zeros) simp_all
  then have "u64_at 24 ?b = 0" by (simp only: u64_at_def le_word_zeros)
  moreover have "u32_at 0 ?b = major v" "u32_at 4 ?b = minor v" "u32_at 8 ?b = security_version v"
    by (simp_all add: u32_at_def byte_range_def)
  moreover have "version_bytes v @ ys = ?b" by (simp add: version_bytes_def)
  moreover have "replicate 3 (0 :: u32) = [0, 0, 0]" by (simp add: numeral_3_eq_3)
  ultimately show ?thesis by (simp only: image_version_at_def padded_version_def add_0)
qed

lemma dfu_versions_parsed:
  fixes stage :: bytes and bR bA sR sA :: opentitan_image_version
  defines "r \<equiv> version_resp_of_bytes (dfu_versions (stage, (bR, bA), (sR, sA)))"
  shows "libhoth_ot_boot_app r = padded_version bA" "libhoth_ot_staged_app r = padded_version sA"
    "libhoth_ot_boot_romext r = padded_version bR" "libhoth_ot_staged_romext r = padded_version sR"
    "bl0_min_sec_ver r = 0"
proof -
  let ?slot = "le_bytes 4 kOpentitanBootSlotA @ replicate 12 0"
  let ?rom = "version_bytes bR @ version_bytes sR @ ?slot"
  let ?app = "version_bytes bA @ version_bytes sA @ ?slot"
  have v: "dfu_versions (stage, (bR, bA), (sR, sA)) = ?rom @ ?app @ replicate 56 0"
    by (simp add: dfu_versions_def)
  have at: "image_version_at (length xs) (xs @ version_bytes u @ ys) = padded_version u" for xs u ys
    by (simp only: image_version_at_prefix [OF refl] image_version_of_bytes)
  have "image_version_at 0 (?rom @ ?app @ replicate 56 0) = padded_version bR"
    using at [of "[]" bR] by simp
  moreover have "image_version_at 64 (?rom @ ?app @ replicate 56 0) = padded_version sR"
    using at [of "version_bytes bR" sR] by simp
  moreover have "image_version_at 144 (?rom @ ?app @ replicate 56 0) = padded_version bA"
    using at [of ?rom bA] by simp
  moreover have "image_version_at 208 (?rom @ ?app @ replicate 56 0) = padded_version sA"
    using at [of "?rom @ version_bytes bA" sA] by simp
  moreover have "u32_at 128 (?rom @ ?app @ replicate 56 0) = kOpentitanBootSlotA"
    "u32_at 272 (?rom @ ?app @ replicate 56 0) = kOpentitanBootSlotA"
    by (simp_all add: u32_at_def byte_range_def)
  moreover have "byte_range 292 4 ((?rom @ ?app) @ replicate 56 0 @ []) = replicate 4 0"
    by (rule byte_range_zeros) simp_all
  then have "u32_at 292 (?rom @ ?app @ replicate 56 0) = 0"
    by (simp only: u32_at_def append_assoc append_Nil2 le_word_zeros)
  ultimately show "libhoth_ot_boot_app r = padded_version bA" "libhoth_ot_staged_app r = padded_version sA"
    "libhoth_ot_boot_romext r = padded_version bR" "libhoth_ot_staged_romext r = padded_version sR"
    "bl0_min_sec_ver r = 0"
    unfolding r_def v
    by (simp_all add: version_resp_of_bytes_def boot_info_at_def libhoth_ot_boot_app_def libhoth_ot_staged_app_def
        libhoth_ot_boot_romext_def libhoth_ot_staged_romext_def bootslot_int_def slot_of_def)
qed

lemma padded_keys [simp]:
  "app_key (padded_version v) = app_key v" "rom_ext_key (padded_version v) = rom_ext_key v"
  by (simp_all add: padded_version_def app_key_def rom_ext_key_def)

lemma dfu_device_conforms: "dfu_firmware dfu_device fst dfu_versions"
proof -
  have c: "HOTH_CMD_DFU_WRITE \<noteq> HOTH_CMD_DFU_COMPLETE" "HOTH_OPENTITAN_GET_VERSION \<noteq> HOTH_CMD_DFU_WRITE"
    "HOTH_OPENTITAN_GET_VERSION \<noteq> HOTH_CMD_DFU_COMPLETE"
    by (simp_all add: HOTH_CMD_DFU_WRITE_def HOTH_CMD_DFU_COMPLETE_def HOTH_OPENTITAN_GET_VERSION_def)
  have f: "u32_at 12 (dfu_write_request sid fl d) = fl" "drop 16 (dfu_write_request sid fl d) = d" for sid fl d
    by (simp_all add: dfu_write_request_def session_bytes_def u32_at_def byte_range_def)
  have l: "length (dfu_versions w) = 344" for w
    by (cases w) (auto simp: dfu_versions_def split: prod.split)
  have b: "boots_into stage (version_resp_of_bytes (dfu_versions (stage, (bR, bA), (sR, sA))))
      (version_resp_of_bytes (dfu_versions ([], (bundle_rom_ext stage, bundle_app stage), (bR, bA))))"
    for stage bR bA sR sA
    unfolding boots_into_def dfu_versions_parsed by simp
  show ?thesis
    unfolding dfu_firmware_def dfu_device_def
    using c f l b by (auto simp: dfu_versions_def split: prod.splits)
qed

definition demo_bundle :: bytes where
  "demo_bundle = ot_magic @ replicate 24 0 @ le_bytes 4 (0 :: u32) @ replicate 66344 0"

lemma demo_bundle_ok: "bundle_ok demo_bundle"
  by (simp add: bundle_ok_def bundle_offset_def demo_bundle_def smallest_fw_def ot_offsets byte_range_def le_nat_le_bytes)


text \<open>
  A newer ROM_EXT in the staging slot is never replaced and never accepted. When both
  application slots and the booted ROM_EXT are as desired and the staged ROM_EXT is newer than the
  bundle's, no update is performed, since none counts as needed, and the installation fails with a
  mismatch: the count tests the staged ROM_EXT with \<open>< 0\<close>, the final check with \<open>!= 0\<close>.
\<close>

theorem dfu_install_newer_rom_ext:
  assumes "dfu_firmware h stage ver" and "bundle_ok img" and "resp = version_resp_of_bytes (ver w)"
    and "bl0_min_sec_ver resp \<le> security_version (bundle_app img)"
    and "app_key (libhoth_ot_boot_app resp) = app_key (bundle_app img)"
    and "app_key (libhoth_ot_staged_app resp) = app_key (bundle_app img)"
    and "rom_ext_key (bundle_rom_ext img) \<le> rom_ext_key (libhoth_ot_boot_romext resp)"
    and "rom_ext_key (bundle_rom_ext img) < rom_ext_key (libhoth_ot_staged_romext resp)"
  shows "\<exists>q'. libhoth_dfu_install_firmware getrandom usleep (Some (rot_device h)) (Some img) flags (w, q) =
    Some (cmd_err LIBHOTH_ERR_DFU_ROMEXT_MISMATCH, (w, q'))"
proof -
  have n: "dfu_update_count (bundle_rom_ext img) (bundle_app img) resp = 0"
    using assms(5-8) by (simp add: dfu_update_count_eq)
  have e: "libhoth_update_complete resp (bundle_rom_ext img) (bundle_app img) = cmd_err LIBHOTH_ERR_DFU_ROMEXT_MISMATCH"
    using assms(5-8) by (simp add: libhoth_update_complete_def app_cmp_0 rom_ext_cmp)
  show ?thesis
    using install_firmware_unfold [OF assms(1,2) assms(4) [unfolded assms(3)], of getrandom usleep flags q] n e
    unfolding assms(3) [symmetric] by auto
qed

theorem dfu_install_newer_rom_ext_witness:
  "\<exists>q'. libhoth_dfu_install_firmware (\<lambda>s. (None, s)) (\<lambda>_ s. s) (Some (rot_device dfu_device)) (Some demo_bundle) 1
      (([], (bundle_rom_ext demo_bundle, bundle_app demo_bundle),
        (padded_version \<lparr>major = 0, minor = 0, security_version = 1, ot_reserved = [], timestamp = 0, measurement = []\<rparr>,
         bundle_app demo_bundle)), []) =
    Some (cmd_err LIBHOTH_ERR_DFU_ROMEXT_MISMATCH,
      (([], (bundle_rom_ext demo_bundle, bundle_app demo_bundle),
        (padded_version \<lparr>major = 0, minor = 0, security_version = 1, ot_reserved = [], timestamp = 0, measurement = []\<rparr>,
         bundle_app demo_bundle)), q'))"
proof -
  have "bundle_rom_ext demo_bundle = zero_version"
    by (simp add: versions_from_def bundle_offset_def demo_bundle_def ot_offsets u32_at_def byte_range_def
        le_nat_le_bytes zero_version_def)
  then have k: "rom_ext_key (bundle_rom_ext demo_bundle) <
      rom_ext_key \<lparr>major = 0, minor = 0, security_version = 1, ot_reserved = [], timestamp = 0, measurement = []\<rparr>"
    by (simp add: rom_ext_key_def app_key_def zero_version_def)
  show ?thesis
    by (rule dfu_install_newer_rom_ext [OF dfu_device_conforms demo_bundle_ok refl])
      (use k in \<open>simp_all only: dfu_versions_parsed padded_keys, simp_all\<close>)
qed

end
