(* ===== verification/Authz_Record.thy ===== *)
theory Authz_Record
  imports Rot_Peripherals Hoth_Text
begin

text \<open>
  \<open>protocol/authz_record.c\<close>: the authorization record in memory, the commands that read, build,
  set and erase it, and its hexadecimal form. A record is a structure; \<open>record_bytes\<close> is its
  memory, and the conversion from hexadecimal writes memory.
\<close>

section \<open>Layout\<close>

definition HOTH_PRV_CMD_HOTH_SET_AUTHZ_RECORD :: u16 where "HOTH_PRV_CMD_HOTH_SET_AUTHZ_RECORD = 0x0017"
definition HOTH_PRV_CMD_HOTH_GET_AUTHZ_RECORD :: u16 where "HOTH_PRV_CMD_HOTH_GET_AUTHZ_RECORD = 0x0018"
definition HOTH_PRV_CMD_HOTH_GET_AUTHZ_RECORD_NONCE :: u16 where
  "HOTH_PRV_CMD_HOTH_GET_AUTHZ_RECORD_NONCE = 0x0019"
definition AUTHORIZATION_RECORD_SIZE :: nat where "AUTHORIZATION_RECORD_SIZE = 464"

definition AUTHORIZATION_RECORD_MAGIC :: bytes where
  "AUTHORIZATION_RECORD_MAGIC = map of_char ''AUTHZREC''"

record authorization_record =
  magic :: bytes
  signature :: "u32 list"
  ar_version :: u32
  reserved_0 :: u32
  ar_size :: u32
  key_id :: u32
  flags :: u32
  faux_fuses :: bytes
  capabilities :: bytes
  dev_id_0 :: u32
  dev_id_1 :: u32
  authorization_nonce :: "u32 list"

record hoth_authz_record_get_response =
  get_index :: u8
  valid :: u8
  get_reserved :: bytes
  get_record :: authorization_record

record hoth_authz_record_get_nonce_response =
  nonce_words :: "u32 list"
  ro_supported_key_id :: u32
  rw_supported_key_id :: u32

definition words_bytes :: "u32 list \<Rightarrow> bytes" where
  "words_bytes ws = concat (map (le_bytes 4) ws)"

definition words_at :: "nat \<Rightarrow> nat \<Rightarrow> bytes \<Rightarrow> u32 list" where
  "words_at k n bs = map (\<lambda>i. u32_at (k + 4 * i) bs) [0..<n]"

definition record_bytes :: "authorization_record \<Rightarrow> bytes" where
  "record_bytes r =
    magic r @ words_bytes (signature r) @ le_bytes 4 (ar_version r) @ le_bytes 4 (reserved_0 r)
    @ le_bytes 4 (ar_size r) @ le_bytes 4 (key_id r) @ le_bytes 4 (flags r) @ faux_fuses r
    @ capabilities r @ le_bytes 4 (dev_id_0 r) @ le_bytes 4 (dev_id_1 r)
    @ words_bytes (authorization_nonce r)"

definition record_of_bytes :: "bytes \<Rightarrow> authorization_record" where
  "record_of_bytes bs =
    \<lparr>magic = byte_range 0 8 bs, signature = words_at 8 96 bs, ar_version = u32_at 392 bs,
     reserved_0 = u32_at 396 bs, ar_size = u32_at 400 bs, key_id = u32_at 404 bs, flags = u32_at 408 bs,
     faux_fuses = byte_range 412 4 bs, capabilities = byte_range 416 8 bs, dev_id_0 = u32_at 424 bs,
     dev_id_1 = u32_at 428 bs, authorization_nonce = words_at 432 8 bs\<rparr>"

text \<open>The arrays of a record have the lengths of the structure.\<close>

definition record_wf :: "authorization_record \<Rightarrow> bool" where
  "record_wf r \<longleftrightarrow> length (magic r) = 8 \<and> length (signature r) = 96 \<and> length (faux_fuses r) = 4 \<and>
    length (capabilities r) = 8 \<and> length (authorization_nonce r) = 8"

section \<open>The commands\<close>

definition set_request :: "u8 \<Rightarrow> bytes \<Rightarrow> bytes" where
  "set_request erase rec = [0, erase, 0, 0] @ rec"

definition libhoth_authz_record_erase :: "'s libhoth_device option \<Rightarrow> 's \<Rightarrow> (bytes, 's) hoth_result" where
  "libhoth_authz_record_erase dev s =
    hostcmd dev (HOTH_CMD_BOARD_SPECIFIC_BASE + HOTH_PRV_CMD_HOTH_SET_AUTHZ_RECORD) 0
      (set_request 1 (replicate AUTHORIZATION_RECORD_SIZE 0)) 0 False s"

definition libhoth_authz_record_read ::
  "'s libhoth_device option \<Rightarrow> hoth_authz_record_get_response option \<Rightarrow> 's
    \<Rightarrow> (hoth_authz_record_get_response, 's) hoth_result" where
  "libhoth_authz_record_read dev resp s =
    (if Option.is_none resp then (Inl (cmd_err LIBHOTH_ERR_INVALID_PARAMETER), s)
     else
       (case hostcmd dev (HOTH_CMD_BOARD_SPECIFIC_BASE + HOTH_PRV_CMD_HOTH_GET_AUTHZ_RECORD) 0
              [0, 0, 0, 0] (4 + AUTHORIZATION_RECORD_SIZE) False s of
          (Inl e, s') \<Rightarrow> (Inl e, s')
        | (Inr r, s') \<Rightarrow>
            (Inr \<lparr>get_index = r ! 0, valid = r ! 1, get_reserved = byte_range 2 2 r,
                  get_record = record_of_bytes (drop 4 r)\<rparr>, s')))"

text \<open>The record is built in place: the result has the error and the record as it is then.\<close>

definition blank_record :: "u32 \<Rightarrow> authorization_record" where
  "blank_record caps =
    \<lparr>magic = AUTHORIZATION_RECORD_MAGIC, signature = replicate 96 0, ar_version = 1, reserved_0 = 0,
     ar_size = word_of_nat AUTHORIZATION_RECORD_SIZE, key_id = 0, flags = 0, faux_fuses = replicate 4 0,
     capabilities = le_bytes 4 caps @ replicate 4 0, dev_id_0 = 0, dev_id_1 = 0,
     authorization_nonce = replicate 8 0\<rparr>"

definition nonce_response_of_bytes :: "bytes \<Rightarrow> hoth_authz_record_get_nonce_response" where
  "nonce_response_of_bytes r =
    \<lparr>nonce_words = words_at 0 8 r, ro_supported_key_id = u32_at 32 r, rw_supported_key_id = u32_at 36 r\<rparr>"

definition libhoth_authz_record_build ::
  "'s libhoth_device option \<Rightarrow> u32 \<Rightarrow> authorization_record option \<Rightarrow> 's
    \<Rightarrow> (libhoth_error \<times> authorization_record option) \<times> 's" where
  "libhoth_authz_record_build dev caps rec s =
    (if Option.is_none rec then ((cmd_err LIBHOTH_ERR_INVALID_PARAMETER, None), s)
     else
       let rec = blank_record caps in
       case libhoth_chipinfo dev (Some \<lparr>chip_version = 0, chip_data = Open_Titan_Device_Id []\<rparr>) s of
         (Inl e, s1) \<Rightarrow> ((e, Some rec), s1)
       | (Inr chip, s1) \<Rightarrow>
         (case chip_data chip of
            Open_Titan_Device_Id _ \<Rightarrow> ((cmd_err LIBHOTH_ERR_FAIL, Some rec), s1)
          | Hoth_Device_Id did \<Rightarrow>
            if chip_version chip \<noteq> 0 then ((cmd_err LIBHOTH_ERR_FAIL, Some rec), s1)
            else
              let rec = rec\<lparr>dev_id_0 := ucast (hardware_identity did AND 0xffffffff),
                            dev_id_1 := ucast (drop_bit 32 (hardware_identity did))\<rparr> in
              case hostcmd dev (HOTH_CMD_BOARD_SPECIFIC_BASE + HOTH_PRV_CMD_HOTH_GET_AUTHZ_RECORD_NONCE) 0 []
                     40 False s1 of
                (Inl e, s2) \<Rightarrow> ((e, Some rec), s2)
              | (Inr r, s2) \<Rightarrow>
                let nonce = nonce_response_of_bytes r in
                if ro_supported_key_id nonce = 0 then ((cmd_err LIBHOTH_ERR_FAIL, Some rec), s2)
                else if ro_supported_key_id nonce \<noteq> rw_supported_key_id nonce
                then ((cmd_err LIBHOTH_ERR_FAIL, Some rec), s2)
                else ((HOTH_SUCCESS, Some (rec\<lparr>key_id := ro_supported_key_id nonce,
                                                authorization_nonce := nonce_words nonce\<rparr>)), s2)))"

definition libhoth_authz_record_set ::
  "'s libhoth_device option \<Rightarrow> authorization_record option \<Rightarrow> 's \<Rightarrow> (bytes, 's) hoth_result" where
  "libhoth_authz_record_set dev rec s =
    (case rec of None \<Rightarrow> (Inl (cmd_err LIBHOTH_ERR_INVALID_PARAMETER), s)
     | Some r \<Rightarrow>
         hostcmd dev (HOTH_CMD_BOARD_SPECIFIC_BASE + HOTH_PRV_CMD_HOTH_SET_AUTHZ_RECORD) 0
           (set_request 0 (record_bytes r)) 0 False s)"

section \<open>Hexadecimal form\<close>

definition libhoth_authorization_record_print_hex_string :: "authorization_record option \<Rightarrow> int \<times> string" where
  "libhoth_authorization_record_print_hex_string rec =
    (case rec of None \<Rightarrow> (-1, [])
     | Some r \<Rightarrow> (0, concat (map (\<lambda>b. hex_byte b) (record_bytes r)) @ [CHR 0x0A]))"

text \<open>
  \<open>strtoul\<close> in base 16 of two characters, truncated to a byte: leading white space and one sign
  are skipped, then come digits, possibly after the prefix \<open>0x\<close>, up to the first other
  character.
\<close>

definition is_space :: "char \<Rightarrow> bool" where
  "is_space c \<longleftrightarrow> c = CHR '' '' \<or> (9 \<le> (of_char c :: nat) \<and> (of_char c :: nat) \<le> 13)"

definition strtoul2 :: "char \<Rightarrow> char \<Rightarrow> u8" where
  "strtoul2 c d =
    (case hex_val c of
       Some h \<Rightarrow>
         (case hex_val d of Some l \<Rightarrow> word_of_nat (16 * h + l) | None \<Rightarrow> word_of_nat h)
     | None \<Rightarrow>
         (case hex_val d of None \<Rightarrow> 0
          | Some l \<Rightarrow>
              if c = CHR ''-'' then - word_of_nat l
              else if c = CHR ''+'' \<or> is_space c then word_of_nat l
              else 0))"

text \<open>The loop writes \<open>out[j]\<close> before it looks at it; the result is the code and the memory.\<close>

fun from_hex_loop :: "string \<Rightarrow> nat \<Rightarrow> bytes \<Rightarrow> int \<times> bytes" where
  "from_hex_loop (c # d # cs) j out =
    (let b = strtoul2 c d; out' = out[j := b]
     in if b = 0 \<and> (c \<noteq> CHR ''0'' \<or> d \<noteq> CHR ''0'') then (-1, out') else from_hex_loop cs (j + 1) out')"
| "from_hex_loop _ j out = (0, out)"

definition libhoth_authorization_record_from_hex_string ::
  "bytes option \<Rightarrow> string option \<Rightarrow> int \<times> bytes option" where
  "libhoth_authorization_record_from_hex_string rec buf =
    (case rec of None \<Rightarrow> (-1, None)
     | Some out \<Rightarrow>
       (case buf of None \<Rightarrow> (-1, Some out)
        | Some cs \<Rightarrow>
            if length cs \<noteq> 2 * AUTHORIZATION_RECORD_SIZE then (-1, Some out)
            else (case from_hex_loop cs 0 out of (ret, out') \<Rightarrow> (ret, Some out'))))"

section \<open>Memory and hexadecimal form\<close>

lemma length_words_bytes [simp]: "length (words_bytes ws) = 4 * length ws"
  by (induction ws) (simp_all add: words_bytes_def)

lemma length_words_at [simp]: "length (words_at k n bs) = n"
  by (simp add: words_at_def)

lemma words_at_words_bytes:
  "k = length xs \<Longrightarrow> n = length ws \<Longrightarrow> words_at k n (xs @ words_bytes ws @ ys) = ws"
proof (induction ws arbitrary: k n xs)
  case Nil
  then show ?case by (simp add: words_at_def)
next
  case (Cons w ws)
  have "words_at (k + 4) (length ws) ((xs @ le_bytes 4 w) @ words_bytes ws @ ys) = ws"
    using Cons.prems by (intro Cons.IH) simp_all
  then have "map (\<lambda>i. u32_at (k + 4 * Suc i) (xs @ words_bytes (w # ws) @ ys)) [0..<length ws] = ws"
    by (simp add: words_at_def words_bytes_def add.assoc)
  moreover have "u32_at k (xs @ words_bytes (w # ws) @ ys) = w"
    using Cons.prems by (simp add: words_bytes_def)
  moreover have "words_at k n bs = u32_at k bs # map (\<lambda>i. u32_at (k + 4 * Suc i) bs) [0..<length ws]" for bs
    using Cons.prems by (simp add: words_at_def upt_conv_Cons map_Suc_upt [symmetric] o_def del: upt_Suc)
  ultimately show ?case by simp
qed

lemma length_record_bytes: "record_wf r \<Longrightarrow> length (record_bytes r) = 464"
  by (simp add: record_wf_def record_bytes_def)

lemma byte_range_at: "k = length xs \<Longrightarrow> n = length ms \<Longrightarrow> byte_range k n (xs @ ms @ ys) = ms"
  by (simp add: byte_range_def)

lemma record_of_record_bytes:
  assumes "record_wf r"
  shows "record_of_bytes (record_bytes r) = r"
proof -
  define a where "a = magic r @ words_bytes (signature r)"
  define m where "m = le_bytes 4 (ar_version r) @ le_bytes 4 (reserved_0 r) @ le_bytes 4 (ar_size r)
    @ le_bytes 4 (key_id r) @ le_bytes 4 (flags r)"
  define f where "f = faux_fuses r @ capabilities r @ le_bytes 4 (dev_id_0 r) @ le_bytes 4 (dev_id_1 r)"
  define z where "z = words_bytes (authorization_nonce r)"
  have b: "record_bytes r = a @ m @ f @ z" by (simp add: record_bytes_def a_def m_def f_def z_def)
  have l: "length (magic r) = 8" "length (signature r) = 96" "length (faux_fuses r) = 4"
    "length (capabilities r) = 8" "length (authorization_nonce r) = 8" using assms by (simp_all add: record_wf_def)
  have la: "length a = 392" "length m = 20" "length f = 20" using l by (simp_all add: a_def m_def f_def)
  have sig: "words_at 8 96 (record_bytes r) = signature r"
    using words_at_words_bytes [of 8 "magic r" 96 "signature r" "m @ f @ z"] l by (simp add: b a_def)
  have non: "words_at 432 8 (record_bytes r) = authorization_nonce r"
    using words_at_words_bytes [of 432 "a @ m @ f" 8 "authorization_nonce r" "[]"] l la by (simp add: b z_def)
  have mag: "byte_range 0 8 (record_bytes r) = magic r"
    using l by (simp add: b a_def byte_range_def)
  have mid: "u32_at 392 (record_bytes r) = ar_version r" "u32_at 396 (record_bytes r) = reserved_0 r"
    "u32_at 400 (record_bytes r) = ar_size r" "u32_at 404 (record_bytes r) = key_id r" "u32_at 408 (record_bytes r) = flags r"
    using la(1) by (simp_all add: b m_def u32_at_def byte_range_def)
  have fin: "byte_range 412 4 (record_bytes r) = faux_fuses r" "byte_range 416 8 (record_bytes r) = capabilities r"
    "u32_at 424 (record_bytes r) = dev_id_0 r" "u32_at 428 (record_bytes r) = dev_id_1 r"
    using la(1,2) l by (simp_all add: b f_def u32_at_def byte_range_def)
  show ?thesis by (simp add: record_of_bytes_def sig non mag mid fin)
qed

lemma strtoul2_hex_byte: "strtoul2 (hex_byte b ! 0) (hex_byte b ! 1) = b"
proof -
  have "unat b div 16 < 16" using unat_u8_less [of b] by (simp add: less_mult_imp_div_less)
  then have "16 * (unat b div 16 mod 16) + unat b mod 16 = unat b" by simp
  then show ?thesis by (simp add: hex_byte_unfold strtoul2_def hex_val_digit)
qed

lemma from_hex_loop_hex:
  "length bs + j \<le> length out \<Longrightarrow> from_hex_loop (concat (map (\<lambda>b. hex_byte b) bs)) j out = (0, memcpy_at j bs out)"
proof (induction bs arbitrary: j out)
  case Nil
  then show ?case by (simp add: memcpy_at_def)
next
  case (Cons b bs)
  let ?c = "hex_digits ! (unat b div 16 mod 16)" and ?d = "hex_digits ! (unat b mod 16)"
  have h: "hex_byte b = [?c, ?d]" by (rule hex_byte_unfold)
  have s: "strtoul2 ?c ?d = b" using strtoul2_hex_byte [of b] h by simp
  have z: "\<not> (b = 0 \<and> (?c \<noteq> CHR ''0'' \<or> ?d \<noteq> CHR ''0''))" by (simp add: hex_digits_def)
  have "memcpy_at (j + 1) bs (out[j := b]) = memcpy_at j (b # bs) out"
    using Cons.prems by (simp add: memcpy_at_def upd_conv_take_nth_drop min_def add.commute)
  moreover have "from_hex_loop (?c # ?d # concat (map (\<lambda>b. hex_byte b) bs)) j out =
      from_hex_loop (concat (map (\<lambda>b. hex_byte b) bs)) (j + 1) (out[j := b])"
    by (simp only: from_hex_loop.simps s Let_def z if_False)
  moreover have "from_hex_loop (concat (map (\<lambda>b. hex_byte b) bs)) (j + 1) (out[j := b]) =
      (0, memcpy_at (j + 1) bs (out[j := b]))" using Cons.prems by (intro Cons.IH) simp
  ultimately show ?case by (simp add: h)
qed

lemma length_hex_bytes: "length (concat (map (\<lambda>b. hex_byte b) bs)) = 2 * length bs"
  by (induction bs) simp_all

text \<open>
  C36: reading back what was printed, without the newline, restores the memory of the record
  whatever was there before, and the memory determines the record.
\<close>

theorem authz_record_hex_roundtrip:
  assumes "record_wf r" and "length mem = AUTHORIZATION_RECORD_SIZE"
  shows "libhoth_authorization_record_from_hex_string (Some mem)
      (Some (butlast (snd (libhoth_authorization_record_print_hex_string (Some r))))) = (0, Some (record_bytes r)) \<and>
    record_of_bytes (record_bytes r) = r"
proof
  have l: "length (record_bytes r) = 464" using assms(1) by (rule length_record_bytes)
  have p: "butlast (snd (libhoth_authorization_record_print_hex_string (Some r))) =
      concat (map (\<lambda>b. hex_byte b) (record_bytes r))"
    unfolding libhoth_authorization_record_print_hex_string_def option.case snd_conv by (rule butlast_snoc)
  have "from_hex_loop (concat (map (\<lambda>b. hex_byte b) (record_bytes r))) 0 mem = (0, memcpy_at 0 (record_bytes r) mem)"
    using l assms(2) by (intro from_hex_loop_hex) (simp add: AUTHORIZATION_RECORD_SIZE_def)
  moreover have "memcpy_at 0 (record_bytes r) mem = record_bytes r"
    using l assms(2) by (simp add: memcpy_at_def AUTHORIZATION_RECORD_SIZE_def)
  ultimately show "libhoth_authorization_record_from_hex_string (Some mem)
      (Some (butlast (snd (libhoth_authorization_record_print_hex_string (Some r))))) = (0, Some (record_bytes r))"
    unfolding p libhoth_authorization_record_from_hex_string_def option.case length_hex_bytes
    using l by (simp add: AUTHORIZATION_RECORD_SIZE_def)
  show "record_of_bytes (record_bytes r) = r" using assms(1) by (rule record_of_record_bytes)
qed

theorem authz_record_hex_roundtrip_witness:
  "libhoth_authorization_record_from_hex_string (Some (replicate 464 9))
      (Some (butlast (snd (libhoth_authorization_record_print_hex_string (Some (blank_record 5)))))) =
    (0, Some (record_bytes (blank_record 5)))"
  using authz_record_hex_roundtrip [of "blank_record 5" "replicate 464 9"]
  by (simp add: record_wf_def blank_record_def AUTHORIZATION_RECORD_MAGIC_def AUTHORIZATION_RECORD_SIZE_def)

text \<open>
  The conversion accepts text that is not hexadecimal: a digit followed by any other
  character, or a sign and a digit, counts as a byte, and only a byte that comes out as zero is
  checked.
\<close>

theorem authz_record_accepts_non_hex:
  "libhoth_authorization_record_from_hex_string (Some (replicate 464 0))
      (Some (concat (replicate 232 ''1g-1''))) = (0, Some (concat (replicate 232 [1, 0xFF])))"
proof -
  have s: "strtoul2 (CHR ''1'') (CHR ''g'') = 1" "strtoul2 (CHR ''-'') (CHR ''1'') = 0xFF"
    by (simp_all add: strtoul2_def hex_val_def)
  have "length (concat (replicate n [1, 0xFF :: u8])) + j \<le> length out \<Longrightarrow>
      from_hex_loop (concat (replicate n ''1g-1'')) j out = (0, memcpy_at j (concat (replicate n [1, 0xFF])) out)"
    for n j out
  proof (induction n arbitrary: j out)
    case 0
    then show ?case by (simp add: memcpy_at_def)
  next
    case (Suc n)
    have "from_hex_loop (concat (replicate (Suc n) ''1g-1'')) j out =
        from_hex_loop (concat (replicate n ''1g-1'')) (j + 2) (out[j := 1, j + 1 := 0xFF])"
      by (simp add: s Let_def)
    also have "\<dots> = (0, memcpy_at (j + 2) (concat (replicate n [1, 0xFF])) (out[j := 1, j + 1 := 0xFF]))"
      using Suc.prems by (intro Suc.IH) simp
    also have "memcpy_at (j + 2) (concat (replicate n [1, 0xFF])) (out[j := 1, j + 1 := 0xFF]) =
        memcpy_at j (concat (replicate (Suc n) [1, 0xFF])) out"
      using Suc.prems by (intro nth_equalityI) (auto simp: nth_memcpy_at nth_list_update nth_append nth_Cons')
    finally show ?case .
  qed
  from this [of 232 0 "replicate 464 0"] show ?thesis
    by (simp add: libhoth_authorization_record_from_hex_string_def AUTHORIZATION_RECORD_SIZE_def length_concat
        sum_list_replicate memcpy_at_def)
qed

section \<open>A record that was built can be set\<close>

lemma chipinfo_error: "libhoth_chipinfo dev c s = (Inl e, s') \<Longrightarrow> e \<noteq> HOTH_SUCCESS"
  by (auto simp: libhoth_chipinfo_def HOTH_SUCCESS_def hoth_err_neq_0 dest: hc.exec_error
      split: if_splits sum.splits prod.splits)

lemma hostcmd_error: "hostcmd dev c v p n w s = (Inl e, s') \<Longrightarrow> e \<noteq> HOTH_SUCCESS"
  by (auto simp: HOTH_SUCCESS_def dest: hc.exec_error)

text \<open>
  A record that is built with success, whatever the device answered, is well-formed: its
  arrays have their lengths, it carries the magic, its own size and the requested capabilities, its
  key is known, and the request that sets it fits the mailbox.
\<close>

theorem authz_record_build_wf:
  assumes "libhoth_authz_record_build dev caps rec s = ((HOTH_SUCCESS, Some r), s')"
  shows "record_wf r \<and> magic r = AUTHORIZATION_RECORD_MAGIC \<and> ar_version r = 1 \<and> unat (ar_size r) = length (record_bytes r) \<and>
    take 4 (capabilities r) = le_bytes 4 caps \<and> key_id r \<noteq> 0 \<and>
    sizeof_request + length (set_request 0 (record_bytes r)) \<le> LIBHOTH_MAILBOX_SIZE"
proof -
  let ?c = "libhoth_chipinfo dev (Some \<lparr>chip_version = 0, chip_data = Open_Titan_Device_Id []\<rparr>) s"
  have nn: "\<not> Option.is_none rec"
    using assms by (auto simp: libhoth_authz_record_build_def hoth_err_neq_0 split: if_splits)
  obtain chip s1 where c: "?c = (Inr chip, s1)"
  proof -
    obtain x t where x: "?c = (x, t)" by (cases ?c)
    show ?thesis
    proof (cases x)
      case (Inl e)
      then have "e = HOTH_SUCCESS"
        using assms nn x by (simp add: libhoth_authz_record_build_def Let_def)
      then show ?thesis using chipinfo_error [OF x [unfolded Inl]] by simp
    next
      case (Inr y)
      then show ?thesis using that x by simp
    qed
  qed
  obtain did where d: "chip_data chip = Hoth_Device_Id did" "chip_version chip = 0"
    using assms nn c by (cases "chip_data chip") (simp_all add: libhoth_authz_record_build_def Let_def split: if_splits)
  let ?h = "hostcmd dev (HOTH_CMD_BOARD_SPECIFIC_BASE + HOTH_PRV_CMD_HOTH_GET_AUTHZ_RECORD_NONCE) 0 [] 40 False s1"
  obtain n s2 where h: "?h = (Inr n, s2)"
  proof -
    obtain x t where x: "?h = (x, t)" by (cases ?h)
    show ?thesis
    proof (cases x)
      case (Inl e)
      then have "e = HOTH_SUCCESS"
        using assms nn c d x by (simp add: libhoth_authz_record_build_def Let_def)
      then show ?thesis using hostcmd_error [OF x [unfolded Inl]] by simp
    next
      case (Inr y)
      then show ?thesis using that x by simp
    qed
  qed
  have "\<exists>d0 d1 k n. k \<noteq> 0 \<and> length n = 8 \<and>
      r = (blank_record caps)\<lparr>dev_id_0 := d0, dev_id_1 := d1, key_id := k, authorization_nonce := n\<rparr>"
    using assms nn c d h unfolding libhoth_authz_record_build_def Let_def
    by (simp add: nonce_response_of_bytes_def split: if_splits) (metis length_words_at)
  then obtain d0 d1 k n where k: "k \<noteq> 0" "length n = 8"
    and r: "r = (blank_record caps)\<lparr>dev_id_0 := d0, dev_id_1 := d1, key_id := k, authorization_nonce := n\<rparr>" by blast
  have wf: "record_wf r"
    using k(2) by (simp add: r record_wf_def blank_record_def AUTHORIZATION_RECORD_MAGIC_def)
  then show ?thesis
    using k(1) length_record_bytes [OF wf]
    by (simp add: set_request_def LIBHOTH_MAILBOX_SIZE_def)
      (simp add: r blank_record_def AUTHORIZATION_RECORD_SIZE_def)
qed

definition authz_device :: "unit rot_handler" where
  "authz_device c v p w =
    (if c = HOTH_CMD_BOARD_SPECIFIC_BASE + HOTH_PRV_CMD_HOTH_CHIP_INFO then ((0, replicate 16 1), w)
     else ((0, replicate 40 1), w))"

theorem authz_record_build_wf_witness:
  "\<exists>r s'. libhoth_authz_record_build (Some (rot_device authz_device)) 5 (Some (blank_record 0)) ((), []) =
    ((HOTH_SUCCESS, Some r), s') \<and> record_wf r"
proof -
  have c: "HOTH_PRV_CMD_HOTH_GET_AUTHZ_RECORD_NONCE \<noteq> HOTH_PRV_CMD_HOTH_CHIP_INFO"
    by (simp add: HOTH_PRV_CMD_HOTH_GET_AUTHZ_RECORD_NONCE_def HOTH_PRV_CMD_HOTH_CHIP_INFO_def)
  have n: "ro_supported_key_id (nonce_response_of_bytes (replicate 40 1)) = 0x01010101"
    "rw_supported_key_id (nonce_response_of_bytes (replicate 40 1)) = 0x01010101"
  proof -
    have "byte_range 32 4 (replicate 40 (1 :: u8)) = replicate 4 1" "byte_range 36 4 (replicate 40 (1 :: u8)) = replicate 4 1"
      by (simp_all add: byte_range_def)
    moreover have "replicate 4 (1 :: u8) = [1, 1, 1, 1]" by (simp add: numeral_eq_Suc)
    ultimately show "ro_supported_key_id (nonce_response_of_bytes (replicate 40 1)) = 0x01010101"
      "rw_supported_key_id (nonce_response_of_bytes (replicate 40 1)) = 0x01010101"
      by (simp_all add: nonce_response_of_bytes_def u32_at_def le_word_def)
  qed
  let ?dev = "Some (rot_device authz_device)"
  obtain did q1 where 1: "libhoth_chipinfo ?dev (Some \<lparr>chip_version = 0, chip_data = Open_Titan_Device_Id []\<rparr>) ((), []) =
      (Inr \<lparr>chip_version = 0, chip_data = Hoth_Device_Id did\<rparr>, ((), q1))"
    by (simp add: libhoth_chipinfo_def hostcmd_rot rpc_ok authz_device_def OPENTITAN_DEVICE_ID_LEN_def)
  obtain q2 where 2: "hostcmd ?dev (HOTH_CMD_BOARD_SPECIFIC_BASE + HOTH_PRV_CMD_HOTH_GET_AUTHZ_RECORD_NONCE) 0 [] 40 False ((), q1) =
      (Inr (replicate 40 1), ((), q2))"
    using c by (simp add: hostcmd_rot rpc_ok authz_device_def)
  have "\<exists>r s'. libhoth_authz_record_build ?dev 5 (Some (blank_record 0)) ((), []) = ((HOTH_SUCCESS, Some r), s')"
    unfolding libhoth_authz_record_build_def Let_def 1 by (simp add: 2 n)
  then obtain r s' where b: "libhoth_authz_record_build ?dev 5 (Some (blank_record 0)) ((), []) = ((HOTH_SUCCESS, Some r), s')" by blast
  then show ?thesis using authz_record_build_wf [OF b] by blast
qed

end
