(* ===== verification/Panic.thy ===== *)
theory Panic
  imports Rot_Commands Hoth_Text
begin

text \<open>
  \<open>protocol/panic.c\<close>: retrieving and clearing the persistent panic record of the root of trust, the
  report that is printed from it, and the console log kept in it. The record is the memory of the
  caller's structure; the fields are read at their offsets. What is printed on standard output is
  returned.
\<close>

section \<open>Layout\<close>

definition HOTH_PRV_CMD_HOTH_PERSISTENT_PANIC_INFO :: u16 where
  "HOTH_PRV_CMD_HOTH_PERSISTENT_PANIC_INFO = 0x0014"
definition HOTH_PERSISTENT_PANIC_INFO_CHUNK_SIZE :: nat where
  "HOTH_PERSISTENT_PANIC_INFO_CHUNK_SIZE = 512"
definition sizeof_panic_info :: nat where "sizeof_panic_info = 6144"
definition sizeof_uart_buf :: nat where "sizeof_uart_buf = 4096"

datatype persistent_panic_op = PERSISTENT_PANIC_INFO_GET | PERSISTENT_PANIC_INFO_ERASE

fun panic_op_val :: "persistent_panic_op \<Rightarrow> u32" where
  "panic_op_val PERSISTENT_PANIC_INFO_GET = 0"
| "panic_op_val PERSISTENT_PANIC_INFO_ERASE = 1"

definition panic_request :: "persistent_panic_op \<Rightarrow> nat \<Rightarrow> bytes" where
  "panic_request operation index = le_bytes 4 (panic_op_val operation) @ le_bytes 4 (word_of_nat index :: u32)"

lemma length_panic_request [simp]: "length (panic_request op i) = 8"
  by (simp add: panic_request_def)

record persistent_panic_rw_version =
  epoch :: u32
  rw_major :: u32
  rw_minor :: u32

record hoth_response_persistent_panic_info =
  panic_record :: bytes
  uart_head :: u32
  uart_tail :: u32
  uart_buf :: bytes
  reserved0 :: bytes
  rw_version :: persistent_panic_rw_version
  persistent_panic_record_version :: u32

definition panic_info_of_bytes :: "bytes \<Rightarrow> hoth_response_persistent_panic_info" where
  "panic_info_of_bytes m =
    \<lparr>panic_record = byte_range 0 144 m, uart_head = u32_at 144 m, uart_tail = u32_at 148 m,
     uart_buf = byte_range 152 4096 m, reserved0 = byte_range 4248 1880 m,
     rw_version = \<lparr>epoch = u32_at 6128 m, rw_major = u32_at 6132 m, rw_minor = u32_at 6136 m\<rparr>,
     persistent_panic_record_version = u32_at 6140 m\<rparr>"

record cortex_panic_data =
  cm_regs :: "u32 list"
  frame :: "u32 list"
  mmfs :: u32
  bfar :: u32
  mfar :: u32
  shcsr :: u32
  hfsr :: u32
  dfsr :: u32

record rv32i_panic_data =
  rv_regs :: "u32 list"
  mepc :: u32
  mcause :: u32

text \<open>The union is given by its two readings.\<close>

record panic_data =
  arch :: u8
  struct_version :: u8
  pd_flags :: u8
  pd_reserved :: u8
  cm :: cortex_panic_data
  riscv :: rv32i_panic_data
  struct_size :: u32
  pd_magic :: u32

definition words_from :: "nat \<Rightarrow> nat \<Rightarrow> bytes \<Rightarrow> u32 list" where
  "words_from k n m = map (\<lambda>i. u32_at (k + 4 * i) m) [0..<n]"

definition panic_data_of_bytes :: "bytes \<Rightarrow> panic_data" where
  "panic_data_of_bytes m =
    \<lparr>arch = m ! 0, struct_version = m ! 1, pd_flags = m ! 2, pd_reserved = m ! 3,
     cm = \<lparr>cm_regs = words_from 4 12 m, frame = words_from 52 8 m, mmfs = u32_at 84 m, bfar = u32_at 88 m,
           mfar = u32_at 92 m, shcsr = u32_at 96 m, hfsr = u32_at 100 m, dfsr = u32_at 104 m\<rparr>,
     riscv = \<lparr>rv_regs = words_from 4 31 m, mepc = u32_at 128 m, mcause = u32_at 132 m\<rparr>,
     struct_size = u32_at 136 m, pd_magic = u32_at 140 m\<rparr>"

definition PANIC_DATA_MAGIC :: u32 where "PANIC_DATA_MAGIC = 0x21636e50"
definition PANIC_ARCH_CORTEX_M :: u8 where "PANIC_ARCH_CORTEX_M = 1"
definition PANIC_ARCH_RISCV_RV32I :: u8 where "PANIC_ARCH_RISCV_RV32I = 4"
definition PANIC_DATA_FLAG_FRAME_VALID :: u8 where "PANIC_DATA_FLAG_FRAME_VALID = 1"
definition PANIC_DATA_FLAG_OLD_CONSOLE :: u8 where "PANIC_DATA_FLAG_OLD_CONSOLE = 2"
definition PANIC_DATA_FLAG_OLD_HOSTCMD :: u8 where "PANIC_DATA_FLAG_OLD_HOSTCMD = 4"
definition PANIC_DATA_FLAG_OLD_HOSTEVENT :: u8 where "PANIC_DATA_FLAG_OLD_HOSTEVENT = 8"

section \<open>Retrieving and clearing\<close>

definition check_expected_response_length :: "u16 \<Rightarrow> u16 \<Rightarrow> int" where
  "check_expected_response_length len expected = (if len \<noteq> expected then -1 else 0)"

text \<open>
  The loop over the chunks, at index \<open>i\<close> with \<open>n\<close> chunks left. A response is in the caller's
  memory before its length is checked.
\<close>

fun get_panic_loop ::
  "'s libhoth_device option \<Rightarrow> nat \<Rightarrow> nat \<Rightarrow> bytes \<Rightarrow> 's \<Rightarrow> (libhoth_error \<times> bytes) \<times> 's" where
  "get_panic_loop dev i 0 mem s = ((HOTH_SUCCESS, mem), s)"
| "get_panic_loop dev i (Suc n) mem s =
    (case hostcmd dev (HOTH_CMD_BOARD_SPECIFIC_BASE + HOTH_PRV_CMD_HOTH_PERSISTENT_PANIC_INFO) 0
            (panic_request PERSISTENT_PANIC_INFO_GET i) HOTH_PERSISTENT_PANIC_INFO_CHUNK_SIZE True s of
       (Inl e, s') \<Rightarrow> ((e, mem), s')
     | (Inr r, s') \<Rightarrow>
         let mem' = memcpy_at (HOTH_PERSISTENT_PANIC_INFO_CHUNK_SIZE * i) r mem
         in if check_expected_response_length (word_of_nat (length r))
                 (word_of_nat HOTH_PERSISTENT_PANIC_INFO_CHUNK_SIZE) \<noteq> 0
            then ((cmd_err LIBHOTH_ERR_FAIL, mem'), s')
            else get_panic_loop dev (i + 1) n mem' s')"

definition libhoth_get_panic ::
  "'s libhoth_device option \<Rightarrow> bytes option \<Rightarrow> 's \<Rightarrow> (libhoth_error \<times> bytes option) \<times> 's" where
  "libhoth_get_panic dev panic_data s =
    (case panic_data of None \<Rightarrow> ((cmd_err LIBHOTH_ERR_INVALID_PARAMETER, None), s)
     | Some mem \<Rightarrow>
         (case get_panic_loop dev 0 (sizeof_panic_info div HOTH_PERSISTENT_PANIC_INFO_CHUNK_SIZE) mem s of
            ((err, mem'), s') \<Rightarrow> ((err, Some mem'), s')))"

definition libhoth_clear_persistent_panic_info ::
  "'s libhoth_device option \<Rightarrow> 's \<Rightarrow> libhoth_error \<times> 's" where
  "libhoth_clear_persistent_panic_info dev s =
    (case hostcmd dev (HOTH_CMD_BOARD_SPECIFIC_BASE + HOTH_PRV_CMD_HOTH_PERSISTENT_PANIC_INFO) 0
            (panic_request PERSISTENT_PANIC_INFO_ERASE 0) 0 True s of
       (Inl e, s') \<Rightarrow> (e, s')
     | (Inr r, s') \<Rightarrow>
         if check_expected_response_length (word_of_nat (length r)) 0 \<noteq> 0
         then (cmd_err LIBHOTH_ERR_FAIL, s') else (HOTH_SUCCESS, s'))"

section \<open>The console log\<close>

text \<open>
  The do-while loop around the ring buffer; \<open>None\<close> if it never comes back to the head. \<open>buf ! i\<close>
  is inside the buffer, as \<open>i\<close> is a remainder.
\<close>

partial_function (option) console_log_loop :: "bytes \<Rightarrow> nat \<Rightarrow> nat \<Rightarrow> bytes \<Rightarrow> bytes option" where
  "console_log_loop buf head i console =
    (let ch = buf ! i;
         console' = (if ch \<noteq> 0 then console @ [ch] else console);
         i' = (i + 1) mod sizeof_uart_buf
     in if i' \<noteq> head then console_log_loop buf head i' console' else Some console')"

text \<open>
  The outer option is termination; the inner one is NULL when the allocation fails. The string is
  its characters up to the terminating NUL that \<open>calloc\<close> provides.
\<close>

definition libhoth_get_panic_console_log ::
  "bool \<Rightarrow> hoth_response_persistent_panic_info \<Rightarrow> bytes option option" where
  "libhoth_get_panic_console_log calloc_ok pdata =
    (if \<not> calloc_ok then Some None
     else if uart_head pdata \<noteq> 0xFFFFFFFF then
       (let head = unat (uart_head pdata) mod sizeof_uart_buf
        in map_option Some (console_log_loop (uart_buf pdata) head head []))
     else Some (Some []))"

lemma console_log_loop_rotated:
  assumes "length buf = 4096" and "head < 4096" and "j < 4096"
  shows "console_log_loop buf head ((head + j) mod 4096) out =
    Some (out @ filter (\<lambda>c. c \<noteq> 0) (drop j (rotate head buf)))"
  using assms(3)
proof (induction "4096 - j" arbitrary: j out rule: less_induct)
  case less
  let ?i = "(head + j) mod 4096"
  have ch: "rotate head buf ! j = buf ! ?i" using less.prems assms(1) by (simp add: nth_rotate)
  have d: "drop j (rotate head buf) = buf ! ?i # drop (Suc j) (rotate head buf)"
    using less.prems assms(1) ch by (simp add: Cons_nth_drop_Suc [symmetric])
  have i': "(?i + 1) mod 4096 = (head + Suc j) mod 4096" by (simp add: mod_simps)
  show ?case
  proof (cases "Suc j = 4096")
    case True
    then have "(head + Suc j) mod 4096 = head" using assms(2) by simp
    moreover have "drop (Suc j) (rotate head buf) = []" using True assms(1) by simp
    ultimately show ?thesis
      using i' by (subst console_log_loop.simps) (simp add: Let_def sizeof_uart_buf_def d)
  next
    case False
    have "(head + Suc j) mod 4096 \<noteq> head"
      using False less.prems assms(2) by (cases "head + Suc j < 4096") (simp_all add: le_mod_geq)
    then have "console_log_loop buf head ?i out =
        console_log_loop buf head ((head + Suc j) mod 4096) (if buf ! ?i \<noteq> 0 then out @ [buf ! ?i] else out)"
      using i' by (subst console_log_loop.simps) (simp add: Let_def sizeof_uart_buf_def)
    also have "\<dots> = Some ((if buf ! ?i \<noteq> 0 then out @ [buf ! ?i] else out) @
        filter (\<lambda>c. c \<noteq> 0) (drop (Suc j) (rotate head buf)))"
      using False less.prems by (intro less.hyps) auto
    finally show ?thesis by (simp add: d)
  qed
qed

text \<open>
  The console log is the ring buffer read from its oldest character on, without the bytes
  that were never written; the loop ends after one round.
\<close>

theorem panic_console_log_rotated:
  assumes "length (uart_buf p) = 4096"
  shows "libhoth_get_panic_console_log True p =
    Some (Some (if uart_head p = 0xFFFFFFFF then []
                else filter (\<lambda>c. c \<noteq> 0) (rotate (unat (uart_head p) mod 4096) (uart_buf p))))"
  using console_log_loop_rotated [OF assms, of "unat (uart_head p) mod 4096" 0 "[]"]
  by (simp add: libhoth_get_panic_console_log_def Let_def sizeof_uart_buf_def)

theorem panic_console_log_rotated_witness:
  "libhoth_get_panic_console_log True
      (panic_info_of_bytes (replicate 144 0 @ le_bytes 4 (1 :: u32) @ replicate 4 0 @ [66, 65] @ replicate 5990 0)) =
    Some (Some [65, 66])"
proof -
  let ?m = "replicate 144 0 @ le_bytes 4 (1 :: u32) @ replicate 4 0 @ [66, 65] @ replicate 5990 0 :: bytes"
  have b: "uart_buf (panic_info_of_bytes ?m) = [66, 65] @ replicate 4094 0"
    by (simp add: panic_info_of_bytes_def byte_range_def)
  have h: "uart_head (panic_info_of_bytes ?m) = 1"
    by (simp add: panic_info_of_bytes_def u32_at_def byte_range_def)
  have "filter (\<lambda>c. c \<noteq> 0) (rotate 1 ([66, 65] @ replicate 4094 (0 :: u8))) = [65, 66]"
    by (simp add: rotate1_def)
  then show ?thesis
    using panic_console_log_rotated [of "panic_info_of_bytes ?m"] unfolding b h by simp
qed

section \<open>The record that is retrieved\<close>

text \<open>A firmware that answers the requests for chunks from its stored record.\<close>

definition panic_firmware :: "'w rot_handler \<Rightarrow> bytes \<Rightarrow> bool" where
  "panic_firmware h stored \<longleftrightarrow>
    (\<forall>i w. i < 12 \<longrightarrow> h (HOTH_CMD_BOARD_SPECIFIC_BASE + HOTH_PRV_CMD_HOTH_PERSISTENT_PANIC_INFO) 0
        (panic_request PERSISTENT_PANIC_INFO_GET i) w = ((0, byte_range (512 * i) 512 stored), w))"

lemma get_panic_loop_reads:
  assumes "panic_firmware h stored" and "length stored = 6144" and "length mem = 6144" and "i + n = 12"
    and "take (512 * i) mem = take (512 * i) stored"
  shows "\<exists>q'. get_panic_loop (Some (rot_device h)) i n mem (w, q) = ((HOTH_SUCCESS, stored), (w, q'))"
  using assms(3-5)
proof (induction n arbitrary: i mem q)
  case 0
  then show ?case using assms(2) by simp
next
  case (Suc n)
  let ?r = "byte_range (512 * i) 512 stored"
  let ?m = "memcpy_at (512 * i) ?r mem"
  have i: "i < 12" using Suc.prems by simp
  have lr: "length ?r = 512" using i assms(2) by simp
  have "h (HOTH_CMD_BOARD_SPECIFIC_BASE + HOTH_PRV_CMD_HOTH_PERSISTENT_PANIC_INFO) 0
      (panic_request PERSISTENT_PANIC_INFO_GET i) w = ((0, ?r), w)" using assms(1) i by (simp add: panic_firmware_def)
  then obtain q' where hc: "hostcmd (Some (rot_device h))
      (HOTH_CMD_BOARD_SPECIFIC_BASE + HOTH_PRV_CMD_HOTH_PERSISTENT_PANIC_INFO) 0
      (panic_request PERSISTENT_PANIC_INFO_GET i) HOTH_PERSISTENT_PANIC_INFO_CHUNK_SIZE True (w, q) = (Inr ?r, (w, q'))"
    using lr by (auto simp: hostcmd_rot rpc_ok HOTH_PERSISTENT_PANIC_INFO_CHUNK_SIZE_def)
  have step: "get_panic_loop (Some (rot_device h)) i (Suc n) mem (w, q) =
      get_panic_loop (Some (rot_device h)) (i + 1) n ?m (w, q')"
    using hc lr by (simp add: check_expected_response_length_def HOTH_PERSISTENT_PANIC_INFO_CHUNK_SIZE_def)
  have "take (512 * (i + 1)) ?m = take (512 * i) mem @ ?r"
    using lr i Suc.prems(1) by (simp add: memcpy_at_def min_def)
  also have "\<dots> = take (512 * (i + 1)) stored"
    unfolding distrib_left mult_1_right take_add using Suc.prems(3) by (simp add: byte_range_def)
  finally have "take (512 * (i + 1)) ?m = take (512 * (i + 1)) stored" .
  moreover have "length ?m = 6144" using lr i Suc.prems(1) by simp
  moreover have "i + 1 + n = 12" using Suc.prems(2) by simp
  ultimately show ?case unfolding step by (intro Suc.IH)
qed

text \<open>
  Retrieving the panic record from a firmware that answers from its stored record fills the
  caller's structure with exactly that record, whatever it held before.
\<close>

theorem get_panic_reads_record:
  assumes "panic_firmware h stored" and "length stored = sizeof_panic_info" and "length mem = sizeof_panic_info"
  shows "\<exists>q'. libhoth_get_panic (Some (rot_device h)) (Some mem) (w, q) = ((HOTH_SUCCESS, Some stored), (w, q'))"
  using get_panic_loop_reads [OF assms(1), of mem 0 12 w q] assms(2,3)
  by (auto simp: libhoth_get_panic_def sizeof_panic_info_def HOTH_PERSISTENT_PANIC_INFO_CHUNK_SIZE_def)

definition panic_device :: "bytes \<Rightarrow> unit rot_handler" where
  "panic_device stored c v p w = ((0, byte_range (512 * unat (u32_at 4 p)) 512 stored), w)"

theorem get_panic_reads_record_witness:
  "\<exists>q'. libhoth_get_panic (Some (rot_device (panic_device (replicate 6144 7)))) (Some (replicate 6144 0)) ((), []) =
    ((HOTH_SUCCESS, Some (replicate 6144 7)), ((), q'))"
proof -
  have "panic_firmware (panic_device (replicate 6144 7)) (replicate 6144 7)"
    by (simp add: panic_firmware_def panic_device_def panic_request_def u32_at_def byte_range_def unat_of_nat)
  then show ?thesis
    by (rule get_panic_reads_record) (simp_all add: sizeof_panic_info_def)
qed

section \<open>The printed report\<close>

definition nl :: string where "nl = [CHR 0x0A]"

definition hex8 :: "u32 \<Rightarrow> string" where "hex8 w = hex_padded hex_digits 8 (unat w)"

definition panic_arch_string :: "u8 \<Rightarrow> string" where
  "panic_arch_string a =
    (if a = PANIC_ARCH_CORTEX_M then ''ARCH_CORTEX_M''
     else if a = PANIC_ARCH_RISCV_RV32I then ''ARCH_RISCV_RV32I'' else ''arch-unknown'')"

definition print_panic_flags_string :: "u8 \<Rightarrow> string" where
  "print_panic_flags_string fl =
    (if fl AND PANIC_DATA_FLAG_FRAME_VALID \<noteq> 0 then ''FRAME_VALID,'' else [])
    @ (if fl AND PANIC_DATA_FLAG_OLD_CONSOLE \<noteq> 0 then ''OLD_CONSOLE,'' else [])
    @ (if fl AND PANIC_DATA_FLAG_OLD_HOSTCMD \<noteq> 0 then ''OLD_HOSTCMD,'' else [])
    @ (if fl AND PANIC_DATA_FLAG_OLD_HOSTEVENT \<noteq> 0 then ''OLD_HOSTEVENT,'' else [])"

definition arm_names :: "string list" where
  "arm_names = [''r0'', ''r1'', ''r2'', ''r3'', ''r4'', ''r5'', ''r6'', ''r7'', ''r8'', ''r9'', ''r10'', ''r11'',
     ''r12'', ''sp'', ''lr'', ''pc'']"

text \<open>\<open>%3s\<close> pads on the left.\<close>

definition print_arm_register :: "nat \<Rightarrow> u32 list \<Rightarrow> nat \<Rightarrow> string" where
  "print_arm_register r reg offset =
    (if length arm_names \<le> r then []
     else replicate (3 - length (arm_names ! r)) (CHR '' '') @ arm_names ! r @ '': '' @ hex8 (reg ! offset)
       @ (if r mod 4 = 3 then nl else '' ''))"

definition mmfs_names :: "string option list" where
  "mmfs_names =
    [Some ''Instruction access violation'', Some ''Data access violation'', None,
     Some ''Unstack from exception violation'', Some ''Stack from exception violation'', None, None, None,
     Some ''Instruction bus error'', Some ''Precise data bus error'', Some ''Imprecise data bus error'',
     Some ''Unstack from exception bus fault'', Some ''Stack from exception bus fault'', None, None, None,
     Some ''Undefined instructions'', Some ''Invalid state'', Some ''Invalid PC'', Some ''No coprocessor'',
     None, None, None, None, Some ''Unaligned'', Some ''Divide by 0'', None, None, None, None, None, None]"

fun mmfs_loop :: "u32 \<Rightarrow> nat \<Rightarrow> nat \<Rightarrow> string option list \<Rightarrow> string" where
  "mmfs_loop m i count [] = []"
| "mmfs_loop m i count (n # ns) =
    (case n of
       Some name \<Rightarrow>
         if m AND push_bit i 1 \<noteq> 0
         then (if count \<noteq> 0 then '', '' else []) @ name @ mmfs_loop m (i + 1) (count + 1) ns
         else mmfs_loop m (i + 1) count ns
     | None \<Rightarrow> mmfs_loop m (i + 1) count ns)"

definition print_mmfs_name :: "u32 \<Rightarrow> string" where
  "print_mmfs_name m = mmfs_loop m 0 0 mmfs_names @ nl"

definition print_panic_info_cortex_m :: "cortex_panic_data \<Rightarrow> string" where
  "print_panic_info_cortex_m data =
    (let lregs = cm_regs data; sregs = frame data;
         exc_return = cm_regs data ! 11 AND 0xf;
         in_handler = (exc_return = 1 \<or> exc_return = 9)
     in ''=== '' @ (if in_handler then ''HANDLER'' else ''PROCESS'') @ '' EXCEPTION: ''
        @ hex_padded hex_digits 2 (unat (lregs ! 1 AND 0xFF)) @ '' ====== xPSR: '' @ hex8 (sregs ! 7) @ '' ==='' @ nl
        @ concat (map (\<lambda>i. print_arm_register i sregs i) [0..<4])
        @ concat (map (\<lambda>i. print_arm_register i lregs (i - 1)) [4..<10])
        @ print_arm_register 10 lregs 9 @ print_arm_register 11 lregs 10 @ print_arm_register 12 sregs 4
        @ print_arm_register 13 lregs (if in_handler then 2 else 0)
        @ print_arm_register 14 sregs 5 @ print_arm_register 15 sregs 6
        @ ''Reason: '' @ print_mmfs_name (mmfs data) @ ''Extra:'' @ nl
        @ ''mmfs = '' @ hex8 (mmfs data) @ nl @ ''bfar = '' @ hex8 (bfar data) @ nl
        @ ''mfar = '' @ hex8 (mfar data) @ nl @ ''shcsr = '' @ hex8 (shcsr data) @ nl
        @ ''hfsr = '' @ hex8 (hfsr data) @ nl @ ''dfsr = '' @ hex8 (dfsr data) @ nl)"

text \<open>One line of four labelled registers.\<close>

definition riscv_line :: "string list \<Rightarrow> u32 list \<Rightarrow> string" where
  "riscv_line labels ws = concat (map2 (\<lambda>l w. l @ hex8 w) labels ws) @ nl"

definition print_panic_info_riscv :: "rv32i_panic_data \<Rightarrow> string" where
  "print_panic_info_riscv data =
    (let r = rv_regs data in
     ''=== EXCEPTION: MCAUSE='' @ hex_padded hex_digits 1 (unat (mcause data)) @ '' ==='' @ nl
     @ riscv_line [''s11: '', '' s10: '', ''  s9: '', ''  s8:   ''] [r ! 0, r ! 1, r ! 2, r ! 3]
     @ riscv_line [''s7:  '', '' s6:  '', ''  s5: '', ''  s4:   ''] [r ! 4, r ! 5, r ! 6, r ! 7]
     @ riscv_line [''s3:  '', '' s2:  '', ''  s1: '', ''  s0:   ''] [r ! 8, r ! 9, r ! 10, r ! 11]
     @ riscv_line [''t6:  '', '' t5:  '', ''  t4: '', ''  t3:   ''] [r ! 12, r ! 13, r ! 14, r ! 15]
     @ riscv_line [''t2:  '', '' t1:  '', ''  t0: '', ''  a7:   ''] [r ! 16, r ! 17, r ! 18, r ! 19]
     @ riscv_line [''a6:  '', '' a5:  '', ''  a4: '', ''  a3:   ''] [r ! 20, r ! 21, r ! 22, r ! 23]
     @ riscv_line [''a2:  '', '' a1:  '', ''  a0: '', ''  tp:   ''] [r ! 24, r ! 25, r ! 26, r ! 27]
     @ riscv_line [''gp:  '', '' ra:  '', ''  sp: '', ''  mepc: ''] [r ! 28, r ! 29, r ! 30, mepc data])"

definition libhoth_print_panic_info :: "hoth_response_persistent_panic_info \<Rightarrow> string" where
  "libhoth_print_panic_info panic =
    (let mem = panic_record panic; data = panic_data_of_bytes mem in
     if pd_magic data \<noteq> PANIC_DATA_MAGIC
     then ''Invalid panic record (magic is '' @ hex8 (pd_magic data) @ '', expected '' @ hex8 PANIC_DATA_MAGIC @ '').'' @ nl
     else
       ''arch: '' @ panic_arch_string (arch data) @ '' ('' @ dec_nat (unat (arch data)) @ '')'' @ nl
       @ ''version: '' @ dec_nat (unat (struct_version data)) @ nl
       @ ''flags: '' @ print_panic_flags_string (pd_flags data)
       @ '' (0x'' @ hex_padded hex_digits 2 (unat (pd_flags data)) @ '')'' @ nl
       @ (if arch data = PANIC_ARCH_CORTEX_M then print_panic_info_cortex_m (cm data)
          else if arch data = PANIC_ARCH_RISCV_RV32I then print_panic_info_riscv (riscv data)
          else ''Unknown Architecture.  Hexdump Follows:'' @ nl @ hex_dump (Some mem))
       @ ''struct_size: '' @ dec_int (sint (struct_size data)) @ nl
       @ ''magic: '' @ map (\<lambda>b. char_of (unat b)) (takeWhile (\<lambda>b. b \<noteq> 0) (byte_range 140 4 mem))
       @ '' (0x'' @ hex8 (pd_magic data) @ '')'' @ nl)"

end
