(* ===== verification/Posix_Io.thy ===== *)
theory Posix_Io
  imports Hoth_Device
begin

text \<open>
  The system calls the transports use, as the fields of a record: each maps the state of the
  outside world to its result and the next state. A failed call yields its \<open>errno\<close> where the code
  looks at it. \<open>read\<close> never returns more than it was asked for, which is built into
  \<open>read_upto\<close>.
\<close>

record 's posix =
  os_open :: "string \<Rightarrow> 's \<Rightarrow> int \<times> 's"
  os_close :: "int \<Rightarrow> 's \<Rightarrow> 's"
  os_lseek :: "int \<Rightarrow> u32 \<Rightarrow> 's \<Rightarrow> bool \<times> 's"
  os_read :: "int \<Rightarrow> nat \<Rightarrow> 's \<Rightarrow> (int + bytes) \<times> 's"
  os_write :: "int \<Rightarrow> bytes \<Rightarrow> 's \<Rightarrow> (int + nat) \<times> 's"
  os_flock_ex :: "int \<Rightarrow> 's \<Rightarrow> bool \<times> 's"
  os_flock_un :: "int \<Rightarrow> 's \<Rightarrow> bool \<times> 's"
  os_malloc :: "'s \<Rightarrow> bool \<times> 's"

definition EINTR :: int where "EINTR = 4"

definition read_upto :: "'s posix \<Rightarrow> int \<Rightarrow> nat \<Rightarrow> 's \<Rightarrow> (int + bytes) \<times> 's" where
  "read_upto os fd n s = map_prod (map_sum id (take n)) id (os_read os fd n s)"

lemma read_upto_length: "read_upto os fd n s = (Inr bs, s') \<Longrightarrow> length bs \<le> n"
  by (cases "os_read os fd n s"; cases "fst (os_read os fd n s)") (auto simp: read_upto_def)

text \<open>
  A memory seen through a descriptor: \<open>mem\<close> is what is there, \<open>pos\<close> the position, \<open>intr\<close> how many
  more interruptions there will be. Reads may be short, and each call may be interrupted.
\<close>

definition file_io :: "'s posix \<Rightarrow> int \<Rightarrow> ('s \<Rightarrow> bytes) \<Rightarrow> ('s \<Rightarrow> nat) \<Rightarrow> ('s \<Rightarrow> nat) \<Rightarrow> bool" where
  "file_io os fd mem pos intr \<longleftrightarrow>
    (\<forall>a s. \<exists>s'. os_lseek os fd a s = (True, s') \<and> mem s' = mem s \<and> pos s' = unat a) \<and>
    (\<forall>n s. 0 < n \<longrightarrow> pos s < length (mem s) \<longrightarrow>
      (\<exists>s'. os_read os fd n s = (Inl EINTR, s') \<and> mem s' = mem s \<and> pos s' = pos s \<and> intr s' < intr s) \<or>
      (\<exists>k s'. 0 < k \<and> k \<le> n \<and> pos s + k \<le> length (mem s) \<and>
        os_read os fd n s = (Inr (byte_range (pos s) k (mem s)), s') \<and>
        mem s' = mem s \<and> pos s' = pos s + k)) \<and>
    (\<forall>bs s. bs \<noteq> [] \<longrightarrow> pos s + length bs \<le> length (mem s) \<longrightarrow>
      (\<exists>s'. os_write os fd bs s = (Inl EINTR, s') \<and> mem s' = mem s \<and> pos s' = pos s \<and> intr s' < intr s) \<or>
      (\<exists>s'. os_write os fd bs s = (Inr (length bs), s') \<and> mem s' = memcpy_at (pos s) bs (mem s)))"

end
