(* ===== verification/Mtd.thy ===== *)
theory Mtd
  imports Posix_Io Host_Cmd
begin

text \<open>
  \<open>transports/libhoth_mtd.c\<close>: the mailbox behind an MTD character device. A call of the read or
  write loop that is interrupted for ever does not return, which is \<open>None\<close>.
\<close>

section \<open>Data\<close>

record libhoth_mtd_device_init_options =
  path :: "string option"
  mtd_name_opt :: "string option"
  mailbox :: u32

record libhoth_mtd_device =
  mtd_fd :: int
  mtd_mailbox_address :: u32

definition mtd_err_libhoth :: "libhoth_status \<Rightarrow> libhoth_error" where
  "mtd_err_libhoth st = (if st = LIBHOTH_OK then HOTH_SUCCESS else init_err st)"

section \<open>Reading and writing the mailbox\<close>

partial_function (option) mtd_read_loop ::
  "'s posix \<Rightarrow> int \<Rightarrow> nat \<Rightarrow> bytes \<Rightarrow> 's \<Rightarrow> ((libhoth_status + bytes) \<times> 's) option" where
  "mtd_read_loop os fd data_len data s =
    (if 0 < data_len then
       (case read_upto os fd data_len s of
          (Inl errno, s') \<Rightarrow>
            if errno = EINTR then mtd_read_loop os fd data_len data s'
            else Some (Inl LIBHOTH_ERR_FAIL, s')
        | (Inr bs, s') \<Rightarrow>
            if bs = [] then Some (Inl LIBHOTH_ERR_IN_OVERFLOW, s')
            else mtd_read_loop os fd (data_len - length bs) (data @ bs) s')
     else Some (Inr data, s))"

definition mtd_read ::
  "'s posix \<Rightarrow> int \<Rightarrow> u32 \<Rightarrow> nat \<Rightarrow> 's \<Rightarrow> ((libhoth_status + bytes) \<times> 's) option" where
  "mtd_read os fd address data_len s =
    (if fd < 0 then Some (Inl LIBHOTH_ERR_INVALID_PARAMETER, s)
     else if data_len = 0 then Some (Inr [], s)
     else
       let (ok, s') = os_lseek os fd address s
       in if \<not> ok then Some (Inl LIBHOTH_ERR_FAIL, s') else mtd_read_loop os fd data_len [] s')"

text \<open>The do-while loop around \<open>write\<close>.\<close>

partial_function (option) mtd_write_loop ::
  "'s posix \<Rightarrow> int \<Rightarrow> bytes \<Rightarrow> 's \<Rightarrow> ((int + nat) \<times> 's) option" where
  "mtd_write_loop os fd data s =
    (case os_write os fd data s of
       (Inl errno, s') \<Rightarrow> if errno = EINTR then mtd_write_loop os fd data s' else Some (Inl errno, s')
     | (Inr n, s') \<Rightarrow> Some (Inr n, s'))"

definition mtd_write :: "'s posix \<Rightarrow> int \<Rightarrow> u32 \<Rightarrow> bytes \<Rightarrow> 's \<Rightarrow> (libhoth_status \<times> 's) option" where
  "mtd_write os fd address data s =
    (if fd < 0 \<or> data = [] then Some (LIBHOTH_ERR_INVALID_PARAMETER, s)
     else
       let (ok, s1) = os_lseek os fd address s
       in if \<not> ok then Some (LIBHOTH_ERR_FAIL, s1)
          else
            (case mtd_write_loop os fd data s1 of None \<Rightarrow> None
             | Some (Inl _, s2) \<Rightarrow> Some (LIBHOTH_ERR_FAIL, s2)
             | Some (Inr n, s2) \<Rightarrow>
                 if n \<noteq> length data then Some (LIBHOTH_ERR_OUT_UNDERFLOW, s2) else Some (LIBHOTH_OK, s2)))"

section \<open>The functions of the device table\<close>

definition libhoth_mtd_claim ::
  "'s posix \<Rightarrow> libhoth_mtd_device option \<Rightarrow> 's \<Rightarrow> libhoth_error \<times> 's" where
  "libhoth_mtd_claim os mtd_dev s =
    (case mtd_dev of None \<Rightarrow> (mtd_err_libhoth LIBHOTH_ERR_INVALID_PARAMETER, s)
     | Some d \<Rightarrow>
         (case os_flock_ex os (mtd_fd d) s of
            (False, s') \<Rightarrow> (mtd_err_libhoth LIBHOTH_ERR_INTERFACE_BUSY, s')
          | (True, s') \<Rightarrow> (HOTH_SUCCESS, s')))"

definition libhoth_mtd_release ::
  "'s posix \<Rightarrow> libhoth_mtd_device option \<Rightarrow> 's \<Rightarrow> libhoth_error \<times> 's" where
  "libhoth_mtd_release os mtd_dev s =
    (case mtd_dev of None \<Rightarrow> (mtd_err_libhoth LIBHOTH_ERR_INVALID_PARAMETER, s)
     | Some d \<Rightarrow>
         (case os_flock_un os (mtd_fd d) s of
            (False, s') \<Rightarrow> (mtd_err_libhoth LIBHOTH_ERR_FAIL, s')
          | (True, s') \<Rightarrow> (HOTH_SUCCESS, s')))"

definition libhoth_mtd_send_request ::
  "'s posix \<Rightarrow> libhoth_mtd_device \<Rightarrow> bytes \<Rightarrow> 's \<Rightarrow> (libhoth_error \<times> 's) option" where
  "libhoth_mtd_send_request os d request s =
    map_option (map_prod mtd_err_libhoth id) (mtd_write os (mtd_fd d) (mtd_mailbox_address d) request s)"

text \<open>
  The bytes of the result are the \<open>*actual_size\<close> first ones of the response buffer; it is not
  written before the header has been read.
\<close>

definition libhoth_mtd_receive_response ::
  "'s posix \<Rightarrow> libhoth_mtd_device \<Rightarrow> nat \<Rightarrow> 's \<Rightarrow> ((libhoth_error \<times> bytes) \<times> 's) option" where
  "libhoth_mtd_receive_response os d max_response_size s =
    (if max_response_size < 8 then Some ((mtd_err_libhoth LIBHOTH_ERR_INVALID_PARAMETER, []), s)
     else
       (case mtd_read os (mtd_fd d) (mtd_mailbox_address d) 8 s of None \<Rightarrow> None
        | Some (Inl status, s1) \<Rightarrow> Some ((mtd_err_libhoth status, []), s1)
        | Some (Inr header, s1) \<Rightarrow>
            let data_len = unat (resp_data_len (response_of_bytes header))
            in if max_response_size < 8 + data_len
               then Some ((mtd_err_libhoth LIBHOTH_ERR_RESPONSE_BUFFER_OVERFLOW, header), s1)
               else
                 (case mtd_read os (mtd_fd d) (mtd_mailbox_address d + 8) data_len s1 of None \<Rightarrow> None
                  | Some (Inl status, s2) \<Rightarrow> Some ((mtd_err_libhoth status, header), s2)
                  | Some (Inr data, s2) \<Rightarrow> Some ((HOTH_SUCCESS, header @ data), s2))))"

definition libhoth_mtd_close :: "'s posix \<Rightarrow> libhoth_mtd_device \<Rightarrow> 's \<Rightarrow> libhoth_error \<times> 's" where
  "libhoth_mtd_close os d s = (HOTH_SUCCESS, os_close os (mtd_fd d) s)"

definition libhoth_mtd_reconnect :: "'s \<Rightarrow> libhoth_error \<times> 's" where
  "libhoth_mtd_reconnect s = (HOTH_SUCCESS, s)"

text \<open>
  The table filled in by \<open>libhoth_mtd_open\<close>. Its entries are total functions: a call that never
  returns is given an error here.
\<close>

definition mtd_device :: "'s posix \<Rightarrow> libhoth_mtd_device \<Rightarrow> 's libhoth_device" where
  "mtd_device os d =
    \<lparr>dev_send = (\<lambda>request s. case libhoth_mtd_send_request os d request s of
       Some r \<Rightarrow> r | None \<Rightarrow> (mtd_err_libhoth LIBHOTH_ERR_FAIL, s)),
     dev_receive = (\<lambda>max_size _ s. case libhoth_mtd_receive_response os d max_size s of
       Some r \<Rightarrow> r | None \<Rightarrow> ((mtd_err_libhoth LIBHOTH_ERR_FAIL, []), s)),
     dev_close = libhoth_mtd_close os d, dev_claim = libhoth_mtd_claim os (Some d),
     dev_release = libhoth_mtd_release os (Some d), dev_reconnect = Some libhoth_mtd_reconnect\<rparr>"

section \<open>Opening\<close>

text \<open>
  The name of the device in a line of \<open>/proc/mtd\<close>: quotes are stripped by shifting the characters
  between them to the front, if there are any. \<open>strip\<close> is that loop on the characters up to the
  NUL: position \<open>i\<close> gets the next character, which becomes NUL.
\<close>

fun strip_loop :: "nat \<Rightarrow> nat \<Rightarrow> string \<Rightarrow> string" where
  "strip_loop i 0 nm = nm"
| "strip_loop i (Suc n) nm = strip_loop (i + 1) n (nm[i := nm ! (i + 1), i + 1 := CHR 0x00])"

definition c_string :: "string \<Rightarrow> string" where
  "c_string nm = takeWhile (\<lambda>c. c \<noteq> CHR 0x00) nm"

definition strip_quotes :: "string \<Rightarrow> string" where
  "strip_quotes nm =
    (if nm \<noteq> [] \<and> nm ! 0 = CHR 0x22 then c_string (strip_loop 0 (length nm - 2) nm) else nm)"

text \<open>
  One line of \<open>/proc/mtd\<close> after \<open>sscanf\<close>, a parameter: the number of conversions, and the id and
  the name. The three strings are read into arrays of 20 characters without a limit: a longer
  one is a write outside its array, which is \<open>None\<close>.
\<close>

record mtd_line =
  conversions :: int
  mtd_id :: int
  mtd_size :: string
  mtd_erasesize :: string
  mtd_name :: string

fun mtd_find :: "string \<Rightarrow> mtd_line list \<Rightarrow> int option option" where
  "mtd_find name [] = Some None"
| "mtd_find name (l # ls) =
    (if 20 \<le> length (mtd_size l) \<or> 20 \<le> length (mtd_erasesize l) \<or> 20 \<le> length (mtd_name l) then None
     else if conversions l \<noteq> 4 \<or> mtd_id l < 0 then mtd_find name ls
     else if strip_quotes (mtd_name l) = name then Some (Some (mtd_id l))
     else mtd_find name ls)"

definition mtd_open ::
  "'s posix \<Rightarrow> mtd_line list option \<Rightarrow> string \<Rightarrow> string \<Rightarrow> 's \<Rightarrow> (int \<times> 's) option" where
  "mtd_open os proc_mtd dev_path name s =
    (if dev_path \<noteq> [] then Some (os_open os dev_path s)
     else
       (case proc_mtd of None \<Rightarrow> Some (-1, s)
        | Some ls \<Rightarrow>
            (case mtd_find name ls of None \<Rightarrow> None
             | Some None \<Rightarrow> Some (-1, s)
             | Some (Some i) \<Rightarrow> Some (os_open os (''/dev/mtd'' @ dec_int i) s))))"

definition libhoth_mtd_open ::
  "'s posix \<Rightarrow> mtd_line list option \<Rightarrow> libhoth_mtd_device_init_options option \<Rightarrow> bool \<Rightarrow> 's
    \<Rightarrow> ((libhoth_error + libhoth_mtd_device) \<times> 's) option" where
  "libhoth_mtd_open os proc_mtd options out s =
    (case options of None \<Rightarrow> Some (Inl (mtd_err_libhoth LIBHOTH_ERR_INVALID_PARAMETER), s)
     | Some opts \<Rightarrow>
       (case (path opts, mtd_name_opt opts) of
          (Some p, Some nm) \<Rightarrow>
            if \<not> out then Some (Inl (mtd_err_libhoth LIBHOTH_ERR_INVALID_PARAMETER), s)
            else
              (case mtd_open os proc_mtd p nm s of None \<Rightarrow> None
               | Some (fd, s1) \<Rightarrow>
                 Some
                   (if fd < 0 then (Inl (mtd_err_libhoth LIBHOTH_ERR_INTERFACE_NOT_FOUND), s1)
                    else
                      (case os_flock_ex os fd s1 of
                         (False, s2) \<Rightarrow> (Inl (mtd_err_libhoth LIBHOTH_ERR_INTERFACE_BUSY), os_close os fd s2)
                       | (True, s2) \<Rightarrow>
                         (case os_malloc os s2 of
                            (False, s3) \<Rightarrow> (Inl (mtd_err_libhoth LIBHOTH_ERR_MALLOC_FAILED), os_close os fd s3)
                          | (True, s3) \<Rightarrow>
                            (case os_malloc os s3 of
                               (False, s4) \<Rightarrow> (Inl (mtd_err_libhoth LIBHOTH_ERR_MALLOC_FAILED), os_close os fd s4)
                             | (True, s4) \<Rightarrow>
                                 (Inr \<lparr>mtd_fd = fd, mtd_mailbox_address = mailbox opts\<rparr>, s4))))))
        | _ \<Rightarrow> Some (Inl (mtd_err_libhoth LIBHOTH_ERR_INVALID_PARAMETER), s)))"

section \<open>The transport contract\<close>

lemma mtd_read_loop_length:
  "mtd_read_loop os fd data_len data s = Some r \<Longrightarrow> fst r = Inr out \<Longrightarrow> length out = length data + data_len"
proof (induction os fd data_len data s r arbitrary: out rule: mtd_read_loop.raw_induct [rotated, consumes 1, case_names step])
  case (step f os fd data_len data s r)
  show ?case
  proof (cases "0 < data_len")
    case True
    obtain x s' where x: "read_upto os fd data_len s = (x, s')" by (cases "read_upto os fd data_len s")
    note run = step(2) [unfolded x if_P [OF True] prod.case]
    show ?thesis
    proof (cases x)
      case (Inl e)
      show ?thesis
      proof (cases "e = EINTR")
        case True
        with run Inl have "f os fd data_len data s' = Some r" by simp
        then show ?thesis using step(3) by (rule step(1))
      next
        case False
        with run Inl have "r = (Inl LIBHOTH_ERR_FAIL, s')" by simp
        with step(3) show ?thesis by simp
      qed
    next
      case (Inr bs)
      with x have len: "length bs \<le> data_len" by (intro read_upto_length) simp
      show ?thesis
      proof (cases "bs = []")
        case True
        with run Inr have "r = (Inl LIBHOTH_ERR_IN_OVERFLOW, s')" by simp
        with step(3) show ?thesis by simp
      next
        case False
        with run Inr have "f os fd (data_len - length bs) (data @ bs) s' = Some r" by simp
        from step(1) [OF this step(3)] len show ?thesis by simp
      qed
    qed
  next
    case False
    with step(2) have "r = (Inr data, s)" by simp
    with step(3) False show ?thesis by simp
  qed
qed

lemma mtd_read_length:
  assumes "mtd_read os fd address data_len s = Some (Inr out, s')"
  shows "length out = data_len"
  using assms mtd_read_loop_length [of os fd data_len "[]" _ _ out]
  by (auto simp: mtd_read_def split: if_splits prod.splits)

lemma mtd_err_libhoth_success [simp]: "mtd_err_libhoth st = HOTH_SUCCESS \<longleftrightarrow> st = LIBHOTH_OK"
  by (cases st) (auto simp: mtd_err_libhoth_def)

interpretation mtd: transport "mtd_device os d" for os :: "'s posix" and d
proof
  show "length resp \<le> max_size"
    if run: "dev_receive (mtd_device os d) max_size timeout_ms s = ((HOTH_SUCCESS, resp), s')"
    for max_size timeout_ms s resp s'
  proof -
    have "libhoth_mtd_receive_response os d max_size s = Some ((HOTH_SUCCESS, resp), s')"
      using run by (simp add: mtd_device_def split: option.splits)
    then show ?thesis
      by (auto simp: libhoth_mtd_receive_response_def Let_def dest!: mtd_read_length
          split: if_splits option.splits sum.splits)
  qed
qed

section \<open>Exchanging frames with the mailbox\<close>

lemma mtd_read_loop_file:
  assumes "file_io os fd mem pos intr"
  shows "pos s + n \<le> length (mem s) \<Longrightarrow>
    \<exists>s'. mtd_read_loop os fd n data s = Some (Inr (data @ byte_range (pos s) n (mem s)), s') \<and> mem s' = mem s"
proof (induction "(n, intr s)" arbitrary: n data s rule: wf_induct_rule [OF wf_lex_prod [OF wf_less wf_less]])
  case less: (1 n s data)
  show ?case
  proof (cases "0 < n")
    case True
    then have "pos s < length (mem s)" using less.prems by simp
    with True assms consider
        (intr) s' where "os_read os fd n s = (Inl EINTR, s')" "mem s' = mem s" "pos s' = pos s" "intr s' < intr s"
      | (some) k s' where "0 < k" "k \<le> n" "os_read os fd n s = (Inr (byte_range (pos s) k (mem s)), s')"
        "mem s' = mem s" "pos s' = pos s + k"
      unfolding file_io_def by metis
    then show ?thesis
    proof cases
      case intr
      with less.hyps [of n s' data] less.prems True show ?thesis
        by (subst mtd_read_loop.simps) (simp add: read_upto_def)
    next
      case some
      let ?bs = "byte_range (pos s) k (mem s)"
      have l: "length ?bs = k" using some less.prems by simp
      then have ne: "?bs \<noteq> []" using some(1) by auto
      obtain s2 where s2: "mtd_read_loop os fd (n - k) (data @ ?bs) s' =
          Some (Inr ((data @ ?bs) @ byte_range (pos s') (n - k) (mem s')), s2)" "mem s2 = mem s'"
        using less.hyps [of "n - k" s' "data @ ?bs"] less.prems some by auto
      have "?bs @ byte_range (pos s + k) (n - k) (mem s) = byte_range (pos s) n (mem s)"
        using some by (intro byte_range_join) auto
      with s2 some l ne True show ?thesis
        by (subst mtd_read_loop.simps) (simp add: read_upto_def min_def)
    qed
  next
    case False
    then show ?thesis by (subst mtd_read_loop.simps) (simp add: byte_range_def)
  qed
qed

lemma mtd_read_file:
  assumes "file_io os fd mem pos intr" and "0 \<le> fd" and "unat a + n \<le> length (mem s)"
  shows "\<exists>s'. mtd_read os fd a n s = Some (Inr (byte_range (unat a) n (mem s)), s') \<and> mem s' = mem s"
proof (cases "n = 0")
  case True
  with assms show ?thesis by (simp add: mtd_read_def byte_range_def)
next
  case False
  obtain s1 where s1: "os_lseek os fd a s = (True, s1)" "mem s1 = mem s" "pos s1 = unat a"
    using assms(1) unfolding file_io_def by meson
  with mtd_read_loop_file [OF assms(1), of s1 n "[]"] assms False show ?thesis
    by (auto simp: mtd_read_def)
qed

lemma mtd_write_loop_file:
  assumes "file_io os fd mem pos intr" and "bs \<noteq> []"
  shows "pos s + length bs \<le> length (mem s) \<Longrightarrow>
    \<exists>s'. mtd_write_loop os fd bs s = Some (Inr (length bs), s') \<and> mem s' = memcpy_at (pos s) bs (mem s)"
proof (induction "intr s" arbitrary: s rule: less_induct)
  case less
  with assms consider
      (intr) s' where "os_write os fd bs s = (Inl EINTR, s')" "mem s' = mem s" "pos s' = pos s" "intr s' < intr s"
    | (full) s' where "os_write os fd bs s = (Inr (length bs), s')" "mem s' = memcpy_at (pos s) bs (mem s)"
    unfolding file_io_def by metis
  then show ?case
  proof cases
    case intr
    with less.hyps [of s'] less.prems show ?thesis by (subst mtd_write_loop.simps) simp
  next
    case full
    then show ?thesis by (subst mtd_write_loop.simps) simp
  qed
qed

text \<open>
  C13: over a descriptor that sees the mailbox memory, however short its reads are and however
  often a call is interrupted, sending puts the request at the mailbox address, and receiving
  returns exactly the frame that is there, header and announced data, if the buffer can hold it;
  both return, and a frame that is too long for the buffer is an error.
\<close>

theorem mtd_mailbox_exchange:
  assumes "file_io os (mtd_fd d) mem pos intr" and "0 \<le> mtd_fd d" and "length (mem s) < 2 ^ 32"
    and "a = unat (mtd_mailbox_address d)" and "a + 8 \<le> length (mem s)"
    and "n = unat (resp_data_len (response_of_bytes (byte_range a 8 (mem s))))"
  shows "(request \<noteq> [] \<and> a + length request \<le> length (mem s) \<longrightarrow>
      (\<exists>s'. libhoth_mtd_send_request os d request s = Some (HOTH_SUCCESS, s') \<and>
        mem s' = memcpy_at a request (mem s))) \<and>
    (a + 8 + n \<le> length (mem s) \<and> 8 + n \<le> max_size \<longrightarrow>
      (\<exists>s'. libhoth_mtd_receive_response os d max_size s =
        Some ((HOTH_SUCCESS, byte_range a (8 + n) (mem s)), s') \<and> mem s' = mem s)) \<and>
    (8 \<le> max_size \<and> max_size < 8 + n \<longrightarrow>
      (\<exists>s'. libhoth_mtd_receive_response os d max_size s =
        Some ((mtd_err_libhoth LIBHOTH_ERR_RESPONSE_BUFFER_OVERFLOW, byte_range a 8 (mem s)), s') \<and> mem s' = mem s))"
proof -
  obtain s1 where s1: "mtd_read os (mtd_fd d) (mtd_mailbox_address d) 8 s = Some (Inr (byte_range a 8 (mem s)), s1)"
    "mem s1 = mem s"
    using mtd_read_file [OF assms(1,2), of "mtd_mailbox_address d" 8 s] assms by auto
  have send: "\<exists>s'. libhoth_mtd_send_request os d request s = Some (HOTH_SUCCESS, s') \<and>
      mem s' = memcpy_at a request (mem s)"
    if r: "request \<noteq> []" "a + length request \<le> length (mem s)"
  proof -
    obtain t where t: "os_lseek os (mtd_fd d) (mtd_mailbox_address d) s = (True, t)" "mem t = mem s" "pos t = a"
      using assms(1,4) unfolding file_io_def by metis
    from mtd_write_loop_file [OF assms(1) r(1), of t] t r(2) assms(2) r(1) show ?thesis
      by (auto simp: libhoth_mtd_send_request_def mtd_write_def mtd_err_libhoth_def)
  qed
  have "\<exists>s'. libhoth_mtd_receive_response os d max_size s =
      Some ((HOTH_SUCCESS, byte_range a (8 + n) (mem s)), s') \<and> mem s' = mem s"
    if r: "a + 8 + n \<le> length (mem s)" "8 + n \<le> max_size"
  proof -
    have "unat (mtd_mailbox_address d + 8) = a + 8"
      using assms(3,4,5) by (simp add: unat_word_ariths)
    then obtain s2 where "mtd_read os (mtd_fd d) (mtd_mailbox_address d + 8) n s1 =
        Some (Inr (byte_range (a + 8) n (mem s)), s2)" "mem s2 = mem s"
      using mtd_read_file [OF assms(1,2), of "mtd_mailbox_address d + 8" n s1] r s1 by auto
    with s1 r assms(6) show ?thesis
      by (simp add: libhoth_mtd_receive_response_def Let_def byte_range_append_next)
  qed
  with send s1 assms(6) show ?thesis
    by (auto simp: libhoth_mtd_receive_response_def Let_def)
qed

text \<open>
  A mailbox of 16 bytes at address 2: the state is the memory, the position and the interruptions
  to come; reads return at most three bytes.
\<close>

definition mtd_demo :: "(bytes \<times> nat \<times> nat) posix" where
  "mtd_demo = \<lparr>os_open = (\<lambda>_ s. (3, s)), os_close = (\<lambda>_ s. s),
     os_lseek = (\<lambda>_ a (m, p, i). (True, (m, unat a, i))),
     os_read = (\<lambda>_ n (m, p, i).
       if 0 < i then (Inl EINTR, (m, p, i - 1))
       else let bs = byte_range p (min 3 n) m in (Inr bs, (m, p + length bs, 1))),
     os_write = (\<lambda>_ bs (m, p, i).
       if 0 < i then (Inl EINTR, (m, p, i - 1)) else (Inr (length bs), (memcpy_at p bs m, p, 1))),
     os_flock_ex = (\<lambda>_ s. (True, s)), os_flock_un = (\<lambda>_ s. (True, s)), os_malloc = (\<lambda>s. (True, s))\<rparr>"

lemma mtd_demo_file_io: "file_io mtd_demo fd fst (\<lambda>s. fst (snd s)) (\<lambda>s. snd (snd s))"
proof -
  have "(\<exists>s'. os_read mtd_demo fd n s = (Inl EINTR, s') \<and> fst s' = fst s \<and> fst (snd s') = fst (snd s) \<and>
        snd (snd s') < snd (snd s)) \<or>
      (\<exists>k s'. 0 < k \<and> k \<le> n \<and> fst (snd s) + k \<le> length (fst s) \<and>
        os_read mtd_demo fd n s = (Inr (byte_range (fst (snd s)) k (fst s)), s') \<and>
        fst s' = fst s \<and> fst (snd s') = fst (snd s) + k)"
    if n: "0 < n" "fst (snd s) < length (fst s)" for n s
  proof -
    obtain m p i where s: "s = (m, p, i)" by (cases s) auto
    show ?thesis
    proof (cases "0 < i")
      case True
      then show ?thesis by (simp add: s mtd_demo_def)
    next
      case False
      let ?k = "min (min 3 n) (length m - p)"
      have "0 < ?k \<and> ?k \<le> n \<and> p + ?k \<le> length m \<and> byte_range p (min 3 n) m = byte_range p ?k m"
        using n by (auto simp: s byte_range_def min_def)
      then have "\<exists>s'. 0 < ?k \<and> ?k \<le> n \<and> p + ?k \<le> length m \<and>
          os_read mtd_demo fd n s = (Inr (byte_range p ?k m), s') \<and> fst s' = m \<and> fst (snd s') = p + ?k"
        using False by (simp add: s mtd_demo_def Let_def)
      then show ?thesis unfolding s fst_conv snd_conv by blast
    qed
  qed
  then show ?thesis by (auto simp: file_io_def mtd_demo_def)
qed

theorem mtd_mailbox_exchange_witness:
  "\<exists>s'. libhoth_mtd_receive_response mtd_demo \<lparr>mtd_fd = 3, mtd_mailbox_address = 2\<rparr> 64
      ([9, 9, 3, 0, 0, 0, 6, 0, 0, 0, 1, 2, 3, 4, 5, 6], 0, 1) =
    Some ((HOTH_SUCCESS, [3, 0, 0, 0, 6, 0, 0, 0, 1, 2, 3, 4, 5, 6]), s')"
proof -
  let ?m = "[9, 9, 3, 0, 0, 0, 6, 0, 0, 0, 1, 2, 3, 4, 5, 6] :: bytes"
  let ?d = "\<lparr>mtd_fd = 3, mtd_mailbox_address = 2\<rparr>"
  have n: "6 = unat (resp_data_len (response_of_bytes (byte_range 2 8 (fst (?m, 0 :: nat, 1 :: nat)))))"
    by (simp add: response_of_bytes_def field_defs le_word_def)
  have b: "byte_range 2 (8 + 6) (fst (?m, 0 :: nat, 1 :: nat)) = [3, 0, 0, 0, 6, 0, 0, 0, 1, 2, 3, 4, 5, 6]"
    by (simp add: byte_range_def)
  have "\<exists>s'. libhoth_mtd_receive_response mtd_demo ?d 64 (?m, 0, 1) =
      Some ((HOTH_SUCCESS, byte_range 2 (8 + 6) (fst (?m, 0 :: nat, 1 :: nat))), s') \<and> fst s' = fst (?m, 0 :: nat, 1 :: nat)"
    by (rule mtd_mailbox_exchange [OF mtd_demo_file_io _ _ _ _ n, THEN conjunct2, THEN conjunct1, THEN mp]) simp_all
  then show ?thesis unfolding b by blast
qed

end
