(* ===== verification/Spi.thy ===== *)
theory Spi
  imports Posix_Io Host_Cmd Hoth_Text
begin

text \<open>
  \<open>transports/libhoth_spi.c\<close>: the mailbox behind a SPI NOR interface, driven through
  \<open>/dev/spidev\<close>. A wait for a flash chip that stays busy while the clock stands still does not
  return, which is \<open>None\<close>.
\<close>

section \<open>Data and system calls\<close>

definition DID_VID_ADDR :: u32 where "DID_VID_ADDR = 0xD40F00"
definition SPI_NBITS_SINGLE :: u8 where "SPI_NBITS_SINGLE = 1"

definition SPI_NOR_DEVICE_STATUS_WIP_BIT :: u8 where "SPI_NOR_DEVICE_STATUS_WIP_BIT = 1"
definition SPI_NOR_OPCODE_READ_STATUS :: u8 where "SPI_NOR_OPCODE_READ_STATUS = 0x05"
definition SPI_NOR_OPCODE_WRITE_ENABLE :: u8 where "SPI_NOR_OPCODE_WRITE_ENABLE = 0x06"
definition SPI_NOR_OPCODE_PAGE_PROGRAM :: u8 where "SPI_NOR_OPCODE_PAGE_PROGRAM = 0x02"
definition SPI_NOR_OPCODE_SLOW_READ :: u8 where "SPI_NOR_OPCODE_SLOW_READ = 0x03"
definition SPI_NOR_FLASH_PAGE_SIZE :: nat where "SPI_NOR_FLASH_PAGE_SIZE = 256"

text \<open>
  One transfer of a SPI message: the bytes to send (\<open>None\<close>: NULL), whether there is a receive
  buffer, its length, whether chip select toggles after it, and the widths of the lanes.
\<close>

record spi_ioc_transfer =
  tx_buf :: "bytes option"
  rx_buf :: bool
  xfer_len :: nat
  cs_change :: bool
  tx_nbits :: u8
  rx_nbits :: u8

definition tx_transfer :: "bytes \<Rightarrow> bool \<Rightarrow> spi_ioc_transfer" where
  "tx_transfer bs cs = \<lparr>tx_buf = Some bs, rx_buf = False, xfer_len = length bs, cs_change = cs,
     tx_nbits = SPI_NBITS_SINGLE, rx_nbits = 0\<rparr>"

definition rx_transfer :: "nat \<Rightarrow> spi_ioc_transfer" where
  "rx_transfer n = \<lparr>tx_buf = None, rx_buf = True, xfer_len = n, cs_change = False, tx_nbits = 0,
     rx_nbits = SPI_NBITS_SINGLE\<rparr>"

text \<open>
  The system calls, beside those of \<open>posix\<close>. \<open>spi_message\<close> performs the transfers as one message and yields
  \<open>errno\<close> or the bytes that are clocked in during the receiving transfer, as a function of the
  position: the call fills the whole buffer. \<open>spi_message_by_value\<close> is the same system call when
  the transfer itself is passed in the place of a pointer to it, as the status poll does: what it
  does then is not defined by the interface, and it is a call of its own here.
\<close>

record 's spi_posix = "'s posix" +
  spi_message :: "int \<Rightarrow> spi_ioc_transfer list \<Rightarrow> 's \<Rightarrow> (int + (nat \<Rightarrow> u8)) \<times> 's"
  spi_message_by_value :: "int \<Rightarrow> spi_ioc_transfer \<Rightarrow> 's \<Rightarrow> (int + (nat \<Rightarrow> u8)) \<times> 's"
  spi_wr_bits :: "int \<Rightarrow> u8 \<Rightarrow> 's \<Rightarrow> bool \<times> 's"
  spi_wr_mode32 :: "int \<Rightarrow> u32 \<Rightarrow> 's \<Rightarrow> bool \<times> 's"
  spi_wr_max_speed :: "int \<Rightarrow> u32 \<Rightarrow> 's \<Rightarrow> bool \<times> 's"
  clock_gettime :: "'s \<Rightarrow> (u64 \<times> u64) option \<times> 's"
  spi_usleep :: "u32 \<Rightarrow> 's \<Rightarrow> 's"

definition received :: "nat \<Rightarrow> (nat \<Rightarrow> u8) \<Rightarrow> bytes" where
  "received n rx = map rx [0..<n]"

lemma length_received [simp]: "length (received n rx) = n"
  by (simp add: received_def)

record libhoth_spi_device_init_options =
  spi_path :: "string option"
  spi_mailbox :: u32
  bits :: "32 word"
  mode :: "32 word"
  speed :: "32 word"
  atomic :: bool
  opt_busy_wait_timeout :: u32
  opt_busy_wait_check_interval :: u32
  timeout_us :: u32

record libhoth_spi_device =
  spi_fd :: int
  mailbox_address :: u32
  address_mode_4b :: bool
  buffered_request :: "bytes option"
  device_busy_wait_timeout :: u32
  device_busy_wait_check_interval :: u32

definition spi_err_posix :: "int \<Rightarrow> libhoth_error" where
  "spi_err_posix errnum =
    (if errnum = 0 then HOTH_SUCCESS else hoth_err HOTH_CTX_SPI HOTH_HOST_SPACE_POSIX (word_of_int errnum))"

definition spi_err_libhoth :: "libhoth_status \<Rightarrow> libhoth_error" where
  "spi_err_libhoth st =
    (if st = LIBHOTH_OK then HOTH_SUCCESS
     else hoth_err HOTH_CTX_SPI HOTH_HOST_SPACE_LIBHOTH (word_of_int (status_val st)))"

lemma spi_err_libhoth_success [simp]: "spi_err_libhoth st = HOTH_SUCCESS \<longleftrightarrow> st = LIBHOTH_OK"
  by (auto simp: spi_err_libhoth_def hoth_err_neq_0)

section \<open>The SPI NOR commands\<close>

text \<open>The address as it is stored; the length the C function returns is that of the list.\<close>

definition spi_nor_address :: "u32 \<Rightarrow> bool \<Rightarrow> bytes" where
  "spi_nor_address address mode_4b =
    (if mode_4b then
       [ucast (drop_bit 24 address AND 0xFF), ucast (drop_bit 16 address AND 0xFF),
        ucast (drop_bit 8 address AND 0xFF), ucast (address AND 0xFF)]
     else
       [ucast (drop_bit 16 address AND 0xFF), ucast (drop_bit 8 address AND 0xFF), ucast (address AND 0xFF)])"

definition get_monotonic_ms :: "('s, 'm) spi_posix_scheme \<Rightarrow> 's \<Rightarrow> u64 option \<times> 's" where
  "get_monotonic_ms os s =
    (case clock_gettime os s of
       (None, s') \<Rightarrow> (None, s')
     | (Some (tv_sec, tv_nsec), s') \<Rightarrow> (Some (tv_sec * 1000 + tv_nsec div 1000000), s'))"

definition status_transfer :: spi_ioc_transfer where
  "status_transfer = \<lparr>tx_buf = Some [SPI_NOR_OPCODE_READ_STATUS, 0], rx_buf = True, xfer_len = 2, cs_change = False,
     tx_nbits = SPI_NBITS_SINGLE, rx_nbits = SPI_NBITS_SINGLE\<rparr>"

definition UINT64_MAX :: u64 where "UINT64_MAX = 0xFFFFFFFFFFFFFFFF"

definition time_elapsed :: "u64 \<Rightarrow> u64 \<Rightarrow> u64" where
  "time_elapsed start_time_ms current_time_ms =
    (if current_time_ms < start_time_ms then (UINT64_MAX - start_time_ms) + current_time_ms
     else current_time_ms - start_time_ms)"

partial_function (option) busy_wait_loop ::
  "('s, 'm) spi_posix_scheme \<Rightarrow> int \<Rightarrow> u32 \<Rightarrow> u32 \<Rightarrow> u64 \<Rightarrow> 's \<Rightarrow> (libhoth_status \<times> 's) option" where
  "busy_wait_loop os fd timeout check_interval_us start_time_ms s =
    (case spi_message_by_value os fd status_transfer s of
       (Inl _, s1) \<Rightarrow> Some (LIBHOTH_ERR_FAIL, s1)
     | (Inr rx, s1) \<Rightarrow>
         if rx 1 AND SPI_NOR_DEVICE_STATUS_WIP_BIT = 0 then Some (LIBHOTH_OK, s1)
         else
           (case get_monotonic_ms os s1 of
              (None, s2) \<Rightarrow> Some (LIBHOTH_ERR_FAIL, s2)
            | (Some current_time_ms, s2) \<Rightarrow>
                if ucast (timeout div 1000) < time_elapsed start_time_ms current_time_ms
                then Some (LIBHOTH_ERR_TIMEOUT, s2)
                else busy_wait_loop os fd timeout check_interval_us start_time_ms
                       (spi_usleep os check_interval_us s2)))"

definition spi_nor_busy_wait ::
  "('s, 'm) spi_posix_scheme \<Rightarrow> int \<Rightarrow> u32 \<Rightarrow> u32 \<Rightarrow> 's \<Rightarrow> (libhoth_status \<times> 's) option" where
  "spi_nor_busy_wait os fd timeout check_interval_us s =
    (case get_monotonic_ms os s of
       (None, s1) \<Rightarrow> Some (LIBHOTH_ERR_FAIL, s1)
     | (Some start_time_ms, s1) \<Rightarrow> busy_wait_loop os fd timeout check_interval_us start_time_ms s1)"

definition spi_nor_write_enable :: "('s, 'm) spi_posix_scheme \<Rightarrow> int \<Rightarrow> 's \<Rightarrow> libhoth_status \<times> 's" where
  "spi_nor_write_enable os fd s =
    (case spi_message os fd [tx_transfer [SPI_NOR_OPCODE_WRITE_ENABLE] False] s of
       (Inl _, s') \<Rightarrow> (LIBHOTH_ERR_FAIL, s') | (Inr _, s') \<Rightarrow> (LIBHOTH_OK, s'))"

text \<open>One round of the write loop: write enable, page program, wait.\<close>

definition spi_nor_write_page ::
  "('s, 'm) spi_posix_scheme \<Rightarrow> int \<Rightarrow> bool \<Rightarrow> u32 \<Rightarrow> u32 \<Rightarrow> u32 \<Rightarrow> bytes \<Rightarrow> 's \<Rightarrow> (libhoth_status \<times> 's) option" where
  "spi_nor_write_page os fd mode_4b timeout interval address chunk s =
    (let (status, s1) = spi_nor_write_enable os fd s in
     if status \<noteq> LIBHOTH_OK then Some (status, s1)
     else
       (case spi_message os fd
               [tx_transfer (SPI_NOR_OPCODE_PAGE_PROGRAM # spi_nor_address address mode_4b) False,
                tx_transfer chunk False] s1 of
          (Inl _, s2) \<Rightarrow> Some (LIBHOTH_ERR_FAIL, s2)
        | (Inr _, s2) \<Rightarrow> spi_nor_busy_wait os fd timeout interval s2))"

function spi_nor_write_loop ::
  "(u32 \<Rightarrow> bytes \<Rightarrow> 's \<Rightarrow> (libhoth_status \<times> 's) option) \<Rightarrow> bytes \<Rightarrow> nat \<Rightarrow> u32 \<Rightarrow> 's
    \<Rightarrow> (libhoth_status \<times> 's) option" where
  "spi_nor_write_loop page data bytes_sent address s =
    (if bytes_sent < length data then
       let chunk_send_size = min SPI_NOR_FLASH_PAGE_SIZE (length data - bytes_sent)
       in (case page address (byte_range bytes_sent chunk_send_size data) s of
             None \<Rightarrow> None
           | Some (status, s') \<Rightarrow>
               if status \<noteq> LIBHOTH_OK then Some (status, s')
               else spi_nor_write_loop page data (bytes_sent + chunk_send_size)
                      (address + word_of_nat chunk_send_size) s')
     else Some (LIBHOTH_OK, s))"
  by pat_completeness auto
termination
  by (relation "measure (\<lambda>(page, data, n, a, s). length data - n)") (auto simp: SPI_NOR_FLASH_PAGE_SIZE_def)

declare spi_nor_write_loop.simps [simp del]

definition spi_nor_write ::
  "('s, 'm) spi_posix_scheme \<Rightarrow> int \<Rightarrow> bool \<Rightarrow> u32 \<Rightarrow> bytes \<Rightarrow> u32 \<Rightarrow> u32 \<Rightarrow> 's \<Rightarrow> (libhoth_status \<times> 's) option" where
  "spi_nor_write os fd mode_4b address data timeout interval s =
    (if fd < 0 \<or> data = [] then Some (LIBHOTH_ERR_INVALID_PARAMETER, s)
     else spi_nor_write_loop (spi_nor_write_page os fd mode_4b timeout interval) data 0 address s)"

definition spi_nor_read ::
  "('s, 'm) spi_posix_scheme \<Rightarrow> int \<Rightarrow> bool \<Rightarrow> u32 \<Rightarrow> nat \<Rightarrow> 's \<Rightarrow> (libhoth_status + bytes) \<times> 's" where
  "spi_nor_read os fd mode_4b address data_len s =
    (if fd < 0 \<or> data_len = 0 then (Inl LIBHOTH_ERR_INVALID_PARAMETER, s)
     else
       (case spi_message os fd
               [tx_transfer (SPI_NOR_OPCODE_SLOW_READ # spi_nor_address address mode_4b) False, rx_transfer data_len] s of
          (Inl _, s') \<Rightarrow> (Inl LIBHOTH_ERR_FAIL, s')
        | (Inr rx, s') \<Rightarrow> (Inr (received data_len rx), s')))"

lemma spi_nor_read_length: "spi_nor_read os fd m a n s = (Inr bs, s') \<Longrightarrow> length bs = n"
  by (auto simp: spi_nor_read_def split: if_splits prod.splits sum.splits)

section \<open>The functions of the device table\<close>

text \<open>
  The state of a SPI device is its \<open>user_ctx\<close> beside the outside world. The table always holds a
  \<open>user_ctx\<close>, so the tests for a NULL one have no branch here.
\<close>

definition libhoth_spi_claim ::
  "('s, 'm) spi_posix_scheme \<Rightarrow> libhoth_spi_device \<times> 's \<Rightarrow> libhoth_error \<times> (libhoth_spi_device \<times> 's)" where
  "libhoth_spi_claim os p =
    (let (d, s) = p in
     case os_flock_ex os (spi_fd d) s of
       (False, s') \<Rightarrow> (spi_err_libhoth LIBHOTH_ERR_INTERFACE_BUSY, (d, s'))
     | (True, s') \<Rightarrow> (HOTH_SUCCESS, (d, s')))"

definition libhoth_spi_release ::
  "('s, 'm) spi_posix_scheme \<Rightarrow> libhoth_spi_device \<times> 's \<Rightarrow> libhoth_error \<times> (libhoth_spi_device \<times> 's)" where
  "libhoth_spi_release os p =
    (let (d, s) = p in
     case os_flock_un os (spi_fd d) s of
       (False, s') \<Rightarrow> (spi_err_libhoth LIBHOTH_ERR_FAIL, (d, s'))
     | (True, s') \<Rightarrow> (HOTH_SUCCESS, (d, s')))"

definition libhoth_spi_reconnect :: "libhoth_spi_device \<times> 's \<Rightarrow> libhoth_error \<times> (libhoth_spi_device \<times> 's)" where
  "libhoth_spi_reconnect p = (HOTH_SUCCESS, p)"

definition libhoth_spi_close ::
  "('s, 'm) spi_posix_scheme \<Rightarrow> libhoth_spi_device \<times> 's \<Rightarrow> libhoth_error \<times> (libhoth_spi_device \<times> 's)" where
  "libhoth_spi_close os p = (let (d, s) = p in (HOTH_SUCCESS, (d, os_close os (spi_fd d) s)))"

definition libhoth_spi_send_request ::
  "('s, 'm) spi_posix_scheme \<Rightarrow> bytes \<Rightarrow> libhoth_spi_device \<times> 's
    \<Rightarrow> (libhoth_error \<times> (libhoth_spi_device \<times> 's)) option" where
  "libhoth_spi_send_request os request p =
    (let (d, s) = p in
     map_option (\<lambda>(status, s'). (spi_err_libhoth status, (d, s')))
       (spi_nor_write os (spi_fd d) (address_mode_4b d) (mailbox_address d) request
          (device_busy_wait_timeout d) (device_busy_wait_check_interval d) s))"

text \<open>The bytes of a result are the \<open>*actual_size\<close> first ones of the response buffer.\<close>

definition libhoth_spi_receive_response ::
  "('s, 'm) spi_posix_scheme \<Rightarrow> nat \<Rightarrow> libhoth_spi_device \<times> 's
    \<Rightarrow> (libhoth_error \<times> bytes) \<times> (libhoth_spi_device \<times> 's)" where
  "libhoth_spi_receive_response os max_response_size p =
    (let (d, s) = p in
     if max_response_size < sizeof_response
     then ((spi_err_libhoth LIBHOTH_ERR_INVALID_PARAMETER, []), (d, s))
     else
       (case spi_nor_read os (spi_fd d) (address_mode_4b d) (mailbox_address d) sizeof_response s of
          (Inl status, s1) \<Rightarrow> ((spi_err_libhoth status, []), (d, s1))
        | (Inr header, s1) \<Rightarrow>
            let data_len = unat (resp_data_len (response_of_bytes header))
            in if max_response_size < sizeof_response + data_len
               then ((spi_err_libhoth LIBHOTH_ERR_RESPONSE_BUFFER_OVERFLOW, header), (d, s1))
               else if 0 < data_len then
                 (case spi_nor_read os (spi_fd d) (address_mode_4b d) (mailbox_address d + 8) data_len s1 of
                    (Inl status, s2) \<Rightarrow> ((spi_err_libhoth status, header), (d, s2))
                  | (Inr data, s2) \<Rightarrow> ((HOTH_SUCCESS, header @ data), (d, s2)))
               else ((HOTH_SUCCESS, header), (d, s1))))"

text \<open>The atomic variant: the request is kept, and sent in the same message that reads the response.\<close>

definition libhoth_spi_buffer_request ::
  "('s, 'm) spi_posix_scheme \<Rightarrow> bytes \<Rightarrow> libhoth_spi_device \<times> 's
    \<Rightarrow> libhoth_error \<times> (libhoth_spi_device \<times> 's)" where
  "libhoth_spi_buffer_request os request p =
    (let (d, s) = p in
     if buffered_request d \<noteq> None then (spi_err_libhoth LIBHOTH_ERR_INTERFACE_BUSY, (d, s))
     else
       (case os_malloc os s of
          (False, s') \<Rightarrow> (spi_err_libhoth LIBHOTH_ERR_MALLOC_FAILED, (d, s'))
        | (True, s') \<Rightarrow> (HOTH_SUCCESS, (d\<lparr>buffered_request := Some request\<rparr>, s'))))"

definition atomic_message :: "u32 \<Rightarrow> bool \<Rightarrow> bytes \<Rightarrow> nat \<Rightarrow> spi_ioc_transfer list" where
  "atomic_message address mode_4b request max_response_size =
    [tx_transfer [SPI_NOR_OPCODE_WRITE_ENABLE] True,
     tx_transfer (SPI_NOR_OPCODE_PAGE_PROGRAM # spi_nor_address address mode_4b) False,
     tx_transfer request True,
     tx_transfer (SPI_NOR_OPCODE_SLOW_READ # spi_nor_address address mode_4b) False,
     rx_transfer max_response_size]"

definition libhoth_spi_send_and_receive_response ::
  "('s, 'm) spi_posix_scheme \<Rightarrow> nat \<Rightarrow> libhoth_spi_device \<times> 's
    \<Rightarrow> (libhoth_error \<times> bytes) \<times> (libhoth_spi_device \<times> 's)" where
  "libhoth_spi_send_and_receive_response os max_response_size p =
    (let (d, s) = p in
     if max_response_size < sizeof_response
     then ((spi_err_libhoth LIBHOTH_ERR_INVALID_PARAMETER, []), (d, s))
     else
       (case buffered_request d of
          None \<Rightarrow> ((spi_err_libhoth LIBHOTH_ERR_INTERFACE_BUSY, []), (d, s))
        | Some request \<Rightarrow>
            (let d' = d\<lparr>buffered_request := None\<rparr> in
             case spi_message os (spi_fd d)
                    (atomic_message (mailbox_address d) (address_mode_4b d) request max_response_size) s of
               (Inl errno, s') \<Rightarrow> ((spi_err_posix errno, []), (d', s'))
             | (Inr rx, s') \<Rightarrow>
                 let response = received max_response_size rx;
                     data_len = unat (resp_data_len (response_of_bytes (take sizeof_response response)))
                 in if max_response_size - sizeof_response < data_len
                    then ((spi_err_libhoth LIBHOTH_ERR_RESPONSE_BUFFER_OVERFLOW, []), (d', s'))
                    else ((HOTH_SUCCESS, take (data_len + sizeof_response) response), (d', s')))))"

text \<open>What is printed is returned.\<close>

definition libhoth_tpm_spi_probe ::
  "('s, 'm) spi_posix_scheme \<Rightarrow> libhoth_spi_device \<times> 's
    \<Rightarrow> (libhoth_error \<times> string) \<times> (libhoth_spi_device \<times> 's)" where
  "libhoth_tpm_spi_probe os p =
    (let (d, s) = p;
         addr = DID_VID_ADDR;
         tx = [0x83, ucast (drop_bit 16 addr), ucast (drop_bit 8 addr), ucast addr]
     in case spi_message os (spi_fd d) [tx_transfer tx False, rx_transfer 5] s of
          (Inl errno, s') \<Rightarrow> ((spi_err_posix errno, ''Failed to read DID_VID: ffffffff'' @ [CHR 0x0A]), (d, s'))
        | (Inr rx, s') \<Rightarrow>
            let did = push_bit 8 (ucast (rx 4)) OR ucast (rx 3) :: u16;
                vid = push_bit 8 (ucast (rx 2)) OR ucast (rx 1) :: u16
            in ((HOTH_SUCCESS,
                 ''DID: 0x'' @ hex_padded hex_digits 1 (unat did) @ [CHR 0x0A]
                 @ ''VID: 0x'' @ hex_padded hex_digits 1 (unat vid) @ [CHR 0x0A]), (d, s')))"

text \<open>
  The table, for either mode. Its entries are total functions: a send that never returns is given
  an error here.
\<close>

definition spi_device ::
  "('s, 'm) spi_posix_scheme \<Rightarrow> bool \<Rightarrow> (libhoth_spi_device \<times> 's) libhoth_device" where
  "spi_device os at =
    \<lparr>dev_send =
       (if at then libhoth_spi_buffer_request os
        else (\<lambda>request p. case libhoth_spi_send_request os request p of
                Some r \<Rightarrow> r | None \<Rightarrow> (spi_err_libhoth LIBHOTH_ERR_FAIL, p))),
     dev_receive = (\<lambda>max_size _.
       if at then libhoth_spi_send_and_receive_response os max_size
       else libhoth_spi_receive_response os max_size),
     dev_close = libhoth_spi_close os, dev_claim = libhoth_spi_claim os,
     dev_release = libhoth_spi_release os, dev_reconnect = Some libhoth_spi_reconnect\<rparr>"

section \<open>Opening\<close>

text \<open>The settings of the interface: \<open>True\<close> if every call succeeded.\<close>

definition spi_configure ::
  "('s, 'm) spi_posix_scheme \<Rightarrow> libhoth_spi_device_init_options \<Rightarrow> int \<Rightarrow> 's \<Rightarrow> bool \<times> 's" where
  "spi_configure os opts fd s =
    (case spi_wr_bits os fd (if bits opts \<noteq> 0 then ucast (bits opts) else 8) s of
       (False, s1) \<Rightarrow> (False, s1)
     | (True, s1) \<Rightarrow>
         (case spi_wr_mode32 os fd (mode opts) s1 of
            (False, s2) \<Rightarrow> (False, s2)
          | (True, s2) \<Rightarrow>
              if speed opts \<noteq> 0 then spi_wr_max_speed os fd (speed opts) s2 else (True, s2)))"

definition libhoth_spi_open ::
  "('s, 'm) spi_posix_scheme \<Rightarrow> libhoth_spi_device_init_options option \<Rightarrow> bool \<Rightarrow> 's
    \<Rightarrow> ((libhoth_error + libhoth_spi_device) \<times> 's) option" where
  "libhoth_spi_open os options out s =
    (case options of None \<Rightarrow> Some (Inl (spi_err_libhoth LIBHOTH_ERR_INVALID_PARAMETER), s)
     | Some opts \<Rightarrow>
       (case spi_path opts of
          None \<Rightarrow> Some (Inl (spi_err_libhoth LIBHOTH_ERR_INVALID_PARAMETER), s)
        | Some dev_path \<Rightarrow>
          if \<not> out then Some (Inl (spi_err_libhoth LIBHOTH_ERR_INVALID_PARAMETER), s)
          else
            (let (fd, s1) = os_open os dev_path s in
             if fd < 0 then Some (Inl (spi_err_libhoth LIBHOTH_ERR_INTERFACE_NOT_FOUND), s1)
             else
               (case os_malloc os s1 of
                  (False, s2) \<Rightarrow> Some (Inl (spi_err_libhoth LIBHOTH_ERR_MALLOC_FAILED), os_close os fd s2)
                | (True, s2) \<Rightarrow>
                  (case os_malloc os s2 of
                     (False, s3) \<Rightarrow> Some (Inl (spi_err_libhoth LIBHOTH_ERR_MALLOC_FAILED), os_close os fd s3)
                   | (True, s3) \<Rightarrow>
                     let spi_dev = \<lparr>spi_fd = fd, mailbox_address = spi_mailbox opts, address_mode_4b = True,
                           buffered_request = None, device_busy_wait_timeout = opt_busy_wait_timeout opts,
                           device_busy_wait_check_interval = opt_busy_wait_check_interval opts\<rparr>
                     in (case libhoth_claim_device (\<lambda>us (d, t). (d, spi_usleep os us t))
                                (Some (spi_device os (atomic opts))) (timeout_us opts) (spi_dev, s3) of
                           None \<Rightarrow> None
                         | Some (status, (d, s4)) \<Rightarrow>
                             if status \<noteq> HOTH_SUCCESS then Some (Inl status, os_close os fd s4)
                             else
                               (case spi_configure os opts fd s4 of
                                  (False, s5) \<Rightarrow>
                                    Some (Inl (spi_err_libhoth LIBHOTH_ERR_FAIL), os_close os fd s5)
                                | (True, s5) \<Rightarrow> Some (Inr d, s5))))))))"

section \<open>The transport contract\<close>

interpretation spi: transport "spi_device os at" for os :: "('s, 'm) spi_posix_scheme" and at
proof
  show "length resp \<le> max_size"
    if run: "dev_receive (spi_device os at) max_size timeout_ms p = ((HOTH_SUCCESS, resp), p')"
    for max_size timeout_ms p resp p'
  proof (cases at)
    case True
    with run show ?thesis
      by (auto simp: spi_device_def libhoth_spi_send_and_receive_response_def Let_def spi_err_posix_def
          split: if_splits option.splits sum.splits prod.splits)
  next
    case False
    with run show ?thesis
      by (auto simp: spi_device_def libhoth_spi_receive_response_def Let_def dest!: spi_nor_read_length
          split: if_splits option.splits sum.splits prod.splits)
  qed
qed

section \<open>Waiting for the device\<close>

text \<open>
  A clock: \<open>ms\<close> is the time in milliseconds, which may pass the range of 64 bits. Sleeping takes
  some time, at most 49 days.
\<close>

definition spi_clock :: "('s, 'm) spi_posix_scheme \<Rightarrow> int \<Rightarrow> u32 \<Rightarrow> ('s \<Rightarrow> nat) \<Rightarrow> bool" where
  "spi_clock os fd interval ms \<longleftrightarrow>
    (\<forall>s. \<exists>s'. clock_gettime os s =
        (Some (word_of_nat (ms s div 1000), word_of_nat (ms s mod 1000 * 1000000)), s') \<and> ms s' = ms s) \<and>
    (\<forall>s. ms (snd (spi_message_by_value os fd status_transfer s)) = ms s) \<and>
    (\<forall>s. ms s < ms (spi_usleep os interval s) \<and> ms (spi_usleep os interval s) \<le> ms s + 2 ^ 32)"

lemma get_monotonic_ms_clock:
  assumes "spi_clock os fd interval ms"
  shows "\<exists>s'. get_monotonic_ms os s = (Some (word_of_nat (ms s)), s') \<and> ms s' = ms s"
proof -
  have "unat (word_of_nat (ms s mod 1000 * 1000000) :: u64) = ms s mod 1000 * 1000000"
  proof -
    have "ms s mod 1000 * 1000000 < 2 ^ 64" using mod_less_divisor [of 1000 "ms s"] by simp
    then show ?thesis by (simp add: unat_of_nat del: of_nat_mult)
  qed
  then have "unat ((word_of_nat (ms s mod 1000 * 1000000) :: u64) div 1000000) = ms s mod 1000"
    by (simp add: unat_div del: of_nat_mult)
  then have "(word_of_nat (ms s mod 1000 * 1000000) :: u64) div 1000000 = word_of_nat (ms s mod 1000)"
    by (metis of_nat_unat ucast_id)
  moreover have "word_of_nat (ms s div 1000) * 1000 + word_of_nat (ms s mod 1000) = (word_of_nat (ms s) :: u64)"
    by (metis div_mult_mod_eq of_nat_add of_nat_mult of_nat_numeral)
  ultimately have w: "word_of_nat (ms s div 1000) * 1000 + (word_of_nat (ms s mod 1000 * 1000000) :: u64) div 1000000 =
      word_of_nat (ms s)"
    by (simp only:)
  obtain s' where "clock_gettime os s = (Some (word_of_nat (ms s div 1000), word_of_nat (ms s mod 1000 * 1000000)), s')"
    "ms s' = ms s"
    using assms unfolding spi_clock_def by blast
  then show ?thesis unfolding get_monotonic_ms_def by (simp only: prod.case option.case w simp_thms) auto
qed

lemma time_elapsed_ms:
  assumes "t < 2 ^ 63"
  shows "unat (time_elapsed (word_of_nat m) (word_of_nat (m + t))) \<in> {t, t - 1}"
proof -
  define a where "a = m mod 2 ^ 64"
  have ua: "unat (word_of_nat m :: u64) = a" by (simp add: a_def unat_of_nat)
  have a: "a < 2 ^ 64" by (simp add: a_def)
  have uc: "unat (word_of_nat (m + t) :: u64) = (a + t) mod 2 ^ 64"
    by (simp add: a_def unat_of_nat mod_simps del: of_nat_add)
  show ?thesis
  proof (cases "a + t < 2 ^ 64")
    case True
    then have c: "unat (word_of_nat (m + t) :: u64) = a + t" using uc by simp
    then have "\<not> (word_of_nat (m + t) :: u64) < word_of_nat m" using ua by (simp add: word_less_nat_alt del: of_nat_add)
    moreover have "unat (word_of_nat (m + t) - word_of_nat m :: u64) = t"
      using c ua by (subst unat_sub) (simp_all add: word_le_nat_alt del: of_nat_add)
    ultimately show ?thesis by (simp add: time_elapsed_def del: of_nat_add)
  next
    case False
    then have c: "unat (word_of_nat (m + t) :: u64) = a + t - 2 ^ 64"
      using uc a assms by (simp add: mod_if)
    have lt: "(word_of_nat (m + t) :: u64) < word_of_nat m"
      using c ua False assms by (simp add: word_less_nat_alt del: of_nat_add)
    have u: "unat (UINT64_MAX - word_of_nat m) = 2 ^ 64 - 1 - a"
      using ua a by (subst unat_sub) (simp_all add: UINT64_MAX_def word_le_nat_alt)
    have "unat (UINT64_MAX - word_of_nat m + word_of_nat (m + t)) = t - 1"
      using False a assms by (simp add: unat_word_ariths u c del: of_nat_add)
    then show ?thesis using lt by (simp add: time_elapsed_def del: of_nat_add)
  qed
qed

lemma busy_wait_loop_returns:
  assumes "spi_clock os fd interval ms"
  shows "start \<le> ms s \<Longrightarrow> ms s \<le> start + unat (timeout div 1000) + 2 ^ 33 \<Longrightarrow>
    \<exists>st s'. busy_wait_loop os fd timeout interval (word_of_nat start) s = Some (st, s') \<and>
      st \<in> {LIBHOTH_OK, LIBHOTH_ERR_FAIL, LIBHOTH_ERR_TIMEOUT} \<and>
      (st = LIBHOTH_ERR_TIMEOUT \<longrightarrow> unat (timeout div 1000) < ms s' - start)"
proof (induction "start + unat (timeout div 1000) + 2 ^ 33 - ms s" arbitrary: s rule: less_induct)
  case less
  let ?e = "unat (timeout div 1000)"
  have e: "?e < 2 ^ 32" by (rule order_less_le_trans [OF unat_bound]) simp
  obtain x s1 where p: "spi_message_by_value os fd status_transfer s = (x, s1)"
    by (cases "spi_message_by_value os fd status_transfer s")
  have m1: "ms s1 = ms s" using assms p unfolding spi_clock_def by (metis snd_conv)
  obtain s2 where c: "get_monotonic_ms os s1 = (Some (word_of_nat (ms s1)), s2)" "ms s2 = ms s1"
    using get_monotonic_ms_clock [OF assms] by blast
  obtain t where t: "ms s = start + t" using less.prems(1) le_iff_add by blast
  then have t63: "t < 2 ^ 63" using less.prems(2) e by simp
  have el: "unat (time_elapsed (word_of_nat start) (word_of_nat (ms s1))) \<in> {t, t - 1}"
    using time_elapsed_ms [OF t63, of start] unfolding m1 t .
  have lt: "ucast (timeout div 1000) < time_elapsed (word_of_nat start) (word_of_nat (ms s1)) \<longleftrightarrow>
      ?e < unat (time_elapsed (word_of_nat start) (word_of_nat (ms s1)))"
    by (simp add: word_less_nat_alt)
  show ?case
  proof (cases x)
    case (Inl e)
    then show ?thesis by (subst busy_wait_loop.simps) (simp add: p)
  next
    case (Inr rx)
    consider (ready) "rx 1 AND SPI_NOR_DEVICE_STATUS_WIP_BIT = 0"
      | (late) "rx 1 AND SPI_NOR_DEVICE_STATUS_WIP_BIT \<noteq> 0"
          "?e < unat (time_elapsed (word_of_nat start) (word_of_nat (ms s1)))"
      | (again) "rx 1 AND SPI_NOR_DEVICE_STATUS_WIP_BIT \<noteq> 0"
          "\<not> ?e < unat (time_elapsed (word_of_nat start) (word_of_nat (ms s1)))"
      by blast
    then show ?thesis
    proof cases
      case ready
      then show ?thesis by (subst busy_wait_loop.simps) (simp del: One_nat_def add: p Inr)
    next
      case late
      then have "?e < ms s2 - start" using el m1 c(2) t by auto
      with late show ?thesis
        by (subst busy_wait_loop.simps) (simp del: One_nat_def add: p Inr c lt)
    next
      case again
      let ?s = "spi_usleep os interval s2"
      have u: "ms s < ms ?s" "ms ?s \<le> ms s + 2 ^ 32"
        using assms m1 c(2) unfolding spi_clock_def by metis+
      have "t \<le> ?e + 1" using again(2) el by auto
      then have "ms ?s \<le> start + ?e + 2 ^ 33" using u t by simp
      moreover have "start \<le> ms ?s" using u less.prems(1) by simp
      moreover have "start + ?e + 2 ^ 33 - ms ?s < start + ?e + 2 ^ 33 - ms s"
        using u calculation(1) by linarith
      ultimately have "\<exists>st s'. busy_wait_loop os fd timeout interval (word_of_nat start) ?s = Some (st, s') \<and>
          st \<in> {LIBHOTH_OK, LIBHOTH_ERR_FAIL, LIBHOTH_ERR_TIMEOUT} \<and>
          (st = LIBHOTH_ERR_TIMEOUT \<longrightarrow> ?e < ms s' - start)"
        by (intro less.hyps)
      with again show ?thesis
        by (subst busy_wait_loop.simps) (simp del: One_nat_def add: p Inr c lt)
    qed
  qed
qed

text \<open>
  Whatever the device answers, waiting for it ends if the clock runs, also when the
  64-bit time wraps around; it times out only after more than the timeout, in milliseconds rounded
  down, has passed.
\<close>

theorem spi_busy_wait_returns:
  assumes "spi_clock os fd interval ms"
  shows "\<exists>st s'. spi_nor_busy_wait os fd timeout interval s = Some (st, s') \<and>
    st \<in> {LIBHOTH_OK, LIBHOTH_ERR_FAIL, LIBHOTH_ERR_TIMEOUT} \<and>
    (st = LIBHOTH_ERR_TIMEOUT \<longrightarrow> unat timeout div 1000 < ms s' - ms s)"
proof -
  obtain s1 where s1: "get_monotonic_ms os s = (Some (word_of_nat (ms s)), s1)" "ms s1 = ms s"
    using get_monotonic_ms_clock [OF assms] by blast
  then show ?thesis
    using busy_wait_loop_returns [OF assms, of "ms s" s1 timeout] by (simp add: spi_nor_busy_wait_def unat_div)
qed

text \<open>A device that never gets ready, under a clock that advances 10 ms with every sleep.\<close>

definition spi_stuck :: "nat spi_posix" where
  "spi_stuck = \<lparr>os_open = (\<lambda>_ s. (3, s)), os_close = (\<lambda>_ s. s), os_lseek = (\<lambda>_ _ s. (True, s)),
     os_read = (\<lambda>_ _ s. (Inl 5, s)), os_write = (\<lambda>_ _ s. (Inl 5, s)),
     os_flock_ex = (\<lambda>_ s. (True, s)), os_flock_un = (\<lambda>_ s. (True, s)), os_malloc = (\<lambda>s. (True, s)),
     spi_message = (\<lambda>_ _ s. (Inr (\<lambda>_. 0), s)), spi_message_by_value = (\<lambda>_ _ s. (Inr (\<lambda>_. 1), s)),
     spi_wr_bits = (\<lambda>_ _ s. (True, s)), spi_wr_mode32 = (\<lambda>_ _ s. (True, s)),
     spi_wr_max_speed = (\<lambda>_ _ s. (True, s)),
     clock_gettime = (\<lambda>s. (Some (word_of_nat (s div 1000), word_of_nat (s mod 1000 * 1000000)), s)),
     spi_usleep = (\<lambda>_ s. s + 10)\<rparr>"

theorem spi_busy_wait_returns_witness:
  "\<exists>st s'. spi_nor_busy_wait spi_stuck 3 50000 10000 (2 ^ 64 - 5) = Some (st, s') \<and>
    st \<in> {LIBHOTH_OK, LIBHOTH_ERR_FAIL, LIBHOTH_ERR_TIMEOUT}"
proof -
  have "spi_clock spi_stuck 3 10000 id" by (simp add: spi_clock_def spi_stuck_def)
  from spi_busy_wait_returns [OF this, of 50000 "2 ^ 64 - 5"] show ?thesis by blast
qed

text \<open>What waiting leaves alone, if its calls do.\<close>

definition waiting_keeps :: "('s, 'm) spi_posix_scheme \<Rightarrow> int \<Rightarrow> ('s \<Rightarrow> 'g) \<Rightarrow> bool" where
  "waiting_keeps os fd g \<longleftrightarrow>
    (\<forall>s. g (snd (spi_message_by_value os fd status_transfer s)) = g s \<and>
      g (snd (clock_gettime os s)) = g s \<and> (\<forall>us. g (spi_usleep os us s) = g s))"

lemma monotonic_ms_keeps:
  assumes "waiting_keeps os fd g"
  shows "g (snd (get_monotonic_ms os s)) = g s"
proof -
  obtain t s' where "clock_gettime os s = (t, s')" by (cases "clock_gettime os s")
  moreover from this have "g s' = g s" using assms unfolding waiting_keeps_def by (metis snd_conv)
  ultimately show ?thesis by (simp add: get_monotonic_ms_def split: option.splits)
qed

lemma busy_wait_loop_keeps:
  assumes "busy_wait_loop os fd timeout interval start s = Some r"
  shows "waiting_keeps os fd g \<longrightarrow> g (snd r) = g s"
proof (rule busy_wait_loop.raw_induct [where P = "\<lambda>os fd timeout interval start s r. waiting_keeps os fd g \<longrightarrow> g (snd r) = g s", OF _ assms], rule impI)
  fix loop os fd timeout interval start s r
  assume IH: "\<And>os fd timeout interval start s r. loop os fd timeout interval start s = Some r \<Longrightarrow>
      waiting_keeps os fd g \<longrightarrow> g (snd r) = g s"
    and run: "(case spi_message_by_value os fd status_transfer s of
       (Inl _, s1) \<Rightarrow> Some (LIBHOTH_ERR_FAIL, s1)
     | (Inr rx, s1) \<Rightarrow>
         if rx 1 AND SPI_NOR_DEVICE_STATUS_WIP_BIT = 0 then Some (LIBHOTH_OK, s1)
         else
           (case get_monotonic_ms os s1 of
              (None, s2) \<Rightarrow> Some (LIBHOTH_ERR_FAIL, s2)
            | (Some current_time_ms, s2) \<Rightarrow>
                if ucast (timeout div 1000) < time_elapsed start current_time_ms
                then Some (LIBHOTH_ERR_TIMEOUT, s2)
                else loop os fd timeout interval start (spi_usleep os interval s2))) = Some r"
    and q: "waiting_keeps os fd g"
  obtain x s1 where p: "spi_message_by_value os fd status_transfer s = (x, s1)"
    by (cases "spi_message_by_value os fd status_transfer s")
  obtain t s2 where c: "get_monotonic_ms os s1 = (t, s2)" by (cases "get_monotonic_ms os s1")
  have k: "g s1 = g s" "g s2 = g s1" "g (spi_usleep os interval s2) = g s2"
    using q p monotonic_ms_keeps [OF q, of s1] c unfolding waiting_keeps_def by (metis snd_conv)+
  then show "g (snd r) = g s"
    using run p c IH q by (auto simp del: One_nat_def split: sum.splits if_splits option.splits)
qed

section \<open>The mailbox behind the interface\<close>

lemma be_nat_spi_nor_address:
  "mode_4b \<or> unat a < 2 ^ 24 \<Longrightarrow> be_nat (spi_nor_address a mode_4b) = unat a"
proof -
  have m: "(ucast (w AND 0xFF) :: u8) = ucast w" for w :: u32
  proof -
    have "w AND 0xFF = take_bit 8 w" by (simp add: take_bit_eq_mask mask_numeral)
    then show ?thesis by (intro bit_word_eqI) (simp add: bit_simps)
  qed
  show "mode_4b \<or> unat a < 2 ^ 24 \<Longrightarrow> be_nat (spi_nor_address a mode_4b) = unat a"
    by (auto simp: spi_nor_address_def m be_nat_32 be_nat_24)
qed

text \<open>
  A flash interface in front of a memory, as its commands are documented: write enable sets a
  latch, with which a page program that does not cross a page stores its data; a read returns what
  is there. Nothing is assumed of the answer to a status poll, which passes its structure by value:
  it may fail, or report a device that is ready or busy, as long as the memory is left alone; so do the
  clock and the sleep.
\<close>

definition spi_memory ::
  "('s, 'm) spi_posix_scheme \<Rightarrow> int \<Rightarrow> ('s \<Rightarrow> bytes) \<Rightarrow> ('s \<Rightarrow> bool) \<Rightarrow> bool" where
  "spi_memory os fd mem wel \<longleftrightarrow>
    (\<forall>s. \<exists>r s'. spi_message os fd [tx_transfer [SPI_NOR_OPCODE_WRITE_ENABLE] False] s = (Inr r, s') \<and>
      mem s' = mem s \<and> wel s') \<and>
    (\<forall>ab d s. wel s \<longrightarrow> be_nat ab mod 256 + length d \<le> 256 \<longrightarrow> be_nat ab + length d \<le> length (mem s) \<longrightarrow>
      (\<exists>r s'. spi_message os fd [tx_transfer (SPI_NOR_OPCODE_PAGE_PROGRAM # ab) False, tx_transfer d False] s =
        (Inr r, s') \<and> mem s' = memcpy_at (be_nat ab) d (mem s))) \<and>
    (\<forall>ab n s. be_nat ab + n \<le> length (mem s) \<longrightarrow>
      (\<exists>rx s'. spi_message os fd [tx_transfer (SPI_NOR_OPCODE_SLOW_READ # ab) False, rx_transfer n] s = (Inr rx, s') \<and>
        received n rx = byte_range (be_nat ab) n (mem s) \<and> mem s' = mem s)) \<and>
    waiting_keeps os fd mem"

text \<open>Every status poll is answered by a device that is ready, or every one is rejected by the kernel.\<close>

definition polls_ready :: "('s, 'm) spi_posix_scheme \<Rightarrow> int \<Rightarrow> bool" where
  "polls_ready os fd \<longleftrightarrow>
    (\<forall>s. \<exists>rx. fst (spi_message_by_value os fd status_transfer s) = Inr rx \<and> rx 1 AND SPI_NOR_DEVICE_STATUS_WIP_BIT = 0)"

definition polls_rejected :: "('s, 'm) spi_posix_scheme \<Rightarrow> int \<Rightarrow> bool" where
  "polls_rejected os fd \<longleftrightarrow> (\<forall>s. \<exists>errno. fst (spi_message_by_value os fd status_transfer s) = Inl errno)"

text \<open>What the outcome of waiting is then.\<close>

definition wait_outcome :: "('s, 'm) spi_posix_scheme \<Rightarrow> int \<Rightarrow> libhoth_status \<Rightarrow> bool" where
  "wait_outcome os fd st \<longleftrightarrow>
    st \<in> {LIBHOTH_OK, LIBHOTH_ERR_FAIL, LIBHOTH_ERR_TIMEOUT} \<and>
    (polls_ready os fd \<longrightarrow> st = LIBHOTH_OK) \<and> (polls_rejected os fd \<longrightarrow> st = LIBHOTH_ERR_FAIL)"


lemma spi_memory_wait:
  assumes "spi_memory os fd mem wel" "spi_clock os fd interval ms"
  shows "\<exists>st s'. spi_nor_busy_wait os fd timeout interval s = Some (st, s') \<and> mem s' = mem s \<and> wait_outcome os fd st"
proof -
  obtain st s' where w: "spi_nor_busy_wait os fd timeout interval s = Some (st, s')"
    "st \<in> {LIBHOTH_OK, LIBHOTH_ERR_FAIL, LIBHOTH_ERR_TIMEOUT}"
    using spi_busy_wait_returns [OF assms(2), of timeout s] by blast
  have q: "waiting_keeps os fd mem" using assms(1) by (simp add: spi_memory_def)
  obtain start s1 where m: "get_monotonic_ms os s = (Some start, s1)"
    using get_monotonic_ms_clock [OF assms(2), of s] by blast
  with w have l: "busy_wait_loop os fd timeout interval start s1 = Some (st, s')" by (simp add: spi_nor_busy_wait_def)
  have "mem s' = mem s"
    using busy_wait_loop_keeps [OF l, of mem, THEN mp, OF q] monotonic_ms_keeps [OF q, of s] m by simp
  moreover have "wait_outcome os fd st"
  proof -
    obtain x s2 where p: "spi_message_by_value os fd status_transfer s1 = (x, s2)"
      by (cases "spi_message_by_value os fd status_transfer s1")
    have "st = LIBHOTH_OK" if r: "polls_ready os fd"
    proof -
      obtain rx where "x = Inr rx" "rx 1 AND SPI_NOR_DEVICE_STATUS_WIP_BIT = 0"
        using r [unfolded polls_ready_def, THEN spec, of s1] p by auto
      then show ?thesis using l p by (subst (asm) busy_wait_loop.simps) (simp del: One_nat_def)
    qed
    moreover have "st = LIBHOTH_ERR_FAIL" if r: "polls_rejected os fd"
    proof -
      obtain e where "x = Inl e" using r [unfolded polls_rejected_def, THEN spec, of s1] p by auto
      then show ?thesis using l p by (subst (asm) busy_wait_loop.simps) simp
    qed
    ultimately show ?thesis using w(2) by (simp add: wait_outcome_def)
  qed
  ultimately show ?thesis using w(1) by blast
qed

lemma spi_memory_page:
  assumes "spi_memory os fd mem wel" and "spi_clock os fd interval ms" and "mode_4b \<or> unat a < 2 ^ 24"
    and "unat a mod 256 + length d \<le> 256" and "unat a + length d \<le> length (mem s)"
  shows "\<exists>st s'. spi_nor_write_page os fd mode_4b timeout interval a d s = Some (st, s') \<and>
    mem s' = memcpy_at (unat a) d (mem s) \<and> wait_outcome os fd st"
proof -
  obtain r s1 where 1: "spi_message os fd [tx_transfer [SPI_NOR_OPCODE_WRITE_ENABLE] False] s = (Inr r, s1)"
    "mem s1 = mem s" "wel s1"
    using assms(1) unfolding spi_memory_def by blast
  have ab: "be_nat (spi_nor_address a mode_4b) = unat a" using assms(3) by (rule be_nat_spi_nor_address)
  have prog: "\<exists>r s'. spi_message os fd [tx_transfer (SPI_NOR_OPCODE_PAGE_PROGRAM # ab) False, tx_transfer d False] s1 =
      (Inr r, s') \<and> mem s' = memcpy_at (be_nat ab) d (mem s1)"
    if "be_nat ab mod 256 + length d \<le> 256" "be_nat ab + length d \<le> length (mem s)" for ab
    using assms(1) [unfolded spi_memory_def, THEN conjunct2, THEN conjunct1, rule_format, OF 1(3), of ab d] that
    unfolding 1(2) by blast
  obtain r' s2 where 2: "spi_message os fd
      [tx_transfer (SPI_NOR_OPCODE_PAGE_PROGRAM # spi_nor_address a mode_4b) False, tx_transfer d False] s1 = (Inr r', s2)"
    "mem s2 = memcpy_at (unat a) d (mem s1)"
    using prog [of "spi_nor_address a mode_4b"] assms(4,5) unfolding ab by blast
  obtain st s3 where "spi_nor_busy_wait os fd timeout interval s2 = Some (st, s3)" "mem s3 = mem s2" "wait_outcome os fd st"
    using spi_memory_wait [OF assms(1,2)] by blast
  with 1 2 show ?thesis by (simp add: spi_nor_write_page_def spi_nor_write_enable_def)
qed

text \<open>
  What the write loop leaves from byte \<open>n\<close> on: \<open>j\<close> bytes are programmed, all of them on success. When
  every poll is rejected it stops after the first page.
\<close>

definition spi_written ::
  "('s, 'm) spi_posix_scheme \<Rightarrow> int \<Rightarrow> bytes \<Rightarrow> nat \<Rightarrow> libhoth_status \<Rightarrow> bool" where
  "spi_written os fd rest j st \<longleftrightarrow>
    st \<in> {LIBHOTH_OK, LIBHOTH_ERR_FAIL, LIBHOTH_ERR_TIMEOUT} \<and> j \<le> length rest \<and>
    (st = LIBHOTH_OK \<longrightarrow> j = length rest) \<and> (polls_ready os fd \<longrightarrow> st = LIBHOTH_OK) \<and>
    (polls_rejected os fd \<and> rest \<noteq> [] \<longrightarrow> st = LIBHOTH_ERR_FAIL \<and> j = min 256 (length rest))"

lemma spi_memory_write:
  assumes "spi_memory os fd mem wel" and "spi_clock os fd interval ms" and "n \<le> length data"
    and "mode_4b \<or> unat a + (length data - n) \<le> 2 ^ 24" and "unat a mod 256 = 0"
    and "unat a + (length data - n) \<le> length (mem s)" and "length (mem s) < 2 ^ 32"
  shows "\<exists>st j s'. spi_nor_write_loop (spi_nor_write_page os fd mode_4b timeout interval) data n a s = Some (st, s') \<and>
    mem s' = memcpy_at (unat a) (take j (drop n data)) (mem s) \<and> spi_written os fd (drop n data) j st"
  using assms(3-)
proof (induction "length data - n" arbitrary: n a s rule: less_induct)
  case less
  show ?case
  proof (cases "n < length data")
    case False
    with less.prems show ?thesis by (simp add: spi_nor_write_loop.simps memcpy_at_def spi_written_def)
  next
    case True
    define k where "k = min SPI_NOR_FLASH_PAGE_SIZE (length data - n)"
    have k: "0 < k" "k \<le> 256" "n + k \<le> length data" "k = min 256 (length (drop n data))"
      using True by (auto simp: k_def SPI_NOR_FLASH_PAGE_SIZE_def)
    let ?c = "byte_range n k data"
    have c: "length ?c = k" using k by simp
    have ct: "?c = take k (drop n data)" by (simp add: byte_range_def)
    have a: "mode_4b \<or> unat a < 2 ^ 24" using less.prems(2) True by linarith
    have "unat a mod 256 + length ?c \<le> 256" "unat a + length ?c \<le> length (mem s)"
      using less.prems k c by auto
    from spi_memory_page [OF assms(1,2) a this]
    obtain st s1 where s1: "spi_nor_write_page os fd mode_4b timeout interval a ?c s = Some (st, s1)"
      "mem s1 = memcpy_at (unat a) ?c (mem s)" "wait_outcome os fd st"
      by blast
    have len: "length (mem s1) = length (mem s)" using s1 c less.prems k by simp
    have ak: "unat (a + word_of_nat k) = unat a + k"
      using less.prems k by (simp add: unat_word_ariths unat_of_nat)
    have step: "spi_nor_write_loop (spi_nor_write_page os fd mode_4b timeout interval) data n a s =
        (if st \<noteq> LIBHOTH_OK then Some (st, s1)
         else spi_nor_write_loop (spi_nor_write_page os fd mode_4b timeout interval) data (n + k) (a + word_of_nat k) s1)"
      using True s1(1) by (subst spi_nor_write_loop.simps) (simp add: Let_def k_def [symmetric])
    have ne: "drop n data \<noteq> []" using True by simp
    show ?thesis
    proof (cases "st = LIBHOTH_OK")
      case False
      then have "spi_written os fd (drop n data) k st"
        using s1(3) k by (auto simp: spi_written_def wait_outcome_def)
      then show ?thesis unfolding step using False s1(2) ct by auto
    next
      case ok: True
      then have notrej: "\<not> polls_rejected os fd" using s1(3) by (auto simp: wait_outcome_def)
      show ?thesis
      proof (cases "n + k = length data")
        case True
        then have "drop n data = ?c" "spi_written os fd (drop n data) k LIBHOTH_OK"
          using notrej by (auto simp: byte_range_def spi_written_def)
        with True s1 ok show ?thesis unfolding step
          by (intro exI [of _ LIBHOTH_OK] exI [of _ k] exI [of _ s1]) (simp add: spi_nor_write_loop.simps c)
      next
        case False
        then have "k = 256" using k by (auto simp: k_def SPI_NOR_FLASH_PAGE_SIZE_def)
        then have al: "unat (a + word_of_nat k) mod 256 = 0" using less.prems ak by simp
        have d: "length data - (n + k) < length data - n" using k True by linarith
        have m: "mode_4b \<or> unat (a + word_of_nat k) + (length data - (n + k)) \<le> 2 ^ 24"
          and l: "unat (a + word_of_nat k) + (length data - (n + k)) \<le> length (mem s1)" "length (mem s1) < 2 ^ 32"
          using less.prems k unfolding ak len by auto
        from less.hyps [OF d k(3) m al l] obtain st' j s2 where
            s2: "spi_nor_write_loop (spi_nor_write_page os fd mode_4b timeout interval) data (n + k)
              (a + word_of_nat k) s1 = Some (st', s2)"
            "mem s2 = memcpy_at (unat a + k) (take j (drop (n + k) data)) (mem s1)"
            "spi_written os fd (drop (n + k) data) j st'"
          unfolding ak by blast
        have "take (k + j) (drop n data) = ?c @ take j (drop (n + k) data)"
          by (simp only: ct take_add drop_drop add.commute [of k n])
        moreover have "memcpy_at (unat a + k) (take j (drop (n + k) data)) (mem s1) =
            memcpy_at (unat a) (?c @ take j (drop (n + k) data)) (mem s)"
          using memcpy_at_append [of "unat a" ?c "mem s" "take j (drop (n + k) data)"] s1(2) c less.prems k by simp
        moreover have "k + j \<le> length data - n" "st' = LIBHOTH_OK \<longrightarrow> k + j = length data - n"
          using s2(3) k(3) by (auto simp: spi_written_def)
        then have "spi_written os fd (drop n data) (k + j) st'"
          using s2(3) notrej by (simp add: spi_written_def)
        ultimately show ?thesis unfolding step using s2 ok by (intro exI [of _ st'] exI [of _ "k + j"] exI [of _ s2]) simp
      qed
    qed
  qed
qed

lemma spi_memory_read:
  assumes "spi_memory os fd mem wel" and "0 \<le> fd" and "0 < n" and "mode_4b \<or> unat a < 2 ^ 24"
    and "unat a + n \<le> length (mem s)"
  shows "\<exists>s'. spi_nor_read os fd mode_4b a n s = (Inr (byte_range (unat a) n (mem s)), s') \<and> mem s' = mem s"
proof -
  have "be_nat (spi_nor_address a mode_4b) = unat a" using assms(4) by (rule be_nat_spi_nor_address)
  with assms obtain rx s' where
    "spi_message os fd [tx_transfer (SPI_NOR_OPCODE_SLOW_READ # spi_nor_address a mode_4b) False, rx_transfer n] s = (Inr rx, s')"
    "received n rx = byte_range (unat a) n (mem s)" "mem s' = mem s"
    unfolding spi_memory_def by metis
  then show ?thesis using assms(2,3) by (auto simp: spi_nor_read_def)
qed



text \<open>
  A mailbox memory with the latch, and a clock in milliseconds. \<open>poll\<close> answers the status polls:
  here as a device that is ready, or as a kernel that rejects them.
\<close>

type_synonym spi_demo_world = "(bytes \<times> bool) \<times> nat"

definition spi_demo_message ::
  "int \<Rightarrow> spi_ioc_transfer list \<Rightarrow> spi_demo_world \<Rightarrow> (int + (nat \<Rightarrow> u8)) \<times> spi_demo_world" where
  "spi_demo_message fd ts p =
    (let ((m, latch), t) = p in
     case ts of
       [w] \<Rightarrow> (Inr (\<lambda>_. 0), ((m, True), t))
     | [c, x] \<Rightarrow>
         (case (tx_buf c, tx_buf x) of
            (Some cmd, Some d) \<Rightarrow>
              (Inr (\<lambda>_. 0), ((if latch then memcpy_at (be_nat (tl cmd)) d m else m, False), t))
          | (Some cmd, None) \<Rightarrow> (Inr (\<lambda>i. m ! (be_nat (tl cmd) + i)), ((m, latch), t))
          | _ \<Rightarrow> (Inl 5, ((m, latch), t)))
     | _ \<Rightarrow> (Inl 5, ((m, latch), t)))"

definition spi_demo :: "int + (nat \<Rightarrow> u8) \<Rightarrow> spi_demo_world spi_posix" where
  "spi_demo poll = \<lparr>os_open = (\<lambda>_ s. (3, s)), os_close = (\<lambda>_ s. s), os_lseek = (\<lambda>_ _ s. (True, s)),
     os_read = (\<lambda>_ _ s. (Inl 5, s)), os_write = (\<lambda>_ _ s. (Inl 5, s)),
     os_flock_ex = (\<lambda>_ s. (True, s)), os_flock_un = (\<lambda>_ s. (True, s)), os_malloc = (\<lambda>s. (True, s)),
     spi_message = spi_demo_message, spi_message_by_value = (\<lambda>_ _ s. (poll, s)),
     spi_wr_bits = (\<lambda>_ _ s. (True, s)), spi_wr_mode32 = (\<lambda>_ _ s. (True, s)),
     spi_wr_max_speed = (\<lambda>_ _ s. (True, s)),
     clock_gettime = (\<lambda>s. (Some (word_of_nat (snd s div 1000), word_of_nat (snd s mod 1000 * 1000000)), s)),
     spi_usleep = (\<lambda>_ s. (fst s, snd s + 10))\<rparr>"

lemma spi_demo_memory: "spi_memory (spi_demo poll) fd (\<lambda>s. fst (fst s)) (\<lambda>s. snd (fst s))"
proof -
  have "map (\<lambda>i. m ! (k + i)) [0..<n] = byte_range k n m" if "k + n \<le> length m" for k n and m :: bytes
    using that by (intro nth_equalityI) (simp_all add: byte_range_def)
  then show ?thesis
    by (auto simp: spi_memory_def waiting_keeps_def spi_demo_def spi_demo_message_def tx_transfer_def
        rx_transfer_def received_def)
qed

lemma spi_demo_clock: "spi_clock (spi_demo poll) fd interval snd"
  by (simp add: spi_clock_def spi_demo_def)

definition demo_spi_device :: libhoth_spi_device where
  "demo_spi_device = \<lparr>spi_fd = 3, mailbox_address = 256, address_mode_4b = True, buffered_request = None,
     device_busy_wait_timeout = 1000, device_busy_wait_check_interval = 10\<rparr>"


section \<open>The atomic mode\<close>

text \<open>
  Any sequence of calls on a device opened in atomic mode, with the requests its \<open>send\<close> has
  accepted. \<open>spi_logged\<close>: \<open>wire\<close> records the messages put on the bus.
\<close>

inductive atomic_run ::
  "('s, 'm) spi_posix_scheme \<Rightarrow> libhoth_spi_device \<times> 's \<Rightarrow> bytes list \<Rightarrow> libhoth_spi_device \<times> 's \<Rightarrow> bool"
  for os p0 where
  start: "atomic_run os p0 [] p0"
| send: "atomic_run os p0 acc p \<Longrightarrow> dev_send (spi_device os True) request p = (e, p') \<Longrightarrow>
    atomic_run os p0 (if e = HOTH_SUCCESS then acc @ [request] else acc) p'"
| receive: "atomic_run os p0 acc p \<Longrightarrow> dev_receive (spi_device os True) max_size timeout_ms p = (r, p') \<Longrightarrow>
    atomic_run os p0 acc p'"

definition spi_logged :: "('s, 'm) spi_posix_scheme \<Rightarrow> ('s \<Rightarrow> spi_ioc_transfer list list) \<Rightarrow> bool" where
  "spi_logged os wire \<longleftrightarrow>
    (\<forall>fd ts s. wire (snd (spi_message os fd ts s)) = wire s @ [ts]) \<and> (\<forall>s. wire (snd (os_malloc os s)) = wire s)"

definition pending :: "libhoth_spi_device \<Rightarrow> bytes list" where
  "pending d = (case buffered_request d of None \<Rightarrow> [] | Some r \<Rightarrow> [r])"

definition carries :: "libhoth_spi_device \<Rightarrow> spi_ioc_transfer list \<Rightarrow> bytes \<Rightarrow> bool" where
  "carries d m request \<longleftrightarrow> (\<exists>n. m = atomic_message (mailbox_address d) (address_mode_4b d) request n)"

lemma atomic_send_cases:
  assumes "libhoth_spi_buffer_request os request (d, s) = (e, (d', s'))" and "spi_logged os wire"
  shows "wire s' = wire s \<and> mailbox_address d' = mailbox_address d \<and> address_mode_4b d' = address_mode_4b d \<and>
    (if e = HOTH_SUCCESS then pending d = [] \<and> pending d' = [request] else d' = d)"
proof -
  have "wire (snd (os_malloc os s)) = wire s" using assms(2) unfolding spi_logged_def by blast
  with assms(1) show ?thesis
    by (auto simp: libhoth_spi_buffer_request_def pending_def split: if_splits prod.splits bool.splits option.splits)
qed

lemma atomic_receive_cases:
  assumes "libhoth_spi_send_and_receive_response os max_size (d, s) = (r, (d', s'))" and "spi_logged os wire"
  shows "mailbox_address d' = mailbox_address d \<and> address_mode_4b d' = address_mode_4b d \<and>
    (wire s' = wire s \<and> d' = d \<or>
     (\<exists>m request. wire s' = wire s @ [m] \<and> carries d m request \<and> pending d = [request] \<and> pending d' = []))"
proof (cases "sizeof_response \<le> max_size \<and> buffered_request d \<noteq> None")
  case True
  then obtain request where b: "buffered_request d = Some request" by blast
  let ?m = "atomic_message (mailbox_address d) (address_mode_4b d) request max_size"
  obtain x s1 where x: "spi_message os (spi_fd d) ?m s = (x, s1)" by (cases "spi_message os (spi_fd d) ?m s")
  have "wire s1 = wire s @ [?m]" using assms(2) x unfolding spi_logged_def by (metis snd_conv)
  moreover have "s' = s1 \<and> d' = d\<lparr>buffered_request := None\<rparr>"
    using assms(1) True b x
    by (auto simp: libhoth_spi_send_and_receive_response_def Let_def split: sum.splits if_splits)
  ultimately show ?thesis using b by (auto simp: pending_def carries_def)
next
  case False
  with assms(1) show ?thesis
    by (auto simp: libhoth_spi_send_and_receive_response_def split: option.splits if_splits)
qed

lemma atomic_run_device:
  "atomic_run os p0 acc p \<Longrightarrow> spi_logged os wire \<Longrightarrow>
    mailbox_address (fst p) = mailbox_address (fst p0) \<and> address_mode_4b (fst p) = address_mode_4b (fst p0)"
proof (induction rule: atomic_run.induct)
  case (send acc p request e p')
  then show ?case
    using atomic_send_cases [of os request "fst p" "snd p" e "fst p'" "snd p'" wire]
    by (simp add: spi_device_def)
next
  case (receive acc p max_size timeout_ms r p')
  then show ?case
    using atomic_receive_cases [of os max_size "fst p" "snd p" r "fst p'" "snd p'" wire]
    by (simp add: spi_device_def)
qed simp

text \<open>
  C7: in atomic mode, after any sequence of sends and receives, the messages on the bus carry,
  in order and each exactly once, the requests that were accepted, except that the last one may
  still be waiting to be sent: a request is never lost, repeated or overwritten.
\<close>

theorem spi_atomic_exactly_once:
  assumes "atomic_run os p0 accepted p" and "spi_logged os wire" and "buffered_request (fst p0) = None"
  shows "\<exists>ms sent. wire (snd p) = wire (snd p0) @ ms \<and> list_all2 (carries (fst p0)) ms sent \<and>
    accepted = sent @ pending (fst p)"
  using assms
proof (induction rule: atomic_run.induct)
  case start
  then show ?case by (simp add: pending_def)
next
  case (send acc p request e p')
  then obtain ms sent where IH: "wire (snd p) = wire (snd p0) @ ms" "list_all2 (carries (fst p0)) ms sent"
    "acc = sent @ pending (fst p)" by blast
  have "wire (snd p') = wire (snd p) \<and>
      (if e = HOTH_SUCCESS then pending (fst p) = [] \<and> pending (fst p') = [request] else fst p' = fst p)"
    using atomic_send_cases [of os request "fst p" "snd p" e "fst p'" "snd p'" wire] send.hyps(2) send.prems
    by (simp add: spi_device_def)
  then show ?case using IH by (cases "e = HOTH_SUCCESS") auto
next
  case (receive acc p max_size timeout_ms r p')
  then obtain ms sent where IH: "wire (snd p) = wire (snd p0) @ ms" "list_all2 (carries (fst p0)) ms sent"
    "acc = sent @ pending (fst p)" by blast
  have same: "carries (fst p) = carries (fst p0)"
    using atomic_run_device [OF receive.hyps(1) receive.prems(1)] by (simp add: carries_def fun_eq_iff)
  have "wire (snd p') = wire (snd p) \<and> fst p' = fst p \<or>
     (\<exists>m request. wire (snd p') = wire (snd p) @ [m] \<and> carries (fst p) m request \<and>
       pending (fst p) = [request] \<and> pending (fst p') = [])"
    using atomic_receive_cases [of os max_size "fst p" "snd p" r "fst p'" "snd p'" wire] receive.hyps(2) receive.prems
    by (simp add: spi_device_def)
  then show ?case
  proof
    assume "wire (snd p') = wire (snd p) \<and> fst p' = fst p"
    then show ?thesis using IH by auto
  next
    assume "\<exists>m request. wire (snd p') = wire (snd p) @ [m] \<and> carries (fst p) m request \<and>
       pending (fst p) = [request] \<and> pending (fst p') = []"
    then obtain m request where "wire (snd p') = wire (snd p) @ [m]" "carries (fst p0) m request"
      "pending (fst p) = [request]" "pending (fst p') = []" using same by auto
    then have "wire (snd p') = wire (snd p0) @ (ms @ [m]) \<and> list_all2 (carries (fst p0)) (ms @ [m]) (sent @ [request]) \<and>
        acc = (sent @ [request]) @ pending (fst p')"
      using IH by (simp add: list_all2_appendI)
    then show ?thesis by blast
  qed
qed

text \<open>Two sends and one receive over a bus that records its messages: the second send is refused.\<close>

definition spi_recorder :: "spi_ioc_transfer list list spi_posix" where
  "spi_recorder = \<lparr>os_open = (\<lambda>_ s. (3, s)), os_close = (\<lambda>_ s. s), os_lseek = (\<lambda>_ _ s. (True, s)),
     os_read = (\<lambda>_ _ s. (Inl 5, s)), os_write = (\<lambda>_ _ s. (Inl 5, s)),
     os_flock_ex = (\<lambda>_ s. (True, s)), os_flock_un = (\<lambda>_ s. (True, s)), os_malloc = (\<lambda>s. (True, s)),
     spi_message = (\<lambda>_ ts s. (Inr (\<lambda>_. 0), s @ [ts])), spi_message_by_value = (\<lambda>_ _ s. (Inr (\<lambda>_. 0), s)),
     spi_wr_bits = (\<lambda>_ _ s. (True, s)), spi_wr_mode32 = (\<lambda>_ _ s. (True, s)),
     spi_wr_max_speed = (\<lambda>_ _ s. (True, s)), clock_gettime = (\<lambda>s. (Some (1, 0), s)), spi_usleep = (\<lambda>_ s. s)\<rparr>"

theorem spi_atomic_exactly_once_witness:
  "\<exists>p ms sent. atomic_run spi_recorder (\<lparr>spi_fd = 3, mailbox_address = 256, address_mode_4b = True,
      buffered_request = None, device_busy_wait_timeout = 1000, device_busy_wait_check_interval = 10\<rparr>, []) [[1, 2]] p \<and>
    snd p = ms \<and> length ms = 1 \<and> [[1, 2]] = sent @ pending (fst p)"
proof -
  let ?d = "\<lparr>spi_fd = 3, mailbox_address = 256, address_mode_4b = True, buffered_request = None,
      device_busy_wait_timeout = 1000, device_busy_wait_check_interval = 10\<rparr>"
  let ?m = "atomic_message 256 True [1, 2] 64"
  have 1: "atomic_run spi_recorder (?d, []) [[1, 2]] (?d\<lparr>buffered_request := Some [1, 2]\<rparr>, [])"
    using atomic_run.send [OF atomic_run.start, of spi_recorder "[1, 2]" "(?d, [])" HOTH_SUCCESS]
    by (simp add: spi_device_def libhoth_spi_buffer_request_def spi_recorder_def)
  have 2: "atomic_run spi_recorder (?d, []) [[1, 2]] (?d\<lparr>buffered_request := Some [1, 2]\<rparr>, [])"
    using atomic_run.send [OF 1, of "[3]" "spi_err_libhoth LIBHOTH_ERR_INTERFACE_BUSY"]
    by (simp add: spi_device_def libhoth_spi_buffer_request_def)
  have "\<exists>r. dev_receive (spi_device spi_recorder True) 64 0 (?d\<lparr>buffered_request := Some [1, 2]\<rparr>, []) = (r, (?d, [?m]))"
    by (simp add: spi_device_def libhoth_spi_send_and_receive_response_def spi_recorder_def Let_def)
  then obtain r where "dev_receive (spi_device spi_recorder True) 64 0 (?d\<lparr>buffered_request := Some [1, 2]\<rparr>, []) =
      (r, (?d, [?m]))" by blast
  from atomic_run.receive [OF 2 this]
  have run: "atomic_run spi_recorder (?d, []) [[1, 2]] (?d, [?m])" .
  have "spi_logged spi_recorder id" by (simp add: spi_logged_def spi_recorder_def)
  from spi_atomic_exactly_once [OF run this] run show ?thesis by fastforce
qed

end
