(* ===== verification/Usb_Mailbox.thy ===== *)
theory Usb_Mailbox
  imports Hoth_Device Host_Cmd
begin

text \<open>
  \<open>transports/libhoth_usb_device.h\<close> and \<open>transports/libhoth_usb_mailbox.c\<close>: the mailbox driver of
  the USB transport. libusb is a parameter. The functions return the \<open>int\<close> codes of the C
  functions: negative for an error of libusb, positive for a \<open>libhoth_status\<close>. An access outside a
  packet buffer and a loop that never ends are \<open>None\<close>.
\<close>

section \<open>libusb and the driver data\<close>

definition LIBUSB_SUCCESS :: int where "LIBUSB_SUCCESS = 0"
definition LIBUSB_ERROR_IO :: int where "LIBUSB_ERROR_IO = -1"
definition LIBUSB_ERROR_INVALID_PARAM :: int where "LIBUSB_ERROR_INVALID_PARAM = -2"
definition LIBUSB_ERROR_ACCESS :: int where "LIBUSB_ERROR_ACCESS = -3"
definition LIBUSB_ERROR_NO_DEVICE :: int where "LIBUSB_ERROR_NO_DEVICE = -4"
definition LIBUSB_ERROR_BUSY :: int where "LIBUSB_ERROR_BUSY = -6"
definition LIBUSB_ERROR_TIMEOUT :: int where "LIBUSB_ERROR_TIMEOUT = -7"
definition LIBUSB_ERROR_OVERFLOW :: int where "LIBUSB_ERROR_OVERFLOW = -8"
definition LIBUSB_ERROR_PIPE :: int where "LIBUSB_ERROR_PIPE = -9"
definition LIBUSB_ERROR_INTERRUPTED :: int where "LIBUSB_ERROR_INTERRUPTED = -10"
definition LIBUSB_ERROR_OTHER :: int where "LIBUSB_ERROR_OTHER = -99"

lemmas libusb_errors = LIBUSB_SUCCESS_def LIBUSB_ERROR_IO_def LIBUSB_ERROR_INVALID_PARAM_def LIBUSB_ERROR_ACCESS_def
  LIBUSB_ERROR_NO_DEVICE_def LIBUSB_ERROR_BUSY_def LIBUSB_ERROR_TIMEOUT_def LIBUSB_ERROR_OVERFLOW_def
  LIBUSB_ERROR_PIPE_def LIBUSB_ERROR_INTERRUPTED_def LIBUSB_ERROR_OTHER_def

datatype libhoth_usb_interface_type =
  LIBHOTH_USB_INTERFACE_TYPE_UNKNOWN | LIBHOTH_USB_INTERFACE_TYPE_MAILBOX | LIBHOTH_USB_INTERFACE_TYPE_FIFO

record libhoth_usb_interface_info =
  intf_type :: libhoth_usb_interface_type
  interface_id :: u8
  interface_altsetting :: u8

record libhoth_usb_mailbox =
  max_packet_size_in :: u16
  max_packet_size_out :: u16
  ep_in :: u8
  ep_out :: u8

text \<open>The descriptors of libusb, as far as they are read.\<close>

record usb_endpoint_descriptor =
  bEndpointAddress :: u8
  bmAttributes :: u8
  wMaxPacketSize :: u16

record usb_interface_descriptor =
  bInterfaceClass :: u8
  bInterfaceSubClass :: u8
  bInterfaceProtocol :: u8
  endpoint :: "usb_endpoint_descriptor list"

text \<open>A configuration: the alternate settings of each interface.\<close>

type_synonym usb_config = "usb_interface_descriptor list list"

definition LIBUSB_ENDPOINT_DIR_MASK :: u8 where "LIBUSB_ENDPOINT_DIR_MASK = 0x80"
definition LIBUSB_ENDPOINT_IN :: u8 where "LIBUSB_ENDPOINT_IN = 0x80"
definition LIBUSB_ENDPOINT_OUT :: u8 where "LIBUSB_ENDPOINT_OUT = 0"
definition LIBUSB_TRANSFER_TYPE_MASK :: u8 where "LIBUSB_TRANSFER_TYPE_MASK = 3"
definition LIBUSB_TRANSFER_TYPE_BULK :: u8 where "LIBUSB_TRANSFER_TYPE_BULK = 2"

text \<open>
  The scan of the endpoints, which both drivers begin with: the addresses and packet sizes found so
  far, \<open>None\<close> when there are two of one direction.
\<close>

fun scan_endpoints ::
  "usb_endpoint_descriptor list \<Rightarrow> libhoth_usb_mailbox \<Rightarrow> libhoth_usb_mailbox option" where
  "scan_endpoints [] drvdata = Some drvdata"
| "scan_endpoints (e # es) drvdata =
    (let direction = bEndpointAddress e AND LIBUSB_ENDPOINT_DIR_MASK;
         transfer_type = bmAttributes e AND LIBUSB_TRANSFER_TYPE_MASK
     in if direction = LIBUSB_ENDPOINT_IN \<and> transfer_type = LIBUSB_TRANSFER_TYPE_BULK then
          (if ep_in drvdata \<noteq> 0 then None
           else scan_endpoints es
                  (drvdata\<lparr>ep_in := bEndpointAddress e, max_packet_size_in := wMaxPacketSize e\<rparr>))
        else if direction = LIBUSB_ENDPOINT_OUT \<and> transfer_type = LIBUSB_TRANSFER_TYPE_BULK then
          (if ep_out drvdata \<noteq> 0 then None
           else scan_endpoints es
                  (drvdata\<lparr>ep_out := bEndpointAddress e, max_packet_size_out := wMaxPacketSize e\<rparr>))
        else scan_endpoints es drvdata)"

section \<open>Opening\<close>

definition LIBHOTH_USB_MAILBOX_MTU :: nat where "LIBHOTH_USB_MAILBOX_MTU = 64"

datatype mailbox_request_type = MAILBOX_REQ_READ | MAILBOX_REQ_WRITE | MAILBOX_REQ_ERASE

fun mailbox_request_type_val :: "mailbox_request_type \<Rightarrow> u8" where
  "mailbox_request_type_val MAILBOX_REQ_READ = 0x00"
| "mailbox_request_type_val MAILBOX_REQ_WRITE = 0x02"
| "mailbox_request_type_val MAILBOX_REQ_ERASE = 0x04"

definition MAILBOX_SUCCESS :: u8 where "MAILBOX_SUCCESS = 0"

definition mailbox_request :: "mailbox_request_type \<Rightarrow> u32 \<Rightarrow> u8 \<Rightarrow> bytes" where
  "mailbox_request ty offset len = [mailbox_request_type_val ty] @ le_bytes 4 offset @ [len]"

definition sizeof_mailbox_request :: nat where "sizeof_mailbox_request = 6"
definition sizeof_mailbox_response :: nat where "sizeof_mailbox_response = 2"

lemma length_mailbox_request [simp]: "length (mailbox_request ty offset len) = 6"
  by (simp add: mailbox_request_def)

definition mailbox_packets_ok :: "libhoth_usb_mailbox \<Rightarrow> bool" where
  "mailbox_packets_ok d \<longleftrightarrow>
    ep_in d \<noteq> 0 \<and> ep_out d \<noteq> 0 \<and>
    sizeof_mailbox_request + 1 \<le> unat (max_packet_size_out d) \<and> sizeof_mailbox_response + 1 \<le> unat (max_packet_size_in d) \<and>
    unat (max_packet_size_out d) \<le> LIBHOTH_USB_MAILBOX_MTU \<and> unat (max_packet_size_in d) \<le> LIBHOTH_USB_MAILBOX_MTU"

text \<open>
  \<open>drvdata\<close> is the driver data as it is before the call, all zero on a new device; the fields that
  were written stay so when the call fails.
\<close>

fun scanned :: "usb_endpoint_descriptor list \<Rightarrow> libhoth_usb_mailbox \<Rightarrow> libhoth_usb_mailbox" where
  "scanned [] drvdata = drvdata"
| "scanned (e # es) drvdata =
    (case scan_endpoints [e] drvdata of None \<Rightarrow> drvdata | Some d \<Rightarrow> scanned es d)"

definition libhoth_usb_mailbox_open ::
  "libhoth_usb_interface_info \<Rightarrow> usb_config option \<Rightarrow> libhoth_usb_mailbox \<Rightarrow> int \<times> libhoth_usb_mailbox" where
  "libhoth_usb_mailbox_open info descriptor drvdata =
    (case descriptor of None \<Rightarrow> (LIBUSB_ERROR_INVALID_PARAM, drvdata)
     | Some config \<Rightarrow>
       if intf_type info \<noteq> LIBHOTH_USB_INTERFACE_TYPE_MAILBOX then (LIBUSB_ERROR_INVALID_PARAM, drvdata)
       else
         let intf = config ! unat (interface_id info) ! unat (interface_altsetting info)
         in case scan_endpoints (endpoint intf) drvdata of
              None \<Rightarrow> (LIBUSB_ERROR_INVALID_PARAM, scanned (endpoint intf) drvdata)
            | Some d \<Rightarrow> if mailbox_packets_ok d then (0, d) else (LIBUSB_ERROR_INVALID_PARAM, d))"

section \<open>Sending and receiving\<close>

text \<open>
  The synchronous bulk transfers: the status and, for an OUT transfer, the number of bytes that were
  transferred, for an IN transfer the bytes; never more than were asked for.
\<close>

record 's libusb_bulk =
  bulk_out :: "u8 \<Rightarrow> bytes \<Rightarrow> int \<Rightarrow> 's \<Rightarrow> (int \<times> nat) \<times> 's"
  bulk_in :: "u8 \<Rightarrow> nat \<Rightarrow> int \<Rightarrow> 's \<Rightarrow> (int \<times> bytes) \<times> 's"

definition bulk_read :: "('s, 'm) libusb_bulk_scheme \<Rightarrow> u8 \<Rightarrow> nat \<Rightarrow> int \<Rightarrow> 's \<Rightarrow> (int \<times> bytes) \<times> 's" where
  "bulk_read usb ep n timeout s = (let ((status, bs), s') = bulk_in usb ep n timeout s in ((status, take n bs), s'))"

text \<open>
  The length of the next piece: both sides of the test are \<open>size_t\<close>, and the result is stored in
  eight bits. \<open>max_payload_size\<close> is a difference of unsigned numbers, which may wrap.
\<close>

definition piece_length :: "u64 \<Rightarrow> u32 \<Rightarrow> u64 \<Rightarrow> u8" where
  "piece_length request_size offset max_payload_size =
    (if request_size - ucast offset < max_payload_size then ucast (request_size - ucast offset)
     else ucast max_payload_size)"

definition mailbox_write_piece ::
  "('s, 'm) libusb_bulk_scheme \<Rightarrow> libhoth_usb_mailbox \<Rightarrow> u32 \<Rightarrow> bytes \<Rightarrow> 's \<Rightarrow> int \<times> 's" where
  "mailbox_write_piece usb d offset data s =
    (let packet = mailbox_request MAILBOX_REQ_WRITE offset (word_of_nat (length data)) @ data;
         ((status, transferred), s1) = bulk_out usb (ep_out d) packet 0 s
     in if status \<noteq> LIBUSB_SUCCESS then (status, s1)
        else if transferred \<noteq> sizeof_mailbox_request + length data then (LIBUSB_ERROR_IO, s1)
        else
          let ((status, response), s2) = bulk_read usb (ep_in d) sizeof_mailbox_response 0 s1
          in if status \<noteq> LIBUSB_SUCCESS then (status, s2)
             else if length response \<noteq> sizeof_mailbox_response then (LIBUSB_ERROR_IO, s2)
             else if response ! 0 \<noteq> MAILBOX_SUCCESS then (LIBUSB_ERROR_IO, s2)
             else (0, s2))"

text \<open>A piece that does not fit into the 64-byte packet buffer is written past its end.\<close>

partial_function (option) mailbox_send_loop ::
  "('s, 'm) libusb_bulk_scheme \<Rightarrow> libhoth_usb_mailbox \<Rightarrow> u64 \<Rightarrow> bytes \<Rightarrow> u32 \<Rightarrow> 's \<Rightarrow> (int \<times> 's) option" where
  "mailbox_send_loop usb d max_payload_size request offset s =
    (if unat offset < length request then
       (let len = unat (piece_length (word_of_nat (length request)) offset max_payload_size) in
        if LIBHOTH_USB_MAILBOX_MTU < sizeof_mailbox_request + len then None
        else
          (case mailbox_write_piece usb d offset (byte_range (unat offset) len request) s of
             (status, s') \<Rightarrow>
               if status \<noteq> 0 then Some (status, s')
               else mailbox_send_loop usb d max_payload_size request (offset + word_of_nat len) s'))
     else Some (0, s))"

definition libhoth_usb_mailbox_send_request ::
  "('s, 'm) libusb_bulk_scheme \<Rightarrow> libhoth_usb_mailbox \<Rightarrow> bytes \<Rightarrow> 's \<Rightarrow> (int \<times> 's) option" where
  "libhoth_usb_mailbox_send_request usb d request s =
    mailbox_send_loop usb d (ucast (max_packet_size_in d) - word_of_nat sizeof_mailbox_request) request 0 s"

text \<open>
  Reading one piece: the status, the number of bytes that were transferred and the packet buffer,
  which keeps what it held behind them.
\<close>

definition mailbox_read_piece ::
  "('s, 'm) libusb_bulk_scheme \<Rightarrow> libhoth_usb_mailbox \<Rightarrow> int \<Rightarrow> u32 \<Rightarrow> u8 \<Rightarrow> bytes \<Rightarrow> 's \<Rightarrow> (int \<times> nat \<times> bytes) \<times> 's" where
  "mailbox_read_piece usb d timeout_ms offset len packet s =
    (let ((status, transferred), s1) = bulk_out usb (ep_out d) (mailbox_request MAILBOX_REQ_READ offset len) timeout_ms s
     in if status \<noteq> LIBUSB_SUCCESS then ((status, 0, packet), s1)
        else if transferred \<noteq> sizeof_mailbox_request then ((LIBUSB_ERROR_IO, 0, packet), s1)
        else
          let ((status, bs), s2) = bulk_read usb (ep_in d) (sizeof_mailbox_response + unat len) timeout_ms s1;
              packet' = memcpy_at 0 bs packet
          in if status \<noteq> LIBUSB_SUCCESS then ((status, length bs, packet'), s2)
             else if length bs < sizeof_mailbox_response then ((LIBUSB_ERROR_IO, length bs, packet'), s2)
             else if packet' ! 0 \<noteq> MAILBOX_SUCCESS then ((LIBUSB_ERROR_IO, length bs, packet'), s2)
             else ((0, length bs, packet'), s2))"

text \<open>The expected size after a piece at offset 0 that holds a header; \<open>None\<close> for another version.\<close>

definition expected_after :: "u32 \<Rightarrow> u8 \<Rightarrow> bytes \<Rightarrow> u32 \<Rightarrow> u32 option" where
  "expected_after offset len response expected_size =
    (if offset = 0 \<and> sizeof_response \<le> unat len then
       let h = response_of_bytes (take sizeof_response response)
       in if resp_struct_version h \<noteq> 3 then None
          else Some (if sizeof_response + unat (resp_data_len h) < unat expected_size
                     then word_of_nat (sizeof_response + unat (resp_data_len h)) else expected_size)
     else Some expected_size)"

partial_function (option) mailbox_receive_loop ::
  "('s, 'm) libusb_bulk_scheme \<Rightarrow> libhoth_usb_mailbox \<Rightarrow> u64 \<Rightarrow> int \<Rightarrow> u32 \<Rightarrow> u32 \<Rightarrow> bytes \<Rightarrow> bytes \<Rightarrow> 's
    \<Rightarrow> ((int \<times> u32 \<times> bytes) \<times> 's) option" where
  "mailbox_receive_loop usb d max_payload_size timeout_ms offset expected_size packet response s =
    (if offset < expected_size then
       (let len = piece_length (word_of_nat (length response)) offset max_payload_size in
        case mailbox_read_piece usb d timeout_ms offset len packet s of
          ((status, transferred, packet'), s') \<Rightarrow>
            if status \<noteq> 0 then Some ((status, expected_size, response), s')
            else
              (let response' = memcpy_at (unat offset) (byte_range sizeof_mailbox_response (unat len) packet') response
               in case expected_after offset len response' expected_size of
                    None \<Rightarrow> Some ((status_val LIBHOTH_ERR_UNSUPPORTED_VERSION, expected_size, response'), s')
                  | Some expected' \<Rightarrow>
                      if word_of_nat transferred < max_payload_size then Some ((0, expected', response'), s')
                      else mailbox_receive_loop usb d max_payload_size timeout_ms (offset + ucast len) expected'
                             packet' response' s'))
     else Some ((0, expected_size, response), s))"

text \<open>
  \<open>stk\<close> is what the packet buffer and \<open>buf\<close> what the caller's buffer hold before the call. The
  bytes of the result are the \<open>*actual_size\<close> first ones of the caller's buffer.
\<close>

definition libhoth_usb_mailbox_receive_response ::
  "bytes \<Rightarrow> ('s, 'm) libusb_bulk_scheme \<Rightarrow> libhoth_usb_mailbox \<Rightarrow> bytes \<Rightarrow> int \<Rightarrow> 's \<Rightarrow> ((int \<times> bytes) \<times> 's) option" where
  "libhoth_usb_mailbox_receive_response stk usb d buf timeout_ms s =
    (if length buf < sizeof_response then Some ((LIBUSB_ERROR_INVALID_PARAM, []), s)
     else
       map_option (\<lambda>((status, expected, response), s').
           ((status, if status = 0 then take (unat expected) response else []), s'))
         (mailbox_receive_loop usb d (ucast (max_packet_size_in d) - word_of_nat sizeof_mailbox_response)
            timeout_ms 0 (word_of_nat (length buf)) stk buf s))"

definition libhoth_usb_mailbox_close :: "libhoth_usb_mailbox \<Rightarrow> int \<times> libhoth_usb_mailbox" where
  "libhoth_usb_mailbox_close d = (0, \<lparr>max_packet_size_in = 0, max_packet_size_out = 0, ep_in = 0, ep_out = 0\<rparr>)"

section \<open>Bounds\<close>

lemma unat_piece_length:
  assumes "unat offset \<le> n" "n < 2 ^ 32" "unat p \<le> 255"
  shows "unat (piece_length (word_of_nat n) offset p) = min (n - unat offset) (unat p)"
proof -
  have d: "unat (word_of_nat n - ucast offset :: u64) = n - unat offset"
    using assms by (subst unat_sub) (simp_all add: word_le_nat_alt unat_of_nat)
  have u: "unat (ucast x :: u8) = unat x" if "unat x \<le> 255" for x :: u64
    using that by (simp add: unsigned_ucast_eq take_bit_nat_eq_self)
  show ?thesis
    using assms d by (auto simp: piece_length_def word_less_nat_alt u)
qed

lemma bulk_read_length: "bulk_read usb ep n t s = ((status, bs), s') \<Longrightarrow> length bs \<le> n"
  by (auto simp: bulk_read_def split: prod.splits)

lemma mailbox_payload_in:
  assumes "mailbox_packets_ok d"
  shows "unat (ucast (max_packet_size_in d) - word_of_nat sizeof_mailbox_response :: u64) = unat (max_packet_size_in d) - 2"
    "unat (max_packet_size_in d) \<le> 64" "3 \<le> unat (max_packet_size_in d)"
proof -
  have u: "unat (ucast (max_packet_size_in d) :: u64) = unat (max_packet_size_in d)"
    using unat_bound [of "max_packet_size_in d"] by (simp add: unsigned_ucast_eq take_bit_nat_eq_self)
  show "unat (max_packet_size_in d) \<le> 64" "3 \<le> unat (max_packet_size_in d)"
    using assms by (auto simp: mailbox_packets_ok_def sizeof_mailbox_response_def LIBHOTH_USB_MAILBOX_MTU_def)
  then show "unat (ucast (max_packet_size_in d) - word_of_nat sizeof_mailbox_response :: u64) = unat (max_packet_size_in d) - 2"
    by (subst unat_sub) (simp_all add: sizeof_mailbox_response_def word_le_nat_alt u)
qed

text \<open>
  An interface whose IN endpoint has packets of 3 to 5 bytes is accepted, and the size of the
  payload, computed from the wrong endpoint, wraps around: the first packet overruns its buffer.
\<close>

lemma mailbox_send_overflow:
  assumes "unat (max_packet_size_in d) < 6" and "58 < length request" and "length request < 256"
  shows "libhoth_usb_mailbox_send_request usb d request s = None"
proof -
  let ?p = "ucast (max_packet_size_in d) - word_of_nat sizeof_mailbox_request :: u64"
  have u: "unat (ucast (max_packet_size_in d) :: u64) = unat (max_packet_size_in d)"
    using unat_bound [of "max_packet_size_in d"] by (simp add: unsigned_ucast_eq take_bit_nat_eq_self)
  have p: "2 ^ 63 \<le> unat ?p"
    using assms(1) u by (simp add: unat_sub_if' sizeof_mailbox_request_def)
  have n: "unat (word_of_nat (length request) :: u64) = length request" using assms(3) by (simp add: unat_of_nat)
  then have "(word_of_nat (length request) :: u64) < ?p" using p assms(3) by (simp add: word_less_nat_alt)
  then have "unat (piece_length (word_of_nat (length request)) 0 ?p) = length request"
    using assms(3) n by (simp add: piece_length_def unsigned_ucast_eq take_bit_nat_eq_self)
  moreover have "request \<noteq> []" using assms(2) by auto
  ultimately show ?thesis
    using assms(2) unfolding libhoth_usb_mailbox_send_request_def
    by (subst mailbox_send_loop.simps) (simp add: sizeof_mailbox_request_def LIBHOTH_USB_MAILBOX_MTU_def Let_def)
qed

section \<open>A device with a mailbox memory\<close>

text \<open>
  What the firmware does with the packets: a write request stores its data and is acknowledged, a
  read request is answered with what is there.
\<close>

definition usb_mailbox_dev :: "('s, 'm) libusb_bulk_scheme \<Rightarrow> libhoth_usb_mailbox \<Rightarrow> ('s \<Rightarrow> bytes) \<Rightarrow> bool" where
  "usb_mailbox_dev usb d mem \<longleftrightarrow>
    (\<forall>off data s. data \<noteq> [] \<longrightarrow> length data \<le> 58 \<longrightarrow> unat off + length data \<le> length (mem s) \<longrightarrow>
      (\<exists>s1 s2. bulk_out usb (ep_out d) (mailbox_request MAILBOX_REQ_WRITE off (word_of_nat (length data)) @ data) 0 s =
          ((0, 6 + length data), s1) \<and>
        bulk_in usb (ep_in d) 2 0 s1 = ((0, [0, 0]), s2) \<and> mem s2 = memcpy_at (unat off) data (mem s))) \<and>
    (\<forall>off n t s. unat off + unat n \<le> length (mem s) \<longrightarrow>
      (\<exists>s1 s2. bulk_out usb (ep_out d) (mailbox_request MAILBOX_REQ_READ off n) t s = ((0, 6), s1) \<and>
        bulk_in usb (ep_in d) (2 + unat n) t s1 = ((0, [0, 0] @ byte_range (unat off) (unat n) (mem s)), s2) \<and>
        mem s2 = mem s))"

lemma mailbox_write_piece_dev:
  assumes "usb_mailbox_dev usb d mem" and "data \<noteq> []" "length data \<le> 58" "unat off + length data \<le> length (mem s)"
  shows "\<exists>s'. mailbox_write_piece usb d off data s = (0, s') \<and> mem s' = memcpy_at (unat off) data (mem s)"
proof -
  obtain s1 s2 where
    "bulk_out usb (ep_out d) (mailbox_request MAILBOX_REQ_WRITE off (word_of_nat (length data)) @ data) 0 s =
      ((0, 6 + length data), s1)"
    "bulk_in usb (ep_in d) 2 0 s1 = ((0, [0, 0]), s2)" "mem s2 = memcpy_at (unat off) data (mem s)"
    using assms unfolding usb_mailbox_dev_def by blast
  then show ?thesis
    by (simp add: mailbox_write_piece_def bulk_read_def sizeof_mailbox_request_def sizeof_mailbox_response_def
        LIBUSB_SUCCESS_def MAILBOX_SUCCESS_def)
qed

lemma mailbox_send_dev:
  assumes "usb_mailbox_dev usb d mem" and "0 < unat p" "unat p \<le> 58" and "length request < 2 ^ 32"
  shows "unat off \<le> length request \<Longrightarrow> length request \<le> length (mem s) \<Longrightarrow>
    \<exists>s'. mailbox_send_loop usb d p request off s = Some (0, s') \<and>
      mem s' = memcpy_at (unat off) (drop (unat off) request) (mem s)"
proof (induction "length request - unat off" arbitrary: off s rule: less_induct)
  case less
  show ?case
  proof (cases "unat off < length request")
    case False
    then show ?thesis by (subst mailbox_send_loop.simps) (simp add: memcpy_at_def)
  next
    case True
    define k where "k = unat (piece_length (word_of_nat (length request)) off p)"
    have k: "k = min (length request - unat off) (unat p)"
      unfolding k_def using less.prems(1) assms by (intro unat_piece_length) auto
    then have k0: "0 < k" "k \<le> 58" "unat off + k \<le> length request" using True assms(2,3) by auto
    let ?c = "byte_range (unat off) k request"
    have c: "length ?c = k" using k0 by simp
    have ne: "?c \<noteq> []" using c k0(1) by (metis less_irrefl list.size(3))
    have "length ?c \<le> 58" "unat off + length ?c \<le> length (mem s)"
      using c k0 less.prems(2) by auto
    from mailbox_write_piece_dev [OF assms(1) ne this] obtain s1 where
      s1: "mailbox_write_piece usb d off ?c s = (0, s1)" "mem s1 = memcpy_at (unat off) ?c (mem s)"
      by blast
    have o: "unat (off + word_of_nat k) = unat off + k"
      using k0 assms(4) by (simp add: unat_word_ariths unat_of_nat)
    have step: "mailbox_send_loop usb d p request off s = mailbox_send_loop usb d p request (off + word_of_nat k) s1"
      using True k0 s1(1) by (subst mailbox_send_loop.simps)
        (simp add: k_def [symmetric] Let_def LIBHOTH_USB_MAILBOX_MTU_def sizeof_mailbox_request_def)
    have "length request - unat (off + word_of_nat k) < length request - unat off"
      "unat (off + word_of_nat k) \<le> length request" "length request \<le> length (mem s1)"
      using o k0 True less.prems(2) s1(2) c by auto
    from less.hyps [OF this] obtain s2 where
      s2: "mailbox_send_loop usb d p request (off + word_of_nat k) s1 = Some (0, s2)"
        "mem s2 = memcpy_at (unat off + k) (drop (unat off + k) request) (mem s1)"
      unfolding o by blast
    have "drop (unat off) request = ?c @ drop (unat off + k) request"
      by (metis append_take_drop_id byte_range_def drop_drop add.commute)
    then have "mem s2 = memcpy_at (unat off) (drop (unat off) request) (mem s)"
      using memcpy_at_append [of "unat off" ?c "mem s" "drop (unat off + k) request"] s1(2) s2(2) c k0 less.prems(2)
      by simp
    with s2(1) show ?thesis unfolding step by blast
  qed
qed

lemma mailbox_read_piece_dev:
  assumes "usb_mailbox_dev usb d mem" and "unat off + unat n \<le> length (mem s)" and "2 + unat n \<le> length packet"
  shows "\<exists>packet' s'. mailbox_read_piece usb d t off n packet s = ((0, 2 + unat n, packet'), s') \<and>
    length packet' = length packet \<and> byte_range 2 (unat n) packet' = byte_range (unat off) (unat n) (mem s) \<and> mem s' = mem s"
proof -
  obtain s1 s2 where s: "bulk_out usb (ep_out d) (mailbox_request MAILBOX_REQ_READ off n) t s = ((0, 6), s1)"
    "bulk_in usb (ep_in d) (2 + unat n) t s1 = ((0, [0, 0] @ byte_range (unat off) (unat n) (mem s)), s2)" "mem s2 = mem s"
    using assms(1,2) unfolding usb_mailbox_dev_def by blast
  let ?bs = "[0, 0] @ byte_range (unat off) (unat n) (mem s)"
  have l: "length ?bs = 2 + unat n" using assms(2) by simp
  then have "bulk_read usb (ep_in d) (2 + unat n) t s1 = ((0, ?bs), s2)" using s(2) by (simp add: bulk_read_def)
  moreover have "byte_range 2 (unat n) (memcpy_at 0 ?bs packet) = byte_range (unat off) (unat n) (mem s)"
    using assms(2) by (simp add: memcpy_at_def byte_range_def)
  moreover have "memcpy_at 0 ?bs packet ! 0 = 0" by (simp add: memcpy_at_def)
  moreover have "length (memcpy_at 0 ?bs packet) = length packet" using l assms(3) by simp
  ultimately show ?thesis
    using s(1,3) l by (simp add: mailbox_read_piece_def sizeof_mailbox_request_def sizeof_mailbox_response_def
        LIBUSB_SUCCESS_def MAILBOX_SUCCESS_def Let_def)
qed

lemma take_memcpy_at_grow:
  assumes "take off r = take off m" "off + k \<le> length r" "off + k \<le> length m"
  shows "take (off + k) (memcpy_at off (byte_range off k m) r) = take (off + k) m"
  using assms by (simp add: memcpy_at_def byte_range_def take_add min_absorb1)

text \<open>One piece of the response, for any offset.\<close>

lemma mailbox_receive_step:
  assumes "usb_mailbox_dev usb d mem" and "1 \<le> unat p" "unat p \<le> 62" and "length packet = 64"
    and "length response < 2 ^ 32" "length response \<le> length (mem s)" "unat expected \<le> length response"
    and "off < expected" and "take (unat off) response = take (unat off) (mem s)"
  shows "\<exists>k packet' response' s'. k = min (length response - unat off) (unat p) \<and> 0 < k \<and>
    length packet' = 64 \<and> length response' = length response \<and>
    take (unat off + k) response' = take (unat off + k) (mem s) \<and> mem s' = mem s \<and>
    mailbox_receive_loop usb d p t off expected packet response s =
      (case expected_after off (word_of_nat k) response' expected of
         None \<Rightarrow> Some ((status_val LIBHOTH_ERR_UNSUPPORTED_VERSION, expected, response'), s')
       | Some expected' \<Rightarrow>
           if 2 + k < unat p then Some ((0, expected', response'), s')
           else mailbox_receive_loop usb d p t (off + word_of_nat k) expected' packet' response' s')"
proof -
  let ?len = "piece_length (word_of_nat (length response)) off p"
  define k where "k = unat ?len"
  have o: "unat off < unat expected" using assms(8) by (simp add: word_less_nat_alt)
  have k: "k = min (length response - unat off) (unat p)"
    unfolding k_def using o assms by (intro unat_piece_length) auto
  have k0: "0 < k" "k \<le> 62" "unat off + k \<le> length response" using k o assms by auto
  have len: "?len = word_of_nat k" by (simp add: k_def)
  have "unat off + unat ?len \<le> length (mem s)" "2 + unat ?len \<le> length packet"
    using k0 assms(4,6) by (simp_all add: k_def [symmetric])
  from mailbox_read_piece_dev [OF assms(1) this, of t] obtain packet' s' where
    p: "mailbox_read_piece usb d t off ?len packet s = ((0, 2 + k, packet'), s')" "length packet' = 64"
      "byte_range 2 k packet' = byte_range (unat off) k (mem s)" "mem s' = mem s"
    using assms(4) by (auto simp: k_def)
  let ?r = "memcpy_at (unat off) (byte_range (unat off) k (mem s)) response"
  have r: "length ?r = length response" using k0 assms(6) by simp
  have t: "take (unat off + k) ?r = take (unat off + k) (mem s)"
    using k0 assms(6,9) by (intro take_memcpy_at_grow) auto
  have "unat (word_of_nat (2 + k) :: u64) = 2 + k" using k0(2) by (simp only: unat_of_nat) simp
  then have lt: "(word_of_nat (2 + k) :: u64) < p \<longleftrightarrow> 2 + k < unat p"
    by (simp only: word_less_nat_alt)
  have uc: "(ucast (word_of_nat k :: u8) :: u32) = word_of_nat k"
    using k0 by (simp add: word_unat_eq_iff unsigned_ucast_eq unat_of_nat take_bit_nat_eq_self)
  have "mailbox_receive_loop usb d p t off expected packet response s =
      (case expected_after off (word_of_nat k) ?r expected of
         None \<Rightarrow> Some ((status_val LIBHOTH_ERR_UNSUPPORTED_VERSION, expected, ?r), s')
       | Some expected' \<Rightarrow>
           if 2 + k < unat p then Some ((0, expected', ?r), s')
           else mailbox_receive_loop usb d p t (off + word_of_nat k) expected' packet' ?r s')"
    unfolding mailbox_receive_loop.simps [of usb d p t off expected packet response s] if_P [OF assms(8)] Let_def
      p(1) prod.case simp_thms(6) not_True_eq_False if_False k_def [symmetric] sizeof_mailbox_response_def p(3) lt
    unfolding len uc ..
  then show ?thesis using k k0 p r t by blast
qed

lemma mailbox_receive_rest:
  assumes "usb_mailbox_dev usb d mem" and "1 \<le> unat p" "unat p \<le> 62"
  shows "length packet = 64 \<Longrightarrow> length response < 2 ^ 32 \<Longrightarrow> length response \<le> length (mem s) \<Longrightarrow>
    unat expected \<le> length response \<Longrightarrow> 0 < unat off \<Longrightarrow> unat off \<le> length response \<Longrightarrow>
    take (unat off) response = take (unat off) (mem s) \<Longrightarrow>
    \<exists>r s'. mailbox_receive_loop usb d p t off expected packet response s = Some ((0, expected, r), s') \<and>
      take (unat expected) r = take (unat expected) (mem s) \<and> mem s' = mem s"
proof (induction "length response - unat off" arbitrary: off packet response s rule: less_induct)
  case less
  show ?case
  proof (cases "off < expected")
    case False
    then have "unat expected \<le> unat off" by (simp add: word_less_nat_alt)
    then have "take (unat expected) response = take (unat expected) (mem s)"
      using less.prems(7) by (metis min.absorb1 take_take)
    with False show ?thesis by (subst mailbox_receive_loop.simps) simp
  next
    case True
    from mailbox_receive_step [OF assms less.prems(1-4) True less.prems(7), of t]
    obtain k packet' response' s1 where
      k: "k = min (length response - unat off) (unat p)" "0 < k" and
      r: "length packet' = 64" "length response' = length response"
        "take (unat off + k) response' = take (unat off + k) (mem s)" "mem s1 = mem s" and
      run: "mailbox_receive_loop usb d p t off expected packet response s =
      (case expected_after off (word_of_nat k) response' expected of
         None \<Rightarrow> Some ((status_val LIBHOTH_ERR_UNSUPPORTED_VERSION, expected, response'), s1)
       | Some expected' \<Rightarrow>
           if 2 + k < unat p then Some ((0, expected', response'), s1)
           else mailbox_receive_loop usb d p t (off + word_of_nat k) expected' packet' response' s1)"
      by blast
    have "off \<noteq> 0" using less.prems(5) by auto
    then have e: "expected_after off (word_of_nat k) response' expected = Some expected"
      by (simp add: expected_after_def)
    have ok: "unat off + k \<le> length response" using k(1) less.prems(6) by auto
    have o: "unat (off + word_of_nat k) = unat off + k"
      using ok less.prems(2) by (simp add: unat_word_ariths unat_of_nat)
    show ?thesis
    proof (cases "2 + k < unat p")
      case short: True
      then have "unat off + k = length response" using k(1) less.prems(6) by auto
      then have "take (unat expected) response' = take (unat expected) (mem s)"
        using r(3) less.prems(4) by (metis min.absorb1 take_take)
      with short show ?thesis unfolding run e using r(4) by simp
    next
      case False
      have "length response' - unat (off + word_of_nat k) < length response - unat off"
        using o r(2) k(2) ok by linarith
      with less.hyps [of response' "off + word_of_nat k" packet' s1] less.prems r ok o
      show ?thesis unfolding run e using False by simp
    qed
  qed
qed

text \<open>
  C12: on a device with a mailbox memory, over an interface whose IN packets hold at least 10 bytes (a
  status and a header), sending returns with the request stored in the mailbox, and receiving a frame
  with a version 3 header returns with that frame, cut off where the buffer of at least 8 bytes ends.
\<close>

theorem usb_mailbox_exchange:
  assumes "usb_mailbox_dev usb d mem" and "mailbox_packets_ok d" and "10 \<le> unat (max_packet_size_in d)"
    and "length stk = 64" and "8 \<le> length buf" "length buf < 2 ^ 32" "length buf \<le> length (mem s)"
    and "resp_struct_version (response_of_bytes (take 8 (mem s))) = 3"
    and "n = unat (resp_data_len (response_of_bytes (take 8 (mem s))))"
    and "length request < 2 ^ 32" "length request \<le> length (mem s)"
  shows "(\<exists>s'. libhoth_usb_mailbox_send_request usb d request s = Some (0, s') \<and> mem s' = memcpy_at 0 request (mem s)) \<and>
    (\<exists>s'. libhoth_usb_mailbox_receive_response stk usb d buf timeout_ms s =
      Some ((0, take (min (length buf) (8 + n)) (mem s)), s') \<and> mem s' = mem s)"
proof
  have u: "unat (ucast (max_packet_size_in d) :: u64) = unat (max_packet_size_in d)"
    using unat_bound [of "max_packet_size_in d"] by (simp add: unsigned_ucast_eq take_bit_nat_eq_self)
  have "unat (ucast (max_packet_size_in d) - word_of_nat sizeof_mailbox_request :: u64) = unat (max_packet_size_in d) - 6"
    using assms(3) u by (simp add: unat_sub_if' sizeof_mailbox_request_def)
  then show "\<exists>s'. libhoth_usb_mailbox_send_request usb d request s = Some (0, s') \<and> mem s' = memcpy_at 0 request (mem s)"
    using mailbox_send_dev [OF assms(1), of "ucast (max_packet_size_in d) - word_of_nat sizeof_mailbox_request" request 0 s]
      assms(3,10,11) mailbox_payload_in [OF assms(2)]
    by (simp add: libhoth_usb_mailbox_send_request_def)
next
  let ?p = "ucast (max_packet_size_in d) - word_of_nat sizeof_mailbox_response :: u64"
  let ?E = "word_of_nat (length buf) :: u32"
  define e where "e = (word_of_nat (min (length buf) (8 + n)) :: u32)"
  note pin = mailbox_payload_in [OF assms(2)]
  have E: "unat ?E = length buf" using assms(6) by (simp add: unat_of_nat)
  have ue: "unat e = min (length buf) (8 + n)" using assms(6) by (simp add: e_def unat_of_nat)
  have p: "8 \<le> unat ?p" "1 \<le> unat ?p" "unat ?p \<le> 62" using pin assms(3) by auto
  have "0 < ?E" using E assms(5) by (auto simp: word_less_nat_alt)
  from mailbox_receive_step [OF assms(1) p(2,3) assms(4) assms(6,7) _ this, of timeout_ms]
  obtain k packet' response' s1 where
    k: "k = min (length buf) (unat ?p)" and
    r: "length packet' = 64" "length response' = length buf" "take k response' = take k (mem s)" "mem s1 = mem s" and
    run: "mailbox_receive_loop usb d ?p timeout_ms 0 ?E stk buf s =
      (case expected_after 0 (word_of_nat k) response' ?E of
         None \<Rightarrow> Some ((status_val LIBHOTH_ERR_UNSUPPORTED_VERSION, ?E, response'), s1)
       | Some expected' \<Rightarrow>
           if 2 + k < unat ?p then Some ((0, expected', response'), s1)
           else mailbox_receive_loop usb d ?p timeout_ms (0 + word_of_nat k) expected' packet' response' s1)"
    using E by auto
  have k8: "8 \<le> k" "k \<le> 62" using k assms(5) p by auto
  have h: "take 8 response' = take 8 (mem s)" using r(3) k8(1) by (metis min.absorb1 take_take)
  have uk: "unat (word_of_nat k :: u8) = k" "unat (word_of_nat k :: u32) = k" using k8(2) by (simp_all add: unat_of_nat)
  have ea: "expected_after 0 (word_of_nat k) response' ?E = Some e"
  proof -
    have "min (length buf) (8 + n) = (if 8 + n < length buf then 8 + n else length buf)" by (simp add: min_def)
    then show ?thesis
      using assms(8) k8(1) h E uk(1) assms(9) by (simp add: expected_after_def Let_def e_def)
  qed
  have "\<exists>r' s'. mailbox_receive_loop usb d ?p timeout_ms 0 ?E stk buf s = Some ((0, e, r'), s') \<and>
      take (unat e) r' = take (unat e) (mem s) \<and> mem s' = mem s"
  proof (cases "2 + k < unat ?p")
    case True
    then have "k = length buf" using k by auto
    then have "take (unat e) response' = take (unat e) (mem s)"
      using r(3) ue by (metis min.absorb1 min.cobounded1 take_take)
    with True show ?thesis unfolding run ea using r(4) by simp
  next
    case False
    have "unat e \<le> length response'" "0 < unat (0 + word_of_nat k :: u32)" "unat (0 + word_of_nat k :: u32) \<le> length response'"
      "take (unat (0 + word_of_nat k :: u32)) response' = take (unat (0 + word_of_nat k :: u32)) (mem s1)"
      using ue uk r k k8 by auto
    with mailbox_receive_rest [OF assms(1) p(2,3) r(1), of response' s1 e "0 + word_of_nat k" timeout_ms] r assms(6,7)
    show ?thesis unfolding run ea using False by simp
  qed
  then show "\<exists>s'. libhoth_usb_mailbox_receive_response stk usb d buf timeout_ms s =
      Some ((0, take (min (length buf) (8 + n)) (mem s)), s') \<and> mem s' = mem s"
    using assms(5) ue by (auto simp: libhoth_usb_mailbox_receive_response_def)
qed

text \<open>A device: its memory and what the next IN transfer will return.\<close>

definition usb_mailbox_demo :: "(bytes \<times> bytes) libusb_bulk" where
  "usb_mailbox_demo =
    \<lparr>bulk_out = (\<lambda>_ packet _ (m, r).
       let off = unat (u32_at 1 packet); n = unat (packet ! 5)
       in if packet ! 0 = 2
          then ((0, length packet), (memcpy_at off (drop 6 packet) m, [0, 0]))
          else ((0, length packet), (m, [0, 0] @ byte_range off n m))),
     bulk_in = (\<lambda>_ n _ (m, r). ((0, r), (m, [])))\<rparr>"

lemma usb_mailbox_demo_dev: "usb_mailbox_dev usb_mailbox_demo d fst"
  unfolding usb_mailbox_dev_def
  by (auto simp: usb_mailbox_demo_def mailbox_request_def Let_def u32_at_def byte_range_def nth_append)

theorem usb_mailbox_exchange_witness:
  "\<exists>s'. libhoth_usb_mailbox_receive_response (replicate 64 0xAA) usb_mailbox_demo
      \<lparr>max_packet_size_in = 64, max_packet_size_out = 64, ep_in = 0x81, ep_out = 1\<rparr> (replicate 100 0xBB) 1000
      ([3, 0, 0, 0, 4, 0, 0, 0, 1, 2, 3, 4] @ replicate 200 0, []) =
    Some ((0, [3, 0, 0, 0, 4, 0, 0, 0, 1, 2, 3, 4]), s')"
proof -
  let ?d = "\<lparr>max_packet_size_in = 64, max_packet_size_out = 64, ep_in = 0x81, ep_out = 1\<rparr>"
  let ?m = "[3, 0, 0, 0, 4, 0, 0, 0, 1, 2, 3, 4] @ replicate 200 0 :: bytes"
  have ok: "mailbox_packets_ok ?d"
    by (simp add: mailbox_packets_ok_def sizeof_mailbox_request_def sizeof_mailbox_response_def LIBHOTH_USB_MAILBOX_MTU_def)
  have v: "resp_struct_version (response_of_bytes (take 8 (fst (?m, [] :: bytes)))) = 3"
    and n: "4 = unat (resp_data_len (response_of_bytes (take 8 (fst (?m, [] :: bytes)))))"
    by (simp_all add: response_of_bytes_def field_defs le_word_def)
  have "\<exists>s'. libhoth_usb_mailbox_receive_response (replicate 64 0xAA) usb_mailbox_demo ?d (replicate 100 0xBB) 1000 (?m, []) =
      Some ((0, take (min (length (replicate 100 0xBB :: bytes)) (8 + 4)) (fst (?m, [] :: bytes))), s') \<and>
      fst s' = fst (?m, [] :: bytes)"
    by (rule usb_mailbox_exchange [OF usb_mailbox_demo_dev ok _ _ _ _ _ v n, where request = "[]", THEN conjunct2]) simp_all
  then show ?thesis by auto
qed

text \<open>
  C38: an interface that the driver opens may make it write outside its packet buffer: with an IN
  endpoint of 3 to 5 bytes, the payload size, which is computed from that endpoint instead of the
  OUT endpoint, wraps around, and any request of 59 to 255 bytes overruns the buffer.
\<close>

theorem usb_mailbox_send_overruns:
  assumes "59 \<le> length request" and "length request \<le> 255"
  shows "\<exists>config d. libhoth_usb_mailbox_open
      \<lparr>intf_type = LIBHOTH_USB_INTERFACE_TYPE_MAILBOX, interface_id = 0, interface_altsetting = 0\<rparr> (Some config)
      \<lparr>max_packet_size_in = 0, max_packet_size_out = 0, ep_in = 0, ep_out = 0\<rparr> = (0, d) \<and>
    libhoth_usb_mailbox_send_request usb d request s = None"
proof -
  let ?c = "[[\<lparr>bInterfaceClass = 0xFF, bInterfaceSubClass = 0x71, bInterfaceProtocol = 1,
      endpoint = [\<lparr>bEndpointAddress = 0x81, bmAttributes = 2, wMaxPacketSize = 4\<rparr>,
        \<lparr>bEndpointAddress = 1, bmAttributes = 2, wMaxPacketSize = 64\<rparr>]\<rparr>]] :: usb_config"
  let ?d = "\<lparr>max_packet_size_in = 4, max_packet_size_out = 64, ep_in = 0x81, ep_out = 1\<rparr>"
  have "libhoth_usb_mailbox_open
      \<lparr>intf_type = LIBHOTH_USB_INTERFACE_TYPE_MAILBOX, interface_id = 0, interface_altsetting = 0\<rparr> (Some ?c)
      \<lparr>max_packet_size_in = 0, max_packet_size_out = 0, ep_in = 0, ep_out = 0\<rparr> = (0, ?d)"
    by (simp add: libhoth_usb_mailbox_open_def mailbox_packets_ok_def sizeof_mailbox_request_def
        sizeof_mailbox_response_def LIBHOTH_USB_MAILBOX_MTU_def LIBUSB_ENDPOINT_DIR_MASK_def LIBUSB_ENDPOINT_IN_def
        LIBUSB_ENDPOINT_OUT_def LIBUSB_TRANSFER_TYPE_MASK_def LIBUSB_TRANSFER_TYPE_BULK_def)
  moreover have "libhoth_usb_mailbox_send_request usb ?d request s = None"
    using assms by (intro mailbox_send_overflow) auto
  ultimately show ?thesis by blast
qed

theorem usb_mailbox_send_overruns_witness:
  "\<exists>d. libhoth_usb_mailbox_send_request usb_mailbox_demo d (replicate 64 0) ([], []) = None"
  using usb_mailbox_send_overruns [of "replicate 64 0" usb_mailbox_demo "([], [])"] by auto

end
