(* ===== verification/Usb_Fifo.thy ===== *)
theory Usb_Fifo
  imports Usb_Mailbox
begin

text \<open>
  \<open>transports/libhoth_usb_fifo.c\<close>: the FIFO driver of the USB transport, which tags each request with
  a pseudorandom id and looks for the response that carries it. The asynchronous transfers of
  libusb are a parameter: submitting, cancelling, and handling events, which reports at most one
  completed transfer per call. A wait that never ends is \<open>None\<close>.
\<close>

section \<open>Transfers and driver data\<close>

definition LIBHOTH_USB_FIFO_REQUEST_ID_SIZE :: nat where "LIBHOTH_USB_FIFO_REQUEST_ID_SIZE = 16"
definition LIBHOTH_USB_FIFO_MAX_REQUEST_SIZE :: nat where "LIBHOTH_USB_FIFO_MAX_REQUEST_SIZE = 1024"
definition LIBHOTH_USB_FIFO_MTU :: nat where
  "LIBHOTH_USB_FIFO_MTU = LIBHOTH_USB_FIFO_REQUEST_ID_SIZE + LIBHOTH_USB_FIFO_MAX_REQUEST_SIZE"

lemmas fifo_sizes = LIBHOTH_USB_FIFO_REQUEST_ID_SIZE_def LIBHOTH_USB_FIFO_MAX_REQUEST_SIZE_def LIBHOTH_USB_FIFO_MTU_def

definition LIBUSB_TRANSFER_COMPLETED :: int where "LIBUSB_TRANSFER_COMPLETED = 0"
definition LIBUSB_TRANSFER_ERROR :: int where "LIBUSB_TRANSFER_ERROR = 1"
definition LIBUSB_TRANSFER_TIMED_OUT :: int where "LIBUSB_TRANSFER_TIMED_OUT = 2"
definition LIBUSB_TRANSFER_CANCELLED :: int where "LIBUSB_TRANSFER_CANCELLED = 3"
definition LIBUSB_TRANSFER_STALL :: int where "LIBUSB_TRANSFER_STALL = 4"
definition LIBUSB_TRANSFER_NO_DEVICE :: int where "LIBUSB_TRANSFER_NO_DEVICE = 5"
definition LIBUSB_TRANSFER_OVERFLOW :: int where "LIBUSB_TRANSFER_OVERFLOW = 6"

lemmas transfer_statuses = LIBUSB_TRANSFER_COMPLETED_def LIBUSB_TRANSFER_ERROR_def LIBUSB_TRANSFER_TIMED_OUT_def
  LIBUSB_TRANSFER_CANCELLED_def LIBUSB_TRANSFER_STALL_def LIBUSB_TRANSFER_NO_DEVICE_def LIBUSB_TRANSFER_OVERFLOW_def

definition transfer_status_to_error :: "int \<Rightarrow> int" where
  "transfer_status_to_error transfer_status =
    (if transfer_status = LIBUSB_TRANSFER_COMPLETED then LIBUSB_SUCCESS
     else if transfer_status = LIBUSB_TRANSFER_ERROR \<or> transfer_status = LIBUSB_TRANSFER_CANCELLED then LIBUSB_ERROR_IO
     else if transfer_status = LIBUSB_TRANSFER_TIMED_OUT then LIBUSB_ERROR_TIMEOUT
     else if transfer_status = LIBUSB_TRANSFER_STALL then LIBUSB_ERROR_PIPE
     else if transfer_status = LIBUSB_TRANSFER_NO_DEVICE then LIBUSB_ERROR_NO_DEVICE
     else if transfer_status = LIBUSB_TRANSFER_OVERFLOW then LIBUSB_ERROR_OVERFLOW
     else LIBUSB_ERROR_OTHER)"

record usb_transfer =
  tr_endpoint :: u8
  tr_length :: nat
  tr_timeout :: int
  tr_status :: int
  actual_length :: nat
  add_zero_packet :: bool

record libhoth_usb_fifo =
  in_transfer :: usb_transfer
  out_transfer :: usb_transfer
  in_buffer :: bytes
  out_buffer :: bytes
  fifo_endpoints :: libhoth_usb_mailbox
  all_transfers_completed :: bool
  in_transfer_completed :: bool
  out_transfer_completed :: bool
  prng_state :: u32

datatype direction = IN | OUT

text \<open>A completed transfer: its status, the number of bytes and, for an IN transfer, the bytes.\<close>

record completion =
  c_direction :: direction
  c_status :: int
  c_actual :: nat
  c_data :: bytes

text \<open>
  \<open>submit_in\<close> is given the size of the buffer and the timeout, \<open>submit_out\<close> the bytes to send.
\<close>

record 's libusb_async =
  submit_in :: "u8 \<Rightarrow> nat \<Rightarrow> int \<Rightarrow> 's \<Rightarrow> int \<times> 's"
  submit_out :: "u8 \<Rightarrow> bytes \<Rightarrow> int \<Rightarrow> 's \<Rightarrow> int \<times> 's"
  cancel :: "direction \<Rightarrow> 's \<Rightarrow> 's"
  handle_events :: "'s \<Rightarrow> (int \<times> completion option) \<times> 's"
  clear_halt :: "u8 \<Rightarrow> 's \<Rightarrow> int \<times> 's"
  alloc :: "'s \<Rightarrow> bool \<times> 's"

section \<open>Completion of transfers\<close>

definition fifo_transfer_callback ::
  "('s, 'm) libusb_async_scheme \<Rightarrow> direction \<Rightarrow> libhoth_usb_fifo \<Rightarrow> 's \<Rightarrow> libhoth_usb_fifo \<times> 's" where
  "fifo_transfer_callback usb dir d s =
    (let (d1, s1) =
       (case dir of
          IN \<Rightarrow>
            let d = d\<lparr>in_transfer_completed := True\<rparr>
            in if tr_status (in_transfer d) \<noteq> LIBUSB_TRANSFER_COMPLETED \<and>
                  tr_status (in_transfer d) \<noteq> LIBUSB_TRANSFER_CANCELLED \<and> \<not> out_transfer_completed d
               then (d, cancel usb OUT s) else (d, s)
        | OUT \<Rightarrow>
            let d = d\<lparr>out_transfer_completed := True\<rparr>
            in if tr_status (out_transfer d) \<noteq> LIBUSB_TRANSFER_COMPLETED \<and>
                  tr_status (out_transfer d) \<noteq> LIBUSB_TRANSFER_CANCELLED \<and> \<not> in_transfer_completed d
               then (d, cancel usb IN s) else (d, s))
     in if in_transfer_completed d1 \<and> out_transfer_completed d1
        then (d1\<lparr>all_transfers_completed := True\<rparr>, s1) else (d1, s1))"

text \<open>libusb stores the outcome in the transfer and its buffer, and then calls back.\<close>

definition complete_transfer ::
  "('s, 'm) libusb_async_scheme \<Rightarrow> completion \<Rightarrow> libhoth_usb_fifo \<Rightarrow> 's \<Rightarrow> libhoth_usb_fifo \<times> 's" where
  "complete_transfer usb c d s =
    (let d' =
       (case c_direction c of
          IN \<Rightarrow> d\<lparr>in_transfer := (in_transfer d)\<lparr>tr_status := c_status c, actual_length := c_actual c\<rparr>,
                  in_buffer := memcpy_at 0 (take (length (in_buffer d)) (c_data c)) (in_buffer d)\<rparr>
        | OUT \<Rightarrow> d\<lparr>out_transfer := (out_transfer d)\<lparr>tr_status := c_status c, actual_length := c_actual c\<rparr>\<rparr>)
     in fifo_transfer_callback usb (c_direction c) d' s)"

definition events_step ::
  "('s, 'm) libusb_async_scheme \<Rightarrow> libhoth_usb_fifo \<Rightarrow> 's \<Rightarrow> int \<times> libhoth_usb_fifo \<times> 's" where
  "events_step usb d s =
    (let ((status, c), s1) = handle_events usb s
     in case c of None \<Rightarrow> (status, d, s1) | Some c \<Rightarrow> (status, complete_transfer usb c d s1))"

partial_function (option) events_loop ::
  "('s, 'm) libusb_async_scheme \<Rightarrow> libhoth_usb_fifo \<Rightarrow> 's \<Rightarrow> (int \<times> libhoth_usb_fifo \<times> 's) option" where
  "events_loop usb d s =
    (if \<not> all_transfers_completed d then
       (case events_step usb d s of
          (status, d', s') \<Rightarrow>
            if status \<noteq> LIBUSB_SUCCESS \<and> status \<noteq> LIBUSB_ERROR_INTERRUPTED then Some (status, d', s')
            else events_loop usb d' s')
     else Some (LIBUSB_SUCCESS, d, s))"

partial_function (option) drain_loop ::
  "('s, 'm) libusb_async_scheme \<Rightarrow> libhoth_usb_fifo \<Rightarrow> 's \<Rightarrow> (libhoth_usb_fifo \<times> 's) option" where
  "drain_loop usb d s =
    (if \<not> all_transfers_completed d then
       (case events_step usb d s of (status, d', s') \<Rightarrow> drain_loop usb d' s')
     else Some (d, s))"

text \<open>The part behind the label \<open>out\<close>: cancel what is pending and wait for it.\<close>

definition finish_transfers ::
  "('s, 'm) libusb_async_scheme \<Rightarrow> int \<Rightarrow> libhoth_usb_fifo \<Rightarrow> 's \<Rightarrow> (int \<times> libhoth_usb_fifo \<times> 's) option" where
  "finish_transfers usb status d s =
    (let s1 = (if \<not> in_transfer_completed d then cancel usb IN s else s);
         s2 = (if \<not> out_transfer_completed d then cancel usb OUT s1 else s1)
     in map_option (Pair status) (drain_loop usb d s2))"

definition libhoth_usb_fifo_run_transfers ::
  "('s, 'm) libusb_async_scheme \<Rightarrow> bool \<Rightarrow> bool \<Rightarrow> libhoth_usb_fifo \<Rightarrow> 's \<Rightarrow> (int \<times> libhoth_usb_fifo \<times> 's) option" where
  "libhoth_usb_fifo_run_transfers usb run_out run_in d s =
    (let d0 = d\<lparr>all_transfers_completed := True, out_transfer_completed := True, in_transfer_completed := True\<rparr>;
         (status, s1) =
           (if run_in then submit_in usb (tr_endpoint (in_transfer d0)) (tr_length (in_transfer d0)) (tr_timeout (in_transfer d0)) s
            else (LIBUSB_SUCCESS, s))
     in if status \<noteq> LIBUSB_SUCCESS then finish_transfers usb status d0 s1
        else
          let d1 = (if run_in then d0\<lparr>all_transfers_completed := False, in_transfer_completed := False\<rparr> else d0);
              (status, s2) =
                (if run_out then submit_out usb (tr_endpoint (out_transfer d1))
                    (take (tr_length (out_transfer d1)) (out_buffer d1)) (tr_timeout (out_transfer d1)) s1
                 else (LIBUSB_SUCCESS, s1))
          in if status \<noteq> LIBUSB_SUCCESS then finish_transfers usb status d1 s2
             else
               let d2 = (if run_out then d1\<lparr>all_transfers_completed := False, out_transfer_completed := False\<rparr> else d1)
               in case events_loop usb d2 s2 of
                    None \<Rightarrow> None
                  | Some (status, d3, s3) \<Rightarrow>
                      if status \<noteq> LIBUSB_SUCCESS then finish_transfers usb status d3 s3
                      else finish_transfers usb 0
                             (d3\<lparr>in_transfer_completed := True, out_transfer_completed := True\<rparr>) s3)"

section \<open>Request ids\<close>

definition libhoth_generate_pseudorandom_u32 :: "u32 \<Rightarrow> u32" where
  "libhoth_generate_pseudorandom_u32 seed =
    (let s1 = seed XOR push_bit 13 seed;
         s2 = s1 XOR drop_bit 17 s1
     in s2 XOR push_bit 5 s2)"

fun request_id :: "nat \<Rightarrow> u32 \<Rightarrow> bytes \<times> u32" where
  "request_id 0 state = ([], state)"
| "request_id (Suc n) state =
    (let state' = libhoth_generate_pseudorandom_u32 state; (ids, final) = request_id n state'
     in (ucast state' # ids, final))"

section \<open>The driver\<close>

text \<open>\<open>in_junk\<close> and \<open>out_junk\<close> are the contents of the allocated buffers.\<close>

definition libhoth_usb_fifo_open ::
  "('s, 'm) libusb_async_scheme \<Rightarrow> bytes \<Rightarrow> bytes \<Rightarrow> libhoth_usb_interface_info \<Rightarrow> usb_config option \<Rightarrow> u32
    \<Rightarrow> libhoth_usb_fifo \<Rightarrow> 's \<Rightarrow> (int \<times> libhoth_usb_fifo) \<times> 's" where
  "libhoth_usb_fifo_open usb in_junk out_junk info descriptor prng_seed d s =
    (case descriptor of None \<Rightarrow> ((LIBUSB_ERROR_INVALID_PARAM, d), s)
     | Some config \<Rightarrow>
       if intf_type info \<noteq> LIBHOTH_USB_INTERFACE_TYPE_FIFO \<or> prng_seed = 0 then ((LIBUSB_ERROR_INVALID_PARAM, d), s)
       else
         let intf = config ! unat (interface_id info) ! unat (interface_altsetting info)
         in case scan_endpoints (endpoint intf) (fifo_endpoints d) of
              None \<Rightarrow> ((LIBUSB_ERROR_INVALID_PARAM, d\<lparr>fifo_endpoints := scanned (endpoint intf) (fifo_endpoints d)\<rparr>), s)
            | Some eps \<Rightarrow>
                let d1 = d\<lparr>fifo_endpoints := eps\<rparr>
                in if ep_in eps = 0 \<or> ep_out eps = 0 then ((LIBUSB_ERROR_INVALID_PARAM, d1), s)
                   else
                     let (ok_in, s1) = alloc usb s; (ok_out, s2) = alloc usb s1
                     in if \<not> ok_in \<or> \<not> ok_out then ((status_val LIBHOTH_ERR_MALLOC_FAILED, d1), s2)
                        else
                          let d2 = d1\<lparr>in_transfer := (in_transfer d1)\<lparr>tr_length := 0\<rparr>,
                                      out_transfer := (out_transfer d1)\<lparr>tr_length := 0\<rparr>\<rparr>;
                              (ok_in, s3) = alloc usb s2; (ok_out, s4) = alloc usb s3
                          in if \<not> ok_in \<or> \<not> ok_out then ((status_val LIBHOTH_ERR_MALLOC_FAILED, d2), s4)
                             else
                               ((0, d2\<lparr>in_buffer := take LIBHOTH_USB_FIFO_MTU in_junk,
                                      out_buffer := take LIBHOTH_USB_FIFO_MTU out_junk, prng_state := prng_seed,
                                      in_transfer_completed := True, out_transfer_completed := True,
                                      all_transfers_completed := True\<rparr>), s4))"

definition libhoth_usb_fifo_send_request :: "bytes \<Rightarrow> libhoth_usb_fifo \<Rightarrow> int \<times> libhoth_usb_fifo" where
  "libhoth_usb_fifo_send_request request d =
    (if LIBHOTH_USB_FIFO_MAX_REQUEST_SIZE < length request then (LIBUSB_ERROR_INVALID_PARAM, d)
     else
       let (ids, state') = request_id LIBHOTH_USB_FIFO_REQUEST_ID_SIZE (prng_state d)
       in (0, d\<lparr>prng_state := state',
                out_buffer := memcpy_at LIBHOTH_USB_FIFO_REQUEST_ID_SIZE request (memcpy_at 0 ids (out_buffer d)),
                out_transfer := (out_transfer d)\<lparr>tr_endpoint := ep_out (fifo_endpoints d),
                  tr_length := LIBHOTH_USB_FIFO_REQUEST_ID_SIZE + length request, tr_timeout := 0,
                  add_zero_packet := True\<rparr>\<rparr>))"

text \<open>
  The loop over the IN transfers: \<open>n\<close> is the number of further transfers that may be made. The first
  component is the status of the function, the flag says whether it leaves through the label
  \<open>transfer_done\<close> with the bytes it copied.
\<close>

fun fifo_match_loop ::
  "('s, 'm) libusb_async_scheme \<Rightarrow> nat \<Rightarrow> nat \<Rightarrow> libhoth_usb_fifo \<Rightarrow> 's \<Rightarrow> ((int \<times> bytes) \<times> libhoth_usb_fifo \<times> 's) option" where
  "fifo_match_loop usb max_in_transfer_size n d s =
    (if tr_status (in_transfer d) \<noteq> LIBUSB_TRANSFER_COMPLETED
     then Some ((transfer_status_to_error (tr_status (in_transfer d)), []), d, s)
     else if max_in_transfer_size < actual_length (in_transfer d)
     then Some ((status_val LIBHOTH_ERR_IN_OVERFLOW, []), d, s)
     else if actual_length (in_transfer d) < LIBHOTH_USB_FIFO_REQUEST_ID_SIZE then Some ((LIBUSB_ERROR_IO, []), d, s)
     else if take LIBHOTH_USB_FIFO_REQUEST_ID_SIZE (out_buffer d) = take LIBHOTH_USB_FIFO_REQUEST_ID_SIZE (in_buffer d)
     then Some ((0, byte_range LIBHOTH_USB_FIFO_REQUEST_ID_SIZE
                      (actual_length (in_transfer d) - LIBHOTH_USB_FIFO_REQUEST_ID_SIZE) (in_buffer d)), d, s)
     else
       (case n of 0 \<Rightarrow> Some ((LIBUSB_ERROR_IO, []), d, s)
        | Suc n' \<Rightarrow>
            (case libhoth_usb_fifo_run_transfers usb False True d s of
               None \<Rightarrow> None
             | Some (status, d', s') \<Rightarrow>
                 if status \<noteq> 0 then Some ((status, []), d', s')
                 else fifo_match_loop usb max_in_transfer_size n' d' s')))"

declare fifo_match_loop.simps [simp del]

definition transfer_done :: "libhoth_usb_fifo \<Rightarrow> libhoth_usb_fifo" where
  "transfer_done d = d\<lparr>out_transfer := (out_transfer d)\<lparr>tr_length := 0\<rparr>\<rparr>"

text \<open>Both transfers, again if an endpoint was stalled.\<close>

definition fifo_run_both ::
  "('s, 'm) libusb_async_scheme \<Rightarrow> libhoth_usb_fifo \<Rightarrow> 's \<Rightarrow> (int \<times> libhoth_usb_fifo \<times> 's) option" where
  "fifo_run_both usb d s =
    (case libhoth_usb_fifo_run_transfers usb True True d s of
       None \<Rightarrow> None
     | Some (status, d1, s1) \<Rightarrow>
         if status \<noteq> 0 then Some (status, d1, s1)
         else if tr_status (in_transfer d1) = LIBUSB_TRANSFER_STALL \<or> tr_status (out_transfer d1) = LIBUSB_TRANSFER_STALL then
           (let (status, s2) = clear_halt usb (ep_in (fifo_endpoints d1)) s1
            in if status \<noteq> LIBUSB_SUCCESS then Some (status, d1, s2)
               else
                 let (status, s3) = clear_halt usb (ep_out (fifo_endpoints d1)) s2
                 in if status \<noteq> LIBUSB_SUCCESS then Some (status, d1, s3)
                    else libhoth_usb_fifo_run_transfers usb True True d1 s3)
         else Some (0, d1, s1))"

definition libhoth_usb_fifo_receive_response ::
  "('s, 'm) libusb_async_scheme \<Rightarrow> nat \<Rightarrow> int \<Rightarrow> libhoth_usb_fifo \<Rightarrow> 's \<Rightarrow> ((int \<times> bytes) \<times> libhoth_usb_fifo \<times> 's) option" where
  "libhoth_usb_fifo_receive_response usb max_response_size timeout_ms d s =
    (if LIBHOTH_USB_FIFO_MAX_REQUEST_SIZE < max_response_size then Some ((LIBUSB_ERROR_INVALID_PARAM, []), d, s)
     else if tr_length (out_transfer d) = 0 then Some ((LIBUSB_ERROR_IO, []), d, s)
     else
       let d0 = d\<lparr>in_transfer := (in_transfer d)\<lparr>tr_endpoint := ep_in (fifo_endpoints d), tr_length := LIBHOTH_USB_FIFO_MTU,
                    tr_timeout := timeout_ms\<rparr>,
                  out_transfer := (out_transfer d)\<lparr>tr_timeout := timeout_ms\<rparr>\<rparr>
       in case fifo_run_both usb d0 s of
            None \<Rightarrow> None
          | Some (status, d1, s1) \<Rightarrow>
              if status \<noteq> 0 then Some ((status, []), transfer_done d1, s1)
              else if tr_status (out_transfer d1) \<noteq> LIBUSB_TRANSFER_COMPLETED
              then Some ((transfer_status_to_error (tr_status (out_transfer d1)), []), transfer_done d1, s1)
              else if actual_length (out_transfer d1) \<noteq> tr_length (out_transfer d1)
              then Some ((status_val LIBHOTH_ERR_OUT_UNDERFLOW, []), d1, s1)
              else
                map_option (\<lambda>(r, d2, s2). (r, transfer_done d2, s2))
                  (fifo_match_loop usb (LIBHOTH_USB_FIFO_REQUEST_ID_SIZE + max_response_size) 10 d1 s1))"

definition no_transfer :: usb_transfer where
  "no_transfer = \<lparr>tr_endpoint = 0, tr_length = 0, tr_timeout = 0, tr_status = 0, actual_length = 0, add_zero_packet = False\<rparr>"

text \<open>The driver data all zero, as on a new device and after closing.\<close>

definition zero_fifo :: libhoth_usb_fifo where
  "zero_fifo = \<lparr>in_transfer = no_transfer, out_transfer = no_transfer, in_buffer = [], out_buffer = [],
     fifo_endpoints = \<lparr>max_packet_size_in = 0, max_packet_size_out = 0, ep_in = 0, ep_out = 0\<rparr>,
     all_transfers_completed = False, in_transfer_completed = False, out_transfer_completed = False, prng_state = 0\<rparr>"

definition libhoth_usb_fifo_close :: "libhoth_usb_fifo \<Rightarrow> int \<times> libhoth_usb_fifo" where
  "libhoth_usb_fifo_close d = (0, zero_fifo)"

section \<open>The pseudorandom sequence\<close>

lemma push_bit_fixpoint:
  assumes "0 < k" and "z = push_bit k (z :: u32)"
  shows "z = 0"
proof -
  have "z = push_bit (k * n) z" for n
  proof (induction n)
    case (Suc n)
    have "push_bit (k * Suc n) z = push_bit (k * n) (push_bit k z)" by (simp add: push_bit_push_bit add.commute)
    then show ?case using assms(2) Suc.IH by metis
  qed simp
  moreover have "push_bit (k * 32) z = 0" using assms(1) by (intro bit_word_eqI) (auto simp: bit_simps)
  ultimately show ?thesis by metis
qed

lemma drop_bit_fixpoint:
  assumes "0 < k" and "z = drop_bit k (z :: u32)"
  shows "z = 0"
proof (rule ccontr)
  assume "z \<noteq> 0"
  then have "0 < unat z" by (simp add: unat_gt_0)
  moreover have "(1 :: nat) < 2 ^ k" using assms(1) by (intro one_less_power) simp_all
  ultimately have "unat z div 2 ^ k < unat z" by (intro div_less_dividend)
  then show False using assms(2) by (metis less_irrefl unat_drop_bit_div)
qed

lemma inj_xor_push_bit: "0 < k \<Longrightarrow> inj (\<lambda>x :: u32. x XOR push_bit k x)"
proof (rule injI)
  fix x y :: u32 assume k: "0 < k" and eq: "x XOR push_bit k x = y XOR push_bit k y"
  have "x XOR y = push_bit k (x XOR y)"
    using eq by (metis (no_types) push_bit_xor xor.assoc xor.commute xor_self_eq xor.right_neutral xor.left_commute)
  then have "x XOR y = 0" using push_bit_fixpoint k by blast
  then show "x = y" by (metis xor.assoc xor.left_neutral xor_self_eq xor.right_neutral)
qed

lemma inj_xor_drop_bit: "0 < k \<Longrightarrow> inj (\<lambda>x :: u32. x XOR drop_bit k x)"
proof (rule injI)
  fix x y :: u32 assume k: "0 < k" and eq: "x XOR drop_bit k x = y XOR drop_bit k y"
  have "x XOR y = drop_bit k (x XOR y)"
    using eq by (metis (no_types) drop_bit_xor xor.assoc xor.commute xor_self_eq xor.right_neutral xor.left_commute)
  then have "x XOR y = 0" using drop_bit_fixpoint k by blast
  then show "x = y" by (metis xor.assoc xor.left_neutral xor_self_eq xor.right_neutral)
qed

lemma inj_pseudorandom: "inj libhoth_generate_pseudorandom_u32"
proof -
  have "libhoth_generate_pseudorandom_u32 =
      (\<lambda>x. x XOR push_bit 5 x) \<circ> (\<lambda>x. x XOR drop_bit 17 x) \<circ> (\<lambda>x. x XOR push_bit 13 x)"
    by (rule ext) (simp add: libhoth_generate_pseudorandom_u32_def Let_def)
  moreover have "inj ((\<lambda>x :: u32. x XOR push_bit 5 x) \<circ> (\<lambda>x. x XOR drop_bit 17 x) \<circ> (\<lambda>x. x XOR push_bit 13 x))"
    by (intro inj_compose inj_xor_push_bit inj_xor_drop_bit) simp_all
  ultimately show ?thesis by simp
qed

text \<open>A seed that is not zero, which opening demands, never becomes zero.\<close>

lemma pseudorandom_neq_0: "seed \<noteq> 0 \<Longrightarrow> libhoth_generate_pseudorandom_u32 seed \<noteq> 0"
proof
  assume s: "seed \<noteq> 0" and z: "libhoth_generate_pseudorandom_u32 seed = 0"
  have "libhoth_generate_pseudorandom_u32 0 = 0" by (simp add: libhoth_generate_pseudorandom_u32_def)
  with z s inj_pseudorandom show False by (metis injD)
qed

lemma request_id_state: "seed \<noteq> 0 \<Longrightarrow> snd (request_id n seed) \<noteq> 0"
  by (induction n arbitrary: seed) (simp_all add: Let_def case_prod_unfold pseudorandom_neq_0)

lemma length_request_id [simp]: "length (fst (request_id n seed)) = n"
  by (induction n arbitrary: seed) (simp_all add: Let_def case_prod_unfold)

section \<open>What the transfers leave alone\<close>

text \<open>The request: its buffer and length, and the rest of the driver data that no transfer changes.\<close>

definition request_part :: "libhoth_usb_fifo \<Rightarrow> bytes \<times> nat \<times> libhoth_usb_mailbox \<times> u32 \<times> nat" where
  "request_part d = (out_buffer d, tr_length (out_transfer d), fifo_endpoints d, prng_state d, length (in_buffer d))"

lemma callback_request_part: "request_part (fst (fifo_transfer_callback usb dir d s)) = request_part d"
  by (cases dir) (auto simp: fifo_transfer_callback_def request_part_def Let_def)

lemma complete_request_part: "request_part (fst (complete_transfer usb c d s)) = request_part d"
proof -
  have "request_part (fst (complete_transfer usb c d s)) = request_part
      (case c_direction c of
          IN \<Rightarrow> d\<lparr>in_transfer := (in_transfer d)\<lparr>tr_status := c_status c, actual_length := c_actual c\<rparr>,
                  in_buffer := memcpy_at 0 (take (length (in_buffer d)) (c_data c)) (in_buffer d)\<rparr>
        | OUT \<Rightarrow> d\<lparr>out_transfer := (out_transfer d)\<lparr>tr_status := c_status c, actual_length := c_actual c\<rparr>\<rparr>)"
    by (simp only: complete_transfer_def Let_def callback_request_part)
  then show ?thesis by (cases "c_direction c") (simp_all add: request_part_def)
qed

lemma events_step_request_part: "events_step usb d s = (status, d', s') \<Longrightarrow> request_part d' = request_part d"
  using complete_request_part [of usb _ d]
  by (auto simp: events_step_def split: prod.splits option.splits) (metis fst_conv)

lemma events_loop_request_part:
  assumes "events_loop usb d s = Some (status, d', s')"
  shows "request_part d' = request_part d"
proof -
  have "events_loop usb d s = Some r \<Longrightarrow> request_part (fst (snd r)) = request_part d" for r
  proof (induction usb d s r rule: events_loop.raw_induct [rotated, consumes 1, case_names step])
    case (step f usb d s r)
    obtain status d' s' where e: "events_step usb d s = (status, d', s')" by (cases "events_step usb d s")
    note p = events_step_request_part [OF e]
    show ?case
    proof (cases "all_transfers_completed d \<or> status \<noteq> LIBUSB_SUCCESS \<and> status \<noteq> LIBUSB_ERROR_INTERRUPTED")
      case True
      with step(2) p show ?thesis by (auto simp: e split: if_splits)
    next
      case False
      with step(2) have "f usb d' s' = Some r" by (auto simp: e)
      from step(1) [OF this] p show ?thesis by simp
    qed
  qed
  from this [OF assms] show ?thesis by simp
qed

lemma drain_loop_request_part:
  assumes "drain_loop usb d s = Some (d', s')"
  shows "request_part d' = request_part d"
proof -
  have "drain_loop usb d s = Some r \<Longrightarrow> request_part (fst r) = request_part d" for r
  proof (induction usb d s r rule: drain_loop.raw_induct [rotated, consumes 1, case_names step])
    case (step f usb d s r)
    obtain status d' s' where e: "events_step usb d s = (status, d', s')" by (cases "events_step usb d s")
    note p = events_step_request_part [OF e]
    show ?case
    proof (cases "all_transfers_completed d")
      case True
      with step(2) show ?thesis by auto
    next
      case False
      with step(2) have "f usb d' s' = Some r" by (simp add: e)
      from step(1) [OF this] p show ?thesis by simp
    qed
  qed
  from this [OF assms] show ?thesis by simp
qed

lemma finish_request_part:
  "finish_transfers usb status d s = Some (status', d', s') \<Longrightarrow> request_part d' = request_part d"
  by (auto simp: finish_transfers_def Let_def dest: drain_loop_request_part)

lemma request_part_flags [simp]:
  "request_part (d\<lparr>all_transfers_completed := a\<rparr>) = request_part d"
  "request_part (d\<lparr>in_transfer_completed := a\<rparr>) = request_part d"
  "request_part (d\<lparr>out_transfer_completed := a\<rparr>) = request_part d"
  by (simp_all add: request_part_def)

lemma run_transfers_request_part:
  "libhoth_usb_fifo_run_transfers usb run_out run_in d s = Some (status, d', s') \<Longrightarrow> request_part d' = request_part d"
  unfolding libhoth_usb_fifo_run_transfers_def Let_def
  by (auto split: if_splits prod.splits option.splits
      dest!: finish_request_part events_loop_request_part)

lemma match_loop_own:
  "fifo_match_loop usb m n d s = Some ((0, resp), d', s') \<Longrightarrow>
    request_part d' = request_part d \<and> take 16 (in_buffer d') = take 16 (out_buffer d') \<and>
    resp = byte_range 16 (actual_length (in_transfer d') - 16) (in_buffer d') \<and> actual_length (in_transfer d') \<le> m"
proof (induction n arbitrary: d s)
  case 0
  then show ?case
    by (subst (asm) fifo_match_loop.simps)
      (auto simp: fifo_sizes transfer_status_to_error_def libusb_errors split: if_splits)
next
  case (Suc n)
  show ?case
  proof (cases "tr_status (in_transfer d) \<noteq> LIBUSB_TRANSFER_COMPLETED \<or> m < actual_length (in_transfer d) \<or>
      actual_length (in_transfer d) < 16 \<or> take 16 (out_buffer d) = take 16 (in_buffer d)")
    case True
    with Suc.prems show ?thesis
      by (subst (asm) fifo_match_loop.simps)
        (auto simp: fifo_sizes transfer_status_to_error_def libusb_errors split: if_splits)
  next
    case False
    then obtain status d1 s1 where r: "libhoth_usb_fifo_run_transfers usb False True d s = Some (status, d1, s1)"
      and c: "status = 0" "fifo_match_loop usb m n d1 s1 = Some ((0, resp), d', s')"
      using Suc.prems by (subst (asm) fifo_match_loop.simps) (auto simp: fifo_sizes split: option.splits prod.splits if_splits)
    from Suc.IH [OF c(2)] run_transfers_request_part [OF r] show ?thesis by simp
  qed
qed

lemma run_both_request_part: "fifo_run_both usb d s = Some (status, d', s') \<Longrightarrow> request_part d' = request_part d"
  unfolding fifo_run_both_def Let_def
  by (auto split: if_splits prod.splits option.splits dest!: run_transfers_request_part)

lemma fifo_own_response:
  assumes "libhoth_usb_fifo_receive_response usb max_response_size timeout_ms d s = Some ((0, resp), d', s')"
  shows "out_buffer d' = out_buffer d \<and> take 16 (in_buffer d') = take 16 (out_buffer d) \<and>
    resp = byte_range 16 (actual_length (in_transfer d') - 16) (in_buffer d') \<and>
    length resp \<le> max_response_size \<and> tr_length (out_transfer d') = 0 \<and>
    length (in_buffer d') = length (in_buffer d)"
proof -
  let ?d0 = "d\<lparr>in_transfer := (in_transfer d)\<lparr>tr_endpoint := ep_in (fifo_endpoints d), tr_length := LIBHOTH_USB_FIFO_MTU,
                    tr_timeout := timeout_ms\<rparr>,
                  out_transfer := (out_transfer d)\<lparr>tr_timeout := timeout_ms\<rparr>\<rparr>"
  have d0: "request_part ?d0 = request_part d" by (simp add: request_part_def)
  obtain d1 s1 d2 where b: "fifo_run_both usb ?d0 s = Some (0, d1, s1)"
    and m: "fifo_match_loop usb (16 + max_response_size) 10 d1 s1 = Some ((0, resp), d2, s')" and d': "d' = transfer_done d2"
    using assms unfolding libhoth_usb_fifo_receive_response_def Let_def
    by (auto simp: fifo_sizes libusb_errors transfer_status_to_error_def split: if_splits option.splits prod.splits)
  have p: "request_part d1 = request_part d" using run_both_request_part [OF b] d0 by simp
  have own: "request_part d2 = request_part d1 \<and> take 16 (in_buffer d2) = take 16 (out_buffer d2) \<and>
    resp = byte_range 16 (actual_length (in_transfer d2) - 16) (in_buffer d2) \<and>
    actual_length (in_transfer d2) \<le> 16 + max_response_size"
    using match_loop_own [OF m] .
  then have "out_buffer d2 = out_buffer d" "length (in_buffer d2) = length (in_buffer d)"
    using p by (simp_all add: request_part_def)
  moreover have "length resp \<le> max_response_size" using own by (auto simp: byte_range_def)
  ultimately show ?thesis using own by (simp add: d' transfer_done_def)
qed

text \<open>
  C10: whatever the device and the library do, a response that is reported as received carries the
  id of the request that was sent last, fits the buffer, and is what followed the id in the last
  IN transfer; and after it no request is left to be sent again.
\<close>

theorem usb_fifo_own_response:
  assumes "libhoth_usb_fifo_receive_response usb max_response_size timeout_ms d s = Some ((0, resp), d', s')"
  shows "out_buffer d' = out_buffer d \<and> take 16 (in_buffer d') = take 16 (out_buffer d) \<and>
    resp = byte_range 16 (actual_length (in_transfer d') - 16) (in_buffer d') \<and>
    length resp \<le> max_response_size \<and> tr_length (out_transfer d') = 0"
  using fifo_own_response [OF assms] by blast

section \<open>A device behind the FIFO\<close>

text \<open>
  A root of trust with a transmit FIFO: \<open>tx\<close> are the packets waiting in it, among them responses to
  requests of processes that died. \<open>h\<close> answers a request; its answer is queued behind them with the
  id of the request. An IN transfer takes the first packet and times out on an empty FIFO.
\<close>

record 'w fifo_world =
  tx :: "bytes list"
  in_pending :: bool
  out_pending :: "bytes option"
  fw :: 'w

definition fifo_rot :: "(bytes \<Rightarrow> 'w \<Rightarrow> bytes \<times> 'w) \<Rightarrow> ('w fifo_world) libusb_async" where
  "fifo_rot h =
    \<lparr>submit_in = (\<lambda>_ _ _ w. (0, w\<lparr>in_pending := True\<rparr>)),
     submit_out = (\<lambda>_ bs _ w. (0, w\<lparr>out_pending := Some bs\<rparr>)),
     cancel = (\<lambda>_ w. w),
     handle_events = (\<lambda>w.
       case out_pending w of
         Some packet \<Rightarrow>
           let (r, st) = h (drop 16 packet) (fw w)
           in ((0, Some \<lparr>c_direction = OUT, c_status = LIBUSB_TRANSFER_COMPLETED, c_actual = length packet, c_data = []\<rparr>),
               w\<lparr>out_pending := None, fw := st, tx := tx w @ [take 16 packet @ r]\<rparr>)
       | None \<Rightarrow>
           if in_pending w then
             (case tx w of
                [] \<Rightarrow> ((0, Some \<lparr>c_direction = IN, c_status = LIBUSB_TRANSFER_TIMED_OUT, c_actual = 0, c_data = []\<rparr>),
                       w\<lparr>in_pending := False\<rparr>)
              | p # q \<Rightarrow> ((0, Some \<lparr>c_direction = IN, c_status = LIBUSB_TRANSFER_COMPLETED, c_actual = length p, c_data = p\<rparr>),
                       w\<lparr>in_pending := False, tx := q\<rparr>))
           else ((LIBUSB_ERROR_INTERRUPTED, None), w)),
     clear_halt = (\<lambda>_ w. (0, w)), alloc = (\<lambda>w. (True, w))\<rparr>"

definition got :: "bytes \<Rightarrow> libhoth_usb_fifo \<Rightarrow> libhoth_usb_fifo" where
  "got p d = d\<lparr>in_transfer := (in_transfer d)\<lparr>tr_status := LIBUSB_TRANSFER_COMPLETED, actual_length := length p\<rparr>,
     in_buffer := memcpy_at 0 p (in_buffer d),
     all_transfers_completed := True, out_transfer_completed := True, in_transfer_completed := True\<rparr>"

lemmas fifo_eval = events_step_def complete_transfer_def fifo_transfer_callback_def fifo_rot_def Let_def
  LIBUSB_SUCCESS_def transfer_statuses finish_transfers_def LIBUSB_ERROR_INTERRUPTED_def

lemma run_in_rot:
  assumes "out_pending w = None" "tx w = p # q" "length p \<le> length (in_buffer d)"
  shows "libhoth_usb_fifo_run_transfers (fifo_rot h) False True d w =
    Some (0, got p d, w\<lparr>in_pending := False, tx := q\<rparr>)"
  using assms unfolding libhoth_usb_fifo_run_transfers_def
  by (simp add: fifo_eval events_loop.simps drain_loop.simps got_def)

lemma run_both_rot:
  assumes "tx w @ [take 16 packet @ fst (h (drop 16 packet) (fw w))] = p # q"
    and "packet = take (tr_length (out_transfer d)) (out_buffer d)" and "length p \<le> length (in_buffer d)"
  shows "libhoth_usb_fifo_run_transfers (fifo_rot h) True True d w =
    Some (0, got p (d\<lparr>out_transfer := (out_transfer d)\<lparr>tr_status := LIBUSB_TRANSFER_COMPLETED,
        actual_length := length packet\<rparr>\<rparr>),
      w\<lparr>in_pending := False, out_pending := None, fw := snd (h (drop 16 packet) (fw w)), tx := q\<rparr>)"
proof -
  obtain r st where h: "h (drop 16 packet) (fw w) = (r, st)" by (cases "h (drop 16 packet) (fw w)")
  show ?thesis
    using assms h unfolding libhoth_usb_fifo_run_transfers_def
    by (simp add: fifo_eval events_loop.simps drain_loop.simps got_def)
qed

lemma got_fields [simp]:
  "tr_status (in_transfer (got p d)) = LIBUSB_TRANSFER_COMPLETED" "actual_length (in_transfer (got p d)) = length p"
  "in_buffer (got p d) = memcpy_at 0 p (in_buffer d)" "out_buffer (got p d) = out_buffer d"
  "out_transfer (got p d) = out_transfer d"
  by (simp_all add: got_def)

lemma match_loop_rot:
  assumes "m \<le> 1040" and "16 \<le> length own" "length own \<le> m"
  shows "p # q = stale @ [own] \<Longrightarrow> tx w = q \<Longrightarrow> out_pending w = None \<Longrightarrow> length (in_buffer d) = 1040 \<Longrightarrow>
    take 16 own = take 16 (out_buffer d) \<Longrightarrow>
    \<forall>s \<in> set stale. 16 \<le> length s \<and> length s \<le> m \<and> take 16 s \<noteq> take 16 (out_buffer d) \<Longrightarrow>
    \<exists>d' w'. fifo_match_loop (fifo_rot h) m n (got p d) w =
      Some (if length stale \<le> n then (0, drop 16 own) else (LIBUSB_ERROR_IO, []), d', w') \<and> fw w' = fw w \<and>
      (length stale \<le> n \<longrightarrow> tx w' = [] \<and> out_pending w' = None)"
proof (induction n arbitrary: p q stale d w)
  case (0 p q stale d w)
  show ?case
  proof (cases stale)
    case Nil
    with 0 assms show ?thesis
      by (subst fifo_match_loop.simps) (simp add: fifo_sizes memcpy_at_def byte_range_def)
  next
    case (Cons s ss)
    with 0 assms have "p = s" "take 16 (out_buffer d) \<noteq> take 16 p" "16 \<le> length p" "length p \<le> m"
      by auto
    with Cons show ?thesis
      by (subst fifo_match_loop.simps) (simp add: fifo_sizes memcpy_at_def)
  qed
next
  case (Suc n p q stale d w)
  show ?case
  proof (cases stale)
    case Nil
    with Suc.prems assms show ?thesis
      by (subst fifo_match_loop.simps) (simp add: fifo_sizes memcpy_at_def byte_range_def)
  next
    case (Cons s ss)
    with Suc.prems have p: "p = s" "q = ss @ [own]" "take 16 (out_buffer d) \<noteq> take 16 p" "16 \<le> length p" "length p \<le> m"
      by auto
    obtain p' q' where pq: "q = p' # q'" using p(2) by (cases "ss @ [own]") auto
    have len: "length (in_buffer (got p d)) = 1040" using p(5) assms(1) Suc.prems(4) by simp
    have "p' \<in> set (ss @ [own])" using p(2) pq by (metis list.set_intros(1))
    then have p': "length p' \<le> 1040" using Suc.prems(6) assms Cons by auto
    have "libhoth_usb_fifo_run_transfers (fifo_rot h) False True (got p d) w =
        Some (0, got p' (got p d), w\<lparr>in_pending := False, tx := q'\<rparr>)"
      using Suc.prems(2,3) pq len p' by (intro run_in_rot) auto
    moreover have "\<exists>d' w'. fifo_match_loop (fifo_rot h) m n (got p' (got p d)) (w\<lparr>in_pending := False, tx := q'\<rparr>) =
        Some (if length ss \<le> n then (0, drop 16 own) else (LIBUSB_ERROR_IO, []), d', w') \<and>
        fw w' = fw (w\<lparr>in_pending := False, tx := q'\<rparr>) \<and>
        (length ss \<le> n \<longrightarrow> tx w' = [] \<and> out_pending w' = None)"
      using Suc.prems p pq len Cons by (intro Suc.IH) auto
    ultimately show ?thesis
      using p Cons by (subst fifo_match_loop.simps) (simp add: fifo_sizes memcpy_at_def)
  qed
qed

lemma fifo_exchange:
  assumes "length (in_buffer d) = LIBHOTH_USB_FIFO_MTU" and "length (out_buffer d) = LIBHOTH_USB_FIFO_MTU"
    and "length request \<le> 1024" and "max_response_size \<le> 1024" and "out_pending w = None"
    and "list_all (\<lambda>p. 16 \<le> length p \<and> length p \<le> 16 + max_response_size \<and>
      take 16 p \<noteq> fst (request_id 16 (prng_state d))) (tx w)"
    and "h request (fw w) = (answer, st)" and "length answer \<le> max_response_size"
  shows "\<exists>d1 d2 w'. libhoth_usb_fifo_send_request request d = (0, d1) \<and>
    libhoth_usb_fifo_receive_response (fifo_rot h) max_response_size timeout_ms d1 w =
      Some (if length (tx w) \<le> 10 then (0, answer) else (LIBUSB_ERROR_IO, []), d2, w') \<and>
    fw w' = st \<and> (length (tx w) \<le> 10 \<longrightarrow> tx w' = [] \<and> out_pending w' = None)"
proof -
  obtain ids state' where ids: "request_id 16 (prng_state d) = (ids, state')" by (cases "request_id 16 (prng_state d)")
  then have lid: "length ids = 16" by (metis fst_conv length_request_id)
  let ?ob = "memcpy_at 16 request (memcpy_at 0 ids (out_buffer d))"
  define d1 where "d1 = d\<lparr>prng_state := state', out_buffer := ?ob,
      out_transfer := (out_transfer d)\<lparr>tr_endpoint := ep_out (fifo_endpoints d), tr_length := 16 + length request,
        tr_timeout := 0, add_zero_packet := True\<rparr>\<rparr>"
  have send: "libhoth_usb_fifo_send_request request d = (0, d1)"
    using assms(3) ids by (simp add: libhoth_usb_fifo_send_request_def fifo_sizes d1_def)
  define d0 where "d0 = d1\<lparr>in_transfer := (in_transfer d1)\<lparr>tr_endpoint := ep_in (fifo_endpoints d1),
      tr_length := LIBHOTH_USB_FIFO_MTU, tr_timeout := timeout_ms\<rparr>, out_transfer := (out_transfer d1)\<lparr>tr_timeout := timeout_ms\<rparr>\<rparr>"
  have lob: "length (memcpy_at 0 ids (out_buffer d)) = 1040" using assms(2) lid by (simp add: fifo_sizes)
  have tid: "take 16 ?ob = ids" using lob lid by (simp add: memcpy_at_def)
  have packet: "ids @ request = take (tr_length (out_transfer d0)) (out_buffer d0)"
    using assms(2,3) lid by (simp add: d0_def d1_def memcpy_at_def fifo_sizes)
  obtain p q where pq: "tx w @ [ids @ answer] = p # q" by (cases "tx w") auto
  have st: "list_all (\<lambda>p. 16 \<le> length p \<and> length p \<le> 16 + max_response_size \<and> take 16 p \<noteq> ids) (tx w)"
    using assms(6) ids by simp
  have lp: "length p \<le> length (in_buffer d0)"
    using pq st assms(1,4,8) lid by (cases "tx w") (auto simp: d0_def d1_def fifo_sizes)
  define dc where "dc = d0\<lparr>out_transfer := (out_transfer d0)\<lparr>tr_status := LIBUSB_TRANSFER_COMPLETED,
      actual_length := length (ids @ request)\<rparr>\<rparr>"
  define wc where "wc = w\<lparr>in_pending := False, out_pending := None, fw := st, tx := q\<rparr>"
  have run: "libhoth_usb_fifo_run_transfers (fifo_rot h) True True d0 w = Some (0, got p dc, wc)"
    using run_both_rot [of w "ids @ request" h p q d0, OF _ packet lp] pq lid assms(7)
    by (simp add: dc_def wc_def)
  have both: "fifo_run_both (fifo_rot h) d0 w = Some (0, got p dc, wc)"
    by (simp add: fifo_run_both_def run dc_def transfer_statuses)
  have own: "16 \<le> length (ids @ answer)" "length (ids @ answer) \<le> 16 + max_response_size"
    using lid assms(8) by simp_all
  have "\<exists>d' w'. fifo_match_loop (fifo_rot h) (16 + max_response_size) 10 (got p dc) wc =
      Some (if length (tx w) \<le> 10 then (0, drop 16 (ids @ answer)) else (LIBUSB_ERROR_IO, []), d', w') \<and> fw w' = fw wc \<and>
      (length (tx w) \<le> 10 \<longrightarrow> tx w' = [] \<and> out_pending w' = None)"
  proof (rule match_loop_rot)
    show "16 + max_response_size \<le> 1040" using assms(4) by simp
    show "p # q = tx w @ [ids @ answer]" using pq by simp
    show "tx wc = q" "out_pending wc = None" by (simp_all add: wc_def)
    show "length (in_buffer dc) = 1040" using assms(1) by (simp add: dc_def d0_def d1_def fifo_sizes)
    show "take 16 (ids @ answer) = take 16 (out_buffer dc)" using tid lid by (simp add: dc_def d0_def d1_def)
    show "\<forall>s \<in> set (tx w). 16 \<le> length s \<and> length s \<le> 16 + max_response_size \<and> take 16 s \<noteq> take 16 (out_buffer dc)"
      using st tid by (auto simp: list_all_iff dc_def d0_def d1_def)
  qed (use own in simp_all)
  then obtain d2 w2 where m: "fifo_match_loop (fifo_rot h) (16 + max_response_size) 10 (got p dc) wc =
      Some (if length (tx w) \<le> 10 then (0, answer) else (LIBUSB_ERROR_IO, []), d2, w2)" "fw w2 = st"
    "length (tx w) \<le> 10 \<longrightarrow> tx w2 = [] \<and> out_pending w2 = None"
    using lid by (auto simp: wc_def)
  have fin: "tr_status (out_transfer (got p dc)) = LIBUSB_TRANSFER_COMPLETED"
    "actual_length (out_transfer (got p dc)) = tr_length (out_transfer (got p dc))" "tr_length (out_transfer d1) \<noteq> 0"
    using lid by (simp_all add: dc_def d0_def d1_def)
  have "libhoth_usb_fifo_receive_response (fifo_rot h) max_response_size timeout_ms d1 w =
      Some (if length (tx w) \<le> 10 then (0, answer) else (LIBUSB_ERROR_IO, []), transfer_done d2, w2)"
    using assms(4) fin m(1) unfolding libhoth_usb_fifo_receive_response_def Let_def d0_def [symmetric] both
    by (simp add: fifo_sizes)
  with send m(2,3) show ?thesis by blast
qed

text \<open>
  C8: sending a request to a root of trust and receiving the response yields exactly the answer to
  that request, also when up to ten responses to other requests are waiting in front of it; behind
  more of them it is an I/O error. The request is performed once in either case.
\<close>

theorem usb_fifo_exchange:
  assumes "length (in_buffer d) = LIBHOTH_USB_FIFO_MTU" and "length (out_buffer d) = LIBHOTH_USB_FIFO_MTU"
    and "length request \<le> 1024" and "max_response_size \<le> 1024" and "out_pending w = None"
    and "list_all (\<lambda>p. 16 \<le> length p \<and> length p \<le> 16 + max_response_size \<and>
      take 16 p \<noteq> fst (request_id 16 (prng_state d))) (tx w)"
    and "h request (fw w) = (answer, st)" and "length answer \<le> max_response_size"
  shows "\<exists>d1 d2 w'. libhoth_usb_fifo_send_request request d = (0, d1) \<and>
    libhoth_usb_fifo_receive_response (fifo_rot h) max_response_size timeout_ms d1 w =
      Some (if length (tx w) \<le> 10 then (0, answer) else (LIBUSB_ERROR_IO, []), d2, w') \<and>
    fw w' = st"
  using fifo_exchange [where timeout_ms = timeout_ms and h = h, OF assms] by blast

text \<open>One stale response in front; the root of trust echoes requests and counts them.\<close>

definition demo_fifo :: libhoth_usb_fifo where
  "demo_fifo = zero_fifo\<lparr>in_buffer := replicate 1040 0, out_buffer := replicate 1040 0, prng_state := 1\<rparr>"

abbreviation demo_world :: "nat fifo_world" where
  "demo_world \<equiv> \<lparr>tx = [replicate 16 0 @ [9]], in_pending = False, out_pending = None, fw = 0\<rparr>"

lemma demo_request_id: "take 16 (replicate 16 0 @ [9]) \<noteq> fst (request_id 16 1)"
proof -
  have "request_id 16 1 = (let s = libhoth_generate_pseudorandom_u32 1; (ids, final) = request_id 15 s in (ucast s # ids, final))"
    using request_id.simps(2) [of 15 1] by simp
  moreover have "(ucast (libhoth_generate_pseudorandom_u32 1) :: u8) \<noteq> 0"
    by (simp add: libhoth_generate_pseudorandom_u32_def Let_def)
  ultimately have "hd (fst (request_id 16 1)) \<noteq> 0" by (simp add: Let_def case_prod_unfold)
  moreover have "hd (take 16 (replicate 16 0 @ [9 :: u8])) = 0" by simp
  ultimately show ?thesis by metis
qed

lemma demo_stale:
  "list_all (\<lambda>p. 16 \<le> length p \<and> length p \<le> 16 + 1024 \<and>
    take 16 p \<noteq> fst (request_id 16 (prng_state demo_fifo))) (tx demo_world)"
  using demo_request_id by (simp add: demo_fifo_def)

theorem usb_fifo_exchange_witness:
  "\<exists>d1 d2 w'. libhoth_usb_fifo_send_request [1, 2, 3] demo_fifo = (0, d1) \<and>
    libhoth_usb_fifo_receive_response (fifo_rot (\<lambda>r n. (r, n + 1))) 1024 1000 d1 demo_world =
      Some (if length (tx demo_world) \<le> 10 then (0, [1, 2, 3]) else (LIBUSB_ERROR_IO, []), d2, w') \<and> fw w' = 1"
  by (rule usb_fifo_exchange [where h = "\<lambda>r n. (r, n + 1)", OF _ _ _ _ _ demo_stale]) (simp_all add: demo_fifo_def fifo_sizes)

lemma demo_run:
  "\<exists>d1 d2 w'. libhoth_usb_fifo_send_request [1, 2, 3] demo_fifo = (0, d1) \<and>
    libhoth_usb_fifo_receive_response (fifo_rot (\<lambda>r n. (r, n + 1))) 1024 1000 d1 demo_world =
      Some (if length (tx demo_world) \<le> 10 then (0, [1, 2, 3]) else (LIBUSB_ERROR_IO, []), d2, w') \<and> fw w' = 1 \<and>
    (length (tx demo_world) \<le> 10 \<longrightarrow> tx w' = [] \<and> out_pending w' = None)"
  by (rule fifo_exchange [where h = "\<lambda>r n. (r, n + 1)", OF _ _ _ _ _ demo_stale]) (simp_all add: demo_fifo_def fifo_sizes)

theorem usb_fifo_own_response_witness:
  "\<exists>d1 d2 w'. libhoth_usb_fifo_send_request [1, 2, 3] demo_fifo = (0, d1) \<and>
    libhoth_usb_fifo_receive_response (fifo_rot (\<lambda>r n. (r, n + 1 :: nat))) 1024 1000 d1 demo_world =
      Some ((0, [1, 2, 3]), d2, w') \<and> take 16 (in_buffer d2) = take 16 (out_buffer d1)"
proof -
  obtain d1 d2 w' where "libhoth_usb_fifo_send_request [1, 2, 3] demo_fifo = (0, d1)"
    and r: "libhoth_usb_fifo_receive_response (fifo_rot (\<lambda>r n. (r, n + 1 :: nat))) 1024 1000 d1 demo_world =
      Some ((0, [1, 2, 3]), d2, w')"
    using demo_run by auto
  with usb_fifo_own_response [OF r] show ?thesis by auto
qed

end
