(* ===== verification/Usb.thy ===== *)
theory Usb
  imports Usb_Fifo Hoth_Util
begin

text \<open>
  \<open>transports/libhoth_usb.c\<close>: the USB transport, which finds the device and its interface and hands
  requests to the mailbox or the FIFO driver. libusb, the clock and sleeping are parameters; a
  \<open>libusb_device\<close> is an abstract \<open>'d\<close>. A wait that never ends, and the exit of the process when there
  is no clock, are \<open>None\<close>.
\<close>

section \<open>Data\<close>

definition HOTH_VENDOR_ID :: u16 where "HOTH_VENDOR_ID = 0x18d1"
definition HOTH_B_PRODUCT_ID :: u16 where "HOTH_B_PRODUCT_ID = 0x5014"
definition HOTH_D_PRODUCT_ID :: u16 where "HOTH_D_PRODUCT_ID = 0x022a"
definition HOTH_E_PRODUCT_ID :: u16 where "HOTH_E_PRODUCT_ID = 0x023b"

definition LIBHOTH_USB_VENDOR_ID :: u16 where "LIBHOTH_USB_VENDOR_ID = 0x18d1"
definition LIBHOTH_USB_INTERFACE_CLASS :: u8 where "LIBHOTH_USB_INTERFACE_CLASS = 0xFF"
definition LIBHOTH_USB_MAILBOX_INTERFACE_SUBCLASS :: u8 where "LIBHOTH_USB_MAILBOX_INTERFACE_SUBCLASS = 0x71"
definition LIBHOTH_USB_MAILBOX_INTERFACE_PROTOCOL :: u8 where "LIBHOTH_USB_MAILBOX_INTERFACE_PROTOCOL = 0x01"
definition LIBHOTH_USB_FIFO_INTERFACE_SUBCLASS :: u8 where "LIBHOTH_USB_FIFO_INTERFACE_SUBCLASS = 0x58"
definition LIBHOTH_USB_FIFO_INTERFACE_PROTOCOL :: u8 where "LIBHOTH_USB_FIFO_INTERFACE_PROTOCOL = 0x01"

text \<open>The ports are the first \<open>num_ports\<close> ones of the array.\<close>

record libhoth_usb_loc =
  bus :: u8
  ports :: bytes

text \<open>
  \<open>usb_handle\<close> says whether there is a handle, \<open>usb_ctx\<close> whether the libusb context is not NULL. The two drivers share their memory in C; a device uses
  the data of the driver of its interface.
\<close>

record libhoth_usb_device =
  usb_ctx :: bool
  usb_handle :: bool
  claim_timeout_us :: u32
  loc :: libhoth_usb_loc
  usb_info :: libhoth_usb_interface_info
  mailbox_data :: libhoth_usb_mailbox
  fifo_data :: libhoth_usb_fifo

definition no_endpoints :: libhoth_usb_mailbox where
  "no_endpoints = \<lparr>max_packet_size_in = 0, max_packet_size_out = 0, ep_in = 0, ep_out = 0\<rparr>"

definition zero_usb_device :: libhoth_usb_device where
  "zero_usb_device = \<lparr>usb_ctx = False, usb_handle = False, claim_timeout_us = 0, loc = \<lparr>bus = 0, ports = []\<rparr>,
     usb_info = \<lparr>intf_type = LIBHOTH_USB_INTERFACE_TYPE_UNKNOWN, interface_id = 0, interface_altsetting = 0\<rparr>,
     mailbox_data = no_endpoints, fifo_data = zero_fifo\<rparr>"

record 'd libhoth_usb_device_init_options =
  opt_usb_device :: "'d option"
  opt_usb_ctx :: bool
  opt_prng_seed :: u32
  opt_timeout_us :: u32

text \<open>
  \<open>usb_device_ids\<close> yields the vendor and the product. \<open>uninit\<close> is the content of a buffer before
  it is written.
\<close>

record ('d, 's) libusb =
  usb_bulk :: "'s libusb_bulk"
  usb_async :: "'s libusb_async"
  usb_device_ids :: "'d \<Rightarrow> 's \<Rightarrow> (int \<times> u16 \<times> u16) \<times> 's"
  usb_active_config :: "'d \<Rightarrow> 's \<Rightarrow> (int \<times> usb_config) \<times> 's"
  usb_bus_number :: "'d \<Rightarrow> u8"
  usb_port_numbers :: "'d \<Rightarrow> int + bytes"
  usb_device_list :: "'s \<Rightarrow> (int + 'd list) \<times> 's"
  usb_open_device :: "'d \<Rightarrow> 's \<Rightarrow> int \<times> 's"
  usb_close_device :: "'s \<Rightarrow> 's"
  usb_claim_interface :: "u8 \<Rightarrow> 's \<Rightarrow> int \<times> 's"
  usb_release_interface :: "u8 \<Rightarrow> 's \<Rightarrow> int \<times> 's"
  usb_clock :: "'s \<Rightarrow> timespec option \<times> 's"
  usb_getpid :: int
  usb_sleep :: "nat \<Rightarrow> 's \<Rightarrow> 's"
  usb_calloc :: "'s \<Rightarrow> bool \<times> 's"
  uninit :: "nat \<Rightarrow> bytes"

definition usb_err_libusb :: "int \<Rightarrow> libhoth_error" where
  "usb_err_libusb libusb_err =
    (if libusb_err = LIBUSB_SUCCESS then HOTH_SUCCESS
     else hoth_err HOTH_CTX_USB HOTH_HOST_SPACE_LIBUSB (word_of_int libusb_err))"

definition usb_err_libhoth :: "int \<Rightarrow> libhoth_error" where
  "usb_err_libhoth libhoth_err =
    (if libhoth_err = status_val LIBHOTH_OK then HOTH_SUCCESS
     else hoth_err HOTH_CTX_USB HOTH_HOST_SPACE_LIBHOTH (word_of_int libhoth_err))"

definition wrap_usb_err :: "int \<Rightarrow> libhoth_error" where
  "wrap_usb_err ret = (if ret < 0 then usb_err_libusb ret else usb_err_libhoth ret)"

abbreviation usb_err :: "libhoth_status \<Rightarrow> libhoth_error" where
  "usb_err st \<equiv> usb_err_libhoth (status_val st)"

section \<open>Finding the device and its interface\<close>

fun find_altsetting :: "nat \<Rightarrow> nat \<Rightarrow> usb_interface_descriptor list \<Rightarrow> libhoth_usb_interface_info option" where
  "find_altsetting i j [] = None"
| "find_altsetting i j (a # as) =
    (if bInterfaceClass a \<noteq> LIBHOTH_USB_INTERFACE_CLASS then find_altsetting i (j + 1) as
     else if bInterfaceSubClass a = LIBHOTH_USB_MAILBOX_INTERFACE_SUBCLASS \<and>
             bInterfaceProtocol a = LIBHOTH_USB_MAILBOX_INTERFACE_PROTOCOL
     then Some \<lparr>intf_type = LIBHOTH_USB_INTERFACE_TYPE_MAILBOX, interface_id = word_of_nat i,
                interface_altsetting = word_of_nat j\<rparr>
     else if bInterfaceSubClass a = LIBHOTH_USB_FIFO_INTERFACE_SUBCLASS \<and>
             bInterfaceProtocol a = LIBHOTH_USB_FIFO_INTERFACE_PROTOCOL
     then Some \<lparr>intf_type = LIBHOTH_USB_INTERFACE_TYPE_FIFO, interface_id = word_of_nat i,
                interface_altsetting = word_of_nat j\<rparr>
     else find_altsetting i (j + 1) as)"

fun find_interface_from :: "nat \<Rightarrow> usb_config \<Rightarrow> libhoth_usb_interface_info" where
  "find_interface_from i [] =
    \<lparr>intf_type = LIBHOTH_USB_INTERFACE_TYPE_UNKNOWN, interface_id = 0, interface_altsetting = 0\<rparr>"
| "find_interface_from i (alts # rest) =
    (case find_altsetting i 0 alts of Some info \<Rightarrow> info | None \<Rightarrow> find_interface_from (i + 1) rest)"

definition libhoth_usb_find_interface :: "usb_config \<Rightarrow> libhoth_usb_interface_info" where
  "libhoth_usb_find_interface configuration = find_interface_from 0 configuration"

text \<open>The test of the descriptor pointer has no branch: it is never NULL here.\<close>

definition libhoth_device_is_hoth :: "u16 \<Rightarrow> u16 \<Rightarrow> bool" where
  "libhoth_device_is_hoth idVendor idProduct \<longleftrightarrow> idVendor = HOTH_VENDOR_ID \<and>
    (idProduct = HOTH_B_PRODUCT_ID \<or> idProduct = HOTH_D_PRODUCT_ID \<or> idProduct = HOTH_E_PRODUCT_ID)"

definition libhoth_get_usb_loc :: "('d, 's) libusb \<Rightarrow> 'd option \<Rightarrow> int + libhoth_usb_loc" where
  "libhoth_get_usb_loc usb dev =
    (case dev of None \<Rightarrow> Inl LIBUSB_ERROR_INVALID_PARAM
     | Some d \<Rightarrow>
         (case usb_port_numbers usb d of
            Inl e \<Rightarrow> Inl e
          | Inr ps \<Rightarrow> Inr \<lparr>bus = usb_bus_number usb d, ports = ps\<rparr>))"

fun find_hoth :: "('d, 's) libusb \<Rightarrow> libhoth_usb_loc option \<Rightarrow> 'd list \<Rightarrow> 's \<Rightarrow> 'd option \<times> 's" where
  "find_hoth usb usb_loc [] s = (None, s)"
| "find_hoth usb usb_loc (d # ds) s =
    (let skip =
       (case usb_loc of None \<Rightarrow> False
        | Some want \<Rightarrow>
            (case libhoth_get_usb_loc usb (Some d) of
               Inl _ \<Rightarrow> True
             | Inr l \<Rightarrow> \<not> (bus l = bus want \<and> length (ports l) = length (ports want) \<and> ports l = ports want)))
     in if skip then find_hoth usb usb_loc ds s
        else
          (case usb_device_ids usb d s of
             ((rv, vendor, product), s1) \<Rightarrow>
               if rv \<noteq> LIBUSB_SUCCESS then find_hoth usb usb_loc ds s1
               else if libhoth_device_is_hoth vendor product then (Some d, s1)
               else find_hoth usb usb_loc ds s1))"

text \<open>The output pointer is never NULL in the calls of the library.\<close>

definition libhoth_usb_get_device ::
  "('d, 's) libusb \<Rightarrow> bool \<Rightarrow> libhoth_usb_loc option \<Rightarrow> 's \<Rightarrow> (int + 'd) \<times> 's" where
  "libhoth_usb_get_device usb ctx usb_loc s =
    (if \<not> ctx then (Inl LIBUSB_ERROR_INVALID_PARAM, s) else
     case usb_device_list usb s of
       (Inl e, s1) \<Rightarrow> (Inl e, s1)
     | (Inr ds, s1) \<Rightarrow>
         (case find_hoth usb usb_loc ds s1 of
            (Some d, s2) \<Rightarrow> (Inr d, s2)
          | (None, s2) \<Rightarrow> (Inl (status_val LIBHOTH_ERR_INTERFACE_NOT_FOUND), s2)))"

section \<open>Claiming, releasing, closing\<close>

type_synonym 's usb_state = "libhoth_usb_device option \<times> 's"

text \<open>A NULL \<open>user_ctx\<close> is dereferenced by claim and release; the table never holds one there.\<close>

definition libhoth_usb_claim :: "('d, 's) libusb \<Rightarrow> libhoth_usb_device \<Rightarrow> 's \<Rightarrow> libhoth_error \<times> 's" where
  "libhoth_usb_claim usb d s =
    (let (status, s') = usb_claim_interface usb (interface_id (usb_info d)) s
     in if status = LIBUSB_ERROR_BUSY then (usb_err LIBHOTH_ERR_INTERFACE_BUSY, s') else (usb_err_libusb status, s'))"

definition libhoth_usb_release :: "('d, 's) libusb \<Rightarrow> libhoth_usb_device \<Rightarrow> 's \<Rightarrow> libhoth_error \<times> 's" where
  "libhoth_usb_release usb d s =
    (let (status, s') = usb_release_interface usb (interface_id (usb_info d)) s in (usb_err_libusb status, s'))"

definition libhoth_usb_close_internal ::
  "('d, 's) libusb \<Rightarrow> libhoth_usb_device \<Rightarrow> 's \<Rightarrow> int \<times> libhoth_usb_device \<times> 's" where
  "libhoth_usb_close_internal usb d s =
    (if usb_handle d then
       let (status, d1) =
             (case intf_type (usb_info d) of
                LIBHOTH_USB_INTERFACE_TYPE_MAILBOX \<Rightarrow>
                  (let (st, m) = libhoth_usb_mailbox_close (mailbox_data d) in (st, d\<lparr>mailbox_data := m\<rparr>))
              | LIBHOTH_USB_INTERFACE_TYPE_FIFO \<Rightarrow>
                  (let (st, f) = libhoth_usb_fifo_close (fifo_data d) in (st, d\<lparr>fifo_data := f\<rparr>))
              | LIBHOTH_USB_INTERFACE_TYPE_UNKNOWN \<Rightarrow> (status_val LIBHOTH_ERR_INTERFACE_NOT_FOUND, d));
           (_, s1) = usb_release_interface usb (interface_id (usb_info d1)) s
       in (status, d1\<lparr>usb_handle := False\<rparr>, usb_close_device usb s1)
     else (LIBUSB_SUCCESS, d, s))"

definition libhoth_usb_close :: "('d, 's) libusb \<Rightarrow> 's usb_state \<Rightarrow> libhoth_error \<times> 's usb_state" where
  "libhoth_usb_close usb p =
    (case fst p of None \<Rightarrow> (HOTH_SUCCESS, p)
     | Some d \<Rightarrow>
         (let (status, _, s') = libhoth_usb_close_internal usb d (snd p) in (wrap_usb_err status, (None, s'))))"

section \<open>Sending and receiving\<close>

definition libhoth_usb_send_request ::
  "('d, 's) libusb \<Rightarrow> bytes \<Rightarrow> 's usb_state \<Rightarrow> (libhoth_error \<times> 's usb_state) option" where
  "libhoth_usb_send_request usb request p =
    (case fst p of None \<Rightarrow> Some (usb_err_libusb LIBUSB_ERROR_INVALID_PARAM, p)
     | Some d \<Rightarrow>
       if \<not> usb_handle d then Some (usb_err_libusb LIBUSB_ERROR_NO_DEVICE, p)
       else
         (case intf_type (usb_info d) of
            LIBHOTH_USB_INTERFACE_TYPE_MAILBOX \<Rightarrow>
              map_option (\<lambda>(st, s'). (wrap_usb_err st, (Some d, s')))
                (libhoth_usb_mailbox_send_request (usb_bulk usb) (mailbox_data d) request (snd p))
          | LIBHOTH_USB_INTERFACE_TYPE_FIFO \<Rightarrow>
              (let (st, f) = libhoth_usb_fifo_send_request request (fifo_data d)
               in Some (wrap_usb_err st, (Some (d\<lparr>fifo_data := f\<rparr>), snd p)))
          | LIBHOTH_USB_INTERFACE_TYPE_UNKNOWN \<Rightarrow> Some (usb_err LIBHOTH_ERR_INTERFACE_NOT_FOUND, p)))"

definition libhoth_usb_receive_response ::
  "('d, 's) libusb \<Rightarrow> nat \<Rightarrow> int \<Rightarrow> 's usb_state \<Rightarrow> ((libhoth_error \<times> bytes) \<times> 's usb_state) option" where
  "libhoth_usb_receive_response usb max_response_size timeout_ms p =
    (case fst p of None \<Rightarrow> Some ((usb_err_libusb LIBUSB_ERROR_INVALID_PARAM, []), p)
     | Some d \<Rightarrow>
       if \<not> usb_handle d then Some ((usb_err_libusb LIBUSB_ERROR_NO_DEVICE, []), p)
       else
         (case intf_type (usb_info d) of
            LIBHOTH_USB_INTERFACE_TYPE_MAILBOX \<Rightarrow>
              map_option (\<lambda>((st, resp), s'). ((wrap_usb_err st, resp), (Some d, s')))
                (libhoth_usb_mailbox_receive_response (take LIBHOTH_USB_MAILBOX_MTU (uninit usb LIBHOTH_USB_MAILBOX_MTU))
                   (usb_bulk usb) (mailbox_data d) (take max_response_size (uninit usb max_response_size)) timeout_ms (snd p))
          | LIBHOTH_USB_INTERFACE_TYPE_FIFO \<Rightarrow>
              map_option (\<lambda>((st, resp), f, s'). ((wrap_usb_err st, resp), (Some (d\<lparr>fifo_data := f\<rparr>), s')))
                (libhoth_usb_fifo_receive_response (usb_async usb) max_response_size timeout_ms (fifo_data d) (snd p))
          | LIBHOTH_USB_INTERFACE_TYPE_UNKNOWN \<Rightarrow> Some ((usb_err LIBHOTH_ERR_INTERFACE_NOT_FOUND, []), p)))"

section \<open>Opening\<close>

text \<open>The loop around \<open>libusb_open\<close>, which retries while access is denied.\<close>

partial_function (option) open_retry_loop ::
  "('d, 's) libusb \<Rightarrow> 'd \<Rightarrow> u32 \<Rightarrow> u32 \<Rightarrow> 's \<Rightarrow> (libhoth_error \<times> 's) option" where
  "open_retry_loop usb dev timeout_us wait_time_us s =
    (case usb_open_device usb dev s of
       (ret, s1) \<Rightarrow>
         if usb_err_libusb ret = HOTH_SUCCESS then Some (HOTH_SUCCESS, s1)
         else if sint (LIBHOTH_ERR_GET_CODE (usb_err_libusb ret)) \<noteq> LIBUSB_ERROR_ACCESS
         then Some (usb_err_libusb ret, s1)
         else if timeout_us \<le> wait_time_us then Some (usb_err_libusb ret, s1)
         else open_retry_loop usb dev timeout_us (wait_time_us + 1000) (usb_sleep usb 1000 s1))"

definition usb_open_driver ::
  "('d, 's) libusb \<Rightarrow> usb_config \<Rightarrow> u32 \<Rightarrow> libhoth_usb_device \<Rightarrow> 's \<Rightarrow> libhoth_error \<times> libhoth_usb_device \<times> 's" where
  "usb_open_driver usb config prng_seed d s =
    (case intf_type (usb_info d) of
       LIBHOTH_USB_INTERFACE_TYPE_MAILBOX \<Rightarrow>
         (let (st, m) = libhoth_usb_mailbox_open (usb_info d) (Some config) (mailbox_data d)
          in (wrap_usb_err st, d\<lparr>mailbox_data := m\<rparr>, s))
     | LIBHOTH_USB_INTERFACE_TYPE_FIFO \<Rightarrow>
         (let ((st, f), s') = libhoth_usb_fifo_open (usb_async usb) (uninit usb LIBHOTH_USB_FIFO_MTU)
                (uninit usb LIBHOTH_USB_FIFO_MTU) (usb_info d) (Some config) prng_seed (fifo_data d) s
          in (wrap_usb_err st, d\<lparr>fifo_data := f\<rparr>, s'))
     | LIBHOTH_USB_INTERFACE_TYPE_UNKNOWN \<Rightarrow> (usb_err LIBHOTH_ERR_INTERFACE_NOT_FOUND, d, s))"

text \<open>The part behind the label \<open>err_out\<close>.\<close>

definition usb_err_out ::
  "('d, 's) libusb \<Rightarrow> libhoth_error \<Rightarrow> libhoth_usb_device option \<Rightarrow> 's \<Rightarrow> libhoth_error \<times> 's usb_state" where
  "usb_err_out usb status ctx s =
    (case ctx of None \<Rightarrow> (status, (None, s))
     | Some d \<Rightarrow>
       if usb_handle d then
         let (_, s1) = usb_release_interface usb (interface_id (usb_info d)) s
         in (status, (Some (d\<lparr>usb_handle := False\<rparr>), usb_close_device usb s1))
       else (status, (Some d, s)))"

text \<open>
  \<open>ctx\<close> is the \<open>user_ctx\<close> of the device: NULL at the first opening, kept by a reconnect. Claiming is
  \<open>libhoth_claim_device\<close> on the table that is being filled in.
\<close>

definition usb_open_claimed ::
  "('d, 's) libusb \<Rightarrow> 'd \<Rightarrow> u32 \<Rightarrow> u32 \<Rightarrow> usb_config \<Rightarrow> libhoth_usb_device \<Rightarrow> 's
    \<Rightarrow> (libhoth_error \<times> 's usb_state) option" where
  "usb_open_claimed usb dev timeout_us prng_seed config d s =
    (case open_retry_loop usb dev timeout_us 0 s of
       None \<Rightarrow> None
     | Some (status, s1) \<Rightarrow>
         if status \<noteq> HOTH_SUCCESS then Some (usb_err_out usb status (Some d) s1)
         else
           let d1 = d\<lparr>usb_handle := True\<rparr>
           in case claim_loop (\<lambda>us. usb_sleep usb (unat us)) (libhoth_usb_claim usb d1) timeout_us INITIAL_WAIT_US 0 s1 of
                None \<Rightarrow> None
              | Some (status, s2) \<Rightarrow>
                  if status \<noteq> HOTH_SUCCESS then Some (usb_err_out usb status (Some d1) s2)
                  else
                    Some (case usb_open_driver usb config prng_seed d1 s2 of
                      (status, d2, s3) \<Rightarrow>
                        if status \<noteq> HOTH_SUCCESS then usb_err_out usb status (Some d2) s3
                        else (HOTH_SUCCESS, (Some d2, s3))))"

definition libhoth_usb_device_open ::
  "('d, 's) libusb \<Rightarrow> 'd \<Rightarrow> bool \<Rightarrow> u32 \<Rightarrow> u32 \<Rightarrow> libhoth_usb_device option \<Rightarrow> 's
    \<Rightarrow> (libhoth_error \<times> 's usb_state) option" where
  "libhoth_usb_device_open usb dev new_ctx timeout_us prng_seed ctx s =
    (case usb_device_ids usb dev s of
       ((st, vendor, _), s1) \<Rightarrow>
         if usb_err_libusb st \<noteq> HOTH_SUCCESS then Some (usb_err_libusb st, (ctx, s1))
         else if vendor \<noteq> LIBHOTH_USB_VENDOR_ID then Some (usb_err LIBHOTH_ERR_UNKNOWN_VENDOR, (ctx, s1))
         else
           (case usb_active_config usb dev s1 of
              ((st, config), s2) \<Rightarrow>
                if usb_err_libusb st \<noteq> HOTH_SUCCESS then Some (usb_err_libusb st, (ctx, s2))
                else
                  let info = libhoth_usb_find_interface config
                  in if intf_type info = LIBHOTH_USB_INTERFACE_TYPE_UNKNOWN
                     then Some (usb_err_out usb (usb_err LIBHOTH_ERR_INTERFACE_NOT_FOUND) ctx s2)
                     else
                       let (ok, s3) = (case ctx of None \<Rightarrow> usb_calloc usb s2 | Some _ \<Rightarrow> (True, s2))
                       in if \<not> ok then Some (usb_err LIBHOTH_ERR_MALLOC_FAILED, (None, s3))
                          else
                            let d = (case ctx of None \<Rightarrow> zero_usb_device | Some d \<Rightarrow> d)
                                  \<lparr>usb_info := info, usb_ctx := new_ctx, claim_timeout_us := timeout_us\<rparr>
                            in (case libhoth_get_usb_loc usb (Some dev) of
                                  Inl _ \<Rightarrow>
                                    Some (usb_err_out usb (usb_err_libusb LIBUSB_ERROR_OTHER)
                                      (Some (d\<lparr>loc := (loc d)\<lparr>bus := usb_bus_number usb dev\<rparr>\<rparr>)) s3)
                                | Inr l \<Rightarrow>
                                    usb_open_claimed usb dev timeout_us prng_seed config (d\<lparr>loc := l\<rparr>) s3)))"

definition libhoth_usb_open ::
  "('d, 's) libusb \<Rightarrow> 'd libhoth_usb_device_init_options option \<Rightarrow> bool \<Rightarrow> 's
    \<Rightarrow> (libhoth_error \<times> 's usb_state) option" where
  "libhoth_usb_open usb options out s =
    (case options of None \<Rightarrow> Some (usb_err_libusb LIBUSB_ERROR_INVALID_PARAM, (None, s))
     | Some opts \<Rightarrow>
       (case opt_usb_device opts of
          None \<Rightarrow> Some (usb_err_libusb LIBUSB_ERROR_INVALID_PARAM, (None, s))
        | Some dev \<Rightarrow>
          if \<not> out then Some (usb_err_libusb LIBUSB_ERROR_INVALID_PARAM, (None, s))
          else
            (case usb_calloc usb s of
               (False, s1) \<Rightarrow> Some (usb_err LIBHOTH_ERR_MALLOC_FAILED, (None, s1))
             | (True, s1) \<Rightarrow>
                 (case libhoth_usb_device_open usb dev (opt_usb_ctx opts) (opt_timeout_us opts) (opt_prng_seed opts) None s1 of
                    None \<Rightarrow> None
                  | Some (ret, (ctx, s2)) \<Rightarrow>
                      if ret \<noteq> HOTH_SUCCESS then Some (ret, (None, s2)) else Some (HOTH_SUCCESS, (ctx, s2))))))"

section \<open>Reconnecting\<close>

partial_function (option) usb_reconnect_loop ::
  "('d, 's) libusb \<Rightarrow> libhoth_usb_device \<Rightarrow> u64 \<Rightarrow> 's \<Rightarrow> (libhoth_error \<times> 's usb_state) option" where
  "usb_reconnect_loop usb d start_time_ms s =
    (case libhoth_usb_get_device usb (usb_ctx d) (Some (loc d)) s of
       (Inr dev, s1) \<Rightarrow>
         (case usb_clock usb s1 of
            (ts, s2) \<Rightarrow>
              (case libhoth_prng_seed ts (usb_getpid usb) of
                 None \<Rightarrow> None
               | Some seed \<Rightarrow>
                   (case libhoth_usb_close_internal usb d s2 of
                      (_, d1, s3) \<Rightarrow>
                        libhoth_usb_device_open usb dev (usb_ctx d) (claim_timeout_us d) seed (Some d1) s3)))
     | (Inl ret, s1) \<Rightarrow>
         (case usb_clock usb s1 of
            (ts, s2) \<Rightarrow>
              (case libhoth_get_monotonic_ms ts of
                 None \<Rightarrow> None
               | Some current_time_ms \<Rightarrow>
                   if 60 * 1000 \<le> current_time_ms - start_time_ms then Some (usb_err_libusb ret, (Some d, s2))
                   else usb_reconnect_loop usb d start_time_ms (usb_sleep usb (100 * 1000) s2))))"

definition libhoth_usb_reconnect ::
  "('d, 's) libusb \<Rightarrow> 's usb_state \<Rightarrow> (libhoth_error \<times> 's usb_state) option" where
  "libhoth_usb_reconnect usb p =
    (case fst p of None \<Rightarrow> Some (usb_err_libusb LIBUSB_ERROR_INVALID_PARAM, p)
     | Some d \<Rightarrow>
         (case usb_clock usb (snd p) of
            (ts, s1) \<Rightarrow>
              (case libhoth_get_monotonic_ms ts of
                 None \<Rightarrow> None
               | Some start_time_ms \<Rightarrow> usb_reconnect_loop usb d start_time_ms s1)))"

section \<open>The device table\<close>

text \<open>
  Its entries are total functions: a call that never returns is given an error here, and so are
  claim and release without a \<open>user_ctx\<close>, which crash.
\<close>

definition or_error :: "('a \<times> 's usb_state) option \<Rightarrow> 'a \<Rightarrow> 's usb_state \<Rightarrow> 'a \<times> 's usb_state" where
  "or_error r e p = (case r of Some x \<Rightarrow> x | None \<Rightarrow> (e, p))"

definition on_usb_device ::
  "(libhoth_usb_device \<Rightarrow> 's \<Rightarrow> libhoth_error \<times> 's) \<Rightarrow> 's usb_state \<Rightarrow> libhoth_error \<times> 's usb_state" where
  "on_usb_device f p =
    (case fst p of None \<Rightarrow> (usb_err_libusb LIBUSB_ERROR_OTHER, p)
     | Some d \<Rightarrow> (let (e, s') = f d (snd p) in (e, (Some d, s'))))"

definition usb_device :: "('d, 's) libusb \<Rightarrow> 's usb_state libhoth_device" where
  "usb_device usb =
    \<lparr>dev_send = (\<lambda>request p. or_error (libhoth_usb_send_request usb request p) (usb_err_libusb LIBUSB_ERROR_OTHER) p),
     dev_receive = (\<lambda>max_size timeout_ms p.
       or_error (libhoth_usb_receive_response usb max_size timeout_ms p) (usb_err_libusb LIBUSB_ERROR_OTHER, []) p),
     dev_close = libhoth_usb_close usb,
     dev_claim = on_usb_device (libhoth_usb_claim usb), dev_release = on_usb_device (libhoth_usb_release usb),
     dev_reconnect = Some (\<lambda>p. or_error (libhoth_usb_reconnect usb p) (usb_err_libusb LIBUSB_ERROR_OTHER) p)\<rparr>"

section \<open>The interface of the library\<close>

lemma usb_err_libusb_success [simp]: "usb_err_libusb e = HOTH_SUCCESS \<longleftrightarrow> e = 0"
  by (auto simp: usb_err_libusb_def hoth_err_neq_0 LIBUSB_SUCCESS_def HOTH_SUCCESS_def)

lemma usb_err_libhoth_success [simp]: "usb_err_libhoth e = HOTH_SUCCESS \<longleftrightarrow> e = 0"
  by (auto simp: usb_err_libhoth_def hoth_err_neq_0 HOTH_SUCCESS_def)

lemma wrap_usb_err_success [simp]: "wrap_usb_err e = HOTH_SUCCESS \<longleftrightarrow> e = 0"
  by (simp add: wrap_usb_err_def)

lemma expected_after_le:
  "expected_after offset len response expected = Some e \<Longrightarrow> e \<le> expected"
proof -
  assume a: "expected_after offset len response expected = Some e"
  have "(word_of_nat k :: u32) \<le> expected" if "k < unat expected" for k
    using that unat_bound [of expected] by (simp add: word_le_nat_alt unat_of_nat)
  with a show ?thesis
    by (auto simp: expected_after_def Let_def simp del: of_nat_add split: if_splits)
qed

lemma mailbox_receive_expected:
  assumes "mailbox_receive_loop usb d p t offset expected packet response s = Some ((st, e, r), s')"
  shows "e \<le> expected"
proof -
  have "mailbox_receive_loop usb d p t offset expected packet response s = Some x \<Longrightarrow> fst (snd (fst x)) \<le> expected" for x
  proof (induction usb d p t offset expected packet response s x
      rule: mailbox_receive_loop.raw_induct [rotated, consumes 1, case_names step])
    case (step f usb d p t offset expected packet response s x)
    let ?len = "piece_length (word_of_nat (length response)) offset p"
    obtain status n packet' s1 where r: "mailbox_read_piece usb d t offset ?len packet s = ((status, n, packet'), s1)"
      by (metis prod.exhaust)
    let ?r = "memcpy_at (unat offset) (byte_range sizeof_mailbox_response (unat ?len) packet') response"
    show ?case
    proof (cases "expected_after offset ?len ?r expected")
      case None
      with step(2) show ?thesis by (auto simp: r Let_def split: if_splits)
    next
      case (Some e1)
      note le = expected_after_le [OF Some]
      show ?thesis
      proof (cases "offset < expected \<and> status = 0 \<and> \<not> word_of_nat n < p")
        case True
        with step(2) Some have "f usb d p t (offset + ucast ?len) e1 packet' ?r s1 = Some x"
          by (simp add: r Let_def)
        from step(1) [OF this] le show ?thesis by simp
      next
        case False
        with step(2) Some le show ?thesis by (auto simp: r Let_def split: if_splits)
      qed
    qed
  qed
  from this [OF assms] show ?thesis by simp
qed

lemma mailbox_response_bounded:
  assumes "libhoth_usb_mailbox_receive_response stk usb d buf t s = Some ((st, resp), s')"
  shows "length resp \<le> length buf"
proof -
  have "unat (word_of_nat (length buf) :: u32) \<le> length buf" by (simp add: unat_of_nat)
  then show ?thesis
    using assms
    by (auto simp: libhoth_usb_mailbox_receive_response_def word_le_nat_alt split: if_splits dest!: mailbox_receive_expected)
qed

interpretation usb: transport "usb_device usb" for usb :: "('d, 's) libusb"
proof
  show "length resp \<le> max_size"
    if run: "dev_receive (usb_device usb) max_size timeout_ms p = ((HOTH_SUCCESS, resp), p')"
    for max_size timeout_ms p resp p'
  proof -
    have "libhoth_usb_receive_response usb max_size timeout_ms p = Some ((HOTH_SUCCESS, resp), p')"
      using run by (simp add: usb_device_def or_error_def LIBUSB_ERROR_OTHER_def split: option.splits)
    then show ?thesis
      by (auto simp: libhoth_usb_receive_response_def libusb_errors
          split: option.splits if_splits libhoth_usb_interface_type.splits
          dest!: fifo_own_response mailbox_response_bounded)
  qed
qed

section \<open>Waiting for access\<close>

lemma LIBUSB_ERROR_ACCESS_neq_0 [simp]: "LIBUSB_ERROR_ACCESS \<noteq> 0" by (simp add: LIBUSB_ERROR_ACCESS_def)

lemma access_denied [simp]:
  "sint (LIBHOTH_ERR_GET_CODE (usb_err_libusb LIBUSB_ERROR_ACCESS)) = LIBUSB_ERROR_ACCESS"
proof -
  have "LIBHOTH_ERR_GET_CODE (usb_err_libusb LIBUSB_ERROR_ACCESS) = ucast (word_of_int (- 3) :: u64)"
    by (simp only: usb_err_libusb_def LIBUSB_ERROR_ACCESS_def LIBUSB_SUCCESS_def err_construct_roundtrip) simp
  then show ?thesis by (simp add: LIBUSB_ERROR_ACCESS_def)
qed

text \<open>What \<open>libusb_open\<close> does while access stays denied, with the time slept as part of the state.\<close>

definition always_denied :: "('d, 's) libusb \<Rightarrow> 'd \<Rightarrow> ('s \<Rightarrow> nat) \<Rightarrow> bool" where
  "always_denied usb dev slept \<longleftrightarrow>
    (\<forall>s. fst (usb_open_device usb dev s) = LIBUSB_ERROR_ACCESS \<and> slept (snd (usb_open_device usb dev s)) = slept s) \<and>
    (\<forall>us s. slept (usb_sleep usb us s) = slept s + us)"

lemma open_retry_step:
  assumes "always_denied usb dev slept"
  shows "\<exists>s1. slept s1 = slept s \<and> open_retry_loop usb dev timeout_us wait s =
    (if timeout_us \<le> wait then Some (usb_err_libusb LIBUSB_ERROR_ACCESS, s1)
     else open_retry_loop usb dev timeout_us (wait + 1000) (usb_sleep usb 1000 s1))"
proof -
  obtain ret s1 where o: "usb_open_device usb dev s = (ret, s1)" by (cases "usb_open_device usb dev s")
  with assms have "ret = LIBUSB_ERROR_ACCESS" "slept s1 = slept s"
    unfolding always_denied_def by (metis fst_conv, metis snd_conv)
  with o show ?thesis
    by (intro exI [of _ s1]) (subst open_retry_loop.simps, simp)
qed

lemma open_retry_returns:
  assumes "always_denied usb dev slept" and "unat timeout_us \<le> 4294967000"
  shows "unat wait = 1000 * k \<Longrightarrow> 1000 * k \<le> 4294967000 \<Longrightarrow>
    \<exists>s'. open_retry_loop usb dev timeout_us wait s = Some (usb_err_libusb LIBUSB_ERROR_ACCESS, s') \<and>
      slept s' = slept s + 1000 * ((unat timeout_us + 999) div 1000 - k)"
proof (induction "unat timeout_us - unat wait" arbitrary: wait k s rule: less_induct)
  case less
  from open_retry_step [OF assms(1), of s timeout_us wait] obtain s1 where s1: "slept s1 = slept s"
    "open_retry_loop usb dev timeout_us wait s =
      (if timeout_us \<le> wait then Some (usb_err_libusb LIBUSB_ERROR_ACCESS, s1)
       else open_retry_loop usb dev timeout_us (wait + 1000) (usb_sleep usb 1000 s1))" by blast
  show ?case
  proof (cases "timeout_us \<le> wait")
    case True
    then have "(unat timeout_us + 999) div 1000 - k = 0" using less.prems by (simp add: word_le_nat_alt)
    with True s1 show ?thesis by simp
  next
    case False
    then have lt: "1000 * k < unat timeout_us" using less.prems by (simp add: word_le_nat_alt)
    then have "k < 4294967" using assms(2) by linarith
    then have "1000 * Suc k \<le> 1000 * 4294967" by (intro mult_le_mono2) simp
    then have k: "1000 * Suc k \<le> 4294967000" by simp
    then have w: "unat (wait + 1000) = 1000 * Suc k" using less.prems by (simp add: unat_word_ariths)
    have "slept (usb_sleep usb 1000 s1) = slept s + 1000" using assms(1) s1(1) by (simp add: always_denied_def)
    moreover have "(unat timeout_us + 999) div 1000 - k = Suc ((unat timeout_us + 999) div 1000 - Suc k)"
      using lt by linarith
    moreover have "unat timeout_us - unat (wait + 1000) < unat timeout_us - unat wait"
      using w less.prems(1) lt by simp
    ultimately show ?thesis
      using less.hyps [OF _ w k, of "usb_sleep usb 1000 s1"] False s1(2) by (simp add: add.assoc)
  qed
qed

text \<open>The counter runs through the multiples of 8 when it wraps around, none of which is larger.\<close>

lemma open_retry_diverges:
  assumes "always_denied usb dev slept" and "4294967288 < unat timeout_us"
  shows "open_retry_loop usb dev timeout_us 0 s = None"
proof -
  have "open_retry_loop usb' dev' t wait s = Some r \<Longrightarrow> usb' = usb \<Longrightarrow> dev' = dev \<Longrightarrow> t = timeout_us \<Longrightarrow>
      8 dvd unat wait \<Longrightarrow> False" for usb' dev' t wait s r
  proof (induction usb' dev' t wait s r rule: open_retry_loop.raw_induct [rotated, consumes 1, case_names step])
    case (step f usb' dev' t wait s r)
    obtain ret s1 where o: "usb_open_device usb dev s = (ret, s1)" by (cases "usb_open_device usb dev s")
    with assms(1) have ret: "ret = LIBUSB_ERROR_ACCESS" unfolding always_denied_def by (metis fst_conv)
    have "unat wait \<le> 4294967288" using step.prems(4) unat_bound [of wait] by (auto elim!: dvdE)
    then have "\<not> timeout_us \<le> wait" using assms(2) by (simp add: word_le_nat_alt)
    with step(2) step.prems have rec: "f usb dev timeout_us (wait + 1000) (usb_sleep usb 1000 s1) = Some r"
      by (simp add: o ret)
    have "8 dvd unat (wait + 1000)"
      using step.prems(4) by (simp add: unat_word_ariths dvd_mod)
    from step(1) [OF rec refl refl refl this] show False .
  qed
  then show ?thesis by (metis dvd_0_right not_None_eq unat_0)
qed

text \<open>
  C33: while access to the device stays denied, opening gives up after the timeout, rounded up to
  milliseconds, for every timeout up to about 4294.967 seconds; with a timeout that is larger than every
  multiple of 8 below \<open>2 ^ 32\<close> it never returns, because the 32-bit wait counter wraps around.
\<close>

theorem usb_open_retry:
  assumes "always_denied usb dev slept"
  shows "(unat timeout_us \<le> 4294967000 \<longrightarrow>
      (\<exists>s'. open_retry_loop usb dev timeout_us 0 s = Some (usb_err_libusb LIBUSB_ERROR_ACCESS, s') \<and>
        slept s' = slept s + 1000 * ((unat timeout_us + 999) div 1000))) \<and>
    (4294967288 < unat timeout_us \<longrightarrow> open_retry_loop usb dev timeout_us 0 s = None)"
  using open_retry_returns [OF assms, of timeout_us 0 0 s] open_retry_diverges [OF assms, of timeout_us s] by auto

text \<open>A device that nobody may open; the state counts the microseconds.\<close>

definition denied_usb :: "(unit, nat) libusb" where
  "denied_usb = \<lparr>usb_bulk = \<lparr>bulk_out = (\<lambda>_ _ _ s. ((0, 0), s)), bulk_in = (\<lambda>_ _ _ s. ((0, []), s))\<rparr>,
     usb_async = \<lparr>submit_in = (\<lambda>_ _ _ s. (0, s)), submit_out = (\<lambda>_ _ _ s. (0, s)), cancel = (\<lambda>_ s. s),
       handle_events = (\<lambda>s. ((0, None), s)), clear_halt = (\<lambda>_ s. (0, s)), alloc = (\<lambda>s. (True, s))\<rparr>,
     usb_device_ids = (\<lambda>_ s. ((0, HOTH_VENDOR_ID, HOTH_D_PRODUCT_ID), s)), usb_active_config = (\<lambda>_ s. ((0, []), s)),
     usb_bus_number = (\<lambda>_. 1), usb_port_numbers = (\<lambda>_. Inr [2]), usb_device_list = (\<lambda>s. (Inr [()], s)),
     usb_open_device = (\<lambda>_ s. (LIBUSB_ERROR_ACCESS, s)), usb_close_device = (\<lambda>s. s),
     usb_claim_interface = (\<lambda>_ s. (0, s)), usb_release_interface = (\<lambda>_ s. (0, s)),
     usb_clock = (\<lambda>s. (Some \<lparr>tv_sec = 0, tv_nsec = int s * 1000\<rparr>, s)), usb_getpid = 1,
     usb_sleep = (\<lambda>us s. s + us), usb_calloc = (\<lambda>s. (True, s)), uninit = (\<lambda>n. replicate n 0)\<rparr>"

lemma denied_usb_denied: "always_denied denied_usb () id"
  by (simp add: always_denied_def denied_usb_def)

theorem usb_open_retry_witness:
  "open_retry_loop denied_usb () 2500 0 0 = Some (usb_err_libusb LIBUSB_ERROR_ACCESS, 3000) \<and>
    open_retry_loop denied_usb () 0xFFFFFFFF 0 0 = None"
  using usb_open_retry [OF denied_usb_denied, of 2500 0] usb_open_retry [OF denied_usb_denied, of "0xFFFFFFFF" 0]
  by simp

end
