(* ===== verification/Dbus.thy ===== *)
theory Dbus
  imports Hoth_Device
begin

text \<open>
  \<open>transports/libhoth_dbus.c\<close>: the D-Bus transport, which keeps the request of \<open>send\<close> as a message
  until \<open>receive\<close> calls the daemon with it. sd-bus and memory allocation are parameters; a message
  is known by its address, with 0 for NULL. A crash and a signed overflow are \<open>None\<close>.
\<close>

section \<open>The bus and the device\<close>

definition HOTHD_SERVICE :: string where "HOTHD_SERVICE = ''xyz.openbmc_project.Control.Hoth''"
definition HOTHD_OBJECT :: string where "HOTHD_OBJECT = ''/xyz/openbmc_project/Control/Hoth''"
definition HOTHD_INTERFACE :: string where "HOTHD_INTERFACE = ''xyz.openbmc_project.Control.Hoth''"
definition SEND_HOST_CMD_METHOD :: string where "SEND_HOST_CMD_METHOD = ''SendHostCommand''"

text \<open>
  The output message of \<open>new_method_call\<close> and of \<open>bus_call\<close> is what the variable holds afterwards,
  which was NULL before.
\<close>

record 's sd_bus =
  open_system :: "'s \<Rightarrow> int \<times> 's"
  bus_unref :: "'s \<Rightarrow> 's"
  new_method_call :: "string \<Rightarrow> string \<Rightarrow> string \<Rightarrow> string \<Rightarrow> 's \<Rightarrow> (int \<times> nat) \<times> 's"
  append_array :: "nat \<Rightarrow> bytes \<Rightarrow> 's \<Rightarrow> int \<times> 's"
  bus_call :: "nat \<Rightarrow> u64 \<Rightarrow> 's \<Rightarrow> (int \<times> nat) \<times> 's"
  read_array :: "nat \<Rightarrow> 's \<Rightarrow> (int \<times> bytes) \<times> 's"
  message_unref :: "nat \<Rightarrow> 's \<Rightarrow> 's"
  dbus_calloc :: "'s \<Rightarrow> bool \<times> 's"

record libhoth_dbus_device =
  dbus_request :: nat
  dbus_service :: string
  dbus_object :: string

type_synonym 's dbus_state = "libhoth_dbus_device option \<times> 's"

definition dbus_err_posix :: "int \<Rightarrow> libhoth_error" where
  "dbus_err_posix errnum =
    (if errnum = 0 then HOTH_SUCCESS else hoth_err HOTH_CTX_INIT HOTH_HOST_SPACE_POSIX (word_of_int errnum))"

definition dbus_err_libhoth :: "libhoth_status \<Rightarrow> libhoth_error" where
  "dbus_err_libhoth st = (if st = LIBHOTH_OK then HOTH_SUCCESS else init_err st)"

section \<open>Sending and receiving\<close>

definition dbus_send :: "'s sd_bus \<Rightarrow> bytes \<Rightarrow> libhoth_dbus_device \<Rightarrow> 's \<Rightarrow> libhoth_error \<times> libhoth_dbus_device \<times> 's" where
  "dbus_send sdb request ctx s =
    (let s0 = (if dbus_request ctx \<noteq> 0 then message_unref sdb (dbus_request ctx) s else s);
         ctx = ctx\<lparr>dbus_request := 0\<rparr>;
         ((rv, message), s1) = new_method_call sdb (dbus_service ctx) (dbus_object ctx) HOTHD_INTERFACE SEND_HOST_CMD_METHOD s0
     in if rv < 0 then (dbus_err_posix (- rv), ctx, message_unref sdb message s1)
        else
          let (rv, s2) = append_array sdb message request s1
          in if rv < 0 then (dbus_err_posix (- rv), ctx, message_unref sdb message s2)
             else (HOTH_SUCCESS, ctx\<lparr>dbus_request := message\<rparr>, s2))"

text \<open>\<open>timeout_ms * 1000\<close> is computed as an \<open>int\<close>.\<close>

definition timeout_fits :: "int \<Rightarrow> bool" where
  "timeout_fits timeout_ms \<longleftrightarrow> - (2 ^ 31) \<le> timeout_ms * 1000 \<and> timeout_ms * 1000 < 2 ^ 31"

definition dbus_receive ::
  "'s sd_bus \<Rightarrow> nat \<Rightarrow> int \<Rightarrow> libhoth_dbus_device \<Rightarrow> 's \<Rightarrow> ((libhoth_error \<times> bytes) \<times> libhoth_dbus_device \<times> 's) option" where
  "dbus_receive sdb max_response_size timeout_ms ctx s =
    (let cleanup = (\<lambda>reply rc s. ((rc, ctx\<lparr>dbus_request := 0\<rparr>, message_unref sdb (dbus_request ctx) (message_unref sdb reply s))))
     in if dbus_request ctx = 0
        then Some (case cleanup 0 (dbus_err_libhoth LIBHOTH_ERR_FAIL) s of (rc, p) \<Rightarrow> ((rc, []), p))
        else if \<not> timeout_fits timeout_ms then None
        else
          let ((rv, reply), s1) = bus_call sdb (dbus_request ctx) (word_of_int (timeout_ms * 1000)) s
          in if rv < 0 then Some (case cleanup reply (dbus_err_posix (- rv)) s1 of (rc, p) \<Rightarrow> ((rc, []), p))
             else
               let ((rv, buf), s2) = read_array sdb reply s1
               in if rv < 0 then Some (case cleanup reply (dbus_err_posix (- rv)) s2 of (rc, p) \<Rightarrow> ((rc, []), p))
                  else if max_response_size < length buf
                  then Some (case cleanup reply (dbus_err_libhoth LIBHOTH_ERR_RESPONSE_BUFFER_OVERFLOW) s2 of (rc, p) \<Rightarrow> ((rc, []), p))
                  else Some (case cleanup reply HOTH_SUCCESS s2 of (rc, p) \<Rightarrow> ((rc, buf), p)))"

definition dbus_close :: "'s sd_bus \<Rightarrow> libhoth_dbus_device \<Rightarrow> 's \<Rightarrow> libhoth_error \<times> 's dbus_state" where
  "dbus_close sdb ctx s = (HOTH_SUCCESS, (None, bus_unref sdb (message_unref sdb (dbus_request ctx) s)))"

definition dbus_claim :: "'p \<Rightarrow> libhoth_error \<times> 'p" where "dbus_claim p = (HOTH_SUCCESS, p)"
definition dbus_release :: "'p \<Rightarrow> libhoth_error \<times> 'p" where "dbus_release p = (HOTH_SUCCESS, p)"
definition dbus_reconnect :: "'p \<Rightarrow> libhoth_error \<times> 'p" where "dbus_reconnect p = (HOTH_SUCCESS, p)"

text \<open>
  The table. Its entries are total functions: a call that has no result is given an error here. A
  device without a context has been closed; no function may be called on it.
\<close>

definition dbus_device :: "'s sd_bus \<Rightarrow> 's dbus_state libhoth_device" where
  "dbus_device sdb =
    \<lparr>dev_send = (\<lambda>request p.
       case fst p of None \<Rightarrow> (dbus_err_libhoth LIBHOTH_ERR_FAIL, p)
       | Some ctx \<Rightarrow> (let (rc, ctx', s') = dbus_send sdb request ctx (snd p) in (rc, (Some ctx', s')))),
     dev_receive = (\<lambda>max_size timeout_ms p.
       case fst p of None \<Rightarrow> ((dbus_err_libhoth LIBHOTH_ERR_FAIL, []), p)
       | Some ctx \<Rightarrow>
           (case dbus_receive sdb max_size timeout_ms ctx (snd p) of
              None \<Rightarrow> ((dbus_err_libhoth LIBHOTH_ERR_FAIL, []), p)
            | Some (r, ctx', s') \<Rightarrow> (r, (Some ctx', s')))),
     dev_close = (\<lambda>p. case fst p of None \<Rightarrow> (dbus_err_libhoth LIBHOTH_ERR_FAIL, p)
       | Some ctx \<Rightarrow> dbus_close sdb ctx (snd p)),
     dev_claim = dbus_claim, dev_release = dbus_release, dev_reconnect = Some dbus_reconnect\<rparr>"

section \<open>Opening\<close>

definition with_hoth_id :: "'s sd_bus \<Rightarrow> string \<Rightarrow> char \<Rightarrow> string \<Rightarrow> 's \<Rightarrow> string option \<times> 's" where
  "with_hoth_id sdb base delimiter hoth_id s =
    (case dbus_calloc sdb s of
       (False, s') \<Rightarrow> (None, s')
     | (True, s') \<Rightarrow> (Some (if hoth_id = [] then base else base @ [delimiter] @ hoth_id), s'))"

text \<open>
  \<open>options\<close> is the pointer to the options, with the \<open>hoth_id\<close> in them, \<open>out\<close> whether the output
  pointer is not NULL; it is written before it is tested. The result is the context of the device.
\<close>

definition libhoth_dbus_open ::
  "'s sd_bus \<Rightarrow> string option option \<Rightarrow> bool \<Rightarrow> 's \<Rightarrow> ((libhoth_error + libhoth_dbus_device) \<times> 's) option" where
  "libhoth_dbus_open sdb options out s =
    (if \<not> out then None
     else case options of
       None \<Rightarrow> Some (Inl (dbus_err_libhoth LIBHOTH_ERR_INVALID_PARAMETER), s)
     | Some None \<Rightarrow> Some (Inl (dbus_err_libhoth LIBHOTH_ERR_INVALID_PARAMETER), s)
     | Some (Some hoth_id) \<Rightarrow>
         (case open_system sdb s of
            (rv, s1) \<Rightarrow>
              if rv < 0 then Some (Inl (dbus_err_posix (- rv)), s1)
              else
                let fail = (\<lambda>s. Some (Inl (dbus_err_libhoth LIBHOTH_ERR_MALLOC_FAILED), bus_unref sdb s));
                    (dev, s2) = dbus_calloc sdb s1
                in if \<not> dev then fail s2
                   else
                     let (dbus_dev, s3) = dbus_calloc sdb s2
                     in if \<not> dbus_dev then fail s3
                        else
                          (case with_hoth_id sdb HOTHD_SERVICE CHR ''.'' hoth_id s3 of
                             (None, s4) \<Rightarrow> fail s4
                           | (Some service, s4) \<Rightarrow>
                               (case with_hoth_id sdb HOTHD_OBJECT CHR ''/'' hoth_id s4 of
                                  (None, s5) \<Rightarrow> fail s5
                                | (Some object, s5) \<Rightarrow>
                                    Some (Inr \<lparr>dbus_request = 0, dbus_service = service, dbus_object = object\<rparr>, s5)))))"

section \<open>The interface of the library\<close>

lemma dbus_err_posix_success [simp]: "dbus_err_posix e = HOTH_SUCCESS \<longleftrightarrow> e = 0"
  by (auto simp: dbus_err_posix_def hoth_err_neq_0 HOTH_SUCCESS_def)

lemma dbus_err_libhoth_success [simp]: "dbus_err_libhoth st = HOTH_SUCCESS \<longleftrightarrow> st = LIBHOTH_OK"
  by (auto simp: dbus_err_libhoth_def hoth_err_neq_0 HOTH_SUCCESS_def)

lemma dbus_receive_bounded:
  "dbus_receive sdb max_size timeout_ms ctx s = Some ((HOTH_SUCCESS, resp), ctx', s') \<Longrightarrow> length resp \<le> max_size"
  by (auto simp: dbus_receive_def Let_def split: if_splits prod.splits)

interpretation dbus: transport "dbus_device sdb" for sdb :: "'s sd_bus"
  by unfold_locales (auto simp: dbus_device_def split: option.splits intro: dbus_receive_bounded)

section \<open>One pending request\<close>

text \<open>
  What sd-bus does with messages: \<open>live\<close> are the messages that exist, \<open>body\<close> what was appended to
  them, \<open>calls\<close> the bodies of the calls that were made.
\<close>

record dbus_view =
  live :: "nat set"
  body :: "nat \<Rightarrow> bytes"
  calls :: "bytes list"

definition created :: "dbus_view \<Rightarrow> int \<Rightarrow> nat \<Rightarrow> dbus_view \<Rightarrow> bool" where
  "created v rv m v' \<longleftrightarrow>
    (if rv < 0 then m = 0 \<and> live v' = live v \<and> body v' = body v
     else m \<noteq> 0 \<and> m \<notin> live v \<and> live v' = insert m (live v) \<and> (\<forall>k. k \<noteq> m \<longrightarrow> body v' k = body v k))"

definition sd_bus_ok :: "'s sd_bus \<Rightarrow> ('s \<Rightarrow> dbus_view) \<Rightarrow> bool" where
  "sd_bus_ok sdb view \<longleftrightarrow>
    (\<forall>sv ob i me s rv m s'. new_method_call sdb sv ob i me s = ((rv, m), s') \<longrightarrow>
      created (view s) rv m (view s') \<and> calls (view s') = calls (view s) \<and> (0 \<le> rv \<longrightarrow> body (view s') m = [])) \<and>
    (\<forall>m bs s rv s'. append_array sdb m bs s = (rv, s') \<longrightarrow>
      live (view s') = live (view s) \<and> calls (view s') = calls (view s) \<and>
      (0 \<le> rv \<longrightarrow> body (view s') = (body (view s))(m := body (view s) m @ bs))) \<and>
    (\<forall>m t s rv r s'. bus_call sdb m t s = ((rv, r), s') \<longrightarrow>
      created (view s) rv r (view s') \<and> calls (view s') = calls (view s) @ [body (view s) m]) \<and>
    (\<forall>r s rv buf s'. read_array sdb r s = ((rv, buf), s') \<longrightarrow> view s' = view s) \<and>
    (\<forall>m s. live (view (message_unref sdb m s)) = live (view s) - {m} \<and>
      calls (view (message_unref sdb m s)) = calls (view s) \<and>
      (\<forall>k. k \<noteq> m \<longrightarrow> body (view (message_unref sdb m s)) k = body (view s) k))"

lemma sd_bus_okD:
  assumes "sd_bus_ok sdb view"
  shows "new_method_call sdb sv ob i me s = ((rv, m), s') \<Longrightarrow>
      created (view s) rv m (view s') \<and> calls (view s') = calls (view s) \<and> (0 \<le> rv \<longrightarrow> body (view s') m = [])"
    and "append_array sdb m bs s = (rv, s') \<Longrightarrow>
      live (view s') = live (view s) \<and> calls (view s') = calls (view s) \<and>
      (0 \<le> rv \<longrightarrow> body (view s') = (body (view s))(m := body (view s) m @ bs))"
    and "bus_call sdb m t s = ((rv, r), s') \<Longrightarrow>
      created (view s) rv r (view s') \<and> calls (view s') = calls (view s) @ [body (view s) m]"
    and "read_array sdb r s = ((rv, buf), s') \<Longrightarrow> view s' = view s"
    and "live (view (message_unref sdb m s)) = live (view s) - {m}"
    and "calls (view (message_unref sdb m s)) = calls (view s)"
    and "k \<noteq> m \<Longrightarrow> body (view (message_unref sdb m s)) k = body (view s) k"
proof -
  note a = assms [unfolded sd_bus_ok_def]
  show "new_method_call sdb sv ob i me s = ((rv, m), s') \<Longrightarrow>
      created (view s) rv m (view s') \<and> calls (view s') = calls (view s) \<and> (0 \<le> rv \<longrightarrow> body (view s') m = [])"
    using a [THEN conjunct1] by meson
  show "append_array sdb m bs s = (rv, s') \<Longrightarrow>
      live (view s') = live (view s) \<and> calls (view s') = calls (view s) \<and>
      (0 \<le> rv \<longrightarrow> body (view s') = (body (view s))(m := body (view s) m @ bs))"
    using a [THEN conjunct2, THEN conjunct1] by meson
  show "bus_call sdb m t s = ((rv, r), s') \<Longrightarrow>
      created (view s) rv r (view s') \<and> calls (view s') = calls (view s) @ [body (view s) m]"
    using a [THEN conjunct2, THEN conjunct2, THEN conjunct1] by meson
  show "read_array sdb r s = ((rv, buf), s') \<Longrightarrow> view s' = view s"
    using a [THEN conjunct2, THEN conjunct2, THEN conjunct2, THEN conjunct1] by meson
  note u = a [THEN conjunct2, THEN conjunct2, THEN conjunct2, THEN conjunct2, rule_format]
  show "live (view (message_unref sdb m s)) = live (view s) - {m}"
    and "calls (view (message_unref sdb m s)) = calls (view s)" using u by simp_all
  show "k \<noteq> m \<Longrightarrow> body (view (message_unref sdb m s)) k = body (view s) k"
    using u [THEN conjunct2, THEN conjunct2] by blast
qed

text \<open>The device holds \<open>pend\<close>: the message of it is the only one there is.\<close>

definition holds :: "('s \<Rightarrow> dbus_view) \<Rightarrow> bytes option \<Rightarrow> libhoth_dbus_device \<Rightarrow> 's \<Rightarrow> bool" where
  "holds view pend ctx s \<longleftrightarrow>
    live (view s) = (if dbus_request ctx = 0 then {} else {dbus_request ctx}) \<and>
    (case pend of None \<Rightarrow> dbus_request ctx = 0
     | Some r \<Rightarrow> dbus_request ctx \<noteq> 0 \<and> body (view s) (dbus_request ctx) = r)"

lemma holds_None: "holds view None ctx s \<longleftrightarrow> dbus_request ctx = 0 \<and> live (view s) = {}"
  by (auto simp: holds_def)

lemma dbus_send_slot:
  assumes ok: "sd_bus_ok sdb view" and h: "holds view pend ctx s"
    and run: "dbus_send sdb request ctx s = (e, ctx', s')"
  shows "holds view (if e = HOTH_SUCCESS then Some request else None) ctx' s' \<and> calls (view s') = calls (view s)"
proof -
  define s0 where "s0 = (if dbus_request ctx \<noteq> 0 then message_unref sdb (dbus_request ctx) s else s)"
  have s0: "live (view s0) = {}" "calls (view s0) = calls (view s)"
    using h by (auto simp: s0_def holds_def sd_bus_okD(5,6) [OF ok] split: if_splits)
  obtain rv m s1 where n: "new_method_call sdb (dbus_service ctx) (dbus_object ctx) HOTHD_INTERFACE SEND_HOST_CMD_METHOD s0 =
      ((rv, m), s1)" by (metis prod.exhaust)
  note N = sd_bus_okD(1) [OF ok n]
  note run = run [unfolded dbus_send_def Let_def, folded s0_def]
  show ?thesis
  proof (cases "rv < 0")
    case True
    with run n N s0 show ?thesis
      by (auto simp: holds_None created_def sd_bus_okD(5,6) [OF ok])
  next
    case False
    obtain rv2 s2 where a: "append_array sdb m request s1 = (rv2, s2)" by (metis prod.exhaust)
    note A = sd_bus_okD(2) [OF ok a]
    show ?thesis
    proof (cases "rv2 < 0")
      case True
      with run n N A a False s0 show ?thesis
        by (auto simp: holds_None created_def sd_bus_okD(5,6) [OF ok])
    next
      case nonneg: False
      with run n a False have "e = HOTH_SUCCESS" "ctx' = ctx\<lparr>dbus_request := m\<rparr>" "s' = s2"
        by auto
      with N A nonneg False s0 show ?thesis by (auto simp: holds_def created_def)
    qed
  qed
qed

lemma dbus_cleanup_slot:
  assumes "sd_bus_ok sdb view" and "live (view s) \<subseteq> {dbus_request ctx, reply}"
  shows "holds view None (ctx\<lparr>dbus_request := 0\<rparr>) (message_unref sdb (dbus_request ctx) (message_unref sdb reply s))"
  using assms(2) by (auto simp: holds_None sd_bus_okD(5) [OF assms(1)])

lemma dbus_receive_slot:
  assumes ok: "sd_bus_ok sdb view" and h: "holds view pend ctx s"
    and run: "dbus_receive sdb max_size timeout_ms ctx s = Some (r, ctx', s')"
  shows "holds view None ctx' s' \<and> calls (view s') = calls (view s) @ (case pend of None \<Rightarrow> [] | Some q \<Rightarrow> [q])"
proof (cases pend)
  case None
  with h have "dbus_request ctx = 0" "live (view s) = {}" by (simp_all add: holds_None)
  with run None show ?thesis
    by (auto simp: dbus_receive_def holds_None sd_bus_okD(5,6) [OF ok])
next
  case (Some q)
  with h have m: "dbus_request ctx \<noteq> 0" "body (view s) (dbus_request ctx) = q" "live (view s) = {dbus_request ctx}"
    by (auto simp: holds_def)
  obtain rv reply s1 where c: "bus_call sdb (dbus_request ctx) (word_of_int (timeout_ms * 1000)) s = ((rv, reply), s1)"
    by (metis prod.exhaust)
  obtain rv2 buf s2 where b: "read_array sdb reply s1 = ((rv2, buf), s2)" by (metis prod.exhaust)
  have C: "live (view s1) \<subseteq> {dbus_request ctx, reply}" "calls (view s1) = calls (view s) @ [q]"
    using sd_bus_okD(3) [OF ok c] m by (auto simp: created_def split: if_splits)
  have B: "view s2 = view s1" using sd_bus_okD(4) [OF ok b] .
  have "\<exists>t. view t = view s1 \<and> ctx' = ctx\<lparr>dbus_request := 0\<rparr> \<and>
      s' = message_unref sdb (dbus_request ctx) (message_unref sdb reply t)"
    using run m(1) c b B by (auto simp: dbus_receive_def Let_def split: if_splits)
  then obtain t where t: "view t = view s1" "ctx' = ctx\<lparr>dbus_request := 0\<rparr>"
      "s' = message_unref sdb (dbus_request ctx) (message_unref sdb reply t)" by blast
  show ?thesis
    using dbus_cleanup_slot [OF ok, of t ctx reply] C t Some by (simp add: sd_bus_okD(6) [OF ok])
qed

text \<open>
  Runs of the device from a fresh context, beside the abstract device: at most one pending request
  and the list of the requests that were called.
\<close>

inductive dbus_run ::
  "'s sd_bus \<Rightarrow> 's dbus_state \<Rightarrow> bytes option \<Rightarrow> bytes list \<Rightarrow> 's dbus_state \<Rightarrow> bool"
  for sdb p0 where
  start: "dbus_run sdb p0 None [] p0"
| send: "dbus_run sdb p0 pend log p \<Longrightarrow> dev_send (dbus_device sdb) request p = (e, p') \<Longrightarrow>
    dbus_run sdb p0 (if e = HOTH_SUCCESS then Some request else None) log p'"
| receive: "dbus_run sdb p0 pend log p \<Longrightarrow> timeout_fits timeout_ms \<Longrightarrow>
    dev_receive (dbus_device sdb) max_size timeout_ms p = (r, p') \<Longrightarrow>
    dbus_run sdb p0 None (log @ (case pend of None \<Rightarrow> [] | Some q \<Rightarrow> [q])) p'"

lemma dbus_run_slot:
  "dbus_run sdb p0 pend log p \<Longrightarrow> sd_bus_ok sdb view \<Longrightarrow> fst p0 = Some ctx0 \<Longrightarrow> holds view None ctx0 (snd p0) \<Longrightarrow>
    \<exists>ctx. fst p = Some ctx \<and> holds view pend ctx (snd p) \<and> calls (view (snd p)) = calls (view (snd p0)) @ log"
proof (induction rule: dbus_run.induct)
  case start
  then show ?case by auto
next
  case (send pend log p request e p')
  then obtain ctx where p: "fst p = Some ctx" "holds view pend ctx (snd p)"
    "calls (view (snd p)) = calls (view (snd p0)) @ log" by blast
  obtain e' ctx' s' where r: "dbus_send sdb request ctx (snd p) = (e', ctx', s')" by (metis prod.exhaust)
  with send.hyps(2) p(1) have "e = e'" "p' = (Some ctx', s')" by (simp_all add: dbus_device_def)
  with dbus_send_slot [OF send.prems(1) p(2) r] p(3) show ?case by simp
next
  case (receive pend log p timeout_ms max_size r p')
  then obtain ctx where p: "fst p = Some ctx" "holds view pend ctx (snd p)"
    "calls (view (snd p)) = calls (view (snd p0)) @ log" by blast
  have "\<exists>r ctx' s'. dbus_receive sdb max_size timeout_ms ctx (snd p) = Some (r, ctx', s')"
    using receive.hyps(2) by (simp add: dbus_receive_def Let_def case_prod_unfold)
  then obtain r' ctx' s' where r: "dbus_receive sdb max_size timeout_ms ctx (snd p) = Some (r', ctx', s')" by blast
  with receive.hyps(3) p(1) have "p' = (Some ctx', s')" by (simp add: dbus_device_def)
  with dbus_receive_slot [OF receive.prems(1) p(2) r] p(3) show ?case by simp
qed

text \<open>
  C9: over any sequence of sends and receives, whether they succeed or not, the D-Bus device is a
  slot for one request: a receive calls the daemon once with exactly the bytes of the last send if
  that one was accepted, and not at all otherwise, and no message is leaked or released twice: the
  pending one is the only one that exists.
\<close>

theorem dbus_one_slot:
  assumes "dbus_run sdb (Some ctx0, s0) pend log p" and "sd_bus_ok sdb view"
    and "dbus_request ctx0 = 0" and "live (view s0) = {}"
  shows "\<exists>ctx. fst p = Some ctx \<and> calls (view (snd p)) = calls (view s0) @ log \<and>
    live (view (snd p)) = (if pend = None then {} else {dbus_request ctx}) \<and>
    (pend \<noteq> None \<longrightarrow> body (view (snd p)) (dbus_request ctx) = the pend)"
proof -
  have "holds view None ctx0 s0" using assms(3,4) by (simp add: holds_None)
  with dbus_run_slot [OF assms(1,2), of ctx0] show ?thesis
    by (auto simp: holds_def split: option.splits)
qed

text \<open>A bus that records its calls and answers each with an empty array; two sends, one receive.\<close>

definition demo_bus :: "dbus_view sd_bus" where
  "demo_bus = \<lparr>open_system = (\<lambda>v. (0, v)), bus_unref = (\<lambda>v. v),
     new_method_call = (\<lambda>_ _ _ _ v.
       if 1 \<in> live v then ((- 12, 0), v) else ((0, 1), v\<lparr>live := insert 1 (live v), body := (body v)(1 := [])\<rparr>)),
     append_array = (\<lambda>m bs v. (0, v\<lparr>body := (body v)(m := body v m @ bs)\<rparr>)),
     bus_call = (\<lambda>m _ v. if 2 \<in> live v then ((- 12, 0), v\<lparr>calls := calls v @ [body v m]\<rparr>)
       else ((0, 2), v\<lparr>live := insert 2 (live v), calls := calls v @ [body v m]\<rparr>)),
     read_array = (\<lambda>_ v. ((0, []), v)), message_unref = (\<lambda>m v. v\<lparr>live := live v - {m}\<rparr>),
     dbus_calloc = (\<lambda>v. (True, v))\<rparr>"

lemma demo_bus_ok: "sd_bus_ok demo_bus id"
  unfolding sd_bus_ok_def by (auto simp: demo_bus_def created_def split: if_splits)

theorem dbus_one_slot_witness:
  "\<exists>p ctx. dbus_run demo_bus (Some \<lparr>dbus_request = 0, dbus_service = HOTHD_SERVICE, dbus_object = HOTHD_OBJECT\<rparr>,
      \<lparr>live = {}, body = (\<lambda>_. []), calls = []\<rparr>) None [[3]] p \<and>
    fst p = Some ctx \<and> calls (snd p) = [[3]] \<and> live (snd p) = {}"
proof -
  let ?c = "\<lparr>dbus_request = 0, dbus_service = HOTHD_SERVICE, dbus_object = HOTHD_OBJECT\<rparr>"
  let ?p0 = "(Some ?c, \<lparr>live = {}, body = (\<lambda>_. []), calls = []\<rparr>)"
  have 1: "dbus_run demo_bus ?p0 (Some [1, 2]) [] (Some (?c\<lparr>dbus_request := 1\<rparr>),
      \<lparr>live = {1}, body = (\<lambda>_. [])(1 := [1, 2]), calls = []\<rparr>)"
    using dbus_run.send [OF dbus_run.start, of demo_bus "[1, 2]" ?p0 HOTH_SUCCESS]
    by (simp add: dbus_device_def dbus_send_def demo_bus_def)
  have 2: "dbus_run demo_bus ?p0 (Some [3]) [] (Some (?c\<lparr>dbus_request := 1\<rparr>),
      \<lparr>live = {1}, body = (\<lambda>_. [])(1 := [3]), calls = []\<rparr>)"
    using dbus_run.send [OF 1, of "[3]" HOTH_SUCCESS]
    by (simp add: dbus_device_def dbus_send_def demo_bus_def)
  obtain r p where r: "dev_receive (dbus_device demo_bus) 64 1000 (Some (?c\<lparr>dbus_request := 1\<rparr>),
      \<lparr>live = {1}, body = (\<lambda>_. [])(1 := [3]), calls = []\<rparr>) = (r, p)" by (metis prod.exhaust)
  have "timeout_fits 1000" by (simp add: timeout_fits_def)
  from dbus_run.receive [OF 2 this r] have run: "dbus_run demo_bus ?p0 None [[3]] p" by simp
  from dbus_one_slot [OF this demo_bus_ok] obtain ctx
    where "fst p = Some ctx" "calls (snd p) = [[3]]" "live (snd p) = {}" by auto
  with run show ?thesis by (intro exI [of _ p] exI [of _ ctx]) simp
qed

end
