(* ===== verification/Rot_Transports.thy ===== *)
theory Rot_Transports
  imports Usb Dbus
begin

text \<open>
  Host commands over real transports: a root of trust behind the FIFO interface of USB and one behind
  the D-Bus daemon are interpretations of \<open>rot_transport\<close>, so over them a host command is a remote
  call of the handler of the root of trust.
\<close>

text \<open>The firmware of either: a frame is decoded, handled, and answered with a frame.\<close>

definition serve :: "'w rot_handler \<Rightarrow> bytes \<Rightarrow> 'w \<Rightarrow> bytes \<times> 'w" where
  "serve h frame w =
    (let ((result, r), w') = h (le_word (byte_range 2 2 frame)) (frame ! 4) (drop 8 frame) w
     in (response_frame result r, w'))"

section \<open>Behind the USB FIFO\<close>

text \<open>Any libusb whose asynchronous transfers reach the root of trust.\<close>

definition usb_rot :: "('d, 'w fifo_world) libusb \<Rightarrow> 'w rot_handler \<Rightarrow> ('d, 'w fifo_world) libusb" where
  "usb_rot usb h = usb\<lparr>usb_async := fifo_rot (serve h)\<rparr>"

text \<open>
  An open device with a FIFO interface; at most ten packets wait in front, none of which has the id
  the next request will get.
\<close>

definition usb_ready :: "'w fifo_world usb_state \<Rightarrow> bool" where
  "usb_ready p \<longleftrightarrow>
    (case fst p of None \<Rightarrow> False
     | Some d \<Rightarrow> usb_handle d \<and> intf_type (usb_info d) = LIBHOTH_USB_INTERFACE_TYPE_FIFO \<and>
         length (in_buffer (fifo_data d)) = LIBHOTH_USB_FIFO_MTU \<and> length (out_buffer (fifo_data d)) = LIBHOTH_USB_FIFO_MTU \<and>
         out_pending (snd p) = None \<and> length (tx (snd p)) \<le> 10 \<and>
         list_all (\<lambda>q. 16 \<le> length q \<and> length q \<le> 16 + 1024 \<and>
           take 16 q \<noteq> fst (request_id 16 (prng_state (fifo_data d)))) (tx (snd p)))"

lemma wrap_usb_err_0 [simp]: "wrap_usb_err 0 = HOTH_SUCCESS"
  by simp

lemma fifo_send_buffers:
  assumes "libhoth_usb_fifo_send_request request d = (0, d1)"
    and "length (out_buffer d) = LIBHOTH_USB_FIFO_MTU" "length request \<le> 1024"
  shows "length (out_buffer d1) = LIBHOTH_USB_FIFO_MTU \<and> in_buffer d1 = in_buffer d"
proof -
  obtain ids state' where ids: "request_id 16 (prng_state d) = (ids, state')" by (cases "request_id 16 (prng_state d)")
  then have "length ids = 16" by (metis fst_conv length_request_id)
  with assms ids show ?thesis by (auto simp: libhoth_usb_fifo_send_request_def fifo_sizes)
qed

lemma usb_rot_exchange:
  assumes "usb_ready p" and "8 \<le> length frame" "length frame \<le> 1024"
    and "h (le_word (byte_range 2 2 frame)) (frame ! 4) (drop 8 frame) (fw (snd p)) = ((result, r), w')"
    and "length r \<le> 1016"
  shows "\<exists>s1 s2. dev_send (usb_device (usb_rot usb h)) frame p = (HOTH_SUCCESS, s1) \<and>
    dev_receive (usb_device (usb_rot usb h)) LIBHOTH_MAILBOX_SIZE HOTH_CMD_TIMEOUT_MS_DEFAULT s1 =
      ((HOTH_SUCCESS, response_frame result r), s2) \<and> fw (snd s2) = w' \<and> usb_ready s2"
proof -
  obtain d w where p: "p = (Some d, w)" using assms(1) by (cases p) (auto simp: usb_ready_def split: option.splits)
  with assms(1) have d: "usb_handle d" "intf_type (usb_info d) = LIBHOTH_USB_INTERFACE_TYPE_FIFO"
    and b: "length (in_buffer (fifo_data d)) = LIBHOTH_USB_FIFO_MTU" "length (out_buffer (fifo_data d)) = LIBHOTH_USB_FIFO_MTU"
    and w: "out_pending w = None" "length (tx w) \<le> 10" "list_all (\<lambda>q. 16 \<le> length q \<and> length q \<le> 16 + 1024 \<and>
           take 16 q \<noteq> fst (request_id 16 (prng_state (fifo_data d)))) (tx w)"
    by (auto simp: usb_ready_def)
  have h: "serve h frame (fw w) = (response_frame result r, w')" using assms(4) p by (simp add: serve_def)
  have l: "length (response_frame result r) \<le> 1024" using assms(5) by simp
  from fifo_exchange [OF b assms(3) _ w(1,3), of "serve h", OF _ h l, of HOTH_CMD_TIMEOUT_MS_DEFAULT] w(2)
  obtain d1 d2 w2 where send: "libhoth_usb_fifo_send_request frame (fifo_data d) = (0, d1)"
    and receive: "libhoth_usb_fifo_receive_response (fifo_rot (serve h)) 1024 HOTH_CMD_TIMEOUT_MS_DEFAULT d1 w =
      Some ((0, response_frame result r), d2, w2)"
    and w2: "fw w2 = w'" "tx w2 = []" "out_pending w2 = None"
    by auto
  have "length (in_buffer d2) = LIBHOTH_USB_FIFO_MTU" "length (out_buffer d2) = LIBHOTH_USB_FIFO_MTU"
    using fifo_own_response [OF receive] fifo_send_buffers [OF send b(2) assms(3)] b(1) by simp_all
  then show ?thesis
    using d send receive w2
    by (simp add: usb_device_def usb_rot_def or_error_def p libhoth_usb_send_request_def libhoth_usb_receive_response_def
        LIBHOTH_MAILBOX_SIZE_def usb_ready_def)
qed

interpretation usb_rpc: rot_transport "usb_device (usb_rot usb h)" h "\<lambda>p. fw (snd p)" usb_ready
  for usb :: "('d, 'w fifo_world) libusb" and h
  by unfold_locales (rule usb_rot_exchange)

text \<open>
  C11: a host command over an opened USB FIFO device is the remote call of the root of trust's
  handler, on every branch, even if responses to other processes' requests are waiting in the FIFO;
  it is performed once, and the device can take the next command.
\<close>

theorem usb_fifo_host_command:
  assumes "usb_ready p" and "length (snd (fst (h c v payload (fw (snd p))))) \<le> 1016"
  shows "\<exists>p'. libhoth_hostcmd_exec_v2 stk (Some (usb_device (usb_rot usb h))) c v (Some payload) (length payload) n want p =
      (fst (rpc h c v payload n want (fw (snd p))), p') \<and>
    fw (snd p') = snd (rpc h c v payload n want (fw (snd p))) \<and> usb_ready p'"
  unfolding exec_v2_hostcmd using assms by (rule usb_rpc.hostcmd_rpc)

text \<open>A root of trust that counts its commands and echoes them, with a stale response in front.\<close>

definition echo_handler :: "nat rot_handler" where
  "echo_handler c v payload k = ((0, payload), k + 1)"

definition demo_usb_state :: "nat fifo_world usb_state" where
  "demo_usb_state = (Some (zero_usb_device\<lparr>usb_handle := True, fifo_data := demo_fifo,
     usb_info := \<lparr>intf_type = LIBHOTH_USB_INTERFACE_TYPE_FIFO, interface_id = 0, interface_altsetting = 0\<rparr>\<rparr>), demo_world)"

lemma demo_usb_ready: "usb_ready demo_usb_state"
  using demo_stale by (simp add: demo_usb_state_def usb_ready_def demo_fifo_def fifo_sizes)

text \<open>A concrete libusb, for whose transfers those of the root of trust stand in.\<close>

definition plain_usb :: "(unit, 's) libusb" where
  "plain_usb = \<lparr>usb_bulk = \<lparr>bulk_out = (\<lambda>_ _ _ s. ((0, 0), s)), bulk_in = (\<lambda>_ _ _ s. ((0, []), s))\<rparr>,
     usb_async = \<lparr>submit_in = (\<lambda>_ _ _ s. (0, s)), submit_out = (\<lambda>_ _ _ s. (0, s)), cancel = (\<lambda>_ s. s),
       handle_events = (\<lambda>s. ((0, None), s)), clear_halt = (\<lambda>_ s. (0, s)), alloc = (\<lambda>s. (True, s))\<rparr>,
     usb_device_ids = (\<lambda>_ s. ((0, HOTH_VENDOR_ID, HOTH_D_PRODUCT_ID), s)), usb_active_config = (\<lambda>_ s. ((0, []), s)),
     usb_bus_number = (\<lambda>_. 1), usb_port_numbers = (\<lambda>_. Inr [2]), usb_device_list = (\<lambda>s. (Inr [()], s)),
     usb_open_device = (\<lambda>_ s. (LIBUSB_ERROR_ACCESS, s)), usb_close_device = (\<lambda>s. s),
     usb_claim_interface = (\<lambda>_ s. (0, s)), usb_release_interface = (\<lambda>_ s. (0, s)),
     usb_clock = (\<lambda>s. (Some \<lparr>tv_sec = 0, tv_nsec = 0\<rparr>, s)), usb_getpid = 1,
     usb_sleep = (\<lambda>_ s. s), usb_calloc = (\<lambda>s. (True, s)), uninit = (\<lambda>n. replicate n 0)\<rparr>"

theorem usb_fifo_host_command_witness:
  "\<exists>p'. libhoth_hostcmd_exec_v2 [] (Some (usb_device (usb_rot plain_usb echo_handler))) 1 0 (Some [5, 6]) 2 2 False demo_usb_state =
      (Inr [5, 6], p') \<and> fw (snd p') = 1"
proof -
  have "length (snd (fst (echo_handler 1 0 [5, 6] (fw (snd demo_usb_state))))) \<le> 1016" by (simp add: echo_handler_def)
  from usb_fifo_host_command [where h = echo_handler, OF demo_usb_ready this, of "[]" plain_usb 2 False]
  show ?thesis by (auto simp: rpc_def echo_handler_def demo_usb_state_def numeral_2_eq_2)
qed

section \<open>Behind the D-Bus daemon\<close>

text \<open>A bus with the daemon: the call is handled and the reply is a message with the frame.\<close>

record 'w dbus_world = dbus_view +
  daemon :: 'w

definition bus_rot :: "'w rot_handler \<Rightarrow> 'w dbus_world sd_bus" where
  "bus_rot h = \<lparr>open_system = (\<lambda>v. (0, v)), bus_unref = (\<lambda>v. v),
     new_method_call = (\<lambda>_ _ _ _ v.
       if 1 \<in> live v then ((- 12, 0), v) else ((0, 1), v\<lparr>live := insert 1 (live v), body := (body v)(1 := [])\<rparr>)),
     append_array = (\<lambda>m bs v. (0, v\<lparr>body := (body v)(m := body v m @ bs)\<rparr>)),
     bus_call = (\<lambda>m _ v.
       let (reply, w) = serve h (body v m) (daemon v) in
       if 2 \<in> live v then ((- 12, 0), v\<lparr>calls := calls v @ [body v m], daemon := w\<rparr>)
       else ((0, 2), v\<lparr>live := insert 2 (live v), body := (body v)(2 := reply), calls := calls v @ [body v m], daemon := w\<rparr>)),
     read_array = (\<lambda>m v. ((0, body v m), v)), message_unref = (\<lambda>m v. v\<lparr>live := live v - {m}\<rparr>),
     dbus_calloc = (\<lambda>v. (True, v))\<rparr>"

definition dbus_ready :: "'w dbus_world dbus_state \<Rightarrow> bool" where
  "dbus_ready p \<longleftrightarrow> live (snd p) = {} \<and> (case fst p of None \<Rightarrow> False | Some ctx \<Rightarrow> dbus_request ctx = 0)"

lemma bus_rot_exchange:
  assumes "dbus_ready p" and "8 \<le> length frame" "length frame \<le> 1024"
    and "h (le_word (byte_range 2 2 frame)) (frame ! 4) (drop 8 frame) (daemon (snd p)) = ((result, r), w')"
    and "length r \<le> 1016"
  shows "\<exists>s1 s2. dev_send (dbus_device (bus_rot h)) frame p = (HOTH_SUCCESS, s1) \<and>
    dev_receive (dbus_device (bus_rot h)) LIBHOTH_MAILBOX_SIZE HOTH_CMD_TIMEOUT_MS_DEFAULT s1 =
      ((HOTH_SUCCESS, response_frame result r), s2) \<and> daemon (snd s2) = w' \<and> dbus_ready s2"
proof -
  obtain ctx v where p: "p = (Some ctx, v)" "dbus_request ctx = 0" "live v = {}"
    using assms(1) by (cases p) (auto simp: dbus_ready_def split: option.splits)
  have h: "serve h frame (daemon v) = (response_frame result r, w')" using assms(4) p(1) by (simp add: serve_def)
  have t: "timeout_fits HOTH_CMD_TIMEOUT_MS_DEFAULT" by (simp add: timeout_fits_def HOTH_CMD_TIMEOUT_MS_DEFAULT_def)
  show ?thesis
    using p h t assms(5)
    by (simp add: dbus_device_def dbus_send_def dbus_receive_def bus_rot_def LIBHOTH_MAILBOX_SIZE_def dbus_ready_def Let_def)
qed

interpretation dbus_rpc: rot_transport "dbus_device (bus_rot h)" h "\<lambda>p. daemon (snd p)" dbus_ready for h
  by unfold_locales (rule bus_rot_exchange)

text \<open>
  A host command over D-Bus is the remote call of the handler too, and leaves no message behind.
\<close>

theorem dbus_host_command:
  assumes "dbus_ready p" and "length (snd (fst (h c v payload (daemon (snd p))))) \<le> 1016"
  shows "\<exists>p'. libhoth_hostcmd_exec_v2 stk (Some (dbus_device (bus_rot h))) c v (Some payload) (length payload) n want p =
      (fst (rpc h c v payload n want (daemon (snd p))), p') \<and>
    daemon (snd p') = snd (rpc h c v payload n want (daemon (snd p))) \<and> dbus_ready p'"
  unfolding exec_v2_hostcmd using assms by (rule dbus_rpc.hostcmd_rpc)

end
