(* ===== verification/Htool_Cmd.thy ===== *)
theory Htool_Cmd
  imports Hoth_Text "HOL-Library.Sublist"
begin

text \<open>
  \<open>examples/htool_cmd.h\<close> and \<open>examples/htool_cmd.c\<close>: the command line of \<open>htool\<close>. Strings are
  without their NUL; arrays that end with a marker are lists without it. An error, which the code
  reports on standard error before it returns -1 or NULL, is a value of \<open>htool_error\<close>; the texts of
  the help are strings. A function pointer of a command is a value of a type \<open>'f\<close>, and what calling
  it does is a parameter. Allocations succeed.
\<close>

section \<open>The C library\<close>

text \<open>The character at a position up to the NUL.\<close>

definition char_at :: "string \<Rightarrow> nat \<Rightarrow> char" where
  "char_at s i = (if i < length s then s ! i else CHR 0x00)"

definition c_isspace :: "char \<Rightarrow> bool" where
  "c_isspace c \<longleftrightarrow> c = CHR '' '' \<or> (9 \<le> (of_char c :: nat) \<and> (of_char c :: nat) \<le> 13)"

definition digit_val :: "nat \<Rightarrow> char \<Rightarrow> nat option" where
  "digit_val base c = (case hex_val c of None \<Rightarrow> None | Some d \<Rightarrow> if d < base then Some d else None)"

fun read_digits :: "nat \<Rightarrow> nat \<Rightarrow> string \<Rightarrow> nat \<times> string" where
  "read_digits base acc [] = (acc, [])"
| "read_digits base acc (c # cs) =
    (case digit_val base c of None \<Rightarrow> (acc, c # cs) | Some d \<Rightarrow> read_digits base (acc * base + d) cs)"

text \<open>
  What \<open>strtoul\<close> and \<open>strtoll\<close> read: white space, a sign, the prefix of base 16 if a digit follows,
  and digits. \<open>None\<close> if there are none; else the sign, the number and the rest of the string.
\<close>

definition strto :: "nat \<Rightarrow> string \<Rightarrow> (bool \<times> nat \<times> string) option" where
  "strto base s =
    (let s1 = dropWhile c_isspace s;
         neg = (char_at s1 0 = CHR ''-'');
         s2 = (if neg \<or> char_at s1 0 = CHR ''+'' then tl s1 else s1);
         s3 = (if base = 16 \<and> char_at s2 0 = CHR ''0'' \<and> (char_at s2 1 = CHR ''x'' \<or> char_at s2 1 = CHR ''X'') \<and>
                  digit_val 16 (char_at s2 2) \<noteq> None then drop 2 s2 else s2)
     in if digit_val base (char_at s3 0) = None then None
        else (case read_digits base 0 s3 of (n, rest) \<Rightarrow> Some (neg, n, rest)))"

text \<open>\<open>strtoul\<close> and \<open>strtoull\<close>, on 64 bits: the value, whether it is out of range, and \<open>endptr\<close>.\<close>

definition strtoull :: "nat \<Rightarrow> string \<Rightarrow> u64 \<times> bool \<times> string" where
  "strtoull base s =
    (case strto base s of None \<Rightarrow> (0, False, s)
     | Some (neg, n, rest) \<Rightarrow>
         if 2 ^ 64 \<le> n then (- 1, True, rest)
         else (if neg then - word_of_nat n else word_of_nat n, False, rest))"

definition strtoll :: "nat \<Rightarrow> string \<Rightarrow> int \<times> string" where
  "strtoll base s =
    (case strto base s of None \<Rightarrow> (0, s)
     | Some (neg, n, rest) \<Rightarrow>
         (if neg then max (- (2 ^ 63)) (- int n) else min (2 ^ 63 - 1) (int n), rest))"

section \<open>Parameters and commands\<close>

datatype htool_param_type = HTOOL_PARAM_END | HTOOL_FLAG_VALUE | HTOOL_FLAG_BOOL | HTOOL_POSITIONAL

record htool_param =
  param_type :: htool_param_type
  param_ch :: char
  param_name :: string
  default_value :: "string option"
  param_desc :: "string option"

datatype htool_error =
    Help_Requested
  | Unknown_Flag string
  | Missing_Value string
  | Unexpected_Positional nat
  | Unregistered string
  | Unspecified_Positional string
  | Unspecified_Flag string
  | Unknown_Type string
  | Unparsable string string
  | Unknown_Subcommand

record htool_invocation =
  inv_params :: "htool_param list"
  inv_args :: "string option list"

record 'f htool_cmd =
  verbs :: "string list"
  verb_alias :: "string list option"
  cmd_desc :: "string option"
  cmd_params :: "htool_param list"
  cmd_func :: 'f
  deprecation_message :: "string option"

section \<open>Finding the command\<close>

fun matches_verbs_from :: "nat \<Rightarrow> string list \<Rightarrow> string list \<Rightarrow> nat" where
  "matches_verbs_from i [] argv = i"
| "matches_verbs_from i (v # vs) [] = 0"
| "matches_verbs_from i (v # vs) (a # argv) = (if a \<noteq> v then 0 else matches_verbs_from (i + 1) vs argv)"

definition matches_verbs :: "string list \<Rightarrow> string list \<Rightarrow> nat" where
  "matches_verbs vs argv = matches_verbs_from 0 vs argv"

fun find_command :: "'f htool_cmd list \<Rightarrow> string list \<Rightarrow> ('f htool_cmd \<times> nat) option" where
  "find_command [] argv = None"
| "find_command (cmd # cmds) argv =
    (let consume = matches_verbs (verbs cmd) argv in
     if consume \<noteq> 0 then Some (cmd, consume)
     else
       let consume = (case verb_alias cmd of None \<Rightarrow> 0 | Some al \<Rightarrow> matches_verbs al argv) in
       if consume \<noteq> 0 then Some (cmd, consume) else find_command cmds argv)"

section \<open>Reading parameters\<close>

fun find_param_from :: "nat \<Rightarrow> htool_param list \<Rightarrow> string \<Rightarrow> (htool_param \<times> nat) option" where
  "find_param_from i [] nm = None"
| "find_param_from i (p # ps) nm = (if param_name p = nm then Some (p, i) else find_param_from (i + 1) ps nm)"

definition find_param_by_name :: "htool_param list \<Rightarrow> string \<Rightarrow> (htool_param \<times> nat) option" where
  "find_param_by_name params nm = find_param_from 0 params nm"

definition get_param :: "htool_invocation \<Rightarrow> string \<Rightarrow> htool_error + string option" where
  "get_param iv nm =
    (case find_param_by_name (inv_params iv) nm of
       None \<Rightarrow> Inl (Unregistered nm)
     | Some (p, i) \<Rightarrow> (case inv_args iv ! i of Some v \<Rightarrow> Inr (Some v) | None \<Rightarrow> Inr (default_value p)))"

definition htool_has_param :: "htool_invocation \<Rightarrow> string \<Rightarrow> bool" where
  "htool_has_param iv nm = (case get_param iv nm of Inr (Some _) \<Rightarrow> True | _ \<Rightarrow> False)"

definition get_param_required :: "htool_invocation \<Rightarrow> string \<Rightarrow> htool_error + string" where
  "get_param_required iv nm =
    (case get_param iv nm of
       Inr (Some v) \<Rightarrow> Inr v
     | Inl e \<Rightarrow> Inl e
     | Inr None \<Rightarrow>
         (case find_param_by_name (inv_params iv) nm of
            None \<Rightarrow> Inl (Unregistered nm)
          | Some (p, _) \<Rightarrow>
              if param_type p = HTOOL_POSITIONAL then Inl (Unspecified_Positional (param_name p))
              else if param_type p = HTOOL_FLAG_VALUE \<or> param_type p = HTOOL_FLAG_BOOL
              then Inl (Unspecified_Flag (param_name p))
              else Inl (Unknown_Type (param_name p))))"

definition htool_get_param_string :: "htool_invocation \<Rightarrow> string \<Rightarrow> htool_error + string" where
  "htool_get_param_string iv nm = get_param_required iv nm"

definition htool_get_param_bool :: "htool_invocation \<Rightarrow> string \<Rightarrow> htool_error + bool" where
  "htool_get_param_bool iv nm =
    (case get_param_required iv nm of
       Inl e \<Rightarrow> Inl e
     | Inr s \<Rightarrow>
         if s = ''true'' \<or> s = ''1'' \<or> s = ''TRUE'' then Inr True
         else if s = ''false'' \<or> s = ''0'' \<or> s = ''FALSE'' then Inr False
         else Inl (Unparsable nm s))"

definition parse_u32 :: "string \<Rightarrow> u32 option" where
  "parse_u32 s =
    (let (lval, _, endptr) =
       (if char_at s 0 = CHR ''0'' \<and> char_at s 1 = CHR ''x'' \<and> 2 < length s then strtoull 16 (drop 2 s)
        else strtoull 10 s)
     in if s \<noteq> [] \<and> endptr = [] then Some (ucast lval) else None)"

definition htool_get_param_u32 :: "htool_invocation \<Rightarrow> string \<Rightarrow> htool_error + u32" where
  "htool_get_param_u32 iv nm =
    (case get_param_required iv nm of
       Inl e \<Rightarrow> Inl e
     | Inr s \<Rightarrow> (case parse_u32 s of Some v \<Rightarrow> Inr v | None \<Rightarrow> Inl (Unparsable nm s)))"

definition parse_u64 :: "string \<Rightarrow> u64 option" where
  "parse_u64 s =
    (if s = [] \<or> char_at s 0 = CHR ''-'' then None
     else
       let (base, t) =
             (if char_at s 0 = CHR ''0'' \<and> (char_at s 1 = CHR ''x'' \<or> char_at s 1 = CHR ''X'') then (16, drop 2 s) else (10, s));
           (lval, erange, endptr) = strtoull base t
       in if erange \<or> endptr = t \<or> endptr \<noteq> [] then None else Some lval)"

definition htool_get_param_u64 :: "htool_invocation \<Rightarrow> string \<Rightarrow> htool_error + u64" where
  "htool_get_param_u64 iv nm =
    (case get_param_required iv nm of
       Inl e \<Rightarrow> Inl e
     | Inr s \<Rightarrow> (case parse_u64 s of Some v \<Rightarrow> Inr v | None \<Rightarrow> Inl (Unparsable nm s)))"

text \<open>A \<open>char\<close> is signed, as on the platforms htool is built for.\<close>

definition char_u32 :: "char \<Rightarrow> u32" where
  "char_u32 c = scast (of_char c :: 8 word)"

definition htool_get_param_u32_or_fourcc :: "htool_invocation \<Rightarrow> string \<Rightarrow> htool_error + u32" where
  "htool_get_param_u32_or_fourcc iv nm =
    (case get_param_required iv nm of
       Inl e \<Rightarrow> Inl e
     | Inr s \<Rightarrow>
         (case parse_u32 s of
            Some v \<Rightarrow> Inr v
          | None \<Rightarrow>
              if length s = 4
              then Inr (push_bit 24 (char_u32 (s ! 0)) OR push_bit 16 (char_u32 (s ! 1)) OR
                        push_bit 8 (char_u32 (s ! 2)) OR char_u32 (s ! 3))
              else Inl (Unparsable nm s)))"

section \<open>Finding flags\<close>

abbreviation name_ends :: "string \<Rightarrow> bool" where
  "name_ends s \<equiv> s = [] \<or> hd s = CHR ''=''"

fun flag_name_equals :: "string \<Rightarrow> string \<Rightarrow> bool" where
  "flag_name_equals [] b = name_ends b"
| "flag_name_equals (x # a) b =
    (if x = CHR ''='' then name_ends b
     else if name_ends b then False
     else if x \<noteq> hd b then False
     else flag_name_equals a (tl b))"

fun find_positional_from :: "nat \<Rightarrow> nat \<Rightarrow> htool_param list \<Rightarrow> nat \<Rightarrow> (htool_param \<times> nat) option" where
  "find_positional_from i num_positional_params_seen [] index = None"
| "find_positional_from i num_positional_params_seen (p # ps) index =
    (if param_type p = HTOOL_POSITIONAL then
       (if num_positional_params_seen = index then Some (p, i)
        else find_positional_from (i + 1) (num_positional_params_seen + 1) ps index)
     else find_positional_from (i + 1) num_positional_params_seen ps index)"

definition find_positional_param :: "htool_param list \<Rightarrow> nat \<Rightarrow> (htool_param \<times> nat) option" where
  "find_positional_param params index = find_positional_from 0 0 params index"

definition is_flag :: "htool_param \<Rightarrow> bool" where
  "is_flag p \<longleftrightarrow> param_type p = HTOOL_FLAG_VALUE \<or> param_type p = HTOOL_FLAG_BOOL"

text \<open>A bool flag without a value is true.\<close>

definition flag_value :: "htool_param \<Rightarrow> string option \<Rightarrow> string option" where
  "flag_value p v = (if v = None \<and> param_type p = HTOOL_FLAG_BOOL then Some ''true'' else v)"

fun find_short :: "nat \<Rightarrow> htool_param list \<Rightarrow> string \<Rightarrow> (htool_param \<times> nat \<times> string option) option" where
  "find_short i [] s = None"
| "find_short i (p # ps) s =
    (if is_flag p \<and> param_ch p = char_at s 1
     then Some (p, i, flag_value p (if 2 < length s then Some (drop 2 s) else None))
     else find_short (i + 1) ps s)"

fun find_long :: "nat \<Rightarrow> htool_param list \<Rightarrow> string \<Rightarrow> (htool_param \<times> nat \<times> string option) option" where
  "find_long i [] flag_name = None"
| "find_long i (p # ps) flag_name =
    (if char_at flag_name 0 = CHR ''n'' \<and> char_at flag_name 1 = CHR ''o'' \<and> param_type p = HTOOL_FLAG_BOOL \<and>
        param_name p = drop 2 flag_name
     then Some (p, i, Some ''false'')
     else if is_flag p \<and> flag_name_equals (param_name p) flag_name
     then Some (p, i, flag_value p
            (if CHR ''='' \<in> set flag_name then Some (tl (dropWhile (\<lambda>c. c \<noteq> CHR ''='') flag_name)) else None))
     else find_long (i + 1) ps flag_name)"

definition find_flag :: "htool_param list \<Rightarrow> string \<Rightarrow> (htool_param \<times> nat \<times> string option) option" where
  "find_flag params s =
    (if char_at s 0 \<noteq> CHR ''-'' then None
     else if char_at s 1 \<noteq> CHR ''-'' then
       (if length s = 1 then None
        else (case find_short 0 params s of Some r \<Rightarrow> Some r | None \<Rightarrow> find_long 0 params (drop 2 s)))
     else find_long 0 params (drop 2 s))"

section \<open>Filling in an invocation\<close>

text \<open>The index of positional parameters is never incremented.\<close>

fun fill_args :: "htool_param list \<Rightarrow> string option list \<Rightarrow> string list \<Rightarrow> htool_error + string option list" where
  "fill_args params args [] = Inr args"
| "fill_args params args (a # argv) =
    (if char_at a 0 = CHR ''-'' then
       (if a = ''--help'' then Inl Help_Requested
        else case find_flag params a of
          None \<Rightarrow> Inl (Unknown_Flag a)
        | Some (p, i, v) \<Rightarrow>
            if param_type p = HTOOL_FLAG_VALUE \<and> v = None then
              (case argv of
                 [] \<Rightarrow> Inl (Missing_Value a)
               | b # argv' \<Rightarrow>
                   if char_at b 0 = CHR ''-'' then Inl (Missing_Value a)
                   else fill_args params (args[i := Some b]) argv')
            else fill_args params (args[i := v]) argv)
     else case find_positional_param params 0 of
       None \<Rightarrow> Inl (Unexpected_Positional 0)
     | Some (p, i) \<Rightarrow> fill_args params (args[i := Some a]) argv)"

definition fill_cmd_invocation :: "'f htool_cmd \<Rightarrow> string list \<Rightarrow> htool_error + htool_invocation" where
  "fill_cmd_invocation cmd argv =
    (case fill_args (cmd_params cmd) (replicate (length (cmd_params cmd)) None) argv of
       Inl e \<Rightarrow> Inl e
     | Inr args \<Rightarrow> Inr \<lparr>inv_params = cmd_params cmd, inv_args = args\<rparr>)"

text \<open>The global flags: beside the values the number of arguments they take.\<close>

fun fill_globals :: "htool_param list \<Rightarrow> string option list \<Rightarrow> nat \<Rightarrow> string list \<Rightarrow> htool_error + nat \<times> string option list" where
  "fill_globals params args i [] = Inr (i, args)"
| "fill_globals params args i (a # argv) =
    (if char_at a 0 \<noteq> CHR ''-'' then Inr (i, args)
     else case find_flag params a of
       None \<Rightarrow> Inl (Unknown_Flag a)
     | Some (p, k, v) \<Rightarrow>
         if param_type p = HTOOL_FLAG_VALUE \<and> v = None then
           (case argv of
              [] \<Rightarrow> Inl (Missing_Value a)
            | b # argv' \<Rightarrow>
                if char_at b 0 = CHR ''-'' then Inl (Missing_Value a)
                else fill_globals params (args[k := Some b]) (i + 2) argv')
         else fill_globals params (args[k := v]) (i + 1) argv)"

definition fill_global_flags :: "htool_param list \<Rightarrow> string list \<Rightarrow> htool_error + nat \<times> htool_invocation" where
  "fill_global_flags params argv =
    (case fill_globals params (replicate (length params) None) 0 argv of
       Inl e \<Rightarrow> Inl e
     | Inr (n, args) \<Rightarrow> Inr (n, \<lparr>inv_params = params, inv_args = args\<rparr>))"

text \<open>
  The command's function gets its own invocation and that of the global flags. The result is an
  error, with which the program returns -1, or the return value. Printing the version and the
  warning about a deprecated command are output only.
\<close>

definition htool_main ::
  "('f \<Rightarrow> htool_invocation \<Rightarrow> htool_invocation \<Rightarrow> 's \<Rightarrow> int \<times> 's) \<Rightarrow> htool_param list \<Rightarrow> 'f htool_cmd list \<Rightarrow>
   string list \<Rightarrow> 's \<Rightarrow> (htool_error + int) \<times> 's" where
  "htool_main call global_flags cmds argv s =
    (case fill_global_flags global_flags argv of
       Inl e \<Rightarrow> (Inl e, s)
     | Inr (num_global_flag_args, global_inv) \<Rightarrow>
         (case htool_get_param_bool global_inv ''version'' of
            Inl e \<Rightarrow> (Inl e, s)
          | Inr True \<Rightarrow> (Inr 0, s)
          | Inr False \<Rightarrow>
              (let argv = drop num_global_flag_args argv in
               case find_command cmds argv of
                 None \<Rightarrow> (Inl Unknown_Subcommand, s)
               | Some (cmd, num_verb_words) \<Rightarrow>
                   (case fill_cmd_invocation cmd (drop num_verb_words argv) of
                      Inl e \<Rightarrow> (Inl e, s)
                    | Inr iv \<Rightarrow> (let (rv, s') = call (cmd_func cmd) iv global_inv s in (Inr rv, s'))))))"

section \<open>Help\<close>

text \<open>A line feed, which the texts end with.\<close>

definition nl :: string where
  "nl = [CHR 0x0A]"

fun print_flags :: "htool_param list \<Rightarrow> string" where
  "print_flags [] = []"
| "print_flags (param # params) =
    (if param_type param = HTOOL_POSITIONAL then []
     else ''  '' @ (if param_ch param \<noteq> CHR 0x00 then ''-'' @ [param_ch param] @ '' '' else []) @
       ''--'' @ param_name param @
       (case default_value param of None \<Rightarrow> [] | Some v \<Rightarrow> '' (default: '' @ [CHR 0x22] @ v @ [CHR 0x22] @ '')'') @ nl @
       (case param_desc param of None \<Rightarrow> [] | Some d \<Rightarrow> ''        '' @ d @ nl)) @
    print_flags params"

definition print_usage :: "'f htool_cmd \<Rightarrow> string" where
  "print_usage cmd =
    ''Usage: '' @ concat (map (\<lambda>v. v @ '' '') (verbs cmd)) @
    concat (map (\<lambda>p. ''<'' @ param_name p @ ''> '') (filter (\<lambda>p. param_type p = HTOOL_POSITIONAL) (cmd_params cmd))) @
    nl @ print_flags (cmd_params cmd)"

text \<open>Deprecated commands are hidden. A missing description would be printed as \<open>(null)\<close>.\<close>

definition enumerate_cmds :: "'f htool_cmd list \<Rightarrow> string" where
  "enumerate_cmds cmds =
    ''Available subcommands: (append --help to subcommand for details)'' @ nl @
    concat (map (\<lambda>c. '' '' @ concat (map (\<lambda>v. '' '' @ v) (verbs c)) @ '' - '' @
        (case cmd_desc c of None \<Rightarrow> ''(null)'' | Some d \<Rightarrow> d) @ nl)
      (filter (\<lambda>c. deprecation_message c = None) cmds))"

section \<open>Time strings\<close>

definition parse_time_string_us :: "string option \<Rightarrow> int" where
  "parse_time_string_us time_str =
    (case time_str of None \<Rightarrow> -1
     | Some s \<Rightarrow>
       if s = [] then -1
       else
         let (val, endptr) = strtoll 10 s in
         if endptr = s \<or> val < 0 then -1
         else
           let units = dropWhile c_isspace endptr;
               multiplier =
                 (if units = [] then Some 1000000
                  else if units \<in> {''s'', ''S''} then Some 1000000
                  else if units \<in> {''ms'', ''mS'', ''Ms'', ''MS''} then Some 1000
                  else if units \<in> {''us'', ''uS'', ''Us'', ''US''} then Some 1
                  else None)
           in case multiplier of None \<Rightarrow> -1
              | Some m \<Rightarrow> if (2 ^ 63 - 1) div m < val then -1 else val * m)"

section \<open>The command that is found\<close>

lemma matches_verbs_from: "matches_verbs_from i vs argv = (if prefix vs argv then i + length vs else 0)"
  by (induction i vs argv rule: matches_verbs_from.induct) auto

lemma matches_verbs: "matches_verbs vs argv = (if prefix vs argv then length vs else 0)"
  by (simp add: matches_verbs_def matches_verbs_from)

definition calls_by :: "string list \<Rightarrow> string list \<Rightarrow> bool" where
  "calls_by argv vs \<longleftrightarrow> vs \<noteq> [] \<and> prefix vs argv"

definition is_called :: "string list \<Rightarrow> 'f htool_cmd \<Rightarrow> bool" where
  "is_called argv c \<longleftrightarrow> calls_by argv (verbs c) \<or> (\<exists>al. verb_alias c = Some al \<and> calls_by argv al)"

lemma find_command_find:
  "find_command cmds argv =
    map_option (\<lambda>c. (c, if calls_by argv (verbs c) then length (verbs c) else length (the (verb_alias c))))
      (List.find (is_called argv) cmds)"
  by (induction cmds) (auto simp: is_called_def calls_by_def matches_verbs Let_def split: option.splits)

text \<open>
  The command that is run is the first one of the table one of whose names, its words or those
  of its alias, begins the command line, and the words of that name are what is taken off it; the
  search stays within the names and the arguments, which may be none.
\<close>

theorem find_command_first:
  "find_command cmds argv =
    map_option (\<lambda>c. (c, if calls_by argv (verbs c) then length (verbs c) else length (the (verb_alias c))))
      (List.find (is_called argv) cmds)"
  by (rule find_command_find)

section \<open>Numbers\<close>

lemma read_digits_append:
  "read_digits base acc xs = (m, []) \<Longrightarrow> read_digits base acc (xs @ ys) = read_digits base m ys"
  by (induction base acc xs rule: read_digits.induct) (auto split: option.splits)

lemma digit_char: "d < 10 \<Longrightarrow> digit_val 10 (''0123456789'' ! d) = Some d"
proof -
  assume "d < 10"
  then have "d \<in> {0,1,2,3,4,5,6,7,8,9}" by (simp; arith)
  then show ?thesis by (auto simp: digit_val_def hex_val_def Let_def)
qed

lemma hex_digit_char: "d < 16 \<Longrightarrow> digit_val 16 (hex_digits ! d) = Some d"
  by (simp add: digit_val_def hex_val_digit)

text \<open>No digit is anything else that the conversions look for.\<close>

lemma digit_val_other:
  assumes "digit_val base c \<noteq> None"
  shows "\<not> c_isspace c" "c \<noteq> CHR ''-''" "c \<noteq> CHR ''+''" "c \<noteq> CHR ''x''" "c \<noteq> CHR ''X''" "c \<noteq> CHR 0x00"
proof -
  have h: "hex_val c \<noteq> None" using assms by (auto simp: digit_val_def split: option.splits)
  show "c \<noteq> CHR ''-''" "c \<noteq> CHR ''+''" "c \<noteq> CHR ''x''" "c \<noteq> CHR ''X''" "c \<noteq> CHR 0x00"
    using h by (auto simp: hex_val_def)
  have "c \<noteq> CHR '' ''" using h by (auto simp: hex_val_def)
  then show "\<not> c_isspace c"
    using h by (auto simp: c_isspace_def hex_val_def Let_def split: if_splits)
qed

definition digits :: "nat \<Rightarrow> string \<Rightarrow> bool" where
  "digits base s \<longleftrightarrow> (\<forall>c \<in> set s. digit_val base c \<noteq> None)"

lemma dec_nat_digits: "digits 10 (dec_nat n) \<and> dec_nat n \<noteq> []"
proof (induction n rule: dec_nat.induct)
  case (1 n)
  then show ?case
    by (subst (1 2) dec_nat.simps) (auto simp: digits_def digit_char)
qed

lemma hex_fixed_digits: "digits 16 (hex_fixed hex_digits k n)"
  by (induction k arbitrary: n) (auto simp: digits_def hex_digit_char)

lemma read_dec: "read_digits 10 0 (dec_nat n) = (n, [])"
proof (induction n rule: dec_nat.induct)
  case (1 n)
  show ?case
  proof (cases "n < 10")
    case True
    then show ?thesis using digit_char [of n] by (subst dec_nat.simps) simp
  next
    case False
    have "digit_val 10 (''0123456789'' ! (n mod 10)) = Some (n mod 10)" by (rule digit_char) simp
    with False read_digits_append [OF 1 [OF False]] show ?thesis by (subst dec_nat.simps) simp
  qed
qed

lemma read_hex: "read_digits 16 0 (hex_fixed hex_digits k n) = (n mod 16 ^ k, [])"
proof (induction k arbitrary: n)
  case (Suc k)
  have "digit_val 16 (hex_digits ! (n mod 16)) = Some (n mod 16)" by (rule hex_digit_char) simp
  moreover have "n div 16 mod 16 ^ k * 16 + n mod 16 = n mod 16 ^ Suc k"
    by (simp add: mod_mult2_eq)
  ultimately show ?case using read_digits_append [OF Suc.IH [of "n div 16"]] by simp
qed simp

lemma digits_char_at:
  assumes "digits base s"
  shows "char_at s i \<noteq> CHR ''x''" "char_at s i \<noteq> CHR ''X''" "char_at s i \<noteq> CHR ''-''" "char_at s i \<noteq> CHR ''+''"
proof -
  have "char_at s i = CHR 0x00 \<or> digit_val base (char_at s i) \<noteq> None"
    using assms by (simp add: char_at_def digits_def)
  then show "char_at s i \<noteq> CHR ''x''" "char_at s i \<noteq> CHR ''X''" "char_at s i \<noteq> CHR ''-''" "char_at s i \<noteq> CHR ''+''"
    using digit_val_other [of base "char_at s i"] by auto
qed

text \<open>A number is read from its digits, with or without a sign.\<close>

lemma strto_digits:
  assumes "digits base s" and "s \<noteq> []" and "read_digits base 0 (s @ rest) = (n, rest)" and "rest = [] \<or> base = 10"
  shows "strto base (s @ rest) = Some (False, n, rest)"
    and "rest = [] \<Longrightarrow> strto base (CHR ''-'' # s) = Some (True, n, [])"
proof -
  obtain c cs where s: "s = c # cs" using assms(2) by (cases s) auto
  then have c: "digit_val base c \<noteq> None" using assms(1) by (simp add: digits_def)
  note o = digit_val_other [OF c]
  have z: "char_at (c # xs) 0 = c" for xs by (simp add: char_at_def)
  have x: "base = 16 \<Longrightarrow> char_at (s @ rest) 1 \<noteq> CHR ''x'' \<and> char_at (s @ rest) 1 \<noteq> CHR ''X''"
    using digits_char_at [OF assms(1)] assms(4) by auto
  show "strto base (s @ rest) = Some (False, n, rest)"
    using o c x assms(3)
    by (cases "base = 16") (auto simp: strto_def s z Let_def simp del: read_digits.simps)
  show "strto base (CHR ''-'' # s) = Some (True, n, [])" if "rest = []"
  proof -
    have "dropWhile c_isspace (CHR ''-'' # s) = CHR ''-'' # s" "char_at (CHR ''-'' # s) 0 = CHR ''-''"
      by (simp_all add: c_isspace_def char_at_def)
    then show ?thesis using o c x assms(3) that
      by (cases "base = 16") (auto simp: strto_def s z Let_def simp del: read_digits.simps)
  qed
qed

lemma strto_dec:
  assumes "rest = [] \<or> digit_val 10 (hd rest) = None"
  shows "strto 10 (dec_nat n @ rest) = Some (False, n, rest)"
proof (rule strto_digits)
  have "read_digits 10 n rest = (n, rest)" using assms by (cases rest) auto
  then show "read_digits 10 0 (dec_nat n @ rest) = (n, rest)" using read_digits_append [OF read_dec] by simp
qed (use dec_nat_digits in auto)

lemma strto_hex:
  assumes "0 < k"
  shows "strto 16 (hex_fixed hex_digits k n) = Some (False, n mod 16 ^ k, [])"
    and "strto 16 (CHR ''-'' # hex_fixed hex_digits k n) = Some (True, n mod 16 ^ k, [])"
proof -
  have "hex_fixed hex_digits k n \<noteq> []" using assms length_hex_fixed [of hex_digits k n] by (metis length_0_conv less_irrefl)
  with strto_digits [OF hex_fixed_digits [of k n], of "[]"] read_hex [of k n]
  show "strto 16 (hex_fixed hex_digits k n) = Some (False, n mod 16 ^ k, [])"
    and "strto 16 (CHR ''-'' # hex_fixed hex_digits k n) = Some (True, n mod 16 ^ k, [])" by simp_all
qed

lemmas char_at_dec = digits_char_at [OF dec_nat_digits [THEN conjunct1]]

lemma parse_u32_dec:
  "parse_u32 (dec_nat n) = Some (if n < 2 ^ 64 then word_of_nat n else 0xFFFFFFFF)"
proof -
  have "dec_nat n \<noteq> []" using dec_nat_digits by blast
  moreover have "strto 10 (dec_nat n) = Some (False, n, [])" using strto_dec [of "[]" n] by simp
  moreover have "(ucast (word_of_nat n :: u64) :: u32) = word_of_nat n"
    by (simp add: word_unat_eq_iff unsigned_ucast_eq unat_of_nat take_bit_nat_def mod_mod_cancel)
  moreover have "(ucast (- 1 :: u64) :: u32) = 0xFFFFFFFF"
    by (simp add: word_unat_eq_iff unsigned_ucast_eq unsigned_minus_1_eq_mask mask_eq_exp_minus_1 take_bit_nat_def)
  ultimately show ?thesis using char_at_dec [of n] by (simp add: parse_u32_def strtoull_def)
qed

lemma parse_u64_dec:
  "parse_u64 (dec_nat n) = (if n < 2 ^ 64 then Some (word_of_nat n) else None)"
proof -
  have "dec_nat n \<noteq> []" using dec_nat_digits by blast
  moreover have "strto 10 (dec_nat n) = Some (False, n, [])" using strto_dec [of "[]" n] by simp
  ultimately show ?thesis using char_at_dec [of n] by (auto simp: parse_u64_def strtoull_def)
qed

text \<open>
  A number written in decimal, or in hexadecimal with the prefix, is read back by \<open>parse_u64\<close>
  exactly if it fits into 64 bits and rejected otherwise, while \<open>parse_u32\<close> accepts every one and
  keeps the lower half of what fits into 64 bits.
\<close>

theorem htool_numbers_roundtrip:
  "parse_u64 (dec_nat n) = (if n < 2 ^ 64 then Some (word_of_nat n) else None) \<and>
   parse_u64 (''0x'' @ hex_fixed hex_digits 16 (unat w)) = Some w \<and>
   parse_u32 (dec_nat n) = Some (if n < 2 ^ 64 then word_of_nat n else 0xFFFFFFFF) \<and>
   parse_u32 (''0x'' @ hex_fixed hex_digits 8 (unat v)) = Some v"
proof (intro conjI)
  have h: "hex_fixed hex_digits k n \<noteq> []" "[] \<noteq> hex_fixed hex_digits k n" if "0 < k" for k n
    using that length_hex_fixed [of hex_digits k n] by (metis length_0_conv less_irrefl)+
  show "parse_u64 (''0x'' @ hex_fixed hex_digits 16 (unat w)) = Some w"
    using strto_hex(1) [of 16 "unat w"] h [of 16] unat_bound [of w]
    by (auto simp: parse_u64_def char_at_def strtoull_def simp del: hex_fixed.simps)
  have "(ucast (ucast v :: u64) :: u32) = v"
    by (intro bit_word_eqI) (auto simp: bit_simps)
  then show "parse_u32 (''0x'' @ hex_fixed hex_digits 8 (unat v)) = Some v"
    using strto_hex(1) [of 8 "unat v"] h [of 8] unat_bound [of v]
    by (auto simp: parse_u32_def char_at_def strtoull_def simp del: hex_fixed.simps)
qed (rule parse_u64_dec parse_u32_dec)+

text \<open>
  Despite what is said above it, \<open>parse_u64\<close> accepts a negative number behind the prefix and takes it
  modulo \<open>2 ^ 64\<close>.
\<close>

theorem parse_u64_negative:
  "parse_u64 (''0x-'' @ hex_fixed hex_digits 16 (unat w)) = Some (- w)"
proof -
  have "hex_fixed hex_digits 16 (unat w) \<noteq> []"
    using length_hex_fixed [of hex_digits 16 "unat w"] by (metis length_0_conv zero_neq_numeral)
  then show ?thesis
    using strto_hex(2) [of 16 "unat w"] unat_bound [of w]
    by (auto simp: parse_u64_def char_at_def strtoull_def simp del: hex_fixed.simps)
qed

section \<open>Time strings\<close>

text \<open>
  A time in decimal with a unit is converted to microseconds, or rejected if the product does not
  fit into 63 bits; a number beyond them is taken for the largest one.
\<close>

theorem parse_time_string:
  assumes "(unit, m) \<in> {('''', 1000000), (''s'', 1000000), (''ms'', 1000), (''us'', 1)}"
    and "list_all c_isspace spaces"
  shows "parse_time_string_us (Some (dec_nat n @ spaces @ unit)) =
    (let v = min n (2 ^ 63 - 1) in if v * m \<le> 2 ^ 63 - 1 then int (v * m) else -1)"
proof -
  have "digit_val 10 (hd (spaces @ unit)) = None" if "spaces @ unit \<noteq> []"
  proof (cases spaces)
    case Nil
    with that assms(1) show ?thesis by (auto simp: digit_val_def hex_val_def Let_def)
  next
    case (Cons c cs)
    with assms(2) have "c_isspace c" by simp
    with Cons show ?thesis using digit_val_other(1) [of 10 c] by (cases "digit_val 10 c") auto
  qed
  then have s: "strto 10 (dec_nat n @ spaces @ unit) = Some (False, n, spaces @ unit)"
    using strto_dec [of "spaces @ unit" n] by blast
  have d: "dropWhile c_isspace (spaces @ unit) = unit"
  proof -
    have "dropWhile c_isspace (spaces @ unit) = dropWhile c_isspace unit"
      using assms(2) by (simp add: dropWhile_append1 list_all_iff)
    then show ?thesis using assms(1) by (auto simp: c_isspace_def)
  qed
  have ne: "dec_nat n @ spaces @ unit \<noteq> []" "spaces @ unit \<noteq> dec_nat n @ spaces @ unit"
    using dec_nat_digits [of n] by auto
  let ?v = "min (2 ^ 63 - 1) (int n)"
  have l: "strtoll 10 (dec_nat n @ spaces @ unit) = (?v, spaces @ unit)" by (simp add: strtoll_def s)
  have pos: "\<not> ?v < 0" by simp
  have "(if unit = [] then Some 1000000 else if unit \<in> {''s'', ''S''} then Some 1000000
      else if unit \<in> {''ms'', ''mS'', ''Ms'', ''MS''} then Some 1000
      else if unit \<in> {''us'', ''uS'', ''Us'', ''US''} then Some 1 else None) = Some (int m)"
    using assms(1) by auto
  then have run: "parse_time_string_us (Some (dec_nat n @ spaces @ unit)) =
      (if (2 ^ 63 - 1) div int m < ?v then -1 else ?v * int m)"
    unfolding parse_time_string_us_def option.case if_not_P [OF ne(1)] l Let_def prod.case d
    using ne(2) pos by (simp only: if_False simp_thms option.case)
  have v: "?v = int (min n (2 ^ 63 - 1))" by simp
  have "(2 ^ 63 - 1) div int m < ?v \<longleftrightarrow> \<not> min n (2 ^ 63 - 1) * m \<le> 2 ^ 63 - 1"
    using assms unfolding v by auto
  then show ?thesis unfolding run v Let_def by auto
qed

theorem parse_time_string_witness:
  "parse_time_string_us (Some (dec_nat 1500 @ '' '' @ ''ms'')) = 1500000"
  using parse_time_string [of "''ms''" 1000 "'' ''" 1500] by (simp add: c_isspace_def)

section \<open>Arguments\<close>

text \<open>
  Since the index of positional arguments is not incremented, arguments beyond the first are not
  reported: each replaces the one before it.
\<close>

theorem surplus_positional_accepted:
  assumes "find_positional_param params 0 = Some (p, i)" and "i < length args"
    and "list_all (\<lambda>a. char_at a 0 \<noteq> CHR ''-'') argv" and "argv \<noteq> []"
  shows "fill_args params args argv = Inr (args[i := Some (last argv)])"
  using assms(2-4)
proof (induction argv arbitrary: args)
  case (Cons a argv)
  then show ?case using assms(1) by (cases argv) auto
qed simp

theorem surplus_positional_accepted_witness:
  "fill_args [\<lparr>param_type = HTOOL_POSITIONAL, param_ch = CHR 0x00, param_name = ''source-file'', default_value = None, param_desc = None\<rparr>]
    [None] [''a'', ''b''] = Inr [Some ''b'']"
  using surplus_positional_accepted [of "[\<lparr>param_type = HTOOL_POSITIONAL, param_ch = CHR 0x00,
      param_name = ''source-file'', default_value = None, param_desc = None\<rparr>]" _ 0 "[None]" "[''a'', ''b'']"]
  by (auto simp: find_positional_param_def char_at_def)

definition set_flag :: "string \<times> string \<Rightarrow> string" where
  "set_flag nv = ''--'' @ fst nv @ ''='' @ snd nv"

lemma flag_name_equals_set:
  "CHR ''='' \<notin> set a \<Longrightarrow> CHR ''='' \<notin> set n \<Longrightarrow> flag_name_equals a (n @ ''='' @ v) \<longleftrightarrow> a = n"
proof (induction a arbitrary: n)
  case Nil
  then show ?case by (cases n) auto
next
  case (Cons x a)
  then show ?case by (cases n) auto
qed

lemma no_prefix_differs:
  assumes "char_at (n @ ''='' @ v) 0 = CHR ''n''" "char_at (n @ ''='' @ v) 1 = CHR ''o''" and "CHR ''='' \<notin> set a"
  shows "a \<noteq> drop 2 (n @ ''='' @ v)"
proof -
  obtain n' where "n = CHR ''n'' # CHR ''o'' # n'"
  proof (cases n)
    case Nil
    with assms(1) show ?thesis by (simp add: char_at_def)
  next
    case (Cons x xs)
    with assms(1,2) that show ?thesis by (cases xs) (auto simp: char_at_def)
  qed
  then show ?thesis using assms(3) by auto
qed

lemma find_long_set:
  assumes "CHR ''='' \<notin> set n" and "list_all (\<lambda>p. CHR ''='' \<notin> set (param_name p)) ps"
    and "list_all (\<lambda>p. param_name p = n \<longrightarrow> is_flag p) ps"
  shows "find_long i ps (n @ ''='' @ v) = map_option (\<lambda>(p, k). (p, k, Some v)) (find_param_from i ps n)"
  using assms(2,3)
proof (induction ps arbitrary: i)
  case (Cons p ps)
  have d: "dropWhile (\<lambda>c. c \<noteq> CHR ''='') (n @ ''='' @ v) = ''='' @ v"
    using assms(1) by (subst dropWhile_append2) auto
  have f: "flag_name_equals (param_name p) (n @ ''='' @ v) \<longleftrightarrow> param_name p = n"
    using Cons.prems assms(1) by (intro flag_name_equals_set) auto
  have no: "\<not> (char_at (n @ ''='' @ v) 0 = CHR ''n'' \<and> char_at (n @ ''='' @ v) 1 = CHR ''o'' \<and>
      param_type p = HTOOL_FLAG_BOOL \<and> param_name p = drop 2 (n @ ''='' @ v))"
    using no_prefix_differs [of n v "param_name p"] Cons.prems by auto
  have IH: "find_long (i + 1) ps (n @ ''='' @ v) = map_option (\<lambda>(p, k). (p, k, Some v)) (find_param_from (i + 1) ps n)"
    using Cons.prems by (intro Cons.IH) simp_all
  show ?case
    using Cons.prems IH unfolding find_long.simps if_not_P [OF no] f d by (auto simp: flag_value_def)
qed simp

lemma find_param_from_nth:
  "find_param_from i ps n = Some (p, k) \<Longrightarrow> i \<le> k \<and> k < i + length ps \<and> ps ! (k - i) = p \<and> param_name p = n"
proof (induction ps arbitrary: i)
  case (Cons q ps)
  show ?case
  proof (cases "param_name q = n")
    case True
    with Cons.prems show ?thesis by auto
  next
    case False
    with Cons.prems have "find_param_from (i + 1) ps n = Some (p, k)" by simp
    from Cons.IH [OF this] have r: "i + 1 \<le> k" "k < i + 1 + length ps" "ps ! (k - (i + 1)) = p" "param_name p = n" by auto
    then have "k - i = Suc (k - (i + 1))" by simp
    then have "(q # ps) ! (k - i) = p" using r(3) by simp
    with r show ?thesis by simp
  qed
qed simp

lemma find_param_from_distinct:
  "distinct (map param_name ps) \<Longrightarrow> p \<in> set ps \<Longrightarrow> \<exists>k. find_param_from i ps (param_name p) = Some (p, k)"
proof (induction ps arbitrary: i)
  case (Cons q ps)
  show ?case
  proof (cases "p = q")
    case False
    with Cons.prems have "p \<in> set ps" "param_name q \<noteq> param_name p" by auto
    with Cons.IH [of "i + 1"] Cons.prems(1) show ?thesis by simp
  qed simp
qed simp

text \<open>The values after some flags were set: the last one for each name.\<close>

definition flag_values :: "htool_param list \<Rightarrow> (string \<times> string) list \<Rightarrow> string option list" where
  "flag_values ps sets = map (\<lambda>p. map_of (rev sets) (param_name p)) ps"

abbreviation settings_of :: "htool_param list \<Rightarrow> (string \<times> string) list \<Rightarrow> bool" where
  "settings_of ps sets \<equiv> list_all (\<lambda>(n, v). \<exists>p. p \<in> set ps \<and> param_name p = n \<and> is_flag p) sets"

definition wf_params :: "htool_param list \<Rightarrow> bool" where
  "wf_params ps \<longleftrightarrow> distinct (map param_name ps) \<and> list_all (\<lambda>p. CHR ''='' \<notin> set (param_name p)) ps"

lemma set_flag_start: "set_flag nv \<noteq> ''--help''" "char_at (set_flag nv) 0 = CHR ''-''"
  by (auto simp: set_flag_def char_at_def append_eq_Cons_conv)

lemma find_flag_set:
  assumes wf: "wf_params ps" and p: "p \<in> set ps" "param_name p = n" "is_flag p"
  shows "\<exists>k. find_flag ps (set_flag (n, v)) = Some (p, k, Some v) \<and>
    (flag_values ps done)[k := Some v] = flag_values ps (done @ [(n, v)])"
proof -
  have dist: "distinct (map param_name ps)" and names: "list_all (\<lambda>p. CHR ''='' \<notin> set (param_name p)) ps"
    using wf by (simp_all add: wf_params_def)
  obtain k where k: "find_param_from 0 ps n = Some (p, k)"
    using find_param_from_distinct [OF dist p(1), of 0] p(2) by auto
  note kp = find_param_from_nth [OF k]
  have eq: "CHR ''='' \<notin> set n" using names p by (auto simp: list_all_iff)
  have "list_all (\<lambda>q. param_name q = n \<longrightarrow> is_flag q) ps"
    using dist p by (auto simp: list_all_iff distinct_map inj_on_def)
  from find_long_set [OF eq names this, of 0 v] k
  have f: "find_flag ps (set_flag (n, v)) = Some (p, k, Some v)"
    by (simp add: find_flag_def set_flag_def char_at_def)
  have "(flag_values ps done)[k := Some v] = flag_values ps (done @ [(n, v)])"
  proof (rule nth_equalityI)
    fix j assume j: "j < length ((flag_values ps done)[k := Some v])"
    then have "param_name (ps ! j) = n \<longleftrightarrow> j = k"
      using dist kp by (auto simp: flag_values_def distinct_conv_nth)
    then show "(flag_values ps done)[k := Some v] ! j = flag_values ps (done @ [(n, v)]) ! j"
      using j by (auto simp: flag_values_def nth_list_update)
  qed (simp add: flag_values_def)
  with f show ?thesis by blast
qed

lemma fill_args_sets:
  assumes "wf_params ps"
  shows "settings_of ps rest \<Longrightarrow>
    fill_args ps (flag_values ps done) (map set_flag rest) = Inr (flag_values ps (done @ rest))"
proof (induction rest arbitrary: "done")
  case (Cons nv rest)
  obtain n v where nv: "nv = (n, v)" by (cases nv)
  with Cons.prems obtain p where p: "p \<in> set ps" "param_name p = n" "is_flag p" by auto
  from find_flag_set [OF assms p, of v "done"] show ?case
    using Cons.IH [of "done @ [nv]"] Cons.prems by (auto simp: nv set_flag_start)
qed simp

lemma fill_globals_sets:
  assumes "wf_params ps" and "char_at a 0 \<noteq> CHR ''-''"
  shows "settings_of ps rest \<Longrightarrow>
    fill_globals ps (flag_values ps done) i (map set_flag rest @ a # argv) =
      Inr (i + length rest, flag_values ps (done @ rest))"
proof (induction rest arbitrary: "done" i)
  case (Cons nv rest)
  obtain n v where nv: "nv = (n, v)" by (cases nv)
  with Cons.prems obtain p where p: "p \<in> set ps" "param_name p = n" "is_flag p" by auto
  from find_flag_set [OF assms(1) p, of v "done"] show ?case
    using Cons.IH [of "done @ [nv]" "i + 1"] Cons.prems by (auto simp: nv set_flag_start)
qed (use assms(2) in simp)

lemma no_values: "replicate (length ps) None = flag_values ps []"
  by (simp add: flag_values_def map_replicate_const)

lemma fill_cmd_invocation_sets:
  assumes "wf_params (cmd_params cmd)" and "settings_of (cmd_params cmd) sets"
  shows "fill_cmd_invocation cmd (map set_flag sets) =
    Inr \<lparr>inv_params = cmd_params cmd, inv_args = flag_values (cmd_params cmd) sets\<rparr>"
  using fill_args_sets [OF assms, of "[]"] by (simp add: fill_cmd_invocation_def no_values)

lemma get_param_flag_values:
  assumes "wf_params ps" and "p \<in> set ps"
  shows "get_param \<lparr>inv_params = ps, inv_args = flag_values ps sets\<rparr> (param_name p) =
    Inr (case map_of (rev sets) (param_name p) of Some v \<Rightarrow> Some v | None \<Rightarrow> default_value p)"
proof -
  have "distinct (map param_name ps)" using assms(1) by (simp add: wf_params_def)
  from find_param_from_distinct [OF this assms(2)]
  obtain k where k: "find_param_from 0 ps (param_name p) = Some (p, k)" by blast
  then have "flag_values ps sets ! k = map_of (rev sets) (param_name p)"
    using find_param_from_nth [OF k] by (simp add: flag_values_def)
  with k show ?thesis by (auto simp: get_param_def find_param_by_name_def split: option.splits)
qed

text \<open>
  After a command line of settings \<open>--name=value\<close> of flags the command has, in any order and
  number, reading a parameter yields the last value set for it, whatever characters it has, and its
  default otherwise.
\<close>

theorem last_setting_wins:
  assumes "distinct (map param_name (cmd_params cmd))"
    and "list_all (\<lambda>p. CHR ''='' \<notin> set (param_name p)) (cmd_params cmd)"
    and "settings_of (cmd_params cmd) sets"
    and "p \<in> set (cmd_params cmd)"
  shows "\<exists>iv. fill_cmd_invocation cmd (map set_flag sets) = Inr iv \<and>
    get_param iv (param_name p) =
      Inr (case map_of (rev sets) (param_name p) of Some v \<Rightarrow> Some v | None \<Rightarrow> default_value p)"
proof -
  have wf: "wf_params (cmd_params cmd)" using assms(1,2) by (simp add: wf_params_def)
  show ?thesis using fill_cmd_invocation_sets [OF wf assms(3)] get_param_flag_values [OF wf assms(4)] by simp
qed

definition demo_cmd :: "unit htool_cmd" where
  "demo_cmd = \<lparr>verbs = [''spi'', ''read''], verb_alias = None, cmd_desc = None,
     cmd_params = [\<lparr>param_type = HTOOL_FLAG_VALUE, param_ch = CHR ''s'', param_name = ''start'', default_value = Some ''0'', param_desc = None\<rparr>,
       \<lparr>param_type = HTOOL_FLAG_VALUE, param_ch = CHR ''n'', param_name = ''length'', default_value = None, param_desc = None\<rparr>],
     cmd_func = (), deprecation_message = None\<rparr>"

theorem last_setting_wins_witness:
  "\<exists>iv. fill_cmd_invocation demo_cmd (map set_flag [(''length'', ''1''), (''length'', ''a=b'')]) = Inr iv \<and>
    get_param iv ''length'' = Inr (Some ''a=b'')"
proof -
  have "\<exists>iv. fill_cmd_invocation demo_cmd (map set_flag [(''length'', ''1''), (''length'', ''a=b'')]) = Inr iv \<and>
    get_param iv (param_name (cmd_params demo_cmd ! 1)) =
      Inr (case map_of (rev [(''length'', ''1''), (''length'', ''a=b'')]) (param_name (cmd_params demo_cmd ! 1)) of
        Some v \<Rightarrow> Some v | None \<Rightarrow> default_value (cmd_params demo_cmd ! 1))"
    by (rule last_setting_wins) (simp_all add: demo_cmd_def is_flag_def conj_disj_distribR ex_disj_distrib)
  then show ?thesis by (simp add: demo_cmd_def)
qed

end
