(* ===== verification/Htool_Table.thy ===== *)
theory Htool_Table
  imports Htool_Cmd
begin

text \<open>
  The tables of \<open>examples/htool.c\<close>: its commands in their order, with the macros for words of
  commands from \<open>htool_i2c.h\<close>, \<open>htool_jtag.h\<close>, \<open>htool_rot_usb.h\<close>, \<open>htool_sbs_single.h\<close> and
  \<open>htool_sbs_dual.h\<close> expanded, and its global flags. A function pointer is the name of the function.
\<close>

section \<open>The commands\<close>

definition CMDS_1 :: "string htool_cmd list" where
  "CMDS_1 = [
    \<lparr>verbs = [''usb'', ''list''], verb_alias = None,
      cmd_desc = Some ''List all RoTs connected via USB.'',
      cmd_params = [],
      cmd_func = ''command_usb_list'', deprecation_message = None\<rparr>,
    \<lparr>verbs = [''reboot''], verb_alias = Some [''ec_reboot''],
      cmd_desc = Some ''Reboot the RoT.'',
      cmd_params = [
       \<lparr>param_type = HTOOL_FLAG_BOOL, param_ch = CHR ''w'', param_name = ''warm'', default_value = Some ''false'',
        param_desc = Some ''warm reboot''\<rparr>],
      cmd_func = ''command_reboot'', deprecation_message = None\<rparr>,
    \<lparr>verbs = [''show'', ''firmware_version''], verb_alias = Some [''ec_get_version''],
      cmd_desc = Some ''Get the version of the RoT firmware.'',
      cmd_params = [],
      cmd_func = ''command_get_version'', deprecation_message = None\<rparr>,
    \<lparr>verbs = [''show'', ''chipinfo''], verb_alias = None,
      cmd_desc = Some ''Return details about this specific RoT chip.'',
      cmd_params = [],
      cmd_func = ''command_show_chipinfo'', deprecation_message = None\<rparr>,
    \<lparr>verbs = [''spi'', ''read''], verb_alias = None,
      cmd_desc = Some ''Read from SPI flash into a file'',
      cmd_params = [
       \<lparr>param_type = HTOOL_FLAG_VALUE, param_ch = CHR ''s'', param_name = ''start'', default_value = Some ''0'',
        param_desc = Some ''start address''\<rparr>,
       \<lparr>param_type = HTOOL_FLAG_VALUE, param_ch = CHR ''n'', param_name = ''length'', default_value = None,
        param_desc = Some ''the number of bytes to read''\<rparr>,
       \<lparr>param_type = HTOOL_FLAG_VALUE, param_ch = CHR ''a'', param_name = ''address_mode'', default_value = Some ''3B/4B'',
        param_desc = Some (''3B: 3 byte mode no enter/exit 4B supported'' @ [CHR 0x0A, CHR 0x09] @ ''3B/4B: 3 Byte current but enter 4B for SPI operation'' @ [CHR 0x0A, CHR 0x09] @ ''4B: 4 byte mode only, no enter/exit 4B supported'')\<rparr>,
       \<lparr>param_type = HTOOL_POSITIONAL, param_ch = CHR 0x00, param_name = ''dest-file'', default_value = None,
        param_desc = None\<rparr>],
      cmd_func = ''command_spi_read'', deprecation_message = None\<rparr>,
    \<lparr>verbs = [''spi'', ''update''], verb_alias = None,
      cmd_desc = Some ''Write a file to SPI flash (erase + program).'',
      cmd_params = [
       \<lparr>param_type = HTOOL_FLAG_VALUE, param_ch = CHR ''s'', param_name = ''start'', default_value = Some ''0'',
        param_desc = Some ''start address''\<rparr>,
       \<lparr>param_type = HTOOL_FLAG_BOOL, param_ch = CHR ''v'', param_name = ''verify'', default_value = Some ''true'',
        param_desc = None\<rparr>,
       \<lparr>param_type = HTOOL_FLAG_VALUE, param_ch = CHR ''a'', param_name = ''address_mode'', default_value = Some ''3B/4B'',
        param_desc = Some (''3B: 3 byte mode no enter/exit 4B supported'' @ [CHR 0x0A, CHR 0x09] @ ''3B/4B: 3 Byte current but enter 4B for SPI operation'' @ [CHR 0x0A, CHR 0x09] @ ''4B: 4 byte mode only, no enter/exit 4B supported'')\<rparr>,
       \<lparr>param_type = HTOOL_POSITIONAL, param_ch = CHR 0x00, param_name = ''source-file'', default_value = None,
        param_desc = None\<rparr>],
      cmd_func = ''command_spi_update'', deprecation_message = None\<rparr>,
    \<lparr>verbs = [''spi'', ''passthrough'', ''off''], verb_alias = None,
      cmd_desc = Some ''Disable SPS->SPI passthrough'',
      cmd_params = [],
      cmd_func = ''command_passthrough_disable'', deprecation_message = None\<rparr>,
    \<lparr>verbs = [''spi'', ''passthrough'', ''on''], verb_alias = None,
      cmd_desc = Some ''Enable SPS->SPI passthrough'',
      cmd_params = [],
      cmd_func = ''command_passthrough_enable'', deprecation_message = None\<rparr>,
    \<lparr>verbs = [''target'', ''reset'', ''on''], verb_alias = None,
      cmd_desc = Some ''Put the target device into reset.'',
      cmd_params = [],
      cmd_func = ''command_target_reset_on'', deprecation_message = None\<rparr>,
    \<lparr>verbs = [''target'', ''reset'', ''off''], verb_alias = None,
      cmd_desc = Some ''Take the target device out of reset'',
      cmd_params = [],
      cmd_func = ''command_target_reset_off'', deprecation_message = None\<rparr>,
    \<lparr>verbs = [''target'', ''reset'', ''pulse''], verb_alias = None,
      cmd_desc = Some ''Quickly put the target device in and out of reset'',
      cmd_params = [],
      cmd_func = ''command_target_reset_pulse'', deprecation_message = None\<rparr>,
    \<lparr>verbs = [''target'', ''debug'', ''enable''], verb_alias = None,
      cmd_desc = Some ''Enable target debug.'',
      cmd_params = [],
      cmd_func = ''htool_target_debug_enable'', deprecation_message = None\<rparr>,
    \<lparr>verbs = [''target'', ''debug'', ''disable''], verb_alias = None,
      cmd_desc = Some ''Disable target debug.'',
      cmd_params = [],
      cmd_func = ''htool_target_debug_disable'', deprecation_message = None\<rparr>,
    \<lparr>verbs = [''target'', ''debug'', ''get''], verb_alias = None,
      cmd_desc = Some ''Get target debug status.'',
      cmd_params = [],
      cmd_func = ''htool_target_debug_get'', deprecation_message = None\<rparr>,
    \<lparr>verbs = [''target'', ''watchdog'', ''pet''], verb_alias = None,
      cmd_desc = Some ''Pet the target watchdog.'',
      cmd_params = [
       \<lparr>param_type = HTOOL_FLAG_VALUE, param_ch = CHR ''c'', param_name = ''cookie'', default_value = Some ''0'',
        param_desc = Some ''64-bit notify cookie to pet the watchdog with.''\<rparr>],
      cmd_func = ''htool_target_watchdog_pet'', deprecation_message = None\<rparr>]"

definition CMDS_2 :: "string htool_cmd list" where
  "CMDS_2 = [
    \<lparr>verbs = [''console''], verb_alias = None,
      cmd_desc = Some ''Open a console for communicating with the RoT or devices attached to the RoT.'',
      cmd_params = [
       \<lparr>param_type = HTOOL_FLAG_VALUE, param_ch = CHR ''c'', param_name = ''channel'', default_value = None,
        param_desc = Some ''Which channel to talk to. Typically a fourcc code.''\<rparr>,
       \<lparr>param_type = HTOOL_FLAG_BOOL, param_ch = CHR ''f'', param_name = ''force_drive_tx'', default_value = Some ''0'',
        param_desc = Some (''Drive the UART'' @ [CHR 0x27] @ ''s TX net even if the RoT isn'' @ [CHR 0x27] @ ''t sure whether some other device else is driving it. Only use this option if you are CERTAIN there is no debugging hardware attached.'')\<rparr>,
       \<lparr>param_type = HTOOL_FLAG_BOOL, param_ch = CHR ''h'', param_name = ''history'', default_value = Some ''false'',
        param_desc = Some ''Include data bufferred before the current time.''\<rparr>,
       \<lparr>param_type = HTOOL_FLAG_BOOL, param_ch = CHR ''n'', param_name = ''onlcr'', default_value = Some ''false'',
        param_desc = Some (''Translate received '' @ [CHR 0x22, CHR 0x5C] @ ''n'' @ [CHR 0x22] @ '' to '' @ [CHR 0x22, CHR 0x5C] @ ''r'' @ [CHR 0x5C] @ ''n'' @ [CHR 0x22] @ ''.'')\<rparr>,
       \<lparr>param_type = HTOOL_FLAG_VALUE, param_ch = CHR ''b'', param_name = ''baud_rate'', default_value = Some ''0'',
        param_desc = None\<rparr>,
       \<lparr>param_type = HTOOL_FLAG_BOOL, param_ch = CHR ''s'', param_name = ''snapshot'', default_value = Some ''false'',
        param_desc = Some ''Print a snapshot of most recent console messages.''\<rparr>,
       \<lparr>param_type = HTOOL_FLAG_VALUE, param_ch = CHR 0x00, param_name = ''claim_timeout_secs'', default_value = Some ''60'',
        param_desc = Some ''How long we should attempt to claim the device before returning a fatal error.''\<rparr>,
       \<lparr>param_type = HTOOL_FLAG_VALUE, param_ch = CHR 0x00, param_name = ''yield_ms'', default_value = Some ''50'',
        param_desc = Some ''After releasing the device, how long we should wait before claiming it again. Decrease to reduce console latency. Increase to reduce contention between concurrent clients.''\<rparr>],
      cmd_func = ''command_console'', deprecation_message = None\<rparr>,
    \<lparr>verbs = [''payload'', ''getstatus''], verb_alias = None,
      cmd_desc = Some ''Show the current payload update status'',
      cmd_params = [],
      cmd_func = ''htool_payload_update_getstatus'', deprecation_message = None\<rparr>,
    \<lparr>verbs = [''payload'', ''verify''], verb_alias = None,
      cmd_desc = Some ''Verify the staging side.'',
      cmd_params = [
       \<lparr>param_type = HTOOL_FLAG_BOOL, param_ch = CHR ''d'', param_name = ''descriptor'', default_value = Some ''false'',
        param_desc = Some ''Verify only the image descriptor (PAYLOAD_UPDATE_VERIFY_DESCRIPTOR).''\<rparr>],
      cmd_func = ''htool_payload_update_verify'', deprecation_message = None\<rparr>,
    \<lparr>verbs = [''payload'', ''status''], verb_alias = None,
      cmd_desc = Some ''Show payload status'',
      cmd_params = [],
      cmd_func = ''htool_payload_status'', deprecation_message = None\<rparr>,
    \<lparr>verbs = [''payload'', ''update''], verb_alias = None,
      cmd_desc = Some ''Perform payload update protocol for Titan images.'',
      cmd_params = [
       \<lparr>param_type = HTOOL_POSITIONAL, param_ch = CHR 0x00, param_name = ''source-file'', default_value = None,
        param_desc = None\<rparr>,
       \<lparr>param_type = HTOOL_FLAG_BOOL, param_ch = CHR ''s'', param_name = ''skip_erase'', default_value = Some ''false'',
        param_desc = Some ''Skip erasing the staging side.''\<rparr>,
       \<lparr>param_type = HTOOL_FLAG_BOOL, param_ch = CHR ''b'', param_name = ''binary'', default_value = Some ''false'',
        param_desc = Some ''Update with generic binary file''\<rparr>],
      cmd_func = ''htool_payload_update'', deprecation_message = None\<rparr>,
    \<lparr>verbs = [''payload'', ''confirm''], verb_alias = None,
      cmd_desc = Some ''Finish a payload update confirmation.'',
      cmd_params = [],
      cmd_func = ''htool_payload_update_confirm'', deprecation_message = None\<rparr>,
    \<lparr>verbs = [''payload'', ''get_timeout''], verb_alias = None,
      cmd_desc = Some ''Get the current payload update confirmation timeout.'',
      cmd_params = [],
      cmd_func = ''htool_payload_update_confirm_get_staged_timeout'', deprecation_message = None\<rparr>,
    \<lparr>verbs = [''payload'', ''timeout_enable''], verb_alias = None,
      cmd_desc = Some ''Enable/Disable the timeout mechanism for payload update confirm'',
      cmd_params = [
       \<lparr>param_type = HTOOL_FLAG_BOOL, param_ch = CHR ''e'', param_name = ''enable'', default_value = Some ''true'',
        param_desc = Some ''Enable confirm mode''\<rparr>,
       \<lparr>param_type = HTOOL_FLAG_VALUE, param_ch = CHR ''t'', param_name = ''timeout'', default_value = Some ''0'',
        param_desc = Some ''Timeout in seconds''\<rparr>],
      cmd_func = ''htool_payload_update_confirm_enable'', deprecation_message = None\<rparr>,
    \<lparr>verbs = [''payload'', ''read''], verb_alias = None,
      cmd_desc = Some ''Read content of staging flash for Titan images.'',
      cmd_params = [
       \<lparr>param_type = HTOOL_POSITIONAL, param_ch = CHR 0x00, param_name = ''dest-file'', default_value = None,
        param_desc = None\<rparr>,
       \<lparr>param_type = HTOOL_FLAG_VALUE, param_ch = CHR ''s'', param_name = ''start'', default_value = Some ''0'',
        param_desc = Some ''start address''\<rparr>,
       \<lparr>param_type = HTOOL_FLAG_VALUE, param_ch = CHR ''n'', param_name = ''length'', default_value = Some ''0'',
        param_desc = Some ''length of payload read''\<rparr>],
      cmd_func = ''htool_payload_read'', deprecation_message = None\<rparr>,
    \<lparr>verbs = [''payload'', ''erase''], verb_alias = None,
      cmd_desc = Some ''Erase a range on the staging side.'',
      cmd_params = [
       \<lparr>param_type = HTOOL_FLAG_VALUE, param_ch = CHR ''s'', param_name = ''start'', default_value = None,
        param_desc = Some ''start address of the range to erase''\<rparr>,
       \<lparr>param_type = HTOOL_FLAG_VALUE, param_ch = CHR ''n'', param_name = ''length'', default_value = None,
        param_desc = Some ''length of the range''\<rparr>],
      cmd_func = ''htool_payload_erase'', deprecation_message = None\<rparr>,
    \<lparr>verbs = [''payload'', ''activate''], verb_alias = None,
      cmd_desc = Some ''Activate a payload side for next boot.'',
      cmd_params = [
       \<lparr>param_type = HTOOL_FLAG_VALUE, param_ch = CHR ''s'', param_name = ''side'', default_value = None,
        param_desc = Some ''Side to activate (A or B)''\<rparr>],
      cmd_func = ''htool_payload_activate'', deprecation_message = None\<rparr>]"

definition CMDS_3 :: "string htool_cmd list" where
  "CMDS_3 = [
    \<lparr>verbs = [''payload'', ''info'', ''all''], verb_alias = None,
      cmd_desc = Some ''Display detailed payload info for a Titan image, including region details.'',
      cmd_params = [
       \<lparr>param_type = HTOOL_POSITIONAL, param_ch = CHR 0x00, param_name = ''source-file'', default_value = None,
        param_desc = None\<rparr>],
      cmd_func = ''htool_payload_info_all'', deprecation_message = None\<rparr>,
    \<lparr>verbs = [''payload'', ''info'', ''nonstatic''], verb_alias = None,
      cmd_desc = Some ''Print non-static regions in a Titan image.'',
      cmd_params = [
       \<lparr>param_type = HTOOL_POSITIONAL, param_ch = CHR 0x00, param_name = ''source-file'', default_value = None,
        param_desc = None\<rparr>],
      cmd_func = ''htool_payload_info_nonstatic'', deprecation_message = None\<rparr>,
    \<lparr>verbs = [''payload'', ''info''], verb_alias = None,
      cmd_desc = Some ''Display payload info for a Titan image.'',
      cmd_params = [
       \<lparr>param_type = HTOOL_POSITIONAL, param_ch = CHR 0x00, param_name = ''source-file'', default_value = None,
        param_desc = None\<rparr>],
      cmd_func = ''htool_payload_info'', deprecation_message = None\<rparr>,
    \<lparr>verbs = [''payload'', ''mauv'', ''compiled''], verb_alias = None,
      cmd_desc = Some ''Display compiled MAUV for the payload.'',
      cmd_params = [],
      cmd_func = ''htool_get_compiled_payload_mauv'', deprecation_message = None\<rparr>,
    \<lparr>verbs = [''payload'', ''mauv'', ''effective''], verb_alias = None,
      cmd_desc = Some ''Display effective MAUV for the payload.'',
      cmd_params = [],
      cmd_func = ''htool_get_effective_payload_mauv'', deprecation_message = None\<rparr>,
    \<lparr>verbs = [''firmware_update'', ''update_from_flash_and_reset''], verb_alias = None,
      cmd_desc = Some ''Installs a firmware update from a bundle staged in the external flash.'',
      cmd_params = [
       \<lparr>param_type = HTOOL_FLAG_VALUE, param_ch = CHR ''o'', param_name = ''offset'', default_value = Some ''0'',
        param_desc = Some ''Offset in the the external flash''\<rparr>],
      cmd_func = ''htool_firmware_update'', deprecation_message = None\<rparr>,
    \<lparr>verbs = [''dfu'', ''update''], verb_alias = None,
      cmd_desc = Some ''Directly install a PIE-RoT fwupdate.'',
      cmd_params = [
       \<lparr>param_type = HTOOL_POSITIONAL, param_ch = CHR 0x00, param_name = ''fwupdate-file'', default_value = None,
        param_desc = Some ''A .fwupdate file compatible with this device.''\<rparr>,
       \<lparr>param_type = HTOOL_FLAG_VALUE, param_ch = CHR 0x00, param_name = ''reset'', default_value = Some ''warm'',
        param_desc = Some ''warm, cold, or none''\<rparr>,
       \<lparr>param_type = HTOOL_FLAG_BOOL, param_ch = CHR ''f'', param_name = ''force'', default_value = Some ''false'',
        param_desc = Some ''always attempt dfu update twice regardless of the RoT state''\<rparr>],
      cmd_func = ''htool_dfu_update'', deprecation_message = None\<rparr>,
    \<lparr>verbs = [''dfu'', ''check''], verb_alias = None,
      cmd_desc = Some ''Check that the device is running firmware matching a fwupdate bundle.'',
      cmd_params = [
       \<lparr>param_type = HTOOL_POSITIONAL, param_ch = CHR 0x00, param_name = ''fwupdate-file'', default_value = None,
        param_desc = Some ''A .fwupdate file compatible with this device.''\<rparr>],
      cmd_func = ''htool_dfu_check'', deprecation_message = None\<rparr>,
    \<lparr>verbs = [''flash_spi_info''], verb_alias = None,
      cmd_desc = Some ''Get SPI NOR flash info.'',
      cmd_params = [],
      cmd_func = ''command_flash_spi_info'', deprecation_message = None\<rparr>,
    \<lparr>verbs = [''statistics''], verb_alias = None,
      cmd_desc = Some ''Show statistics'',
      cmd_params = [],
      cmd_func = ''htool_statistics'', deprecation_message = None\<rparr>,
    \<lparr>verbs = [''get_panic''], verb_alias = None,
      cmd_desc = Some ''Retrieve or clear the stored panic record.'',
      cmd_params = [
       \<lparr>param_type = HTOOL_FLAG_BOOL, param_ch = CHR ''c'', param_name = ''clear'', default_value = Some ''false'',
        param_desc = Some ''Clear the stored panic record.''\<rparr>,
       \<lparr>param_type = HTOOL_FLAG_BOOL, param_ch = CHR ''h'', param_name = ''hexdump'', default_value = Some ''false'',
        param_desc = Some ''Output the panic record as a hexdump.''\<rparr>,
       \<lparr>param_type = HTOOL_FLAG_VALUE, param_ch = CHR ''f'', param_name = ''file'', default_value = Some '''',
        param_desc = Some ''Dump the raw panic record to a file.''\<rparr>],
      cmd_func = ''htool_panic_get_panic'', deprecation_message = None\<rparr>,
    \<lparr>verbs = [''authz_record'', ''read''], verb_alias = None,
      cmd_desc = Some ''Read the current authorization record'',
      cmd_params = [],
      cmd_func = ''command_authz_record_read'', deprecation_message = None\<rparr>,
    \<lparr>verbs = [''authz_record'', ''erase''], verb_alias = None,
      cmd_desc = Some ''Erase the current authorization record'',
      cmd_params = [],
      cmd_func = ''command_authz_record_erase'', deprecation_message = None\<rparr>,
    \<lparr>verbs = [''authz_record'', ''build''], verb_alias = None,
      cmd_desc = Some ''Build an empty authorization record for the chip'',
      cmd_params = [
       \<lparr>param_type = HTOOL_FLAG_VALUE, param_ch = CHR ''c'', param_name = ''caps'', default_value = Some ''0'',
        param_desc = Some ''requested capabilities''\<rparr>],
      cmd_func = ''command_authz_record_build'', deprecation_message = None\<rparr>]"

definition CMDS_4 :: "string htool_cmd list" where
  "CMDS_4 = [
    \<lparr>verbs = [''authz_record'', ''set''], verb_alias = None,
      cmd_desc = Some ''Upload an authorization record to the chip'',
      cmd_params = [
       \<lparr>param_type = HTOOL_POSITIONAL, param_ch = CHR 0x00, param_name = ''record'', default_value = None,
        param_desc = None\<rparr>],
      cmd_func = ''command_authz_record_set'', deprecation_message = None\<rparr>,
    \<lparr>verbs = [''authz_host_command'', ''build''], verb_alias = None,
      cmd_desc = Some ''Build an authorized host command'',
      cmd_params = [
       \<lparr>param_type = HTOOL_POSITIONAL, param_ch = CHR 0x00, param_name = ''opcode'', default_value = None,
        param_desc = None\<rparr>],
      cmd_func = ''command_authz_host_command_build'', deprecation_message = None\<rparr>,
    \<lparr>verbs = [''authz_host_command'', ''send''], verb_alias = None,
      cmd_desc = Some ''Send an authorized host command'',
      cmd_params = [
       \<lparr>param_type = HTOOL_POSITIONAL, param_ch = CHR 0x00, param_name = ''command'', default_value = None,
        param_desc = None\<rparr>],
      cmd_func = ''command_authz_host_command_send'', deprecation_message = None\<rparr>,
    \<lparr>verbs = [''arm_coordinated_reset''], verb_alias = None,
      cmd_desc = Some ''Arms the coordinated reset to hard reset when it receives a trigger.'',
      cmd_params = [],
      cmd_func = ''command_arm_coordinated_reset'', deprecation_message = None\<rparr>,
    \<lparr>verbs = [''srtm''], verb_alias = None,
      cmd_desc = Some ''Pushes a measurement into PCR0.'',
      cmd_params = [
       \<lparr>param_type = HTOOL_FLAG_VALUE, param_ch = CHR ''m'', param_name = ''measurement'', default_value = None,
        param_desc = Some ''The measurement to push into PCR0. Must be a hexidecimal string of 128 bytes or less.''\<rparr>],
      cmd_func = ''command_srtm'', deprecation_message = None\<rparr>,
    \<lparr>verbs = [''sbs_single'', ''get''], verb_alias = None,
      cmd_desc = Some ''Get status of SBS mux select'',
      cmd_params = [],
      cmd_func = ''htool_sbs_single_run'', deprecation_message = None\<rparr>,
    \<lparr>verbs = [''sbs_single'', ''connect_flash_to_rot''], verb_alias = None,
      cmd_desc = Some ''Set mux to connect flash to RoT'',
      cmd_params = [],
      cmd_func = ''htool_sbs_single_run'', deprecation_message = None\<rparr>,
    \<lparr>verbs = [''sbs_single'', ''connect_flash_to_target''], verb_alias = None,
      cmd_desc = Some ''Set mux to connect flash to target'',
      cmd_params = [],
      cmd_func = ''htool_sbs_single_run'', deprecation_message = None\<rparr>,
    \<lparr>verbs = [''sbs_dual'', ''get''], verb_alias = None,
      cmd_desc = Some ''Get status of SBS mux select'',
      cmd_params = [],
      cmd_func = ''htool_sbs_dual_run'', deprecation_message = None\<rparr>,
    \<lparr>verbs = [''sbs_dual'', ''connect_target_to_spi_flash_0''], verb_alias = None,
      cmd_desc = Some ''Set mux select pin to connect target to spi flash 0 (SBS Dual)'',
      cmd_params = [],
      cmd_func = ''htool_sbs_dual_run'', deprecation_message = None\<rparr>,
    \<lparr>verbs = [''sbs_dual'', ''connect_target_to_spi_flash_1''], verb_alias = None,
      cmd_desc = Some ''Set mux select pin to connect target to spi flash 1 (SBS Dual)'',
      cmd_params = [],
      cmd_func = ''htool_sbs_dual_run'', deprecation_message = None\<rparr>,
    \<lparr>verbs = [''i2c'', ''detect''], verb_alias = None,
      cmd_desc = Some ''Detect I2C devices on bus'',
      cmd_params = [
       \<lparr>param_type = HTOOL_FLAG_VALUE, param_ch = CHR ''b'', param_name = ''bus'', default_value = Some ''0'',
        param_desc = Some ''i2c bus''\<rparr>,
       \<lparr>param_type = HTOOL_FLAG_VALUE, param_ch = CHR ''s'', param_name = ''start'', default_value = Some ''0'',
        param_desc = Some ''7-bit start address''\<rparr>,
       \<lparr>param_type = HTOOL_FLAG_VALUE, param_ch = CHR ''e'', param_name = ''end'', default_value = Some ''127'',
        param_desc = Some ''7-bit end address''\<rparr>],
      cmd_func = ''htool_i2c_run'', deprecation_message = None\<rparr>,
    \<lparr>verbs = [''i2c'', ''read''], verb_alias = None,
      cmd_desc = Some ''Perform I2C transaction'',
      cmd_params = [
       \<lparr>param_type = HTOOL_FLAG_VALUE, param_ch = CHR ''b'', param_name = ''bus'', default_value = Some ''0'',
        param_desc = Some ''i2c bus''\<rparr>,
       \<lparr>param_type = HTOOL_FLAG_VALUE, param_ch = CHR ''f'', param_name = ''frequency'', default_value = Some ''400'',
        param_desc = Some ''i2c bus frequency (100/400/1000)''\<rparr>,
       \<lparr>param_type = HTOOL_FLAG_VALUE, param_ch = CHR ''a'', param_name = ''address'', default_value = None,
        param_desc = Some ''start address''\<rparr>,
       \<lparr>param_type = HTOOL_FLAG_VALUE, param_ch = CHR ''o'', param_name = ''offset'', default_value = Some ''-1'',
        param_desc = Some ''register offset to read''\<rparr>,
       \<lparr>param_type = HTOOL_FLAG_BOOL, param_ch = CHR ''r'', param_name = ''repeated_start'', default_value = Some ''true'',
        param_desc = Some ''Use repeated start between write and read messages when reading register from given offset''\<rparr>,
       \<lparr>param_type = HTOOL_FLAG_VALUE, param_ch = CHR ''l'', param_name = ''length'', default_value = None,
        param_desc = Some ''how many bytes to read''\<rparr>],
      cmd_func = ''htool_i2c_run'', deprecation_message = None\<rparr>]"

definition CMDS_5 :: "string htool_cmd list" where
  "CMDS_5 = [
    \<lparr>verbs = [''i2c'', ''write''], verb_alias = None,
      cmd_desc = Some ''Perform I2C transaction'',
      cmd_params = [
       \<lparr>param_type = HTOOL_FLAG_VALUE, param_ch = CHR ''b'', param_name = ''bus'', default_value = Some ''0'',
        param_desc = Some ''i2c bus''\<rparr>,
       \<lparr>param_type = HTOOL_FLAG_VALUE, param_ch = CHR ''f'', param_name = ''frequency'', default_value = Some ''400'',
        param_desc = Some ''i2c bus frequency (100/400/1000)''\<rparr>,
       \<lparr>param_type = HTOOL_FLAG_VALUE, param_ch = CHR ''a'', param_name = ''address'', default_value = None,
        param_desc = Some ''start address''\<rparr>,
       \<lparr>param_type = HTOOL_FLAG_VALUE, param_ch = CHR ''o'', param_name = ''offset'', default_value = Some ''-1'',
        param_desc = Some ''register offset to write''\<rparr>,
       \<lparr>param_type = HTOOL_FLAG_BOOL, param_ch = CHR ''r'', param_name = ''no_stop'', default_value = Some ''false'',
        param_desc = Some (''don'' @ [CHR 0x27] @ ''t send stop bit'')\<rparr>,
       \<lparr>param_type = HTOOL_POSITIONAL, param_ch = CHR 0x00, param_name = ''byte_stream'', default_value = None,
        param_desc = None\<rparr>],
      cmd_func = ''htool_i2c_run'', deprecation_message = None\<rparr>,
    \<lparr>verbs = [''i2c'', ''mux_ctrl'', ''get''], verb_alias = None,
      cmd_desc = Some ''Get status of I2C Mux sel (if present)'',
      cmd_params = [],
      cmd_func = ''htool_i2c_muxctrl_get'', deprecation_message = None\<rparr>,
    \<lparr>verbs = [''i2c'', ''mux_ctrl'', ''select_target''], verb_alias = None,
      cmd_desc = Some ''(Deprecated) Change I2C Mux sel (if present) to select RoT as controller'',
      cmd_params = [],
      cmd_func = ''htool_i2c_muxctrl_select_rot'', deprecation_message = Some ([CHR 0x60] @ ''select_target'' @ [CHR 0x60] @ '' is deprecated. Please use '' @ [CHR 0x60] @ ''select_rot'' @ [CHR 0x60] @ '' instead'')\<rparr>,
    \<lparr>verbs = [''i2c'', ''mux_ctrl'', ''select_rot''], verb_alias = None,
      cmd_desc = Some ''Change I2C Mux sel (if present) to select RoT as controller'',
      cmd_params = [],
      cmd_func = ''htool_i2c_muxctrl_select_rot'', deprecation_message = None\<rparr>,
    \<lparr>verbs = [''i2c'', ''mux_ctrl'', ''select_host''], verb_alias = None,
      cmd_desc = Some ''Change I2C Mux sel (if present) to select Host as controller'',
      cmd_params = [],
      cmd_func = ''htool_i2c_muxctrl_select_host'', deprecation_message = None\<rparr>,
    \<lparr>verbs = [''target_usb'', ''mux_ctrl'', ''get''], verb_alias = None,
      cmd_desc = Some ''(Deprecated) Get status of USB mux select (if present)'',
      cmd_params = [],
      cmd_func = ''htool_rot_usb_muxctrl_get'', deprecation_message = Some ([CHR 0x60] @ ''target_usb'' @ [CHR 0x60] @ '' is deprecated. Please use '' @ [CHR 0x60] @ ''rot_usb'' @ [CHR 0x60] @ '' instead'')\<rparr>,
    \<lparr>verbs = [''target_usb'', ''mux_ctrl'', ''connect_target_to_host''], verb_alias = None,
      cmd_desc = Some ''(Deprecated) Change USB mux select (if present) so that RoT is connected to Host'',
      cmd_params = [],
      cmd_func = ''htool_rot_usb_muxctrl_connect_rot_to_host'', deprecation_message = Some ([CHR 0x60] @ ''target_usb'' @ [CHR 0x60] @ '' and '' @ [CHR 0x60] @ ''connect_target_to_host'' @ [CHR 0x60] @ '' are deprecated. Please use '' @ [CHR 0x60] @ ''rot_usb'' @ [CHR 0x60] @ '' and '' @ [CHR 0x60] @ ''connect_rot_to_host'' @ [CHR 0x60] @ '' respectively instead'')\<rparr>,
    \<lparr>verbs = [''target_usb'', ''mux_ctrl'', ''connect_target_to_front_panel''], verb_alias = None,
      cmd_desc = Some ''(Deprecated) Change USB mux select (if present) so that RoT is connected to Front panel'',
      cmd_params = [],
      cmd_func = ''htool_rot_usb_muxctrl_connect_rot_to_front_panel'', deprecation_message = Some ([CHR 0x60] @ ''target_usb'' @ [CHR 0x60] @ '' and '' @ [CHR 0x60] @ ''connect_target_to_front_panel'' @ [CHR 0x60] @ '' are deprecated. Please use '' @ [CHR 0x60] @ ''rot_usb'' @ [CHR 0x60] @ '' and '' @ [CHR 0x60] @ ''connect_rot_to_front_panel'' @ [CHR 0x60] @ '' respectively instead'')\<rparr>,
    \<lparr>verbs = [''rot_usb'', ''mux_ctrl'', ''get''], verb_alias = None,
      cmd_desc = Some ''Get status of USB mux select (if present)'',
      cmd_params = [],
      cmd_func = ''htool_rot_usb_muxctrl_get'', deprecation_message = None\<rparr>,
    \<lparr>verbs = [''rot_usb'', ''mux_ctrl'', ''connect_rot_to_host''], verb_alias = None,
      cmd_desc = Some ''Change USB mux select (if present) so that RoT is connected to Host'',
      cmd_params = [],
      cmd_func = ''htool_rot_usb_muxctrl_connect_rot_to_host'', deprecation_message = None\<rparr>,
    \<lparr>verbs = [''rot_usb'', ''mux_ctrl'', ''connect_rot_to_front_panel''], verb_alias = None,
      cmd_desc = Some ''Change USB mux select (if present) so that RoT is connected to Front panel'',
      cmd_params = [],
      cmd_func = ''htool_rot_usb_muxctrl_connect_rot_to_front_panel'', deprecation_message = None\<rparr>,
    \<lparr>verbs = [''raw_host_command''], verb_alias = None,
      cmd_desc = Some ''Stream raw host commands via stdin/stdout'',
      cmd_params = [],
      cmd_func = ''command_raw_host_command'', deprecation_message = None\<rparr>]"

definition CMDS_6 :: "string htool_cmd list" where
  "CMDS_6 = [
    \<lparr>verbs = [''jtag'', ''read_idcode''], verb_alias = None,
      cmd_desc = Some ''Read IDCODE for a device over JTAG. Assumes only a single device in chain'',
      cmd_params = [
       \<lparr>param_type = HTOOL_FLAG_VALUE, param_ch = CHR ''i'', param_name = ''jtag_interface_id'', default_value = Some ''0'',
        param_desc = Some ''JTAG interface ID (0/1) to send the host command to.''\<rparr>,
       \<lparr>param_type = HTOOL_FLAG_VALUE, param_ch = CHR ''d'', param_name = ''clk_idiv'', default_value = Some ''47'',
        param_desc = Some (''Divisor to use for JTAG clock (TCK). A value of '' @ [CHR 0x60] @ ''n'' @ [CHR 0x60] @ '' sets the max clock rate to '' @ [CHR 0x60] @ ''(48/(n+1))'' @ [CHR 0x60] @ '' MHz. Default value of 47 sets the clock frequency to 1MHz'')\<rparr>],
      cmd_func = ''htool_jtag_run'', deprecation_message = None\<rparr>,
    \<lparr>verbs = [''jtag'', ''test_bypass''], verb_alias = None,
      cmd_desc = Some ''Send test pattern of 64 bytes to JTAG device in BYPASS mode. Assumes only a single device in chain'',
      cmd_params = [
       \<lparr>param_type = HTOOL_FLAG_VALUE, param_ch = CHR ''i'', param_name = ''jtag_interface_id'', default_value = Some ''0'',
        param_desc = Some ''JTAG interface ID (0/1) to send the host command to.''\<rparr>,
       \<lparr>param_type = HTOOL_FLAG_VALUE, param_ch = CHR ''d'', param_name = ''clk_idiv'', default_value = Some ''47'',
        param_desc = Some (''Divisor to use for JTAG clock (TCK). A value of '' @ [CHR 0x60] @ ''n'' @ [CHR 0x60] @ '' sets the max clock frequency to '' @ [CHR 0x60] @ ''(48/(n+1))'' @ [CHR 0x60] @ '' MHz. Default value of 47 sets the clock frequency to 1MHz'')\<rparr>,
       \<lparr>param_type = HTOOL_POSITIONAL, param_ch = CHR 0x00, param_name = ''tdi_bytes'', default_value = Some '''',
        param_desc = Some ''64 bytes (space separated) to send over TDI when the JTAG device is in BYPASS mode''\<rparr>],
      cmd_func = ''htool_jtag_run'', deprecation_message = None\<rparr>,
    \<lparr>verbs = [''external_usb_host'', ''check_presence''], verb_alias = None,
      cmd_desc = Some ''Check presence of an External USB host connected to the system containing RoT'',
      cmd_params = [],
      cmd_func = ''htool_external_usb_host_check_presence'', deprecation_message = None\<rparr>,
    \<lparr>verbs = [''jtag'', ''program_and_verify_pld''], verb_alias = None,
      cmd_desc = Some ''Program and verify a PLD over JTAG. Assumes only a single device in chain'',
      cmd_params = [
       \<lparr>param_type = HTOOL_FLAG_VALUE, param_ch = CHR ''i'', param_name = ''jtag_interface_id'', default_value = Some ''0'',
        param_desc = Some ''JTAG interface ID (0/1) to send the host command to.''\<rparr>,
       \<lparr>param_type = HTOOL_FLAG_VALUE, param_ch = CHR ''o'', param_name = ''offset'', default_value = Some ''0'',
        param_desc = Some ''Offset to read program and verify data from''\<rparr>],
      cmd_func = ''htool_jtag_run'', deprecation_message = None\<rparr>,
    \<lparr>verbs = [''jtag'', ''verify_pld''], verb_alias = None,
      cmd_desc = Some ''Verify a PLD over JTAG. Assumes only a single device in chain'',
      cmd_params = [
       \<lparr>param_type = HTOOL_FLAG_VALUE, param_ch = CHR ''i'', param_name = ''jtag_interface_id'', default_value = Some ''0'',
        param_desc = Some ''JTAG interface ID (0/1) to send the host command to.''\<rparr>,
       \<lparr>param_type = HTOOL_FLAG_VALUE, param_ch = CHR ''o'', param_name = ''offset'', default_value = Some ''0'',
        param_desc = Some ''Offset to read verify data from''\<rparr>],
      cmd_func = ''htool_jtag_run'', deprecation_message = None\<rparr>,
    \<lparr>verbs = [''storage'', ''read''], verb_alias = None,
      cmd_desc = Some ''Read from the controlled storage'',
      cmd_params = [
       \<lparr>param_type = HTOOL_FLAG_VALUE, param_ch = CHR ''s'', param_name = ''slot'', default_value = Some ''0'',
        param_desc = Some ''slot''\<rparr>,
       \<lparr>param_type = HTOOL_POSITIONAL, param_ch = CHR 0x00, param_name = ''dest-file'', default_value = Some '''',
        param_desc = None\<rparr>],
      cmd_func = ''htool_controlled_storage_read'', deprecation_message = None\<rparr>,
    \<lparr>verbs = [''storage'', ''write''], verb_alias = None,
      cmd_desc = Some ''Write to the controlled storage'',
      cmd_params = [
       \<lparr>param_type = HTOOL_FLAG_VALUE, param_ch = CHR ''s'', param_name = ''slot'', default_value = Some ''0'',
        param_desc = Some ''slot''\<rparr>,
       \<lparr>param_type = HTOOL_POSITIONAL, param_ch = CHR 0x00, param_name = ''source-file'', default_value = None,
        param_desc = None\<rparr>],
      cmd_func = ''htool_controlled_storage_write'', deprecation_message = None\<rparr>]"

definition CMDS_7 :: "string htool_cmd list" where
  "CMDS_7 = [
    \<lparr>verbs = [''storage'', ''delete''], verb_alias = None,
      cmd_desc = Some ''Delete from the controlled storage'',
      cmd_params = [
       \<lparr>param_type = HTOOL_FLAG_VALUE, param_ch = CHR ''s'', param_name = ''slot'', default_value = Some ''0'',
        param_desc = Some ''slot''\<rparr>],
      cmd_func = ''htool_controlled_storage_delete'', deprecation_message = None\<rparr>,
    \<lparr>verbs = [''gpio'', ''set_drive_strength''], verb_alias = None,
      cmd_desc = Some ''Set GPIO drive strength'',
      cmd_params = [
       \<lparr>param_type = HTOOL_FLAG_VALUE, param_ch = CHR ''s'', param_name = ''strength'', default_value = None,
        param_desc = Some ''The drive strength to set from 0 - 15''\<rparr>,
       \<lparr>param_type = HTOOL_FLAG_VALUE, param_ch = CHR ''d'', param_name = ''dio'', default_value = None,
        param_desc = Some (''Configure the DIO pad with the given index. Values are:'' @ [CHR 0x0A] @ ''          0 => USB_DP'' @ [CHR 0x0A] @ ''          1 => USB_DN'' @ [CHR 0x0A] @ ''          2-5 => SPI_HOST0_D0-3'' @ [CHR 0x0A] @ ''          6-9 => SPI_DEV_D0-3'' @ [CHR 0x0A] @ ''          12 => SPI_DEV_CLK'' @ [CHR 0x0A] @ ''          13 => SPI_DEV_CSB'' @ [CHR 0x0A] @ ''          14 => SPI_HOST0_CLK'' @ [CHR 0x0A] @ ''          15 => SPI_HOST0_CSB'')\<rparr>,
       \<lparr>param_type = HTOOL_FLAG_VALUE, param_ch = CHR ''m'', param_name = ''mio'', default_value = None,
        param_desc = Some (''Configure the MIO pad with the given index. Values are:'' @ [CHR 0x0A] @ ''          0-8 => IOA0-8'' @ [CHR 0x0A] @ ''          9-21 => IOB0-12'' @ [CHR 0x0A] @ ''          22-34 => IOC0-12'' @ [CHR 0x0A] @ ''          35-41 => IOR0-7'' @ [CHR 0x0A] @ ''          42-46 => IOR10-13'')\<rparr>],
      cmd_func = ''command_set_gpio_drive_strength'', deprecation_message = None\<rparr>,
    \<lparr>verbs = [''gpio'', ''get_drive_strength''], verb_alias = None,
      cmd_desc = Some ''Get GPIO drive strength'',
      cmd_params = [
       \<lparr>param_type = HTOOL_FLAG_VALUE, param_ch = CHR ''d'', param_name = ''dio'', default_value = None,
        param_desc = Some (''The DIO pad with the given index. Values are:'' @ [CHR 0x0A] @ ''          0 => USB_DP'' @ [CHR 0x0A] @ ''          1 => USB_DN'' @ [CHR 0x0A] @ ''          2-5 => SPI_HOST0_D0-3'' @ [CHR 0x0A] @ ''          6-9 => SPI_DEV_D0-3'' @ [CHR 0x0A] @ ''          12 => SPI_DEV_CLK'' @ [CHR 0x0A] @ ''          13 => SPI_DEV_CSB'' @ [CHR 0x0A] @ ''          14 => SPI_HOST0_CLK'' @ [CHR 0x0A] @ ''          15 => SPI_HOST0_CSB'')\<rparr>,
       \<lparr>param_type = HTOOL_FLAG_VALUE, param_ch = CHR ''m'', param_name = ''mio'', default_value = None,
        param_desc = Some (''The MIO pad with the given index. Values are:'' @ [CHR 0x0A] @ ''          0-8 => IOA0-8'' @ [CHR 0x0A] @ ''          9-21 => IOB0-12'' @ [CHR 0x0A] @ ''          22-34 => IOC0-12'' @ [CHR 0x0A] @ ''          35-41 => IOR0-7'' @ [CHR 0x0A] @ ''          42-46 => IOR10-13'')\<rparr>],
      cmd_func = ''command_get_gpio_drive_strength'', deprecation_message = None\<rparr>,
    \<lparr>verbs = [''hello''], verb_alias = None,
      cmd_desc = Some ''A test function to send and receive an integer'',
      cmd_params = [
       \<lparr>param_type = HTOOL_FLAG_VALUE, param_ch = CHR ''n'', param_name = ''number'', default_value = Some ''0'',
        param_desc = Some ''The 32-bit integer to send.''\<rparr>],
      cmd_func = ''command_hello'', deprecation_message = None\<rparr>,
    \<lparr>verbs = [''opentitan_version''], verb_alias = None,
      cmd_desc = Some ''Get OpenTitan version'',
      cmd_params = [],
      cmd_func = ''command_opentitan_version'', deprecation_message = None\<rparr>,
    \<lparr>verbs = [''extract_ot_bundle''], verb_alias = None,
      cmd_desc = Some ''Get OpenTitan version'',
      cmd_params = [
       \<lparr>param_type = HTOOL_POSITIONAL, param_ch = CHR 0x00, param_name = ''source-file'', default_value = None,
        param_desc = None\<rparr>],
      cmd_func = ''command_extract_ot_bundle'', deprecation_message = None\<rparr>,
    \<lparr>verbs = [''key_rotation'', ''get'', ''status''], verb_alias = None,
      cmd_desc = Some ''Reads info from key rotation record and validation method and data.'',
      cmd_params = [],
      cmd_func = ''htool_key_rotation_get_status'', deprecation_message = None\<rparr>,
    \<lparr>verbs = [''key_rotation'', ''get'', ''version''], verb_alias = None,
      cmd_desc = Some ''Gets key rotation header version.'',
      cmd_params = [],
      cmd_func = ''htool_key_rotation_get_version'', deprecation_message = None\<rparr>,
    \<lparr>verbs = [''key_rotation'', ''payload'', ''status''], verb_alias = None,
      cmd_desc = Some ''Gets status regarding payload validation method and validation data.'',
      cmd_params = [],
      cmd_func = ''htool_key_rotation_payload_status'', deprecation_message = None\<rparr>]"

definition CMDS_8 :: "string htool_cmd list" where
  "CMDS_8 = [
    \<lparr>verbs = [''key_rotation'', ''update''], verb_alias = None,
      cmd_desc = Some ''Writes the key rotation record.'',
      cmd_params = [
       \<lparr>param_type = HTOOL_POSITIONAL, param_ch = CHR 0x00, param_name = ''source-file'', default_value = None,
        param_desc = None\<rparr>],
      cmd_func = ''htool_key_rotation_update'', deprecation_message = None\<rparr>,
    \<lparr>verbs = [''key_rotation'', ''read''], verb_alias = None,
      cmd_desc = Some ''Read size bytes from key rotation record.'',
      cmd_params = [
       \<lparr>param_type = HTOOL_FLAG_VALUE, param_ch = CHR ''o'', param_name = ''offset'', default_value = Some ''0'',
        param_desc = Some ''Reads starting from this offset within the record. Default value is 0.''\<rparr>,
       \<lparr>param_type = HTOOL_FLAG_VALUE, param_ch = CHR ''s'', param_name = ''size'', default_value = None,
        param_desc = Some ''Size of the data to read.''\<rparr>,
       \<lparr>param_type = HTOOL_FLAG_VALUE, param_ch = CHR ''h'', param_name = ''half'', default_value = Some ''active'',
        param_desc = Some ''Half of the record to read. - active, staging, a or b. Default value is active.''\<rparr>,
       \<lparr>param_type = HTOOL_FLAG_VALUE, param_ch = CHR ''f'', param_name = ''output_file'', default_value = Some '''',
        param_desc = Some ''Output file to write the data to. Prints by default.''\<rparr>],
      cmd_func = ''htool_key_rotation_read'', deprecation_message = None\<rparr>,
    \<lparr>verbs = [''key_rotation'', ''read_chunk''], verb_alias = None,
      cmd_desc = Some ''Read chunk of given type from the key rotation record.'',
      cmd_params = [
       \<lparr>param_type = HTOOL_FLAG_VALUE, param_ch = CHR ''o'', param_name = ''offset'', default_value = Some ''0'',
        param_desc = Some ''Reads starting from this offset within the chunk.''\<rparr>,
       \<lparr>param_type = HTOOL_FLAG_VALUE, param_ch = CHR ''s'', param_name = ''size'', default_value = Some ''0'',
        param_desc = Some ''Size of the data to read within the chunk. If no size is provided, the entire chunk is read.''\<rparr>,
       \<lparr>param_type = HTOOL_FLAG_VALUE, param_ch = CHR ''i'', param_name = ''idx'', default_value = Some ''0'',
        param_desc = Some ''Chunk index to read.''\<rparr>,
       \<lparr>param_type = HTOOL_FLAG_VALUE, param_ch = CHR ''t'', param_name = ''type'', default_value = None,
        param_desc = Some ''Chunk type to read. - pkey, phash, bkey, bash''\<rparr>,
       \<lparr>param_type = HTOOL_FLAG_VALUE, param_ch = CHR ''f'', param_name = ''output_file'', default_value = Some '''',
        param_desc = Some ''Output file to write the data to. Prints by default.''\<rparr>],
      cmd_func = ''htool_key_rotation_read_chunk_type'', deprecation_message = None\<rparr>,
    \<lparr>verbs = [''key_rotation'', ''chunk_type_count''], verb_alias = None,
      cmd_desc = Some ''Get the number of chunks of a given type in the key rotation record.'',
      cmd_params = [
       \<lparr>param_type = HTOOL_FLAG_VALUE, param_ch = CHR ''t'', param_name = ''type'', default_value = None,
        param_desc = Some ''Chunk type to get the count for. - pkey, phash, bkey, bash''\<rparr>],
      cmd_func = ''htool_key_rotation_chunk_type_count'', deprecation_message = None\<rparr>,
    \<lparr>verbs = [''key_rotation'', ''erase'', ''record''], verb_alias = None,
      cmd_desc = Some ''Erase the key rotation record from both halves of the flash if the mauv allows'',
      cmd_params = [],
      cmd_func = ''htool_key_rotation_erase_record'', deprecation_message = None\<rparr>,
    \<lparr>verbs = [''key_rotation'', ''set'', ''mauv''], verb_alias = None,
      cmd_desc = Some ''Set Key Rotation Record MAUV'',
      cmd_params = [
       \<lparr>param_type = HTOOL_FLAG_VALUE, param_ch = CHR ''m'', param_name = ''mauv'', default_value = None,
        param_desc = Some ''MAUV to set''\<rparr>],
      cmd_func = ''htool_key_rotation_set_mauv'', deprecation_message = None\<rparr>,
    \<lparr>verbs = [''key_rotation'', ''get'', ''mauv''], verb_alias = None,
      cmd_desc = Some ''Get Key Rotation Record MAUV'',
      cmd_params = [],
      cmd_func = ''htool_key_rotation_get_mauv'', deprecation_message = None\<rparr>,
    \<lparr>verbs = [''secure_boot'', ''get_enforcement''], verb_alias = None,
      cmd_desc = Some ''Get the current state of target secure boot enforcement.'',
      cmd_params = [],
      cmd_func = ''htool_secure_boot_get_enforcement'', deprecation_message = None\<rparr>,
    \<lparr>verbs = [''secure_boot'', ''enable_enforcement''], verb_alias = None,
      cmd_desc = Some ''Enable secure boot enforcement.'',
      cmd_params = [],
      cmd_func = ''htool_secure_boot_enable_enforcement'', deprecation_message = None\<rparr>,
    \<lparr>verbs = [''security'', ''info''], verb_alias = None,
      cmd_desc = Some ''Retrieve the Info from firmware'',
      cmd_params = [],
      cmd_func = ''htool_info'', deprecation_message = None\<rparr>]"

definition CMDS_9 :: "string htool_cmd list" where
  "CMDS_9 = [
    \<lparr>verbs = [''tpm_spi'', ''probe''], verb_alias = None,
      cmd_desc = Some ''Probe the TPM_SPI interface (DID/VID) over a spidev interface'',
      cmd_params = [],
      cmd_func = ''htool_tpm_spi_probe'', deprecation_message = None\<rparr>,
    \<lparr>verbs = [''provisioning'', ''read''], verb_alias = None,
      cmd_desc = Some ''Get Provisioning Log'',
      cmd_params = [
       \<lparr>param_type = HTOOL_FLAG_VALUE, param_ch = CHR 0x00, param_name = ''output'', default_value = Some '''',
        param_desc = Some ''The output file which will contain the provisioning log.''\<rparr>],
      cmd_func = ''htool_get_provisioning_log'', deprecation_message = None\<rparr>,
    \<lparr>verbs = [''provisioning'', ''validate_and_sign''], verb_alias = None,
      cmd_desc = Some ''Validate and Sign the provisioning log'',
      cmd_params = [
       \<lparr>param_type = HTOOL_FLAG_VALUE, param_ch = CHR 0x00, param_name = ''perso_blob'', default_value = Some '''',
        param_desc = Some ''The perso blob file.''\<rparr>,
       \<lparr>param_type = HTOOL_FLAG_VALUE, param_ch = CHR 0x00, param_name = ''output'', default_value = Some '''',
        param_desc = Some ''The signed cert file.''\<rparr>],
      cmd_func = ''htool_validate_and_sign'', deprecation_message = None\<rparr>,
    \<lparr>verbs = [''provisioning'', ''store_secrets''], verb_alias = None,
      cmd_desc = Some ''Store secrets encrypted with the provisioning encryption key'',
      cmd_params = [
       \<lparr>param_type = HTOOL_FLAG_VALUE, param_ch = CHR 0x00, param_name = ''secrets'', default_value = Some '''',
        param_desc = Some ''File containing the encrypted secrets.''\<rparr>],
      cmd_func = ''htool_provisioning_store_secrets'', deprecation_message = None\<rparr>,
    \<lparr>verbs = [''provisioning'', ''write''], verb_alias = None,
      cmd_desc = Some ''Write and commit the provisioning log'',
      cmd_params = [
       \<lparr>param_type = HTOOL_FLAG_VALUE, param_ch = CHR 0x00, param_name = ''input'', default_value = Some '''',
        param_desc = Some ''File containing the provisioning log to write.''\<rparr>],
      cmd_func = ''htool_provisioning_write'', deprecation_message = None\<rparr>,
    \<lparr>verbs = [''provisioning'', ''load_mldsa_key''], verb_alias = None,
      cmd_desc = Some ''Load the ML-DSA-44 public key to the RoT'',
      cmd_params = [
       \<lparr>param_type = HTOOL_FLAG_VALUE, param_ch = CHR 0x00, param_name = ''key'', default_value = Some '''',
        param_desc = Some ''Path to the ML-DSA-44 public key file. Must be exactly 1312 raw bytes.''\<rparr>],
      cmd_func = ''htool_provisioning_load_mldsa_key'', deprecation_message = None\<rparr>,
    \<lparr>verbs = [''security'', ''get_alias_key_cert''], verb_alias = None,
      cmd_desc = Some ''Get the Alias Key Cert'',
      cmd_params = [
       \<lparr>param_type = HTOOL_FLAG_VALUE, param_ch = CHR 0x00, param_name = ''output'', default_value = Some '''',
        param_desc = Some ''The Alias Key Certificate''\<rparr>,
       \<lparr>param_type = HTOOL_FLAG_VALUE, param_ch = CHR 0x00, param_name = ''version'', default_value = Some ''1'',
        param_desc = Some ''The version of the Alias Key Certificate being retrieved.''\<rparr>],
      cmd_func = ''htool_get_alias_key_cert'', deprecation_message = None\<rparr>,
    \<lparr>verbs = [''security'', ''get_device_id_cert''], verb_alias = None,
      cmd_desc = Some ''Get the Device ID Cert'',
      cmd_params = [
       \<lparr>param_type = HTOOL_FLAG_VALUE, param_ch = CHR 0x00, param_name = ''cert_output'', default_value = Some '''',
        param_desc = Some ''The Device ID Certificate''\<rparr>,
       \<lparr>param_type = HTOOL_FLAG_VALUE, param_ch = CHR 0x00, param_name = ''endorsement_cert_output'', default_value = Some '''',
        param_desc = Some ''The Endorsement Device ID Certificate''\<rparr>],
      cmd_func = ''htool_get_device_id_cert'', deprecation_message = None\<rparr>,
    \<lparr>verbs = [''security'', ''get_attestation_pub_cert''], verb_alias = None,
      cmd_desc = Some ''Get the Attestation Public Cert'',
      cmd_params = [
       \<lparr>param_type = HTOOL_FLAG_VALUE, param_ch = CHR 0x00, param_name = ''output'', default_value = Some '''',
        param_desc = Some ''The Public Certificate''\<rparr>],
      cmd_func = ''htool_get_attestation_pub_cert'', deprecation_message = None\<rparr>,
    \<lparr>verbs = [''security'', ''get_signed_attestation_pub_cert''], verb_alias = None,
      cmd_desc = Some ''Get the Signed Attestation Public Cert'',
      cmd_params = [
       \<lparr>param_type = HTOOL_FLAG_VALUE, param_ch = CHR 0x00, param_name = ''output'', default_value = Some '''',
        param_desc = Some ''The Signed Attestation Public Certificate''\<rparr>],
      cmd_func = ''htool_get_signed_attestation_pub_cert'', deprecation_message = None\<rparr>,
    \<lparr>verbs = [''security'', ''unload_attestation_key''], verb_alias = None,
      cmd_desc = Some ''Unload the Attestation Key from the device'',
      cmd_params = [],
      cmd_func = ''htool_unload_attestation_key'', deprecation_message = None\<rparr>,
    \<lparr>verbs = [''security'', ''gen_attestation_key_v1''], verb_alias = None,
      cmd_desc = Some ''Generate an Attestation Key using CSR v1'',
      cmd_params = [
       \<lparr>param_type = HTOOL_FLAG_VALUE, param_ch = CHR 0x00, param_name = ''csr_output'', default_value = None,
        param_desc = Some ''The Attestation Key CSR v1 output file (256 bytes)''\<rparr>,
       \<lparr>param_type = HTOOL_FLAG_VALUE, param_ch = CHR 0x00, param_name = ''wrapped_key_output'', default_value = None,
        param_desc = Some ''The Wrapped Attestation Key output file (88 bytes)''\<rparr>],
      cmd_func = ''htool_gen_attestation_key_v1'', deprecation_message = None\<rparr>]"

definition CMDS_10 :: "string htool_cmd list" where
  "CMDS_10 = [
    \<lparr>verbs = [''security'', ''gen_attestation_key_v2''], verb_alias = None,
      cmd_desc = Some ''Generate an Attestation Key using CSR v2'',
      cmd_params = [
       \<lparr>param_type = HTOOL_FLAG_VALUE, param_ch = CHR 0x00, param_name = ''fw_major_version'', default_value = None,
        param_desc = Some ''The firmware major version to bind the Attestation Key to''\<rparr>,
       \<lparr>param_type = HTOOL_FLAG_VALUE, param_ch = CHR 0x00, param_name = ''csr_output'', default_value = None,
        param_desc = Some ''The Attestation Key CSR v2 output file (192 bytes)''\<rparr>,
       \<lparr>param_type = HTOOL_FLAG_VALUE, param_ch = CHR 0x00, param_name = ''wrapped_key_output'', default_value = None,
        param_desc = Some ''The Wrapped Attestation Key output file (88 bytes)''\<rparr>],
      cmd_func = ''htool_gen_attestation_key_v2'', deprecation_message = None\<rparr>,
    \<lparr>verbs = [''security'', ''load_attestation_key''], verb_alias = None,
      cmd_desc = Some ''Load a CA-signed Attestation Key certificate and wrapped key'',
      cmd_params = [
       \<lparr>param_type = HTOOL_FLAG_VALUE, param_ch = CHR 0x00, param_name = ''wrapped_key'', default_value = None,
        param_desc = Some ''The Wrapped Attestation Key input file. Must be exactly 88 bytes.''\<rparr>,
       \<lparr>param_type = HTOOL_FLAG_VALUE, param_ch = CHR 0x00, param_name = ''cert'', default_value = None,
        param_desc = Some ''The CA-signed Attestation Key Certificate input file. Must be exactly 192 bytes.''\<rparr>],
      cmd_func = ''htool_load_attestation_key'', deprecation_message = None\<rparr>,
    \<lparr>verbs = [''security'', ''load_attestation_key_from_csr_v1''], verb_alias = None,
      cmd_desc = Some ''Load a self-signed Attestation Key from CSR v1 (requires firmware with self-signed attestation key support)'',
      cmd_params = [
       \<lparr>param_type = HTOOL_FLAG_VALUE, param_ch = CHR 0x00, param_name = ''wrapped_key'', default_value = None,
        param_desc = Some ''The Wrapped Attestation Key input file. Must be exactly 88 bytes.''\<rparr>,
       \<lparr>param_type = HTOOL_FLAG_VALUE, param_ch = CHR 0x00, param_name = ''csr'', default_value = None,
        param_desc = Some ''The Attestation Key CSR v1 input file. Must be exactly 256 bytes.''\<rparr>],
      cmd_func = ''htool_load_attestation_key_from_csr_v1'', deprecation_message = None\<rparr>,
    \<lparr>verbs = [''security'', ''provision_attestation_key''], verb_alias = None,
      cmd_desc = Some ''Provision a self-signed Attestation Key (unload, gen_v1, load_v1; requires firmware with self-signed support)'',
      cmd_params = [],
      cmd_func = ''htool_provision_attestation_key'', deprecation_message = None\<rparr>,
    \<lparr>verbs = [''security'', ''attestation''], verb_alias = None,
      cmd_desc = Some ''Fetch attestation information, including tokens and certificates.'',
      cmd_params = [
       \<lparr>param_type = HTOOL_FLAG_VALUE, param_ch = CHR 0x00, param_name = ''token_output'', default_value = Some '''',
        param_desc = Some ''The base filename for the output token binary data.''\<rparr>,
       \<lparr>param_type = HTOOL_FLAG_VALUE, param_ch = CHR 0x00, param_name = ''token_set_info'', default_value = Some '''',
        param_desc = Some ''The base filename for the token set info binary data.''\<rparr>,
       \<lparr>param_type = HTOOL_FLAG_VALUE, param_ch = CHR 0x00, param_name = ''token_boot_nonce_output'', default_value = Some '''',
        param_desc = Some ''The base filename for the boot nonce binary data.''\<rparr>,
       \<lparr>param_type = HTOOL_FLAG_VALUE, param_ch = CHR 0x00, param_name = ''token_signature_output'', default_value = Some '''',
        param_desc = Some ''The base filename for the signature binary data.''\<rparr>,
       \<lparr>param_type = HTOOL_FLAG_VALUE, param_ch = CHR 0x00, param_name = ''token_count_boot_nonce_output'', default_value = Some '''',
        param_desc = Some ''The base filename for the boot nonce binary data.''\<rparr>,
       \<lparr>param_type = HTOOL_FLAG_VALUE, param_ch = CHR 0x00, param_name = ''token_count_signature_output'', default_value = Some '''',
        param_desc = Some ''The base filename for the signature binary data.''\<rparr>,
       \<lparr>param_type = HTOOL_FLAG_VALUE, param_ch = CHR 0x00, param_name = ''token_count_output'', default_value = Some '''',
        param_desc = Some ''The filename that will contain the token count.''\<rparr>,
       \<lparr>param_type = HTOOL_FLAG_VALUE, param_ch = CHR 0x00, param_name = ''attestation_file'', default_value = Some '''',
        param_desc = Some ''The filename that will contain the entire attestation as one binary file. The attestation_output flag is optional. If the attestation_output flag is provided the other output files are not required.''\<rparr>],
      cmd_func = ''htool_fetch_attestation'', deprecation_message = None\<rparr>,
    \<lparr>verbs = [''security'', ''startup''], verb_alias = None,
      cmd_desc = Some ''Send TPM2_Startup(CLEAR) command to initialize the TPM.'',
      cmd_params = [],
      cmd_func = ''htool_security_startup'', deprecation_message = None\<rparr>,
    \<lparr>verbs = [''mauv'', ''compiled''], verb_alias = None,
      cmd_desc = Some ''Get compiled MAUV'',
      cmd_params = [],
      cmd_func = ''htool_mauv_compiled'', deprecation_message = None\<rparr>,
    \<lparr>verbs = [''mauv'', ''effective''], verb_alias = None,
      cmd_desc = Some ''Get effective MAUV'',
      cmd_params = [],
      cmd_func = ''htool_mauv_effective'', deprecation_message = None\<rparr>,
    \<lparr>verbs = [''mauv'', ''update''], verb_alias = None,
      cmd_desc = Some ''Update MAUV using a signed MAUV record file.'',
      cmd_params = [
       \<lparr>param_type = HTOOL_POSITIONAL, param_ch = CHR 0x00, param_name = ''record-file'', default_value = None,
        param_desc = Some ''A signed MAUV record file.''\<rparr>],
      cmd_func = ''htool_mauv_update'', deprecation_message = None\<rparr>,
    \<lparr>verbs = [''tpm'', ''get_mode''], verb_alias = None,
      cmd_desc = Some ''Get the current TPM mode.'',
      cmd_params = [],
      cmd_func = ''htool_get_tpm_mode'', deprecation_message = None\<rparr>,
    \<lparr>verbs = [''tpm'', ''set_mode'', ''disabled''], verb_alias = None,
      cmd_desc = Some ''Set the TPM mode to DISABLED.'',
      cmd_params = [],
      cmd_func = ''htool_set_tpm_mode'', deprecation_message = None\<rparr>]"

definition CMDS_11 :: "string htool_cmd list" where
  "CMDS_11 = [
    \<lparr>verbs = [''tpm'', ''set_mode'', ''tpm_spi''], verb_alias = None,
      cmd_desc = Some ''Set the TPM mode to TPM_SPI.'',
      cmd_params = [],
      cmd_func = ''htool_set_tpm_mode'', deprecation_message = None\<rparr>,
    \<lparr>verbs = [''tpm'', ''set_mode'', ''spi_nor_mailbox''], verb_alias = None,
      cmd_desc = Some ''Set the TPM mode to SPI_NOR_MAILBOX.'',
      cmd_params = [],
      cmd_func = ''htool_set_tpm_mode'', deprecation_message = None\<rparr>,
    \<lparr>verbs = [''update_session'', ''start''], verb_alias = None,
      cmd_desc = Some ''Start a RoT update session.'',
      cmd_params = [
       \<lparr>param_type = HTOOL_FLAG_VALUE, param_ch = CHR ''t'', param_name = ''timeout'', default_value = Some '''',
        param_desc = Some ''Requested timeout in seconds for the update session.''\<rparr>,
       \<lparr>param_type = HTOOL_POSITIONAL, param_ch = CHR 0x00, param_name = ''timeout_seconds'', default_value = Some '''',
        param_desc = Some ''Requested timeout in seconds for the update session.''\<rparr>],
      cmd_func = ''htool_update_session_start'', deprecation_message = None\<rparr>,
    \<lparr>verbs = [''update_session'', ''finalize''], verb_alias = Some [''update_session'', ''end''],
      cmd_desc = Some ''Finalize the active RoT update session.'',
      cmd_params = [],
      cmd_func = ''htool_update_session_finalize'', deprecation_message = None\<rparr>,
    \<lparr>verbs = [''update_session'', ''status''], verb_alias = Some [''update_session'', ''get_status''],
      cmd_desc = Some ''Get the current status of the RoT update session.'',
      cmd_params = [],
      cmd_func = ''htool_update_session_status'', deprecation_message = None\<rparr>]"

definition CMDS :: "string htool_cmd list" where
  "CMDS = CMDS_1 @ CMDS_2 @ CMDS_3 @ CMDS_4 @ CMDS_5 @ CMDS_6 @ CMDS_7 @ CMDS_8 @ CMDS_9 @ CMDS_10 @ CMDS_11"

section \<open>The global flags\<close>

definition GLOBAL_FLAGS :: "htool_param list" where
  "GLOBAL_FLAGS = [
    \<lparr>param_type = HTOOL_FLAG_VALUE, param_ch = CHR 0x00, param_name = ''transport'', default_value = Some '''',
      param_desc = Some (''The method of connecting to the RoT; for example '' @ [CHR 0x27] @ ''spidev'' @ [CHR 0x27] @ ''/'' @ [CHR 0x27] @ ''usb'' @ [CHR 0x27] @ ''/'' @ [CHR 0x27] @ ''mtd'' @ [CHR 0x27] @ ''/'' @ [CHR 0x27] @ ''dbus'' @ [CHR 0x27])\<rparr>,
    \<lparr>param_type = HTOOL_FLAG_VALUE, param_ch = CHR 0x00, param_name = ''usb_loc'', default_value = Some '''',
      param_desc = Some (''The full bus-portlist location of the RoT; for example '' @ [CHR 0x27] @ ''1-10.4.4.1'' @ [CHR 0x27] @ ''.'')\<rparr>,
    \<lparr>param_type = HTOOL_FLAG_VALUE, param_ch = CHR 0x00, param_name = ''usb_product'', default_value = Some '''',
      param_desc = Some ''If there is a single USB RoT with this substring in the USB product string, use it.''\<rparr>,
    \<lparr>param_type = HTOOL_FLAG_VALUE, param_ch = CHR 0x00, param_name = ''spidev_path'', default_value = Some '''',
      param_desc = Some (''The full SPIDEV path of the RoT; for example '' @ [CHR 0x27] @ ''/dev/spidev0.0'' @ [CHR 0x27] @ ''.'')\<rparr>,
    \<lparr>param_type = HTOOL_FLAG_BOOL, param_ch = CHR 0x00, param_name = ''spidev_atomic'', default_value = Some ''false'',
      param_desc = Some ''If true, force spidev to send the request and receive the corresponding response with a single atomic ioctl.  This is required on some systems for correctness.''\<rparr>,
    \<lparr>param_type = HTOOL_FLAG_VALUE, param_ch = CHR 0x00, param_name = ''spidev_speed_hz'', default_value = Some ''0'',
      param_desc = Some ''Clock speed (in Hz) to use when using spidev transport. Default behavior (with input 0) is to not change the clock speed''\<rparr>,
    \<lparr>param_type = HTOOL_FLAG_VALUE, param_ch = CHR 0x00, param_name = ''spidev_device_busy_wait_timeout'', default_value = Some ''180000000'',
      param_desc = Some ''Maximum duration (in microseconds) to wait when SPI device indicates that it is busy''\<rparr>,
    \<lparr>param_type = HTOOL_FLAG_VALUE, param_ch = CHR 0x00, param_name = ''spidev_device_busy_wait_check_interval'', default_value = Some ''100'',
      param_desc = Some ''Interval duration (in microseconds) to wait before checking SPI device status again when it indicates that the device is busy''\<rparr>,
    \<lparr>param_type = HTOOL_FLAG_VALUE, param_ch = CHR 0x00, param_name = ''mtddev_path'', default_value = Some '''',
      param_desc = Some (''The full MTD path of the RoT mailbox; for example '' @ [CHR 0x27] @ ''/dev/mtd0'' @ [CHR 0x27] @ ''. If unspecified, will attempt to detect the correct device automatically'')\<rparr>,
    \<lparr>param_type = HTOOL_FLAG_VALUE, param_ch = CHR 0x00, param_name = ''mtddev_name'', default_value = Some ''hoth-mailbox'',
      param_desc = Some (''The MTD name of the RoT mailbox; for example '' @ [CHR 0x27] @ ''hoth-mailbox'' @ [CHR 0x27] @ ''. '')\<rparr>,
    \<lparr>param_type = HTOOL_FLAG_VALUE, param_ch = CHR 0x00, param_name = ''mailbox_location'', default_value = Some ''0'',
      param_desc = Some (''The location of the mailbox on the RoT, for '' @ [CHR 0x27] @ ''spidev'' @ [CHR 0x27] @ '' or '' @ [CHR 0x27] @ ''mtd'' @ [CHR 0x27] @ '' transports; for example '' @ [CHR 0x27] @ ''0x900000'' @ [CHR 0x27] @ ''.'')\<rparr>,
    \<lparr>param_type = HTOOL_FLAG_VALUE, param_ch = CHR 0x00, param_name = ''dbus_hoth_id'', default_value = Some '''',
      param_desc = Some (''The hoth ID associated with the RoT'' @ [CHR 0x27] @ ''s hothd service.'')\<rparr>,
    \<lparr>param_type = HTOOL_FLAG_VALUE, param_ch = CHR 0x00, param_name = ''connect_timeout'', default_value = Some ''10s'',
      param_desc = Some (''Maximum duration to retry opening a busy libhoth transport (e.g., '' @ [CHR 0x27] @ ''1s'' @ [CHR 0x27] @ '', '' @ [CHR 0x27] @ ''1500ms'' @ [CHR 0x27] @ '').'')\<rparr>,
    \<lparr>param_type = HTOOL_FLAG_BOOL, param_ch = CHR 0x00, param_name = ''version'', default_value = Some ''false'',
      param_desc = Some ''Print htool version.''\<rparr>]"

section \<open>What the tables promise\<close>

subsection \<open>No command hides another\<close>

text \<open>The names of a command, one of which has to begin the command line for it to be run.\<close>

definition cmd_names :: "'f htool_cmd \<Rightarrow> string list list" where
  "cmd_names c = verbs c # (case verb_alias c of None \<Rightarrow> [] | Some al \<Rightarrow> [al])"

lemma is_called_names: "is_called argv c \<longleftrightarrow> (\<exists>vs \<in> set (cmd_names c). calls_by argv vs)"
  by (auto simp: is_called_def cmd_names_def split: option.splits)

text \<open>No name of the first begins one of the second.\<close>

definition keeps :: "string list list \<Rightarrow> string list list \<Rightarrow> bool" where
  "keeps c d \<longleftrightarrow> \<not> (\<exists>w \<in> set c. \<exists>v \<in> set d. prefix w v)"

text \<open>
  It is enough to compare all commands within a run of the same first word, and the first words of
  the runs unless one occurs in several.
\<close>

fun runs :: "('a \<Rightarrow> 'b) \<Rightarrow> 'a list \<Rightarrow> 'a list list" where
  "runs f [] = []"
| "runs f (x # xs) =
    (case runs f xs of
       (y # ys) # zs \<Rightarrow> if f x = f y then (x # y # ys) # zs else [x] # (y # ys) # zs
     | _ \<Rightarrow> [[x]])"

lemma runs_not_Nil: "[] \<notin> set (runs f xs)"
  by (induction f xs rule: runs.induct) (auto split: list.splits)

lemma concat_runs [simp]: "concat (runs f xs) = xs"
proof (induction f xs rule: runs.induct)
  case (2 f x xs)
  show ?case
  proof (cases "runs f xs")
    case (Cons g zs)
    then have "g \<noteq> []" using runs_not_Nil [of f xs] by auto
    then show ?thesis using 2 Cons by (cases g) auto
  qed (use 2 in simp)
qed simp

definition heads :: "string list list list \<Rightarrow> string list" where
  "heads g = remdups (map hd (concat g))"

definition unshadowed :: "string list list list \<Rightarrow> bool" where
  "unshadowed cs \<longleftrightarrow> (let gs = runs (\<lambda>c. hd (hd c)) cs in
     list_all (list_all (list_all (\<lambda>w. w \<noteq> []))) gs \<and>
     list_all (sorted_wrt keeps) gs \<and>
     sorted_wrt (\<lambda>(a, g) (b, h). list_all (\<lambda>x. x \<notin> set b) a \<or> list_all (\<lambda>c. list_all (keeps c) h) g)
       (map (\<lambda>g. (heads g, g)) gs))"

lemma keeps_heads:
  assumes "list_all (\<lambda>x. x \<notin> set (heads h)) (heads g)" and "c \<in> set g" "d \<in> set h"
    and "list_all (\<lambda>w. w \<noteq> []) c" "list_all (\<lambda>w. w \<noteq> []) d"
  shows "keeps c d"
proof -
  have False if "w \<in> set c" "v \<in> set d" "prefix w v" for w v
  proof -
    have "w \<noteq> []" using that(1) assms(4) by (auto simp: list_all_iff)
    then obtain x xs where w: "w = x # xs" by (cases w) auto
    with that(3) have "hd v = x" by (cases v) auto
    then have "x \<in> set (heads h)" using that(2) assms(3) by (force simp: heads_def)
    moreover have "x \<in> set (heads g)" using that(1) assms(2) w by (force simp: heads_def)
    ultimately show False using assms(1) by (auto simp: list_all_iff)
  qed
  then show ?thesis by (auto simp: keeps_def)
qed

lemma sorted_wrt_concat:
  "list_all (sorted_wrt P) gs \<Longrightarrow> sorted_wrt (\<lambda>g h. \<forall>x \<in> set g. \<forall>y \<in> set h. P x y) gs \<Longrightarrow> sorted_wrt P (concat gs)"
  by (induction gs) (auto simp: sorted_wrt_append)

lemma unshadowed_sorted: "unshadowed cs \<Longrightarrow> sorted_wrt keeps cs"
proof -
  assume u: "unshadowed cs"
  define gs where "gs = runs (\<lambda>c. hd (hd c)) cs"
  have ne: "c \<in> set g \<Longrightarrow> g \<in> set gs \<Longrightarrow> list_all (\<lambda>w. w \<noteq> []) c" for c g
    using u by (auto simp: unshadowed_def Let_def gs_def list_all_iff)
  have "sorted_wrt (\<lambda>g h. list_all (\<lambda>x. x \<notin> set (heads h)) (heads g) \<or> list_all (\<lambda>c. list_all (keeps c) h) g) gs"
    using u by (simp add: unshadowed_def Let_def gs_def sorted_wrt_map split_def)
  then have "sorted_wrt (\<lambda>g h. \<forall>c \<in> set g. \<forall>d \<in> set h. keeps c d) gs"
    by (rule sorted_wrt_mono_rel [rotated]) (auto intro: keeps_heads ne simp: list_all_iff)
  moreover have "list_all (sorted_wrt keeps) gs" using u by (simp add: unshadowed_def Let_def gs_def)
  ultimately have "sorted_wrt keeps (concat gs)" by (intro sorted_wrt_concat)
  then show ?thesis by (simp add: gs_def)
qed

lemma unshadowed_nonempty: "unshadowed cs \<Longrightarrow> list_all (list_all (\<lambda>w. w \<noteq> [])) cs"
proof -
  have c: "list_all P (concat xss) \<longleftrightarrow> list_all (list_all P) xss" for P and xss :: "string list list list list"
    by (induction xss) auto
  assume "unshadowed cs"
  then have "list_all (list_all (list_all (\<lambda>w. w \<noteq> []))) (runs (\<lambda>c. hd (hd c)) cs)"
    by (simp add: unshadowed_def Let_def)
  then show ?thesis unfolding c [symmetric] by simp
qed

lemma CMDS_unshadowed: "unshadowed (map cmd_names CMDS)"
  by code_simp

text \<open>
  No word of a name, and no description of one, is taken for a flag; the parameters of a command
  have different names.
\<close>

lemma CMDS_words: "list_all (\<lambda>c. list_all (list_all (\<lambda>w. char_at w 0 \<noteq> CHR ''-'')) (cmd_names c)) CMDS"
  by code_simp

lemma CMDS_alias: "list_all (\<lambda>c. list_all (\<lambda>al. \<not> prefix (verbs c) al) (tl (cmd_names c))) CMDS"
  by code_simp

lemma CMDS_params: "list_all (\<lambda>c. wf_params (cmd_params c)) CMDS"
  by code_simp

lemma GLOBAL_FLAGS_params: "wf_params GLOBAL_FLAGS"
  by code_simp

subsection \<open>Dispatch\<close>

lemma prefix_settings:
  assumes "list_all (\<lambda>w. char_at w 0 \<noteq> CHR ''-'') ws"
  shows "prefix ws (vs @ map set_flag sets) \<longleftrightarrow> prefix ws vs"
proof
  assume "prefix ws (vs @ map set_flag sets)"
  then consider "prefix ws vs" | w where "w \<in> set ws" "w \<in> set_flag ` set sets"
  proof (cases "prefix ws vs")
    case False
    with \<open>prefix ws (vs @ map set_flag sets)\<close> obtain us where u: "ws = vs @ us" "prefix us (map set_flag sets)"
      by (auto simp: prefix_append)
    with False obtain w us' where "us = w # us'" by (cases us) auto
    with u have "w \<in> set ws" "w \<in> set_flag ` set sets" using set_mono_prefix [OF u(2)] by auto
    then show ?thesis using that(2) by blast
  qed blast
  then show "prefix ws vs" using assms set_flag_start(2) by cases (auto simp: list_all_iff)
qed simp

lemma find_first:
  assumes "sorted_wrt (\<lambda>c d. \<not> (P d \<and> Q c)) cs" and "c \<in> set cs" "P c" "\<And>d. d \<in> set cs \<Longrightarrow> R d \<longleftrightarrow> Q d" "Q c"
  shows "List.find R cs = Some c"
  using assms by (induction cs) auto

lemma cmd_called:
  assumes "c \<in> set CMDS" and "vs \<in> set (cmd_names c)"
  shows "List.find (is_called (vs @ map set_flag sets)) CMDS = Some c"
proof (rule find_first)
  show "sorted_wrt (\<lambda>c d. \<not> (vs \<in> set (cmd_names d) \<and> is_called vs c)) CMDS"
    using unshadowed_sorted [OF CMDS_unshadowed, unfolded sorted_wrt_map]
    by (rule sorted_wrt_mono_rel [rotated]) (auto simp: keeps_def is_called_names calls_by_def)
  show "is_called (vs @ map set_flag sets) d \<longleftrightarrow> is_called vs d" if "d \<in> set CMDS" for d
    using that CMDS_words by (auto simp: is_called_names calls_by_def list_all_iff prefix_settings)
  show "is_called vs c"
    using assms unshadowed_nonempty [OF CMDS_unshadowed] by (auto simp: is_called_names calls_by_def list_all_iff)
qed (use assms in simp_all)

lemma cmd_found:
  assumes "c \<in> set CMDS" and "vs \<in> set (cmd_names c)"
  shows "find_command CMDS (vs @ map set_flag sets) = Some (c, length vs)"
proof -
  have words: "list_all (\<lambda>w. char_at w 0 \<noteq> CHR ''-'') (verbs c)" "verbs c \<noteq> []"
    using assms(1) CMDS_words unshadowed_nonempty [OF CMDS_unshadowed] by (auto simp: list_all_iff cmd_names_def)
  then have called: "calls_by (vs @ map set_flag sets) (verbs c) \<longleftrightarrow> prefix (verbs c) vs"
    by (auto simp: calls_by_def prefix_settings)
  consider "vs = verbs c" | "verb_alias c = Some vs" using assms(2) by (auto simp: cmd_names_def split: option.splits)
  then show ?thesis
  proof cases
    case 2
    then have "\<not> prefix (verbs c) vs" using assms(1) CMDS_alias by (auto simp: list_all_iff cmd_names_def)
    with 2 show ?thesis by (simp add: find_command_find cmd_called [OF assms] called)
  qed (use called cmd_called [OF assms, of sets] in \<open>simp add: find_command_find\<close>)
qed

text \<open>
  C23: whatever command of the table is called, by its words or by its alias, behind settings of
  global flags and before settings of its own, it is the function of this very command that is run,
  once, with the values set last for each of its flags and of the global ones; no other command of
  the table gets in between.
\<close>

theorem htool_dispatches:
  assumes "c \<in> set CMDS" and "vs \<in> set (cmd_names c)"
    and "settings_of GLOBAL_FLAGS globals" and "''version'' \<notin> fst ` set globals"
    and "settings_of (cmd_params c) sets"
  shows "htool_main call GLOBAL_FLAGS CMDS (map set_flag globals @ vs @ map set_flag sets) s =
    (let (rv, s') = call (cmd_func c)
           \<lparr>inv_params = cmd_params c, inv_args = flag_values (cmd_params c) sets\<rparr>
           \<lparr>inv_params = GLOBAL_FLAGS, inv_args = flag_values GLOBAL_FLAGS globals\<rparr> s
     in (Inr rv, s'))"
proof -
  let ?g = "\<lparr>inv_params = GLOBAL_FLAGS, inv_args = flag_values GLOBAL_FLAGS globals\<rparr>"
  obtain v vs' where vs: "vs = v # vs'" "char_at v 0 \<noteq> CHR ''-''"
    using assms(1,2) CMDS_words unshadowed_nonempty [OF CMDS_unshadowed] by (cases vs) (auto simp: list_all_iff)
  have g: "fill_global_flags GLOBAL_FLAGS (map set_flag globals @ vs @ map set_flag sets) = Inr (length globals, ?g)"
    using fill_globals_sets [OF GLOBAL_FLAGS_params vs(2) assms(3), of "[]" 0 "vs' @ map set_flag sets"]
    by (simp add: fill_global_flags_def no_values vs(1))
  have "map_of (rev globals) ''version'' = None" using assms(4) by (simp add: map_of_eq_None_iff)
  moreover have "last GLOBAL_FLAGS \<in> set GLOBAL_FLAGS" "param_name (last GLOBAL_FLAGS) = ''version''"
    "default_value (last GLOBAL_FLAGS) = Some ''false''" by (simp_all add: GLOBAL_FLAGS_def)
  ultimately have "get_param ?g ''version'' = Inr (Some ''false'')"
    using get_param_flag_values [OF GLOBAL_FLAGS_params, of "last GLOBAL_FLAGS" globals] by simp
  then have v: "htool_get_param_bool ?g ''version'' = Inr False"
    by (simp add: htool_get_param_bool_def get_param_required_def)
  have "wf_params (cmd_params c)" using CMDS_params assms(1) by (simp add: list_all_iff)
  from fill_cmd_invocation_sets [OF this assms(5)] show ?thesis
    using g v cmd_found [OF assms(1,2), of sets] by (simp add: htool_main_def)
qed

theorem htool_dispatches_witness:
  "htool_main (\<lambda>f iv g s. (0, f # s)) GLOBAL_FLAGS CMDS
     [''--transport=usb'', ''ec_reboot'', ''--warm=true''] [] = (Inr 0, [''command_reboot''])"
proof -
  have c: "CMDS_1 ! 1 \<in> set CMDS" by (simp add: CMDS_def CMDS_1_def)
  have n: "[''ec_reboot''] \<in> set (cmd_names (CMDS_1 ! 1))" by (simp add: CMDS_1_def cmd_names_def)
  have "param_name (hd GLOBAL_FLAGS) = ''transport''" "is_flag (hd GLOBAL_FLAGS)" "hd GLOBAL_FLAGS \<in> set GLOBAL_FLAGS"
    by (simp_all add: GLOBAL_FLAGS_def is_flag_def)
  then have g: "settings_of GLOBAL_FLAGS [(''transport'', ''usb'')]" by auto
  have s: "settings_of (cmd_params (CMDS_1 ! 1)) [(''warm'', ''true'')]" by (simp add: CMDS_1_def is_flag_def)
  show ?thesis using htool_dispatches [OF c n g _ s, of "\<lambda>f iv g s. (0, f # s)" "[]"]
    by (simp add: set_flag_def CMDS_1_def)
qed

end
