(* ===== verification/Stdio.thy ===== *)
theory Stdio
  imports Hoth_Prelude
begin

text \<open>
  The streams of the C library as \<open>htool\<close> uses them, as a parameter: a record of functions on the
  state \<open>'f\<close> of the files. A stream is a number; \<open>None\<close> is NULL or EOF.
\<close>

record 'f stdio =
  fopen_wb :: "string \<Rightarrow> 'f \<Rightarrow> int option \<times> 'f"
  fopen_rb :: "string \<Rightarrow> 'f \<Rightarrow> int option \<times> 'f"
  fwrite :: "int \<Rightarrow> bytes \<Rightarrow> 'f \<Rightarrow> nat \<times> 'f"
  fread :: "int \<Rightarrow> nat \<Rightarrow> 'f \<Rightarrow> bytes \<times> 'f"
  fgetc :: "int \<Rightarrow> 'f \<Rightarrow> u8 option \<times> 'f"
  ferror :: "int \<Rightarrow> 'f \<Rightarrow> bool"
  fclose :: "int \<Rightarrow> 'f \<Rightarrow> 'f"

text \<open>
  Streams over files that can be written and read: what is written to a file that was opened is its
  content when it is closed again, and what is read of a file is its content.
\<close>

type_synonym file_contents = "string \<Rightarrow> bytes option"

definition writes_files :: "'f stdio \<Rightarrow> ('f \<Rightarrow> file_contents) \<Rightarrow> bool" where
  "writes_files io content \<longleftrightarrow>
    (\<forall>name f. \<exists>fp f1. fopen_wb io name f = (Some fp, f1) \<and>
      content (fclose io fp f1) = (content f)(name \<mapsto> []) \<and>
      (\<forall>bs. \<exists>f2. fwrite io fp bs f1 = (length bs, f2) \<and> \<not> ferror io fp f2 \<and>
        content (fclose io fp f2) = (content f)(name \<mapsto> bs)))"

definition reads_files :: "'f stdio \<Rightarrow> ('f \<Rightarrow> file_contents) \<Rightarrow> bool" where
  "reads_files io content \<longleftrightarrow>
    (\<forall>name f. content f name = None \<longrightarrow> (\<exists>f1. fopen_rb io name f = (None, f1) \<and> content f1 = content f)) \<and>
    (\<forall>name f bs. content f name = Some bs \<longrightarrow> (\<exists>fp f1. fopen_rb io name f = (Some fp, f1) \<and>
       (\<forall>n. \<exists>f2 c f3. fread io fp n f1 = (take n bs, f2) \<and> fgetc io fp f2 = (c, f3) \<and>
         (c = None \<longleftrightarrow> length bs \<le> n) \<and> \<not> ferror io fp f3 \<and> content (fclose io fp f3) = content f)))"

section \<open>Files in memory\<close>

text \<open>The contents, and of the open stream the name and what is left of it.\<close>

type_synonym memory_files = "file_contents \<times> string \<times> bytes"

definition memory_stdio :: "memory_files stdio" where
  "memory_stdio = \<lparr>
     fopen_wb = (\<lambda>name (fs, _). (Some 3, (fs(name \<mapsto> []), name, []))),
     fopen_rb = (\<lambda>name (fs, cur). case fs name of None \<Rightarrow> (None, (fs, cur)) | Some bs \<Rightarrow> (Some 3, (fs, name, bs))),
     fwrite = (\<lambda>_ bs (fs, name, rest). (length bs, (fs(name \<mapsto> the (fs name) @ bs), name, rest))),
     fread = (\<lambda>_ n (fs, name, rest). (take n rest, (fs, name, drop n rest))),
     fgetc = (\<lambda>_ (fs, name, rest). case rest of [] \<Rightarrow> (None, (fs, name, [])) | b # bs \<Rightarrow> (Some b, (fs, name, bs))),
     ferror = (\<lambda>_ _. False),
     fclose = (\<lambda>_ f. f)\<rparr>"

lemma memory_writes_files: "writes_files memory_stdio fst"
  by (auto simp: writes_files_def memory_stdio_def)

lemma memory_reads_files: "reads_files memory_stdio fst"
  by (auto simp: reads_files_def memory_stdio_def split: option.splits list.splits)

end
