(* ===== verification/Htool_Security.thy ===== *)
theory Htool_Security
  imports Rot_Commands
begin

text \<open>
  \<open>examples/htool_security_version.c\<close>, \<open>htool_security_v2.h\<close> and \<open>htool_security_v2.c\<close>: commands with a
  list of parameters in the request and in the response, and which security version a root of trust
  has. An outer \<open>None\<close> is an access outside an array; \<open>Inl\<close> holds the status of a failure. The counts
  of parameters are the lengths of the arrays that are passed.
\<close>

section \<open>The security version\<close>

definition HOTH_PRV_CMD_HOTH_SECURITY_V2 :: u16 where "HOTH_PRV_CMD_HOTH_SECURITY_V2 = 0x0003"
definition HOTH_PRV_CMD_HOTH_IS_HOST_COMMAND_SUPPORTED :: u16 where
  "HOTH_PRV_CMD_HOTH_IS_HOST_COMMAND_SUPPORTED = 0x0011"
definition HOTH_PRV_CMD_HOTH_SECURITY_V3 :: u16 where "HOTH_PRV_CMD_HOTH_SECURITY_V3 = 0x0033"

definition HOTH_BASE_CMD :: "u16 \<Rightarrow> u16" where
  "HOTH_BASE_CMD cmd = HOTH_CMD_BOARD_SPECIFIC_BASE + cmd"

datatype libhoth_security_version =
  LIBHOTH_SECURITY_UNKNOWN | LIBHOTH_SECURITY_NONE | LIBHOTH_SECURITY_V2 | LIBHOTH_SECURITY_V3

text \<open>\<open>is_supported\<close> is what the local variable holds before, which a call that reports success without writing it leaves.\<close>

definition htool_get_security_version ::
  "u8 \<Rightarrow> 's libhoth_device option \<Rightarrow> 's \<Rightarrow> libhoth_security_version \<times> 's" where
  "htool_get_security_version is_supported dev s =
    (let supported = (\<lambda>cmd. libhoth_hostcmd_exec [] dev (HOTH_BASE_CMD HOTH_PRV_CMD_HOTH_IS_HOST_COMMAND_SUPPORTED) 0
           (Some (le_bytes 2 (HOTH_BASE_CMD cmd))) 2 1 False);
         ((status, r), s) = supported HOTH_PRV_CMD_HOTH_SECURITY_V2 s
     in if status \<noteq> 0 then (LIBHOTH_SECURITY_UNKNOWN, s)
     else
       let is_supported = (case r of Some p \<Rightarrow> p ! 0 | None \<Rightarrow> is_supported)
       in if is_supported \<noteq> 0 then (LIBHOTH_SECURITY_V2, s)
       else
         let ((status, r), s) = supported HOTH_PRV_CMD_HOTH_SECURITY_V3 s
         in if status \<noteq> 0 then (LIBHOTH_SECURITY_UNKNOWN, s)
         else
           let is_supported = (case r of Some p \<Rightarrow> p ! 0 | None \<Rightarrow> is_supported)
           in if is_supported \<noteq> 0 then (LIBHOTH_SECURITY_V3, s) else (LIBHOTH_SECURITY_NONE, s))"

section \<open>Buffers and parameters\<close>

record security_v2_buffer =
  buf_data :: bytes
  buf_size :: u16
  bytes_consumed :: u16

record security_v2_param =
  prm_data :: bytes
  prm_size :: u16

text \<open>\<open>SECURITY_V2_BUFFER_PARAM\<close>\<close>

definition security_v2_buffer_param :: "bytes \<Rightarrow> security_v2_buffer" where
  "security_v2_buffer_param storage = \<lparr>buf_data = storage, buf_size = word_of_nat (length storage), bytes_consumed = 0\<rparr>"

definition HOTH_SECURITY_V2_REQUEST_SIZE :: "nat \<Rightarrow> nat" where
  "HOTH_SECURITY_V2_REQUEST_SIZE param_count = 4 + param_count * 4"

definition HOTH_SECURITY_V2_RESPONSE_SIZE :: "nat \<Rightarrow> nat" where
  "HOTH_SECURITY_V2_RESPONSE_SIZE param_count = 4 + param_count * 4"

definition padding_size :: "u16 \<Rightarrow> nat" where
  "padding_size sz = (let align = unat sz mod 4 in if align = 0 then 0 else 4 - align)"

text \<open>The offset of the bytes in the buffer, and the buffer behind them.\<close>

definition consume_bytes :: "security_v2_buffer \<Rightarrow> u16 \<Rightarrow> (nat \<times> security_v2_buffer) option" where
  "consume_bytes buffer n =
    (if buf_size buffer < bytes_consumed buffer \<or> unat (buf_size buffer) - unat (bytes_consumed buffer) < unat n
     then None
     else Some (unat (bytes_consumed buffer), buffer\<lparr>bytes_consumed := bytes_consumed buffer + n\<rparr>))"

section \<open>Commands\<close>

text \<open>The argument of \<open>consume_bytes\<close> is the sum on 16 bits.\<close>

definition padded_size :: "u16 \<Rightarrow> u16" where
  "padded_size sz = word_of_nat (unat sz + padding_size sz)"

fun put_request_params :: "security_v2_param list \<Rightarrow> security_v2_buffer \<Rightarrow> (int + security_v2_buffer) option" where
  "put_request_params [] b = Some (Inr b)"
| "put_request_params (p # ps) b =
    (case consume_bytes b 4 of
       None \<Rightarrow> Some (Inl (-1))
     | Some (off, b) \<Rightarrow>
         (case store_response off (le_bytes 2 (prm_size p)) (buf_data b) of
            None \<Rightarrow> None
          | Some d \<Rightarrow>
              (case consume_bytes (b\<lparr>buf_data := d\<rparr>) (padded_size (prm_size p)) of
                 None \<Rightarrow> Some (Inl (-1))
               | Some (off, b) \<Rightarrow>
                   (case read_at 0 (unat (prm_size p)) (prm_data p) of
                      None \<Rightarrow> None
                    | Some v \<Rightarrow>
                        (case store_response off v (buf_data b) of
                           None \<Rightarrow> None
                         | Some d \<Rightarrow> put_request_params ps (b\<lparr>buf_data := d\<rparr>))))))"

fun get_response_params ::
  "security_v2_param list \<Rightarrow> security_v2_buffer \<Rightarrow> (int + security_v2_param list \<times> security_v2_buffer) option" where
  "get_response_params [] b = Some (Inr ([], b))"
| "get_response_params (p # ps) b =
    (case consume_bytes b 4 of
       None \<Rightarrow> Some (Inl (-1))
     | Some (off, b) \<Rightarrow>
         (case read_at off 2 (buf_data b) of
            None \<Rightarrow> None
          | Some sz \<Rightarrow>
              if le_word sz \<noteq> prm_size p then Some (Inl (-1))
              else
                (case consume_bytes b (padded_size (prm_size p)) of
                   None \<Rightarrow> Some (Inl (-1))
                 | Some (off, b) \<Rightarrow>
                     (case read_at off (unat (prm_size p)) (buf_data b) of
                        None \<Rightarrow> None
                      | Some v \<Rightarrow>
                          (case store_response 0 v (prm_data p) of
                             None \<Rightarrow> None
                           | Some d \<Rightarrow>
                               (case get_response_params ps b of
                                  None \<Rightarrow> None
                                | Some (Inl e) \<Rightarrow> Some (Inl e)
                                | Some (Inr (ps, b)) \<Rightarrow> Some (Inr (p\<lparr>prm_data := d\<rparr> # ps, b))))))))"

text \<open>
  A success yields the response parameters with their data and the response buffer. \<open>bytes_read\<close> is
  what that variable holds before.
\<close>

definition htool_exec_security_v2_cmd ::
  "u16 \<Rightarrow> 's libhoth_device option \<Rightarrow> u8 \<Rightarrow> u8 \<Rightarrow> u16 \<Rightarrow> security_v2_buffer \<Rightarrow> security_v2_param list \<Rightarrow>
   security_v2_buffer \<Rightarrow> security_v2_param list \<Rightarrow> 's \<Rightarrow>
   ((int + security_v2_param list \<times> security_v2_buffer) \<times> 's) option" where
  "htool_exec_security_v2_cmd bytes_read dev major minor base_command request_buffer request_params
     response_buffer response_params s =
    (case consume_bytes request_buffer 4 of
       None \<Rightarrow> Some (Inl (-1), s)
     | Some (off, b) \<Rightarrow>
         (case store_response off ([major, minor] @ le_bytes 2 (word_of_nat (length request_params) :: u16)) (buf_data b) of
            None \<Rightarrow> None
          | Some d \<Rightarrow>
              (case put_request_params request_params (b\<lparr>buf_data := d\<rparr>) of
                 None \<Rightarrow> None
               | Some (Inl e) \<Rightarrow> Some (Inl e, s)
               | Some (Inr b) \<Rightarrow>
                   (case read_at 0 (unat (buf_size b)) (buf_data b) of
                      None \<Rightarrow> None
                    | Some req \<Rightarrow>
                        (let ((status, r), s) = libhoth_hostcmd_exec [] dev base_command 0 (Some req) (length req)
                               (unat (buf_size response_buffer)) True s
                         in if status \<noteq> 0 then Some (Inl status, s)
                         else
                           (case store_response 0 (case r of Some p \<Rightarrow> p | None \<Rightarrow> []) (buf_data response_buffer) of
                              None \<Rightarrow> None
                            | Some d \<Rightarrow>
                                (let b = response_buffer\<lparr>buf_data := d,
                                       buf_size := (case r of Some p \<Rightarrow> word_of_nat (length p) | None \<Rightarrow> bytes_read)\<rparr>
                                 in if response_params = [] then Some (Inr ([], b), s)
                                 else
                                   (case consume_bytes b 4 of
                                      None \<Rightarrow> Some (Inl (-1), s)
                                    | Some (off, b) \<Rightarrow>
                                        (case read_at off 2 (buf_data b) of
                                           None \<Rightarrow> None
                                         | Some n \<Rightarrow>
                                             if unat (le_word n :: u16) \<noteq> length response_params then Some (Inl (-1), s)
                                             else
                                               (case get_response_params response_params b of
                                                  None \<Rightarrow> None
                                                | Some res \<Rightarrow> Some (res, s)))))))))))"

section \<open>Serialized responses\<close>

text \<open>The number of parameters the header of the response announces.\<close>

definition read_security_v2_serialized_header ::
  "security_v2_buffer \<Rightarrow> (int + u16 \<times> security_v2_buffer) option" where
  "read_security_v2_serialized_header buffer =
    (case consume_bytes buffer 4 of
       None \<Rightarrow> Some (Inl (-1))
     | Some (off, b) \<Rightarrow>
         (case read_at off 4 (buf_data b) of
            None \<Rightarrow> None
          | Some hdr \<Rightarrow> if u16_at 2 hdr \<noteq> 0 then Some (Inl (-1)) else Some (Inr (u16_at 0 hdr, b))))"

definition validate_param_padding :: "security_v2_buffer \<Rightarrow> u16 \<Rightarrow> (int + security_v2_buffer) option" where
  "validate_param_padding buffer param_size =
    (let param_padding_size = padding_size param_size
     in if param_padding_size = 0 then Some (Inr buffer)
     else
       (case consume_bytes buffer (word_of_nat param_padding_size) of
          None \<Rightarrow> Some (Inl (-1))
        | Some (off, b) \<Rightarrow>
            (case read_at off param_padding_size (buf_data b) of
               None \<Rightarrow> None
             | Some padding \<Rightarrow> if list_ex (\<lambda>x. x \<noteq> 0) padding then Some (Inl (-1)) else Some (Inr b))))"

text \<open>A parameter is the offset of its header in the response buffer.\<close>

definition read_security_v2_serialized_params ::
  "security_v2_buffer \<Rightarrow> (int + nat \<times> security_v2_buffer) option" where
  "read_security_v2_serialized_params buffer =
    (case consume_bytes buffer 4 of
       None \<Rightarrow> Some (Inl (-1))
     | Some (param, b) \<Rightarrow>
         (case read_at param 4 (buf_data b) of
            None \<Rightarrow> None
          | Some hdr \<Rightarrow>
              if u16_at 2 hdr \<noteq> 0 then Some (Inl (-1))
              else
                (case consume_bytes b (u16_at 0 hdr) of
                   None \<Rightarrow> Some (Inl (-1))
                 | Some (_, b) \<Rightarrow>
                     (case validate_param_padding b (u16_at 0 hdr) of
                        None \<Rightarrow> None
                      | Some (Inl e) \<Rightarrow> Some (Inl e)
                      | Some (Inr b) \<Rightarrow> Some (Inr (param, b))))))"

fun read_serialized_loop :: "nat \<Rightarrow> security_v2_buffer \<Rightarrow> (int + nat list \<times> security_v2_buffer) option" where
  "read_serialized_loop 0 b = Some (Inr ([], b))"
| "read_serialized_loop (Suc k) b =
    (case read_security_v2_serialized_params b of
       None \<Rightarrow> None
     | Some (Inl e) \<Rightarrow> Some (Inl e)
     | Some (Inr (param, b)) \<Rightarrow>
         (case read_serialized_loop k b of
            None \<Rightarrow> None
          | Some (Inl e) \<Rightarrow> Some (Inl e)
          | Some (Inr (params, b)) \<Rightarrow> Some (Inr (param # params, b))))"

definition htool_exec_security_v2_serialized_cmd ::
  "u16 \<Rightarrow> 's libhoth_device option \<Rightarrow> u8 \<Rightarrow> u8 \<Rightarrow> u16 \<Rightarrow> security_v2_buffer \<Rightarrow> security_v2_param list \<Rightarrow>
   security_v2_buffer \<Rightarrow> u16 \<Rightarrow> 's \<Rightarrow> ((int + nat list \<times> security_v2_buffer) \<times> 's) option" where
  "htool_exec_security_v2_serialized_cmd bytes_read dev major minor base_command request_buffer request_params
     response_buffer response_param_count s =
    (case htool_exec_security_v2_cmd bytes_read dev major minor base_command request_buffer request_params
            response_buffer [] s of
       None \<Rightarrow> None
     | Some (Inl _, s) \<Rightarrow> Some (Inl (-1), s)
     | Some (Inr (_, b), s) \<Rightarrow>
         (case read_security_v2_serialized_header b of
            None \<Rightarrow> None
          | Some (Inl _) \<Rightarrow> Some (Inl (-1), s)
          | Some (Inr (param_count, b)) \<Rightarrow>
              if param_count \<noteq> response_param_count then Some (Inl (-1), s)
              else
                (case read_serialized_loop (unat response_param_count) b of
                   None \<Rightarrow> None
                 | Some res \<Rightarrow> Some (res, s))))"

text \<open>The size and the value of a parameter in the response buffer; the array of \<open>copy_param\<close> is \<open>out\<close>.\<close>

definition serialized_size :: "bytes \<Rightarrow> nat \<Rightarrow> u16 option" where
  "serialized_size mem param = map_option le_word (read_at param 2 mem)"

definition serialized_value :: "bytes \<Rightarrow> nat \<Rightarrow> nat \<Rightarrow> bytes option" where
  "serialized_value mem param n = read_at (param + 4) n mem"

definition copy_param :: "bytes \<Rightarrow> nat \<Rightarrow> bytes \<Rightarrow> nat \<Rightarrow> (int + bytes) option" where
  "copy_param mem param out output_size =
    (case serialized_size mem param of
       None \<Rightarrow> None
     | Some sz \<Rightarrow>
         if unat sz \<noteq> output_size then Some (Inl (-1))
         else
           (case serialized_value mem param output_size of
              None \<Rightarrow> None
            | Some v \<Rightarrow> map_option Inr (store_response 0 v out)))"

end
