(* ===== verification/Htool_Security_Wire.thy ===== *)
theory Htool_Security_Wire
  imports Htool_Security
begin

text \<open>
  What the commands of \<open>Htool_Security\<close> mean: the encoding of parameters, bounds of every access,
  which serialized responses are accepted, and calls of a root of trust that offers such commands.
\<close>

section \<open>What a command means\<close>

text \<open>Parameters on the wire: a size, a reserved field, the value, and zeros up to a multiple of four.\<close>

definition pad_len :: "nat \<Rightarrow> nat" where
  "pad_len n = (if n mod 4 = 0 then 0 else 4 - n mod 4)"

definition v2_field :: "bytes \<Rightarrow> bytes" where
  "v2_field v = le_bytes 2 (word_of_nat (length v) :: u16) @ [0, 0] @ v @ replicate (pad_len (length v)) 0"

definition v2_encode :: "bytes list \<Rightarrow> bytes" where
  "v2_encode vs = concat (map v2_field vs)"

definition v2_message :: "bytes \<Rightarrow> bytes list \<Rightarrow> bytes" where
  "v2_message codes vs = codes @ le_bytes 2 (word_of_nat (length vs) :: u16) @ v2_encode vs"

text \<open>Reading parameters of given sizes.\<close>

fun v2_parse :: "nat list \<Rightarrow> bytes \<Rightarrow> bytes list option" where
  "v2_parse [] bs = Some []"
| "v2_parse (n # ns) bs =
    (if length bs < 4 \<or> le_nat (take 2 bs) \<noteq> n \<or> length bs < 4 + n + pad_len n then None
     else map_option ((#) (byte_range 4 n bs)) (v2_parse ns (drop (4 + n + pad_len n) bs)))"

text \<open>Reading a number of parameters, as the root of trust does.\<close>

fun v2_decode :: "nat \<Rightarrow> bytes \<Rightarrow> bytes list" where
  "v2_decode 0 bs = []"
| "v2_decode (Suc k) bs =
    (let n = le_nat (take 2 bs) in byte_range 4 n bs # v2_decode k (drop (4 + n + pad_len n) bs))"

lemma pad_len_le: "pad_len n \<le> 3"
  unfolding pad_len_def by presburger

lemma length_v2_field [simp]: "length (v2_field v) = 4 + length v + pad_len (length v)"
  by (simp add: v2_field_def)

lemma v2_encode_simps [simp]: "v2_encode [] = []" "v2_encode (v # vs) = v2_field v @ v2_encode vs"
  by (simp_all add: v2_encode_def)

lemma length_v2_message [simp]: "length (v2_message codes vs) = length codes + 2 + length (v2_encode vs)"
  by (simp add: v2_message_def)

lemma take_2_field:
  "length v < 65536 \<Longrightarrow> le_nat (take 2 (v2_field v)) = length v"
  by (simp add: v2_field_def le_nat_le_bytes unat_of_nat)

lemma range_field: "byte_range 4 (length v) (v2_field v @ bs) = v"
  by (simp add: v2_field_def byte_range_def)

lemma v2_decode_encode:
  "list_all (\<lambda>v. length v < 65536) vs \<Longrightarrow> v2_decode (length vs) (v2_encode vs @ bs) = vs"
  by (induction vs) (simp_all add: take_2_field range_field Let_def)

lemma v2_parse_encode:
  "list_all (\<lambda>v. length v < 65536) vs \<Longrightarrow> length ns = length vs \<Longrightarrow>
    v2_parse ns (v2_encode vs) = (if map length vs = ns then Some vs else None)"
proof (induction ns "v2_encode vs" arbitrary: vs rule: v2_parse.induct)
  case (2 n ns)
  then obtain v vs' where vs: "vs = v # vs'" by (cases vs) auto
  show ?case
  proof (cases "n = length v")
    case True
    have "drop (4 + n + pad_len n) (v2_encode vs) = v2_encode vs'" by (simp add: vs True)
    moreover have "\<not> (length (v2_encode vs) < 4 \<or> le_nat (take 2 (v2_encode vs)) \<noteq> n \<or>
        length (v2_encode vs) < 4 + n + pad_len n)"
      using 2(2) by (simp add: vs take_2_field True)
    moreover have "byte_range 4 n (v2_encode vs) = v" by (simp add: vs True range_field)
    ultimately show ?thesis using 2 by (simp add: vs True)
  next
    case False
    then show ?thesis using 2(2) by (auto simp: vs take_2_field)
  qed
qed simp

section \<open>Buffers, read and filled\<close>

lemma padding_size: "padding_size sz = pad_len (unat sz)"
  by (simp add: padding_size_def pad_len_def Let_def)

text \<open>Sizes for which the padded size does not wrap around.\<close>

definition param_ok :: "security_v2_param \<Rightarrow> bool" where
  "param_ok p \<longleftrightarrow> length (prm_data p) = unat (prm_size p) \<and> unat (prm_size p) < 65533"

lemma unat_padded_size: "unat sz < 65533 \<Longrightarrow> unat (padded_size sz) = unat sz + pad_len (unat sz)"
  using pad_len_le [of "unat sz"] by (simp add: padded_size_def padding_size unat_of_nat del: of_nat_add)

lemma consume_ok:
  assumes "unat (bytes_consumed b) + unat n \<le> unat (buf_size b)"
  shows "consume_bytes b n = Some (unat (bytes_consumed b), b\<lparr>bytes_consumed := bytes_consumed b + n\<rparr>)"
    and "unat (bytes_consumed b + n) = unat (bytes_consumed b) + unat n"
proof -
  show "consume_bytes b n = Some (unat (bytes_consumed b), b\<lparr>bytes_consumed := bytes_consumed b + n\<rparr>)"
    using assms by (auto simp: consume_bytes_def word_less_nat_alt)
  have "unat (buf_size b) < 65536" using unat_bound [of "buf_size b"] by simp
  then show "unat (bytes_consumed b + n) = unat (bytes_consumed b) + unat n"
    using assms by (simp add: unat_word_ariths)
qed

lemma consume_none:
  "unat (bytes_consumed b) \<le> unat (buf_size b) \<Longrightarrow> \<not> unat (bytes_consumed b) + unat n \<le> unat (buf_size b) \<Longrightarrow>
    consume_bytes b n = None"
  by (auto simp: consume_bytes_def word_less_nat_alt)

text \<open>The part of a buffer that is filled, and the zeros behind it.\<close>

definition filled :: "security_v2_buffer \<Rightarrow> bytes \<Rightarrow> bool" where
  "filled b bs \<longleftrightarrow> length bs = unat (bytes_consumed b) \<and> unat (bytes_consumed b) \<le> unat (buf_size b) \<and>
     buf_data b = bs @ replicate (unat (buf_size b) - length bs) 0"

lemma memcpy_filled:
  "length bs = off \<Longrightarrow> length xs \<le> k \<Longrightarrow>
    memcpy_at off xs (bs @ replicate k 0) = bs @ xs @ replicate (k - length xs) (0 :: u8)"
  by (simp add: memcpy_at_def)

lemma filled_param:
  assumes f: "filled b bs" and p: "param_ok p"
    and fits: "length bs + length (v2_field (prm_data p)) \<le> unat (buf_size b)"
  shows "\<exists>b'. put_request_params (p # ps) b = put_request_params ps b' \<and>
    filled b' (bs @ v2_field (prm_data p)) \<and> buf_size b' = buf_size b"
proof -
  let ?v = "prm_data p" and ?n = "unat (prm_size p)" and ?k = "unat (buf_size b)"
  have n: "length ?v = ?n" "?n < 65533" using p by (simp_all add: param_ok_def)
  have pad: "unat (padded_size (prm_size p)) = ?n + pad_len ?n" using n(2) by (rule unat_padded_size)
  have bs: "length bs = unat (bytes_consumed b)" and d: "buf_data b = bs @ replicate (?k - length bs) 0"
    using f by (simp_all add: filled_def)
  have fit: "length bs + (4 + ?n + pad_len ?n) \<le> ?k" using fits n by simp
  have c1: "consume_bytes b 4 = Some (length bs, b\<lparr>bytes_consumed := bytes_consumed b + 4\<rparr>)"
    "unat (bytes_consumed b + 4) = length bs + 4"
    using consume_ok [of b 4] fit bs by simp_all
  let ?d1 = "bs @ (le_bytes 2 (prm_size p) @ [0, 0]) @ replicate (?k - (length bs + 4)) 0"
  have s1: "store_response (length bs) (le_bytes 2 (prm_size p)) (buf_data b) = Some ?d1"
  proof -
    have "replicate (?k - (length bs + 2)) 0 = [0, 0] @ replicate (?k - (length bs + 4)) (0 :: u8)"
    proof -
      have "?k - (length bs + 2) = Suc (Suc (?k - (length bs + 4)))" using fit by simp
      then show ?thesis by (simp only: replicate_Suc append_Cons append_Nil)
    qed
    then show ?thesis using fit by (simp add: store_response_def d memcpy_filled)
  qed
  let ?b1 = "b\<lparr>bytes_consumed := bytes_consumed b + 4, buf_data := ?d1\<rparr>"
  have c2: "consume_bytes ?b1 (padded_size (prm_size p)) =
      Some (length bs + 4, ?b1\<lparr>bytes_consumed := bytes_consumed b + 4 + padded_size (prm_size p)\<rparr>)"
    "unat (bytes_consumed b + 4 + padded_size (prm_size p)) = length bs + 4 + (?n + pad_len ?n)"
    using consume_ok [of ?b1 "padded_size (prm_size p)"] fit c1(2) pad by simp_all
  have r: "read_at 0 ?n ?v = Some ?v" using n(1) by (simp add: read_at_def byte_range_def)
  let ?d2 = "(bs @ v2_field ?v) @ replicate (?k - length (bs @ v2_field ?v)) 0"
  have s2: "store_response (length bs + 4) ?v ?d1 = Some ?d2"
  proof -
    have "memcpy_at (length bs + 4) ?v ((bs @ le_bytes 2 (prm_size p) @ [0, 0]) @ replicate (?k - (length bs + 4)) 0) =
        (bs @ le_bytes 2 (prm_size p) @ [0, 0]) @ ?v @ replicate (?k - (length bs + 4) - ?n) 0"
      using fit n(1) by (subst memcpy_filled) simp_all
    moreover have "replicate (?k - (length bs + 4) - ?n) (0 :: u8) =
        replicate (pad_len ?n) 0 @ replicate (?k - length (bs @ v2_field ?v)) 0"
      using fit n(1) by (simp flip: replicate_add)
    moreover have "v2_field ?v = le_bytes 2 (prm_size p) @ [0, 0] @ ?v @ replicate (pad_len ?n) 0"
      by (simp add: v2_field_def n(1))
    moreover have "length bs + 4 + length ?v \<le> length ?d1" using fit n(1) by simp
    ultimately show ?thesis unfolding store_response_def by (simp only: if_True append_assoc)
  qed
  let ?b2 = "?b1\<lparr>bytes_consumed := bytes_consumed b + 4 + padded_size (prm_size p), buf_data := ?d2\<rparr>"
  have "put_request_params (p # ps) b = put_request_params ps ?b2"
    using c1(1) s1 c2(1) r s2 by simp
  moreover have "filled ?b2 (bs @ v2_field ?v)"
    using c2(2) fit n(1) by (simp add: filled_def)
  ultimately show ?thesis by (intro exI [of _ ?b2]) simp
qed

lemma put_request_params:
  "filled b bs \<Longrightarrow> list_all param_ok ps \<Longrightarrow> length bs + length (v2_encode (map prm_data ps)) \<le> unat (buf_size b) \<Longrightarrow>
    \<exists>b'. put_request_params ps b = Some (Inr b') \<and> filled b' (bs @ v2_encode (map prm_data ps)) \<and> buf_size b' = buf_size b"
proof (induction ps arbitrary: b bs)
  case (Cons p ps)
  have "length bs + length (v2_field (prm_data p)) \<le> unat (buf_size b)" using Cons.prems(3) by simp
  with Cons.prems obtain b1 where b1: "put_request_params (p # ps) b = put_request_params ps b1"
    "filled b1 (bs @ v2_field (prm_data p))" "buf_size b1 = buf_size b"
    using filled_param [of b bs p ps] by auto
  with Cons.IH [OF b1(2)] Cons.prems show ?case by (auto simp del: put_request_params.simps)
qed auto


text \<open>What is left to read of a buffer.\<close>

definition unread :: "security_v2_buffer \<Rightarrow> bytes" where
  "unread b = byte_range (unat (bytes_consumed b)) (unat (buf_size b) - unat (bytes_consumed b)) (buf_data b)"

definition readable :: "security_v2_buffer \<Rightarrow> bool" where
  "readable b \<longleftrightarrow> unat (bytes_consumed b) \<le> unat (buf_size b) \<and> unat (buf_size b) \<le> length (buf_data b)"

lemma length_unread: "readable b \<Longrightarrow> length (unread b) = unat (buf_size b) - unat (bytes_consumed b)"
  by (simp add: unread_def readable_def)

text \<open>Consuming is taking off what is left; too much is refused.\<close>

lemma consume_unread:
  assumes "readable b"
  shows "consume_bytes b n =
    (if unat n \<le> length (unread b)
     then Some (unat (bytes_consumed b), b\<lparr>bytes_consumed := bytes_consumed b + n\<rparr>) else None)"
  using consume_ok(1) [of b n] consume_none [of b n] assms by (auto simp: length_unread readable_def)

lemma after_consume:
  assumes "readable b" and "unat n \<le> length (unread b)"
  defines "b' \<equiv> b\<lparr>bytes_consumed := bytes_consumed b + n\<rparr>"
  shows "readable b'" "unread b' = drop (unat n) (unread b)"
    and "k \<le> unat n \<Longrightarrow> read_at (unat (bytes_consumed b)) k (buf_data b') = Some (take k (unread b))"
proof -
  have le: "unat (bytes_consumed b) + unat n \<le> unat (buf_size b)"
    using assms(1,2) unfolding length_unread [OF assms(1)] readable_def by arith
  then have u: "unat (bytes_consumed b + n) = unat (bytes_consumed b) + unat n" by (rule consume_ok(2))
  show "readable b'" using assms(1) le by (simp add: readable_def b'_def u)
  show "unread b' = drop (unat n) (unread b)"
    by (simp add: unread_def b'_def u byte_range_def drop_take add.commute [of _ "unat (bytes_consumed b)"])
  show "read_at (unat (bytes_consumed b)) k (buf_data b') = Some (take k (unread b))" if "k \<le> unat n"
    using that le assms(1) by (auto simp: read_at_def b'_def readable_def unread_def byte_range_def min_def)
qed

definition set_data :: "security_v2_param \<Rightarrow> bytes \<Rightarrow> security_v2_param" where
  "set_data p v = p\<lparr>prm_data := v\<rparr>"

lemma get_response_params:
  "readable b \<Longrightarrow> list_all param_ok ps \<Longrightarrow>
    \<exists>b'. readable b' \<and> buf_data b' = buf_data b \<and> get_response_params ps b =
      Some (case v2_parse (map (\<lambda>p. unat (prm_size p)) ps) (unread b) of
              None \<Rightarrow> Inl (-1) | Some vs \<Rightarrow> Inr (map2 set_data ps vs, b'))"
proof (induction ps arbitrary: b)
  case (Cons p ps)
  let ?n = "unat (prm_size p)" and ?u = "unread b"
  have ok: "length (prm_data p) = ?n" "?n < 65533" using Cons.prems(2) by (simp_all add: param_ok_def)
  have pad: "unat (padded_size (prm_size p)) = ?n + pad_len ?n" using ok(2) by (rule unat_padded_size)
  show ?case
  proof (cases "length ?u < 4")
    case True
    then show ?thesis using Cons.prems(1) by (auto simp: consume_unread intro!: exI [of _ b])
  next
    case False
    define b1 where "b1 = b\<lparr>bytes_consumed := bytes_consumed b + 4\<rparr>"
    have 4: "unat (4 :: u16) \<le> length ?u" using False by simp
    note a1 = after_consume [OF Cons.prems(1) 4, folded b1_def]
    have c1: "consume_bytes b 4 = Some (unat (bytes_consumed b), b1)"
      using Cons.prems(1) False by (simp add: consume_unread b1_def)
    have r1: "read_at (unat (bytes_consumed b)) 2 (buf_data b1) = Some (take 2 ?u)" using a1(3) [of 2] by simp
    have sz: "le_word (take 2 ?u) = prm_size p \<longleftrightarrow> le_nat (take 2 ?u) = ?n"
      using False by (simp add: word_unat_eq_iff unat_le_word)
    show ?thesis
    proof (cases "le_nat (take 2 ?u) = ?n \<and> 4 + ?n + pad_len ?n \<le> length ?u")
      case bad: False
      have "get_response_params (p # ps) b = Some (Inl (-1))"
      proof (cases "le_nat (take 2 ?u) = ?n")
        case True
        then have "consume_bytes b1 (padded_size (prm_size p)) = None"
          using bad a1 pad \<open>\<not> length ?u < 4\<close> by (auto simp: consume_unread)
        then show ?thesis using c1 r1 sz by simp
      qed (use c1 r1 sz in simp)
      moreover have "v2_parse (map (\<lambda>p. unat (prm_size p)) (p # ps)) ?u = None" using bad by auto
      ultimately show ?thesis using Cons.prems(1) by (auto simp del: v2_parse.simps get_response_params.simps)
    next
      case good: True
      define b2 where "b2 = b1\<lparr>bytes_consumed := bytes_consumed b1 + padded_size (prm_size p)\<rparr>"
      have fit: "unat (padded_size (prm_size p)) \<le> length (unread b1)"
        using good unfolding a1(2) length_drop pad by simp arith
      note a2 = after_consume [OF a1(1) fit, folded b2_def]
      have c2: "consume_bytes b1 (padded_size (prm_size p)) = Some (unat (bytes_consumed b1), b2)"
        using fit a1(1) by (simp add: consume_unread b2_def)
      have "?n \<le> unat (padded_size (prm_size p))" using pad by simp
      from a2(3) [OF this] have r2: "read_at (unat (bytes_consumed b1)) ?n (buf_data b2) = Some (byte_range 4 ?n ?u)"
        by (simp add: a1(2) byte_range_def)
      have s2: "store_response 0 (byte_range 4 ?n ?u) (prm_data p) = Some (byte_range 4 ?n ?u)"
        using ok good by (simp add: store_response_def memcpy_at_def)
      have u2: "unread b2 = drop (4 + ?n + pad_len ?n) ?u" using a2(2) a1(2) pad by (simp add: add.assoc add.commute [of _ 4])
      have "buf_data b2 = buf_data b" by (simp add: b2_def b1_def)
      then obtain b' where "readable b'" "buf_data b' = buf_data b" "get_response_params ps b2 =
          Some (case v2_parse (map (\<lambda>p. unat (prm_size p)) ps) (unread b2) of
              None \<Rightarrow> Inl (-1) | Some vs \<Rightarrow> Inr (map2 set_data ps vs, b'))"
        using Cons.IH [OF a2(1)] Cons.prems(2) by fastforce
      then show ?thesis using c1 r1 sz good c2 r2 s2 u2
        by (intro exI [of _ b']) (auto simp: set_data_def split: option.splits)
    qed
  qed
qed auto


text \<open>The request of a command in a storage of a given size, and the values in a response.\<close>

definition v2_request :: "u8 \<Rightarrow> u8 \<Rightarrow> bytes list \<Rightarrow> nat \<Rightarrow> bytes" where
  "v2_request major minor vs n =
    v2_message [major, minor] vs @ replicate (n - length (v2_message [major, minor] vs)) 0"

definition v2_reply :: "nat list \<Rightarrow> bytes \<Rightarrow> bytes list option" where
  "v2_reply ns p = (if length p < 4 \<or> le_nat (take 2 p) \<noteq> length ns then None else v2_parse ns (drop 4 p))"

lemma legacy_bounded:
  "libhoth_hostcmd_exec [] dev c 0 (Some req) (length req) n True s = ((status, Some p), s') \<Longrightarrow> length p \<le> n"
  using hc.exec_bounded [of dev c 0 req n s p s']
  by (auto simp: libhoth_hostcmd_exec_def hostcmd_def Let_def split: prod.splits sum.splits if_splits)

lemma v2_request_sent:
  assumes "list_all param_ok ps" and "length (v2_message [major, minor] (map prm_data ps)) \<le> n" and "n < 65536"
  shows "\<exists>b1 d b. consume_bytes (security_v2_buffer_param (replicate n 0)) 4 = Some (0, b1) \<and>
    store_response 0 ([major, minor] @ le_bytes 2 (word_of_nat (length ps) :: u16)) (buf_data b1) = Some d \<and>
    put_request_params ps (b1\<lparr>buf_data := d\<rparr>) = Some (Inr b) \<and>
    read_at 0 (unat (buf_size b)) (buf_data b) = Some (v2_request major minor (map prm_data ps) n)"
proof -
  let ?vs = "map prm_data ps" and ?b = "security_v2_buffer_param (replicate n 0)"
  let ?b1 = "?b\<lparr>bytes_consumed := bytes_consumed ?b + 4\<rparr>" and ?h = "[major, minor] @ le_bytes 2 (word_of_nat (length ps) :: u16)"
  have n: "unat (buf_size ?b) = n" using assms(3) by (simp add: security_v2_buffer_param_def unat_of_nat)
  have fit: "4 + length (v2_encode ?vs) \<le> n" using assms(2) by simp
  have c: "consume_bytes ?b 4 = Some (0, ?b1)" using consume_ok(1) [of ?b 4] n fit by (simp add: security_v2_buffer_param_def)
  let ?d = "?h @ replicate (n - 4) 0"
  have st: "store_response 0 ?h (buf_data ?b1) = Some ?d"
    using fit memcpy_filled [of "[]" 0 ?h n] by (simp add: store_response_def security_v2_buffer_param_def)
  let ?b2 = "?b1\<lparr>buf_data := ?d\<rparr>"
  have "filled ?b2 ?h" using n fit by (simp add: filled_def security_v2_buffer_param_def)
  from put_request_params [OF this assms(1)] n fit obtain b where
    b: "put_request_params ps ?b2 = Some (Inr b)" "filled b (?h @ v2_encode ?vs)" "buf_size b = buf_size ?b2" by auto
  have "buf_data b = v2_request major minor ?vs n"
    using b(2,3) n by (simp add: filled_def v2_request_def v2_message_def)
  moreover have "length (v2_request major minor ?vs n) = n" using fit by (simp add: v2_request_def)
  ultimately have "read_at 0 (unat (buf_size b)) (buf_data b) = Some (v2_request major minor ?vs n)"
    using b(3) n by (simp add: read_at_def byte_range_def)
  then show ?thesis using c st b(1) by blast
qed

lemma security_v2_cmd:
  assumes ps: "list_all param_ok ps" "length (v2_message [major, minor] (map prm_data ps)) \<le> n" "n < 65536"
    and rs: "list_all param_ok rs" "length rst < 65536"
    and x: "libhoth_hostcmd_exec [] dev c 0 (Some (v2_request major minor (map prm_data ps) n)) n (length rst) True s =
      ((status, r), s')"
  shows "status \<noteq> 0 \<Longrightarrow> htool_exec_security_v2_cmd junk dev major minor c
        (security_v2_buffer_param (replicate n 0)) ps (security_v2_buffer_param rst) rs s = Some (Inl status, s')"
    and "status = 0 \<Longrightarrow> r = Some p \<Longrightarrow>
      \<exists>b. readable b \<and> length (buf_data b) = length rst \<and> (rs = [] \<longrightarrow> unread b = p \<and> bytes_consumed b = 0) \<and>
        htool_exec_security_v2_cmd junk dev major minor c
          (security_v2_buffer_param (replicate n 0)) ps (security_v2_buffer_param rst) rs s =
        Some (if rs = [] then Inr ([], b)
              else case v2_reply (map (\<lambda>p. unat (prm_size p)) rs) p of
                None \<Rightarrow> Inl (-1) | Some vs \<Rightarrow> Inr (map2 set_data rs vs, b), s')"
proof -
  let ?req = "v2_request major minor (map prm_data ps) n"
  obtain b1 d b where b: "consume_bytes (security_v2_buffer_param (replicate n 0)) 4 = Some (0, b1)"
    "store_response 0 ([major, minor] @ le_bytes 2 (word_of_nat (length ps) :: u16)) (buf_data b1) = Some d"
    "put_request_params ps (b1\<lparr>buf_data := d\<rparr>) = Some (Inr b)"
    "read_at 0 (unat (buf_size b)) (buf_data b) = Some ?req"
    using v2_request_sent [OF ps] by blast
  have len: "length ?req = n" using ps(2) by (simp add: v2_request_def)
  have m: "unat (buf_size (security_v2_buffer_param rst)) = length rst"
    using rs(2) by (simp add: security_v2_buffer_param_def unat_of_nat)
  note run = b len m x
  show "htool_exec_security_v2_cmd junk dev major minor c
        (security_v2_buffer_param (replicate n 0)) ps (security_v2_buffer_param rst) rs s = Some (Inl status, s')"
    if "status \<noteq> 0"
    using that run by (simp add: htool_exec_security_v2_cmd_def)
  show "\<exists>b. readable b \<and> length (buf_data b) = length rst \<and> (rs = [] \<longrightarrow> unread b = p \<and> bytes_consumed b = 0) \<and>
        htool_exec_security_v2_cmd junk dev major minor c
          (security_v2_buffer_param (replicate n 0)) ps (security_v2_buffer_param rst) rs s =
        Some (if rs = [] then Inr ([], b)
              else case v2_reply (map (\<lambda>p. unat (prm_size p)) rs) p of
                None \<Rightarrow> Inl (-1) | Some vs \<Rightarrow> Inr (map2 set_data rs vs, b), s')"
    if ok: "status = 0" "r = Some p"
  proof -
    have lp: "length p \<le> length rst" using legacy_bounded [of dev c ?req "length rst" s status p s'] x len ok by simp
    have st: "store_response 0 p (buf_data (security_v2_buffer_param rst)) = Some (memcpy_at 0 p rst)"
      using lp by (simp add: store_response_def security_v2_buffer_param_def)
    define b2 where "b2 = (security_v2_buffer_param rst)\<lparr>buf_data := memcpy_at 0 p rst, buf_size := word_of_nat (length p)\<rparr>"
    have sz: "unat (word_of_nat (length p) :: u16) = length p" using lp rs(2) by (simp add: unat_of_nat)
    have rd: "readable b2" "unread b2 = p" "length (buf_data b2) = length rst" "bytes_consumed b2 = 0"
      using lp by (simp_all add: readable_def unread_def b2_def security_v2_buffer_param_def sz byte_range_def memcpy_at_def)
    have eq: "htool_exec_security_v2_cmd junk dev major minor c
          (security_v2_buffer_param (replicate n 0)) ps (security_v2_buffer_param rst) rs s =
        (if rs = [] then Some (Inr ([], b2), s')
         else case consume_bytes b2 4 of
            None \<Rightarrow> Some (Inl (-1), s')
          | Some (off, b) \<Rightarrow>
              (case read_at off 2 (buf_data b) of
                 None \<Rightarrow> None
               | Some n \<Rightarrow>
                   if unat (le_word n :: u16) \<noteq> length rs then Some (Inl (-1), s')
                   else (case get_response_params rs b of None \<Rightarrow> None | Some res \<Rightarrow> Some (res, s'))))"
      using ok run st by (simp add: htool_exec_security_v2_cmd_def b2_def Let_def)
    show ?thesis
    proof (cases "rs = []")
      case True
      then show ?thesis using rd eq by (intro exI [of _ b2]) simp
    next
      case ne: False
      show ?thesis
      proof (cases "length p < 4")
        case True
        then have "consume_bytes b2 4 = None" using rd by (simp add: consume_unread)
        then show ?thesis using ne rd eq True by (intro exI [of _ b2]) (simp add: v2_reply_def)
      next
        case False
        define b3 where "b3 = b2\<lparr>bytes_consumed := bytes_consumed b2 + 4\<rparr>"
        have 4: "unat (4 :: u16) \<le> length (unread b2)" using False rd by simp
        note a = after_consume [OF rd(1) 4, folded b3_def]
        have c4: "consume_bytes b2 4 = Some (unat (bytes_consumed b2), b3)"
          using False rd by (simp add: consume_unread b3_def)
        have r2: "read_at (unat (bytes_consumed b2)) 2 (buf_data b3) = Some (take 2 p)" using a(3) [of 2] rd by simp
        have sz2: "unat (le_word (take 2 p) :: u16) = le_nat (take 2 p)" using False by (simp add: unat_le_word)
        have u3: "unread b3 = drop 4 p" using a(2) rd by simp
        from get_response_params [OF a(1) rs(1)] obtain b' where b': "readable b'" "buf_data b' = buf_data b3"
          "get_response_params rs b3 = Some (case v2_parse (map (\<lambda>p. unat (prm_size p)) rs) (unread b3) of
              None \<Rightarrow> Inl (-1) | Some vs \<Rightarrow> Inr (map2 set_data rs vs, b'))" by blast
        show ?thesis
          using ne eq c4 r2 sz2 u3 b' False rd(3)
          by (intro exI [of _ b']) (auto simp: v2_reply_def b3_def split: option.splits)
      qed
    qed
  qed
qed


text \<open>
  A success that leaves the storage alone is a message without parameters, as the storage holds
  zeros.
\<close>

lemma security_v2_cmd_unwritten:
  assumes ps: "list_all param_ok ps" "length (v2_message [major, minor] (map prm_data ps)) \<le> n" "n < 65536"
    and m: "4 \<le> m" "m < 65536"
    and x: "libhoth_hostcmd_exec [] dev c 0 (Some (v2_request major minor (map prm_data ps) n)) n m True s =
      ((0, None), s')"
  shows "\<exists>b. htool_exec_security_v2_cmd junk dev major minor c
      (security_v2_buffer_param (replicate n 0)) ps (security_v2_buffer_param (replicate m 0)) rs s =
    Some (if rs = [] then Inr ([], b) else Inl (-1), s') \<and>
    buf_data b = replicate m 0 \<and> buf_size b = junk \<and> bytes_consumed b = 0"
proof -
  obtain b1 d b where b: "consume_bytes (security_v2_buffer_param (replicate n 0)) 4 = Some (0, b1)"
    "store_response 0 ([major, minor] @ le_bytes 2 (word_of_nat (length ps) :: u16)) (buf_data b1) = Some d"
    "put_request_params ps (b1\<lparr>buf_data := d\<rparr>) = Some (Inr b)"
    "read_at 0 (unat (buf_size b)) (buf_data b) = Some (v2_request major minor (map prm_data ps) n)"
    using v2_request_sent [OF ps] by blast
  have len: "length (v2_request major minor (map prm_data ps) n) = n" using ps(2) by (simp add: v2_request_def)
  have sz: "unat (buf_size (security_v2_buffer_param (replicate m 0))) = m"
    using m by (simp add: security_v2_buffer_param_def unat_of_nat)
  define b2 where "b2 = (security_v2_buffer_param (replicate m 0))\<lparr>buf_size := junk\<rparr>"
  have st: "store_response 0 [] (buf_data (security_v2_buffer_param (replicate m 0))) = Some (replicate m 0)"
    by (simp add: store_response_def security_v2_buffer_param_def memcpy_at_def)
  have d2: "buf_data b2 = replicate m 0" "buf_size b2 = junk" "bytes_consumed b2 = 0"
    by (simp_all add: b2_def security_v2_buffer_param_def)
  have "2 + (m - 2) = m" using m by simp
  then have z: "replicate m (0 :: u8) = replicate 2 0 @ replicate (m - 2) 0" by (metis replicate_add)
  have eq: "htool_exec_security_v2_cmd junk dev major minor c
        (security_v2_buffer_param (replicate n 0)) ps (security_v2_buffer_param (replicate m 0)) rs s =
      (if rs = [] then Some (Inr ([], b2), s')
       else case consume_bytes b2 4 of
          None \<Rightarrow> Some (Inl (-1), s')
        | Some (off, b) \<Rightarrow>
            (case read_at off 2 (buf_data b) of
               None \<Rightarrow> None
             | Some n \<Rightarrow>
                 if unat (le_word n :: u16) \<noteq> length rs then Some (Inl (-1), s')
                 else (case get_response_params rs b of None \<Rightarrow> None | Some res \<Rightarrow> Some (res, s'))))"
    using b len sz x st by (simp add: htool_exec_security_v2_cmd_def b2_def Let_def security_v2_buffer_param_def)
  have "read_at 0 2 (replicate m 0) = Some ([0, 0] :: bytes)"
    using m z by (simp add: read_at_def byte_range_def numeral_2_eq_2)
  moreover have "unat (le_word [0, 0] :: u16) = 0" by (simp add: le_word_def)
  ultimately show ?thesis
    using eq d2 by (intro exI [of _ b2]) (auto simp: consume_bytes_def)
qed

section \<open>Serialized responses\<close>

lemma field_inverse:
  assumes "le_nat (take 2 u) = n" "byte_range 2 2 u = [0, 0]" "4 + n + pad_len n \<le> length u"
    and "byte_range (4 + n) (pad_len n) u = replicate (pad_len n) 0"
  shows "u = v2_field (byte_range 4 n u) @ drop (4 + n + pad_len n) u" "n < 65536"
proof -
  have l: "length (take 2 u) = 2" using assms(3) by simp
  show n: "n < 65536" using le_nat_bound [of "take 2 u"] l assms(1) by simp
  have w: "(word_of_nat n :: u16) = le_word (take 2 u)" using assms(1) by (simp add: le_word_def)
  have "le_bytes 2 (word_of_nat n :: u16) = take 2 u" unfolding w using l by (simp add: le_bytes_le_word)
  moreover have "u = take 2 u @ byte_range 2 2 u @ byte_range 4 n u @ byte_range (4 + n) (pad_len n) u @ drop (4 + n + pad_len n) u"
  proof -
    have "u = byte_range 0 (4 + n + pad_len n) u @ drop (4 + n + pad_len n) u" by (simp add: byte_range_def)
    moreover have "byte_range 0 (4 + n + pad_len n) u =
        byte_range 0 2 u @ byte_range 2 2 u @ byte_range 4 n u @ byte_range (4 + n) (pad_len n) u"
      by (simp add: byte_range_join numeral_eq_Suc)
    moreover have "byte_range 0 2 u = take 2 u" by (simp add: byte_range_def)
    ultimately show ?thesis by (metis append_assoc)
  qed
  moreover have "length (byte_range 4 n u) = n" using assms(3) by simp
  ultimately show "u = v2_field (byte_range 4 n u) @ drop (4 + n + pad_len n) u"
    using assms(2,4) by (simp add: v2_field_def)
qed


lemma field_start:
  assumes "length v < 65536"
  shows "le_nat (take 2 (v2_field v @ rest)) = length v" "byte_range 2 2 (v2_field v @ rest) = [0, 0]"
    and "byte_range (4 + length v) (pad_len (length v)) (v2_field v @ rest) = replicate (pad_len (length v)) 0"
proof -
  let ?h = "le_bytes 2 (word_of_nat (length v) :: u16) @ [0, 0] @ v"
  have "v2_field v @ rest = ?h @ replicate (pad_len (length v)) 0 @ rest" "length ?h = 4 + length v"
    by (simp_all add: v2_field_def)
  then show "byte_range (4 + length v) (pad_len (length v)) (v2_field v @ rest) = replicate (pad_len (length v)) 0"
    unfolding byte_range_def by (metis append_eq_conv_conj length_replicate)
  show "le_nat (take 2 (v2_field v @ rest)) = length v" using assms by (simp add: take_2_field)
  show "byte_range 2 2 (v2_field v @ rest) = [0, 0]" by (simp add: v2_field_def byte_range_def numeral_2_eq_2)
qed

lemma u16_at_eq: "k + 2 \<le> length bs \<Longrightarrow> u16_at k bs = w \<longleftrightarrow> byte_range k 2 bs = le_bytes 2 w"
proof -
  assume "k + 2 \<le> length bs"
  then have "le_bytes 2 (le_word (byte_range k 2 bs) :: u16) = byte_range k 2 bs" by (simp add: le_bytes_le_word)
  moreover have "le_word (le_bytes 2 w) = w" by simp
  ultimately show ?thesis unfolding u16_at_def by metis
qed

lemma zero_u16: "le_bytes 2 (0 :: u16) = [0, 0]"
  by (simp add: numeral_2_eq_2)

text \<open>A parameter is read exactly if the rest of the buffer begins with one, and all of it is taken off.\<close>

lemma read_serialized_param:
  assumes "readable b"
  shows "(if \<exists>v rest. length v < 65536 \<and> unread b = v2_field v @ rest
     then \<exists>v b'. length v < 65536 \<and> unread b = v2_field v @ unread b' \<and> readable b' \<and>
       buf_data b' = buf_data b \<and> buf_size b' = buf_size b \<and>
       read_security_v2_serialized_params b = Some (Inr (unat (bytes_consumed b), b'))
     else read_security_v2_serialized_params b = Some (Inl (-1)))"
proof -
  let ?u = "unread b"
  let ?n = "le_nat (take 2 ?u)"
  define good where "good \<longleftrightarrow> 4 \<le> length ?u \<and> byte_range 2 2 ?u = [0, 0] \<and> 4 + ?n + pad_len ?n \<le> length ?u \<and>
    byte_range (4 + ?n) (pad_len ?n) ?u = replicate (pad_len ?n) 0"
  have iff: "(\<exists>v rest. length v < 65536 \<and> ?u = v2_field v @ rest) \<longleftrightarrow> good"
  proof
    assume "\<exists>v rest. length v < 65536 \<and> ?u = v2_field v @ rest"
    then obtain v rest where v: "length v < 65536" "?u = v2_field v @ rest" by blast
    then show good using field_start [OF v(1), of rest] unfolding good_def v(2) by simp
  next
    assume good
    then show "\<exists>v rest. length v < 65536 \<and> ?u = v2_field v @ rest"
      using field_inverse [of ?u ?n] unfolding good_def by (metis length_byte_range add_leD1)
  qed
  have run: "if good
     then \<exists>v b'. length v < 65536 \<and> ?u = v2_field v @ unread b' \<and> readable b' \<and>
       buf_data b' = buf_data b \<and> buf_size b' = buf_size b \<and>
       read_security_v2_serialized_params b = Some (Inr (unat (bytes_consumed b), b'))
     else read_security_v2_serialized_params b = Some (Inl (-1))"
  proof (cases "4 \<le> length ?u")
    case False
    then show ?thesis
      using assms by (simp add: read_security_v2_serialized_params_def consume_unread good_def)
  next
    case len: True
    define b1 where "b1 = b\<lparr>bytes_consumed := bytes_consumed b + 4\<rparr>"
    have 4: "unat (4 :: u16) \<le> length ?u" using len by simp
    note a1 = after_consume [OF assms 4, folded b1_def]
    have c1: "consume_bytes b 4 = Some (unat (bytes_consumed b), b1)" using assms len by (simp add: consume_unread b1_def)
    have r1: "read_at (unat (bytes_consumed b)) 4 (buf_data b1) = Some (take 4 ?u)" using a1(3) [of 4] by simp
    have "byte_range 2 2 (take 4 ?u) = byte_range 2 2 ?u" by (simp add: byte_range_def drop_take)
    then have res: "u16_at 2 (take 4 ?u) = 0 \<longleftrightarrow> byte_range 2 2 ?u = [0, 0]"
      using len by (simp add: u16_at_eq zero_u16)
    have n: "unat (u16_at 0 (take 4 ?u)) = ?n"
      using len by (simp add: u16_at_def byte_range_def unat_le_word)
    let ?sz = "u16_at 0 (take 4 ?u)"
    show ?thesis
    proof (cases "byte_range 2 2 ?u = [0, 0] \<and> 4 + ?n \<le> length ?u")
      case False
      then have "consume_bytes b1 ?sz = None \<or> u16_at 2 (take 4 ?u) \<noteq> 0"
        using a1(1,2) n res len by (auto simp: consume_unread)
      then show ?thesis using False c1 r1
        by (auto simp: read_security_v2_serialized_params_def good_def)
    next
      case True
      define b2 where "b2 = b1\<lparr>bytes_consumed := bytes_consumed b1 + ?sz\<rparr>"
      have fit: "unat ?sz \<le> length (unread b1)" using True unfolding a1(2) length_drop n by simp arith
      note a2 = after_consume [OF a1(1) fit, folded b2_def]
      have c2: "consume_bytes b1 ?sz = Some (unat (bytes_consumed b1), b2)" using fit a1(1) by (simp add: consume_unread b2_def)
      have u2: "unread b2 = drop (4 + ?n) ?u" using a2(2) a1(2) n by (simp add: add.commute [of _ 4])
      have step: "read_security_v2_serialized_params b =
          (case validate_param_padding b2 ?sz of
             None \<Rightarrow> None | Some (Inl e) \<Rightarrow> Some (Inl e)
           | Some (Inr b') \<Rightarrow> Some (Inr (unat (bytes_consumed b), b')))"
        using c1 r1 res True c2 by (simp add: read_security_v2_serialized_params_def)
      have inv: "good \<Longrightarrow> ?u = v2_field (byte_range 4 ?n ?u) @ drop (4 + ?n + pad_len ?n) ?u \<and> length (byte_range 4 ?n ?u) < 65536"
        using field_inverse [of ?u ?n] by (simp add: good_def)
      show ?thesis
      proof (cases "pad_len ?n = 0")
        case z: True
        then have "validate_param_padding b2 ?sz = Some (Inr b2)" by (simp add: validate_param_padding_def padding_size n)
        moreover have good using True z len by (simp add: good_def byte_range_def)
        ultimately show ?thesis
          using step inv u2 z a2(1) by (auto simp: b2_def b1_def intro!: exI [of _ "byte_range 4 ?n ?u"] exI [of _ b2])
      next
        case nz: False
        let ?p = "word_of_nat (pad_len ?n) :: u16"
        have p: "unat ?p = pad_len ?n" using pad_len_le [of ?n] by (simp add: unat_of_nat)
        show ?thesis
        proof (cases "4 + ?n + pad_len ?n \<le> length ?u")
          case False
          then have "validate_param_padding b2 ?sz = Some (Inl (-1))"
            using nz a2(1) True by (simp add: validate_param_padding_def padding_size n Let_def consume_unread p u2) arith
          then show ?thesis using step False by (simp add: good_def)
        next
          case fits: True
          define b3 where "b3 = b2\<lparr>bytes_consumed := bytes_consumed b2 + ?p\<rparr>"
          have fit3: "unat ?p \<le> length (unread b2)" using fits unfolding u2 length_drop p by arith
          note a3 = after_consume [OF a2(1) fit3, folded b3_def]
          have c3: "consume_bytes b2 ?p = Some (unat (bytes_consumed b2), b3)" using fit3 a2(1) by (simp add: consume_unread b3_def)
          have r3: "read_at (unat (bytes_consumed b2)) (pad_len ?n) (buf_data b3) = Some (byte_range (4 + ?n) (pad_len ?n) ?u)"
            using a3(3) [of "pad_len ?n"] by (simp add: p u2 byte_range_def)
          have u3: "unread b3 = drop (4 + ?n + pad_len ?n) ?u" using a3(2) by (simp add: p u2 add.commute)
          have "length (byte_range (4 + ?n) (pad_len ?n) ?u) = pad_len ?n" using fits by simp
          then have "list_ex (\<lambda>x. x \<noteq> 0) (byte_range (4 + ?n) (pad_len ?n) ?u) \<longleftrightarrow> \<not> good"
            using True fits len by (auto simp: good_def list_ex_iff intro!: replicate_eqI)
          then have "validate_param_padding b2 ?sz = Some (if good then Inr b3 else Inl (-1))"
            using nz c3 r3 by (simp add: validate_param_padding_def padding_size n Let_def)
          then show ?thesis
            using step inv u3 a3(1) by (auto simp: b3_def b2_def b1_def intro!: exI [of _ "byte_range 4 ?n ?u"] exI [of _ b3])
        qed
      qed
    qed
  qed
  show ?thesis unfolding iff by (rule run)
qed


text \<open>The places of parameters that follow each other from an offset on.\<close>

fun v2_places :: "nat \<Rightarrow> bytes list \<Rightarrow> nat list" where
  "v2_places off [] = []"
| "v2_places off (v # vs) = off # v2_places (off + length (v2_field v)) vs"

definition v2_values :: "nat \<Rightarrow> bytes \<Rightarrow> bytes list \<Rightarrow> bytes \<Rightarrow> bool" where
  "v2_values k bs vs rest \<longleftrightarrow> length vs = k \<and> list_all (\<lambda>v. length v < 65536) vs \<and> bs = v2_encode vs @ rest"

lemma v2_values_unique:
  assumes "v2_values k bs vs rest" "v2_values k bs vs' rest'"
  shows "vs' = vs" "rest' = rest"
proof -
  show "vs' = vs" using assms by (metis v2_decode_encode v2_values_def)
  then show "rest' = rest" using assms by (auto simp: v2_values_def)
qed

lemma v2_values_Suc:
  "v2_values (Suc k) bs vs rest \<longleftrightarrow>
    (\<exists>v ws. vs = v # ws \<and> length v < 65536 \<and> bs = v2_field v @ v2_encode ws @ rest \<and> v2_values k (v2_encode ws @ rest) ws rest)"
  by (cases vs) (auto simp: v2_values_def)

lemma field_unique:
  assumes "v2_field v @ r = v2_field w @ r'" "length v < 65536" "length w < 65536"
  shows "w = v" "r' = r"
proof -
  have "v2_values 1 (v2_field v @ r) [v] r" "v2_values 1 (v2_field v @ r) [w] r'"
    using assms by (simp_all add: v2_values_def)
  from v2_values_unique [OF this] show "w = v" "r' = r" by simp_all
qed

lemma diff_consumed: "k - c = l + (k - c1) \<Longrightarrow> c \<le> k \<Longrightarrow> c1 \<le> k \<Longrightarrow> c1 = c + (l :: nat)"
  by arith

lemma read_serialized_loop:
  "readable b \<Longrightarrow>
    (\<exists>vs b'. v2_values k (unread b) vs (unread b') \<and> readable b' \<and> buf_data b' = buf_data b \<and>
       read_serialized_loop k b = Some (Inr (v2_places (unat (bytes_consumed b)) vs, b'))) \<or>
    (\<nexists>vs rest. v2_values k (unread b) vs rest) \<and> read_serialized_loop k b = Some (Inl (-1))"
proof (induction k arbitrary: b)
  case 0
  then show ?case by (intro disjI1 exI [of _ "[]"] exI [of _ b]) (simp add: v2_values_def)
next
  case (Suc k)
  show ?case
  proof (cases "\<exists>v rest. length v < 65536 \<and> unread b = v2_field v @ rest")
    case False
    then have "read_serialized_loop (Suc k) b = Some (Inl (-1))"
      using read_serialized_param [OF Suc.prems] by simp
    moreover have "\<nexists>vs rest. v2_values (Suc k) (unread b) vs rest" using False unfolding v2_values_Suc by blast
    ultimately show ?thesis by blast
  next
    case True
    with read_serialized_param [OF Suc.prems] obtain v b1 where
      v: "length v < 65536" "unread b = v2_field v @ unread b1" and b1: "readable b1" "buf_data b1 = buf_data b" "buf_size b1 = buf_size b"
      and r: "read_security_v2_serialized_params b = Some (Inr (unat (bytes_consumed b), b1))" by auto
    have "length (unread b) = length (v2_field v) + length (unread b1)" by (subst v(2)) simp
    then have at: "unat (bytes_consumed b1) = unat (bytes_consumed b) + length (v2_field v)"
      unfolding length_unread [OF Suc.prems] length_unread [OF b1(1)] b1(3)
      by (rule diff_consumed) (use Suc.prems b1 in \<open>simp_all only: readable_def\<close>)
    from Suc.IH [OF b1(1)] show ?thesis
    proof
      assume "\<exists>vs b'. v2_values k (unread b1) vs (unread b') \<and> readable b' \<and> buf_data b' = buf_data b1 \<and>
        read_serialized_loop k b1 = Some (Inr (v2_places (unat (bytes_consumed b1)) vs, b'))"
      then obtain vs b' where w: "v2_values k (unread b1) vs (unread b')" "readable b'" "buf_data b' = buf_data b1"
        "read_serialized_loop k b1 = Some (Inr (v2_places (unat (bytes_consumed b1)) vs, b'))" by blast
      have "v2_values (Suc k) (unread b) (v # vs) (unread b')" using v w(1) by (auto simp: v2_values_def)
      then show ?thesis using r w b1 at by (intro disjI1 exI [of _ "v # vs"] exI [of _ b']) simp
    next
      assume no: "(\<nexists>vs rest. v2_values k (unread b1) vs rest) \<and> read_serialized_loop k b1 = Some (Inl (-1))"
      have "\<nexists>vs rest. v2_values (Suc k) (unread b) vs rest"
      proof
        assume "\<exists>vs rest. v2_values (Suc k) (unread b) vs rest"
        then obtain u ws rest where u: "length u < 65536" "unread b = v2_field u @ v2_encode ws @ rest"
          and ws: "v2_values k (v2_encode ws @ rest) ws rest" unfolding v2_values_Suc by blast
        have "v2_encode ws @ rest = unread b1" by (rule field_unique(2) [OF trans [OF v(2) [symmetric] u(2)] v(1) u(1)])
        then show False using no ws by metis
      qed
      then show ?thesis using r no by simp
    qed
  qed
qed


lemma places_values:
  assumes "byte_range 0 k mem = pre @ v2_encode vs @ rest" and "k \<le> length mem" and "list_all (\<lambda>v. length v < 65536) vs"
  shows "list_all2 (\<lambda>off v. serialized_size mem off = Some (word_of_nat (length v)) \<and>
      serialized_value mem off (length v) = Some v) (v2_places (length pre) vs) vs"
  using assms(1,3)
proof (induction vs arbitrary: pre)
  case (Cons v vs)
  have m: "mem = (pre @ v2_field v @ v2_encode vs @ rest) @ drop k mem"
    using Cons.prems(1) by (metis append_assoc append_take_drop_id byte_range_def drop0 v2_encode_simps(2))
  have "length (pre @ v2_field v @ v2_encode vs @ rest) \<le> length mem" by (subst m) simp
  then have l: "length pre + 4 + length v \<le> length mem" by simp
  have "byte_range (length pre) 2 mem = take 2 (v2_field v)" by (subst m) (simp add: byte_range_def)
  then have sz: "serialized_size mem (length pre) = Some (word_of_nat (length v))"
    using l Cons.prems(2) by (simp add: serialized_size_def le_word_def take_2_field)
  have "byte_range (length pre + 4) (length v) mem = v"
    by (subst m) (simp add: byte_range_def v2_field_def)
  then have val: "serialized_value mem (length pre) (length v) = Some v"
    using l by (simp add: serialized_value_def)
  have "byte_range 0 k mem = (pre @ v2_field v) @ v2_encode vs @ rest" using Cons.prems(1) by simp
  from Cons.IH [OF this] Cons.prems(2) sz val show ?case by simp
qed simp

lemma v2_serialized_cmd:
  assumes ps: "list_all param_ok ps" "length (v2_message [major, minor] (map prm_data ps)) \<le> n" "n < 65536"
    and m: "m < 65536"
    and x: "libhoth_hostcmd_exec [] dev c 0 (Some (v2_request major minor (map prm_data ps) n)) n m True s =
      ((0, Some p), s')"
  shows "\<exists>out. htool_exec_security_v2_serialized_cmd junk dev major minor c
      (security_v2_buffer_param (replicate n 0)) ps (security_v2_buffer_param (replicate m 0)) count s = Some (out, s') \<and>
    ((\<exists>vs rest b. v2_values (unat count) (drop 4 p) vs rest \<and> take 4 p = le_bytes 2 count @ [0, 0] \<and>
        out = Inr (v2_places 4 vs, b) \<and>
        list_all2 (\<lambda>off v. serialized_size (buf_data b) off = Some (word_of_nat (length v)) \<and>
          serialized_value (buf_data b) off (length v) = Some v) (v2_places 4 vs) vs) \<or>
     (\<nexists>vs rest. v2_values (unat count) (drop 4 p) vs rest \<and> take 4 p = le_bytes 2 count @ [0, 0]) \<and> out = Inl (-1))"
proof -
  have "libhoth_hostcmd_exec [] dev c 0 (Some (v2_request major minor (map prm_data ps) n)) n (length (replicate m (0 :: u8))) True s =
      ((0, Some p), s')" using x by simp
  from security_v2_cmd(2) [OF ps _ _ this refl refl, where junk = junk and rs = "[]"] m obtain b where
    b: "readable b" "unread b = p" "bytes_consumed b = 0" "length (buf_data b) = m"
    and run: "htool_exec_security_v2_cmd junk dev major minor c
      (security_v2_buffer_param (replicate n 0)) ps (security_v2_buffer_param (replicate m 0)) [] s = Some (Inr ([], b), s')"
    by auto
  show ?thesis
  proof (cases "4 \<le> length p")
    case False
    then have "consume_bytes b 4 = None" using b by (simp add: consume_unread)
    moreover have "take 4 p \<noteq> le_bytes 2 count @ [0, 0]" using False by (auto dest: arg_cong [of _ _ length])
    ultimately show ?thesis
      using run by (simp add: htool_exec_security_v2_serialized_cmd_def read_security_v2_serialized_header_def)
  next
    case True
    define b1 where "b1 = b\<lparr>bytes_consumed := bytes_consumed b + 4\<rparr>"
    have 4: "unat (4 :: u16) \<le> length (unread b)" using True b by simp
    note a = after_consume [OF b(1) 4, folded b1_def]
    have c4: "consume_bytes b 4 = Some (0, b1)" using True b by (simp add: consume_unread b1_def)
    have r4: "read_at 0 4 (buf_data b1) = Some (take 4 p)" using a(3) [of 4] b by simp
    have hdr: "take 4 p = le_bytes 2 count @ [0, 0] \<longleftrightarrow> u16_at 2 (take 4 p) = 0 \<and> u16_at 0 (take 4 p) = count"
    proof -
      have split: "t = ws @ zs \<longleftrightarrow> xs = ws \<and> ys = zs" if "t = xs @ ys" "length xs = length ws" for t xs ys ws zs :: bytes
        using that by simp
      have "take 4 p = byte_range 0 2 (take 4 p) @ byte_range 2 2 (take 4 p)"
        by (simp add: byte_range_join) (simp add: byte_range_def)
      from split [OF this] have "take 4 p = le_bytes 2 count @ [0, 0] \<longleftrightarrow>
          byte_range 0 2 (take 4 p) = le_bytes 2 count \<and> byte_range 2 2 (take 4 p) = [0, 0]"
        using True by simp
      then show ?thesis using True by (auto simp: u16_at_eq zero_u16)
    qed
    have at: "unat (bytes_consumed b1) = 4" "unread b1 = drop 4 p" using b a(2) by (simp_all add: b1_def)
    show ?thesis
    proof (cases "take 4 p = le_bytes 2 count @ [0, 0]")
      case False
      then show ?thesis using run c4 r4 hdr
        by (auto simp: htool_exec_security_v2_serialized_cmd_def read_security_v2_serialized_header_def)
    next
      case t: True
      have step: "htool_exec_security_v2_serialized_cmd junk dev major minor c
          (security_v2_buffer_param (replicate n 0)) ps (security_v2_buffer_param (replicate m 0)) count s =
        (case read_serialized_loop (unat count) b1 of None \<Rightarrow> None | Some res \<Rightarrow> Some (res, s'))"
        using run c4 r4 hdr t
        by (simp add: htool_exec_security_v2_serialized_cmd_def read_security_v2_serialized_header_def)
      from read_serialized_loop [OF a(1), of "unat count"] show ?thesis
      proof
        assume "\<exists>vs b'. v2_values (unat count) (unread b1) vs (unread b') \<and> readable b' \<and> buf_data b' = buf_data b1 \<and>
          read_serialized_loop (unat count) b1 = Some (Inr (v2_places (unat (bytes_consumed b1)) vs, b'))"
        then obtain vs b' where w: "v2_values (unat count) (drop 4 p) vs (unread b')" "buf_data b' = buf_data b1"
          "read_serialized_loop (unat count) b1 = Some (Inr (v2_places 4 vs, b'))" unfolding at by blast
        have "p = take 4 p @ drop 4 p" by simp
        then have "p = (le_bytes 2 count @ [0, 0]) @ v2_encode vs @ unread b'" using w(1) t by (simp add: v2_values_def)
        moreover have "byte_range 0 (unat (buf_size b)) (buf_data b') = p" using b w(2) by (simp add: unread_def b1_def)
        moreover have "unat (buf_size b) \<le> length (buf_data b')" using b(1) w(2) by (simp add: readable_def b1_def)
        ultimately have "list_all2 (\<lambda>off v. serialized_size (buf_data b') off = Some (word_of_nat (length v)) \<and>
            serialized_value (buf_data b') off (length v) = Some v) (v2_places 4 vs) vs"
          using places_values [of "unat (buf_size b)" "buf_data b'" "le_bytes 2 count @ [0, 0]" vs "unread b'"] w(1)
          by (simp add: v2_values_def)
        then show ?thesis using step w t by (intro exI [of _ "Inr (v2_places 4 vs, b')"]) auto
      next
        assume "(\<nexists>vs rest. v2_values (unat count) (unread b1) vs rest) \<and> read_serialized_loop (unat count) b1 = Some (Inl (-1))"
        then show ?thesis using step by (simp add: at)
      qed
    qed
  qed
qed

text \<open>The parameters of a serialized response lie in the response buffer, with their sizes.\<close>

definition params_within :: "security_v2_buffer \<Rightarrow> nat list \<Rightarrow> bool" where
  "params_within b params \<longleftrightarrow>
    (\<forall>off \<in> set params. \<exists>sz v. serialized_size (buf_data b) off = Some sz \<and>
      serialized_value (buf_data b) off (unat sz) = Some v)"

lemma v2_serialized_error:
  assumes "list_all param_ok ps" "length (v2_message [major, minor] (map prm_data ps)) \<le> n" "n < 65536" "m < 65536"
    and "libhoth_hostcmd_exec [] dev c 0 (Some (v2_request major minor (map prm_data ps) n)) n m True s = ((status, r), s')"
    and "status \<noteq> 0"
  shows "htool_exec_security_v2_serialized_cmd junk dev major minor c
      (security_v2_buffer_param (replicate n 0)) ps (security_v2_buffer_param (replicate m 0)) count s = Some (Inl (-1), s')"
proof -
  have "libhoth_hostcmd_exec [] dev c 0 (Some (v2_request major minor (map prm_data ps) n)) n (length (replicate m (0 :: u8))) True s =
      ((status, r), s')" using assms(5) by simp
  from security_v2_cmd(1) [OF assms(1-3) _ _ this assms(6), where junk = junk and rs = "[]"] assms(4) show ?thesis
    by (simp add: htool_exec_security_v2_serialized_cmd_def)
qed

lemma v2_serialized_unwritten:
  assumes "list_all param_ok ps" "length (v2_message [major, minor] (map prm_data ps)) \<le> n" "n < 65536" "4 \<le> m" "m < 65536"
    and "libhoth_hostcmd_exec [] dev c 0 (Some (v2_request major minor (map prm_data ps) n)) n m True s = ((0, None), s')"
  shows "\<exists>out. htool_exec_security_v2_serialized_cmd junk dev major minor c
      (security_v2_buffer_param (replicate n 0)) ps (security_v2_buffer_param (replicate m 0)) count s = Some (out, s') \<and>
    (out = Inl (-1) \<or> count = 0 \<and> (\<exists>b. out = Inr ([], b)))"
proof -
  obtain b where run: "htool_exec_security_v2_cmd junk dev major minor c
      (security_v2_buffer_param (replicate n 0)) ps (security_v2_buffer_param (replicate m 0)) [] s = Some (Inr ([], b), s')"
    and b: "buf_data b = replicate m 0" "buf_size b = junk" "bytes_consumed b = 0"
    using security_v2_cmd_unwritten [OF assms, of junk "[]"] by auto
  show ?thesis
  proof (cases "consume_bytes b 4")
    case None
    then show ?thesis using run
      by (simp add: htool_exec_security_v2_serialized_cmd_def read_security_v2_serialized_header_def)
  next
    case (Some x)
    then obtain b' where x: "x = (0, b')" "buf_data b' = replicate m 0"
      using b by (auto simp: consume_bytes_def split: if_splits)
    have r: "read_at 0 4 (replicate m (0 :: u8)) = Some (replicate 4 0)" using assms(4) by (simp add: read_at_def byte_range_def)
    have z: "u16_at 0 (replicate 4 0) = 0" "u16_at 2 (replicate 4 0) = 0" by code_simp+
    show ?thesis using run Some x r z
      by (auto simp: htool_exec_security_v2_serialized_cmd_def read_security_v2_serialized_header_def)
  qed
qed

lemma length_v2_places [simp]: "length (v2_places off vs) = length vs"
  by (induction vs arbitrary: off) simp_all

lemma v2_serialized_safe:
  assumes "list_all param_ok ps" "length (v2_message [major, minor] (map prm_data ps)) \<le> n" "n < 65536" "4 \<le> m" "m < 65536"
  shows "\<exists>out s'. htool_exec_security_v2_serialized_cmd junk dev major minor c
      (security_v2_buffer_param (replicate n 0)) ps (security_v2_buffer_param (replicate m 0)) count s = Some (out, s') \<and>
    (case out of Inl e \<Rightarrow> e \<noteq> 0 | Inr (params, b) \<Rightarrow> length params = unat count \<and> params_within b params)"
proof -
  obtain status r s' where x: "libhoth_hostcmd_exec [] dev c 0
      (Some (v2_request major minor (map prm_data ps) n)) n m True s = ((status, r), s')"
    by (metis surj_pair)
  consider "status \<noteq> 0" | p where "status = 0" "r = Some p" | "status = 0" "r = None" by (cases r) auto
  then show ?thesis
  proof cases
    case 1
    then show ?thesis using v2_serialized_error [OF assms(1-3,5) x] by simp
  next
    case (2 p)
    with x have "libhoth_hostcmd_exec [] dev c 0 (Some (v2_request major minor (map prm_data ps) n)) n m True s =
      ((0, Some p), s')" by simp
    from v2_serialized_cmd [OF assms(1-3,5) this, of junk count] obtain out where
      run: "htool_exec_security_v2_serialized_cmd junk dev major minor c
      (security_v2_buffer_param (replicate n 0)) ps (security_v2_buffer_param (replicate m 0)) count s = Some (out, s')"
      and res: "(\<exists>vs rest b. v2_values (unat count) (drop 4 p) vs rest \<and> out = Inr (v2_places 4 vs, b) \<and>
        list_all2 (\<lambda>off v. serialized_size (buf_data b) off = Some (word_of_nat (length v)) \<and>
          serialized_value (buf_data b) off (length v) = Some v) (v2_places 4 vs) vs) \<or> out = Inl (-1)"
      by blast
    from res show ?thesis
    proof
      assume "out = Inl (-1)"
      then show ?thesis using run by simp
    next
      assume "\<exists>vs rest b. v2_values (unat count) (drop 4 p) vs rest \<and> out = Inr (v2_places 4 vs, b) \<and>
        list_all2 (\<lambda>off v. serialized_size (buf_data b) off = Some (word_of_nat (length v)) \<and>
          serialized_value (buf_data b) off (length v) = Some v) (v2_places 4 vs) vs"
      then obtain vs rest b where v: "v2_values (unat count) (drop 4 p) vs rest" "out = Inr (v2_places 4 vs, b)"
        and l: "list_all2 (\<lambda>off v. serialized_size (buf_data b) off = Some (word_of_nat (length v)) \<and>
          serialized_value (buf_data b) off (length v) = Some v) (v2_places 4 vs) vs" by blast
      have "params_within b (v2_places 4 vs)"
        unfolding params_within_def
      proof
        fix off assume "off \<in> set (v2_places 4 vs)"
        then obtain i where i: "i < length vs" "off = v2_places 4 vs ! i" by (auto simp: in_set_conv_nth)
        have "length (vs ! i) < 65536" using v(1) i(1) by (simp add: v2_values_def list_all_length)
        then have "unat (word_of_nat (length (vs ! i)) :: u16) = length (vs ! i)" by (simp add: unat_of_nat)
        then show "\<exists>sz w. serialized_size (buf_data b) off = Some sz \<and> serialized_value (buf_data b) off (unat sz) = Some w"
          using list_all2_nthD2 [OF l i(1)] i(2) by auto
      qed
      then show ?thesis using run v by (auto simp: v2_values_def)
    qed
  next
    case 3
    with x have "libhoth_hostcmd_exec [] dev c 0 (Some (v2_request major minor (map prm_data ps) n)) n m True s = ((0, None), s')"
      by simp
    from v2_serialized_unwritten [OF assms this, of junk count] show ?thesis by (auto simp: params_within_def)
  qed
qed

lemma security_v2_cmd_safe:
  assumes "list_all param_ok ps" "length (v2_message [major, minor] (map prm_data ps)) \<le> n" "n < 65536"
    and "list_all param_ok rs" "4 \<le> m" "m < 65536"
  shows "\<exists>out s'. htool_exec_security_v2_cmd junk dev major minor c
      (security_v2_buffer_param (replicate n 0)) ps (security_v2_buffer_param (replicate m 0)) rs s = Some (out, s') \<and>
    (case out of Inl e \<Rightarrow> e \<noteq> 0 | Inr (rs', b) \<Rightarrow> rs' = [] \<and> rs = [] \<or> (\<exists>vs. rs' = map2 set_data rs vs \<and>
       map length vs = map (\<lambda>p. unat (prm_size p)) rs))"
proof -
  obtain status r s' where x: "libhoth_hostcmd_exec [] dev c 0
      (Some (v2_request major minor (map prm_data ps) n)) n (length (replicate m (0 :: u8))) True s = ((status, r), s')"
    by (metis surj_pair)
  have parse: "v2_parse ns bs = Some vs \<Longrightarrow> map length vs = ns" for ns bs vs
    by (induction ns bs arbitrary: vs rule: v2_parse.induct) (auto split: if_splits)
  have reply: "v2_reply ns bs = Some vs \<Longrightarrow> map length vs = ns" for ns bs vs
    using parse by (auto simp: v2_reply_def split: if_splits)
  consider "status \<noteq> 0" | p where "status = 0" "r = Some p" | "status = 0" "r = None" by (cases r) auto
  then show ?thesis
  proof cases
    case 1
    then show ?thesis using security_v2_cmd(1) [OF assms(1-4) _ x, where junk = junk] assms(6) by simp
  next
    case 2
    from security_v2_cmd(2) [OF assms(1-4) _ x this, where junk = junk] assms(6) show ?thesis
      using reply by (fastforce split: option.splits)
  next
    case 3
    with x have "libhoth_hostcmd_exec [] dev c 0 (Some (v2_request major minor (map prm_data ps) n)) n m True s = ((0, None), s')"
      by simp
    from security_v2_cmd_unwritten [OF assms(1-3,5,6) this, of junk rs] show ?thesis by auto
  qed
qed

section \<open>Properties\<close>


lemma security_v2_safe_witness_params: "list_all param_ok [\<lparr>prm_data = [1, 2, 3, 4], prm_size = 4\<rparr>]"
  by (simp add: param_ok_def)


text \<open>
  C21: the serialized form accepts a response exactly if it starts with a header that announces the
  expected number of parameters and with that many parameters, each with zeros in the reserved field and as
  padding; what follows them is ignored. It hands out the offsets of their headers in the response
  buffer, one behind the other, at which their sizes stand and four bytes behind which their values do.
\<close>

theorem security_v2_serialized_iff:
  assumes ps: "list_all param_ok ps" "length (v2_message [major, minor] (map prm_data ps)) \<le> n" "n < 65536"
    and m: "m < 65536"
    and x: "libhoth_hostcmd_exec [] dev c 0 (Some (v2_request major minor (map prm_data ps) n)) n m True s =
      ((0, Some p), s')"
  shows "\<exists>out. htool_exec_security_v2_serialized_cmd junk dev major minor c
      (security_v2_buffer_param (replicate n 0)) ps (security_v2_buffer_param (replicate m 0)) count s = Some (out, s') \<and>
    ((\<exists>vs rest b. v2_values (unat count) (drop 4 p) vs rest \<and> take 4 p = le_bytes 2 count @ [0, 0] \<and>
        out = Inr (v2_places 4 vs, b) \<and>
        list_all2 (\<lambda>off v. serialized_size (buf_data b) off = Some (word_of_nat (length v)) \<and>
          serialized_value (buf_data b) off (length v) = Some v) (v2_places 4 vs) vs) \<or>
     (\<nexists>vs rest. v2_values (unat count) (drop 4 p) vs rest \<and> take 4 p = le_bytes 2 count @ [0, 0]) \<and> out = Inl (-1))"
  using assms by (rule v2_serialized_cmd)

section \<open>A root of trust with security commands\<close>

text \<open>
  The other end as a handler of commands with parameters, which answers with a result and
  parameters, and what calling it means.
\<close>

type_synonym 'w v2_handler = "u8 \<Rightarrow> u8 \<Rightarrow> bytes list \<Rightarrow> 'w \<Rightarrow> (u16 \<times> bytes list) \<times> 'w"

definition v2_rot :: "'w v2_handler \<Rightarrow> 'w rot_handler" where
  "v2_rot h c v p w =
    (if c = HOTH_BASE_CMD HOTH_PRV_CMD_HOTH_IS_HOST_COMMAND_SUPPORTED
     then ((0, [if le_word p = HOTH_BASE_CMD HOTH_PRV_CMD_HOTH_SECURITY_V2 then 1 else 0]), w)
     else if c = HOTH_BASE_CMD HOTH_PRV_CMD_HOTH_SECURITY_V2 then
       (let ((result, rs), w') = h (p ! 0) (p ! 1) (v2_decode (unat (u16_at 2 p)) (drop 4 p)) w
        in (if result \<noteq> 0 then (result, [])
            else (0, le_bytes 2 (word_of_nat (length rs) :: u16) @ [0, 0] @ v2_encode rs), w'))
     else ((1, []), w))"

definition v2_call :: "'w v2_handler \<Rightarrow> u8 \<Rightarrow> u8 \<Rightarrow> bytes list \<Rightarrow> nat list \<Rightarrow> 'w \<Rightarrow> (int + bytes list) \<times> 'w" where
  "v2_call h major minor vs ns w =
    (let ((result, rs), w') = h major minor vs w
     in (if result \<noteq> 0 then Inl (sint (537200 + ucast result :: u32))
         else if map length rs = ns then Inr rs else Inl (-1), w'))"

definition param_of :: "bytes \<Rightarrow> security_v2_param" where
  "param_of v = \<lparr>prm_data = v, prm_size = word_of_nat (length v)\<rparr>"

lemma param_of: "length v < 65533 \<Longrightarrow> param_ok (param_of v)" "prm_data (param_of v) = v"
  by (simp_all add: param_ok_def param_of_def unat_of_nat)

text \<open>The sizes of responses.\<close>

definition v2_size :: "nat list \<Rightarrow> nat" where
  "v2_size ns = (\<Sum>n\<leftarrow>ns. 4 + n + pad_len n)"

lemma length_v2_encode: "length (v2_encode vs) = v2_size (map length vs)"
  by (induction vs) (simp_all add: v2_size_def)

lemma v2_size_bounds: "4 * length ns \<le> v2_size ns" "n \<in> set ns \<Longrightarrow> n \<le> v2_size ns"
proof -
  show "4 * length ns \<le> v2_size ns" by (induction ns) (simp_all add: v2_size_def)
  show "n \<in> set ns \<Longrightarrow> n \<le> v2_size ns" by (induction ns) (auto simp: v2_size_def)
qed

lemma sint_ec_code: "sint (537200 + ucast (result :: u16) :: u32) = 537200 + int (unat result)"
proof -
  have "unat result < 65536" using unat_bound [of result] by simp
  then have "unat (537200 + ucast result :: u32) = 537200 + unat result"
    by (simp add: unat_word_ariths unsigned_ucast_eq take_bit_nat_eq_self)
  then have "uint (537200 + ucast result :: u32) = 537200 + int (unat result)" unfolding uint_nat by simp
  moreover have "signed_take_bit (LENGTH(32) - Suc 0) (537200 + int (unat result)) = 537200 + int (unat result)"
    using uint_bounded [of result] by (intro signed_take_bit_int_eq_self) simp_all
  ultimately show ?thesis unfolding sint_uint by metis
qed

lemma ec_code_casts: "(ucast (ucast (result :: u16) :: u64) :: u32) = ucast result"
  by (intro bit_word_eqI) (auto simp: bit_simps)

text \<open>What does not fit the mailbox is an error like what does not fit the buffer.\<close>

lemma legacy_rot_max:
  assumes "h c v p w = ((result, r), w')" "length p \<le> 1016" "result = 0 \<or> length r < 4"
  shows "\<exists>q'. libhoth_hostcmd_exec [] (Some (rot_device h)) c v (Some p) (length p) n True (w, q) =
    ((if result \<noteq> 0 then (sint (537200 + ucast result :: u32), None)
      else if min n 1016 < length r then (-1, None) else (0, Some r)), (w', q'))"
  using assms by (auto simp: libhoth_hostcmd_exec_def exec_v2_hostcmd hostcmd_rot rpc_def Let_def
      HTOOL_ERROR_HOST_COMMAND_START_def ec_code_casts)

lemma legacy_rot:
  assumes "h c v p w = ((result, r), w')" "length p \<le> 1016" "result = 0 \<or> length r < 4" "n \<le> 1016"
  shows "\<exists>q'. libhoth_hostcmd_exec [] (Some (rot_device h)) c v (Some p) (length p) n True (w, q) =
    ((if result \<noteq> 0 then (sint (537200 + ucast result :: u32), None)
      else if n < length r then (-1, None) else (0, Some r)), (w', q'))"
proof -
  have "min n 1016 = n" using assms(4) by simp
  from legacy_rot_max [of h c v p w result r w' n q, unfolded this, OF assms(1-3)] show ?thesis .
qed

text \<open>The root of trust reads the parameters that were put into the request.\<close>

lemma v2_rot_request:
  assumes "h major minor vs w = ((result, xs), w')" "4 + v2_size (map length vs) \<le> n" "n \<le> 1016"
  shows "v2_rot h (HOTH_BASE_CMD HOTH_PRV_CMD_HOTH_SECURITY_V2) 0 (v2_request major minor vs n) w =
    ((result, if result \<noteq> 0 then [] else le_bytes 2 (word_of_nat (length xs) :: u16) @ [0, 0] @ v2_encode xs), w')"
proof -
  let ?req = "v2_request major minor vs n"
  have "?req ! 0 = major" "?req ! 1 = minor" "u16_at 2 ?req = word_of_nat (length vs)"
    "drop 4 ?req = v2_encode vs @ replicate (n - length (v2_message [major, minor] vs)) 0"
    by (simp_all add: v2_request_def v2_message_def u16_at_def byte_range_def)
  moreover have "length vs < 65536" using v2_size_bounds(1) [of "map length vs"] assms(2,3) by simp
  moreover have "list_all (\<lambda>v. length v < 65536) vs"
    using v2_size_bounds(2) [of _ "map length vs"] assms(2,3) by (fastforce simp: list_all_iff)
  ultimately show ?thesis
    using assms(1) by (simp add: v2_rot_def unat_of_nat v2_decode_encode HOTH_BASE_CMD_def HOTH_PRV_CMD_HOTH_SECURITY_V2_def
        HOTH_PRV_CMD_HOTH_IS_HOST_COMMAND_SUPPORTED_def)
qed

lemma v2_reply_message:
  assumes "v2_size (map length rs) \<le> 1012"
  shows "v2_reply ns (le_bytes 2 (word_of_nat (length rs) :: u16) @ [0, 0] @ v2_encode rs) =
    (if map length rs = ns then Some rs else None)"
proof -
  let ?p = "le_bytes 2 (word_of_nat (length rs) :: u16) @ [0, 0] @ v2_encode rs"
  have n: "length rs < 65536" using v2_size_bounds(1) [of "map length rs"] assms by simp
  have l: "list_all (\<lambda>v. length v < 65536) rs"
    using v2_size_bounds(2) [of _ "map length rs"] assms by (fastforce simp: list_all_iff)
  have c: "le_nat (take 2 ?p) = length rs" using n by (simp add: le_nat_le_bytes unat_of_nat)
  have d: "drop 4 ?p = v2_encode rs" by simp
  have "\<not> length ?p < 4" by simp
  then show ?thesis
    using v2_parse_encode [OF l, of ns] unfolding v2_reply_def c d by (auto dest: map_eq_imp_length_eq)
qed

lemma v2_cmd_call:
  assumes "4 + v2_size (map length vs) \<le> n" "n \<le> 1016" and "4 + v2_size ns \<le> 1016"
  shows "\<exists>b q'. htool_exec_security_v2_cmd junk (Some (rot_device (v2_rot h))) major minor
      (HOTH_BASE_CMD HOTH_PRV_CMD_HOTH_SECURITY_V2) (security_v2_buffer_param (replicate n 0)) (map param_of vs)
      (security_v2_buffer_param (replicate (4 + v2_size ns) 0)) (map (\<lambda>k. param_of (replicate k 0)) ns) (w, q) =
    Some (case fst (v2_call h major minor vs ns w) of Inl e \<Rightarrow> Inl e | Inr rs \<Rightarrow> Inr (map param_of rs, b),
      (snd (v2_call h major minor vs ns w), q'))"
proof -
  let ?ps = "map param_of vs" and ?rs = "map (\<lambda>k. param_of (replicate k 0)) ns" and ?m = "4 + v2_size ns"
  let ?req = "v2_request major minor vs n"
  have prm: "k \<le> 1012" if "k \<in> set (map length vs) \<or> k \<in> set ns" for k
    using that v2_size_bounds(2) [of k] assms by fastforce
  have ps: "list_all param_ok ?ps" "map prm_data ?ps = vs"
    using prm by (fastforce simp: list_all_iff intro!: param_of(1)) (simp add: param_of o_def)
  have rs: "list_all param_ok ?rs" using prm by (fastforce simp: list_all_iff intro!: param_of(1))
  have sizes: "map (\<lambda>p. unat (prm_size p)) ?rs = ns"
  proof -
    have "unat (word_of_nat k :: u16) = k" if "k \<in> set ns" for k
      using prm [of k] that by (simp add: unat_of_nat)
    then show ?thesis by (simp add: param_of_def o_def map_idI)
  qed
  have fit: "length (v2_message [major, minor] (map prm_data ?ps)) \<le> n" using assms(1) ps(2) by (simp add: length_v2_encode)
  have len: "length ?req = n" using fit ps(2) by (simp add: v2_request_def)
  obtain result xs w' where h: "h major minor vs w = ((result, xs), w')" by (metis surj_pair)
  let ?r = "if result \<noteq> 0 then [] else le_bytes 2 (word_of_nat (length xs) :: u16) @ [0, 0] @ v2_encode xs"
  have rot: "v2_rot h (HOTH_BASE_CMD HOTH_PRV_CMD_HOTH_SECURITY_V2) 0 ?req w = ((result, ?r), w')"
    using v2_rot_request [of h major minor vs w result xs w' n] h assms(1,2) by simp
  obtain q' where x: "libhoth_hostcmd_exec [] (Some (rot_device (v2_rot h))) (HOTH_BASE_CMD HOTH_PRV_CMD_HOTH_SECURITY_V2) 0
      (Some (v2_request major minor (map prm_data ?ps) n)) n (length (replicate ?m (0 :: u8))) True (w, q) =
    ((if result \<noteq> 0 then (sint (537200 + ucast result :: u32), None)
      else if ?m < length ?r then (-1, None) else (0, Some ?r)), (w', q'))"
  proof -
    have "result = 0 \<or> length ?r < 4" by simp
    moreover have "length ?req \<le> 1016" "?m \<le> 1016" using len assms by simp_all
    ultimately have "\<exists>q'. libhoth_hostcmd_exec [] (Some (rot_device (v2_rot h))) (HOTH_BASE_CMD HOTH_PRV_CMD_HOTH_SECURITY_V2) 0
        (Some ?req) (length ?req) ?m True (w, q) =
      ((if result \<noteq> 0 then (sint (537200 + ucast result :: u32), None)
        else if ?m < length ?r then (-1, None) else (0, Some ?r)), (w', q'))"
      by (intro legacy_rot rot)
    then show ?thesis using that unfolding len ps(2) length_replicate by blast
  qed
  show ?thesis
  proof (cases "result \<noteq> 0 \<or> ?m < length ?r")
    case True
    define st where "st = (if result \<noteq> 0 then sint (537200 + ucast result :: u32) else -1)"
    have "fst (v2_call h major minor vs ns w) = Inl st"
      using True h by (auto simp: st_def v2_call_def length_v2_encode)
    moreover have "0 < 537200 + uint result" by (intro add_pos_nonneg) simp_all
    then have "st \<noteq> 0" by (auto simp: st_def sint_ec_code)
    moreover from x True have "libhoth_hostcmd_exec [] (Some (rot_device (v2_rot h)))
        (HOTH_BASE_CMD HOTH_PRV_CMD_HOTH_SECURITY_V2) 0 (Some (v2_request major minor (map prm_data ?ps) n)) n
        (length (replicate ?m (0 :: u8))) True (w, q) = ((st, None), (w', q'))" by (auto simp: st_def)
    moreover have "snd (v2_call h major minor vs ns w) = w'" using h by (simp add: v2_call_def)
    ultimately show ?thesis
      using security_v2_cmd(1) [OF ps(1) fit _ rs, of "replicate ?m 0" _ _ _ st None, where junk = junk] assms
      by (intro exI [of _ "security_v2_buffer_param []"] exI [of _ q']) simp
  next
    case False
    then have ok: "result = 0" "v2_size (map length xs) \<le> v2_size ns" by (auto simp: length_v2_encode)
    from x False have "libhoth_hostcmd_exec [] (Some (rot_device (v2_rot h))) (HOTH_BASE_CMD HOTH_PRV_CMD_HOTH_SECURITY_V2) 0
      (Some (v2_request major minor (map prm_data ?ps) n)) n (length (replicate ?m (0 :: u8))) True (w, q) = ((0, Some ?r), (w', q'))"
      by auto
    from security_v2_cmd(2) [OF ps(1) fit _ rs _ this refl refl, of junk] assms obtain b where
      run: "htool_exec_security_v2_cmd junk (Some (rot_device (v2_rot h))) major minor
        (HOTH_BASE_CMD HOTH_PRV_CMD_HOTH_SECURITY_V2) (security_v2_buffer_param (replicate n 0)) ?ps
        (security_v2_buffer_param (replicate ?m 0)) ?rs (w, q) =
      Some (if ?rs = [] then Inr ([], b)
            else case v2_reply ns ?r of None \<Rightarrow> Inl (-1) | Some vs \<Rightarrow> Inr (map2 set_data ?rs vs, b), (w', q'))"
      unfolding sizes by auto
    have reply: "v2_reply ns ?r = (if map length xs = ns then Some xs else None)"
      using v2_reply_message [of xs ns] ok assms(3) by simp
    have out: "map2 set_data ?rs xs = map param_of xs" if "map length xs = ns"
      unfolding that [symmetric] by (induction xs) (simp_all add: set_data_def param_of_def)
    have "ns = [] \<Longrightarrow> xs = []" using ok(2) v2_size_bounds(1) [of "map length xs"] by (simp add: v2_size_def)
    then show ?thesis using run reply out h ok(1) by (auto simp: v2_call_def)
  qed
qed

text \<open>Calls with values of any sizes in the response, and commands with serialized responses.\<close>

definition v2_values_call :: "'w v2_handler \<Rightarrow> u8 \<Rightarrow> u8 \<Rightarrow> bytes list \<Rightarrow> nat \<Rightarrow> 'w \<Rightarrow> (int + bytes list) \<times> 'w" where
  "v2_values_call h major minor vs k w =
    (let ((result, rs), w') = h major minor vs w
     in (if result = 0 \<and> v2_size (map length rs) \<le> 1012 \<and> length rs = k then Inr rs else Inl (-1), w'))"

lemma word_le_bytes_2: "le_word (le_bytes 2 w) = (w :: u16)"
  by simp

lemma v2_serialized_call:
  assumes "4 + v2_size (map length vs) \<le> n" "n \<le> 1016" and "1016 \<le> m" "m < 65536"
  shows "\<exists>out q'. htool_exec_security_v2_serialized_cmd junk (Some (rot_device (v2_rot h))) major minor
      (HOTH_BASE_CMD HOTH_PRV_CMD_HOTH_SECURITY_V2) (security_v2_buffer_param (replicate n 0)) (map param_of vs)
      (security_v2_buffer_param (replicate m 0)) count (w, q) =
    Some (out, (snd (v2_values_call h major minor vs (unat count) w), q')) \<and>
    (case fst (v2_values_call h major minor vs (unat count) w) of
       Inl e \<Rightarrow> out = Inl e
     | Inr rs \<Rightarrow> \<exists>b. out = Inr (v2_places 4 rs, b) \<and>
         list_all2 (\<lambda>off v. serialized_size (buf_data b) off = Some (word_of_nat (length v)) \<and>
           serialized_value (buf_data b) off (length v) = Some v) (v2_places 4 rs) rs)"
proof -
  let ?ps = "map param_of vs" and ?call = "v2_values_call h major minor vs (unat count) w"
  have "length v \<le> 1012" if "v \<in> set vs" for v
    using that v2_size_bounds(2) [of "length v" "map length vs"] assms by fastforce
  then have ps: "list_all param_ok ?ps" "map prm_data ?ps = vs"
    by (fastforce simp: list_all_iff intro!: param_of(1)) (simp add: param_of o_def)
  have fit: "length (v2_message [major, minor] (map prm_data ?ps)) \<le> n" using assms(1) ps(2) by (simp add: length_v2_encode)
  have len: "length (v2_request major minor vs n) = n" using fit ps(2) by (simp add: v2_request_def)
  obtain result xs w' where h: "h major minor vs w = ((result, xs), w')" by (metis surj_pair)
  define r where "r = (if result \<noteq> 0 then [] else le_bytes 2 (word_of_nat (length xs) :: u16) @ [0, 0] @ v2_encode xs)"
  have rot: "v2_rot h (HOTH_BASE_CMD HOTH_PRV_CMD_HOTH_SECURITY_V2) 0 (v2_request major minor vs n) w = ((result, r), w')"
    using v2_rot_request [of h major minor vs w result xs w' n] h assms(1,2) by (simp add: r_def)
  have "result = 0 \<or> length r < 4" by (simp add: r_def)
  then obtain q' where x: "libhoth_hostcmd_exec [] (Some (rot_device (v2_rot h))) (HOTH_BASE_CMD HOTH_PRV_CMD_HOTH_SECURITY_V2) 0
      (Some (v2_request major minor (map prm_data ?ps) n)) n m True (w, q) =
    ((if result \<noteq> 0 then (sint (537200 + ucast result :: u32), None)
      else if 1016 < length r then (-1, None) else (0, Some r)), (w', q'))"
    using legacy_rot_max [of "v2_rot h" _ 0 _ w result r w' m q, OF rot] len assms(2,3) unfolding ps(2) by auto
  have w': "snd ?call = w'" using h by (simp add: v2_values_call_def)
  show ?thesis
  proof (cases "result \<noteq> 0 \<or> 1016 < length r")
    case True
    define st where "st = (if result \<noteq> 0 then sint (537200 + ucast result :: u32) else -1)"
    have "0 < 537200 + uint result" by (intro add_pos_nonneg) simp_all
    then have "st \<noteq> 0" by (auto simp: st_def sint_ec_code)
    moreover from x True have "libhoth_hostcmd_exec [] (Some (rot_device (v2_rot h)))
        (HOTH_BASE_CMD HOTH_PRV_CMD_HOTH_SECURITY_V2) 0 (Some (v2_request major minor (map prm_data ?ps) n)) n
        (length (replicate m (0 :: u8))) True (w, q) = ((st, None), (w', q'))" by (auto simp: st_def)
    ultimately have "htool_exec_security_v2_cmd junk (Some (rot_device (v2_rot h))) major minor
        (HOTH_BASE_CMD HOTH_PRV_CMD_HOTH_SECURITY_V2) (security_v2_buffer_param (replicate n 0)) ?ps
        (security_v2_buffer_param (replicate m 0)) [] (w, q) = Some (Inl st, (w', q'))"
      using security_v2_cmd(1) [OF ps(1) fit, of "[]" "replicate m 0" _ _ _ st None "(w', q')" junk] assms by simp
    moreover have "fst ?call = Inl (-1)" using True h by (auto simp: v2_values_call_def r_def length_v2_encode)
    ultimately show ?thesis using w' by (simp add: htool_exec_security_v2_serialized_cmd_def)
  next
    case False
    then have ok: "result = 0" "r = le_bytes 2 (word_of_nat (length xs) :: u16) @ [0, 0] @ v2_encode xs"
      "v2_size (map length xs) \<le> 1012" by (auto simp: r_def length_v2_encode)
    from x False have x0: "libhoth_hostcmd_exec [] (Some (rot_device (v2_rot h))) (HOTH_BASE_CMD HOTH_PRV_CMD_HOTH_SECURITY_V2) 0
        (Some (v2_request major minor (map prm_data ?ps) n)) n m True (w, q) = ((0, Some r), (w', q'))" by auto
    have "length xs < 65536" using v2_size_bounds(1) [of "map length xs"] ok(3) by simp
    then have count: "(word_of_nat (length xs) :: u16) = count \<longleftrightarrow> length xs = unat count"
      by (auto simp: word_unat_eq_iff unat_of_nat)
    have "list_all (\<lambda>v. length v < 65536) xs"
      using v2_size_bounds(2) [of _ "map length xs"] ok(3) by (fastforce simp: list_all_iff)
    then have vals: "v2_values (length xs) (drop 4 r) xs []" by (simp add: v2_values_def ok(2))
    have hdr: "take 4 r = le_bytes 2 count @ [0, 0] \<longleftrightarrow> length xs = unat count"
    proof -
      have "take 4 r = le_bytes 2 (word_of_nat (length xs) :: u16) @ [0, 0]" by (simp add: ok(2))
      moreover have "le_bytes 2 (word_of_nat (length xs) :: u16) = le_bytes 2 count \<longleftrightarrow> (word_of_nat (length xs) :: u16) = count"
        by (metis word_le_bytes_2)
      ultimately show ?thesis using count by simp
    qed
    from v2_serialized_cmd [OF ps(1) fit _ assms(4) x0, of junk count] assms(2) obtain out where
      run: "htool_exec_security_v2_serialized_cmd junk (Some (rot_device (v2_rot h))) major minor
        (HOTH_BASE_CMD HOTH_PRV_CMD_HOTH_SECURITY_V2) (security_v2_buffer_param (replicate n 0)) ?ps
        (security_v2_buffer_param (replicate m 0)) count (w, q) = Some (out, (w', q'))"
      and out: "(\<exists>vs rest b. v2_values (unat count) (drop 4 r) vs rest \<and> take 4 r = le_bytes 2 count @ [0, 0] \<and>
          out = Inr (v2_places 4 vs, b) \<and>
          list_all2 (\<lambda>off v. serialized_size (buf_data b) off = Some (word_of_nat (length v)) \<and>
            serialized_value (buf_data b) off (length v) = Some v) (v2_places 4 vs) vs) \<or>
        (\<nexists>vs rest. v2_values (unat count) (drop 4 r) vs rest \<and> take 4 r = le_bytes 2 count @ [0, 0]) \<and> out = Inl (-1)"
      by auto
    show ?thesis
    proof (cases "length xs = unat count")
      case False
      then show ?thesis using run out hdr h by (simp add: v2_values_call_def)
    next
      case True
      with hdr have t: "take 4 r = le_bytes 2 count @ [0, 0]" by simp
      have "\<exists>vs rest. v2_values (unat count) (drop 4 r) vs rest \<and> take 4 r = le_bytes 2 count @ [0, 0]"
        using vals t unfolding True by blast
      with out obtain vs rest b where v: "v2_values (unat count) (drop 4 r) vs rest" "out = Inr (v2_places 4 vs, b)"
        "list_all2 (\<lambda>off v. serialized_size (buf_data b) off = Some (word_of_nat (length v)) \<and>
          serialized_value (buf_data b) off (length v) = Some v) (v2_places 4 vs) vs" by (elim disjE exE conjE) auto
      have "vs = xs" by (rule v2_values_unique(1) [OF vals [unfolded True] v(1)])
      moreover have "fst ?call = Inr xs" using h ok(1,3) True by (simp add: v2_values_call_def)
      ultimately show ?thesis using run v(2,3) w' by (intro exI [of _ out] exI [of _ q']) (auto simp: v(2))
    qed
  qed
qed

lemma version_rot:
  "\<exists>q'. htool_get_security_version u (Some (rot_device (v2_rot h))) (w, q) = (LIBHOTH_SECURITY_V2, (w, q'))"
proof -
  have "v2_rot h (HOTH_BASE_CMD HOTH_PRV_CMD_HOTH_IS_HOST_COMMAND_SUPPORTED) 0
      (le_bytes 2 (HOTH_BASE_CMD HOTH_PRV_CMD_HOTH_SECURITY_V2)) w = ((0, [1]), w)"
    by (simp add: v2_rot_def)
  then show ?thesis
    using exec_v2_hostcmd [of "[]" "Some (rot_device (v2_rot h))" _ _ "le_bytes 2 (HOTH_BASE_CMD HOTH_PRV_CMD_HOTH_SECURITY_V2)"]
    by (simp add: htool_get_security_version_def libhoth_hostcmd_exec_def hostcmd_rot rpc_def del: le_bytes.simps)
qed

text \<open>
  C14: against a root of trust that offers security commands, a command with parameters is a call
  of its handler: it is called once, with the parameters as they were given, and its parameters are
  returned if they have the sizes the caller asked for; otherwise the caller gets an error.
\<close>

theorem security_v2_rpc:
  assumes "4 + v2_size (map length vs) \<le> n" "n \<le> 1016" and "4 + v2_size ns \<le> 1016"
  shows "\<exists>b q'. htool_exec_security_v2_cmd junk (Some (rot_device (v2_rot h))) major minor
      (HOTH_BASE_CMD HOTH_PRV_CMD_HOTH_SECURITY_V2) (security_v2_buffer_param (replicate n 0)) (map param_of vs)
      (security_v2_buffer_param (replicate (4 + v2_size ns) 0)) (map (\<lambda>k. param_of (replicate k 0)) ns) (w, q) =
    Some (case fst (v2_call h major minor vs ns w) of Inl e \<Rightarrow> Inl e | Inr rs \<Rightarrow> Inr (map param_of rs, b),
      (snd (v2_call h major minor vs ns w), q'))"
  using assms by (rule v2_cmd_call)

lemma four_Suc: "Suc (Suc (Suc (Suc 0))) = 4"
  by simp

theorem security_v2_serialized_iff_witness:
  "\<exists>b s'. htool_exec_security_v2_serialized_cmd 0 (Some (rot_device (\<lambda>c v p w. ((0, [1, 0, 0, 0, 4, 0, 0, 0, 9, 8, 7, 6]), w)))) 5 8 0x3E03
      (security_v2_buffer_param (replicate 4 0)) [] (security_v2_buffer_param (replicate 64 0)) 1 ((), []) = Some (Inr ([4], b), s') \<and>
    serialized_value (buf_data b) 4 4 = Some [9, 8, 7, 6]"
proof -
  let ?h = "\<lambda>c v p w. ((0, [1, 0, 0, 0, 4, 0, 0, 0, 9, 8, 7, 6]), w)" and ?p = "[1, 0, 0, 0, 4, 0, 0, 0, 9, 8, 7, 6] :: bytes"
  have len: "length (v2_request 5 8 (map prm_data ([] :: security_v2_param list)) 4) = 4" by (simp add: v2_request_def)
  then obtain q' where x: "libhoth_hostcmd_exec [] (Some (rot_device ?h)) 0x3E03 0 (Some (v2_request 5 8 (map prm_data ([] :: security_v2_param list)) 4)) 4
      64 True ((), []) = ((0, Some ?p), ((), q'))"
    using legacy_rot [of ?h "0x3E03" 0 "v2_request 5 8 (map prm_data ([] :: security_v2_param list)) 4" "()" 0 ?p "()" 64 "[]"] unfolding len by auto
  have four: "le_bytes 2 (4 :: u16) = [4, 0]" by code_simp
  have field: "v2_field [9, 8, 7, 6] = [4, 0, 0, 0, 9, 8, 7, 6]"
    by (simp add: v2_field_def pad_len_def four)
  have vals: "v2_values 1 (drop 4 ?p) [[9, 8, 7, 6]] []" by (simp add: v2_values_def field)
  have hdr: "take 4 ?p = le_bytes 2 (1 :: u16) @ [0, 0]" by (simp add: numeral_2_eq_2)
  let ?out = "htool_exec_security_v2_serialized_cmd 0 (Some (rot_device ?h)) 5 8 0x3E03
      (security_v2_buffer_param (replicate 4 0)) [] (security_v2_buffer_param (replicate 64 0)) 1 ((), [])"
  have "length (v2_message [5, 8] (map prm_data ([] :: security_v2_param list))) \<le> 4" by simp
  from security_v2_serialized_iff [OF _ this _ _ x, where junk = 0 and count = 1] obtain out where
    out: "?out = Some (out, ((), q'))" and cases: "(\<exists>vs rest b. v2_values (unat (1 :: u16)) (drop 4 ?p) vs rest \<and>
        take 4 ?p = le_bytes 2 (1 :: u16) @ [0, 0] \<and> out = Inr (v2_places 4 vs, b) \<and>
        list_all2 (\<lambda>off v. serialized_size (buf_data b) off = Some (word_of_nat (length v)) \<and>
          serialized_value (buf_data b) off (length v) = Some v) (v2_places 4 vs) vs) \<or>
     (\<nexists>vs rest. v2_values (unat (1 :: u16)) (drop 4 ?p) vs rest \<and> take 4 ?p = le_bytes 2 (1 :: u16) @ [0, 0]) \<and> out = Inl (-1)"
    by auto
  with vals hdr obtain vs rest b where "v2_values 1 (drop 4 ?p) vs rest" "out = Inr (v2_places 4 vs, b)"
    "list_all2 (\<lambda>off v. serialized_size (buf_data b) off = Some (word_of_nat (length v)) \<and>
      serialized_value (buf_data b) off (length v) = Some v) (v2_places 4 vs) vs"
    unfolding unat_1 by blast
  moreover from this(1) have "vs = [[9, 8, 7, 6]]" by (rule v2_values_unique(1) [OF vals])
  ultimately show ?thesis using out
    by (intro exI [of _ b] exI [of _ "((), q')"]) (simp add: four_Suc)
qed

theorem security_v2_rpc_witness:
  "\<exists>b q'. htool_exec_security_v2_cmd 0 (Some (rot_device (v2_rot (\<lambda>major minor vs w. ((0, map rev vs), w + 1))))) 1 4
      (HOTH_BASE_CMD HOTH_PRV_CMD_HOTH_SECURITY_V2) (security_v2_buffer_param (replicate 12 0)) (map param_of [[1, 2, 3, 4]])
      (security_v2_buffer_param (replicate (4 + v2_size [4]) 0)) (map (\<lambda>k. param_of (replicate k 0)) [4]) (0 :: nat, []) =
    Some (Inr ([param_of [4, 3, 2, 1]], b), (1, q'))"
  using security_v2_rpc [where h = "\<lambda>major minor vs w. ((0, map rev vs), w + 1)" and vs = "[[1, 2, 3, 4]]" and n = 12
      and ns = "[4]" and junk = 0 and major = 1 and minor = 4 and w = "0 :: nat" and q = "[]"]
  by (simp add: v2_size_def pad_len_def v2_call_def)

end
