(* ===== verification/Htool_Certificates.thy ===== *)
theory Htool_Certificates
  imports Htool_Cmd Htool_Security_Wire Stdio
begin

text \<open>
  \<open>examples/htool_security_certificates.c\<close>: the commands of \<open>htool\<close> that fetch certificates into files
  and that generate, load and provision the attestation key. A command yields its return value and
  the states of the device and of the files; an outer \<open>None\<close> is an access outside an array. What the
  commands print is not modelled.
\<close>

text \<open>
  What the commands of \<open>htool\<close> share: \<open>htool_libhoth_device\<close>, which connects or hands out the device
  that is connected, and what uninitialised variables hold.
\<close>

record 'd htool_dev =
  connect :: "'d \<Rightarrow> 'd libhoth_device option \<times> 'd"
  un_supported :: "'d \<Rightarrow> u8"
  un_bytes_read :: "'d \<Rightarrow> u16"

text \<open>The device is there.\<close>

definition connected :: "'d htool_dev \<Rightarrow> 'd libhoth_device \<Rightarrow> bool" where
  "connected env dev \<longleftrightarrow> (\<forall>d. connect env d = (Some dev, d))"

text \<open>An invocation with the given arguments.\<close>

definition demo_args :: "(string \<times> string) list \<Rightarrow> htool_invocation" where
  "demo_args vs = \<lparr>inv_params = map (\<lambda>(nm, _). \<lparr>param_type = HTOOL_FLAG_VALUE, param_ch = CHR ''x'', param_name = nm,
       default_value = None, param_desc = None\<rparr>) vs, inv_args = map (\<lambda>(_, v). Some v) vs\<rparr>"

section \<open>Fetching certificates\<close>

definition GET_CERTIFICATES_MAJOR_COMMAND :: u32 where "GET_CERTIFICATES_MAJOR_COMMAND = 1"
definition GET_ALIAS_KEY_MINOR_COMMAND :: u32 where "GET_ALIAS_KEY_MINOR_COMMAND = 20"
definition GET_DEVICE_ID_MINOR_COMMAND :: u32 where "GET_DEVICE_ID_MINOR_COMMAND = 19"
definition GET_ATTESTATION_PUB_CERT_MINOR_COMMAND :: u32 where "GET_ATTESTATION_PUB_CERT_MINOR_COMMAND = 4"
definition GET_SIGNED_ATTESTATION_PUB_CERT_MINOR_COMMAND :: u32 where "GET_SIGNED_ATTESTATION_PUB_CERT_MINOR_COMMAND = 25"
definition LOAD_ATTESTATION_KEY_MINOR_COMMAND :: u32 where "LOAD_ATTESTATION_KEY_MINOR_COMMAND = 1"
definition UNLOAD_ATTESTATION_KEY_MINOR_COMMAND :: u32 where "UNLOAD_ATTESTATION_KEY_MINOR_COMMAND = 3"
definition GEN_ATTESTATION_KEY_USING_CSR_V1_MINOR_COMMAND :: u32 where "GEN_ATTESTATION_KEY_USING_CSR_V1_MINOR_COMMAND = 15"
definition LOAD_ATTESTATION_KEY_FROM_CSR_V1_MINOR_COMMAND :: u32 where "LOAD_ATTESTATION_KEY_FROM_CSR_V1_MINOR_COMMAND = 16"
definition GEN_VERSIONED_ATTESTATION_KEY_MINOR_COMMAND :: u32 where "GEN_VERSIONED_ATTESTATION_KEY_MINOR_COMMAND = 18"

definition ALIAS_KEY_V0_SIZE :: nat where "ALIAS_KEY_V0_SIZE = 192"
definition ALIAS_KEY_V1_SIZE :: nat where "ALIAS_KEY_V1_SIZE = 224"
definition ATTESTATION_CERT_SIZE :: nat where "ATTESTATION_CERT_SIZE = 192"
definition DEVICE_CERT_SIZE :: nat where "DEVICE_CERT_SIZE = 192"
definition DEVICE_ENDORSEMENT_CERT_SIZE :: nat where "DEVICE_ENDORSEMENT_CERT_SIZE = 160"
definition ATTESTATION_KEY_CSR_V1_SIZE :: nat where "ATTESTATION_KEY_CSR_V1_SIZE = 256"
definition ATTESTATION_KEY_CSR_V2_SIZE :: nat where "ATTESTATION_KEY_CSR_V2_SIZE = 192"
definition WRAPPED_ATTESTATION_KEY_SIZE :: nat where "WRAPPED_ATTESTATION_KEY_SIZE = 88"

abbreviation zeros :: "nat \<Rightarrow> bytes" where
  "zeros n \<equiv> replicate n 0"

text \<open>The result of \<open>fwrite\<close> is ignored.\<close>

definition get_cert_v2_data ::
  "'d htool_dev \<Rightarrow> 'f stdio \<Rightarrow> htool_invocation \<Rightarrow> u32 \<Rightarrow> u32 \<Rightarrow> bytes \<Rightarrow> u32 \<Rightarrow> bytes \<Rightarrow> u32 \<Rightarrow> 'd \<Rightarrow> 'f \<Rightarrow>
   (int \<times> 'd \<times> 'f) option" where
  "get_cert_v2_data env io iv major_command minor_command cert cert_size response_storage_hdr
     response_storage_hdr_size d f =
    (case connect env d of
       (None, d) \<Rightarrow> Some (-1, d, f)
     | (Some dev, d) \<Rightarrow>
         (case htool_get_param_string iv ''output'' of
            Inl _ \<Rightarrow> Some (-1, d, f)
          | Inr output_file \<Rightarrow>
              (case fopen_wb io output_file f of
                 (None, f) \<Rightarrow> Some (-1, d, f)
               | (Some output_ptr, f) \<Rightarrow>
                   (let (sv, d) = htool_get_security_version (un_supported env d) (Some dev) d
                    in if sv = LIBHOTH_SECURITY_V2 then
                      (case htool_exec_security_v2_cmd (un_bytes_read env d) (Some dev)
                              (ucast major_command) (ucast minor_command) (HOTH_BASE_CMD HOTH_PRV_CMD_HOTH_SECURITY_V2)
                              (security_v2_buffer_param (zeros (HOTH_SECURITY_V2_REQUEST_SIZE 0))) []
                              \<lparr>buf_data = response_storage_hdr, buf_size = ucast response_storage_hdr_size, bytes_consumed = 0\<rparr>
                              [\<lparr>prm_data = cert, prm_size = ucast cert_size\<rparr>] d of
                         None \<Rightarrow> None
                       | Some (Inl hoth_status, d) \<Rightarrow> Some (hoth_status, d, fclose io output_ptr f)
                       | Some (Inr (response_params, _), d) \<Rightarrow>
                           (case read_at 0 (unat cert_size) (prm_data (response_params ! 0)) of
                              None \<Rightarrow> None
                            | Some cert \<Rightarrow>
                                (let (_, f) = fwrite io output_ptr cert f in Some (0, d, fclose io output_ptr f))))
                    else Some (-1, d, fclose io output_ptr f)))))"

text \<open>The four certificates that consist of one parameter of a fixed size.\<close>

definition get_cert_of_size ::
  "u32 \<Rightarrow> nat \<Rightarrow> 'd htool_dev \<Rightarrow> 'f stdio \<Rightarrow> htool_invocation \<Rightarrow> 'd \<Rightarrow> 'f \<Rightarrow> (int \<times> 'd \<times> 'f) option" where
  "get_cert_of_size minor sz env io iv d f =
    get_cert_v2_data env io iv GET_CERTIFICATES_MAJOR_COMMAND minor (zeros sz) (word_of_nat sz)
      (zeros (HOTH_SECURITY_V2_RESPONSE_SIZE 1 + sz)) (word_of_nat (HOTH_SECURITY_V2_RESPONSE_SIZE 1 + sz)) d f"

definition htool_get_attestation_pub_cert ::
  "'d htool_dev \<Rightarrow> 'f stdio \<Rightarrow> htool_invocation \<Rightarrow> 'd \<Rightarrow> 'f \<Rightarrow> (int \<times> 'd \<times> 'f) option" where
  "htool_get_attestation_pub_cert = get_cert_of_size GET_ATTESTATION_PUB_CERT_MINOR_COMMAND ATTESTATION_CERT_SIZE"

definition htool_get_signed_attestation_pub_cert ::
  "'d htool_dev \<Rightarrow> 'f stdio \<Rightarrow> htool_invocation \<Rightarrow> 'd \<Rightarrow> 'f \<Rightarrow> (int \<times> 'd \<times> 'f) option" where
  "htool_get_signed_attestation_pub_cert =
    get_cert_of_size GET_SIGNED_ATTESTATION_PUB_CERT_MINOR_COMMAND ATTESTATION_CERT_SIZE"

definition htool_get_alias_key_v0_cert ::
  "'d htool_dev \<Rightarrow> 'f stdio \<Rightarrow> htool_invocation \<Rightarrow> 'd \<Rightarrow> 'f \<Rightarrow> (int \<times> 'd \<times> 'f) option" where
  "htool_get_alias_key_v0_cert = get_cert_of_size GET_ALIAS_KEY_MINOR_COMMAND ALIAS_KEY_V0_SIZE"

definition htool_get_alias_key_v1_cert ::
  "'d htool_dev \<Rightarrow> 'f stdio \<Rightarrow> htool_invocation \<Rightarrow> 'd \<Rightarrow> 'f \<Rightarrow> (int \<times> 'd \<times> 'f) option" where
  "htool_get_alias_key_v1_cert = get_cert_of_size GET_ALIAS_KEY_MINOR_COMMAND ALIAS_KEY_V1_SIZE"

definition htool_get_alias_key_cert ::
  "'d htool_dev \<Rightarrow> 'f stdio \<Rightarrow> htool_invocation \<Rightarrow> 'd \<Rightarrow> 'f \<Rightarrow> (int \<times> 'd \<times> 'f) option" where
  "htool_get_alias_key_cert env io iv d f =
    (case connect env d of
       (None, d) \<Rightarrow> Some (-1, d, f)
     | (Some dev, d) \<Rightarrow>
         (case htool_get_param_u32 iv ''version'' of
            Inl _ \<Rightarrow> Some (-1, d, f)
          | Inr version \<Rightarrow>
              if version = 0 then htool_get_alias_key_v0_cert env io iv d f
              else if version = 1 then htool_get_alias_key_v1_cert env io iv d f
              else Some (-1, d, f)))"

text \<open>A file whose name is not empty is opened; an optional stream is written and closed if there is one.\<close>

definition open_output :: "'f stdio \<Rightarrow> string \<Rightarrow> 'f \<Rightarrow> (unit + int option) \<times> 'f" where
  "open_output io name f =
    (if name = [] then (Inr None, f)
     else (case fopen_wb io name f of (None, f) \<Rightarrow> (Inl (), f) | (Some fp, f) \<Rightarrow> (Inr (Some fp), f)))"

definition fwrite_opt :: "'f stdio \<Rightarrow> int option \<Rightarrow> bytes \<Rightarrow> 'f \<Rightarrow> 'f" where
  "fwrite_opt io fp bs f = (case fp of None \<Rightarrow> f | Some fp \<Rightarrow> snd (fwrite io fp bs f))"

definition fclose_opt :: "'f stdio \<Rightarrow> int option \<Rightarrow> 'f \<Rightarrow> 'f" where
  "fclose_opt io fp f = (case fp of None \<Rightarrow> f | Some fp \<Rightarrow> fclose io fp f)"

definition htool_get_device_id_cert ::
  "'d htool_dev \<Rightarrow> 'f stdio \<Rightarrow> htool_invocation \<Rightarrow> 'd \<Rightarrow> 'f \<Rightarrow> (int \<times> 'd \<times> 'f) option" where
  "htool_get_device_id_cert env io iv d f =
    (case connect env d of
       (None, d) \<Rightarrow> Some (-1, d, f)
     | (Some dev, d) \<Rightarrow>
         (case htool_get_param_string iv ''cert_output'' of
            Inl _ \<Rightarrow> Some (-1, d, f)
          | Inr cert_output_file \<Rightarrow>
              (case open_output io cert_output_file f of
                 (Inl _, f) \<Rightarrow> Some (-1, d, f)
               | (Inr cert_output_ptr, f) \<Rightarrow>
                   (case htool_get_param_string iv ''endorsement_cert_output'' of
                      Inl _ \<Rightarrow> Some (-1, d, fclose_opt io cert_output_ptr f)
                    | Inr endorsement_cert_output_file \<Rightarrow>
                        (case open_output io endorsement_cert_output_file f of
                           (Inl _, f) \<Rightarrow> Some (-1, d, fclose_opt io cert_output_ptr f)
                         | (Inr endorsement_cert_output_ptr, f) \<Rightarrow>
                             (let cleanup = (\<lambda>f. fclose_opt io endorsement_cert_output_ptr (fclose_opt io cert_output_ptr f))
                              in if cert_output_ptr = None \<and> endorsement_cert_output_ptr = None then Some (-1, d, cleanup f)
                              else
                                let (sv, d) = htool_get_security_version (un_supported env d) (Some dev) d
                                in if sv = LIBHOTH_SECURITY_V2 then
                                  (case htool_exec_security_v2_cmd (un_bytes_read env d) (Some dev)
                                          (ucast GET_CERTIFICATES_MAJOR_COMMAND) (ucast GET_DEVICE_ID_MINOR_COMMAND)
                                          (HOTH_BASE_CMD HOTH_PRV_CMD_HOTH_SECURITY_V2)
                                          (security_v2_buffer_param (zeros (HOTH_SECURITY_V2_REQUEST_SIZE 0))) []
                                          (security_v2_buffer_param (zeros (HOTH_SECURITY_V2_RESPONSE_SIZE 2 +
                                             DEVICE_CERT_SIZE + DEVICE_ENDORSEMENT_CERT_SIZE)))
                                          [param_of (zeros DEVICE_CERT_SIZE), param_of (zeros DEVICE_ENDORSEMENT_CERT_SIZE)] d of
                                     None \<Rightarrow> None
                                   | Some (Inl hoth_status, d) \<Rightarrow> Some (hoth_status, d, cleanup f)
                                   | Some (Inr (response_params, _), d) \<Rightarrow>
                                       (let f = fwrite_opt io cert_output_ptr (prm_data (response_params ! 0)) f;
                                            f = fwrite_opt io endorsement_cert_output_ptr (prm_data (response_params ! 1)) f
                                        in Some (0, d, cleanup f)))
                                else Some (-1, d, cleanup f)))))))"

section \<open>Files of an exact size\<close>

definition read_exact_file :: "'f stdio \<Rightarrow> string \<Rightarrow> nat \<Rightarrow> 'f \<Rightarrow> bytes option \<times> 'f" where
  "read_exact_file io filename sz f =
    (case fopen_rb io filename f of
       (None, f) \<Rightarrow> (None, f)
     | (Some fp, f) \<Rightarrow>
         (let (bs, f) = fread io fp sz f;
              (extra, f) = fgetc io fp f;
              stream_err = ferror io fp f;
              f = fclose io fp f
          in if length bs \<noteq> sz \<or> extra \<noteq> None \<or> stream_err then (None, f) else (Some bs, f)))"

definition write_exact_file :: "'f stdio \<Rightarrow> string \<Rightarrow> bytes \<Rightarrow> 'f \<Rightarrow> int \<times> 'f" where
  "write_exact_file io filename buf f =
    (case fopen_wb io filename f of
       (None, f) \<Rightarrow> (-1, f)
     | (Some fp, f) \<Rightarrow>
         (let (bytes_written, f) = fwrite io fp buf f;
              stream_err = ferror io fp f;
              f = fclose io fp f
          in if bytes_written \<noteq> length buf \<or> stream_err then (-1, f) else (0, f)))"

section \<open>Commands for the attestation key\<close>

text \<open>
  What commands with parameters of fixed sizes in the request and in the response have in common.
  They differ in the codes, the sizes and the values.
\<close>

definition exec_sized_cmd ::
  "'d htool_dev \<Rightarrow> 'd libhoth_device \<Rightarrow> u32 \<Rightarrow> u32 \<Rightarrow> bytes list \<Rightarrow> nat list \<Rightarrow> 'd \<Rightarrow> ((int + bytes list) \<times> 'd) option" where
  "exec_sized_cmd env dev major minor vs ns d =
    (case htool_exec_security_v2_cmd (un_bytes_read env d) (Some dev) (ucast major) (ucast minor)
            (HOTH_BASE_CMD HOTH_PRV_CMD_HOTH_SECURITY_V2)
            (security_v2_buffer_param (zeros (HOTH_SECURITY_V2_REQUEST_SIZE (length vs) + sum_list (map length vs))))
            (map param_of vs)
            (security_v2_buffer_param (zeros (HOTH_SECURITY_V2_RESPONSE_SIZE (length ns) + sum_list ns)))
            (map (\<lambda>n. param_of (zeros n)) ns) d of
       None \<Rightarrow> None
     | Some (Inl hoth_status, d) \<Rightarrow> Some (Inl hoth_status, d)
     | Some (Inr (response_params, _), d) \<Rightarrow> Some (Inr (map prm_data response_params), d))"

definition exec_certificates_cmd ::
  "'d htool_dev \<Rightarrow> 'd libhoth_device \<Rightarrow> u32 \<Rightarrow> bytes list \<Rightarrow> nat list \<Rightarrow> 'd \<Rightarrow> ((int + bytes list) \<times> 'd) option" where
  "exec_certificates_cmd env dev = exec_sized_cmd env dev GET_CERTIFICATES_MAJOR_COMMAND"

definition exec_unload_attestation_key ::
  "'d htool_dev \<Rightarrow> 'd libhoth_device \<Rightarrow> 'd \<Rightarrow> ((int + bytes list) \<times> 'd) option" where
  "exec_unload_attestation_key env dev = exec_certificates_cmd env dev UNLOAD_ATTESTATION_KEY_MINOR_COMMAND [] []"

text \<open>The CSR and the wrapped key.\<close>

definition exec_gen_attestation_key_v1 ::
  "'d htool_dev \<Rightarrow> 'd libhoth_device \<Rightarrow> 'd \<Rightarrow> ((int + bytes list) \<times> 'd) option" where
  "exec_gen_attestation_key_v1 env dev = exec_certificates_cmd env dev
    GEN_ATTESTATION_KEY_USING_CSR_V1_MINOR_COMMAND [] [ATTESTATION_KEY_CSR_V1_SIZE, WRAPPED_ATTESTATION_KEY_SIZE]"

definition exec_gen_attestation_key_v2 ::
  "'d htool_dev \<Rightarrow> 'd libhoth_device \<Rightarrow> u32 \<Rightarrow> 'd \<Rightarrow> ((int + bytes list) \<times> 'd) option" where
  "exec_gen_attestation_key_v2 env dev fw_major_version = exec_certificates_cmd env dev
    GEN_VERSIONED_ATTESTATION_KEY_MINOR_COMMAND [le_bytes 4 (2 :: u32), le_bytes 4 fw_major_version]
    [ATTESTATION_KEY_CSR_V2_SIZE, WRAPPED_ATTESTATION_KEY_SIZE]"

definition exec_load_attestation_key ::
  "'d htool_dev \<Rightarrow> 'd libhoth_device \<Rightarrow> bytes \<Rightarrow> bytes \<Rightarrow> 'd \<Rightarrow> ((int + bytes list) \<times> 'd) option" where
  "exec_load_attestation_key env dev wrapped_key cert = exec_certificates_cmd env dev
    LOAD_ATTESTATION_KEY_MINOR_COMMAND [wrapped_key, cert] []"

definition exec_load_attestation_key_from_csr_v1 ::
  "'d htool_dev \<Rightarrow> 'd libhoth_device \<Rightarrow> bytes \<Rightarrow> bytes \<Rightarrow> 'd \<Rightarrow> ((int + bytes list) \<times> 'd) option" where
  "exec_load_attestation_key_from_csr_v1 env dev wrapped_key csr = exec_certificates_cmd env dev
    LOAD_ATTESTATION_KEY_FROM_CSR_V1_MINOR_COMMAND [wrapped_key, csr] []"

text \<open>The status of a command without response parameters.\<close>

definition returned :: "((int + bytes list) \<times> 'd) option \<Rightarrow> 'f \<Rightarrow> (int \<times> 'd \<times> 'f) option" where
  "returned r f =
    (case r of None \<Rightarrow> None
     | Some (Inl status, d) \<Rightarrow> Some (status, d, f)
     | Some (Inr _, d) \<Rightarrow> Some (0, d, f))"

text \<open>The commands are sent only if the root of trust has security version 2.\<close>

definition if_security_v2 ::
  "'d htool_dev \<Rightarrow> 'd libhoth_device \<Rightarrow> ('d \<Rightarrow> (int \<times> 'd \<times> 'f) option) \<Rightarrow> 'd \<Rightarrow> 'f \<Rightarrow> (int \<times> 'd \<times> 'f) option" where
  "if_security_v2 env dev cmd d f =
    (let (sv, d) = htool_get_security_version (un_supported env d) (Some dev) d
     in if sv = LIBHOTH_SECURITY_V2 then cmd d else Some (-1, d, f))"

definition htool_unload_attestation_key ::
  "'d htool_dev \<Rightarrow> 'f stdio \<Rightarrow> htool_invocation \<Rightarrow> 'd \<Rightarrow> 'f \<Rightarrow> (int \<times> 'd \<times> 'f) option" where
  "htool_unload_attestation_key env io iv d f =
    (case connect env d of
       (None, d) \<Rightarrow> Some (-1, d, f)
     | (Some dev, d) \<Rightarrow> if_security_v2 env dev (\<lambda>d. returned (exec_unload_attestation_key env dev d) f) d f)"

text \<open>Writing what was generated into two files.\<close>

definition write_generated ::
  "'f stdio \<Rightarrow> string \<Rightarrow> string \<Rightarrow> ((int + bytes list) \<times> 'd) option \<Rightarrow> 'f \<Rightarrow> (int \<times> 'd \<times> 'f) option" where
  "write_generated io csr_output_file wrapped_key_output_file r f =
    (case r of
       None \<Rightarrow> None
     | Some (Inl hoth_status, d) \<Rightarrow> Some (hoth_status, d, f)
     | Some (Inr vs, d) \<Rightarrow>
         (let (st, f) = write_exact_file io csr_output_file (vs ! 0) f
          in if st \<noteq> 0 then Some (-1, d, f)
          else
            let (st, f) = write_exact_file io wrapped_key_output_file (vs ! 1) f
            in if st \<noteq> 0 then Some (-1, d, f) else Some (0, d, f)))"

definition htool_gen_attestation_key_v1 ::
  "'d htool_dev \<Rightarrow> 'f stdio \<Rightarrow> htool_invocation \<Rightarrow> 'd \<Rightarrow> 'f \<Rightarrow> (int \<times> 'd \<times> 'f) option" where
  "htool_gen_attestation_key_v1 env io iv d f =
    (case connect env d of
       (None, d) \<Rightarrow> Some (-1, d, f)
     | (Some dev, d) \<Rightarrow>
         (case htool_get_param_string iv ''csr_output'' of
            Inl _ \<Rightarrow> Some (-1, d, f)
          | Inr csr_output_file \<Rightarrow>
              (case htool_get_param_string iv ''wrapped_key_output'' of
                 Inl _ \<Rightarrow> Some (-1, d, f)
               | Inr wrapped_key_output_file \<Rightarrow>
                   if csr_output_file = [] \<or> wrapped_key_output_file = [] then Some (-1, d, f)
                   else
                     if_security_v2 env dev (\<lambda>d. write_generated io csr_output_file wrapped_key_output_file
                       (exec_gen_attestation_key_v1 env dev d) f) d f)))"

definition htool_gen_attestation_key_v2 ::
  "'d htool_dev \<Rightarrow> 'f stdio \<Rightarrow> htool_invocation \<Rightarrow> 'd \<Rightarrow> 'f \<Rightarrow> (int \<times> 'd \<times> 'f) option" where
  "htool_gen_attestation_key_v2 env io iv d f =
    (case connect env d of
       (None, d) \<Rightarrow> Some (-1, d, f)
     | (Some dev, d) \<Rightarrow>
         (case htool_get_param_u32 iv ''fw_major_version'' of
            Inl _ \<Rightarrow> Some (-1, d, f)
          | Inr fw_major_version \<Rightarrow>
              (case htool_get_param_string iv ''csr_output'' of
                 Inl _ \<Rightarrow> Some (-1, d, f)
               | Inr csr_output_file \<Rightarrow>
                   (case htool_get_param_string iv ''wrapped_key_output'' of
                      Inl _ \<Rightarrow> Some (-1, d, f)
                    | Inr wrapped_key_output_file \<Rightarrow>
                        if csr_output_file = [] \<or> wrapped_key_output_file = [] then Some (-1, d, f)
                        else
                          if_security_v2 env dev (\<lambda>d. write_generated io csr_output_file wrapped_key_output_file
                            (exec_gen_attestation_key_v2 env dev fw_major_version d) f) d f))))"

text \<open>Both commands that load a key read it and a second file first.\<close>

definition read_key_files ::
  "'f stdio \<Rightarrow> string \<Rightarrow> string \<Rightarrow> nat \<Rightarrow> 'f \<Rightarrow> (bytes \<times> bytes) option \<times> 'f" where
  "read_key_files io wrapped_key_file other_file other_size f =
    (if wrapped_key_file = [] \<or> other_file = [] then (None, f)
     else
       (case read_exact_file io wrapped_key_file WRAPPED_ATTESTATION_KEY_SIZE f of
          (None, f) \<Rightarrow> (None, f)
        | (Some wrapped_key, f) \<Rightarrow>
            (case read_exact_file io other_file other_size f of
               (None, f) \<Rightarrow> (None, f)
             | (Some other, f) \<Rightarrow> (Some (wrapped_key, other), f))))"

definition htool_load_attestation_key ::
  "'d htool_dev \<Rightarrow> 'f stdio \<Rightarrow> htool_invocation \<Rightarrow> 'd \<Rightarrow> 'f \<Rightarrow> (int \<times> 'd \<times> 'f) option" where
  "htool_load_attestation_key env io iv d f =
    (case connect env d of
       (None, d) \<Rightarrow> Some (-1, d, f)
     | (Some dev, d) \<Rightarrow>
         (case htool_get_param_string iv ''wrapped_key'' of
            Inl _ \<Rightarrow> Some (-1, d, f)
          | Inr wrapped_key_file \<Rightarrow>
              (case htool_get_param_string iv ''cert'' of
                 Inl _ \<Rightarrow> Some (-1, d, f)
               | Inr cert_file \<Rightarrow>
                   (case read_key_files io wrapped_key_file cert_file ATTESTATION_CERT_SIZE f of
                      (None, f) \<Rightarrow> Some (-1, d, f)
                    | (Some (wrapped_key, cert), f) \<Rightarrow>
                        if_security_v2 env dev (\<lambda>d. returned (exec_load_attestation_key env dev wrapped_key cert d) f) d f))))"

definition htool_load_attestation_key_from_csr_v1 ::
  "'d htool_dev \<Rightarrow> 'f stdio \<Rightarrow> htool_invocation \<Rightarrow> 'd \<Rightarrow> 'f \<Rightarrow> (int \<times> 'd \<times> 'f) option" where
  "htool_load_attestation_key_from_csr_v1 env io iv d f =
    (case connect env d of
       (None, d) \<Rightarrow> Some (-1, d, f)
     | (Some dev, d) \<Rightarrow>
         (case htool_get_param_string iv ''wrapped_key'' of
            Inl _ \<Rightarrow> Some (-1, d, f)
          | Inr wrapped_key_file \<Rightarrow>
              (case htool_get_param_string iv ''csr'' of
                 Inl _ \<Rightarrow> Some (-1, d, f)
               | Inr csr_file \<Rightarrow>
                   (case read_key_files io wrapped_key_file csr_file ATTESTATION_KEY_CSR_V1_SIZE f of
                      (None, f) \<Rightarrow> Some (-1, d, f)
                    | (Some (wrapped_key, csr), f) \<Rightarrow>
                        if_security_v2 env dev
                          (\<lambda>d. returned (exec_load_attestation_key_from_csr_v1 env dev wrapped_key csr d) f) d f))))"

definition htool_provision_attestation_key ::
  "'d htool_dev \<Rightarrow> 'f stdio \<Rightarrow> htool_invocation \<Rightarrow> 'd \<Rightarrow> 'f \<Rightarrow> (int \<times> 'd \<times> 'f) option" where
  "htool_provision_attestation_key env io iv d f =
    (case connect env d of
       (None, d) \<Rightarrow> Some (-1, d, f)
     | (Some dev, d) \<Rightarrow>
         if_security_v2 env dev (\<lambda>d.
           case exec_unload_attestation_key env dev d of
             None \<Rightarrow> None
           | Some (Inl status, d) \<Rightarrow> Some (status, d, f)
           | Some (Inr _, d) \<Rightarrow>
               (case exec_gen_attestation_key_v1 env dev d of
                  None \<Rightarrow> None
                | Some (Inl status, d) \<Rightarrow> Some (status, d, f)
                | Some (Inr vs, d) \<Rightarrow>
                    returned (exec_load_attestation_key_from_csr_v1 env dev (vs ! 1) (vs ! 0) d) f)) d f)"

end
