(* ===== verification/Attestation_Keys.thy ===== *)
theory Attestation_Keys
  imports Htool_Certificates
begin

text \<open>
  What the commands of \<open>Htool_Certificates\<close> do to a root of trust that offers security commands, and
  to the files: provisioning keys, directly and through files, and fetching certificates.
\<close>

section \<open>Commands as calls of the root of trust\<close>

definition aligned :: "nat list \<Rightarrow> bool" where
  "aligned ns \<longleftrightarrow> list_all (\<lambda>n. n mod 4 = 0) ns"

lemma aligned_simps [simp]: "aligned []" "aligned (n # ns) \<longleftrightarrow> n mod 4 = 0 \<and> aligned ns"
  by (simp_all add: aligned_def)

lemma aligned_size: "aligned ns \<Longrightarrow> v2_size ns = length ns * 4 + sum_list ns"
  by (induction ns) (simp_all add: v2_size_def pad_len_def)

text \<open>The sizes of the buffers are exact because all sizes are multiples of four.\<close>

lemma sized_call:
  assumes "aligned (map length vs)" "aligned ns" "v2_size (map length vs) \<le> 1012" "v2_size ns \<le> 1012"
  shows "\<exists>q'. exec_sized_cmd env (rot_device (v2_rot h)) major minor vs ns (w, q) =
    Some (fst (v2_call h (ucast major) (ucast minor) vs ns w), (snd (v2_call h (ucast major) (ucast minor) vs ns w), q'))"
proof -
  let ?call = "v2_call h (ucast major) (ucast minor) vs ns w"
  have sizes: "HOTH_SECURITY_V2_REQUEST_SIZE (length vs) + sum_list (map length vs) = 4 + v2_size (map length vs)"
    "HOTH_SECURITY_V2_RESPONSE_SIZE (length ns) + sum_list ns = 4 + v2_size ns"
    using assms(1,2) by (simp_all add: aligned_size HOTH_SECURITY_V2_REQUEST_SIZE_def HOTH_SECURITY_V2_RESPONSE_SIZE_def)
  obtain b q' where run: "htool_exec_security_v2_cmd (un_bytes_read env (w, q)) (Some (rot_device (v2_rot h)))
      (ucast major) (ucast minor)
      (HOTH_BASE_CMD HOTH_PRV_CMD_HOTH_SECURITY_V2) (security_v2_buffer_param (zeros (4 + v2_size (map length vs))))
      (map param_of vs) (security_v2_buffer_param (zeros (4 + v2_size ns))) (map (\<lambda>k. param_of (zeros k)) ns) (w, q) =
    Some (case fst ?call of Inl e \<Rightarrow> Inl e | Inr rs \<Rightarrow> Inr (map param_of rs, b), (snd ?call, q'))"
    using v2_cmd_call [of vs "4 + v2_size (map length vs)" ns "un_bytes_read env (w, q)" h "ucast major" "ucast minor" w q] assms(3,4)
    by auto
  have data: "map (prm_data \<circ> param_of) rs = rs" for rs by (simp add: param_of_def o_def)
  show ?thesis
    unfolding exec_sized_cmd_def sizes run
    by (intro exI [of _ q']) (simp add: data split: sum.split)
qed

lemma certificates_call:
  assumes "aligned (map length vs)" "aligned ns" "v2_size (map length vs) \<le> 1012" "v2_size ns \<le> 1012"
  shows "\<exists>q'. exec_certificates_cmd env (rot_device (v2_rot h)) minor vs ns (w, q) =
    Some (fst (v2_call h 1 (ucast minor) vs ns w), (snd (v2_call h 1 (ucast minor) vs ns w), q'))"
  using sized_call [OF assms, of env h GET_CERTIFICATES_MAJOR_COMMAND minor w q]
  by (simp add: exec_certificates_cmd_def GET_CERTIFICATES_MAJOR_COMMAND_def)

lemma v2_call_error: "fst (v2_call h major minor vs ns w) = Inl e \<Longrightarrow> e \<noteq> 0"
proof -
  assume "fst (v2_call h major minor vs ns w) = Inl e"
  moreover obtain result xs w' where "h major minor vs w = ((result, xs), w')" by (metis surj_pair)
  moreover have "0 < 537200 + uint result" by (intro add_pos_nonneg) simp_all
  ultimately show "e \<noteq> 0" by (auto simp: v2_call_def sint_ec_code split: if_splits)
qed

lemma v2_call_sizes: "fst (v2_call h major minor vs ns w) = Inr rs \<Longrightarrow> map length rs = ns"
  by (auto simp: v2_call_def split: if_splits prod.splits)

text \<open>The three calls that provision a key: unload, generate, and load what was generated.\<close>

definition calls_unload :: "'w v2_handler \<Rightarrow> 'w \<Rightarrow> (int + bytes list) \<times> 'w" where
  "calls_unload h = v2_call h 1 3 [] []"

definition calls_generate :: "'w v2_handler \<Rightarrow> 'w \<Rightarrow> (int + bytes list) \<times> 'w" where
  "calls_generate h = v2_call h 1 15 [] [256, 88]"

definition calls_load :: "'w v2_handler \<Rightarrow> bytes \<Rightarrow> bytes \<Rightarrow> 'w \<Rightarrow> (int + bytes list) \<times> 'w" where
  "calls_load h key csr = v2_call h 1 16 [key, csr] []"

definition provision :: "'w v2_handler \<Rightarrow> 'w \<Rightarrow> int \<times> 'w" where
  "provision h w =
    (case calls_unload h w of
       (Inl e, w) \<Rightarrow> (e, w)
     | (Inr _, w) \<Rightarrow>
         (case calls_generate h w of
            (Inl e, w) \<Rightarrow> (e, w)
          | (Inr vs, w) \<Rightarrow>
              (case calls_load h (vs ! 1) (vs ! 0) w of (Inl e, w) \<Rightarrow> (e, w) | (Inr _, w) \<Rightarrow> (0, w))))"

lemma exec_unload: "\<exists>q'. exec_unload_attestation_key env (rot_device (v2_rot h)) (w, q) =
    Some (fst (calls_unload h w), (snd (calls_unload h w), q'))"
  using certificates_call [of "[]" "[]" env h UNLOAD_ATTESTATION_KEY_MINOR_COMMAND w q]
  by (simp add: exec_unload_attestation_key_def calls_unload_def UNLOAD_ATTESTATION_KEY_MINOR_COMMAND_def v2_size_def)

lemma exec_generate: "\<exists>q'. exec_gen_attestation_key_v1 env (rot_device (v2_rot h)) (w, q) =
    Some (fst (calls_generate h w), (snd (calls_generate h w), q'))"
  using certificates_call [of "[]" "[256, 88]" env h GEN_ATTESTATION_KEY_USING_CSR_V1_MINOR_COMMAND w q]
  by (simp add: exec_gen_attestation_key_v1_def calls_generate_def GEN_ATTESTATION_KEY_USING_CSR_V1_MINOR_COMMAND_def
      ATTESTATION_KEY_CSR_V1_SIZE_def WRAPPED_ATTESTATION_KEY_SIZE_def v2_size_def pad_len_def)

lemma exec_load: "length key = 88 \<Longrightarrow> length csr = 256 \<Longrightarrow>
    \<exists>q'. exec_load_attestation_key_from_csr_v1 env (rot_device (v2_rot h)) key csr (w, q) =
    Some (fst (calls_load h key csr w), (snd (calls_load h key csr w), q'))"
  using certificates_call [of "[key, csr]" "[]" env h LOAD_ATTESTATION_KEY_FROM_CSR_V1_MINOR_COMMAND w q]
  by (simp add: exec_load_attestation_key_from_csr_v1_def calls_load_def LOAD_ATTESTATION_KEY_FROM_CSR_V1_MINOR_COMMAND_def
      v2_size_def pad_len_def)

lemma generated_sizes:
  "fst (calls_generate h w) = Inr vs \<Longrightarrow> \<exists>csr key. vs = [csr, key] \<and> length csr = 256 \<and> length key = 88"
  by (auto simp: calls_generate_def dest!: v2_call_sizes)

lemma security_v2_run:
  "\<exists>q'. \<forall>cmd. if_security_v2 env (rot_device (v2_rot h)) cmd (w, q) f = cmd (w, q')"
proof -
  obtain q' where "htool_get_security_version (un_supported env (w, q)) (Some (rot_device (v2_rot h))) (w, q) =
      (LIBHOTH_SECURITY_V2, (w, q'))"
    using version_rot [of "un_supported env (w, q)" h w q] by (elim exE)
  then show ?thesis by (intro exI [of _ q']) (simp add: if_security_v2_def)
qed

text \<open>Files of an exact size, written and read.\<close>

lemma write_exact:
  assumes "writes_files io content"
  shows "\<exists>f'. write_exact_file io name bs f = (0, f') \<and> content f' = (content f)(name \<mapsto> bs)"
proof -
  from assms obtain fp f1 where "fopen_wb io name f = (Some fp, f1)"
    and w: "\<forall>bs. \<exists>f2. fwrite io fp bs f1 = (length bs, f2) \<and> \<not> ferror io fp f2 \<and> content (fclose io fp f2) = (content f)(name \<mapsto> bs)"
    unfolding writes_files_def by metis
  moreover from w obtain f2 where "fwrite io fp bs f1 = (length bs, f2)" "\<not> ferror io fp f2"
    "content (fclose io fp f2) = (content f)(name \<mapsto> bs)" by blast
  ultimately show ?thesis by (simp add: write_exact_file_def)
qed

definition of_size :: "nat \<Rightarrow> bytes option \<Rightarrow> bytes option" where
  "of_size n c = (case c of None \<Rightarrow> None | Some bs \<Rightarrow> if length bs = n then Some bs else None)"

lemma read_exact:
  assumes "reads_files io content"
  shows "\<exists>f'. read_exact_file io name n f = (of_size n (content f name), f') \<and> content f' = content f"
proof (cases "content f name")
  case None
  with assms obtain f1 where "fopen_rb io name f = (None, f1)" "content f1 = content f"
    unfolding reads_files_def by blast
  with None show ?thesis by (simp add: read_exact_file_def of_size_def)
next
  case (Some bs)
  with assms obtain fp f1 where o: "fopen_rb io name f = (Some fp, f1)" and
    r: "\<forall>n. \<exists>f2 c f3. fread io fp n f1 = (take n bs, f2) \<and> fgetc io fp f2 = (c, f3) \<and>
      (c = None \<longleftrightarrow> length bs \<le> n) \<and> \<not> ferror io fp f3 \<and> content (fclose io fp f3) = content f"
    unfolding reads_files_def by blast
  from r obtain f2 c f3 where "fread io fp n f1 = (take n bs, f2)" "fgetc io fp f2 = (c, f3)"
    "c = None \<longleftrightarrow> length bs \<le> n" "\<not> ferror io fp f3" "content (fclose io fp f3) = content f"
    by (elim allE [of _ n] exE conjE)
  note this o
  with Some show ?thesis by (auto simp: read_exact_file_def of_size_def min_def)
qed

lemma read_files:
  assumes "reads_files io content" and "key_file \<noteq> []" "other_file \<noteq> []"
  shows "\<exists>f'. read_key_files io key_file other_file n f =
      ((case (of_size 88 (content f key_file), of_size n (content f other_file)) of
          (Some key, Some other) \<Rightarrow> Some (key, other) | _ \<Rightarrow> None), f') \<and> content f' = content f"
proof -
  obtain f1 where 1: "read_exact_file io key_file 88 f = (of_size 88 (content f key_file), f1)" "content f1 = content f"
    using read_exact [OF assms(1)] by blast
  obtain f2 where "read_exact_file io other_file n f1 = (of_size n (content f1 other_file), f2)" "content f2 = content f1"
    using read_exact [OF assms(1)] by blast
  with 1 assms(2,3) show ?thesis
    by (cases "of_size 88 (content f key_file)")
       (auto simp: read_key_files_def WRAPPED_ATTESTATION_KEY_SIZE_def split: option.split)
qed

section \<open>Provisioning\<close>

text \<open>A sequence of commands ends with the first that fails.\<close>

fun run_commands :: "('d \<Rightarrow> 'f \<Rightarrow> (int \<times> 'd \<times> 'f) option) list \<Rightarrow> 'd \<Rightarrow> 'f \<Rightarrow> (int \<times> 'd \<times> 'f) option" where
  "run_commands [] d f = Some (0, d, f)"
| "run_commands (c # cs) d f =
    (case c d f of
       None \<Rightarrow> None
     | Some (st, d, f) \<Rightarrow> if st \<noteq> 0 then Some (st, d, f) else run_commands cs d f)"

text \<open>The commands as calls of the root of trust.\<close>

lemma unload_run:
  assumes "connected env (rot_device (v2_rot h))"
  shows "\<exists>q'. htool_unload_attestation_key env io iv (w, q) f =
    Some (case fst (calls_unload h w) of Inl e \<Rightarrow> e | Inr _ \<Rightarrow> 0, (snd (calls_unload h w), q'), f)"
proof -
  obtain q1 where v: "\<And>cmd. if_security_v2 env (rot_device (v2_rot h)) cmd (w, q) f = cmd (w, q1)"
    using security_v2_run [of env h w q f] by auto
  obtain q2 where "exec_unload_attestation_key env (rot_device (v2_rot h)) (w, q1) =
    Some (fst (calls_unload h w), (snd (calls_unload h w), q2))" using exec_unload [of env h w q1] by (elim exE)
  with v assms show ?thesis
    by (auto simp: htool_unload_attestation_key_def connected_def returned_def split: sum.split)
qed

lemma generate_run:
  assumes "connected env (rot_device (v2_rot h))" and "writes_files io content"
    and "htool_get_param_string iv ''csr_output'' = Inr csr_file" "csr_file \<noteq> []"
    and "htool_get_param_string iv ''wrapped_key_output'' = Inr key_file" "key_file \<noteq> []"
  shows "\<exists>q' f'. htool_gen_attestation_key_v1 env io iv (w, q) f =
      Some (case fst (calls_generate h w) of Inl e \<Rightarrow> e | Inr _ \<Rightarrow> 0, (snd (calls_generate h w), q'), f') \<and>
    content f' = (case fst (calls_generate h w) of
      Inl _ \<Rightarrow> content f | Inr vs \<Rightarrow> (content f)(csr_file \<mapsto> vs ! 0, key_file \<mapsto> vs ! 1))"
proof -
  obtain q1 where v: "\<And>cmd. if_security_v2 env (rot_device (v2_rot h)) cmd (w, q) f = cmd (w, q1)"
    using security_v2_run [of env h w q f] by auto
  obtain q2 where g: "exec_gen_attestation_key_v1 env (rot_device (v2_rot h)) (w, q1) =
    Some (fst (calls_generate h w), (snd (calls_generate h w), q2))" using exec_generate [of env h w q1] by (elim exE)
  have gen: "htool_gen_attestation_key_v1 env io iv (w, q) f =
      write_generated io csr_file key_file (Some (fst (calls_generate h w), (snd (calls_generate h w), q2))) f"
    using v g assms by (simp add: htool_gen_attestation_key_v1_def connected_def)
  show ?thesis
  proof (cases "fst (calls_generate h w)")
    case (Inl e)
    then show ?thesis unfolding gen by (simp add: write_generated_def)
  next
    case (Inr vs)
    obtain f1 where 1: "write_exact_file io csr_file (vs ! 0) f = (0, f1)" "content f1 = (content f)(csr_file \<mapsto> vs ! 0)"
      using write_exact [OF assms(2)] by blast
    obtain f2 where "write_exact_file io key_file (vs ! 1) f1 = (0, f2)" "content f2 = (content f1)(key_file \<mapsto> vs ! 1)"
      using write_exact [OF assms(2)] by blast
    with 1 Inr show ?thesis unfolding gen by (simp add: write_generated_def)
  qed
qed

lemma load_run:
  assumes "connected env (rot_device (v2_rot h))" and "reads_files io content"
    and "htool_get_param_string iv ''wrapped_key'' = Inr key_file" "key_file \<noteq> []"
    and "htool_get_param_string iv ''csr'' = Inr csr_file" "csr_file \<noteq> []"
  shows "\<exists>q' f'. htool_load_attestation_key_from_csr_v1 env io iv (w, q) f =
      Some (case (of_size 88 (content f key_file), of_size 256 (content f csr_file)) of
        (Some key, Some csr) \<Rightarrow>
          (case fst (calls_load h key csr w) of Inl e \<Rightarrow> e | Inr _ \<Rightarrow> 0, (snd (calls_load h key csr w), q'), f')
      | _ \<Rightarrow> (-1, (w, q), f')) \<and> content f' = content f"
proof -
  obtain f1 where 1: "read_key_files io key_file csr_file 256 f =
      ((case (of_size 88 (content f key_file), of_size 256 (content f csr_file)) of
          (Some key, Some other) \<Rightarrow> Some (key, other) | _ \<Rightarrow> None), f1)" "content f1 = content f"
    using read_files [OF assms(2,4,6)] by blast
  show ?thesis
  proof (cases "\<exists>key csr. of_size 88 (content f key_file) = Some key \<and> of_size 256 (content f csr_file) = Some csr")
    case True
    then obtain key csr where k: "of_size 88 (content f key_file) = Some key" "of_size 256 (content f csr_file) = Some csr" by blast
    then have len: "length key = 88" "length csr = 256" by (auto simp: of_size_def split: option.splits if_splits)
  obtain q1 where v: "\<And>cmd. if_security_v2 env (rot_device (v2_rot h)) cmd (w, q) f1 = cmd (w, q1)"
    using security_v2_run [of env h w q f1] by auto
    obtain q2 where "exec_load_attestation_key_from_csr_v1 env (rot_device (v2_rot h)) key csr (w, q1) =
      Some (fst (calls_load h key csr w), (snd (calls_load h key csr w), q2))" using exec_load [OF len, of env h w q1] by (elim exE)
    with 1 k v assms show ?thesis
      by (auto simp: htool_load_attestation_key_from_csr_v1_def ATTESTATION_KEY_CSR_V1_SIZE_def connected_def
          returned_def split: sum.split)
  next
    case False
    then have none: "(case (of_size 88 (content f key_file), of_size 256 (content f csr_file)) of
        (Some key, Some other) \<Rightarrow> Some (key, other) | _ \<Rightarrow> None) = None" by (auto split: option.split)
    with 1 assms False show ?thesis
      by (auto simp: htool_load_attestation_key_from_csr_v1_def ATTESTATION_KEY_CSR_V1_SIZE_def connected_def split: option.split)
  qed
qed

lemma provision_run:
  assumes "connected env (rot_device (v2_rot h))"
  shows "\<exists>q'. htool_provision_attestation_key env io iv (w, q) f = Some (fst (provision h w), (snd (provision h w), q'), f)"
proof -
  obtain q1 where v: "\<And>cmd. if_security_v2 env (rot_device (v2_rot h)) cmd (w, q) f = cmd (w, q1)"
    using security_v2_run [of env h w q f] by auto
  obtain st1 w1 where 1: "calls_unload h w = (st1, w1)" by fastforce
  obtain q2 where u: "exec_unload_attestation_key env (rot_device (v2_rot h)) (w, q1) = Some (st1, (w1, q2))"
    using exec_unload [of env h w q1] 1 by auto
  obtain st2 w2 where 2: "calls_generate h w1 = (st2, w2)" by fastforce
  obtain q3 where g: "exec_gen_attestation_key_v1 env (rot_device (v2_rot h)) (w1, q2) = Some (st2, (w2, q3))"
    using exec_generate [of env h w1 q2] 2 by auto
  show ?thesis
  proof (cases st1)
    case Inl
    then show ?thesis using v u 1 assms by (simp add: htool_provision_attestation_key_def connected_def provision_def)
  next
    case st1: (Inr _)
    show ?thesis
    proof (cases st2)
      case Inl
      then show ?thesis using v u g 1 2 st1 assms
        by (simp add: htool_provision_attestation_key_def connected_def provision_def)
    next
      case (Inr vs)
      then obtain csr key where vs: "vs = [csr, key]" "length csr = 256" "length key = 88"
        using generated_sizes [of h w1 vs] 2 by auto
      obtain q4 where "exec_load_attestation_key_from_csr_v1 env (rot_device (v2_rot h)) key csr (w2, q3) =
        Some (fst (calls_load h key csr w2), (snd (calls_load h key csr w2), q4))" using exec_load [OF vs(3,2), of env h w2 q3] by (elim exE)
      then show ?thesis using v u g 1 2 st1 Inr vs assms
        by (auto simp: htool_provision_attestation_key_def connected_def provision_def returned_def
            split: sum.split prod.split)
    qed
  qed
qed
text \<open>
  C15: provisioning an attestation key in one step, and in three steps through files (unload it,
  generate one into files, load it from these files), make the same calls of the root of trust with
  the same values and end with the same status; both end with the first call that fails, and after
  three successful steps the files hold the generated key and its CSR.
\<close>

theorem attestation_key_provisioned:
  assumes "connected env (rot_device (v2_rot h))" and "writes_files io content" "reads_files io content"
    and "htool_get_param_string gen ''csr_output'' = Inr csr_file" "htool_get_param_string load ''csr'' = Inr csr_file"
    and "htool_get_param_string gen ''wrapped_key_output'' = Inr key_file"
      "htool_get_param_string load ''wrapped_key'' = Inr key_file"
    and "csr_file \<noteq> []" "key_file \<noteq> []" "csr_file \<noteq> key_file"
  shows "\<exists>q' q'' f'.
    htool_provision_attestation_key env io iv (w, q) f = Some (fst (provision h w), (snd (provision h w), q'), f) \<and>
    run_commands [htool_unload_attestation_key env io iv, htool_gen_attestation_key_v1 env io gen,
        htool_load_attestation_key_from_csr_v1 env io load] (w, q) f =
      Some (fst (provision h w), (snd (provision h w), q''), f') \<and>
    content f' =
      (case (fst (calls_unload h w), fst (calls_generate h (snd (calls_unload h w)))) of
         (Inr _, Inr vs) \<Rightarrow> (content f)(csr_file \<mapsto> vs ! 0, key_file \<mapsto> vs ! 1)
       | _ \<Rightarrow> content f)"
proof -
  obtain q' where p: "htool_provision_attestation_key env io iv (w, q) f = Some (fst (provision h w), (snd (provision h w), q'), f)"
    using provision_run [OF assms(1), of io iv w q f] by (elim exE)
  let ?cmds = "[htool_unload_attestation_key env io iv, htool_gen_attestation_key_v1 env io gen,
        htool_load_attestation_key_from_csr_v1 env io load]"
  obtain st1 w1 where unl: "calls_unload h w = (st1, w1)" by fastforce
  obtain q1 where u: "htool_unload_attestation_key env io iv (w, q) f = Some (case st1 of Inl e \<Rightarrow> e | Inr _ \<Rightarrow> 0, (w1, q1), f)"
    using unload_run [OF assms(1), of io iv w q f] unl by auto
  obtain st2 w2 where gnr: "calls_generate h w1 = (st2, w2)" by fastforce
  obtain q2 f2 where g: "htool_gen_attestation_key_v1 env io gen (w1, q1) f =
      Some (case st2 of Inl e \<Rightarrow> e | Inr _ \<Rightarrow> 0, (w2, q2), f2)"
    and f2: "content f2 = (case st2 of Inl _ \<Rightarrow> content f | Inr vs \<Rightarrow> (content f)(csr_file \<mapsto> vs ! 0, key_file \<mapsto> vs ! 1))"
    using generate_run [OF assms(1,2,4,8,6,9), of w1 q1 f] gnr by auto
  have e1: "st1 = Inl e \<Longrightarrow> e \<noteq> 0" for e using v2_call_error [of h 1 3 "[]" "[]" w e] unl by (simp add: calls_unload_def)
  have e2: "st2 = Inl e \<Longrightarrow> e \<noteq> 0" for e using v2_call_error [of h 1 15 "[]" "[256, 88]" w1 e] gnr by (simp add: calls_generate_def)
  consider (1) e where "st1 = Inl e" | (2) a e where "st1 = Inr a" "st2 = Inl e" | (3) a vs where "st1 = Inr a" "st2 = Inr vs"
    by (cases st1; cases st2) auto
  then show ?thesis
  proof cases
    case (1 e)
    then have "provision h w = (e, w1)" "run_commands ?cmds (w, q) f = Some (e, (w1, q1), f)"
      using u unl e1 by (simp_all add: provision_def)
    then show ?thesis using p 1 unl by auto
  next
    case (2 a e)
    then have "provision h w = (e, w2)" "run_commands ?cmds (w, q) f = Some (e, (w2, q2), f2)"
      using u g unl gnr e2 by (simp_all add: provision_def)
    then show ?thesis using p f2 2 unl gnr by auto
  next
    case (3 a vs)
    then obtain csr key where vs: "vs = [csr, key]" "length csr = 256" "length key = 88"
      using generated_sizes [of h w1 vs] gnr by auto
    have c: "content f2 = (content f)(csr_file \<mapsto> csr, key_file \<mapsto> key)" using f2 3 vs by simp
    then have "of_size 88 (content f2 key_file) = Some key" "of_size 256 (content f2 csr_file) = Some csr"
      using vs assms(10) by (simp_all add: of_size_def)
    then obtain q3 f3 where l: "htool_load_attestation_key_from_csr_v1 env io load (w2, q2) f2 =
        Some (case fst (calls_load h key csr w2) of Inl e \<Rightarrow> e | Inr _ \<Rightarrow> 0, (snd (calls_load h key csr w2), q3), f3)"
      "content f3 = content f2"
      using load_run [OF assms(1,3,7,9,5,8), of w2 q2 f2] by auto
    have "provision h w = (case fst (calls_load h key csr w2) of Inl e \<Rightarrow> e | Inr _ \<Rightarrow> 0, snd (calls_load h key csr w2))"
      using unl gnr 3 vs by (simp add: provision_def split: prod.split sum.split)
    moreover have "run_commands ?cmds (w, q) f = Some (case fst (calls_load h key csr w2) of Inl e \<Rightarrow> e | Inr _ \<Rightarrow> 0,
        (snd (calls_load h key csr w2), q3), f3)"
      using u g l 3 by simp
    ultimately show ?thesis using p c l(2) vs unl gnr 3 by auto
  qed
qed
section \<open>Fetching\<close>

lemma small_sizes: "ucast (word_of_nat n :: u32) = (word_of_nat n :: u16)"
  by (simp add: unsigned_of_nat word_unat_eq_iff unat_of_nat take_bit_eq_mod mod_mod_cancel)

lemma fetch_run:
  assumes "connected env (rot_device (v2_rot h))" and "writes_files io content"
    and "htool_get_param_string iv ''output'' = Inr name" and "n mod 4 = 0" "n \<le> 1008"
  shows "\<exists>q' f'. get_cert_of_size minor n env io iv (w, q) f =
      Some (case fst (v2_call h 1 (ucast minor) [] [n] w) of Inl e \<Rightarrow> e | Inr _ \<Rightarrow> 0,
        (snd (v2_call h 1 (ucast minor) [] [n] w), q'), f') \<and>
    content f' = (content f)(name \<mapsto> case fst (v2_call h 1 (ucast minor) [] [n] w) of Inl _ \<Rightarrow> [] | Inr vs \<Rightarrow> vs ! 0)"
proof -
  let ?call = "v2_call h 1 (ucast minor) [] [n] w"
  from assms(2) obtain fp f1 where o: "fopen_wb io name f = (Some fp, f1)"
    "content (fclose io fp f1) = (content f)(name \<mapsto> [])"
    and wr: "\<forall>bs. \<exists>f2. fwrite io fp bs f1 = (length bs, f2) \<and> \<not> ferror io fp f2 \<and> content (fclose io fp f2) = (content f)(name \<mapsto> bs)"
    unfolding writes_files_def by metis
  obtain q1 where v: "htool_get_security_version (un_supported env (w, q)) (Some (rot_device (v2_rot h))) (w, q) =
      (LIBHOTH_SECURITY_V2, (w, q1))"
    using version_rot [of "un_supported env (w, q)" h w q] by (elim exE)
  have size: "v2_size [n] = 4 + n" using assms(4) by (simp add: v2_size_def pad_len_def)
  obtain b q2 where run: "htool_exec_security_v2_cmd (un_bytes_read env (w, q1)) (Some (rot_device (v2_rot h))) 1 (ucast minor)
      (HOTH_BASE_CMD HOTH_PRV_CMD_HOTH_SECURITY_V2) (security_v2_buffer_param (zeros 4)) []
      (security_v2_buffer_param (zeros (8 + n))) [param_of (zeros n)] (w, q1) =
    Some (case fst ?call of Inl e \<Rightarrow> Inl e | Inr rs \<Rightarrow> Inr (map param_of rs, b), (snd ?call, q2))"
    using v2_cmd_call [of "[]" 4 "[n]" "un_bytes_read env (w, q1)" h 1 "ucast minor" w q1] assms(5) size
    by (auto simp: v2_size_def)
  have args: "ucast GET_CERTIFICATES_MAJOR_COMMAND = (1 :: u8)"
    "\<lparr>buf_data = zeros (8 + n), buf_size = word_of_nat (8 + n), bytes_consumed = 0\<rparr> = security_v2_buffer_param (zeros (8 + n))"
    "\<lparr>prm_data = zeros n, prm_size = word_of_nat n\<rparr> = param_of (zeros n)"
    "HOTH_SECURITY_V2_REQUEST_SIZE 0 = 4" "HOTH_SECURITY_V2_RESPONSE_SIZE 1 + n = 8 + n"
    by (simp_all add: GET_CERTIFICATES_MAJOR_COMMAND_def security_v2_buffer_param_def param_of_def
        HOTH_SECURITY_V2_REQUEST_SIZE_def HOTH_SECURITY_V2_RESPONSE_SIZE_def)
  note cmd = get_cert_of_size_def get_cert_v2_data_def small_sizes
  show ?thesis
  proof (cases "fst ?call")
    case (Inl e)
    have "get_cert_of_size minor n env io iv (w, q) f = Some (e, (snd ?call, q2), fclose io fp f1)"
      unfolding cmd args using assms(1,3) o v run Inl by (simp add: connected_def)
    then show ?thesis using o Inl by simp
  next
    case (Inr rs)
    then obtain c where c: "rs = [c]" "length c = n" using v2_call_sizes [OF Inr] by auto
    from wr obtain f2 where f2: "fwrite io fp c f1 = (length c, f2)" "content (fclose io fp f2) = (content f)(name \<mapsto> c)"
      by blast
    have "unat (word_of_nat n :: u32) = n" using assms(5) by (simp add: unat_of_nat)
    then have "read_at 0 (unat (word_of_nat n :: u32)) (prm_data (param_of c)) = Some c"
      using c(2) by (simp add: read_at_def byte_range_def param_of_def)
    then have "get_cert_of_size minor n env io iv (w, q) f = Some (0, (snd ?call, q2), fclose io fp f2)"
      unfolding cmd args using assms(1,3) o v run Inr c f2 by (simp add: connected_def)
    then show ?thesis using f2 Inr c by simp
  qed
qed

text \<open>
  C17: a command that fetches a certificate asks the root of trust once; the output file holds
  exactly the certificate if it has the size of its kind. Otherwise the command fails and the output
  file is empty, whatever it held before.
\<close>

theorem certificate_fetched:
  assumes "connected env (rot_device (v2_rot h))" and "writes_files io content"
    and "htool_get_param_string iv ''output'' = Inr name"
    and "(cmd, minor, n) \<in> {(htool_get_attestation_pub_cert, 4, 192), (htool_get_signed_attestation_pub_cert, 25, 192),
      (htool_get_alias_key_v0_cert, 20, 192), (htool_get_alias_key_v1_cert, 20, 224)}"
  shows "let answer = v2_call h 1 minor [] [n] w in \<exists>st q' f'. cmd env io iv (w, q) f = Some (st, (snd answer, q'), f') \<and>
    (case fst answer of
       Inl e \<Rightarrow> st = e \<and> st \<noteq> 0 \<and> content f' = (content f)(name \<mapsto> [])
     | Inr vs \<Rightarrow> st = 0 \<and> length (vs ! 0) = n \<and> content f' = (content f)(name \<mapsto> vs ! 0))"
proof -
  let ?answer = "v2_call h 1 minor [] [n] w"
  obtain m where m: "cmd = get_cert_of_size m n" "ucast m = minor" "n mod 4 = 0" "n \<le> 1008"
    using assms(4) by (auto simp: htool_get_attestation_pub_cert_def htool_get_signed_attestation_pub_cert_def
        htool_get_alias_key_v0_cert_def htool_get_alias_key_v1_cert_def GET_ATTESTATION_PUB_CERT_MINOR_COMMAND_def
        GET_SIGNED_ATTESTATION_PUB_CERT_MINOR_COMMAND_def GET_ALIAS_KEY_MINOR_COMMAND_def
        ATTESTATION_CERT_SIZE_def ALIAS_KEY_V0_SIZE_def ALIAS_KEY_V1_SIZE_def)
  then obtain q' f' where "cmd env io iv (w, q) f = Some (case fst ?answer of Inl e \<Rightarrow> e | Inr _ \<Rightarrow> 0, (snd ?answer, q'), f')"
    "content f' = (content f)(name \<mapsto> case fst ?answer of Inl _ \<Rightarrow> [] | Inr vs \<Rightarrow> vs ! 0)"
    using fetch_run [OF assms(1-3) m(3,4), of m w q f] by auto
  then show ?thesis
    using v2_call_error [of h 1 minor "[]" "[n]" w] v2_call_sizes [of h 1 minor "[]" "[n]" w]
    by (auto split: sum.split)
qed

section \<open>Examples\<close>

text \<open>A root of trust that records the commands it got; and the environment of the examples.\<close>

definition demo_handler :: "(u8 \<times> bytes list) list v2_handler" where
  "demo_handler major minor vs w =
    ((0, if minor = 15 then [replicate 256 7, replicate 88 9] else if minor = 4 then [replicate 192 5] else []), w @ [(minor, vs)])"

definition demo_htool :: "((u8 \<times> bytes list) list \<times> bytes) htool_dev" where
  "demo_htool = \<lparr>connect = (\<lambda>d. (Some (rot_device (v2_rot demo_handler)), d)), un_supported = (\<lambda>_. 0), un_bytes_read = (\<lambda>_. 0)\<rparr>"

theorem attestation_key_provisioned_witness:
  "\<exists>q' f'. run_commands [htool_unload_attestation_key demo_htool memory_stdio (demo_args []),
      htool_gen_attestation_key_v1 demo_htool memory_stdio (demo_args [(''csr_output'', ''c''), (''wrapped_key_output'', ''k'')]),
      htool_load_attestation_key_from_csr_v1 demo_htool memory_stdio (demo_args [(''wrapped_key'', ''k''), (''csr'', ''c'')])]
      ([], []) (Map.empty, [], []) =
    Some (0, ([(3, []), (15, []), (16, [replicate 88 9, replicate 256 7])], q'), f') \<and>
    fst f' = [''c'' \<mapsto> replicate 256 7, ''k'' \<mapsto> replicate 88 9]"
proof -
  have env: "connected demo_htool (rot_device (v2_rot demo_handler))" by (simp add: connected_def demo_htool_def)
  have calls: "calls_unload demo_handler [] = (Inr [], [(3, [])])"
    "calls_generate demo_handler [(3, [])] = (Inr [replicate 256 7, replicate 88 9], [(3, []), (15, [])])"
    "calls_load demo_handler (replicate 88 9) (replicate 256 7) [(3, []), (15, [])] =
      (Inr [], [(3, []), (15, []), (16, [replicate 88 9, replicate 256 7])])"
    by (simp_all add: calls_unload_def calls_generate_def calls_load_def v2_call_def demo_handler_def)
  have prov: "provision demo_handler [] = (0, [(3, []), (15, []), (16, [replicate 88 9, replicate 256 7])])"
    by (simp add: provision_def calls)
  have args: "htool_get_param_string (demo_args [(''csr_output'', ''c''), (''wrapped_key_output'', ''k'')]) ''csr_output'' = Inr ''c''"
    "htool_get_param_string (demo_args [(''wrapped_key'', ''k''), (''csr'', ''c'')]) ''csr'' = Inr ''c''"
    "htool_get_param_string (demo_args [(''csr_output'', ''c''), (''wrapped_key_output'', ''k'')]) ''wrapped_key_output'' = Inr ''k''"
    "htool_get_param_string (demo_args [(''wrapped_key'', ''k''), (''csr'', ''c'')]) ''wrapped_key'' = Inr ''k''"
    by code_simp+
  show ?thesis
    using attestation_key_provisioned [OF env memory_writes_files memory_reads_files args, of "demo_args []" "[]" "[]" "(Map.empty, [], [])"]
    by (auto simp: prov calls)
qed

theorem certificate_fetched_witness:
  "\<exists>q' f'. htool_get_attestation_pub_cert demo_htool memory_stdio (demo_args [(''output'', ''o'')]) ([], []) (Map.empty, [], []) =
    Some (0, ([(4, [])], q'), f') \<and> fst f' = [''o'' \<mapsto> replicate 192 5]"
proof -
  have env: "connected demo_htool (rot_device (v2_rot demo_handler))" by (simp add: connected_def demo_htool_def)
  have arg: "htool_get_param_string (demo_args [(''output'', ''o'')]) ''output'' = Inr ''o''" by code_simp
  have call: "v2_call demo_handler 1 4 [] [192] [] = (Inr [replicate 192 5], [(4, [])])"
    by (simp add: v2_call_def demo_handler_def)
  show ?thesis
    using certificate_fetched [OF env memory_writes_files arg, of htool_get_attestation_pub_cert 4 192 "[]" "[]" "(Map.empty, [], [])"]
    by (auto simp: call)
qed

end
