(* ===== verification/Htool_Tokens.thy ===== *)
theory Htool_Tokens
  imports Htool_Certificates
begin

text \<open>
  \<open>examples/htool_security_tokens.c\<close>: the attestation data of a root of trust (the number of its
  token sets, and for each set its tokens and a description), fetched into files of their own or into
  one file. An outer \<open>None\<close> is an access outside an array or an overflow of \<open>int\<close>.
\<close>

definition TOKENS_MAJOR_COMMAND :: u32 where "TOKENS_MAJOR_COMMAND = 5"
definition GET_TOKEN_SET_COUNT_MINOR_COMMAND :: u32 where "GET_TOKEN_SET_COUNT_MINOR_COMMAND = 6"
definition GET_TOKENS_IN_SET_MINOR_COMMAND :: u32 where "GET_TOKENS_IN_SET_MINOR_COMMAND = 8"
definition GET_TOKEN_SET_INFO_MINOR_COMMAND :: u32 where "GET_TOKEN_SET_INFO_MINOR_COMMAND = 7"

definition MAX_TOKEN_RESPONSE_SIZE :: nat where "MAX_TOKEN_RESPONSE_SIZE = 1024"
definition TOKEN_BYTE_SIZE :: nat where "TOKEN_BYTE_SIZE = 16"
definition NONCE_SIZE :: nat where "NONCE_SIZE = 16"
definition MAX_ATTESTATION_SIZE :: nat where "MAX_ATTESTATION_SIZE = 2048"
definition MAX_STRING_BUFFER_SIZE :: nat where "MAX_STRING_BUFFER_SIZE = 2048"

text \<open>The sizes of \<open>struct boot_nonce\<close>, \<open>detached_challenge_response_signature\<close> and \<open>token_set_info\<close>.\<close>

definition sizeof_boot_nonce :: nat where "sizeof_boot_nonce = NONCE_SIZE"
definition sizeof_signature :: nat where "sizeof_signature = (4 + 4 + 1 + 1 + 2 + 2 + 2 + 8 + NONCE_SIZE + 24) + (32 + 32)"
definition sizeof_token_set_info :: nat where "sizeof_token_set_info = 2 + 2 + 1 + 3"

definition get_zero_challenge_nonce :: bytes where
  "get_zero_challenge_nonce = zeros NONCE_SIZE"

section \<open>Files with an index in their names\<close>

definition append_index_to_file_name :: "string \<Rightarrow> u32 \<Rightarrow> string" where
  "append_index_to_file_name base_string number = base_string @ dec_nat (unat number)"

text \<open>A name that does not fit the buffer is an error.\<close>

definition indexed_name :: "string \<Rightarrow> u32 \<Rightarrow> string option" where
  "indexed_name base idx =
    (let name = append_index_to_file_name base idx
     in if MAX_STRING_BUFFER_SIZE \<le> length name then None else Some name)"

definition open_indexed :: "'f stdio \<Rightarrow> htool_invocation \<Rightarrow> string \<Rightarrow> u32 \<Rightarrow> 'f \<Rightarrow> int option \<times> 'f" where
  "open_indexed io iv param idx f =
    (case htool_get_param_string iv param of
       Inl _ \<Rightarrow> (None, f)
     | Inr base \<Rightarrow> (case indexed_name base idx of None \<Rightarrow> (None, f) | Some name \<Rightarrow> fopen_wb io name f))"

definition open_param :: "'f stdio \<Rightarrow> htool_invocation \<Rightarrow> string \<Rightarrow> 'f \<Rightarrow> int option \<times> 'f" where
  "open_param io iv param f =
    (case htool_get_param_string iv param of Inl _ \<Rightarrow> (None, f) | Inr name \<Rightarrow> fopen_wb io name f)"

text \<open>Values copied into a buffer one behind the other.\<close>

fun store_values :: "nat \<Rightarrow> bytes list \<Rightarrow> bytes \<Rightarrow> bytes option" where
  "store_values off [] data = Some data"
| "store_values off (v # vs) data =
    (case store_response off v data of None \<Rightarrow> None | Some data \<Rightarrow> store_values (off + length v) vs data)"

text \<open>Values written to streams, whose results are ignored, and the streams closed in the order of \<open>cleanup\<close>.\<close>

fun fwrite_all :: "'f stdio \<Rightarrow> int list \<Rightarrow> bytes list \<Rightarrow> 'f \<Rightarrow> 'f" where
  "fwrite_all io (fp # fps) (v # vs) f = fwrite_all io fps vs (snd (fwrite io fp v f))"
| "fwrite_all io _ _ f = f"

definition fclose_all :: "'f stdio \<Rightarrow> int list \<Rightarrow> 'f \<Rightarrow> 'f" where
  "fclose_all io fps f = fold (fclose io) fps f"

section \<open>The tokens of a set\<close>

definition serialized_param :: "security_v2_buffer \<Rightarrow> nat \<Rightarrow> bytes option" where
  "serialized_param b off =
    (case serialized_size (buf_data b) off of None \<Rightarrow> None | Some n \<Rightarrow> serialized_value (buf_data b) off (unat n))"

definition exec_get_tokens_in_set ::
  "'d htool_dev \<Rightarrow> 'd libhoth_device \<Rightarrow> u32 \<Rightarrow> 'd \<Rightarrow> ((int + bytes \<times> bytes \<times> bytes) \<times> 'd) option" where
  "exec_get_tokens_in_set env dev set_idx d =
    (case htool_exec_security_v2_serialized_cmd (un_bytes_read env d) (Some dev)
            (ucast TOKENS_MAJOR_COMMAND) (ucast GET_TOKENS_IN_SET_MINOR_COMMAND)
            (HOTH_BASE_CMD HOTH_PRV_CMD_HOTH_SECURITY_V2)
            (security_v2_buffer_param (zeros (HOTH_SECURITY_V2_REQUEST_SIZE 2 + 4 + NONCE_SIZE)))
            [param_of (le_bytes 4 set_idx), param_of get_zero_challenge_nonce]
            (security_v2_buffer_param (zeros MAX_TOKEN_RESPONSE_SIZE)) 3 d of
       None \<Rightarrow> None
     | Some (Inl hoth_status, d) \<Rightarrow> Some (Inl hoth_status, d)
     | Some (Inr (params, b), d) \<Rightarrow>
         (case (serialized_param b (params ! 0), serialized_param b (params ! 1), serialized_param b (params ! 2)) of
            (Some tokens, Some boot_nonce, Some sig) \<Rightarrow>
              if MAX_TOKEN_RESPONSE_SIZE < length tokens then Some (Inl (-1), d)
              else if length tokens mod TOKEN_BYTE_SIZE \<noteq> 0 then Some (Inl (-1), d)
              else Some (Inr (tokens, boot_nonce, sig), d)
          | _ \<Rightarrow> None))"

text \<open>The three output files, or none; those that were opened are closed when a later one fails.\<close>

definition open_token_files ::
  "'f stdio \<Rightarrow> htool_invocation \<Rightarrow> string \<Rightarrow> u32 \<Rightarrow> 'f \<Rightarrow> (int \<times> int \<times> int) option \<times> 'f" where
  "open_token_files io iv token_output_file set_idx f =
    (case fopen_wb io token_output_file f of
       (None, f) \<Rightarrow> (None, f)
     | (Some t, f) \<Rightarrow>
         (case open_indexed io iv ''token_signature_output'' set_idx f of
            (None, f) \<Rightarrow> (None, fclose_all io [t] f)
          | (Some s, f) \<Rightarrow>
              (case open_indexed io iv ''token_boot_nonce_output'' set_idx f of
                 (None, f) \<Rightarrow> (None, fclose_all io [t, s] f)
               | (Some b, f) \<Rightarrow> (Some (t, b, s), f))))"

text \<open>
  With a buffer, the values go there, at \<open>data_index\<close>; otherwise to the files. The results are the
  status, the buffer and the number of bytes written to it.
\<close>

definition htool_get_tokens_in_set ::
  "'d htool_dev \<Rightarrow> 'f stdio \<Rightarrow> htool_invocation \<Rightarrow> u32 \<Rightarrow> bytes option \<Rightarrow> u32 \<Rightarrow> 'd \<Rightarrow> 'f \<Rightarrow>
   (int \<times> bytes option \<times> u32 \<times> 'd \<times> 'f) option" where
  "htool_get_tokens_in_set env io iv set_idx data data_index d f =
    (case connect env d of
       (None, d) \<Rightarrow> Some (-1, data, 0, d, f)
     | (Some dev, d) \<Rightarrow>
         (case htool_get_param_string iv ''token_output'' of
            Inl _ \<Rightarrow> Some (-1, data, 0, d, f)
          | Inr base \<Rightarrow>
              (case indexed_name base set_idx of
                 None \<Rightarrow> Some (-1, data, 0, d, f)
               | Some token_output_file \<Rightarrow>
                   (case data of
                      None \<Rightarrow>
                        (case open_token_files io iv token_output_file set_idx f of
                           (None, f) \<Rightarrow> Some (-1, None, 0, d, f)
                         | (Some (t, b, s), f) \<Rightarrow>
                             (let cleanup = fclose_all io [t, b, s];
                                  (sv, d) = htool_get_security_version (un_supported env d) (Some dev) d
                              in if sv \<noteq> LIBHOTH_SECURITY_V2 then Some (-1, None, 0, d, cleanup f)
                              else
                                (case exec_get_tokens_in_set env dev set_idx d of
                                   None \<Rightarrow> None
                                 | Some (Inl status, d) \<Rightarrow> Some (status, None, 0, d, cleanup f)
                                 | Some (Inr (tokens, boot_nonce, sig), d) \<Rightarrow>
                                     Some (0, None, 0, d, cleanup (fwrite_all io [t, b, s] [tokens, boot_nonce, sig] f)))))
                    | Some buf \<Rightarrow>
                        (let (sv, d) = htool_get_security_version (un_supported env d) (Some dev) d
                         in if sv \<noteq> LIBHOTH_SECURITY_V2 then Some (-1, data, 0, d, f)
                         else
                           (case exec_get_tokens_in_set env dev set_idx d of
                              None \<Rightarrow> None
                            | Some (Inl status, d) \<Rightarrow> Some (status, data, 0, d, f)
                            | Some (Inr (tokens, boot_nonce, sig), d) \<Rightarrow>
                                (case store_values (unat data_index) [tokens, boot_nonce, sig] buf of
                                   None \<Rightarrow> None
                                 | Some buf \<Rightarrow>
                                     Some (0, Some buf, word_of_nat (length tokens + length boot_nonce + length sig), d, f))))))))"

section \<open>The number of sets and their descriptions\<close>

text \<open>What is passed as the storage of response parameters is overwritten before it is used.\<close>

definition exec_get_token_set_count ::
  "'d htool_dev \<Rightarrow> 'd libhoth_device \<Rightarrow> 'd \<Rightarrow> ((int + bytes list) \<times> 'd) option" where
  "exec_get_token_set_count env dev = exec_sized_cmd env dev TOKENS_MAJOR_COMMAND GET_TOKEN_SET_COUNT_MINOR_COMMAND
    [get_zero_challenge_nonce] [4, sizeof_boot_nonce, sizeof_signature]"

definition exec_get_token_set_info ::
  "'d htool_dev \<Rightarrow> 'd libhoth_device \<Rightarrow> u32 \<Rightarrow> 'd \<Rightarrow> ((int + bytes list) \<times> 'd) option" where
  "exec_get_token_set_info env dev set_idx = exec_sized_cmd env dev TOKENS_MAJOR_COMMAND GET_TOKEN_SET_INFO_MINOR_COMMAND
    [le_bytes 4 set_idx, get_zero_challenge_nonce] [sizeof_token_set_info, sizeof_boot_nonce, sizeof_signature]"

text \<open>The files for the number of sets, its nonce and its signature.\<close>

definition open_count_files :: "'f stdio \<Rightarrow> htool_invocation \<Rightarrow> 'f \<Rightarrow> (int \<times> int \<times> int) option \<times> 'f" where
  "open_count_files io iv f =
    (case open_param io iv ''token_count_output'' f of
       (None, f) \<Rightarrow> (None, f)
     | (Some c, f) \<Rightarrow>
         (case open_param io iv ''token_count_boot_nonce_output'' f of
            (None, f) \<Rightarrow> (None, fclose_all io [c] f)
          | (Some b, f) \<Rightarrow>
              (case open_param io iv ''token_count_signature_output'' f of
                 (None, f) \<Rightarrow> (None, fclose_all io [c, b] f)
               | (Some s, f) \<Rightarrow> (Some (c, b, s), f))))"

text \<open>
  The results are the status, the number of sets and the buffer. The callers pass 0 for the number and
  do not look at it after a failure.
\<close>

definition htool_get_token_set_count ::
  "'d htool_dev \<Rightarrow> 'f stdio \<Rightarrow> htool_invocation \<Rightarrow> bytes option \<Rightarrow> u32 \<Rightarrow> 'd \<Rightarrow> 'f \<Rightarrow>
   (int \<times> u32 \<times> bytes option \<times> 'd \<times> 'f) option" where
  "htool_get_token_set_count env io iv data data_index d f =
    (case connect env d of
       (None, d) \<Rightarrow> Some (-1, 0, data, d, f)
     | (Some dev, d) \<Rightarrow>
         (case data of
            None \<Rightarrow>
              (case open_count_files io iv f of
                 (None, f) \<Rightarrow> Some (-1, 0, None, d, f)
               | (Some (c, b, s), f) \<Rightarrow>
                   (let cleanup = fclose_all io [c, b, s];
                        (sv, d) = htool_get_security_version (un_supported env d) (Some dev) d
                    in if sv \<noteq> LIBHOTH_SECURITY_V2 then Some (-1, 0, None, d, cleanup f)
                    else
                      (case exec_get_token_set_count env dev d of
                         None \<Rightarrow> None
                       | Some (Inl status, d) \<Rightarrow> Some (status, 0, None, d, cleanup f)
                       | Some (Inr vs, d) \<Rightarrow> Some (0, le_word (vs ! 0), None, d, cleanup (fwrite_all io [c, b, s] vs f)))))
          | Some buf \<Rightarrow>
              (let (sv, d) = htool_get_security_version (un_supported env d) (Some dev) d
               in if sv \<noteq> LIBHOTH_SECURITY_V2 then Some (-1, 0, data, d, f)
               else
                 (case exec_get_token_set_count env dev d of
                    None \<Rightarrow> None
                  | Some (Inl status, d) \<Rightarrow> Some (status, 0, data, d, f)
                  | Some (Inr vs, d) \<Rightarrow>
                      (case store_values (unat data_index) vs buf of
                         None \<Rightarrow> None
                       | Some buf \<Rightarrow> Some (0, le_word (vs ! 0), Some buf, d, f))))))"

text \<open>Only the description itself is written.\<close>

definition htool_get_token_set_info ::
  "'d htool_dev \<Rightarrow> 'f stdio \<Rightarrow> htool_invocation \<Rightarrow> u32 \<Rightarrow> bytes option \<Rightarrow> u32 \<Rightarrow> 'd \<Rightarrow> 'f \<Rightarrow>
   (int \<times> bytes option \<times> 'd \<times> 'f) option" where
  "htool_get_token_set_info env io iv set_idx data data_index d f =
    (case connect env d of
       (None, d) \<Rightarrow> Some (-1, data, d, f)
     | (Some dev, d) \<Rightarrow>
         (case data of
            None \<Rightarrow>
              (case open_indexed io iv ''token_set_info'' set_idx f of
                 (None, f) \<Rightarrow> Some (-1, None, d, f)
               | (Some fp, f) \<Rightarrow>
                   (let (sv, d) = htool_get_security_version (un_supported env d) (Some dev) d
                    in if sv \<noteq> LIBHOTH_SECURITY_V2 then Some (-1, None, d, fclose io fp f)
                    else
                      (case exec_get_token_set_info env dev set_idx d of
                         None \<Rightarrow> None
                       | Some (Inl status, d) \<Rightarrow> Some (status, None, d, fclose io fp f)
                       | Some (Inr vs, d) \<Rightarrow> Some (0, None, d, fclose io fp (snd (fwrite io fp (vs ! 0) f))))))
          | Some buf \<Rightarrow>
              (let (sv, d) = htool_get_security_version (un_supported env d) (Some dev) d
               in if sv \<noteq> LIBHOTH_SECURITY_V2 then Some (-1, data, d, f)
               else
                 (case exec_get_token_set_info env dev set_idx d of
                    None \<Rightarrow> None
                  | Some (Inl status, d) \<Rightarrow> Some (status, data, d, f)
                  | Some (Inr vs, d) \<Rightarrow>
                      (case store_response (unat data_index) (vs ! 0) buf of
                         None \<Rightarrow> None
                       | Some buf \<Rightarrow> Some (0, Some buf, d, f))))))"

section \<open>Fetching everything\<close>

text \<open>How the function for a single file leaves its loop early: through \<open>cleanup\<close>, or at once, without closing the file.\<close>

datatype loop_exit = Goto_Cleanup int | Return int

text \<open>
  The sets from \<open>i\<close> on, of which there are \<open>k\<close>. The \<open>status\<close> is 0 at the checks of \<open>data_index\<close>, from the call
  before. The index \<open>i\<close> is an \<open>int\<close>.
\<close>

fun attestation_loop ::
  "'d htool_dev \<Rightarrow> 'f stdio \<Rightarrow> htool_invocation \<Rightarrow> nat \<Rightarrow> nat \<Rightarrow> bytes \<Rightarrow> u32 \<Rightarrow> 'd \<Rightarrow> 'f \<Rightarrow>
   ((loop_exit + bytes \<times> u32) \<times> 'd \<times> 'f) option" where
  "attestation_loop env io iv 0 i data data_index d f = Some (Inr (data, data_index), d, f)"
| "attestation_loop env io iv (Suc k) i data data_index d f =
    (if length data \<le> unat data_index then Some (Inl (Goto_Cleanup 0), d, f)
     else
       (case htool_get_tokens_in_set env io iv (word_of_nat i) (Some data) data_index d f of
          None \<Rightarrow> None
        | Some (status, data', bytes_written, d, f) \<Rightarrow>
            if status \<noteq> 0 then Some (Inl (Return status), d, f)
            else
              let data_index = data_index + bytes_written
              in if length data \<le> unat data_index then Some (Inl (Goto_Cleanup 0), d, f)
              else
                (case htool_get_token_set_info env io iv (word_of_nat i) data' data_index d f of
                   None \<Rightarrow> None
                 | Some (status, data'', d, f) \<Rightarrow>
                     if status \<noteq> 0 then Some (Inl (Return status), d, f)
                     else if 2147483647 \<le> i then None
                     else attestation_loop env io iv k (Suc i) (the data'') (data_index + word_of_nat sizeof_token_set_info) d f)))"

text \<open>
  \<open>un_data\<close> is what the buffer for all data holds before. That the file cannot be opened, that the
  security version is not the expected one and that \<open>data_index\<close> is too large leave \<open>status\<close> at 0.
\<close>

definition htool_fetch_single_attestation_file ::
  "bytes \<Rightarrow> 'd htool_dev \<Rightarrow> 'f stdio \<Rightarrow> htool_invocation \<Rightarrow> string option \<Rightarrow> 'd \<Rightarrow> 'f \<Rightarrow> (int \<times> 'd \<times> 'f) option" where
  "htool_fetch_single_attestation_file un_data env io iv filename d f =
    (case connect env d of
       (None, d) \<Rightarrow> Some (-1, d, f)
     | (Some dev, d) \<Rightarrow>
         (case htool_get_token_set_count env io iv (Some un_data) 0 d f of
            None \<Rightarrow> None
          | Some (status, num_ids, data, d, f) \<Rightarrow>
              if status \<noteq> 0 then Some (status, d, f)
              else
                (case filename of
                   None \<Rightarrow> Some (0, d, f)
                 | Some filename \<Rightarrow>
                     (case fopen_wb io filename f of
                        (None, f) \<Rightarrow> Some (0, d, f)
                      | (Some fp, f) \<Rightarrow>
                          (let (sv, d) = htool_get_security_version (un_supported env d) (Some dev) d
                           in if sv \<noteq> LIBHOTH_SECURITY_V2 then Some (0, d, fclose io fp f)
                           else
                             (case attestation_loop env io iv (unat num_ids) 0 (the data)
                                     (word_of_nat (4 + sizeof_boot_nonce + sizeof_signature)) d f of
                                None \<Rightarrow> None
                              | Some (Inl (Return status), d, f) \<Rightarrow> Some (status, d, f)
                              | Some (Inl (Goto_Cleanup status), d, f) \<Rightarrow> Some (status, d, fclose io fp f)
                              | Some (Inr (data, data_index), d, f) \<Rightarrow>
                                  (case read_at 0 (unat data_index) data of
                                     None \<Rightarrow> None
                                   | Some bs \<Rightarrow> Some (0, d, fclose io fp (snd (fwrite io fp bs f))))))))))"

text \<open>Every set into files of its own.\<close>

fun attestation_files_loop ::
  "'d htool_dev \<Rightarrow> 'f stdio \<Rightarrow> htool_invocation \<Rightarrow> nat \<Rightarrow> nat \<Rightarrow> 'd \<Rightarrow> 'f \<Rightarrow> (int \<times> 'd \<times> 'f) option" where
  "attestation_files_loop env io iv 0 i d f = Some (0, d, f)"
| "attestation_files_loop env io iv (Suc k) i d f =
    (case htool_get_tokens_in_set env io iv (word_of_nat i) None 0 d f of
       None \<Rightarrow> None
     | Some (status, _, _, d, f) \<Rightarrow>
         if status \<noteq> 0 then Some (status, d, f)
         else
           (case htool_get_token_set_info env io iv (word_of_nat i) None 0 d f of
              None \<Rightarrow> None
            | Some (status, _, d, f) \<Rightarrow>
                if status \<noteq> 0 then Some (status, d, f)
                else if 2147483647 \<le> i then None
                else attestation_files_loop env io iv k (Suc i) d f))"

definition htool_fetch_attestation ::
  "bytes \<Rightarrow> 'd htool_dev \<Rightarrow> 'f stdio \<Rightarrow> htool_invocation \<Rightarrow> 'd \<Rightarrow> 'f \<Rightarrow> (int \<times> 'd \<times> 'f) option" where
  "htool_fetch_attestation un_data env io iv d f =
    (case htool_get_param_string iv ''attestation_file'' of
       Inl _ \<Rightarrow> Some (-1, d, f)
     | Inr attestation_file \<Rightarrow>
         if attestation_file = [] then
           (case htool_get_token_set_count env io iv None 0 d f of
              None \<Rightarrow> None
            | Some (status, num_ids, _, d, f) \<Rightarrow>
                if status \<noteq> 0 then Some (status, d, f)
                else attestation_files_loop env io iv (unat num_ids) 0 d f)
         else htool_fetch_single_attestation_file un_data env io iv (Some attestation_file) d f)"

end
