(* ===== verification/Attestation_Tokens.thy ===== *)
theory Attestation_Tokens
  imports Attestation_Keys Htool_Tokens
begin

text \<open>
  What fetching the attestation data means for a root of trust that reports token sets: the contents
  of the single file, and when the buffer on the stack is overrun.
\<close>

section \<open>A root of trust with token sets\<close>

text \<open>The tokens of a set, their nonce, their signature, and the description of the set.\<close>

type_synonym token_set = "bytes \<times> bytes \<times> bytes \<times> bytes"

definition wf_token_set :: "token_set \<Rightarrow> bool" where
  "wf_token_set = (\<lambda>(tokens, n, sig, info). length tokens mod 16 = 0 \<and> length tokens \<le> 848 \<and>
     length n = 16 \<and> length sig = 128 \<and> length info = 8)"

definition set_bytes :: "token_set \<Rightarrow> bytes" where
  "set_bytes = (\<lambda>(tokens, n, sig, info). tokens @ n @ sig @ info)"

definition reports_tokens :: "'w v2_handler \<Rightarrow> 'w \<Rightarrow> bytes \<Rightarrow> bytes \<Rightarrow> token_set list \<Rightarrow> bool" where
  "reports_tokens h w cn cs sets \<longleftrightarrow>
    length cn = 16 \<and> length cs = 128 \<and> length sets < 2147483648 \<and> list_all wf_token_set sets \<and>
    h 5 6 [zeros 16] w = ((0, [le_bytes 4 (word_of_nat (length sets) :: u32), cn, cs]), w) \<and>
    (\<forall>i < length sets. case sets ! i of (tokens, n, sig, info) \<Rightarrow>
       h 5 8 [le_bytes 4 (word_of_nat i :: u32), zeros 16] w = ((0, [tokens, n, sig]), w) \<and>
       (\<exists>n' sig'. length n' = 16 \<and> length sig' = 128 \<and>
         h 5 7 [le_bytes 4 (word_of_nat i :: u32), zeros 16] w = ((0, [info, n', sig']), w)))"

definition attestation :: "bytes \<Rightarrow> bytes \<Rightarrow> token_set list \<Rightarrow> bytes" where
  "attestation cn cs sets = le_bytes 4 (word_of_nat (length sets) :: u32) @ cn @ cs @ concat (map set_bytes sets)"

section \<open>The commands\<close>

lemma store_values:
  "length vs' = length (concat vs) \<Longrightarrow> store_values (length pre) vs (pre @ vs' @ rest) = Some (pre @ concat vs @ rest)"
proof (induction vs arbitrary: pre vs')
  case (Cons v vs)
  define a b where "a = take (length v) vs'" and "b = drop (length v) vs'"
  have vs': "vs' = a @ b" "length a = length v" "length b = length (concat vs)" using Cons.prems by (simp_all add: a_def b_def)
  have "store_response (length pre) v (pre @ vs' @ rest) = Some ((pre @ v) @ b @ rest)"
    by (simp add: store_response_def memcpy_at_def vs')
  then show ?case using Cons.IH [of b "pre @ v"] vs'(3) by simp
qed simp

lemma store_values_overrun:
  "length data < off + length (concat vs) \<Longrightarrow> vs \<noteq> [] \<Longrightarrow> store_values off vs data = None"
proof (induction vs arbitrary: off data)
  case (Cons v vs)
  show ?case
  proof (cases "store_response off v data")
    case (Some data')
    then have "length data' = length data" "off + length v \<le> length data" by (auto simp: store_response_def split: if_splits)
    moreover from this Cons.prems(1) have "vs \<noteq> []" by auto
    ultimately show ?thesis using Some Cons.IH [of data' "off + length v"] Cons.prems(1) by simp
  qed simp
qed simp

text \<open>Storing behind a prefix of the buffer, or overrunning it.\<close>

lemma store_behind:
  assumes "length pre \<le> length data" "take (length pre) data = pre" "vs \<noteq> []"
  shows "if length pre + length (concat vs) \<le> length data
     then \<exists>data'. store_values (length pre) vs data = Some data' \<and> length data' = length data \<and>
       take (length pre + length (concat vs)) data' = pre @ concat vs
     else store_values (length pre) vs data = None"
proof (cases "length pre + length (concat vs) \<le> length data")
  case True
  define a b where "a = take (length (concat vs)) (drop (length pre) data)" and
    "b = drop (length (concat vs)) (drop (length pre) data)"
  have "data = take (length pre) data @ drop (length pre) data" by simp
  then have "data = pre @ a @ b" unfolding assms(2) a_def b_def append_take_drop_id .
  moreover have "length a = length (concat vs)" using True by (simp add: a_def)
  ultimately show ?thesis using store_values [of a vs pre b] True by simp
next
  case False
  then show ?thesis using store_values_overrun [of data "length pre" vs] assms(3) by simp
qed

lemma serialized_values:
  assumes "list_all2 (\<lambda>off v. serialized_size (buf_data b) off = Some (word_of_nat (length v)) \<and>
      serialized_value (buf_data b) off (length v) = Some v) offs vs" and "list_all (\<lambda>v. length v < 65536) vs"
  shows "map (serialized_param b) offs = map Some vs"
  using assms by (induction rule: list_all2_induct) (simp_all add: serialized_param_def unat_of_nat)

lemma count_call:
  assumes "reports_tokens h w cn cs sets"
  shows "\<exists>q'. exec_get_token_set_count env (rot_device (v2_rot h)) (w, q) =
    Some (Inr [le_bytes 4 (word_of_nat (length sets) :: u32), cn, cs], (w, q'))"
proof -
  have "v2_call h 5 6 [zeros 16] [4, 16, 128] w = (Inr [le_bytes 4 (word_of_nat (length sets) :: u32), cn, cs], w)"
    using assms by (simp add: v2_call_def reports_tokens_def)
  then show ?thesis
    using sized_call [of "[zeros 16]" "[4, 16, 128]" env h TOKENS_MAJOR_COMMAND GET_TOKEN_SET_COUNT_MINOR_COMMAND w q]
    by (simp add: exec_get_token_set_count_def TOKENS_MAJOR_COMMAND_def GET_TOKEN_SET_COUNT_MINOR_COMMAND_def
        get_zero_challenge_nonce_def NONCE_SIZE_def sizeof_boot_nonce_def sizeof_signature_def v2_size_def pad_len_def)
qed

lemma info_call:
  assumes "reports_tokens h w cn cs sets" "i < length sets" "sets ! i = (tokens, n, sig, info)"
  shows "\<exists>q' vs. exec_get_token_set_info env (rot_device (v2_rot h)) (word_of_nat i) (w, q) = Some (Inr (info # vs), (w, q'))"
proof -
  from assms obtain n' sig' where r: "length n' = 16" "length sig' = 128"
    "h 5 7 [le_bytes 4 (word_of_nat i :: u32), zeros 16] w = ((0, [info, n', sig']), w)"
    by (auto simp: reports_tokens_def)
  moreover have "length info = 8" using assms by (auto simp: reports_tokens_def list_all_length wf_token_set_def)
  ultimately have "v2_call h 5 7 [le_bytes 4 (word_of_nat i :: u32), zeros 16] [8, 16, 128] w = (Inr [info, n', sig'], w)"
    by (simp add: v2_call_def)
  then show ?thesis
    using sized_call [of "[le_bytes 4 (word_of_nat i :: u32), zeros 16]" "[8, 16, 128]" env h TOKENS_MAJOR_COMMAND
        GET_TOKEN_SET_INFO_MINOR_COMMAND w q]
    by (auto simp: exec_get_token_set_info_def TOKENS_MAJOR_COMMAND_def GET_TOKEN_SET_INFO_MINOR_COMMAND_def
        get_zero_challenge_nonce_def NONCE_SIZE_def sizeof_boot_nonce_def sizeof_signature_def sizeof_token_set_info_def
        v2_size_def pad_len_def)
qed

lemma tokens_call:
  assumes "reports_tokens h w cn cs sets" "i < length sets" "sets ! i = (tokens, n, sig, info)"
  shows "\<exists>q'. exec_get_tokens_in_set env (rot_device (v2_rot h)) (word_of_nat i) (w, q) = Some (Inr (tokens, n, sig), (w, q'))"
proof -
  let ?vs = "[le_bytes 4 (word_of_nat i :: u32), zeros 16]" and ?rs = "[tokens, n, sig]"
  from assms have wf: "length tokens mod 16 = 0" "length tokens \<le> 848" "length n = 16" "length sig = 128"
    by (auto simp: reports_tokens_def list_all_length wf_token_set_def)
  have "pad_len (length tokens) = 0" using wf(1) unfolding pad_len_def by presburger
  then have "v2_size (map length ?rs) \<le> 1012" using wf by (simp add: v2_size_def pad_len_def)
  then have call: "v2_values_call h 5 8 ?vs 3 w = (Inr ?rs, w)"
    using assms by (auto simp: v2_values_call_def reports_tokens_def)
  obtain out q' where run: "htool_exec_security_v2_serialized_cmd (un_bytes_read env (w, q)) (Some (rot_device (v2_rot h))) 5 8
      (HOTH_BASE_CMD HOTH_PRV_CMD_HOTH_SECURITY_V2) (security_v2_buffer_param (zeros 32)) (map param_of ?vs)
      (security_v2_buffer_param (zeros 1024)) 3 (w, q) = Some (out, (w, q'))"
    and out: "\<exists>b. out = Inr (v2_places 4 ?rs, b) \<and>
         list_all2 (\<lambda>off v. serialized_size (buf_data b) off = Some (word_of_nat (length v)) \<and>
           serialized_value (buf_data b) off (length v) = Some v) (v2_places 4 ?rs) ?rs"
    using v2_serialized_call [of ?vs 32 1024 "un_bytes_read env (w, q)" h 5 8 3 w q] call by (auto simp: v2_size_def pad_len_def)
  from out obtain b where b: "out = Inr (v2_places 4 ?rs, b)"
    "list_all2 (\<lambda>off v. serialized_size (buf_data b) off = Some (word_of_nat (length v)) \<and>
      serialized_value (buf_data b) off (length v) = Some v) (v2_places 4 ?rs) ?rs" by blast
  have "map (serialized_param b) (v2_places 4 ?rs) = map Some ?rs"
    by (rule serialized_values [OF b(2)]) (use wf in simp)
  then show ?thesis
    using run b(1) wf by (simp add: exec_get_tokens_in_set_def TOKENS_MAJOR_COMMAND_def GET_TOKENS_IN_SET_MINOR_COMMAND_def
        get_zero_challenge_nonce_def NONCE_SIZE_def MAX_TOKEN_RESPONSE_SIZE_def TOKEN_BYTE_SIZE_def HOTH_SECURITY_V2_REQUEST_SIZE_def)
qed

section \<open>The single file\<close>

text \<open>The tokens of a set, and its description, put behind what is in the buffer.\<close>

definition behind :: "nat \<Rightarrow> bytes \<Rightarrow> bytes \<Rightarrow> bool" where
  "behind cap pre data \<longleftrightarrow> length data = cap \<and> length pre \<le> cap \<and> take (length pre) data = pre"

lemma stored_behind:
  assumes "behind cap pre data" "vs \<noteq> []"
  shows "if length pre + length (concat vs) \<le> cap
     then \<exists>data'. store_values (length pre) vs data = Some data' \<and> behind cap (pre @ concat vs) data'
     else store_values (length pre) vs data = None"
  using store_behind [of pre data vs] assms by (auto simp: behind_def)

lemma tokens_stored:
  assumes "connected env (rot_device (v2_rot h))" "reports_tokens h w cn cs sets" "i < length sets"
    and "sets ! i = (tokens, n, sig, info)"
    and "htool_get_param_string iv ''token_output'' = Inr base" "indexed_name base (word_of_nat i) \<noteq> None"
    and "behind cap pre data" "unat idx = length pre"
  shows "if length pre + length (tokens @ n @ sig) \<le> cap
     then \<exists>data' q'. htool_get_tokens_in_set env io iv (word_of_nat i) (Some data) idx (w, q) f =
         Some (0, Some data', word_of_nat (length (tokens @ n @ sig)), (w, q'), f) \<and> behind cap (pre @ tokens @ n @ sig) data'
     else htool_get_tokens_in_set env io iv (word_of_nat i) (Some data) idx (w, q) f = None"
proof -
  obtain q1 where v: "htool_get_security_version (un_supported env (w, q)) (Some (rot_device (v2_rot h))) (w, q) =
      (LIBHOTH_SECURITY_V2, (w, q1))" using version_rot [of "un_supported env (w, q)" h w q] by (elim exE)
  obtain q2 where "exec_get_tokens_in_set env (rot_device (v2_rot h)) (word_of_nat i) (w, q1) = Some (Inr (tokens, n, sig), (w, q2))"
    using tokens_call [OF assms(2-4), of env q1] by (elim exE)
  then have run: "htool_get_tokens_in_set env io iv (word_of_nat i) (Some data) idx (w, q) f =
      (case store_values (length pre) [tokens, n, sig] data of
         None \<Rightarrow> None | Some buf \<Rightarrow> Some (0, Some buf, word_of_nat (length tokens + length n + length sig), (w, q2), f))"
    using assms v by (auto simp: htool_get_tokens_in_set_def connected_def simp del: store_values.simps of_nat_add)
  show ?thesis
    using stored_behind [OF assms(7), of "[tokens, n, sig]"] unfolding run by (auto simp: add.assoc simp del: store_values.simps split: if_splits)
qed

lemma info_stored:
  assumes "connected env (rot_device (v2_rot h))" "reports_tokens h w cn cs sets" "i < length sets"
    and "sets ! i = (tokens, n, sig, info)"
    and "behind cap pre data" "unat idx = length pre"
  shows "if length pre + length info \<le> cap
     then \<exists>data' q'. htool_get_token_set_info env io iv (word_of_nat i) (Some data) idx (w, q) f =
         Some (0, Some data', (w, q'), f) \<and> behind cap (pre @ info) data'
     else htool_get_token_set_info env io iv (word_of_nat i) (Some data) idx (w, q) f = None"
proof -
  obtain q1 where v: "htool_get_security_version (un_supported env (w, q)) (Some (rot_device (v2_rot h))) (w, q) =
      (LIBHOTH_SECURITY_V2, (w, q1))" using version_rot [of "un_supported env (w, q)" h w q] by (elim exE)
  obtain q2 vs where "exec_get_token_set_info env (rot_device (v2_rot h)) (word_of_nat i) (w, q1) = Some (Inr (info # vs), (w, q2))"
    using info_call [OF assms(2-4), of env q1] by (elim exE)
  then have run: "htool_get_token_set_info env io iv (word_of_nat i) (Some data) idx (w, q) f =
      (case store_values (length pre) [info] data of None \<Rightarrow> None | Some buf \<Rightarrow> Some (0, Some buf, (w, q2), f))"
    using assms v by (auto simp: htool_get_token_set_info_def connected_def split: option.splits)
  show ?thesis
    using stored_behind [OF assms(5), of "[info]"] unfolding run by (auto simp del: store_values.simps split: if_splits)
qed

text \<open>
  The sizes are such that the index is never equal to the size of the buffer, so that the checks in
  the loop never apply: a set that does not fit overruns the buffer.
\<close>

lemma attestation_loop:
  assumes "connected env (rot_device (v2_rot h))" "reports_tokens h w cn cs sets"
    and "htool_get_param_string iv ''token_output'' = Inr base" "\<forall>i < length sets. indexed_name base (word_of_nat i) \<noteq> None"
    and "i + k = length sets" "behind 2048 pre data" "unat idx = length pre" "length pre mod 8 = 4"
  shows "if length pre + length (concat (map set_bytes (drop i sets))) \<le> 2048
     then \<exists>data' idx' q'. attestation_loop env io iv k i data idx (w, q) f = Some (Inr (data', idx'), (w, q'), f) \<and>
       behind 2048 (pre @ concat (map set_bytes (drop i sets))) data' \<and>
       unat idx' = length (pre @ concat (map set_bytes (drop i sets)))
     else attestation_loop env io iv k i data idx (w, q) f = None"
  using assms(5-8)
proof (induction k arbitrary: i pre data idx q)
  case 0
  then show ?case by (auto simp: behind_def)
next
  case (Suc k)
  have i: "i < length sets" using Suc.prems(1) by simp
  obtain t n g inf where s: "sets ! i = (t, n, g, inf)" by (cases "sets ! i")
  have wf: "wf_token_set (t, n, g, inf)" "i < 2147483647"
    using assms(2) i s by (auto simp: reports_tokens_def list_all_length dest!: spec [of _ i])
  then have t: "length t mod 16 = 0" "length n = 16" "length g = 128" "length inf = 8" "length t \<le> 848"
    by (simp_all add: wf_token_set_def)
  have rest: "concat (map set_bytes (drop i sets)) = t @ n @ g @ inf @ concat (map set_bytes (drop (Suc i) sets))"
    using i s by (simp add: Cons_nth_drop_Suc [symmetric] set_bytes_def)
  have pre: "length pre < 2048" "length data = 2048" using Suc.prems(2,4) by (auto simp: behind_def le_less)
  have name: "indexed_name base (word_of_nat i) \<noteq> None" using assms(4) i by simp
  note tk = tokens_stored [OF assms(1,2) i s assms(3) name Suc.prems(2,3), of io q f]
  show ?case
  proof (cases "length pre + length (t @ n @ g) \<le> 2048")
    case False
    then show ?thesis using tk Suc.prems(3) pre unfolding rest by simp
  next
    case fits: True
    define bw where "bw = (word_of_nat (length (t @ n @ g)) :: u32)"
    define idx1 where "idx1 = idx + bw"
    from tk fits obtain d1 q1 where 1: "htool_get_tokens_in_set env io iv (word_of_nat i) (Some data) idx (w, q) f =
        Some (0, Some d1, bw, (w, q1), f)" "behind 2048 (pre @ t @ n @ g) d1" unfolding bw_def [symmetric] by auto
    have idx1: "unat idx1 = length (pre @ t @ n @ g)"
      using Suc.prems(3) fits by (simp add: idx1_def bw_def unat_word_ariths unat_of_nat del: of_nat_add)
    have "length (pre @ t @ n @ g) mod 8 = 4" using t(1-3) Suc.prems(4) by simp presburger
    then have below: "length (pre @ t @ n @ g) < 2048" using fits by (cases "length (pre @ t @ n @ g) = 2048") simp_all
    note inf = info_stored [OF assms(1,2) i s 1(2) idx1, of io iv q1 f]
    show ?thesis
    proof (cases "length (pre @ t @ n @ g) + length inf \<le> 2048")
      case False
      then show ?thesis using inf 1 Suc.prems(3) pre below idx1 unfolding rest by (simp add: idx1_def [symmetric] Let_def)
    next
      case True
      with inf obtain d2 q2 where 2: "htool_get_token_set_info env io iv (word_of_nat i) (Some d1) idx1 (w, q1) f =
          Some (0, Some d2, (w, q2), f)" "behind 2048 ((pre @ t @ n @ g) @ inf) d2" by auto
      define idx2 where "idx2 = idx1 + word_of_nat sizeof_token_set_info"
      have idx2: "unat idx2 = length ((pre @ t @ n @ g) @ inf)"
        using idx1 True t(4) by (simp add: idx2_def sizeof_token_set_info_def unat_word_ariths)
      have m: "length ((pre @ t @ n @ g) @ inf) mod 8 = 4" using t(1-4) Suc.prems(4) by simp presburger
      have k: "Suc i + k = length sets" using Suc.prems(1) by simp
      have IH: "if length ((pre @ t @ n @ g) @ inf) + length (concat (map set_bytes (drop (Suc i) sets))) \<le> 2048
         then \<exists>data' idx' q'. attestation_loop env io iv k (Suc i) d2 idx2 (w, q2) f = Some (Inr (data', idx'), (w, q'), f) \<and>
           behind 2048 (((pre @ t @ n @ g) @ inf) @ concat (map set_bytes (drop (Suc i) sets))) data' \<and>
           unat idx' = length (((pre @ t @ n @ g) @ inf) @ concat (map set_bytes (drop (Suc i) sets)))
         else attestation_loop env io iv k (Suc i) d2 idx2 (w, q2) f = None"
        by (rule Suc.IH [OF k 2(2) idx2 m])
      have step: "attestation_loop env io iv (Suc k) i data idx (w, q) f = attestation_loop env io iv k (Suc i) d2 idx2 (w, q2) f"
        using 1 2 Suc.prems(3) pre below idx1 wf(2) by (simp add: idx1_def [symmetric] idx2_def [symmetric] Let_def)
      have len: "length pre + length (t @ n @ g @ inf @ concat (map set_bytes (drop (Suc i) sets))) =
          length ((pre @ t @ n @ g) @ inf) + length (concat (map set_bytes (drop (Suc i) sets)))" by simp
      show ?thesis using IH unfolding step rest len append_assoc .
    qed
  qed
qed

text \<open>
  C16: the attestation data of a root of trust is written to the single file in full, the number of
  sets, then for each set its tokens and its description, if it has at most 2048 bytes; for a
  root of trust with more data the buffer on the stack is overrun, because the checks of the index
  look only at data that is already there.
\<close>

theorem attestation_fetched:
  assumes "connected env (rot_device (v2_rot h))" "writes_files io content" "reports_tokens h w cn cs sets"
    and "htool_get_param_string iv ''token_output'' = Inr base" "\<forall>i < length sets. indexed_name base (word_of_nat i) \<noteq> None"
    and "htool_get_param_string iv ''attestation_file'' = Inr name" "name \<noteq> []" "length un_data = 2048"
  shows "if length (attestation cn cs sets) \<le> 2048
     then \<exists>q' f'. htool_fetch_attestation un_data env io iv (w, q) f = Some (0, (w, q'), f') \<and>
       content f' = (content f)(name \<mapsto> attestation cn cs sets)
     else htool_fetch_attestation un_data env io iv (w, q) f = None"
proof -
  let ?count = "word_of_nat (length sets) :: u32" and ?dev = "rot_device (v2_rot h)"
  let ?head = "le_bytes 4 ?count @ cn @ cs" and ?sets = "concat (map set_bytes sets)"
  have n: "unat ?count = length sets" "length cn = 16" "length cs = 128"
    using assms(3) by (simp_all add: reports_tokens_def unat_of_nat)
  obtain q1 where v: "htool_get_security_version (un_supported env (w, q)) (Some ?dev) (w, q) = (LIBHOTH_SECURITY_V2, (w, q1))"
    using version_rot [of "un_supported env (w, q)" h w q] by (elim exE)
  obtain q2 where c: "exec_get_token_set_count env ?dev (w, q1) = Some (Inr [le_bytes 4 ?count, cn, cs], (w, q2))"
    using count_call [OF assms(3), of env q1] by (elim exE)
  obtain data where st: "store_values 0 [le_bytes 4 ?count, cn, cs] un_data = Some data" "behind 2048 ?head data"
    using stored_behind [of 2048 "[]" un_data "[le_bytes 4 ?count, cn, cs]"] assms(8) n by (auto simp: behind_def)
  have count: "htool_get_token_set_count env io iv (Some un_data) 0 (w, q) f = Some (0, ?count, Some data, (w, q2), f)"
    using assms(1) v c st(1) by (simp add: htool_get_token_set_count_def connected_def del: store_values.simps)
  obtain q3 where v2: "htool_get_security_version (un_supported env (w, q2)) (Some ?dev) (w, q2) = (LIBHOTH_SECURITY_V2, (w, q3))"
    using version_rot [of "un_supported env (w, q2)" h w q2] by (elim exE)
  from assms(2) obtain fp f1 where o: "fopen_wb io name f = (Some fp, f1)"
    and wr: "\<forall>bs. \<exists>f2. fwrite io fp bs f1 = (length bs, f2) \<and> \<not> ferror io fp f2 \<and> content (fclose io fp f2) = (content f)(name \<mapsto> bs)"
    unfolding writes_files_def by metis
  let ?idx = "word_of_nat (4 + sizeof_boot_nonce + sizeof_signature) :: u32"
  have idx: "unat ?idx = length ?head" "length ?head mod 8 = 4"
    using n by (simp_all add: sizeof_boot_nonce_def sizeof_signature_def NONCE_SIZE_def)
  let ?loop = "attestation_loop env io iv (length sets) 0 data ?idx (w, q3) f1"
  have fetch: "htool_fetch_attestation un_data env io iv (w, q) f =
      (case ?loop of
         None \<Rightarrow> None
       | Some (Inl (Return status), d, f) \<Rightarrow> Some (status, d, f)
       | Some (Inl (Goto_Cleanup status), d, f) \<Rightarrow> Some (status, d, fclose io fp f)
       | Some (Inr (data, data_index), d, f) \<Rightarrow>
           (case read_at 0 (unat data_index) data of
              None \<Rightarrow> None | Some bs \<Rightarrow> Some (0, d, fclose io fp (snd (fwrite io fp bs f)))))"
    using assms(1,6,7) count v2 o n(1)
    by (simp add: htool_fetch_attestation_def htool_fetch_single_attestation_file_def connected_def)
  note loop = attestation_loop [OF assms(1,3,4,5) _ st(2) idx, of 0 "length sets" io q3 f1, unfolded drop_0]
  have len: "length (attestation cn cs sets) = length ?head + length ?sets" "attestation cn cs sets = ?head @ ?sets"
    by (simp_all add: attestation_def)
  show ?thesis
  proof (cases "length (attestation cn cs sets) \<le> 2048")
    case False
    then have "?loop = None" using loop len(1) by simp
    then show ?thesis using False fetch by simp
  next
    case True
    then have "\<exists>data' idx' q'. ?loop = Some (Inr (data', idx'), (w, q'), f1) \<and>
        behind 2048 (?head @ ?sets) data' \<and> unat idx' = length (?head @ ?sets)" using loop len(1) by simp
    then obtain data' idx' q' where l: "?loop = Some (Inr (data', idx'), (w, q'), f1)"
      "behind 2048 (attestation cn cs sets) data'" "unat idx' = length (attestation cn cs sets)" unfolding len(2) by blast
    then have "read_at 0 (unat idx') data' = Some (attestation cn cs sets)"
      by (simp add: behind_def read_at_def byte_range_def)
    moreover from wr obtain f2 where "fwrite io fp (attestation cn cs sets) f1 = (length (attestation cn cs sets), f2)"
      "content (fclose io fp f2) = (content f)(name \<mapsto> attestation cn cs sets)" by blast
    ultimately show ?thesis using True l(1) fetch by simp
  qed
qed

text \<open>A root of trust that reports the given sets.\<close>

definition demo_reporter :: "token_set list \<Rightarrow> unit v2_handler" where
  "demo_reporter sets major minor vs w =
    ((0, if minor = 6 then [le_bytes 4 (word_of_nat (length sets) :: u32), zeros 16, zeros 128]
         else (case sets ! unat (le_word (vs ! 0) :: u32) of
           (tokens, n, sig, info) \<Rightarrow> if minor = 8 then [tokens, n, sig] else [info, zeros 16, zeros 128])), w)"

definition demo_set :: "nat \<Rightarrow> token_set" where
  "demo_set n = (replicate n 1, replicate 16 2, replicate 128 3, replicate 8 4)"

definition reporter_htool :: "token_set list \<Rightarrow> (unit \<times> bytes) htool_dev" where
  "reporter_htool sets =
    \<lparr>connect = (\<lambda>d. (Some (rot_device (v2_rot (demo_reporter sets))), d)), un_supported = (\<lambda>_. 0), un_bytes_read = (\<lambda>_. 0)\<rparr>"

lemma demo_reports:
  assumes "list_all wf_token_set sets" "length sets < 2147483648"
  shows "reports_tokens (demo_reporter sets) () (zeros 16) (zeros 128) sets"
  using assms by (auto simp: reports_tokens_def demo_reporter_def unat_of_nat split: prod.splits)

theorem attestation_fetched_witness:
  "htool_fetch_attestation (zeros 2048) (reporter_htool [demo_set 848, demo_set 848]) memory_stdio
      (demo_args [(''token_output'', ''t''), (''attestation_file'', ''a'')]) ((), []) (Map.empty, [], []) = None \<and>
   (\<exists>q' f'. htool_fetch_attestation (zeros 2048) (reporter_htool [demo_set 16]) memory_stdio
      (demo_args [(''token_output'', ''t''), (''attestation_file'', ''a'')]) ((), []) (Map.empty, [], []) = Some (0, ((), q'), f') \<and>
    fst f' = [''a'' \<mapsto> [1, 0, 0, 0] @ zeros 16 @ zeros 128 @ replicate 16 1 @ replicate 16 2 @ replicate 128 3 @ replicate 8 4])"
proof -
  let ?iv = "demo_args [(''token_output'', ''t''), (''attestation_file'', ''a'')]"
  have args: "htool_get_param_string ?iv ''token_output'' = Inr ''t''" "htool_get_param_string ?iv ''attestation_file'' = Inr ''a''"
    by code_simp+
  have name: "indexed_name ''t'' 0 \<noteq> None" "indexed_name ''t'' 1 \<noteq> None" by code_simp+
  then have names: "indexed_name ''t'' (word_of_nat i) \<noteq> None" if "i < 2" for i using that by (auto simp: less_2_cases_iff)
  have env: "connected (reporter_htool sets) (rot_device (v2_rot (demo_reporter sets)))" for sets
    by (simp add: connected_def reporter_htool_def)
  have wf: "wf_token_set (demo_set 848)" "wf_token_set (demo_set 16)" by (simp_all add: wf_token_set_def demo_set_def)
  note fetched = attestation_fetched [OF env memory_writes_files demo_reports args(1) _ args(2), of _ "zeros 2048" "[]" "(Map.empty, [], [])"]
  have "set_bytes (demo_set n) = replicate n 1 @ replicate 16 2 @ replicate 128 3 @ replicate 8 4" for n
    by (simp add: set_bytes_def demo_set_def)
  moreover have "le_bytes 4 (1 :: u32) = [1, 0, 0, 0]" by code_simp
  ultimately show ?thesis
    using fetched [of "[demo_set 848, demo_set 848]"] fetched [of "[demo_set 16]"] wf names name
    by (simp add: attestation_def)
qed
end
