(* ===== verification/Htool_Authz.thy ===== *)
theory Htool_Authz
  imports Htool_Certificates Rot_Peripherals Authz_Record
begin

text \<open>
  \<open>examples/htool_authz_command.c\<close>, \<open>htool_srtm.c\<close> and the commands of \<open>htool.c\<close> that use them or
  that handle authorization records. A command yields its return value and what it prints to the
  standard output, and the state of the device; messages to the standard error are not modelled.
\<close>

section \<open>Commands of htool\<close>

type_synonym 'd htool_result = "(int \<times> string) \<times> 'd"

text \<open>What most of them begin with, and how they end after a command of the library.\<close>

definition with_device ::
  "'d htool_dev \<Rightarrow> ('d libhoth_device \<Rightarrow> 'd \<Rightarrow> 'd htool_result) \<Rightarrow> 'd \<Rightarrow> 'd htool_result" where
  "with_device env run d =
    (case connect env d of (None, d) \<Rightarrow> ((-1, []), d) | (Some dev, d) \<Rightarrow> run dev d)"

definition reported :: "('a, 'd) hoth_result \<Rightarrow> ('a \<Rightarrow> int \<times> string) \<Rightarrow> 'd htool_result" where
  "reported r done = (case r of (Inl _, d) \<Rightarrow> ((-1, []), d) | (Inr x, d) \<Rightarrow> (done x, d))"

definition newline :: string where
  "newline = [CHR 0x0A]"

section \<open>Authorized commands\<close>

definition AUTHORIZED_COMMAND_SIGNATURE_SIZE :: nat where "AUTHORIZED_COMMAND_SIGNATURE_SIZE = 64"
definition AUTHORIZED_COMMAND_NONCE_SIZE :: nat where "AUTHORIZED_COMMAND_NONCE_SIZE = 32"
definition AUTHORIZED_COMMAND_VERSION :: u32 where "AUTHORIZED_COMMAND_VERSION = 1"
definition HOTH_PRV_CMD_HOTH_AUTHZ_COMMAND :: u16 where "HOTH_PRV_CMD_HOTH_AUTHZ_COMMAND = 0x0034"
definition HOTH_PRV_CMD_HOTH_GET_AUTHZ_COMMAND_NONCE :: u16 where
  "HOTH_PRV_CMD_HOTH_GET_AUTHZ_COMMAND_NONCE = 0x0035"

record hoth_authorized_command_request =
  acr_signature :: bytes
  acr_version :: u32
  acr_size :: u32
  acr_key_info :: u32
  acr_dev_id_0 :: u32
  acr_dev_id_1 :: u32
  acr_nonce :: "u32 list"
  acr_opcode :: u32

definition sizeof_command_request :: nat where
  "sizeof_command_request = AUTHORIZED_COMMAND_SIGNATURE_SIZE + 5 * 4 + AUTHORIZED_COMMAND_NONCE_SIZE + 4"

definition command_bytes :: "hoth_authorized_command_request \<Rightarrow> bytes" where
  "command_bytes r = acr_signature r @ le_bytes 4 (acr_version r) @ le_bytes 4 (acr_size r) @ le_bytes 4 (acr_key_info r)
    @ le_bytes 4 (acr_dev_id_0 r) @ le_bytes 4 (acr_dev_id_1 r) @ words_bytes (acr_nonce r) @ le_bytes 4 (acr_opcode r)"

definition command_of_bytes :: "bytes \<Rightarrow> hoth_authorized_command_request" where
  "command_of_bytes bs =
    \<lparr>acr_signature = byte_range 0 64 bs, acr_version = u32_at 64 bs, acr_size = u32_at 68 bs, acr_key_info = u32_at 72 bs,
     acr_dev_id_0 = u32_at 76 bs, acr_dev_id_1 = u32_at 80 bs, acr_nonce = words_at 84 8 bs, acr_opcode = u32_at 116 bs\<rparr>"

definition authz_command_build_request ::
  "u64 \<Rightarrow> u32 \<Rightarrow> u32 \<Rightarrow> u32 list \<Rightarrow> hoth_authorized_command_request" where
  "authz_command_build_request hw_id opcode key_info nonce =
    \<lparr>acr_signature = zeros AUTHORIZED_COMMAND_SIGNATURE_SIZE, acr_version = AUTHORIZED_COMMAND_VERSION,
     acr_size = word_of_nat sizeof_command_request, acr_key_info = key_info,
     acr_dev_id_0 = ucast (hw_id AND 0xffffffff), acr_dev_id_1 = ucast (drop_bit 32 hw_id),
     acr_nonce = nonce, acr_opcode = opcode\<rparr>"

definition authz_command_print_request :: "hoth_authorized_command_request \<Rightarrow> string" where
  "authz_command_print_request r = concat (map (\<lambda>b. hex_byte b) (command_bytes r)) @ newline"

text \<open>The largest value stands for a character that is no digit.\<close>

definition parse_nibble :: "char \<Rightarrow> u8" where
  "parse_nibble c =
    (let v = of_char c :: nat
     in if 48 \<le> v \<and> v \<le> 57 then word_of_nat (v - 48)
        else if 97 \<le> v \<and> v \<le> 102 then word_of_nat (v - 97 + 10)
        else if 65 \<le> v \<and> v \<le> 70 then word_of_nat (v - 65 + 10)
        else 255)"

fun parse_nibbles :: "string \<Rightarrow> bytes option" where
  "parse_nibbles (c # d # cs) =
    (let nibble_0 = parse_nibble c; nibble_1 = parse_nibble d
     in if nibble_0 = 255 \<or> nibble_1 = 255 then None
        else map_option ((#) (push_bit 4 nibble_0 OR nibble_1)) (parse_nibbles cs))"
| "parse_nibbles _ = Some []"

definition authz_command_hex_to_struct :: "string \<Rightarrow> hoth_authorized_command_request option" where
  "authz_command_hex_to_struct hexstring =
    (if length hexstring \<noteq> 2 * sizeof_command_request then None
     else
       (case parse_nibbles hexstring of
          None \<Rightarrow> None
        | Some out \<Rightarrow>
            (let request = command_of_bytes out
             in if sizeof_command_request < unat (acr_size request) then None else Some request)))"

text \<open>\<open>un_nonce\<close> is what the response with the nonce holds before.\<close>

definition command_authz_host_command_build ::
  "bytes \<Rightarrow> 'd htool_dev \<Rightarrow> htool_invocation \<Rightarrow> 'd \<Rightarrow> 'd htool_result" where
  "command_authz_host_command_build un_nonce env iv d =
    (case htool_get_param_u32 iv ''opcode'' of
       Inl _ \<Rightarrow> ((-1, []), d)
     | Inr opcode \<Rightarrow> with_device env (\<lambda>dev d.
         case libhoth_chipinfo (Some dev) (Some \<lparr>chip_version = 0, chip_data = Open_Titan_Device_Id []\<rparr>) d of
           (Inl _, d) \<Rightarrow> ((-1, []), d)
         | (Inr chip, d) \<Rightarrow>
             (case chip_data chip of
                Open_Titan_Device_Id _ \<Rightarrow> ((-1, []), d)
              | Hoth_Device_Id did \<Rightarrow>
                  if chip_version chip \<noteq> 0 then ((-1, []), d)
                  else
                    (let ((status, r), d) = libhoth_hostcmd_exec [] (Some dev)
                           (HOTH_CMD_BOARD_SPECIFIC_BASE + HOTH_PRV_CMD_HOTH_GET_AUTHZ_COMMAND_NONCE) 0 None 0 36 False d
                     in if status \<noteq> 0 then ((-1, []), d)
                     else
                       let nonce_resp = (case r of Some p \<Rightarrow> p | None \<Rightarrow> un_nonce);
                           request = authz_command_build_request (hardware_identity did) opcode (u32_at 32 nonce_resp)
                             (words_at 0 8 nonce_resp)
                       in ((0, authz_command_print_request request), d)))) d)"

definition command_authz_host_command_send ::
  "'d htool_dev \<Rightarrow> htool_invocation \<Rightarrow> 'd \<Rightarrow> 'd htool_result" where
  "command_authz_host_command_send env iv d =
    (case htool_get_param_string iv ''command'' of
       Inl _ \<Rightarrow> ((-1, []), d)
     | Inr command_hex \<Rightarrow> with_device env (\<lambda>dev d.
         case authz_command_hex_to_struct command_hex of
           None \<Rightarrow> ((-1, []), d)
         | Some request \<Rightarrow>
             (let ((status, _), d) = libhoth_hostcmd_exec [] (Some dev)
                    (HOTH_CMD_BOARD_SPECIFIC_BASE + HOTH_PRV_CMD_HOTH_AUTHZ_COMMAND) 0
                    (Some (command_bytes request)) sizeof_command_request 0 False d
              in if status \<noteq> 0 then ((-1, []), d) else ((0, []), d))) d)"

section \<open>Authorization records\<close>

definition command_authz_record_read :: "'d htool_dev \<Rightarrow> 'd \<Rightarrow> 'd htool_result" where
  "command_authz_record_read env = with_device env (\<lambda>dev d.
    reported (libhoth_authz_record_read (Some dev) (Some \<lparr>get_index = 0, valid = 0, get_reserved = [], get_record = blank_record 0\<rparr>) d)
      (\<lambda>r. (0, ''Index: '' @ dec_nat (unat (get_index r)) @ '' '' @ newline @ ''Valid: '' @ dec_nat (unat (valid r)) @ '' '' @ newline
        @ ''Record:'' @ newline @ snd (libhoth_authorization_record_print_hex_string (Some (get_record r))))))"

definition command_authz_record_erase :: "'d htool_dev \<Rightarrow> 'd \<Rightarrow> 'd htool_result" where
  "command_authz_record_erase env = with_device env (\<lambda>dev d.
    reported (libhoth_authz_record_erase (Some dev) d) (\<lambda>_. (0, [])))"

definition command_authz_record_build :: "'d htool_dev \<Rightarrow> htool_invocation \<Rightarrow> 'd \<Rightarrow> 'd htool_result" where
  "command_authz_record_build env iv d =
    (case htool_get_param_u32 iv ''caps'' of
       Inl _ \<Rightarrow> ((-1, []), d)
     | Inr caps \<Rightarrow> with_device env (\<lambda>dev d.
         (let ((err, rec), d) = libhoth_authz_record_build (Some dev) caps (Some (blank_record 0)) d
          in if err \<noteq> HOTH_SUCCESS then ((-1, []), d)
             else ((0, ''Record:'' @ newline @ snd (libhoth_authorization_record_print_hex_string rec)), d))) d)"

text \<open>\<open>un_record\<close> is what the record on the stack holds before.\<close>

definition command_authz_record_set :: "bytes \<Rightarrow> 'd htool_dev \<Rightarrow> htool_invocation \<Rightarrow> 'd \<Rightarrow> 'd htool_result" where
  "command_authz_record_set un_record env iv d =
    (case htool_get_param_string iv ''record'' of
       Inl _ \<Rightarrow> ((-1, []), d)
     | Inr record_hex \<Rightarrow> with_device env (\<lambda>dev d.
         (let (status, out) = libhoth_authorization_record_from_hex_string (Some un_record) (Some record_hex)
          in if status \<noteq> 0 then ((-1, []), d)
             else reported (libhoth_authz_record_set (Some dev) (map_option record_of_bytes out) d) (\<lambda>_. (0, [])))) d)"

section \<open>Initial measurements\<close>

definition SRTM_DATA_MAX_SIZE_BYTES :: nat where "SRTM_DATA_MAX_SIZE_BYTES = 64"
definition HOTH_PRV_CMD_HOTH_SRTM :: u16 where "HOTH_PRV_CMD_HOTH_SRTM = 0x0044"

text \<open>
  \<open>sscanf\<close> with \<open>%01X\<close>: white space is skipped, then one character is read, which must be a digit.
\<close>

definition sscanf_nibble :: "string \<Rightarrow> nat option" where
  "sscanf_nibble s = (case dropWhile is_space s of [] \<Rightarrow> None | c # _ \<Rightarrow> hex_val c)"

fun srtm_loop :: "string \<Rightarrow> bytes option" where
  "srtm_loop (c # d # cs) =
    (case sscanf_nibble (c # d # cs) of
       None \<Rightarrow> None
     | Some first_nibble \<Rightarrow>
         (case sscanf_nibble (d # cs) of
            None \<Rightarrow> None
          | Some second_nibble \<Rightarrow> map_option ((#) (word_of_nat (16 * first_nibble + second_nibble))) (srtm_loop cs)))"
| "srtm_loop _ = Some []"

text \<open>The request: \<open>data_size\<close> and the array \<open>data\<close>, which is zero before.\<close>

definition srtm_request_from_hex_measurement :: "string \<Rightarrow> (u16 \<times> bytes) option" where
  "srtm_request_from_hex_measurement measurement =
    (let hex_length = length measurement
     in if hex_length = 0 then None
     else if hex_length mod 2 = 1 then None
     else if SRTM_DATA_MAX_SIZE_BYTES * 2 < hex_length then None
     else
       (case srtm_loop measurement of
          None \<Rightarrow> None
        | Some data \<Rightarrow> Some (word_of_nat (hex_length div 2), memcpy_at 0 data (zeros SRTM_DATA_MAX_SIZE_BYTES))))"

text \<open>\<open>pad\<close> is the padding behind the array, two bytes for an alignment of four.\<close>

definition command_srtm :: "bytes \<Rightarrow> 'd htool_dev \<Rightarrow> htool_invocation \<Rightarrow> 'd \<Rightarrow> 'd htool_result" where
  "command_srtm pad env iv = with_device env (\<lambda>dev d.
    case htool_get_param_string iv ''measurement'' of
      Inl _ \<Rightarrow> ((-1, []), d)
    | Inr measurement \<Rightarrow>
        (case srtm_request_from_hex_measurement measurement of
           None \<Rightarrow> ((-1, []), d)
         | Some (data_size, data) \<Rightarrow>
             (let ((status, _), d) = libhoth_hostcmd_exec [] (Some dev) (HOTH_CMD_BOARD_SPECIFIC_BASE + HOTH_PRV_CMD_HOTH_SRTM) 0
                    (Some (le_bytes 2 data_size @ data @ pad)) (2 + SRTM_DATA_MAX_SIZE_BYTES + length pad) 0 False d
              in ((status, []), d))))"

section \<open>Hexadecimal text\<close>

definition is_xdigit :: "char \<Rightarrow> bool" where
  "is_xdigit c \<longleftrightarrow> hex_val c \<noteq> None"

definition lower :: "char \<Rightarrow> char" where
  "lower c = (let v = of_char c :: nat in if 65 \<le> v \<and> v \<le> 70 then char_of (v + 32) else c)"

text \<open>The bytes that pairs of digits stand for.\<close>

fun hex_pairs :: "string \<Rightarrow> bytes" where
  "hex_pairs (c # d # cs) = word_of_nat (16 * the (hex_val c) + the (hex_val d)) # hex_pairs cs"
| "hex_pairs _ = []"

definition hex_text :: "bytes \<Rightarrow> string" where
  "hex_text bs = concat (map (\<lambda>b. hex_byte b) bs)"

lemma hex_text_simps [simp]: "hex_text [] = []" "hex_text (b # bs) = hex_byte b @ hex_text bs"
  by (simp_all add: hex_text_def)

lemma length_hex_text [simp]: "length (hex_text bs) = 2 * length bs"
  by (induction bs) (simp_all add: hex_byte_unfold)

lemma hex_fixed_2: "hex_fixed hex_digits 2 v = [hex_digits ! (v div 16 mod 16), hex_digits ! (v mod 16)]"
  by (simp add: numeral_2_eq_2)

lemma hex_val_less: "hex_val c = Some n \<Longrightarrow> n < 16"
  by (auto simp: hex_val_def Let_def split: if_splits)

lemma parse_nibble_val: "parse_nibble c = (case hex_val c of Some n \<Rightarrow> word_of_nat n | None \<Rightarrow> 255)"
  by (simp add: parse_nibble_def hex_val_def Let_def)

lemma nibble_values: "n < 16 \<Longrightarrow> (word_of_nat n :: u8) \<noteq> 255"
  by (simp add: word_unat_eq_iff unat_of_nat)

lemma all_nibbles:
  "list_all (\<lambda>a. list_all (\<lambda>b. push_bit 4 (word_of_nat a) OR word_of_nat b = (word_of_nat (16 * a + b) :: u8)) [0..<16]) [0..<16]"
  by code_simp

lemma join_nibbles: "a < 16 \<Longrightarrow> b < 16 \<Longrightarrow> push_bit 4 (word_of_nat a) OR word_of_nat b = (word_of_nat (16 * a + b) :: u8)"
  using all_nibbles by (simp add: list_all_iff del: upt_rec_numeral)

lemma parse_nibbles_pairs:
  "even (length s) \<Longrightarrow> parse_nibbles s = (if list_all is_xdigit s then Some (hex_pairs s) else None)"
proof (induction s rule: hex_pairs.induct)
  case (1 c d cs)
  have 255: "parse_nibble e = 255 \<longleftrightarrow> \<not> is_xdigit e" for e
    by (auto simp: parse_nibble_val is_xdigit_def nibble_values dest: hex_val_less split: option.split)
  show ?case
  proof (cases "is_xdigit c \<and> is_xdigit d")
    case True
    then obtain a b where v: "hex_val c = Some a" "hex_val d = Some b" by (auto simp: is_xdigit_def)
    then have "push_bit 4 (parse_nibble c) OR parse_nibble d = word_of_nat (16 * a + b)"
      using join_nibbles [of a b] hex_val_less [of c a] hex_val_less [of d b] by (simp add: parse_nibble_val)
    then show ?thesis using 1 True 255 v by (simp add: Let_def)
  qed (use 255 in auto)
qed simp_all

text \<open>The digits, and that both cases have the same value.\<close>

lemma is_xdigit_cases: "is_xdigit c \<Longrightarrow> c \<in> set ''0123456789abcdefABCDEF''"
proof -
  assume "is_xdigit c"
  then have "(of_char c :: nat) \<in> set ([48..<58] @ [97..<103] @ [65..<71])"
    by (auto simp: is_xdigit_def hex_val_def Let_def simp del: upt_rec_numeral split: if_splits)
  then have "char_of (of_char c :: nat) \<in> set (map char_of ([48..<58] @ [97..<103] @ [65 :: nat..<71]))"
    unfolding set_map by (rule imageI)
  moreover have "map char_of ([48..<58] @ [97..<103] @ [65 :: nat..<71]) = ''0123456789abcdefABCDEF''" by code_simp
  ultimately show ?thesis by (simp only: char_of_char)
qed

lemma lower_digit: "is_xdigit c \<Longrightarrow> hex_digits ! the (hex_val c) = lower c"
proof -
  have "list_all (\<lambda>c. hex_digits ! the (hex_val c) = lower c) ''0123456789abcdefABCDEF''" by code_simp
  then show "is_xdigit c \<Longrightarrow> hex_digits ! the (hex_val c) = lower c"
    using is_xdigit_cases [of c] by (simp only: list_all_iff)
qed

lemma digit_lower: "lower c = hex_digits ! n \<Longrightarrow> n < 16 \<Longrightarrow> hex_val c = Some n"
proof -
  assume c: "lower c = hex_digits ! n" and n: "n < 16"
  have d: "length hex_digits = 16" "distinct hex_digits" "list_all is_xdigit hex_digits" by code_simp+
  have "is_xdigit c"
  proof (cases "65 \<le> (of_char c :: nat) \<and> (of_char c :: nat) \<le> 70")
    case True
    then show ?thesis by (simp add: is_xdigit_def hex_val_def)
  next
    case False
    then have "c = hex_digits ! n" using c unfolding lower_def Let_def by (auto split: if_splits)
    then show ?thesis using d n by (simp add: list_all_length)
  qed
  then obtain m where m: "hex_val c = Some m" "m < 16" by (auto simp: is_xdigit_def dest: hex_val_less)
  then have "hex_digits ! m = hex_digits ! n" using lower_digit [of c] c by (simp add: is_xdigit_def)
  then show "hex_val c = Some n" using d m n by (simp add: nth_eq_iff_index_eq)
qed

lemma hex_text_pairs: "even (length s) \<Longrightarrow> list_all is_xdigit s \<Longrightarrow> hex_text (hex_pairs s) = map lower s"
proof (induction s rule: hex_pairs.induct)
  case (1 c d cs)
  then obtain a b where "hex_val c = Some a" "hex_val d = Some b" by (auto simp: is_xdigit_def)
  moreover from this have "a < 16" "b < 16" by (simp_all add: hex_val_less)
  moreover from this have "unat (word_of_nat (16 * a + b) :: u8) = 16 * a + b" by (simp add: unat_of_nat del: of_nat_add of_nat_mult)
  moreover have "hex_digits ! the (hex_val c) = lower c" "hex_digits ! the (hex_val d) = lower d" using 1 by (simp_all add: lower_digit)
  ultimately show ?case using 1 by (simp add: hex_fixed_2 del: of_nat_add of_nat_mult hex_fixed.simps)
qed simp_all

lemma pairs_hex_text: "map lower s = hex_text bs \<Longrightarrow> list_all is_xdigit s \<and> hex_pairs s = bs"
proof (induction bs arbitrary: s)
  case (Cons b bs)
  then obtain c d cs where s: "s = c # d # cs" by (auto simp: hex_byte_unfold)
  have "hex_val c = Some (unat b div 16 mod 16)" "hex_val d = Some (unat b mod 16)"
    using Cons.prems digit_lower [of c "unat b div 16 mod 16"] digit_lower [of d "unat b mod 16"] by (simp_all add: s hex_byte_unfold)
  moreover have "unat b div 16 < 16" using unat_u8_less [of b] by (simp add: div_less_iff_less_mult del: unat_u8_less)
  moreover have "list_all is_xdigit cs \<and> hex_pairs cs = bs" by (rule Cons.IH) (use Cons.prems in \<open>simp add: s hex_byte_unfold\<close>)
  ultimately show ?case by (simp add: s) (simp add: is_xdigit_def)
qed simp

section \<open>Authorized commands as bytes\<close>

definition wf_command :: "hoth_authorized_command_request \<Rightarrow> bool" where
  "wf_command r \<longleftrightarrow> length (acr_signature r) = 64 \<and> length (acr_nonce r) = 8"

lemma length_command_bytes [simp]: "wf_command r \<Longrightarrow> length (command_bytes r) = sizeof_command_request"
  by (simp add: command_bytes_def wf_command_def sizeof_command_request_def AUTHORIZED_COMMAND_SIGNATURE_SIZE_def
      AUTHORIZED_COMMAND_NONCE_SIZE_def)

lemma sizeof_command: "sizeof_command_request = 120"
  by (simp add: sizeof_command_request_def AUTHORIZED_COMMAND_SIGNATURE_SIZE_def AUTHORIZED_COMMAND_NONCE_SIZE_def)

lemma command_of_command_bytes: "wf_command r \<Longrightarrow> command_of_bytes (command_bytes r) = r"
proof -
  assume wf: "wf_command r"
  have at: "u32_at (length xs) (xs @ le_bytes 4 w @ ys) = w" for xs ys and w :: u32 by (simp add: u32_at_le_bytes)
  have "words_at (64 + 20) 8 ((acr_signature r @ le_bytes 4 (acr_version r) @ le_bytes 4 (acr_size r) @ le_bytes 4 (acr_key_info r)
      @ le_bytes 4 (acr_dev_id_0 r) @ le_bytes 4 (acr_dev_id_1 r)) @ words_bytes (acr_nonce r) @ le_bytes 4 (acr_opcode r)) = acr_nonce r"
    using wf by (intro words_at_words_bytes) (simp_all add: wf_command_def)
  moreover note
    at [of "acr_signature r" "acr_version r"]
    at [of "acr_signature r @ le_bytes 4 (acr_version r)" "acr_size r"]
    at [of "acr_signature r @ le_bytes 4 (acr_version r) @ le_bytes 4 (acr_size r)" "acr_key_info r"]
    at [of "acr_signature r @ le_bytes 4 (acr_version r) @ le_bytes 4 (acr_size r) @ le_bytes 4 (acr_key_info r)" "acr_dev_id_0 r"]
    at [of "acr_signature r @ le_bytes 4 (acr_version r) @ le_bytes 4 (acr_size r) @ le_bytes 4 (acr_key_info r)
      @ le_bytes 4 (acr_dev_id_0 r)" "acr_dev_id_1 r"]
    at [of "acr_signature r @ le_bytes 4 (acr_version r) @ le_bytes 4 (acr_size r) @ le_bytes 4 (acr_key_info r)
      @ le_bytes 4 (acr_dev_id_0 r) @ le_bytes 4 (acr_dev_id_1 r) @ words_bytes (acr_nonce r)" "acr_opcode r" "[]"]
  ultimately show ?thesis
    using wf by (simp add: command_of_bytes_def command_bytes_def wf_command_def byte_range_def)
qed

lemma le_bytes_u32_at: "k + 4 \<le> length bs \<Longrightarrow> le_bytes 4 (u32_at k bs) = byte_range k 4 bs"
  by (simp add: u32_at_def le_bytes_le_word)

lemma words_bytes_words_at: "k + 4 * n \<le> length bs \<Longrightarrow> words_bytes (words_at k n bs) = byte_range k (4 * n) bs"
proof (induction n)
  case (Suc n)
  then have "words_bytes (words_at k (Suc n) bs) = byte_range k (4 * n) bs @ byte_range (k + 4 * n) 4 bs"
    by (simp add: words_at_def words_bytes_def le_bytes_u32_at)
  then show ?case by (simp add: byte_range_join add.commute)
qed (simp add: words_at_def words_bytes_def byte_range_def)

lemma command_bytes_of_bytes: "length bs = 120 \<Longrightarrow> wf_command (command_of_bytes bs) \<and> command_bytes (command_of_bytes bs) = bs"
proof -
  assume l: "length bs = 120"
  have "command_bytes (command_of_bytes bs) = byte_range 0 64 bs @ byte_range 64 4 bs @ byte_range 68 4 bs @ byte_range 72 4 bs
      @ byte_range 76 4 bs @ byte_range 80 4 bs @ byte_range 84 32 bs @ byte_range 116 4 bs"
    using l by (simp add: command_bytes_def command_of_bytes_def le_bytes_u32_at words_bytes_words_at)
  also have "\<dots> = byte_range 0 120 bs"
    by (simp add: byte_range_join [of 116 84 32 36] byte_range_join [of 84 80 4 40] byte_range_join [of 80 76 4 44]
        byte_range_join [of 76 72 4 48] byte_range_join [of 72 68 4 52] byte_range_join [of 68 64 4 56]
        byte_range_join [of 64 0 64 120])
  finally show ?thesis using l by (simp add: byte_range_def wf_command_def command_of_bytes_def)
qed

section \<open>Properties\<close>

text \<open>
  C29: the hexadecimal text of an authorized command is accepted exactly if it is, up to the case of
  the digits, what printing the command gives, and the command does not announce more bytes than the
  structure has.
\<close>

theorem authz_command_hex_iff:
  "authz_command_hex_to_struct s = Some r \<longleftrightarrow>
    wf_command r \<and> unat (acr_size r) \<le> sizeof_command_request \<and> map lower s @ newline = authz_command_print_request r"
proof
  assume r: "authz_command_hex_to_struct s = Some r"
  then have l: "length s = 240" by (simp add: authz_command_hex_to_struct_def sizeof_command split: if_splits)
  then have p: "list_all is_xdigit s" "r = command_of_bytes (hex_pairs s)" "unat (acr_size r) \<le> sizeof_command_request"
    using r by (auto simp: authz_command_hex_to_struct_def parse_nibbles_pairs Let_def not_less split: if_splits)
  have t: "hex_text (hex_pairs s) = map lower s" using p l by (simp add: hex_text_pairs)
  from arg_cong [OF this, of length] have "length (hex_pairs s) = 120" using l by simp
  with command_bytes_of_bytes [of "hex_pairs s"] p t
  show "wf_command r \<and> unat (acr_size r) \<le> sizeof_command_request \<and> map lower s @ newline = authz_command_print_request r"
    by (simp add: authz_command_print_request_def hex_text_def)
next
  assume r: "wf_command r \<and> unat (acr_size r) \<le> sizeof_command_request \<and> map lower s @ newline = authz_command_print_request r"
  then have t: "map lower s = hex_text (command_bytes r)" by (simp add: authz_command_print_request_def hex_text_def)
  from arg_cong [OF this, of length] have l: "length s = 2 * sizeof_command_request" using r by simp
  have "list_all is_xdigit s \<and> hex_pairs s = command_bytes r" by (rule pairs_hex_text [OF t])
  then show "authz_command_hex_to_struct s = Some r"
    using r l by (simp add: authz_command_hex_to_struct_def parse_nibbles_pairs command_of_command_bytes)
qed

lemma srtm_loop_pairs:
  "even (length s) \<Longrightarrow> list_all (\<lambda>c. \<not> is_space c) s \<Longrightarrow> srtm_loop s = (if list_all is_xdigit s then Some (hex_pairs s) else None)"
  by (induction s rule: srtm_loop.induct) (auto simp: sscanf_nibble_def is_xdigit_def split: option.splits)

text \<open>
  A measurement without white space is accepted exactly if it has from 1 to 64 bytes, all of two
  hexadecimal digits; the request holds these bytes, followed by zeros. With white space it may be
  accepted as something else: a space and a 1 are the byte \<open>0x11\<close>.
\<close>

theorem srtm_measurement_iff:
  assumes "list_all (\<lambda>c. \<not> is_space c) s"
  shows "(srtm_request_from_hex_measurement s = Some (n, data) \<longleftrightarrow>
      (\<exists>bs. map lower s = hex_text bs \<and> 1 \<le> length bs \<and> length bs \<le> 64 \<and>
        n = word_of_nat (length bs) \<and> data = bs @ zeros (64 - length bs))) \<and>
    srtm_request_from_hex_measurement [CHR 0x20, CHR ''1''] = Some (1, 0x11 # zeros 63)"
proof
  show "srtm_request_from_hex_measurement [CHR 0x20, CHR ''1''] = Some (1, 0x11 # zeros 63)" by code_simp
  show "srtm_request_from_hex_measurement s = Some (n, data) \<longleftrightarrow>
      (\<exists>bs. map lower s = hex_text bs \<and> 1 \<le> length bs \<and> length bs \<le> 64 \<and>
        n = word_of_nat (length bs) \<and> data = bs @ zeros (64 - length bs))" (is "?l \<longleftrightarrow> ?r")
  proof
    assume ?l
    then have s: "even (length s)" "0 < length s" "length s \<le> 128"
      by (auto simp: srtm_request_from_hex_measurement_def SRTM_DATA_MAX_SIZE_BYTES_def Let_def even_iff_mod_2_eq_zero split: if_splits)
    then have x: "list_all is_xdigit s" "n = word_of_nat (length s div 2)" "data = memcpy_at 0 (hex_pairs s) (zeros 64)"
      using \<open>?l\<close> assms by (auto simp: srtm_request_from_hex_measurement_def srtm_loop_pairs SRTM_DATA_MAX_SIZE_BYTES_def Let_def
          split: if_splits)
    have t: "map lower s = hex_text (hex_pairs s)" using hex_text_pairs [OF s(1) x(1)] by simp
    from arg_cong [OF this, of length] have "length s = 2 * length (hex_pairs s)" by simp
    with s x t show ?r by (intro exI [of _ "hex_pairs s"]) (auto simp: memcpy_at_def Suc_le_eq)
  next
    assume ?r
    then obtain bs where bs: "map lower s = hex_text bs" "1 \<le> length bs" "length bs \<le> 64" "n = word_of_nat (length bs)"
      "data = bs @ zeros (64 - length bs)" by blast
    from arg_cong [OF bs(1), of length] have l: "length s = 2 * length bs" by simp
    have "list_all is_xdigit s \<and> hex_pairs s = bs" by (rule pairs_hex_text [OF bs(1)])
    with l bs assms show ?l
      by (auto simp: srtm_request_from_hex_measurement_def srtm_loop_pairs SRTM_DATA_MAX_SIZE_BYTES_def memcpy_at_def Let_def)
  qed
qed

theorem srtm_measurement_iff_witness:
  "srtm_request_from_hex_measurement ''Ab09'' = Some (2, [0xab, 0x09] @ zeros 62)"
proof -
  have s: "list_all (\<lambda>c. \<not> is_space c) ''Ab09''" by code_simp
  have "map lower ''Ab09'' = hex_text [0xab, 0x09]" by code_simp
  then show ?thesis using srtm_measurement_iff [OF s, of 2 "[0xab, 0x09] @ zeros 62"]
    by (auto intro!: exI [of _ "[0xab, 0x09]"])
qed

section \<open>Authorizing a command\<close>

lemma legacy_ok:
  assumes "h c v p w = ((0, r), w')" "length p \<le> 1016" "length r \<le> 1016"
    "if want then length r \<le> n else length r = n" "k = length p"
  shows "\<exists>q'. libhoth_hostcmd_exec [] (Some (rot_device h)) c v (Some p) k n want (w, q) = ((0, Some r), (w', q'))"
  using rpc_ok [of h c v p w r w' want n, OF assms(1-4)] assms(5) by (simp add: libhoth_hostcmd_exec_def exec_v2_hostcmd hostcmd_rot)

text \<open>
  C22: the text that is printed for an opcode is that of a request for the device and the nonce of
  the root of trust; with any signature put into it and sent back, in digits of either case, the root
  of trust gets exactly one authorized command, with these bytes.
\<close>

theorem authz_command_signed:
  assumes "connected env (rot_device h)"
    and "h (HOTH_CMD_BOARD_SPECIFIC_BASE + HOTH_PRV_CMD_HOTH_CHIP_INFO) 0 [] w = ((0, ident), w)" "length ident = 16"
    and "h (HOTH_CMD_BOARD_SPECIFIC_BASE + HOTH_PRV_CMD_HOTH_GET_AUTHZ_COMMAND_NONCE) 0 [] w = ((0, nonce), w)" "length nonce = 36"
    and "htool_get_param_u32 build ''opcode'' = Inr opcode"
    and "r = authz_command_build_request (u64_at 0 ident) opcode (u32_at 32 nonce) (words_at 0 8 nonce)"
    and "req = r\<lparr>acr_signature := sig\<rparr>" "length sig = 64"
    and "htool_get_param_string send ''command'' = Inr text" "map lower text = hex_text (command_bytes req)"
    and "h (HOTH_CMD_BOARD_SPECIFIC_BASE + HOTH_PRV_CMD_HOTH_AUTHZ_COMMAND) 0 (command_bytes req) w = ((0, []), w')"
  shows "\<exists>q' q''. command_authz_host_command_build un env build (w, q) = ((0, hex_text (command_bytes r) @ newline), (w, q')) \<and>
    command_authz_host_command_send env send (w, q) = ((0, []), (w', q''))"
proof -
  have wf: "wf_command r" "wf_command req" "acr_size req = word_of_nat sizeof_command_request"
    using assms(7-9) by (simp_all add: wf_command_def authz_command_build_request_def AUTHORIZED_COMMAND_SIGNATURE_SIZE_def)
  have len: "length (command_bytes req) = sizeof_command_request" using wf(2) by simp
  have chip: "\<exists>q1. libhoth_chipinfo (Some (rot_device h)) (Some \<lparr>chip_version = 0, chip_data = Open_Titan_Device_Id []\<rparr>) (w, q) =
      (Inr \<lparr>chip_version = 0, chip_data = Hoth_Device_Id \<lparr>hardware_identity = u64_at 0 ident, hardware_category = u16_at 8 ident,
         devid_reserved0 = u16_at 10 ident, info_variant = u32_at 12 ident\<rparr>\<rparr>, (w, q1))"
    using rpc_ok [of h _ 0 "[]" w ident w True OPENTITAN_DEVICE_ID_LEN, OF assms(2)] assms(3)
    by (simp add: libhoth_chipinfo_def hostcmd_rot OPENTITAN_DEVICE_ID_LEN_def)
  then obtain q1 where chip: "libhoth_chipinfo (Some (rot_device h)) (Some \<lparr>chip_version = 0, chip_data = Open_Titan_Device_Id []\<rparr>) (w, q) =
      (Inr \<lparr>chip_version = 0, chip_data = Hoth_Device_Id \<lparr>hardware_identity = u64_at 0 ident, hardware_category = u16_at 8 ident,
         devid_reserved0 = u16_at 10 ident, info_variant = u32_at 12 ident\<rparr>\<rparr>, (w, q1))" by blast
  have "libhoth_hostcmd_exec [] (Some (rot_device h)) c 0 None 0 36 False (w, q1) =
      libhoth_hostcmd_exec [] (Some (rot_device h)) c 0 (Some []) (length ([] :: bytes)) 36 False (w, q1)" for c
    using exec_v2_hostcmd [of "[]" "Some (rot_device h)" c 0 "[]" 36 False "(w, q1)"]
    by (simp add: libhoth_hostcmd_exec_def exec_v2_no_payload)
  moreover have "\<exists>q'. libhoth_hostcmd_exec [] (Some (rot_device h))
      (HOTH_CMD_BOARD_SPECIFIC_BASE + HOTH_PRV_CMD_HOTH_GET_AUTHZ_COMMAND_NONCE) 0 (Some []) (length ([] :: bytes)) 36 False (w, q1) =
      ((0, Some nonce), (w, q'))"
    by (rule legacy_ok [of h _ 0 "[]" w nonce w False 36 _ q1, OF assms(4)]) (simp_all add: assms(5))
  ultimately have "\<exists>q'. libhoth_hostcmd_exec [] (Some (rot_device h))
      (HOTH_CMD_BOARD_SPECIFIC_BASE + HOTH_PRV_CMD_HOTH_GET_AUTHZ_COMMAND_NONCE) 0 None 0 36 False (w, q1) = ((0, Some nonce), (w, q'))"
    by simp
  then obtain q2 where nonce: "libhoth_hostcmd_exec [] (Some (rot_device h))
      (HOTH_CMD_BOARD_SPECIFIC_BASE + HOTH_PRV_CMD_HOTH_GET_AUTHZ_COMMAND_NONCE) 0 None 0 36 False (w, q1) = ((0, Some nonce), (w, q2))"
    by (elim exE)
  have build: "command_authz_host_command_build un env build (w, q) = ((0, hex_text (command_bytes r) @ newline), (w, q2))"
    using assms(1,6,7) chip nonce by (simp add: command_authz_host_command_build_def with_device_def connected_def
        authz_command_print_request_def hex_text_def)
  have "authz_command_hex_to_struct text = Some req"
  proof -
    have x: "list_all is_xdigit text \<and> hex_pairs text = command_bytes req" by (rule pairs_hex_text [OF assms(11)])
    from arg_cong [OF assms(11), of length] len have "length text = 2 * sizeof_command_request" by simp
    with x wf show ?thesis
      by (simp add: authz_command_hex_to_struct_def parse_nibbles_pairs command_of_command_bytes sizeof_command)
  qed
  moreover have "\<exists>q'. libhoth_hostcmd_exec [] (Some (rot_device h))
      (HOTH_CMD_BOARD_SPECIFIC_BASE + HOTH_PRV_CMD_HOTH_AUTHZ_COMMAND) 0 (Some (command_bytes req)) sizeof_command_request 0 False (w, q) =
      ((0, Some []), (w', q'))"
    by (rule legacy_ok [of h _ 0 "command_bytes req" w "[]" w' False 0 _ q, OF assms(12)]) (simp_all add: len sizeof_command)
  then obtain q3 where "libhoth_hostcmd_exec [] (Some (rot_device h))
      (HOTH_CMD_BOARD_SPECIFIC_BASE + HOTH_PRV_CMD_HOTH_AUTHZ_COMMAND) 0 (Some (command_bytes req)) sizeof_command_request 0 False (w, q) =
    ((0, Some []), (w', q3))" by (elim exE)
  ultimately have "command_authz_host_command_send env send (w, q) = ((0, []), (w', q3))"
    using assms(1,10) by (simp add: command_authz_host_command_send_def with_device_def connected_def)
  with build show ?thesis by blast
qed


definition authz_rot :: "(bytes list) rot_handler" where
  "authz_rot c v p w =
    (if c = 0x3E10 then ((0, [1, 2, 3, 4, 5, 6, 7, 8] @ zeros 8), w)
     else if c = 0x3E35 then ((0, zeros 32 @ [3, 0, 0, 0]), w)
     else if c = 0x3E34 then ((0, []), w @ [p]) else ((1, []), w))"

theorem authz_command_signed_witness:
  "\<exists>un cmd q' q''. command_authz_host_command_build un
      \<lparr>connect = (\<lambda>d. (Some (rot_device authz_rot), d)), un_supported = (\<lambda>_. 0), un_bytes_read = (\<lambda>_. 0)\<rparr>
      (demo_args [(''opcode'', ''7'')]) ([], []) = ((0, hex_text (zeros 64 @ cmd) @ newline), ([], q')) \<and>
    command_authz_host_command_send
      \<lparr>connect = (\<lambda>d. (Some (rot_device authz_rot), d)), un_supported = (\<lambda>_. 0), un_bytes_read = (\<lambda>_. 0)\<rparr>
      (demo_args [(''command'', hex_text (replicate 64 0xAB @ cmd))]) ([], []) = ((0, []), ([replicate 64 0xAB @ cmd], q''))"
proof -
  let ?env = "\<lparr>connect = (\<lambda>d. (Some (rot_device authz_rot), d)), un_supported = (\<lambda>_. 0), un_bytes_read = (\<lambda>_. 0)\<rparr>
    :: (bytes list \<times> bytes) htool_dev"
  let ?ident = "[1, 2, 3, 4, 5, 6, 7, 8] @ zeros 8 :: bytes" and ?nonce = "zeros 32 @ [3, 0, 0, 0] :: bytes"
  define r where "r = authz_command_build_request (u64_at 0 ?ident) 7 (u32_at 32 ?nonce) (words_at 0 8 ?nonce)"
  define req where "req = r\<lparr>acr_signature := replicate 64 0xAB\<rparr>"
  define cmd where "cmd = drop 64 (command_bytes r)"
  have bytes: "command_bytes r = zeros 64 @ cmd" "command_bytes req = replicate 64 0xAB @ cmd"
    by (simp_all add: cmd_def req_def r_def command_bytes_def authz_command_build_request_def AUTHORIZED_COMMAND_SIGNATURE_SIZE_def)
  have low: "map lower (hex_text bs) = hex_text bs" for bs
  proof -
    have "list_all (\<lambda>c. lower c = c) hex_digits" by code_simp
    then have "lower (hex_digits ! n) = hex_digits ! n" if "n < 16" for n using that by (simp add: list_all_length hex_digits_def)
    then show ?thesis by (induction bs) (simp_all add: hex_byte_unfold)
  qed
  let ?t = "hex_text (command_bytes req)"
  have env: "connected ?env (rot_device authz_rot)" by (simp add: connected_def)
  have num: "htool_get_param_u32 (demo_args [(''opcode'', ''7'')]) ''opcode'' = Inr 7"
  proof -
    have "dec_nat 7 = ''7''" by code_simp
    then show ?thesis using parse_u32_dec [of 7]
      by (simp add: htool_get_param_u32_def get_param_required_def get_param_def find_param_by_name_def demo_args_def)
  qed
  have arg: "htool_get_param_string (demo_args [(''command'', t)]) ''command'' = Inr t" for t
    by (simp add: htool_get_param_string_def get_param_required_def get_param_def find_param_by_name_def demo_args_def)
  have codes: "HOTH_CMD_BOARD_SPECIFIC_BASE + HOTH_PRV_CMD_HOTH_CHIP_INFO = 0x3E10"
    "HOTH_CMD_BOARD_SPECIFIC_BASE + HOTH_PRV_CMD_HOTH_GET_AUTHZ_COMMAND_NONCE = 0x3E35"
    "HOTH_CMD_BOARD_SPECIFIC_BASE + HOTH_PRV_CMD_HOTH_AUTHZ_COMMAND = 0x3E34"
    by code_simp+
  have answers: "authz_rot (HOTH_CMD_BOARD_SPECIFIC_BASE + HOTH_PRV_CMD_HOTH_CHIP_INFO) 0 [] [] = ((0, ?ident), [])"
    "authz_rot (HOTH_CMD_BOARD_SPECIFIC_BASE + HOTH_PRV_CMD_HOTH_GET_AUTHZ_COMMAND_NONCE) 0 [] [] = ((0, ?nonce), [])"
    "authz_rot (HOTH_CMD_BOARD_SPECIFIC_BASE + HOTH_PRV_CMD_HOTH_AUTHZ_COMMAND) 0 p [] = ((0, []), [p])" for p
    unfolding codes by (simp_all add: authz_rot_def)
  have "\<exists>q' q''. command_authz_host_command_build [] ?env (demo_args [(''opcode'', ''7'')]) ([], []) =
      ((0, hex_text (command_bytes r) @ newline), ([], q')) \<and>
    command_authz_host_command_send ?env (demo_args [(''command'', ?t)]) ([], []) = ((0, []), ([command_bytes req], q''))"
    by (rule authz_command_signed [OF env answers(1) _ answers(2) _ num r_def req_def _ arg low answers(3)]) simp_all
  then show ?thesis unfolding bytes by blast
qed


end
