(* ===== verification/Htool_Usb.thy ===== *)
theory Htool_Usb
  imports Usb Htool_Cmd "HOL-Library.Sublist"
begin

text \<open>
  \<open>examples/htool_usb.c\<close>: listing the roots of trust on the bus, choosing one by its place or its
  name, and opening it. What libusb does beyond the library's use of it is a parameter; the text
  that describes devices is a value, the other messages to the standard error are not modelled.
\<close>

section \<open>Parameters\<close>

text \<open>
  \<open>usb_init\<close> tells whether there is a context after \<open>libusb_init\<close>; \<open>usb_product_string\<close> yields an error
  or at most as many characters as its first argument says; \<open>usb_ref\<close> and \<open>usb_unref\<close> count references.
\<close>

record ('d, 's) htool_libusb =
  base :: "('d, 's) libusb"
  usb_init :: "'s \<Rightarrow> bool \<times> 's"
  usb_product_string :: "'d \<Rightarrow> nat \<Rightarrow> 's \<Rightarrow> (int + string) \<times> 's"
  usb_free_list :: "'d list \<Rightarrow> 's \<Rightarrow> 's"
  usb_ref :: "'d \<Rightarrow> 's \<Rightarrow> 's"
  usb_unref :: "'d \<Rightarrow> 's \<Rightarrow> 's"
  usb_strerror :: "int \<Rightarrow> string"

text \<open>The static variable that holds the context.\<close>

definition htool_libusb_context :: "('d, 's) htool_libusb \<Rightarrow> bool \<Rightarrow> 's \<Rightarrow> bool \<times> 's" where
  "htool_libusb_context env result s = (if result then (True, s) else usb_init env s)"

section \<open>Enumerating devices\<close>

type_synonym ('d, 'c, 's) usb_callback = "'d \<Rightarrow> 'c \<times> 's \<Rightarrow> 'c \<times> 's"

fun enumerate_loop :: "('d, 's) htool_libusb \<Rightarrow> ('d, 'c, 's) usb_callback \<Rightarrow> 'd list \<Rightarrow> 'c \<times> 's \<Rightarrow> 'c \<times> 's" where
  "enumerate_loop env callback [] p = p"
| "enumerate_loop env callback (d # ds) p =
    (let ((rv, vendor, product), s) = usb_device_ids (base env) d (snd p)
     in enumerate_loop env callback ds
          (if rv \<noteq> LIBUSB_SUCCESS then (fst p, s)
           else if \<not> libhoth_device_is_hoth vendor product then (fst p, s)
           else callback d (fst p, s)))"

definition enumerate_devices ::
  "('d, 's) htool_libusb \<Rightarrow> ('d, 'c, 's) usb_callback \<Rightarrow> 'c \<times> 's \<Rightarrow> int \<times> 'c \<times> 's" where
  "enumerate_devices env callback p =
    (case usb_device_list (base env) (snd p) of
       (Inl _, s) \<Rightarrow> (1, fst p, s)
     | (Inr ds, s) \<Rightarrow>
         (let (c, s) = enumerate_loop env callback ds (fst p, s) in (0, c, usb_free_list env ds s)))"

fun print_ports :: "bytes \<Rightarrow> string" where
  "print_ports [] = []"
| "print_ports [p] = dec_nat (unat p)"
| "print_ports (p # ps) = dec_nat (unat p) @ ''.'' @ print_ports ps"

definition print_usb_loc :: "libhoth_usb_loc \<Rightarrow> string" where
  "print_usb_loc l = dec_nat (unat (bus l)) @ ''-'' @ print_ports (ports l)"

text \<open>The place, and whether the device could be opened and told its name.\<close>

definition print_device :: "('d, 's) htool_libusb \<Rightarrow> ('d, string, 's) usb_callback" where
  "print_device env dev p =
    (let place = (case libhoth_get_usb_loc (base env) (Some dev) of
           Inl rv \<Rightarrow> '' (unable to get usb_loc: '' @ usb_strerror env rv @ '')''
         | Inr l \<Rightarrow> ''--usb_loc '' @ print_usb_loc l);
         (rv, s) = usb_open_device (base env) dev (snd p)
     in if rv \<noteq> LIBUSB_SUCCESS
        then (fst p @ ''  '' @ place @ '' (unable to open device: '' @ usb_strerror env rv @ '')'' @ [CHR 0x0A], s)
        else
          let (name, s) = usb_product_string env dev 512 s;
              told = (case name of
                  Inl rv \<Rightarrow> '' (unable to get product string: '' @ usb_strerror env rv @ '')''
                | Inr product_name \<Rightarrow> '' - '' @ takeWhile (\<lambda>c. c \<noteq> CHR 0x00) product_name)
          in (fst p @ ''  '' @ place @ told @ [CHR 0x0A], usb_close_device (base env) s))"

section \<open>Choosing a device\<close>

record 'd select_device_cb_param =
  match_count :: nat
  first_match :: "'d option"
  print_matches :: bool
  printed :: string

type_synonym ('d, 's) usb_filter = "'d \<Rightarrow> 's \<Rightarrow> bool \<times> 's"

definition select_device_cb ::
  "('d, 's) htool_libusb \<Rightarrow> ('d, 's) usb_filter \<Rightarrow> ('d, 'd select_device_cb_param, 's) usb_callback" where
  "select_device_cb env f dev p =
    (let (found, s) = f dev (snd p)
     in if \<not> found then (fst p, s)
        else
          let param = (fst p)\<lparr>match_count := match_count (fst p) + 1\<rparr>;
              (param, s) = (if first_match param = None then (param\<lparr>first_match := Some dev\<rparr>, usb_ref env dev s) else (param, s))
          in if print_matches param
             then (let (out, s) = print_device env dev (printed param, s) in (param\<lparr>printed := out\<rparr>, s))
             else (param, s))"

text \<open>The result, and the devices that are printed if several match.\<close>

definition select_device ::
  "('d, 's) htool_libusb \<Rightarrow> ('d, 's) usb_filter \<Rightarrow> 's \<Rightarrow> ('d option \<times> string) \<times> 's" where
  "select_device env f s =
    (let (rv, param, s) = enumerate_devices env (select_device_cb env f)
           (\<lparr>match_count = 0, first_match = None, print_matches = False, printed = []\<rparr>, s)
     in if rv \<noteq> 0 then ((None, []), s)
        else if match_count param = 0 then ((None, []), s)
        else if 1 < match_count param then
          let (_, param, s) = enumerate_devices env (select_device_cb env f) (param\<lparr>print_matches := True\<rparr>, s)
          in ((None, printed param), (case first_match param of Some d \<Rightarrow> usb_unref env d s | None \<Rightarrow> s))
        else ((first_match param, []), s))"

section \<open>The place of a device\<close>

definition LIBHOTH_NUM_PORTS :: nat where "LIBHOTH_NUM_PORTS = 16"

definition is_digit :: "char \<Rightarrow> bool" where
  "is_digit c \<longleftrightarrow> 48 \<le> (of_char c :: nat) \<and> (of_char c :: nat) \<le> 57"

fun u8_loop :: "nat \<Rightarrow> string \<Rightarrow> (nat \<times> string) option" where
  "u8_loop acc [] = Some (acc, [])"
| "u8_loop acc (c # s) =
    (if is_digit c then
       (let v = acc * 10 + (of_char c - 48) in if 255 < v then None else u8_loop v s)
     else Some (acc, c # s))"

definition expect_u8 :: "string \<Rightarrow> (u8 \<times> string) option" where
  "expect_u8 s =
    (if s = [] \<or> \<not> is_digit (hd s) then None
     else map_option (\<lambda>(v, rest). (word_of_nat v, rest)) (u8_loop 0 s))"

text \<open>\<open>n\<close> is the number of ports that fit into the array yet.\<close>

fun parse_ports :: "nat \<Rightarrow> string \<Rightarrow> bytes option" where
  "parse_ports 0 s = None"
| "parse_ports (Suc n) s =
    (case expect_u8 s of
       None \<Rightarrow> None
     | Some (port, []) \<Rightarrow> Some [port]
     | Some (port, c # s) \<Rightarrow> if c \<noteq> CHR ''.'' then None else map_option ((#) port) (parse_ports n s))"

definition parse_usb_loc :: "string \<Rightarrow> libhoth_usb_loc option" where
  "parse_usb_loc s =
    (case expect_u8 s of
       None \<Rightarrow> None
     | Some (b, []) \<Rightarrow> None
     | Some (b, c # s) \<Rightarrow>
         if c \<noteq> CHR ''-'' then None
         else map_option (\<lambda>ps. \<lparr>bus = b, ports = ps\<rparr>) (parse_ports LIBHOTH_NUM_PORTS s))"

definition filter_by_usb_loc :: "('d, 's) htool_libusb \<Rightarrow> libhoth_usb_loc \<Rightarrow> ('d, 's) usb_filter" where
  "filter_by_usb_loc env desired_loc dev s =
    (case libhoth_get_usb_loc (base env) (Some dev) of
       Inl _ \<Rightarrow> (False, s)
     | Inr device_loc \<Rightarrow>
         if bus device_loc \<noteq> bus desired_loc \<or> length (ports device_loc) \<noteq> length (ports desired_loc) \<or>
            LIBHOTH_NUM_PORTS < length (ports device_loc)
         then (False, s)
         else (ports device_loc = ports desired_loc, s))"

text \<open>The name is a zero-terminated string; the device stays open when it could tell its name.\<close>

definition filter_by_usb_product_substr :: "('d, 's) htool_libusb \<Rightarrow> string \<Rightarrow> ('d, 's) usb_filter" where
  "filter_by_usb_product_substr env usb_product_substr dev s =
    (let (rv, s) = usb_open_device (base env) dev s
     in if rv \<noteq> LIBUSB_SUCCESS then (False, s)
        else
          (case usb_product_string env dev 511 s of
             (Inl _, s) \<Rightarrow> (False, usb_close_device (base env) s)
           | (Inr product_name, s) \<Rightarrow> (sublist usb_product_substr (takeWhile (\<lambda>c. c \<noteq> CHR 0x00) product_name), s)))"

definition filter_allow_all :: "('d, 's) usb_filter" where
  "filter_allow_all dev s = (True, s)"

section \<open>The device that the flags choose\<close>

text \<open>The static variable of this function is never set. \<open>ctx\<close> is the one of \<open>htool_libusb_context\<close>.\<close>

definition htool_libusb_device ::
  "('d, 's) htool_libusb \<Rightarrow> htool_invocation \<Rightarrow> bool \<Rightarrow> 's \<Rightarrow> ('d option \<times> string) \<times> 's" where
  "htool_libusb_device env flags ctx s =
    (let (ctx, s) = htool_libusb_context env ctx s
     in if \<not> ctx then ((None, []), s)
        else
          (case (htool_get_param_string flags ''usb_loc'', htool_get_param_string flags ''usb_product'') of
             (Inr usb_loc_str, Inr usb_product_substr) \<Rightarrow>
               if usb_loc_str \<noteq> [] then
                 (case parse_usb_loc usb_loc_str of
                    None \<Rightarrow> ((None, []), s)
                  | Some usb_loc \<Rightarrow> select_device env (filter_by_usb_loc env usb_loc) s)
               else if usb_product_substr \<noteq> [] then
                 select_device env (filter_by_usb_product_substr env usb_product_substr) s
               else select_device env filter_allow_all s
           | _ \<Rightarrow> ((None, []), s)))"

text \<open>The time in microseconds is kept in 64 bits and becomes 32 bits in the options.\<close>

definition connect_timeout_us :: "htool_invocation \<Rightarrow> u32 option" where
  "connect_timeout_us flags =
    (case htool_get_param_string flags ''connect_timeout'' of
       Inl _ \<Rightarrow> None
     | Inr timeout_str \<Rightarrow>
         (let timeout_us = parse_time_string_us (Some timeout_str)
          in if timeout_us < 0 then None else Some (word_of_int timeout_us)))"

text \<open>\<open>None\<close> is the exit of the process without a clock and an opening that never returns.\<close>

definition htool_libhoth_usb_device ::
  "('d, 's) htool_libusb \<Rightarrow> htool_invocation \<Rightarrow> bool \<Rightarrow> 's \<Rightarrow> (libhoth_usb_device option \<times> 's) option" where
  "htool_libhoth_usb_device env flags ctx s =
    (let (ctx, s) = htool_libusb_context env ctx s;
         ((usb_dev, _), s) = htool_libusb_device env flags ctx s
     in if \<not> ctx \<or> usb_dev = None then Some (None, s)
        else
          (case connect_timeout_us flags of
             None \<Rightarrow> Some (None, s)
           | Some timeout_us \<Rightarrow>
               (let (ts, s) = usb_clock (base env) s
                in case libhoth_prng_seed ts (usb_getpid (base env)) of
                     None \<Rightarrow> None
                   | Some seed \<Rightarrow>
                       (case libhoth_usb_open (base env)
                          (Some \<lparr>opt_usb_device = usb_dev, opt_usb_ctx = ctx, opt_prng_seed = seed, opt_timeout_us = timeout_us\<rparr>)
                          True s of
                          None \<Rightarrow> None
                        | Some (rv, dev, s) \<Rightarrow> Some (if rv \<noteq> HOTH_SUCCESS then None else dev, s)))))"

definition htool_usb_print_devices :: "('d, 's) htool_libusb \<Rightarrow> bool \<Rightarrow> 's \<Rightarrow> (int \<times> string) \<times> 's" where
  "htool_usb_print_devices env ctx s =
    (let (ctx, s) = htool_libusb_context env ctx s
     in if \<not> ctx then ((1, []), s)
        else let (rv, out, s) = enumerate_devices env (print_device env) ([], s) in ((rv, out), s))"

section \<open>Numbers\<close>

definition decimal_from :: "nat \<Rightarrow> string \<Rightarrow> nat" where
  "decimal_from v ds = foldl (\<lambda>v c. v * 10 + (of_char c - 48)) v ds"

definition u8_text :: "string \<Rightarrow> bool" where
  "u8_text t \<longleftrightarrow> t \<noteq> [] \<and> list_all is_digit t \<and> decimal_from 0 t \<le> 255"

definition u8_of :: "string \<Rightarrow> u8" where
  "u8_of t = word_of_nat (decimal_from 0 t)"

lemma decimal_from_simps [simp]: "decimal_from v [] = v" "decimal_from v (c # ds) = decimal_from (v * 10 + (of_char c - 48)) ds"
  by (simp_all add: decimal_from_def)

lemma decimal_from_ge: "v \<le> decimal_from v ds"
proof (induction ds arbitrary: v)
  case (Cons c ds)
  from Cons [of "v * 10 + (of_char c - 48)"] show ?case by simp
qed simp

lemma u8_loop_value:
  "v \<le> 255 \<Longrightarrow> u8_loop v s =
    (if decimal_from v (takeWhile is_digit s) \<le> 255
     then Some (decimal_from v (takeWhile is_digit s), dropWhile is_digit s) else None)"
proof (induction s arbitrary: v)
  case (Cons c s)
  show ?case
    using Cons decimal_from_ge [of "v * 10 + (of_char c - 48)" "takeWhile is_digit s"] by (auto simp: Let_def)
qed simp

lemma expect_u8_iff:
  "expect_u8 s = Some (b, rest) \<longleftrightarrow>
    (\<exists>t. s = t @ rest \<and> u8_text t \<and> b = u8_of t \<and> (rest = [] \<or> \<not> is_digit (hd rest)))"
proof
  assume e: "expect_u8 s = Some (b, rest)"
  then have "s \<noteq> []" "is_digit (hd s)" by (auto simp: expect_u8_def split: if_splits)
  then have "takeWhile is_digit s \<noteq> []" by (cases s) auto
  moreover have "decimal_from 0 (takeWhile is_digit s) \<le> 255" "b = u8_of (takeWhile is_digit s)" "rest = dropWhile is_digit s"
    using e by (auto simp: expect_u8_def u8_loop_value u8_of_def split: if_splits)
  ultimately show "\<exists>t. s = t @ rest \<and> u8_text t \<and> b = u8_of t \<and> (rest = [] \<or> \<not> is_digit (hd rest))"
    using hd_dropWhile [of is_digit s] by (intro exI [of _ "takeWhile is_digit s"])
      (auto simp: u8_text_def list_all_iff dropWhile_eq_Nil_conv simp del: hd_dropWhile dest: set_takeWhileD)
next
  assume "\<exists>t. s = t @ rest \<and> u8_text t \<and> b = u8_of t \<and> (rest = [] \<or> \<not> is_digit (hd rest))"
  then obtain t where t: "s = t @ rest" "u8_text t" "b = u8_of t" "rest = [] \<or> \<not> is_digit (hd rest)" by blast
  then have "takeWhile is_digit s = t" "dropWhile is_digit s = rest"
    by (cases rest; simp add: u8_text_def list_all_iff)+
  moreover have "s \<noteq> []" "is_digit (hd s)" using t by (cases t; simp add: u8_text_def)+
  ultimately show "expect_u8 s = Some (b, rest)" using t by (simp add: expect_u8_def u8_loop_value u8_text_def u8_of_def)
qed

lemma no_digits [simp]: "\<not> is_digit (CHR ''.'')" "\<not> is_digit (CHR ''-'')"
  by code_simp+

section \<open>The text of a place\<close>

fun dotted :: "string list \<Rightarrow> string" where
  "dotted [] = []"
| "dotted [t] = t"
| "dotted (t # ts) = t @ ''.'' @ dotted ts"

lemma parse_ports_iff:
  "parse_ports n s = Some ps \<longleftrightarrow>
    (\<exists>ts. s = dotted ts \<and> ts \<noteq> [] \<and> length ts \<le> n \<and> list_all u8_text ts \<and> ps = map u8_of ts)"
proof (induction n arbitrary: s ps)
  case (Suc n)
  show ?case (is "?l \<longleftrightarrow> ?r")
  proof
    assume ?l
    then obtain port rest where e: "expect_u8 s = Some (port, rest)" by (cases "expect_u8 s") auto
    then obtain t where t: "s = t @ rest" "u8_text t" "port = u8_of t" by (auto simp: expect_u8_iff)
    show ?r
    proof (cases rest)
      case Nil
      with \<open>?l\<close> e t show ?thesis by (intro exI [of _ "[t]"]) simp
    next
      case (Cons c rest')
      with \<open>?l\<close> e obtain qs where q: "c = CHR ''.''" "parse_ports n rest' = Some qs" "ps = port # qs"
        by (auto split: if_splits)
      from q(2) Suc obtain ts where ts: "rest' = dotted ts" "ts \<noteq> []" "length ts \<le> n" "list_all u8_text ts" "qs = map u8_of ts"
        by blast
      with t q Cons have "s = dotted (t # ts)" by (cases ts) simp_all
      with t q ts show ?thesis by (intro exI [of _ "t # ts"]) simp
    qed
  next
    assume ?r
    then obtain ts where ts: "s = dotted ts" "ts \<noteq> []" "length ts \<le> Suc n" "list_all u8_text ts" "ps = map u8_of ts" by blast
    then obtain t us where u: "ts = t # us" by (cases ts) auto
    show ?l
    proof (cases us)
      case Nil
      with ts u have "expect_u8 s = Some (u8_of t, [])" by (auto simp: expect_u8_iff)
      with ts u Nil show ?thesis by simp
    next
      case (Cons v vs)
      with ts u have "expect_u8 s = Some (u8_of t, CHR ''.'' # dotted us)" by (auto simp: expect_u8_iff)
      moreover have "parse_ports n (dotted us) = Some (map u8_of us)" using Suc ts u Cons by auto
      ultimately show ?thesis using ts u by simp
    qed
  qed
qed simp

lemma decimal_from_append: "decimal_from v (a @ b) = decimal_from (decimal_from v a) b"
  by (simp add: decimal_from_def)

lemma dec_nat_text: "list_all is_digit (dec_nat n) \<and> dec_nat n \<noteq> [] \<and> decimal_from 0 (dec_nat n) = n"
proof (induction n rule: dec_nat.induct)
  case (1 n)
  have all: "list_all (\<lambda>k. is_digit (''0123456789'' ! k) \<and> of_char (''0123456789'' ! k) = 48 + k) [0..<10]" by code_simp
  have d: "is_digit (''0123456789'' ! k)" "of_char (''0123456789'' ! k) = 48 + k" if "k < 10" for k
    using all that by (simp_all add: list_all_iff del: upt_rec_numeral)
  show ?case
  proof (cases "n < 10")
    case True
    with d [of n] show ?thesis by (subst (1 2 3) dec_nat.simps) simp
  next
    case False
    with 1 d [of "n mod 10"] show ?thesis by (subst (1 2 3) dec_nat.simps) (simp add: decimal_from_append)
  qed
qed

lemma dec_byte: "u8_text (dec_nat (unat b))" "u8_of (dec_nat (unat (b :: u8))) = b"
  using dec_nat_text [of "unat b"] unat_u8_less [of b] by (auto simp: u8_text_def u8_of_def less_Suc_eq_le [symmetric] simp del: unat_u8_less)

lemma print_ports_dotted: "print_ports ps = dotted (map (\<lambda>p. dec_nat (unat p)) ps)"
  by (induction ps rule: print_ports.induct) simp_all

section \<open>Choosing among devices\<close>

text \<open>A bus whose devices do not change: the list of the devices, and their vendors and products.\<close>

definition steady_bus :: "('d, 's) htool_libusb \<Rightarrow> 'd list \<Rightarrow> ('d \<Rightarrow> int \<times> u16 \<times> u16) \<Rightarrow> bool" where
  "steady_bus env ds ids \<longleftrightarrow>
    (\<forall>s. \<exists>s'. usb_device_list (base env) s = (Inr ds, s')) \<and> (\<forall>d s. \<exists>s'. usb_device_ids (base env) d s = (ids d, s'))"

definition is_rot :: "int \<times> u16 \<times> u16 \<Rightarrow> bool" where
  "is_rot i \<longleftrightarrow> (case i of (rv, vendor, product) \<Rightarrow> rv = LIBUSB_SUCCESS \<and> libhoth_device_is_hoth vendor product)"

text \<open>The answer of a filter does not depend on the state.\<close>

definition decides :: "('d, 's) usb_filter \<Rightarrow> ('d \<Rightarrow> bool) \<Rightarrow> bool" where
  "decides f P \<longleftrightarrow> (\<forall>d s. fst (f d s) = P d)"

fun the_only :: "'a list \<Rightarrow> 'a option" where
  "the_only [x] = Some x"
| "the_only _ = None"

lemma select_cb:
  assumes "decides f P"
  shows "match_count (fst (select_device_cb env f d p)) = match_count (fst p) + (if P d then 1 else 0)"
    and "first_match (fst (select_device_cb env f d p)) =
      (if P d \<and> first_match (fst p) = None then Some d else first_match (fst p))"
proof -
  have "fst (f d (snd p)) = P d" using assms unfolding decides_def by blast
  then obtain s where f: "f d (snd p) = (P d, s)" by (cases "f d (snd p)") simp
  show "match_count (fst (select_device_cb env f d p)) = match_count (fst p) + (if P d then 1 else 0)"
    "first_match (fst (select_device_cb env f d p)) = (if P d \<and> first_match (fst p) = None then Some d else first_match (fst p))"
    by (simp_all add: select_device_cb_def f Let_def split: prod.split)
qed

lemma enumerate_select:
  assumes "decides f P" "steady_bus env es ids"
  shows "match_count (fst (enumerate_loop env (select_device_cb env f) ds p)) =
      match_count (fst p) + length (filter (\<lambda>d. is_rot (ids d) \<and> P d) ds) \<and>
    first_match (fst (enumerate_loop env (select_device_cb env f) ds p)) =
      (case first_match (fst p) of Some d \<Rightarrow> Some d
       | None \<Rightarrow> (case filter (\<lambda>d. is_rot (ids d) \<and> P d) ds of [] \<Rightarrow> None | d # _ \<Rightarrow> Some d))"
proof (induction ds arbitrary: p)
  case (Cons d ds)
  obtain s where s: "usb_device_ids (base env) d (snd p) = (ids d, s)" using assms(2) unfolding steady_bus_def by blast
  obtain rv vendor product where i: "ids d = (rv, vendor, product)" by (cases "ids d") auto
  show ?case
    using Cons.IH by (simp add: s i is_rot_def select_cb [OF assms(1)] split: option.split)
qed (simp split: option.split)

lemma select_device_only:
  assumes "decides f P" "steady_bus env ds ids"
  shows "fst (fst (select_device env f s)) = the_only (filter (\<lambda>d. is_rot (ids d) \<and> P d) ds)"
proof -
  obtain s' where l: "usb_device_list (base env) s = (Inr ds, s')" using assms(2) unfolding steady_bus_def by blast
  define r where "r = enumerate_loop env (select_device_cb env f) ds
    (\<lparr>match_count = 0, first_match = None, print_matches = False, printed = []\<rparr>, s')"
  have "match_count (fst r) = length (filter (\<lambda>d. is_rot (ids d) \<and> P d) ds) \<and>
    first_match (fst r) = (case filter (\<lambda>d. is_rot (ids d) \<and> P d) ds of [] \<Rightarrow> None | d # _ \<Rightarrow> Some d)"
    using enumerate_select [OF assms] by (simp add: r_def)
  moreover have "enumerate_devices env (select_device_cb env f)
    (\<lparr>match_count = 0, first_match = None, print_matches = False, printed = []\<rparr>, s) = (0, fst r, usb_free_list env ds (snd r))"
    by (simp add: enumerate_devices_def l r_def split_beta)
  ultimately show ?thesis
    by (cases "filter (\<lambda>d. is_rot (ids d) \<and> P d) ds" rule: the_only.cases) (simp_all add: select_device_def split_beta)
qed

lemma filter_by_usb_loc_decides:
  "length (ports l) \<le> 16 \<Longrightarrow> decides (filter_by_usb_loc env l) (\<lambda>d. libhoth_get_usb_loc (base env) (Some d) = Inr l)"
  by (auto simp: decides_def filter_by_usb_loc_def LIBHOTH_NUM_PORTS_def split: sum.split)

lemma parse_usb_loc_iff:
  "parse_usb_loc s = Some l \<longleftrightarrow>
    (\<exists>t ts. s = t @ ''-'' @ dotted ts \<and> ts \<noteq> [] \<and> length ts \<le> 16 \<and> list_all u8_text (t # ts) \<and>
      l = \<lparr>bus = u8_of t, ports = map u8_of ts\<rparr>)" (is "?l \<longleftrightarrow> ?r")
proof
  assume ?l
  then obtain b c rest where e: "expect_u8 s = Some (b, c # rest)"
    by (auto simp: parse_usb_loc_def split: option.splits prod.splits list.splits)
  with \<open>?l\<close> obtain ps where p: "c = CHR ''-''" "parse_ports 16 rest = Some ps" "l = \<lparr>bus = b, ports = ps\<rparr>"
    by (auto simp: parse_usb_loc_def LIBHOTH_NUM_PORTS_def split: if_splits)
  from e p(1) obtain t where t: "s = t @ CHR ''-'' # rest" "u8_text t" "b = u8_of t" by (auto simp: expect_u8_iff)
  from p(2) obtain ts where "rest = dotted ts" "ts \<noteq> []" "length ts \<le> 16" "list_all u8_text ts" "ps = map u8_of ts"
    by (auto simp: parse_ports_iff)
  with t p(3) show ?r by (intro exI [of _ t] exI [of _ ts]) simp
next
  assume ?r
  then obtain t ts where t: "s = t @ ''-'' @ dotted ts" "ts \<noteq> []" "length ts \<le> 16" "list_all u8_text (t # ts)"
    "l = \<lparr>bus = u8_of t, ports = map u8_of ts\<rparr>" by blast
  then have "expect_u8 s = Some (u8_of t, CHR ''-'' # dotted ts)" by (auto simp: expect_u8_iff)
  moreover have "parse_ports 16 (dotted ts) = Some (map u8_of ts)" using t by (auto simp: parse_ports_iff)
  ultimately show ?l using t by (simp add: parse_usb_loc_def LIBHOTH_NUM_PORTS_def)
qed

lemma parse_print_usb_loc:
  assumes "ports l \<noteq> []" "length (ports l) \<le> 16"
  shows "parse_usb_loc (print_usb_loc l) = Some l"
  unfolding parse_usb_loc_iff
  by (rule exI [of _ "dec_nat (unat (bus l))"], rule exI [of _ "map (\<lambda>p. dec_nat (unat p)) (ports l)"])
     (use assms in \<open>simp add: print_usb_loc_def print_ports_dotted dec_byte list_all_iff o_def\<close>)

section \<open>Properties\<close>

text \<open>
  C30: a place is accepted exactly if it is a number, a hyphen and from 1 to 16 numbers with dots
  between them, all of digits only and at most 255, and it is then the place with these numbers. The
  text with which a device is listed is one of them, and is read back as the place of the device.
\<close>

theorem usb_loc_iff:
  "(parse_usb_loc s = Some l \<longleftrightarrow>
    (\<exists>t ts. s = t @ ''-'' @ dotted ts \<and> ts \<noteq> [] \<and> length ts \<le> 16 \<and> list_all u8_text (t # ts) \<and>
      l = \<lparr>bus = u8_of t, ports = map u8_of ts\<rparr>)) \<and>
   (1 \<le> length (ports k) \<and> length (ports k) \<le> 16 \<longrightarrow> parse_usb_loc (print_usb_loc k) = Some k)"
  using parse_usb_loc_iff parse_print_usb_loc by (metis list.size(3) not_one_le_zero)

theorem usb_loc_iff_witness:
  "parse_usb_loc (print_usb_loc \<lparr>bus = 3, ports = [1, 255]\<rparr>) = Some \<lparr>bus = 3, ports = [1, 255]\<rparr>"
  using usb_loc_iff [of "[]" "\<lparr>bus = 0, ports = []\<rparr>" "\<lparr>bus = 3, ports = [1, 255]\<rparr>"] by simp

text \<open>
  The product names of the devices, without what may follow a zero byte; \<open>None\<close> for a device that
  cannot be opened or cannot tell its name.
\<close>

definition product_names :: "('d, 's) htool_libusb \<Rightarrow> ('d \<Rightarrow> string option) \<Rightarrow> bool" where
  "product_names env names \<longleftrightarrow>
    (\<forall>d s. let (rv, s') = usb_open_device (base env) d s; answer = fst (usb_product_string env d 511 s') in
      case names d of
        None \<Rightarrow> rv \<noteq> LIBUSB_SUCCESS \<or> (\<exists>e. answer = Inl e)
      | Some n \<Rightarrow> rv = LIBUSB_SUCCESS \<and> CHR 0x00 \<notin> set n \<and>
          (answer = Inr n \<or> (\<exists>rest. answer = Inr (n @ CHR 0x00 # rest))))"

lemma product_substr_decides:
  assumes "product_names env names"
  shows "decides (filter_by_usb_product_substr env part) (\<lambda>d. \<exists>u v. names d = Some (u @ part @ v))"
proof -
  have "fst (filter_by_usb_product_substr env part d s) \<longleftrightarrow> (\<exists>u v. names d = Some (u @ part @ v))" for d s
  proof -
    obtain rv s' where o: "usb_open_device (base env) d s = (rv, s')" by (cases "usb_open_device (base env) d s")
    obtain answer s'' where a: "usb_product_string env d 511 s' = (answer, s'')" by (cases "usb_product_string env d 511 s'")
    have p: "case names d of None \<Rightarrow> rv \<noteq> LIBUSB_SUCCESS \<or> (\<exists>e. answer = Inl e)
      | Some n \<Rightarrow> rv = LIBUSB_SUCCESS \<and> CHR 0x00 \<notin> set n \<and> (answer = Inr n \<or> (\<exists>rest. answer = Inr (n @ CHR 0x00 # rest)))"
      using assms [unfolded product_names_def, THEN spec, of d, THEN spec, of s] by (simp add: o a)
    show ?thesis
    proof (cases "names d")
      case None
      then show ?thesis using p by (auto simp: filter_by_usb_product_substr_def o a)
    next
      case (Some n)
      then have n: "rv = LIBUSB_SUCCESS" "CHR 0x00 \<notin> set n"
        "answer = Inr n \<or> (\<exists>rest. answer = Inr (n @ CHR 0x00 # rest))" using p by simp_all
      have t: "takeWhile (\<lambda>c. c \<noteq> CHR 0x00) (n @ ys) = n @ takeWhile (\<lambda>c. c \<noteq> CHR 0x00) ys" for ys
        by (rule takeWhile_append2) (use n(2) in auto)
      obtain name where "answer = Inr name" "takeWhile (\<lambda>c. c \<noteq> CHR 0x00) name = n"
        using n(3)
      proof (elim disjE exE)
        fix rest assume "answer = Inr (n @ CHR 0x00 # rest)"
        moreover have "takeWhile (\<lambda>c. c \<noteq> CHR 0x00) (n @ CHR 0x00 # rest) = n" by (subst t) simp
        ultimately show ?thesis by (rule that)
      next
        assume "answer = Inr n"
        moreover have "takeWhile (\<lambda>c. c \<noteq> CHR 0x00) n = n" using t [of "[]"] by simp
        ultimately show ?thesis by (rule that)
      qed
      then show ?thesis using Some n(1)
        by (simp add: filter_by_usb_product_substr_def o a sublist_def)
    qed
  qed
  then show ?thesis by (simp add: decides_def)
qed

text \<open>
  C20: with a place on the command line, the only root of trust at this place is chosen, and none if
  there are several or none; a device that is no root of trust is never chosen. So is with a part of a
  name the only one that tells a product name with this part in it, and without either the only one on
  the bus. The place that is listed for a root of trust chooses it.
\<close>

theorem usb_device_chosen:
  assumes "steady_bus env ds ids" "ctx \<or> (\<exists>s'. usb_init env s = (True, s'))"
    and "htool_get_param_string flags ''usb_loc'' = Inr text" "htool_get_param_string flags ''usb_product'' = Inr part"
    and "product_names env names"
  shows "fst (fst (htool_libusb_device env flags ctx s)) =
      (if text \<noteq> [] then
         (case parse_usb_loc text of None \<Rightarrow> None
          | Some l \<Rightarrow> the_only (filter (\<lambda>d. is_rot (ids d) \<and> libhoth_get_usb_loc (base env) (Some d) = Inr l) ds))
       else if part \<noteq> [] then the_only (filter (\<lambda>d. is_rot (ids d) \<and> (\<exists>u v. names d = Some (u @ part @ v))) ds)
       else the_only (filter (\<lambda>d. is_rot (ids d)) ds)) \<and>
    (libhoth_get_usb_loc (base env) (Some d) = Inr k \<and> 1 \<le> length (ports k) \<and> length (ports k) \<le> 16 \<and>
      text = print_usb_loc k \<and>
      filter (\<lambda>e. is_rot (ids e) \<and> libhoth_get_usb_loc (base env) (Some e) = Inr k) ds = [d] \<longrightarrow>
      fst (fst (htool_libusb_device env flags ctx s)) = Some d)"
proof -
  have "\<exists>s'. htool_libusb_context env ctx s = (True, s')"
    using assms(2) by (cases ctx) (simp_all add: htool_libusb_context_def)
  then obtain s' where ctx: "htool_libusb_context env ctx s = (True, s')" by (elim exE)
  have all: "decides filter_allow_all (\<lambda>_. True)" by (simp add: decides_def filter_allow_all_def)
  have bound: "length (ports l) \<le> 16" if "parse_usb_loc text = Some l" for l using that by (auto simp: parse_usb_loc_iff)
  define named where "named = (\<lambda>d. \<exists>u v. names d = Some (u @ part @ v))"
  have part: "decides (filter_by_usb_product_substr env part) named"
    unfolding named_def by (rule product_substr_decides [OF assms(5)])
  have chosen: "fst (fst (htool_libusb_device env flags ctx s)) =
      (if text \<noteq> [] then
         (case parse_usb_loc text of None \<Rightarrow> None
          | Some l \<Rightarrow> the_only (filter (\<lambda>d. is_rot (ids d) \<and> libhoth_get_usb_loc (base env) (Some d) = Inr l) ds))
       else if part \<noteq> [] then the_only (filter (\<lambda>d. is_rot (ids d) \<and> named d) ds)
       else the_only (filter (\<lambda>d. is_rot (ids d)) ds))"
    using select_device_only [OF part assms(1), of s'] select_device_only [OF all assms(1), of s']
      select_device_only [OF filter_by_usb_loc_decides [OF bound] assms(1), of _ _ s']
    by (simp add: htool_libusb_device_def ctx assms(3,4) split: option.split)
  have "fst (fst (htool_libusb_device env flags ctx s)) = Some d"
    if "1 \<le> length (ports k)" "length (ports k) \<le> 16" "text = print_usb_loc k"
      "filter (\<lambda>e. is_rot (ids e) \<and> libhoth_get_usb_loc (base env) (Some e) = Inr k) ds = [d]"
  proof -
    have "parse_usb_loc text = Some k" using parse_print_usb_loc [of k] that by fastforce
    moreover have "text \<noteq> []" using that by (simp add: print_usb_loc_def)
    ultimately show ?thesis using chosen that(4) by simp
  qed
  with chosen show ?thesis by (simp add: named_def)
qed

text \<open>A bus with three devices, one of which is no root of trust; two are at the same place of two buses.\<close>

definition three_devices :: "(nat, nat) htool_libusb" where
  "three_devices = \<lparr>base = \<lparr>usb_bulk = \<lparr>bulk_out = (\<lambda>_ _ _ s. ((0, 0), s)), bulk_in = (\<lambda>_ _ _ s. ((0, []), s))\<rparr>,
     usb_async = \<lparr>submit_in = (\<lambda>_ _ _ s. (0, s)), submit_out = (\<lambda>_ _ _ s. (0, s)), cancel = (\<lambda>_ s. s),
       handle_events = (\<lambda>s. ((0, None), s)), clear_halt = (\<lambda>_ s. (0, s)), alloc = (\<lambda>s. (True, s))\<rparr>,
     usb_device_ids = (\<lambda>d s. ((0, HOTH_VENDOR_ID, if d = 0 then 1 else HOTH_D_PRODUCT_ID), s)),
     usb_active_config = (\<lambda>_ s. ((0, []), s)), usb_bus_number = (\<lambda>d. if d = 2 then 2 else 1),
     usb_port_numbers = (\<lambda>d. Inr [2, 10]), usb_device_list = (\<lambda>s. (Inr [0, 1, 2], s)),
     usb_open_device = (\<lambda>_ s. (0, s + 1)), usb_close_device = (\<lambda>s. s - 1),
     usb_claim_interface = (\<lambda>_ s. (0, s)), usb_release_interface = (\<lambda>_ s. (0, s)),
     usb_clock = (\<lambda>s. (Some \<lparr>tv_sec = 0, tv_nsec = 0\<rparr>, s)), usb_getpid = 1, usb_sleep = (\<lambda>_ s. s),
     usb_calloc = (\<lambda>s. (True, s)), uninit = (\<lambda>n. replicate n 0)\<rparr>,
   usb_init = (\<lambda>s. (True, s)), usb_product_string = (\<lambda>d _ s. (Inr (if d = 1 then ''Hoth One'' else ''Hoth''), s)),
   usb_free_list = (\<lambda>_ s. s), usb_ref = (\<lambda>_ s. s), usb_unref = (\<lambda>_ s. s), usb_strerror = (\<lambda>_. ''error'')\<rparr>"

definition flag_values :: "(string \<times> string) list \<Rightarrow> htool_invocation" where
  "flag_values kvs = \<lparr>inv_params = map (\<lambda>(k, _). \<lparr>param_type = HTOOL_FLAG_VALUE, param_ch = CHR 0x00, param_name = k,
     default_value = None, param_desc = None\<rparr>) kvs, inv_args = map (Some \<circ> snd) kvs\<rparr>"

theorem usb_device_chosen_witness:
  "fst (fst (htool_libusb_device three_devices (flag_values [(''usb_loc'', ''1-2.10''), (''usb_product'', [])]) False 0)) = Some 1 \<and>
   fst (fst (htool_libusb_device three_devices (flag_values [(''usb_loc'', []), (''usb_product'', ''th O'')]) False 0)) = Some 1 \<and>
   fst (fst (htool_libusb_device three_devices (flag_values [(''usb_loc'', []), (''usb_product'', [])]) False 0)) = None"
proof -
  let ?ids = "\<lambda>d :: nat. (0 :: int, HOTH_VENDOR_ID, if d = 0 then 1 else HOTH_D_PRODUCT_ID)"
  let ?names = "\<lambda>d :: nat. Some (if d = 1 then ''Hoth One'' else ''Hoth'')"
  have bus: "steady_bus three_devices [0, 1, 2] ?ids" by (simp add: steady_bus_def three_devices_def)
  have names: "product_names three_devices ?names"
    by (simp add: product_names_def three_devices_def LIBUSB_SUCCESS_def)
  have init: "False \<or> (\<exists>s'. usb_init three_devices s = (True, s'))" for s by (simp add: three_devices_def)
  have place: "print_usb_loc \<lparr>bus = 1, ports = [2, 10]\<rparr> = ''1-2.10''" by code_simp
  have p: "htool_get_param_string (flag_values [(''usb_loc'', a), (''usb_product'', b)]) ''usb_loc'' = Inr a"
    "htool_get_param_string (flag_values [(''usb_loc'', a), (''usb_product'', b)]) ''usb_product'' = Inr b" for a b
    by (simp_all add: htool_get_param_string_def get_param_required_def get_param_def find_param_by_name_def flag_values_def)
  have rots: "filter (\<lambda>d. is_rot (?ids d) \<and> Q d) [0, 1, 2] = filter Q [1, 2]" for Q
    by (simp add: is_rot_def libhoth_device_is_hoth_def LIBUSB_SUCCESS_def HOTH_VENDOR_ID_def
        HOTH_B_PRODUCT_ID_def HOTH_D_PRODUCT_ID_def HOTH_E_PRODUCT_ID_def)
  note chosen = usb_device_chosen [where s = 0 and d = 1 and k = "\<lparr>bus = 1, ports = [2, 10]\<rparr>", OF bus init p names, unfolded rots]
  have loc: "libhoth_get_usb_loc (base three_devices) (Some d) = Inr \<lparr>bus = if d = 2 then 2 else 1, ports = [2, 10]\<rparr>" for d
    by (simp add: libhoth_get_usb_loc_def three_devices_def)
  have 1: "fst (fst (htool_libusb_device three_devices (flag_values [(''usb_loc'', ''1-2.10''), (''usb_product'', [])]) False 0)) = Some 1"
    by (rule chosen [of "''1-2.10''" "[]", THEN conjunct2, THEN mp]) (simp add: loc place)
  have part: "(\<exists>u v. Some n = Some (u @ part @ v)) \<longleftrightarrow> sublist part n" for n part :: string
    by (auto simp: sublist_def)
  have "filter (\<lambda>d :: nat. sublist ''th O'' (if d = 1 then ''Hoth One'' else ''Hoth'')) [1, 2] = [1]" by code_simp
  with chosen [of "[]" "''th O''", unfolded part]
  have 2: "fst (fst (htool_libusb_device three_devices (flag_values [(''usb_loc'', []), (''usb_product'', ''th O'')]) False 0)) = Some 1"
    by simp
  have "is_rot (?ids 1)" "is_rot (?ids 2)" "\<not> is_rot (?ids 0)" by code_simp+
  with chosen [of "[]" "[]"] have
    "fst (fst (htool_libusb_device three_devices (flag_values [(''usb_loc'', []), (''usb_product'', [])]) False 0)) = None"
    by simp
  with 1 2 show ?thesis by blast
qed

text \<open>A time to connect that does not fit into 32 bits of microseconds is shortened.\<close>

lemma connect_timeout_wraps:
  assumes "htool_get_param_string flags ''connect_timeout'' = Inr (dec_nat n @ ''s'')" "n * 1000000 < 2 ^ 63"
  shows "connect_timeout_us flags = Some (word_of_nat (n * 1000000)) \<and>
    unat (word_of_nat (n * 1000000) :: u32) = n * 1000000 mod 2 ^ 32"
proof -
  have "min n (2 ^ 63 - 1) = n" using assms(2) by simp
  then have "parse_time_string_us (Some (dec_nat n @ ''s'')) = int (n * 1000000)"
    using parse_time_string [of "''s''" 1000000 "[]" n] assms(2) by (simp add: Let_def)
  then have "connect_timeout_us flags = Some (word_of_nat (n * 1000000))"
    using assms by (simp add: connect_timeout_us_def Let_def)
  moreover have "unat (word_of_nat (n * 1000000) :: u32) = n * 1000000 mod 2 ^ 32"
    by (simp only: unat_of_nat len_num1 len_bit0 len_bit1) simp
  ultimately show ?thesis by blast
qed


end
