(* ===== verification/Htool_Control.thy ===== *)
theory Htool_Control
  imports Htool_Authz Rot_Commands
begin

text \<open>
  Commands of \<open>htool\<close> that make one or two calls of the root of trust and print what it answers:
  \<open>htool_target_control.c\<close> with the commands for the multiplexers, the debug port and the USB host on
  top of it, \<open>htool_tpm.c\<close>, \<open>htool_secure_boot.c\<close>, \<open>htool_target_watchdog.c\<close>, \<open>htool_firmware_update.c\<close>
  and \<open>htool_update_session.c\<close>. A command that asks which word called it gets that word.
\<close>

section \<open>Control of functions of the target\<close>

definition HOTH_PRV_CMD_HOTH_TARGET_CONTROL :: u16 where "HOTH_PRV_CMD_HOTH_TARGET_CONTROL = 0x0047"

datatype hoth_target_control_action =
    HOTH_TARGET_CONTROL_ACTION_GET_STATUS
  | HOTH_TARGET_CONTROL_ACTION_DISABLE
  | HOTH_TARGET_CONTROL_ACTION_ENABLE

fun control_action_val :: "hoth_target_control_action \<Rightarrow> u16" where
  "control_action_val HOTH_TARGET_CONTROL_ACTION_GET_STATUS = 0"
| "control_action_val HOTH_TARGET_CONTROL_ACTION_DISABLE = 1"
| "control_action_val HOTH_TARGET_CONTROL_ACTION_ENABLE = 2"

datatype hoth_target_control_function =
    HOTH_TARGET_CONTROL_DEBUG
  | HOTH_TARGET_CONTROL_RESERVED1
  | HOTH_TARGET_CONTROL_I2C_MUX
  | HOTH_TARGET_CONTROL_GENERIC_MUX
  | HOTH_TARGET_DETECT_EXTERNAL_USB_HOST_PRESENCE
  | HOTH_TARGET_CONTROL_SBS_MUX_SINGLE
  | HOTH_TARGET_CONTROL_SBS_MUX_DUAL

fun control_function_val :: "hoth_target_control_function \<Rightarrow> u16" where
  "control_function_val HOTH_TARGET_CONTROL_DEBUG = 0"
| "control_function_val HOTH_TARGET_CONTROL_RESERVED1 = 1"
| "control_function_val HOTH_TARGET_CONTROL_I2C_MUX = 2"
| "control_function_val HOTH_TARGET_CONTROL_GENERIC_MUX = 3"
| "control_function_val HOTH_TARGET_DETECT_EXTERNAL_USB_HOST_PRESENCE = 4"
| "control_function_val HOTH_TARGET_CONTROL_SBS_MUX_SINGLE = 5"
| "control_function_val HOTH_TARGET_CONTROL_SBS_MUX_DUAL = 6"

definition HOTH_TARGET_CONTROL_STATUS_DISABLED :: u16 where "HOTH_TARGET_CONTROL_STATUS_DISABLED = 1"
definition HOTH_TARGET_CONTROL_STATUS_ENABLED :: u16 where "HOTH_TARGET_CONTROL_STATUS_ENABLED = 2"

definition hoth_request_target_control :: "hoth_target_control_function \<Rightarrow> hoth_target_control_action \<Rightarrow> bytes" where
  "hoth_request_target_control function action =
    le_bytes 2 (control_function_val function) @ le_bytes 2 (control_action_val action)"

text \<open>
  The status in the response, which has two bytes of padding; or the return value. The pointer to the
  response is never NULL in the calls. Each call connects, which yields the device of the first time.
\<close>

definition target_control_perform_action ::
  "'d htool_dev \<Rightarrow> hoth_target_control_function \<Rightarrow> hoth_target_control_action \<Rightarrow> 'd \<Rightarrow> (int + u16) \<times> 'd" where
  "target_control_perform_action env function action d =
    (case connect env d of
       (None, d) \<Rightarrow> (Inl (-1), d)
     | (Some dev, d) \<Rightarrow>
         (let ((ret, r), d) = libhoth_hostcmd_exec [] (Some dev) (HOTH_CMD_BOARD_SPECIFIC_BASE + HOTH_PRV_CMD_HOTH_TARGET_CONTROL) 0
                (Some (hoth_request_target_control function action)) 4 4 True d
          in if ret \<noteq> 0 then (Inl (-1), d)
             else
               (case r of
                  None \<Rightarrow> (Inl (-1), d)
                | Some response \<Rightarrow> if length response \<noteq> 4 then (Inl (-1), d) else (Inr (u16_at 0 response), d))))"

definition perform_printing ::
  "'d htool_dev \<Rightarrow> hoth_target_control_function \<Rightarrow> hoth_target_control_action \<Rightarrow> (u16 \<Rightarrow> string) \<Rightarrow> 'd \<Rightarrow> 'd htool_result" where
  "perform_printing env function action text_of d =
    (case target_control_perform_action env function action d of
       (Inl ret, d) \<Rightarrow> ((ret, []), d)
     | (Inr status, d) \<Rightarrow> ((0, text_of status @ newline), d))"

subsection \<open>Multiplexers of the flash\<close>

definition sbs_single_status_str :: "u16 \<Rightarrow> string" where
  "sbs_single_status_str status =
    (if status = HOTH_TARGET_CONTROL_STATUS_DISABLED then ''Flash connected to RoT''
     else if status = HOTH_TARGET_CONTROL_STATUS_ENABLED then ''Flash connected to target''
     else ''Unknown'' @ newline)"

definition sbs_single_perform_action :: "'d htool_dev \<Rightarrow> hoth_target_control_action \<Rightarrow> 'd \<Rightarrow> 'd htool_result" where
  "sbs_single_perform_action env action =
    perform_printing env HOTH_TARGET_CONTROL_SBS_MUX_SINGLE action (\<lambda>st. ''Previous SBS Mux State: '' @ sbs_single_status_str st)"

definition sbs_single_get_status :: "'d htool_dev \<Rightarrow> 'd \<Rightarrow> 'd htool_result" where
  "sbs_single_get_status env =
    perform_printing env HOTH_TARGET_CONTROL_SBS_MUX_SINGLE HOTH_TARGET_CONTROL_ACTION_GET_STATUS sbs_single_status_str"

definition htool_sbs_single_run :: "'d htool_dev \<Rightarrow> string \<Rightarrow> 'd \<Rightarrow> 'd htool_result" where
  "htool_sbs_single_run env subcommand d =
    (if subcommand = ''get'' then sbs_single_get_status env d
     else if subcommand = ''connect_flash_to_rot'' then sbs_single_perform_action env HOTH_TARGET_CONTROL_ACTION_DISABLE d
     else if subcommand = ''connect_flash_to_target'' then sbs_single_perform_action env HOTH_TARGET_CONTROL_ACTION_ENABLE d
     else ((-1, []), d))"

definition sbs_dual_status_str :: "u16 \<Rightarrow> string" where
  "sbs_dual_status_str status =
    (if status = HOTH_TARGET_CONTROL_STATUS_DISABLED then ''Target connected to spi flash 0''
     else if status = HOTH_TARGET_CONTROL_STATUS_ENABLED then ''Target connected to spi flash 1''
     else ''Unknown'' @ newline)"

definition sbs_dual_perform_action :: "'d htool_dev \<Rightarrow> hoth_target_control_action \<Rightarrow> 'd \<Rightarrow> 'd htool_result" where
  "sbs_dual_perform_action env action =
    perform_printing env HOTH_TARGET_CONTROL_SBS_MUX_DUAL action (\<lambda>st. ''Previous SBS Mux State: '' @ sbs_dual_status_str st)"

definition sbs_dual_get_status :: "'d htool_dev \<Rightarrow> 'd \<Rightarrow> 'd htool_result" where
  "sbs_dual_get_status env =
    perform_printing env HOTH_TARGET_CONTROL_SBS_MUX_DUAL HOTH_TARGET_CONTROL_ACTION_GET_STATUS sbs_dual_status_str"

definition htool_sbs_dual_run :: "'d htool_dev \<Rightarrow> string \<Rightarrow> 'd \<Rightarrow> 'd htool_result" where
  "htool_sbs_dual_run env subcommand d =
    (if subcommand = ''get'' then sbs_dual_get_status env d
     else if subcommand = ''connect_target_to_spi_flash_0'' then sbs_dual_perform_action env HOTH_TARGET_CONTROL_ACTION_DISABLE d
     else if subcommand = ''connect_target_to_spi_flash_1'' then sbs_dual_perform_action env HOTH_TARGET_CONTROL_ACTION_ENABLE d
     else ((-1, []), d))"

subsection \<open>The USB multiplexer\<close>

definition rot_usb_muxctrl_status_str_map :: "u16 \<Rightarrow> string" where
  "rot_usb_muxctrl_status_str_map status =
    (if status = HOTH_TARGET_CONTROL_STATUS_ENABLED then ''RoT connected to host''
     else if status = HOTH_TARGET_CONTROL_STATUS_DISABLED then ''RoT connected to front panel''
     else ''Unknown'')"

definition htool_rot_usb_muxctrl_get :: "'d htool_dev \<Rightarrow> 'd \<Rightarrow> 'd htool_result" where
  "htool_rot_usb_muxctrl_get env =
    perform_printing env HOTH_TARGET_CONTROL_GENERIC_MUX HOTH_TARGET_CONTROL_ACTION_GET_STATUS
      (\<lambda>st. ''USB Mux control status: '' @ rot_usb_muxctrl_status_str_map st)"

definition rot_usb_mux_control_change_select :: "'d htool_dev \<Rightarrow> hoth_target_control_action \<Rightarrow> 'd \<Rightarrow> 'd htool_result" where
  "rot_usb_mux_control_change_select env action d =
    (case target_control_perform_action env HOTH_TARGET_CONTROL_GENERIC_MUX action d of
       (Inl ret, d) \<Rightarrow> ((ret, []), d)
     | (Inr old_status, d) \<Rightarrow>
         (case target_control_perform_action env HOTH_TARGET_CONTROL_GENERIC_MUX HOTH_TARGET_CONTROL_ACTION_GET_STATUS d of
            (Inl ret, d) \<Rightarrow> ((ret, []), d)
          | (Inr new_status, d) \<Rightarrow>
              ((0, ''USB Mux control status changed: '' @ rot_usb_muxctrl_status_str_map old_status @ '' -> '' @
                 rot_usb_muxctrl_status_str_map new_status @ newline), d)))"

definition htool_rot_usb_muxctrl_connect_rot_to_host :: "'d htool_dev \<Rightarrow> 'd \<Rightarrow> 'd htool_result" where
  "htool_rot_usb_muxctrl_connect_rot_to_host env = rot_usb_mux_control_change_select env HOTH_TARGET_CONTROL_ACTION_ENABLE"

definition htool_rot_usb_muxctrl_connect_rot_to_front_panel :: "'d htool_dev \<Rightarrow> 'd \<Rightarrow> 'd htool_result" where
  "htool_rot_usb_muxctrl_connect_rot_to_front_panel env = rot_usb_mux_control_change_select env HOTH_TARGET_CONTROL_ACTION_DISABLE"

subsection \<open>Debugging and the external USB host\<close>

definition htool_target_debug_enable :: "'d htool_dev \<Rightarrow> 'd \<Rightarrow> 'd htool_result" where
  "htool_target_debug_enable env =
    perform_printing env HOTH_TARGET_CONTROL_DEBUG HOTH_TARGET_CONTROL_ACTION_ENABLE (\<lambda>_. ''Target debug enabled.'')"

definition htool_target_debug_disable :: "'d htool_dev \<Rightarrow> 'd \<Rightarrow> 'd htool_result" where
  "htool_target_debug_disable env =
    perform_printing env HOTH_TARGET_CONTROL_DEBUG HOTH_TARGET_CONTROL_ACTION_DISABLE (\<lambda>_. ''Target debug disabled.'')"

definition htool_target_debug_get :: "'d htool_dev \<Rightarrow> 'd \<Rightarrow> 'd htool_result" where
  "htool_target_debug_get env =
    perform_printing env HOTH_TARGET_CONTROL_DEBUG HOTH_TARGET_CONTROL_ACTION_GET_STATUS (\<lambda>st. ''Target debug status: '' @
      (if st = HOTH_TARGET_CONTROL_STATUS_ENABLED then ''Enabled''
       else if st = HOTH_TARGET_CONTROL_STATUS_DISABLED then ''Disabled'' else ''Unknown''))"

definition htool_external_usb_host_check_presence :: "'d htool_dev \<Rightarrow> 'd \<Rightarrow> 'd htool_result" where
  "htool_external_usb_host_check_presence env = with_device env (\<lambda>dev d.
    case target_control_perform_action env HOTH_TARGET_DETECT_EXTERNAL_USB_HOST_PRESENCE HOTH_TARGET_CONTROL_ACTION_GET_STATUS d of
      (Inl action_status, d) \<Rightarrow> ((action_status, []), d)
    | (Inr st, d) \<Rightarrow>
        if st = HOTH_TARGET_CONTROL_STATUS_DISABLED then ((0, ''External USB host: Not Present'' @ newline), d)
        else if st = HOTH_TARGET_CONTROL_STATUS_ENABLED then ((0, ''External USB host: Present'' @ newline), d)
        else ((-1, ''External USB host: Presence unknown('' @ dec_nat (unat st) @ '')'' @ newline), d))"

section \<open>Mode of the TPM\<close>

definition HOTH_PRV_CMD_SET_TPM_MODE :: u16 where "HOTH_PRV_CMD_SET_TPM_MODE = 0x0051"
definition HOTH_PRV_CMD_GET_TPM_MODE :: u16 where "HOTH_PRV_CMD_GET_TPM_MODE = 0x0052"
definition HOTH_PRV_CMD_HOTH_TPM :: u16 where "HOTH_PRV_CMD_HOTH_TPM = 0x0033"

datatype ec_tpm_mode = TPM_MODE_DISABLED | TPM_MODE_TPM_SPI | TPM_MODE_SPI_NOR_MAILBOX

fun tpm_mode_val :: "ec_tpm_mode \<Rightarrow> u8" where
  "tpm_mode_val TPM_MODE_DISABLED = 0"
| "tpm_mode_val TPM_MODE_TPM_SPI = 1"
| "tpm_mode_val TPM_MODE_SPI_NOR_MAILBOX = 2"

definition htool_set_tpm_mode :: "'d htool_dev \<Rightarrow> string \<Rightarrow> 'd \<Rightarrow> 'd htool_result" where
  "htool_set_tpm_mode env mode_str = with_device env (\<lambda>dev d.
    case (if mode_str = ''disabled'' then Some TPM_MODE_DISABLED
          else if mode_str = ''tpm_spi'' then Some TPM_MODE_TPM_SPI
          else if mode_str = ''spi_nor_mailbox'' then Some TPM_MODE_SPI_NOR_MAILBOX else None) of
      None \<Rightarrow> ((-1, []), d)
    | Some mode \<Rightarrow>
        (let ((status, _), d) = libhoth_hostcmd_exec [] (Some dev) (HOTH_CMD_BOARD_SPECIFIC_BASE + HOTH_PRV_CMD_SET_TPM_MODE) 0
               (Some [tpm_mode_val mode, 0, 0, 0]) 4 0 False d
         in ((status, []), d)))"

text \<open>\<open>un_mode\<close> is what the first byte of the response holds before.\<close>

definition htool_get_tpm_mode :: "u8 \<Rightarrow> 'd htool_dev \<Rightarrow> 'd \<Rightarrow> 'd htool_result" where
  "htool_get_tpm_mode un_mode env = with_device env (\<lambda>dev d.
    let ((ret, r), d) = libhoth_hostcmd_exec [] (Some dev) (HOTH_CMD_BOARD_SPECIFIC_BASE + HOTH_PRV_CMD_GET_TPM_MODE) 0 None 0 4 False d
    in if ret \<noteq> 0 then ((ret, []), d)
       else
         let mode = (case r of Some resp \<Rightarrow> resp ! 0 | None \<Rightarrow> un_mode);
             mode_str = (if mode = tpm_mode_val TPM_MODE_DISABLED then ''DISABLED''
               else if mode = tpm_mode_val TPM_MODE_TPM_SPI then ''TPM_SPI''
               else if mode = tpm_mode_val TPM_MODE_SPI_NOR_MAILBOX then ''SPI_NOR_MAILBOX'' else ''UNKNOWN'')
         in ((0, ''TPM mode: '' @ mode_str @ '' ('' @ dec_nat (unat mode) @ '')'' @ newline), d))"

definition htool_security_startup :: "'d htool_dev \<Rightarrow> 'd \<Rightarrow> 'd htool_result" where
  "htool_security_startup env = with_device env (\<lambda>dev d.
    let (sv, d) = htool_get_security_version (un_supported env d) (Some dev) d
    in case sv of
         LIBHOTH_SECURITY_V2 \<Rightarrow> ((0, []), d)
       | LIBHOTH_SECURITY_V3 \<Rightarrow>
           (let req = [0x80, 0x01, 0x00, 0x00, 0x00, 0x0c, 0x00, 0x00, 0x01, 0x44, 0x00, 0x00];
                ((ret, _), d) = libhoth_hostcmd_exec [] (Some dev) (HOTH_CMD_BOARD_SPECIFIC_BASE + HOTH_PRV_CMD_HOTH_TPM) 0
                  (Some req) 12 32 True d
            in if ret \<noteq> 0 then ((ret, []), d) else ((0, ''TPM2_Startup(CLEAR) sent successfully.'' @ newline), d))
       | _ \<Rightarrow> ((-1, []), d))"

section \<open>Secure boot, watchdog and update\<close>

definition htool_secure_boot_get_enforcement :: "'d htool_dev \<Rightarrow> 'd \<Rightarrow> 'd htool_result" where
  "htool_secure_boot_get_enforcement env = with_device env (\<lambda>dev d.
    reported (libhoth_secure_boot_get_enforcement (Some dev) (Some 0) d)
      (\<lambda>enforcement. (0, ''Secure boot enforcement: '' @
         (if enforcement = SECURE_BOOT_ENFORCEMENT_ENABLED then ''enabled'' else ''disabled'') @ newline)))"

definition htool_secure_boot_enable_enforcement :: "'d htool_dev \<Rightarrow> 'd \<Rightarrow> 'd htool_result" where
  "htool_secure_boot_enable_enforcement env = with_device env (\<lambda>dev d.
    reported (libhoth_secure_boot_enable_enforcement (Some dev) d) (\<lambda>_. (0, ''Secure boot enforcement enabled'' @ newline)))"

definition htool_target_watchdog_pet :: "'d htool_dev \<Rightarrow> htool_invocation \<Rightarrow> 'd \<Rightarrow> 'd htool_result" where
  "htool_target_watchdog_pet env iv = with_device env (\<lambda>dev d.
    case htool_get_param_u64 iv ''cookie'' of
      Inl _ \<Rightarrow> ((-1, []), d)
    | Inr notify_cookie \<Rightarrow> reported (libhoth_pet_target_watchdog (Some dev) notify_cookie d) (\<lambda>_. (0, [])))"

definition htool_firmware_update :: "'d htool_dev \<Rightarrow> htool_invocation \<Rightarrow> 'd \<Rightarrow> 'd htool_result" where
  "htool_firmware_update env iv = with_device env (\<lambda>dev d.
    case htool_get_param_u32 iv ''offset'' of
      Inl _ \<Rightarrow> ((-1, []), d)
    | Inr offset \<Rightarrow>
        (let (err, d) = libhoth_firmware_update_from_flash_and_reset (Some dev) offset d
         in if err \<noteq> HOTH_SUCCESS then ((-1, []), d) else ((0, []), d)))"

subsection \<open>Update sessions\<close>

text \<open>The base that \<open>strtoul\<close> finds by itself, from the prefix of the number.\<close>

definition detected_base :: "string \<Rightarrow> nat" where
  "detected_base s =
    (let s1 = dropWhile c_isspace s;
         s2 = (if char_at s1 0 = CHR ''-'' \<or> char_at s1 0 = CHR ''+'' then tl s1 else s1)
     in if char_at s2 0 \<noteq> CHR ''0'' then 10
        else if (char_at s2 1 = CHR ''x'' \<or> char_at s2 1 = CHR ''X'') \<and> digit_val 16 (char_at s2 2) \<noteq> None then 16
        else 8)"

definition session_timeout_str :: "htool_invocation \<Rightarrow> string option" where
  "session_timeout_str iv =
    (let given = (\<lambda>nm old. if htool_has_param iv nm
           then (case htool_get_param_string iv nm of Inr s \<Rightarrow> Some s | Inl _ \<Rightarrow> old) else old);
         t = given ''timeout'' None;
         t = (if t = None \<or> t = Some [] then given ''timeout_seconds'' t else t)
     in if t = None \<or> t = Some [] then None else t)"

definition session_timeout_seconds :: "string \<Rightarrow> u32" where
  "session_timeout_seconds timeout_str =
    (let (val, _, endptr) = strtoull (detected_base timeout_str) timeout_str
     in if endptr \<noteq> timeout_str \<and> endptr = [] then ucast val
        else
          let time_us = parse_time_string_us (Some timeout_str)
          in if 0 < time_us \<and> time_us mod 1000000 = 0 then word_of_int (time_us div 1000000) else 0)"

definition htool_update_session_start :: "'d htool_dev \<Rightarrow> htool_invocation \<Rightarrow> 'd \<Rightarrow> 'd htool_result" where
  "htool_update_session_start env iv = with_device env (\<lambda>dev d.
    case session_timeout_str iv of
      None \<Rightarrow> ((-1, []), d)
    | Some timeout_str \<Rightarrow>
        (let timeout_seconds = session_timeout_seconds timeout_str
         in if timeout_seconds = 0 then ((-1, []), d)
            else reported (libhoth_update_session_start (Some dev) timeout_seconds d)
              (\<lambda>_. (0, ''Update session started (timeout: '' @ dec_nat (unat timeout_seconds) @ '' seconds)'' @ newline))))"

definition htool_update_session_finalize :: "'d htool_dev \<Rightarrow> 'd \<Rightarrow> 'd htool_result" where
  "htool_update_session_finalize env = with_device env (\<lambda>dev d.
    reported (libhoth_update_session_finalize (Some dev) d) (\<lambda>_. (0, ''Update session finalized'' @ newline)))"

definition htool_update_session_status :: "'d htool_dev \<Rightarrow> 'd \<Rightarrow> 'd htool_result" where
  "htool_update_session_status env = with_device env (\<lambda>dev d.
    reported (libhoth_update_session_get_status (Some dev) (Some \<lparr>current_state = 0, timeout_seconds_left = 0\<rparr>) d)
      (\<lambda>status. (0, ''Update session status:'' @ newline @
         ''  State:                '' @ libhoth_update_session_state_string (current_state status) @
         '' ('' @ dec_nat (unat (current_state status)) @ '')'' @ newline @
         ''  Timeout seconds left: '' @ dec_nat (unat (timeout_seconds_left status)) @ newline)))"

section \<open>Properties\<close>

text \<open>A firmware that keeps a status for every function and answers with the one before the action.\<close>

definition control_firmware :: "'w rot_handler \<Rightarrow> ('w \<Rightarrow> hoth_target_control_function \<Rightarrow> u16) \<Rightarrow> bool" where
  "control_firmware h status \<longleftrightarrow>
    (\<forall>f a w. \<exists>pad w'. length pad = 2 \<and>
      h (HOTH_CMD_BOARD_SPECIFIC_BASE + HOTH_PRV_CMD_HOTH_TARGET_CONTROL) 0 (hoth_request_target_control f a) w =
        ((0, le_bytes 2 (status w f) @ pad), w') \<and>
      status w' = (case a of HOTH_TARGET_CONTROL_ACTION_GET_STATUS \<Rightarrow> status w
        | HOTH_TARGET_CONTROL_ACTION_DISABLE \<Rightarrow> (status w)(f := HOTH_TARGET_CONTROL_STATUS_DISABLED)
        | HOTH_TARGET_CONTROL_ACTION_ENABLE \<Rightarrow> (status w)(f := HOTH_TARGET_CONTROL_STATUS_ENABLED)))"

lemma control_action:
  assumes "connected env (rot_device h)" "control_firmware h status"
  shows "\<exists>w' q'. target_control_perform_action env f a (w, q) = (Inr (status w f), (w', q')) \<and>
    status w' = (case a of HOTH_TARGET_CONTROL_ACTION_GET_STATUS \<Rightarrow> status w
      | HOTH_TARGET_CONTROL_ACTION_DISABLE \<Rightarrow> (status w)(f := HOTH_TARGET_CONTROL_STATUS_DISABLED)
      | HOTH_TARGET_CONTROL_ACTION_ENABLE \<Rightarrow> (status w)(f := HOTH_TARGET_CONTROL_STATUS_ENABLED))"
proof -
  let ?p = "hoth_request_target_control f a"
  obtain pad w' where h: "length pad = 2"
    "h (HOTH_CMD_BOARD_SPECIFIC_BASE + HOTH_PRV_CMD_HOTH_TARGET_CONTROL) 0 ?p w = ((0, le_bytes 2 (status w f) @ pad), w')"
    and st: "status w' = (case a of HOTH_TARGET_CONTROL_ACTION_GET_STATUS \<Rightarrow> status w
      | HOTH_TARGET_CONTROL_ACTION_DISABLE \<Rightarrow> (status w)(f := HOTH_TARGET_CONTROL_STATUS_DISABLED)
      | HOTH_TARGET_CONTROL_ACTION_ENABLE \<Rightarrow> (status w)(f := HOTH_TARGET_CONTROL_STATUS_ENABLED))"
    using assms(2) unfolding control_firmware_def by meson
  have p: "length ?p = 4" by (simp add: hoth_request_target_control_def)
  have "\<exists>q'. libhoth_hostcmd_exec [] (Some (rot_device h)) (HOTH_CMD_BOARD_SPECIFIC_BASE + HOTH_PRV_CMD_HOTH_TARGET_CONTROL) 0
      (Some ?p) 4 4 True (w, q) = ((0, Some (le_bytes 2 (status w f) @ pad)), (w', q'))"
    by (rule legacy_ok [of h _ 0 ?p w "le_bytes 2 (status w f) @ pad" w' True 4 4 q, OF h(2)]) (simp_all add: p h(1))
  then obtain q' where "libhoth_hostcmd_exec [] (Some (rot_device h)) (HOTH_CMD_BOARD_SPECIFIC_BASE + HOTH_PRV_CMD_HOTH_TARGET_CONTROL) 0
      (Some ?p) 4 4 True (w, q) = ((0, Some (le_bytes 2 (status w f) @ pad)), (w', q'))" by (elim exE)
  moreover have "u16_at 0 (le_bytes 2 (status w f) @ pad) = status w f" by (simp add: u16_at_def byte_range_def)
  ultimately have "target_control_perform_action env f a (w, q) = (Inr (status w f), (w', q'))"
    using assms(1) h(1) by (simp add: target_control_perform_action_def connected_def)
  with st show ?thesis by blast
qed

text \<open>The commands that switch a multiplexer of the flash: the word, the function, and what it sets.\<close>

definition sbs_switches ::
  "(('d htool_dev \<Rightarrow> string \<Rightarrow> 'd \<Rightarrow> 'd htool_result) \<times> string \<times> hoth_target_control_function \<times> hoth_target_control_action \<times>
    u16 \<times> (u16 \<Rightarrow> string)) list" where
  "sbs_switches =
    [(htool_sbs_single_run, ''connect_flash_to_rot'', HOTH_TARGET_CONTROL_SBS_MUX_SINGLE,
       HOTH_TARGET_CONTROL_ACTION_DISABLE, HOTH_TARGET_CONTROL_STATUS_DISABLED, sbs_single_status_str),
     (htool_sbs_single_run, ''connect_flash_to_target'', HOTH_TARGET_CONTROL_SBS_MUX_SINGLE,
       HOTH_TARGET_CONTROL_ACTION_ENABLE, HOTH_TARGET_CONTROL_STATUS_ENABLED, sbs_single_status_str),
     (htool_sbs_dual_run, ''connect_target_to_spi_flash_0'', HOTH_TARGET_CONTROL_SBS_MUX_DUAL,
       HOTH_TARGET_CONTROL_ACTION_DISABLE, HOTH_TARGET_CONTROL_STATUS_DISABLED, sbs_dual_status_str),
     (htool_sbs_dual_run, ''connect_target_to_spi_flash_1'', HOTH_TARGET_CONTROL_SBS_MUX_DUAL,
       HOTH_TARGET_CONTROL_ACTION_ENABLE, HOTH_TARGET_CONTROL_STATUS_ENABLED, sbs_dual_status_str)]"

lemma sbs_runs:
  assumes "(run, change, f, a, new, str) \<in> set sbs_switches"
  shows "run env change = perform_printing env f a (\<lambda>st. ''Previous SBS Mux State: '' @ str st)"
    and "run env ''get'' = perform_printing env f HOTH_TARGET_CONTROL_ACTION_GET_STATUS str"
    and "a = HOTH_TARGET_CONTROL_ACTION_DISABLE \<and> new = HOTH_TARGET_CONTROL_STATUS_DISABLED \<or>
      a = HOTH_TARGET_CONTROL_ACTION_ENABLE \<and> new = HOTH_TARGET_CONTROL_STATUS_ENABLED"
  using assms
  by (auto intro!: ext simp: sbs_switches_def htool_sbs_single_run_def htool_sbs_dual_run_def sbs_single_perform_action_def
      sbs_dual_perform_action_def sbs_single_get_status_def sbs_dual_get_status_def)

text \<open>
  C19: a command that switches a multiplexer of the flash prints where it stood, sets this function
  and no other, and the \<open>get\<close> that follows prints the new position and changes nothing.
\<close>

theorem mux_switched:
  assumes "connected env (rot_device h)" "control_firmware h status" "(run, change, f, a, new, str) \<in> set sbs_switches"
  shows "\<exists>w' q' w'' q''. run env change (w, q) = ((0, ''Previous SBS Mux State: '' @ str (status w f) @ newline), (w', q')) \<and>
    status w' = (status w)(f := new) \<and>
    run env ''get'' (w', q') = ((0, str new @ newline), (w'', q'')) \<and> status w'' = status w'"
proof -
  note runs = sbs_runs [OF assms(3)]
  obtain w' q' where 1: "target_control_perform_action env f a (w, q) = (Inr (status w f), (w', q'))"
    "status w' = (status w)(f := new)"
    using control_action [OF assms(1,2), of f a w q] runs(3) by auto
  obtain w'' q'' where 2: "target_control_perform_action env f HOTH_TARGET_CONTROL_ACTION_GET_STATUS (w', q') =
      (Inr new, (w'', q''))" "status w'' = status w'"
    using control_action [OF assms(1,2), of f HOTH_TARGET_CONTROL_ACTION_GET_STATUS w' q'] 1(2) by auto
  show ?thesis using 1 2 by (auto simp: runs(1,2) perform_printing_def)
qed

text \<open>A root of trust with these functions.\<close>

definition control_rot :: "(u16 \<Rightarrow> u16) rot_handler" where
  "control_rot c v p w =
    (let f = u16_at 0 p; a = u16_at 2 p
     in ((0, le_bytes 2 (w f) @ [0, 0]), if a = 0 then w else w(f := (if a = 1 then 1 else 2))))"

lemma control_function_inj: "control_function_val f = control_function_val g \<longleftrightarrow> f = g"
  by (cases f; cases g) simp_all

lemma control_rot_firmware: "control_firmware control_rot (\<lambda>w f. w (control_function_val f))"
proof -
  have p: "u16_at 0 (hoth_request_target_control f a) = control_function_val f"
    "u16_at 2 (hoth_request_target_control f a) = control_action_val a" for f a
    by (simp_all add: hoth_request_target_control_def u16_at_def byte_range_def)
  have u: "(\<lambda>g. (w(control_function_val f := x)) (control_function_val g)) = (\<lambda>g. w (control_function_val g))(f := x)" for w f and x :: u16
    by (rule ext) (simp add: control_function_inj)
  show ?thesis unfolding control_firmware_def
  proof (intro allI)
    fix f a w
    show "\<exists>pad w'. length pad = 2 \<and>
      control_rot (HOTH_CMD_BOARD_SPECIFIC_BASE + HOTH_PRV_CMD_HOTH_TARGET_CONTROL) 0 (hoth_request_target_control f a) w =
        ((0, le_bytes 2 (w (control_function_val f)) @ pad), w') \<and>
      (\<lambda>g. w' (control_function_val g)) = (case a of HOTH_TARGET_CONTROL_ACTION_GET_STATUS \<Rightarrow> \<lambda>g. w (control_function_val g)
        | HOTH_TARGET_CONTROL_ACTION_DISABLE \<Rightarrow> (\<lambda>g. w (control_function_val g))(f := HOTH_TARGET_CONTROL_STATUS_DISABLED)
        | HOTH_TARGET_CONTROL_ACTION_ENABLE \<Rightarrow> (\<lambda>g. w (control_function_val g))(f := HOTH_TARGET_CONTROL_STATUS_ENABLED))"
      by (rule exI [of _ "[0, 0]"], rule exI [of _ "if a = HOTH_TARGET_CONTROL_ACTION_GET_STATUS then w
          else w(control_function_val f := if a = HOTH_TARGET_CONTROL_ACTION_DISABLE then 1 else 2)"])
        (cases a; simp add: control_rot_def Let_def p u [symmetric] HOTH_TARGET_CONTROL_STATUS_DISABLED_def
          HOTH_TARGET_CONTROL_STATUS_ENABLED_def del: fun_upd_apply)
  qed
qed

theorem mux_switched_witness:
  "\<exists>w' q' w'' q''. htool_sbs_single_run \<lparr>connect = (\<lambda>d. (Some (rot_device control_rot), d)), un_supported = (\<lambda>_. 0), un_bytes_read = (\<lambda>_. 0)\<rparr>
      ''connect_flash_to_target'' ((\<lambda>_. 1), []) = ((0, ''Previous SBS Mux State: Flash connected to RoT'' @ newline), (w', q')) \<and>
    htool_sbs_single_run \<lparr>connect = (\<lambda>d. (Some (rot_device control_rot), d)), un_supported = (\<lambda>_. 0), un_bytes_read = (\<lambda>_. 0)\<rparr>
      ''get'' (w', q') = ((0, ''Flash connected to target'' @ newline), (w'', q''))"
proof -
  let ?env = "\<lparr>connect = (\<lambda>d. (Some (rot_device control_rot), d)), un_supported = (\<lambda>_. 0), un_bytes_read = (\<lambda>_. 0)\<rparr>
    :: ((u16 \<Rightarrow> u16) \<times> bytes) htool_dev"
  have env: "connected ?env (rot_device control_rot)" by (simp add: connected_def)
  have s: "(htool_sbs_single_run, ''connect_flash_to_target'', HOTH_TARGET_CONTROL_SBS_MUX_SINGLE,
      HOTH_TARGET_CONTROL_ACTION_ENABLE, HOTH_TARGET_CONTROL_STATUS_ENABLED, sbs_single_status_str) \<in> set sbs_switches" by (simp add: sbs_switches_def)
  have t: "sbs_single_status_str 1 = ''Flash connected to RoT''"
    "sbs_single_status_str HOTH_TARGET_CONTROL_STATUS_ENABLED = ''Flash connected to target''" by code_simp+
  from mux_switched [OF env control_rot_firmware s, of "\<lambda>_. 1" "[]"] show ?thesis unfolding t by auto
qed

lemma dec_nat_leading: "hd (dec_nat n) = CHR ''0'' \<Longrightarrow> n = 0"
proof (induction n rule: dec_nat.induct)
  case (1 n)
  show ?case
  proof (cases "n < 10")
    case True
    have "list_all (\<lambda>k. ''0123456789'' ! k = CHR ''0'' \<longrightarrow> k = 0) [0..<10]" by code_simp
    then show ?thesis using True 1(2) by (subst (asm) dec_nat.simps) (simp add: list_all_iff del: upt_rec_numeral)
  next
    case False
    then have "hd (dec_nat n) = hd (dec_nat (n div 10))"
      using dec_nat_digits [of "n div 10"] by (subst dec_nat.simps) simp
    then show ?thesis using 1 False by simp
  qed
qed

lemma session_timeout_value:
  assumes "u = [] \<and> n < 2 ^ 64 \<or> u = ''s'' \<and> n * 1000000 < 2 ^ 63"
  shows "session_timeout_seconds (dec_nat n @ u) = word_of_nat n"
proof (cases "n = 0")
  case True
  have z: "dec_nat 0 = ''0''" "detected_base ''0'' = 8" "detected_base ''0s'' = 8" "strto 8 ''0'' = Some (False, 0, [])"
    "strto 8 ''0s'' = Some (False, 0, ''s'')" by code_simp+
  have "parse_time_string_us (Some ''0s'') = 0" using parse_time_string [of "''s''" 1000000 "[]" 0] by (simp add: z)
  then have "session_timeout_seconds (dec_nat 0) = 0" "session_timeout_seconds (dec_nat 0 @ ''s'') = 0"
    by (simp_all add: session_timeout_seconds_def strtoull_def z)
  then show ?thesis using True assms by auto
next
  case False
  have d: "dec_nat n \<noteq> []" "digits 10 (dec_nat n)" using dec_nat_digits by blast+
  then obtain c cs where c: "dec_nat n = c # cs" by (cases "dec_nat n") auto
  then have other: "\<not> c_isspace c" "c \<noteq> CHR ''-''" "c \<noteq> CHR ''+''" using d digit_val_other [of 10 c] by (simp_all add: digits_def)
  moreover have "c \<noteq> CHR ''0''" using dec_nat_leading [of n] c False by auto
  ultimately have base: "detected_base (dec_nat n @ u) = 10" by (simp add: detected_base_def c char_at_def Let_def)
  have n64: "n < 2 ^ 64" using assms by auto
  have "u = [] \<or> digit_val 10 (hd u) = None" using assms by (auto simp: digit_val_def hex_val_def Let_def)
  then have r: "strtoull 10 (dec_nat n @ u) = (word_of_nat n, False, u)"
    using strto_dec [of u n] n64 by (simp add: strtoull_def)
  have w: "(ucast (word_of_nat n :: u64) :: u32) = word_of_nat n"
    by (simp add: word_unat_eq_iff unsigned_ucast_eq unat_of_nat take_bit_nat_def mod_mod_cancel)
  show ?thesis
  proof (cases "u = []")
    case True
    then show ?thesis using base r w d by (simp add: session_timeout_seconds_def)
  next
    case False
    then have s: "u = ''s''" "n * 1000000 < 2 ^ 63" using assms by auto
    then have "min n (2 ^ 63 - 1) = n" by simp
    then have "parse_time_string_us (Some (dec_nat n @ u)) = int (n * 1000000)"
      using parse_time_string [of "''s''" 1000000 "[]" n] s by (simp add: Let_def)
    then show ?thesis using base r s \<open>n \<noteq> 0\<close> by (simp add: session_timeout_seconds_def Let_def)
  qed
qed

text \<open>
  C39: a timeout of an update session is the number that was given, without a unit or in seconds, but
  reduced to 32 bits: the session is started with it, unless it is then zero, which is rejected, so
  that 4294967297 seconds are one second.
\<close>

theorem session_timeout_reduced:
  assumes "connected env (rot_device h)" "session_timeout_str iv = Some t"
    and "t = dec_nat n \<and> n < 2 ^ 64 \<or> t = dec_nat n @ ''s'' \<and> n * 1000000 < 2 ^ 63"
    and "timeout = (word_of_nat n :: u32)"
    and "h (HOTH_CMD_BOARD_SPECIFIC_BASE + HOTH_PRV_CMD_HOTH_UPDATE_SESSION_START) 0 (le_bytes 4 timeout) w = ((0, []), w')"
  shows "(if n mod 2 ^ 32 = 0 then htool_update_session_start env iv (w, q) = ((-1, []), (w, q))
    else \<exists>q'. htool_update_session_start env iv (w, q) =
      ((0, ''Update session started (timeout: '' @ dec_nat (n mod 2 ^ 32) @ '' seconds)'' @ newline), (w', q')))"
proof -
  obtain u where u: "t = dec_nat n @ u" "u = [] \<and> n < 2 ^ 64 \<or> u = ''s'' \<and> n * 1000000 < 2 ^ 63"
    using assms(3) by (metis append_Nil2)
  then have v: "session_timeout_seconds t = timeout" using session_timeout_value [of u n] assms(4) by simp
  have m: "unat timeout = n mod 2 ^ 32" unfolding assms(4) by (simp add: unat_of_nat)
  show ?thesis
  proof (cases "n mod 2 ^ 32 = 0")
    case True
    then have "timeout = 0" using m by (simp add: unat_eq_0)
    then show ?thesis using assms(1,2) v True
      by (simp add: htool_update_session_start_def with_device_def connected_def)
  next
    case False
    then have z: "timeout \<noteq> 0" using m by auto
    have "rpc h (HOTH_CMD_BOARD_SPECIFIC_BASE + HOTH_PRV_CMD_HOTH_UPDATE_SESSION_START) 0 (le_bytes 4 timeout) 0 True w = (Inr [], w')"
      by (rule rpc_ok [of h _ 0 "le_bytes 4 timeout" w "[]" w' True 0, OF assms(5)]) simp_all
    then have "\<exists>q'. libhoth_update_session_start (Some (rot_device h)) timeout (w, q) = (Inr [], (w', q'))"
      using z by (simp add: libhoth_update_session_start_def hostcmd_rot)
    then obtain q' where "libhoth_update_session_start (Some (rot_device h)) timeout (w, q) = (Inr [], (w', q'))" by (elim exE)
    then have "htool_update_session_start env iv (w, q) =
        ((0, ''Update session started (timeout: '' @ dec_nat (n mod 2 ^ 32) @ '' seconds)'' @ newline), (w', q'))"
      using assms(1,2) v z m by (simp add: htool_update_session_start_def with_device_def connected_def reported_def)
    then show ?thesis using False by (simp only: if_False) blast
  qed
qed

theorem session_timeout_reduced_witness:
  "\<exists>q'. htool_update_session_start \<lparr>connect = (\<lambda>d. (Some (rot_device (\<lambda>_ _ p _. ((0, []), p))), d)), un_supported = (\<lambda>_. 0),
      un_bytes_read = (\<lambda>_. 0)\<rparr> (demo_args [(''timeout'', ''4294967297'')]) ([], []) =
    ((0, ''Update session started (timeout: 1 seconds)'' @ newline), ([1, 0, 0, 0], q'))"
proof -
  let ?env = "\<lparr>connect = (\<lambda>d. (Some (rot_device (\<lambda>_ _ p _. ((0, []), p))), d)), un_supported = (\<lambda>_. 0), un_bytes_read = (\<lambda>_. 0)\<rparr>
    :: (bytes \<times> bytes) htool_dev"
  have env: "connected ?env (rot_device (\<lambda>_ _ p _. ((0, []), p)))" by (simp add: connected_def)
  have iv: "session_timeout_str (demo_args [(''timeout'', ''4294967297'')]) = Some ''4294967297''" by code_simp
  have n: "''4294967297'' = dec_nat 4294967297 \<and> (4294967297 :: nat) < 2 ^ 64 \<or>
      ''4294967297'' = dec_nat 4294967297 @ ''s'' \<and> (4294967297 :: nat) * 1000000 < 2 ^ 63"
    by (simp add: dec_nat.simps)
  have one: "dec_nat (Suc 0) = ''1''" "le_bytes 4 (1 :: u32) = [1, 0, 0, 0]" by code_simp+
  have "word_of_nat 4294967297 = (1 :: u32)" by simp
  then have t: "(1 :: u32) = word_of_nat 4294967297" by (rule sym)
  have "if 4294967297 mod 2 ^ 32 = (0 :: nat) then htool_update_session_start ?env (demo_args [(''timeout'', ''4294967297'')]) ([], []) = ((-1, []), ([], []))
    else \<exists>q'. htool_update_session_start ?env (demo_args [(''timeout'', ''4294967297'')]) ([], []) =
      ((0, ''Update session started (timeout: '' @ dec_nat (4294967297 mod 2 ^ 32) @ '' seconds)'' @ newline), (le_bytes 4 (1 :: u32), q'))"
    by (rule session_timeout_reduced [OF env iv n t]) (rule refl)
  moreover have "4294967297 mod 2 ^ 32 = (1 :: nat)" by simp
  ultimately have "\<exists>q'. htool_update_session_start ?env (demo_args [(''timeout'', ''4294967297'')]) ([], []) =
      ((0, ''Update session started (timeout: '' @ ''1'' @ '' seconds)'' @ newline), ([1, 0, 0, 0], q'))"
    using one by (simp del: append_Cons append_Nil)
  then show ?thesis by simp
qed


end
