(* ===== verification/Posix_Files.thy ===== *)
theory Posix_Files
  imports Hoth_Util
begin

text \<open>
  Files through descriptors, as the commands of \<open>htool\<close> use them: a record of functions on the state
  \<open>'f\<close> of the files. \<open>create_file\<close> is \<open>open\<close> for writing, with truncation; \<open>open_file\<close> is \<open>open\<close> for reading.
  A failed call yields \<open>None\<close>, or its \<open>errno\<close> where the code looks at it.
\<close>

record 'f posix_files =
  create_file :: "string \<Rightarrow> 'f \<Rightarrow> int option \<times> 'f"
  open_file :: "string \<Rightarrow> 'f \<Rightarrow> int option \<times> 'f"
  write_fd :: "int \<Rightarrow> bytes \<Rightarrow> 'f \<Rightarrow> (int + nat) \<times> 'f"
  read_fd :: "int \<Rightarrow> nat \<Rightarrow> 'f \<Rightarrow> bytes option \<times> 'f"
  stat_size :: "int \<Rightarrow> 'f \<Rightarrow> nat option \<times> 'f"
  map_fd :: "int \<Rightarrow> nat \<Rightarrow> 'f \<Rightarrow> bytes option \<times> 'f"
  unmap :: "'f \<Rightarrow> 'f"
  close_fd :: "int \<Rightarrow> 'f \<Rightarrow> 'f"

text \<open>
  What a pointer from \<open>mmap\<close> may be used for: a failure is not NULL, so the code goes on with it, which
  is harmless as long as nothing is read from it, as for an empty file.
\<close>

definition mapped :: "nat \<Rightarrow> bytes option \<Rightarrow> bytes option" where
  "mapped n m = (case m of Some bs \<Rightarrow> Some (take n bs) | None \<Rightarrow> if n = 0 then Some [] else None)"

text \<open>
  Files with contents: what is written to a file that was opened is appended to it, some at a time.
  \<open>is_open\<close> tells which descriptor is open for which file.
\<close>

type_synonym named_contents = "string \<Rightarrow> bytes option"

definition appends_to ::
  "(bytes \<Rightarrow> 'f \<Rightarrow> (int + nat) \<times> 'f) \<Rightarrow> ('f \<Rightarrow> named_contents) \<Rightarrow> ('f \<Rightarrow> bool) \<Rightarrow> named_contents \<Rightarrow> string \<Rightarrow> bool" where
  "appends_to wr content ready c name \<longleftrightarrow>
    (\<forall>bs f old. content f = c(name \<mapsto> old) \<and> ready f \<longrightarrow> bs \<noteq> [] \<longrightarrow>
      (\<exists>n f'. wr bs f = (Inr n, f') \<and> 0 < n \<and> n \<le> length bs \<and> content f' = c(name \<mapsto> old @ take n bs) \<and> ready f'))"

definition stores_files :: "'f posix_files \<Rightarrow> ('f \<Rightarrow> named_contents) \<Rightarrow> (int \<Rightarrow> string \<Rightarrow> 'f \<Rightarrow> bool) \<Rightarrow> bool" where
  "stores_files os content is_open \<longleftrightarrow>
    (\<forall>name f. \<exists>fd f1. create_file os name f = (Some fd, f1) \<and> content f1 = (content f)(name \<mapsto> []) \<and>
      is_open fd name f1 \<and> appends_to (write_fd os fd) content (is_open fd name) (content f) name \<and>
      (\<forall>f2. content (close_fd os fd f2) = content f2))"

definition maps_files :: "'f posix_files \<Rightarrow> ('f \<Rightarrow> named_contents) \<Rightarrow> bool" where
  "maps_files os content \<longleftrightarrow>
    (\<forall>name f. content f name = None \<longrightarrow> (\<exists>f1. open_file os name f = (None, f1) \<and> content f1 = content f)) \<and>
    (\<forall>name f bs. content f name = Some bs \<longrightarrow> (\<exists>fd f1 f2 f3 m. open_file os name f = (Some fd, f1) \<and>
      stat_size os fd f1 = (Some (length bs), f2) \<and> map_fd os fd (length bs) f2 = (m, f3) \<and>
      (if bs = [] then m = None else m = Some bs) \<and> content f1 = content f \<and> content f2 = content f \<and> content f3 = content f)) \<and>
    (\<forall>fd f. content (close_fd os fd f) = content f) \<and> (\<forall>f. content (unmap os f) = content f)"

lemma force_write_file:
  assumes "appends_to wr content ready c name" "ready f" and "content f = c(name \<mapsto> old)"
  shows "\<exists>f'. libhoth_force_write wr buf f = Some (0, f') \<and> content f' = c(name \<mapsto> old @ buf) \<and> ready f'"
  using assms(2,3)
proof (induction "length buf" arbitrary: buf f old rule: less_induct)
  case less
  show ?case
  proof (cases "buf = []")
    case True
    then show ?thesis using less.prems by (subst libhoth_force_write.simps) simp
  next
    case False
    then obtain n f3 where w: "wr buf f = (Inr n, f3)" "0 < n" "n \<le> length buf" "content f3 = c(name \<mapsto> old @ take n buf)" "ready f3"
      using assms(1) less.prems unfolding appends_to_def by blast
    have "\<exists>f'. libhoth_force_write wr (drop n buf) f3 = Some (0, f') \<and> content f' = c(name \<mapsto> (old @ take n buf) @ drop n buf) \<and> ready f'"
      using less.hyps [of "drop n buf" f3 "old @ take n buf"] w by simp
    then show ?thesis using w(1) False by (subst libhoth_force_write.simps) simp
  qed
qed

text \<open>Files in memory: the contents and the name of the open file; a write stores at most 100 bytes.\<close>

definition memory_posix :: "(named_contents \<times> string) posix_files" where
  "memory_posix = \<lparr>
     create_file = (\<lambda>name (fs, _). (Some 3, (fs(name \<mapsto> []), name))),
     open_file = (\<lambda>name (fs, cur). case fs name of None \<Rightarrow> (None, (fs, cur)) | Some _ \<Rightarrow> (Some 3, (fs, name))),
     write_fd = (\<lambda>_ bs (fs, name). (Inr (min 100 (length bs)), (fs(name \<mapsto> the (fs name) @ take 100 bs), name))),
     read_fd = (\<lambda>_ n (fs, name). (None, (fs, name))),
     stat_size = (\<lambda>_ (fs, name). (map_option length (fs name), (fs, name))),
     map_fd = (\<lambda>_ n (fs, name). ((if n = 0 then None else fs name), (fs, name))),
     unmap = (\<lambda>f. f), close_fd = (\<lambda>_ f. f)\<rparr>"

lemma memory_stores_files: "stores_files memory_posix fst (\<lambda>fd name f. snd f = name)"
proof -
  have t: "take (min 100 (length bs)) bs = take 100 bs" for bs :: bytes by (simp add: min_def)
  have "appends_to (write_fd memory_posix 3) fst (\<lambda>f. snd f = name) c name" for name c
    by (auto simp: appends_to_def memory_posix_def t)
  then show ?thesis
    by (auto simp: stores_files_def memory_posix_def intro!: exI [of _ "3 :: int"])
qed

lemma memory_maps_files: "maps_files memory_posix fst"
  by (auto simp: maps_files_def memory_posix_def split: option.splits)

end
