(* ===== verification/Htool_Handlers.thy ===== *)
theory Htool_Handlers
  imports Htool_Control Posix_Files Spi_Proxy Ot_Version Hoth_Util
begin

text \<open>
  The commands in \<open>htool.c\<close> itself: restarting and describing the chip, the flash behind the root of
  trust, resetting the target, controlled storage, the strength of pads. Files are a parameter; where
  the code uses a pointer that is none, or never returns, the result is \<open>None\<close>.
\<close>

section \<open>The chip\<close>

definition command_reboot :: "'d htool_dev \<Rightarrow> htool_invocation \<Rightarrow> 'd \<Rightarrow> 'd htool_result" where
  "command_reboot env iv d =
    (case htool_get_param_bool iv ''warm'' of
       Inl _ \<Rightarrow> ((-1, []), d)
     | Inr warm \<Rightarrow> with_device env (\<lambda>dev d.
         reported (libhoth_reboot (Some dev) (if warm then HOTH_REBOOT_WARM else HOTH_REBOOT_COLD) d) (\<lambda>_. (0, []))) d)"

text \<open>What \<open>printf\<close> takes of an array of characters: up to the first zero.\<close>

definition chars_until_nul :: "bytes \<Rightarrow> string" where
  "chars_until_nul bs = map (\<lambda>b. char_of (unat b)) (takeWhile (\<lambda>b. b \<noteq> 0) bs)"

definition command_get_version :: "hoth_response_get_version \<Rightarrow> 'd htool_dev \<Rightarrow> 'd \<Rightarrow> 'd htool_result" where
  "command_get_version un env = with_device env (\<lambda>dev d.
    reported (libhoth_get_rot_fw_version (Some dev) (Some un) d)
      (\<lambda>r. (0, ''version_string_ro: '' @ chars_until_nul (version_string_ro r) @ newline @
        ''version_string_rw: '' @ chars_until_nul (version_string_rw r) @ newline)))"

definition padded_label :: "string \<Rightarrow> string" where
  "padded_label s = ''  '' @ s @ replicate (22 - length s) CHR 0x20 @ '' ''"

definition hex_of :: "bytes \<Rightarrow> string" where
  "hex_of bs = concat (map (\<lambda>b. hex_byte b) bs)"

definition dec_two :: "nat \<Rightarrow> string" where
  "dec_two n = (if n < 10 then ''0'' else []) @ dec_nat n"

definition opentitan_id_text :: "bytes \<Rightarrow> opentitan_device_id \<Rightarrow> string" where
  "opentitan_id_text did p =
    ''OpenTitan iSerial: 0x'' @ hex_of (take 32 did) @ newline @ ''OpenTitan Device ID: 0x'' @ hex_of (byte_range 20 12 did) @
    newline @ newline @ ''Generic Identifier:'' @ newline @
    padded_label ''SI Creator ID:'' @ ''0x'' @ hex_padded hex_digits 4 (unat (creator_id p)) @ newline @
    padded_label ''Product ID:'' @ ''0x'' @ hex_padded hex_digits 4 (unat (product_id p)) @ newline @
    padded_label ''Device Date:'' @ dec_nat (unat (device_year p)) @ '' week '' @ dec_two (unat (device_week p)) @ newline @
    padded_label ''Lot Number:'' @ dec_nat (unat (lot_number p)) @ newline @
    padded_label ''Wafer Number:'' @ dec_nat (unat (wafer_number p)) @ newline @
    padded_label ''Wafer X Coord:'' @ dec_nat (unat (wafer_x p)) @ newline @
    padded_label ''Wafer Y Coord:'' @ dec_nat (unat (wafer_y p)) @ newline @
    padded_label ''Reserved DIN:'' @ ''0x'' @ hex_padded hex_digits 2 (unat (reserved_din p)) @ newline @
    padded_label ''Reserved:'' @ ''0x'' @ hex_padded hex_digits 8 (unat (otid_reserved p)) @ newline @
    newline @ ''SKU-specific Identifier:'' @ newline @
    padded_label ''Package ID:'' @ dec_nat (unat (package_id p)) @ newline @
    padded_label ''AST Config Version:'' @ dec_nat (unat (ast_config_version p)) @ newline @
    padded_label ''OTP ID:'' @ [CHR 0x22] @ chars_until_nul (otp_id p) @ [CHR 0x22] @ newline @
    padded_label ''OTP Version:'' @ dec_nat (unat (otp_version p)) @ newline @
    padded_label ''SKU ID String:'' @ [CHR 0x22] @ chars_until_nul (sku_id_string p) @ [CHR 0x22] @ newline @
    padded_label ''SKU Specific Version:'' @ dec_nat (unat (sku_specific_version p)) @ newline"

definition blank_device_id :: opentitan_device_id where
  "blank_device_id = \<lparr>creator_id = 0, product_id = 0, device_year = 0, device_week = 0, lot_number = 0, wafer_number = 0,
     wafer_x = 0, wafer_y = 0, reserved_din = 0, otid_reserved = 0, package_id = 0, ast_config_version = 0, otp_id = [0, 0, 0],
     otp_version = 0, sku_id_string = [0, 0, 0, 0, 0], sku_specific_version = 0\<rparr>"

text \<open>A version other than 0 and 1 is not returned by \<open>libhoth_chipinfo\<close>.\<close>

definition command_show_chipinfo :: "'d htool_dev \<Rightarrow> 'd \<Rightarrow> 'd htool_result" where
  "command_show_chipinfo env = with_device env (\<lambda>dev d.
    reported (libhoth_chipinfo (Some dev) (Some \<lparr>chip_version = 0, chip_data = Open_Titan_Device_Id []\<rparr>) d)
      (\<lambda>response. case chip_data response of
         Hoth_Device_Id did \<Rightarrow>
           (0, ''Chip Info:'' @ newline @
             ''Hardware Identity: 0x'' @ hex_padded hex_digits 16 (unat (hardware_identity did)) @ newline @
             ''Hardware Category: '' @ dec_nat (unat (hardware_category did)) @ newline @
             ''Info Variant: '' @ dec_nat (unat (info_variant did)) @ newline)
       | Open_Titan_Device_Id otid \<Rightarrow>
           (case parse_opentitan_device_id (Some otid) (Some blank_device_id) of
              None \<Rightarrow> (-1, ''Chip Info:'' @ newline @ ''Failed to parse OpenTitan Device ID'' @ newline)
            | Some parsed_id \<Rightarrow> (0, ''Chip Info:'' @ newline @ opentitan_id_text otid parsed_id))))"

definition command_hello :: "'d htool_dev \<Rightarrow> htool_invocation \<Rightarrow> 'd \<Rightarrow> 'd htool_result" where
  "command_hello env iv = with_device env (\<lambda>dev d.
    case htool_get_param_u32 iv ''number'' of
      Inl _ \<Rightarrow> ((-1, []), d)
    | Inr input \<Rightarrow>
        reported (libhoth_hello (Some dev) input d)
          (\<lambda>output. (0, ''output: 0x'' @ hex_padded hex_digits 8 (unat output) @ newline)))"

definition command_opentitan_version :: "'d htool_dev \<Rightarrow> 'd \<Rightarrow> 'd htool_result" where
  "command_opentitan_version env = with_device env (\<lambda>dev d.
    reported (libhoth_opentitan_version (Some dev) d) (\<lambda>output. (0, libhoth_print_ot_version_resp output)))"

section \<open>Files that are read as a whole\<close>

text \<open>
  Opening, asking for the size, mapping; \<open>body\<close> gets the content, or \<open>None\<close> for a pointer that must not
  be used, and \<open>Inl\<close> is the failure of \<open>fstat\<close>. The size fits into a \<open>size_t\<close>.
\<close>

definition with_mapped_file ::
  "'f posix_files \<Rightarrow> string \<Rightarrow> ('d \<Rightarrow> 'f \<Rightarrow> ((int \<times> string) \<times> 'd \<times> 'f) option) \<Rightarrow>
    (nat \<Rightarrow> bytes option \<Rightarrow> 'd \<Rightarrow> 'f \<Rightarrow> ((int \<times> string) \<times> 'd \<times> 'f) option) \<Rightarrow>
    'd \<Rightarrow> 'f \<Rightarrow> ((int \<times> string) \<times> 'd \<times> 'f) option" where
  "with_mapped_file os name failed body d f =
    (case open_file os name f of
       (None, f) \<Rightarrow> Some ((-1, []), d, f)
     | (Some fd, f) \<Rightarrow>
         map_option (\<lambda>(r, d, f). (r, d, close_fd os fd f))
           (case stat_size os fd f of
              (None, f) \<Rightarrow> failed d f
            | (Some file_size, f) \<Rightarrow>
                (let (file_data, f) = map_fd os fd file_size f in body file_size (mapped file_size file_data) d f)))"

definition command_extract_ot_bundle ::
  "'f posix_files \<Rightarrow> htool_invocation \<Rightarrow> 'd \<Rightarrow> 'f \<Rightarrow> ((int \<times> string) \<times> 'd \<times> 'f) option" where
  "command_extract_ot_bundle os iv d f =
    (case htool_get_param_string iv ''source-file'' of
       Inl _ \<Rightarrow> Some ((-1, []), d, f)
     | Inr source_file \<Rightarrow>
         with_mapped_file os source_file (\<lambda>d f. Some ((-1, []), d, f))
           (\<lambda>file_size file_data d f.
             case file_data of
               None \<Rightarrow> None
             | Some img \<Rightarrow>
                 map_option (\<lambda>(rv, rom_ext_v, app_v).
                     if rv \<noteq> 0 then ((rv, []), d, f)
                     else ((rv, libhoth_print_ot_version ''app: '' app_v @ libhoth_print_ot_version ''rom_ext: '' rom_ext_v), d, f))
                   (libhoth_extract_ot_bundle (Some img) zero_version zero_version)) d f)"

section \<open>The flash behind the root of trust\<close>

definition get_address_mode :: "string \<Rightarrow> (bool \<times> bool) option" where
  "get_address_mode address_mode =
    (if address_mode = ''3B/4B'' then Some (True, True)
     else if address_mode = ''3B'' then Some (False, False)
     else if address_mode = ''4B'' then Some (True, False) else None)"

text \<open>The loop returns \<open>Inr\<close>, or \<open>Inl\<close> when reading or writing failed.\<close>

function spi_read_loop ::
  "spi_operation \<Rightarrow> 'f posix_files \<Rightarrow> 'd libhoth_device \<Rightarrow> bool \<Rightarrow> int \<Rightarrow> u32 \<Rightarrow> nat \<Rightarrow> 'd \<Rightarrow> 'f
    \<Rightarrow> (bool \<times> 'd \<times> 'f) option" where
  "spi_read_loop stk os dev is_4_byte fd addr len_remaining d f =
    (if 0 < len_remaining then
       (let read_size = min len_remaining 65536 in
        case libhoth_spi_proxy_read stk (Some dev) is_4_byte addr read_size d of
          None \<Rightarrow> None
        | Some (Inl _, d) \<Rightarrow> Some (False, d, f)
        | Some (Inr buf, d) \<Rightarrow>
            (case libhoth_force_write (write_fd os fd) buf f of
               None \<Rightarrow> None
             | Some (status, f) \<Rightarrow>
                 if status \<noteq> 0 then Some (False, d, f)
                 else spi_read_loop stk os dev is_4_byte fd (addr + word_of_nat read_size) (len_remaining - read_size) d f))
     else Some (True, d, f))"
  by pat_completeness auto
termination
  by (relation "measure (\<lambda>(stk, os, dev, is_4_byte, fd, addr, len_remaining, d, f). len_remaining)") auto

declare spi_read_loop.simps [simp del]

definition command_spi_read ::
  "spi_operation \<Rightarrow> 'f posix_files \<Rightarrow> 'd htool_dev \<Rightarrow> htool_invocation \<Rightarrow> 'd \<Rightarrow> 'f \<Rightarrow> ((int \<times> string) \<times> 'd \<times> 'f) option" where
  "command_spi_read stk os env iv d f =
    (case (htool_get_param_u32 iv ''start'', htool_get_param_u32 iv ''length'', htool_get_param_string iv ''dest-file'',
           htool_get_param_string iv ''address_mode'') of
       (Inr start, Inr len, Inr dest_file, Inr address_mode) \<Rightarrow>
         (case connect env d of
            (None, d) \<Rightarrow> Some ((-1, []), d, f)
          | (Some dev, d) \<Rightarrow>
              (case create_file os dest_file f of
                 (None, f) \<Rightarrow> Some ((-1, []), d, f)
               | (Some fd, f) \<Rightarrow>
                   (case get_address_mode address_mode of
                      None \<Rightarrow> Some ((-1, []), d, close_fd os fd f)
                    | Some (is_4_byte, enter_exit_4b) \<Rightarrow>
                        (case libhoth_spi_proxy_init stk (Some dev) enter_exit_4b d of
                           None \<Rightarrow> None
                         | Some (Inl _, d) \<Rightarrow> Some ((-1, []), d, close_fd os fd f)
                         | Some (Inr _, d) \<Rightarrow>
                             map_option (\<lambda>(ok, d, f). (((if ok then 0 else -1), []), d, close_fd os fd f))
                               (spi_read_loop stk os dev is_4_byte fd start (unat len) d f)))))
     | _ \<Rightarrow> Some ((-1, []), d, f))"

text \<open>
  The text of the progress goes to the standard error. Without a mapping (\<open>mmap\<close> failed on a file that
  is not empty) the update reads from \<open>MAP_FAILED\<close>, once the initialisation has succeeded: \<open>None\<close>.
\<close>

definition spi_update_and_verify ::
  "spi_operation \<Rightarrow> 'd libhoth_device \<Rightarrow> bool \<Rightarrow> bool \<Rightarrow> bool \<Rightarrow> u32 \<Rightarrow> bytes option \<Rightarrow> 'd \<Rightarrow> (int \<times> 'd) option" where
  "spi_update_and_verify stk dev is_4_byte enter_exit_4b verify start file_data d =
    (case libhoth_spi_proxy_init stk (Some dev) enter_exit_4b d of
       None \<Rightarrow> None
     | Some (Inl _, d) \<Rightarrow> Some (-1, d)
     | Some (Inr _, d) \<Rightarrow>
         (case file_data of
            None \<Rightarrow> None
          | Some buf \<Rightarrow>
              (case libhoth_spi_proxy_update stk (Some dev) is_4_byte start buf d of
                 None \<Rightarrow> None
               | Some (Inl _, d) \<Rightarrow> Some (-1, d)
               | Some (Inr _, d) \<Rightarrow>
                   if verify then
                     map_option (\<lambda>(r, d). ((case r of Inl _ \<Rightarrow> -1 | Inr _ \<Rightarrow> 0), d))
                       (libhoth_spi_proxy_verify stk (Some dev) is_4_byte start buf d)
                   else Some (0, d))))"

definition command_spi_update ::
  "spi_operation \<Rightarrow> 'f posix_files \<Rightarrow> 'd htool_dev \<Rightarrow> htool_invocation \<Rightarrow> 'd \<Rightarrow> 'f \<Rightarrow> ((int \<times> string) \<times> 'd \<times> 'f) option" where
  "command_spi_update stk os env iv d f =
    (case (htool_get_param_u32 iv ''start'', htool_get_param_bool iv ''verify'', htool_get_param_string iv ''source-file'',
           htool_get_param_string iv ''address_mode'') of
       (Inr start, Inr verify, Inr source_file, Inr address_mode) \<Rightarrow>
         (case connect env d of
            (None, d) \<Rightarrow> Some ((-1, []), d, f)
          | (Some dev, d) \<Rightarrow>
              with_mapped_file os source_file (\<lambda>d f. Some ((-1, []), d, f))
                (\<lambda>file_size file_data d f.
                  case get_address_mode address_mode of
                    None \<Rightarrow> Some ((-1, []), d, f)
                  | Some (is_4_byte, enter_exit_4b) \<Rightarrow>
                      map_option (\<lambda>(result, d). ((result, []), d, if file_data = None then f else unmap os f))
                        (spi_update_and_verify stk dev is_4_byte enter_exit_4b verify start file_data d)) d f)
     | _ \<Rightarrow> Some ((-1, []), d, f))"

definition HOTH_CMD_FLASH_SPI_INFO :: u16 where "HOTH_CMD_FLASH_SPI_INFO = 0x0018"

text \<open>\<open>un\<close> is what the eight bytes of the response hold before.\<close>

definition command_flash_spi_info :: "bytes \<Rightarrow> 'd htool_dev \<Rightarrow> 'd \<Rightarrow> 'd htool_result" where
  "command_flash_spi_info un env = with_device env (\<lambda>dev d.
    let ((status, r), d) = libhoth_hostcmd_exec [] (Some dev) HOTH_CMD_FLASH_SPI_INFO 0 None 0 8 False d
    in if status \<noteq> 0 then ((-1, []), d)
       else
         let response = (case r of Some p \<Rightarrow> p | None \<Rightarrow> un);
             jedec_id = push_bit 16 (ucast (response ! 2)) OR push_bit 8 (ucast (response ! 1)) OR ucast (response ! 0) :: u32;
             device_id = push_bit 8 (ucast (response ! 5)) OR ucast (response ! 4) :: u32
         in if jedec_id = 0 \<and> device_id = 0 then ((-1, []), d)
            else ((0, ''Jedec ID: 0x'' @ hex_padded hex_digits 1 (unat jedec_id) @ newline @
                ''Device ID: 0x'' @ hex_padded hex_digits 1 (unat device_id) @ newline @
                ''Status Reg1: 0x'' @ hex_padded hex_digits 1 (unat (response ! 6)) @ newline @
                ''Status Reg2: 0x'' @ hex_padded hex_digits 1 (unat (response ! 7)) @ newline), d))"

section \<open>Resets and passthrough\<close>

definition HOTH_PRV_CMD_HOTH_RESET_TARGET :: u16 where "HOTH_PRV_CMD_HOTH_RESET_TARGET = 0x0012"
definition HOTH_PRV_CMD_HOTH_ARM_COORDINATED_RESET :: u16 where "HOTH_PRV_CMD_HOTH_ARM_COORDINATED_RESET = 0x001A"
definition HOTH_PRV_CMD_HOTH_SPS_PASSTHROUGH_DISABLE :: u16 where "HOTH_PRV_CMD_HOTH_SPS_PASSTHROUGH_DISABLE = 0x003b"
definition HOTH_PRV_CMD_HOTH_SPS_PASSTHROUGH_ENABLE :: u16 where "HOTH_PRV_CMD_HOTH_SPS_PASSTHROUGH_ENABLE = 0x003c"
definition RESET_TARGET_ID_RSTCTRL0 :: u32 where "RESET_TARGET_ID_RSTCTRL0 = 0"

datatype hoth_target_reset_option =
  HOTH_TARGET_RESET_OPTION_RELEASE | HOTH_TARGET_RESET_OPTION_SET | HOTH_TARGET_RESET_OPTION_PULSE

fun reset_option_val :: "hoth_target_reset_option \<Rightarrow> u8" where
  "reset_option_val HOTH_TARGET_RESET_OPTION_RELEASE = 0"
| "reset_option_val HOTH_TARGET_RESET_OPTION_SET = 1"
| "reset_option_val HOTH_TARGET_RESET_OPTION_PULSE = 2"

definition hoth_request_reset_target :: "hoth_target_reset_option \<Rightarrow> bytes" where
  "hoth_request_reset_target reset_option =
    le_bytes 4 RESET_TARGET_ID_RSTCTRL0 @ [reset_option_val reset_option] @ zeros 12"

definition do_target_reset :: "'d htool_dev \<Rightarrow> hoth_target_reset_option \<Rightarrow> 'd \<Rightarrow> 'd htool_result" where
  "do_target_reset env reset_option = with_device env (\<lambda>dev d.
    let ((status, _), d) = libhoth_hostcmd_exec [] (Some dev) (HOTH_CMD_BOARD_SPECIFIC_BASE + HOTH_PRV_CMD_HOTH_RESET_TARGET) 0
          (Some (hoth_request_reset_target reset_option)) 17 0 False d
    in ((status, []), d))"

definition command_target_reset_on :: "'d htool_dev \<Rightarrow> 'd \<Rightarrow> 'd htool_result" where
  "command_target_reset_on env = do_target_reset env HOTH_TARGET_RESET_OPTION_SET"

definition command_target_reset_off :: "'d htool_dev \<Rightarrow> 'd \<Rightarrow> 'd htool_result" where
  "command_target_reset_off env = do_target_reset env HOTH_TARGET_RESET_OPTION_RELEASE"

definition command_target_reset_pulse :: "'d htool_dev \<Rightarrow> 'd \<Rightarrow> 'd htool_result" where
  "command_target_reset_pulse env = do_target_reset env HOTH_TARGET_RESET_OPTION_PULSE"

definition plain_command :: "u16 \<Rightarrow> 'd htool_dev \<Rightarrow> 'd \<Rightarrow> 'd htool_result" where
  "plain_command command env = with_device env (\<lambda>dev d.
    let ((status, _), d) = libhoth_hostcmd_exec [] (Some dev) (HOTH_CMD_BOARD_SPECIFIC_BASE + command) 0 None 0 0 False d
    in ((status, []), d))"

definition command_arm_coordinated_reset :: "'d htool_dev \<Rightarrow> 'd \<Rightarrow> 'd htool_result" where
  "command_arm_coordinated_reset env = plain_command HOTH_PRV_CMD_HOTH_ARM_COORDINATED_RESET env"

definition command_passthrough_disable :: "'d htool_dev \<Rightarrow> 'd \<Rightarrow> 'd htool_result" where
  "command_passthrough_disable env = plain_command HOTH_PRV_CMD_HOTH_SPS_PASSTHROUGH_DISABLE env"

definition command_passthrough_enable :: "'d htool_dev \<Rightarrow> 'd \<Rightarrow> 'd htool_result" where
  "command_passthrough_enable env = plain_command HOTH_PRV_CMD_HOTH_SPS_PASSTHROUGH_ENABLE env"

section \<open>Controlled storage\<close>

definition htool_controlled_storage_write ::
  "'f posix_files \<Rightarrow> 'd htool_dev \<Rightarrow> htool_invocation \<Rightarrow> 'd \<Rightarrow> 'f \<Rightarrow> ((int \<times> string) \<times> 'd \<times> 'f) option" where
  "htool_controlled_storage_write os env iv d f =
    (case connect env d of
       (None, d) \<Rightarrow> Some ((-1, []), d, f)
     | (Some dev, d) \<Rightarrow>
         (case (htool_get_param_u32 iv ''slot'', htool_get_param_string iv ''source-file'') of
            (Inr slot, Inr source_file) \<Rightarrow>
              with_mapped_file os source_file (\<lambda>d f. Some ((-1, []), d, f))
                (\<lambda>file_size file_data d f.
                  case file_data of
                    None \<Rightarrow>
                      if CONTROLLED_STORAGE_SIZE < file_size then Some ((-1, []), d, unmap os f) else None
                  | Some content \<Rightarrow>
                      (let (r, d) = libhoth_controlled_storage_write (Some dev) slot (Some content) d
                       in Some (((case r of Inl _ \<Rightarrow> -1 | Inr _ \<Rightarrow> 0), []), d, unmap os f))) d f
          | _ \<Rightarrow> Some ((-1, []), d, f)))"

text \<open>\<open>un_payload\<close> is what the buffer on the stack holds before. The size fits into a \<open>size_t\<close>.\<close>

definition htool_controlled_storage_read ::
  "bytes \<Rightarrow> 'f posix_files \<Rightarrow> 'd htool_dev \<Rightarrow> htool_invocation \<Rightarrow> 'd \<Rightarrow> 'f \<Rightarrow> (int \<times> string) \<times> 'd \<times> 'f" where
  "htool_controlled_storage_read un_payload os env iv d f =
    (case connect env d of
       (None, d) \<Rightarrow> ((-1, []), d, f)
     | (Some dev, d) \<Rightarrow>
         (case htool_get_param_u32 iv ''slot'' of
            Inl _ \<Rightarrow> ((-1, []), d, f)
          | Inr slot \<Rightarrow>
              (let dest_file = (case htool_get_param_string iv ''dest-file'' of Inr s \<Rightarrow> s | Inl _ \<Rightarrow> [])
               in case libhoth_controlled_storage_read (Some dev) slot (Some un_payload) True d of
                    (Inl _, d) \<Rightarrow> ((-1, []), d, f)
                  | (Inr (payload, payload_len), d) \<Rightarrow>
                      if dest_file \<noteq> [] then
                        (case create_file os dest_file f of
                           (None, f) \<Rightarrow> ((-1, []), d, f)
                         | (Some fd, f) \<Rightarrow>
                             (let (n, f) = write_fd os fd (take payload_len payload) f
                              in if n \<noteq> Inr payload_len then ((-1, []), d, close_fd os fd f) else ((0, []), d, close_fd os fd f)))
                      else
                        ((0, ''Controlled storage contents:'' @ newline @ ''  '' @ hex_of (take payload_len payload) @ newline), d, f))))"

definition htool_controlled_storage_delete :: "'d htool_dev \<Rightarrow> htool_invocation \<Rightarrow> 'd \<Rightarrow> 'd htool_result" where
  "htool_controlled_storage_delete env iv = with_device env (\<lambda>dev d.
    case htool_get_param_u32 iv ''slot'' of
      Inl _ \<Rightarrow> ((-1, []), d)
    | Inr slot \<Rightarrow> reported (libhoth_controlled_storage_delete (Some dev) slot d) (\<lambda>_. (0, [])))"

section \<open>Strength of pads\<close>

definition LIBHOTH_GPIO_DIO_PAD_OFFSET :: u32 where "LIBHOTH_GPIO_DIO_PAD_OFFSET = 128"

text \<open>The number that was given and the pad, of 32 bits each.\<close>

definition gpio_pad :: "htool_invocation \<Rightarrow> (u32 \<times> u32) option" where
  "gpio_pad iv =
    (let has_dio = htool_has_param iv ''dio''; has_mio = htool_has_param iv ''mio''
     in if \<not> has_dio \<and> \<not> has_mio then None
        else if has_dio \<and> has_mio then None
        else if has_dio then
          (case htool_get_param_u32 iv ''dio'' of Inl _ \<Rightarrow> None | Inr dio \<Rightarrow> Some (dio, dio + LIBHOTH_GPIO_DIO_PAD_OFFSET))
        else (case htool_get_param_u32 iv ''mio'' of Inl _ \<Rightarrow> None | Inr mio \<Rightarrow> Some (mio, mio)))"

definition command_set_gpio_drive_strength :: "'d htool_dev \<Rightarrow> htool_invocation \<Rightarrow> 'd \<Rightarrow> 'd htool_result" where
  "command_set_gpio_drive_strength env iv = with_device env (\<lambda>dev d.
    case htool_get_param_u32 iv ''strength'' of
      Inl _ \<Rightarrow> ((-1, []), d)
    | Inr strength \<Rightarrow>
        if ucast MAX_GPIO_DRIVE_STRENGTH < strength then ((-1, []), d)
        else
          (case gpio_pad iv of
             None \<Rightarrow> ((-1, []), d)
           | Some (_, pad) \<Rightarrow>
               reported (libhoth_set_gpio_drive_strength (Some dev) (ucast pad) (ucast strength) d) (\<lambda>_. (0, []))))"

definition command_get_gpio_drive_strength :: "'d htool_dev \<Rightarrow> htool_invocation \<Rightarrow> 'd \<Rightarrow> 'd htool_result" where
  "command_get_gpio_drive_strength env iv = with_device env (\<lambda>dev d.
    case gpio_pad iv of
      None \<Rightarrow> ((-1, []), d)
    | Some (index, pad) \<Rightarrow>
        reported (libhoth_get_gpio_drive_strength (Some dev) (ucast pad) (Some 0) d)
          (\<lambda>strength. (0, (if htool_has_param iv ''dio'' then ''DIO '' else ''MIO '') @ dec_nat (unat (ucast index :: u8)) @
             '' drive strength: '' @ dec_nat (unat strength) @ newline)))"

end
