(* ===== verification/Spi_Dump.thy ===== *)
theory Spi_Dump
  imports Htool_Handlers
begin

text \<open>
  Reading the flash into a file: what the loops of \<open>libhoth_spi_proxy_read\<close> and \<open>command_spi_read\<close> put
  into it, piece by piece, from a root of trust that runs the transactions on its flash.
\<close>

section \<open>A flash that is read\<close>

text \<open>
  A read transaction of at most a chunk is answered with the bytes that were clocked in: as many as were
  sent, which mean nothing, and then those of the flash.
\<close>

definition reads_flash :: "'w rot_handler \<Rightarrow> bool \<Rightarrow> bytes \<Rightarrow> 'w \<Rightarrow> bool" where
  "reads_flash h is_4_byte fl w \<longleftrightarrow>
    (\<forall>addr n. 0 < n \<and> n \<le> READ_CHUNK_SIZE \<and> unat addr + n \<le> length fl \<longrightarrow>
      (\<exists>sent. length sent = 1 + (if is_4_byte then 4 else 3) \<and>
        h (HOTH_CMD_BOARD_SPECIFIC_BASE + HOTH_PRV_CMD_HOTH_SPI_OPERATION) 0
          (encode_transactions [(SPI_OP_READ # spi_address_bytes is_4_byte addr, n)]) w =
        ((0, sent @ byte_range (unat addr) n fl), w)))"

lemma spi_execute_one:
  assumes "spi_built op [(m, n)]" "0 < n" "length sent = length m" "length d = n" "length m + n \<le> 1016"
    and "h (HOTH_CMD_BOARD_SPECIFIC_BASE + HOTH_PRV_CMD_HOTH_SPI_OPERATION) 0 (encode_transactions [(m, n)]) w = ((0, sent @ d), w)"
  shows "\<exists>q'. spi_operation_execute op (Some (rot_device h)) (w, q) = (Inr [d], (w, q'))"
proof -
  obtain t where t: "op_transactions op = [t]" "transaction_shape t = (length m, True, n)"
    using assms(1,2) by (auto simp: spi_built_def spi_shapes_def map_eq_Cons_conv)
  have c: "collect_miso (sent @ d) 0 (op_transactions op) = Some [d]"
    using t assms(2-4) by (simp add: transaction_shape_def byte_range_def)
  have p: "take (op_pos op) (op_buf op) = encode_transactions [(m, n)]"
    "length (encode_transactions [(m, n)]) \<le> 1016"
    using assms(1) by (auto simp: spi_built_def spi_limits)
  have r: "rpc h (HOTH_CMD_BOARD_SPECIFIC_BASE + HOTH_PRV_CMD_HOTH_SPI_OPERATION) 0 (encode_transactions [(m, n)])
      MAX_SPI_OP_PAYLOAD_BYTES True w = (Inr (sent @ d), w)"
    by (rule rpc_ok [of h _ 0 "encode_transactions [(m, n)]" w "sent @ d" w True MAX_SPI_OP_PAYLOAD_BYTES, OF assms(6) p(2)]) (use assms(3-5) in \<open>simp_all add: spi_limits\<close>)
  show ?thesis unfolding spi_operation_execute_def p(1) hostcmd_rot r by (simp add: c)
qed

lemma spi_read_chunk_flash:
  assumes "reads_flash h is_4_byte fl w" "length (op_buf stk) = 1016" "0 < n" "n \<le> READ_CHUNK_SIZE" "unat addr + n \<le> length fl"
  shows "\<exists>q'. spi_read_chunk stk (Some (rot_device h)) is_4_byte addr n (w, q) = Some (Inr (byte_range (unat addr) n fl), (w, q'))"
proof -
  let ?m = "SPI_OP_READ # spi_address_bytes is_4_byte addr"
  have "spi_built (spi_operation_init stk) []" using assms(2) by (intro spi_init_built) (simp add: spi_limits)
  from spi_begin [OF this] obtain op1 where
    1: "spi_operation_begin_transaction (spi_operation_init stk) = Some op1" "spi_building op1 [] []" by auto
  obtain op2 where 2: "spi_operation_write_mosi [SPI_OP_READ] op1 = Some op2" "spi_building op2 [] [SPI_OP_READ]"
    using spi_write [OF 1(2), of "[SPI_OP_READ]"] by auto
  obtain op3 where 3: "spi_operation_write_mosi_address is_4_byte addr op2 = Some op3" "spi_building op3 [] ?m"
    using spi_write [OF 2(2), of "spi_address_bytes is_4_byte addr"]
    by (cases is_4_byte) (auto simp: spi_operation_write_mosi_address_def)
  obtain op4 where 4: "spi_operation_read_miso_and_end_transaction True n op3 = Some op4" "spi_built op4 [(?m, n)]"
    using spi_end [OF 3(2), of n] assms(3) by auto
  obtain sent where h: "length sent = length ?m"
    "h (HOTH_CMD_BOARD_SPECIFIC_BASE + HOTH_PRV_CMD_HOTH_SPI_OPERATION) 0 (encode_transactions [(?m, n)]) w =
      ((0, sent @ byte_range (unat addr) n fl), w)"
    using assms(1,3-5) unfolding reads_flash_def by force
  have "\<exists>q'. spi_operation_execute op4 (Some (rot_device h)) (w, q) = (Inr [byte_range (unat addr) n fl], (w, q'))"
    by (rule spi_execute_one [of op4 ?m n sent "byte_range (unat addr) n fl" h w q, OF 4(2) assms(3) h(1) _ _ h(2)]) (use assms(4,5) in \<open>simp_all add: spi_limits\<close>)
  then show ?thesis by (auto simp: spi_read_chunk_def 1(1) 2(1) 3(1) 4(1))
qed

lemma spi_proxy_read_flash:
  assumes "reads_flash h is_4_byte fl w" "length (op_buf stk) = 1016" "length fl \<le> 2 ^ 32" "unat addr + n \<le> length fl"
  shows "\<exists>q'. libhoth_spi_proxy_read stk (Some (rot_device h)) is_4_byte addr n (w, q) =
    Some (Inr (byte_range (unat addr) n fl), (w, q'))"
  using assms(4)
proof (induction n arbitrary: addr q rule: less_induct)
  case (less n)
  show ?case
  proof (cases "n = 0")
    case True
    then show ?thesis by (subst libhoth_spi_proxy_read.simps) (simp add: byte_range_def)
  next
    case False
    define k where "k = min n READ_CHUNK_SIZE"
    have k: "0 < k" "k \<le> n" "k \<le> READ_CHUNK_SIZE" using False by (simp_all add: k_def spi_limits)
    obtain q1 where c: "spi_read_chunk stk (Some (rot_device h)) is_4_byte addr k (w, q) =
        Some (Inr (byte_range (unat addr) k fl), (w, q1))"
      using spi_read_chunk_flash [OF assms(1,2) k(1,3), of addr q] k(2) less.prems by auto
    have "\<exists>q2. libhoth_spi_proxy_read stk (Some (rot_device h)) is_4_byte (addr + word_of_nat k) (n - k) (w, q1) =
        Some (Inr (byte_range (unat addr + k) (n - k) fl), (w, q2))"
    proof (cases "n - k = 0")
      case True
      then show ?thesis by (subst libhoth_spi_proxy_read.simps) (simp add: byte_range_def)
    next
      case False
      then have "unat (addr + word_of_nat k) = unat addr + k"
        using less.prems assms(3) by (simp add: unat_word_ariths unat_of_nat)
      then show ?thesis using less.IH [of "n - k" "addr + word_of_nat k" q1] k less.prems by simp
    qed
    then obtain q2 where r: "libhoth_spi_proxy_read stk (Some (rot_device h)) is_4_byte (addr + word_of_nat k) (n - k) (w, q1) =
        Some (Inr (byte_range (unat addr + k) (n - k) fl), (w, q2))" by (elim exE)
    have "byte_range (unat addr) k fl @ byte_range (unat addr + k) (n - k) fl = byte_range (unat addr) n fl"
      using k(2) by (intro byte_range_join) simp_all
    with c r False show ?thesis by (subst libhoth_spi_proxy_read.simps) (simp add: k_def [symmetric])
  qed
qed

lemma spi_proxy_init_ok:
  assumes "length (op_buf stk) = 1016"
    and "h (HOTH_CMD_BOARD_SPECIFIC_BASE + HOTH_PRV_CMD_HOTH_SPI_OPERATION) 0
        (encode_transactions [([if enter_4b then SPI_OP_ENTER_4B else SPI_OP_READ_STATUS], 0)]) w0 = ((0, r), w)" "length r \<le> 1016"
  shows "\<exists>q'. libhoth_spi_proxy_init stk (Some (rot_device h)) enter_4b (w0, q) = Some (Inr [], (w, q'))"
proof -
  let ?m = "[if enter_4b then SPI_OP_ENTER_4B else SPI_OP_READ_STATUS]"
  have "spi_built (spi_operation_init stk) []" using assms(1) by (intro spi_init_built) (simp add: spi_limits)
  from spi_begin [OF this] obtain op1 where
    1: "spi_operation_begin_transaction (spi_operation_init stk) = Some op1" "spi_building op1 [] []" by auto
  obtain op2 where 2: "spi_operation_write_mosi ?m op1 = Some op2" "spi_building op2 [] ?m"
    using spi_write [OF 1(2), of ?m] by auto
  obtain op3 where 3: "spi_operation_end_transaction op2 = Some op3" "spi_built op3 [(?m, 0)]"
    using spi_end_transaction_built [OF 2(2)] by auto
  have p: "take (op_pos op3) (op_buf op3) = encode_transactions [(?m, 0)]"
    "length (encode_transactions [(?m, 0)]) \<le> 1016"
    using 3(2) by (auto simp: spi_built_def spi_limits)
  obtain t where t: "op_transactions op3 = [t]" "transaction_shape t = (1, False, 0)"
    using 3(2) by (auto simp: spi_built_def spi_shapes_def map_eq_Cons_conv)
  then have c: "collect_miso r 0 (op_transactions op3) = Some []" by (simp add: transaction_shape_def)
  have r: "rpc h (HOTH_CMD_BOARD_SPECIFIC_BASE + HOTH_PRV_CMD_HOTH_SPI_OPERATION) 0 (encode_transactions [(?m, 0)])
      MAX_SPI_OP_PAYLOAD_BYTES True w0 = (Inr r, w)"
    by (rule rpc_ok [of h _ 0 "encode_transactions [(?m, 0)]" w0 r w True MAX_SPI_OP_PAYLOAD_BYTES, OF assms(2) p(2) assms(3)])
      (use assms(3) in \<open>simp add: spi_limits\<close>)
  have "\<exists>q'. spi_operation_execute op3 (Some (rot_device h)) (w0, q) = (Inr [], (w, q'))"
    unfolding spi_operation_execute_def p(1) hostcmd_rot r by (simp add: c)
  then show ?thesis by (simp add: libhoth_spi_proxy_init_def 1(1) 2(1) 3(1))
qed

section \<open>A flash that is written\<close>

text \<open>The effect of the transactions is that on the flash; what is read is its content.\<close>

definition nor_firmware :: "'w rot_handler \<Rightarrow> bool \<Rightarrow> ('w \<Rightarrow> bool \<times> bytes) \<Rightarrow> bool" where
  "nor_firmware h is_4_byte chip \<longleftrightarrow>
    (\<forall>ts w st. length (encode_transactions ts) < 1016 \<and> (\<forall>t \<in> set ts. snd t = 0) \<and> nor_run is_4_byte ts (chip w) = Some st \<longrightarrow>
      (\<exists>r w'. h (HOTH_CMD_BOARD_SPECIFIC_BASE + HOTH_PRV_CMD_HOTH_SPI_OPERATION) 0 (encode_transactions ts) w = ((0, r), w') \<and>
        length r \<le> 1016 \<and> chip w' = st)) \<and>
    (\<forall>w. reads_flash h is_4_byte (snd (chip w)) w)"

lemma spi_exec_nor:
  assumes "nor_firmware h is_4_byte chip" "length (encode_transactions ts) < 1016" "\<forall>t \<in> set ts. snd t = 0"
    and "nor_run is_4_byte ts (chip w) = Some st"
  shows "\<exists>r w' q'. spi_exec (Some (rot_device h)) ts (w, q) = (Inr r, (w', q')) \<and> chip w' = st"
proof -
  obtain r w' where h: "h (HOTH_CMD_BOARD_SPECIFIC_BASE + HOTH_PRV_CMD_HOTH_SPI_OPERATION) 0 (encode_transactions ts) w = ((0, r), w')"
    "length r \<le> 1016" "chip w' = st"
    using assms unfolding nor_firmware_def by blast
  have "rpc h (HOTH_CMD_BOARD_SPECIFIC_BASE + HOTH_PRV_CMD_HOTH_SPI_OPERATION) 0 (encode_transactions ts) 1016 True w = (Inr r, w')"
    by (rule rpc_ok [of h _ 0 "encode_transactions ts" w r w' True 1016, OF h(1)]) (use assms(2) h(2) in simp_all)
  with h(3) show ?thesis unfolding spi_exec_def hostcmd_rot by simp
qed

lemma spi_ops_nor:
  assumes "nor_firmware h is_4_byte chip"
    and "\<forall>ts \<in> set tss. length (encode_transactions ts) < 1016 \<and> (\<forall>t \<in> set ts. snd t = 0)"
    and "nor_run is_4_byte (concat tss) (chip w) = Some st"
  shows "\<exists>w' q'. run_requests (spi_exec (Some (rot_device h))) tss (w, q) = (Inr (), (w', q')) \<and> chip w' = st"
  using assms(2,3)
proof (induction tss arbitrary: w q)
  case (Cons ts tss)
  from Cons.prems(2) obtain st1 where st1: "nor_run is_4_byte ts (chip w) = Some st1" "nor_run is_4_byte (concat tss) st1 = Some st"
    by (auto simp: nor_run_append split: option.splits)
  obtain r w1 q1 where e: "spi_exec (Some (rot_device h)) ts (w, q) = (Inr r, (w1, q1))" "chip w1 = st1"
    using spi_exec_nor [OF assms(1) _ _ st1(1), of q] Cons.prems(1) by auto
  with Cons.IH [of w1 q1] Cons.prems(1) st1(2) show ?case by simp
qed simp

lemma update_transactions_no_miso: "t \<in> set (update_transactions is_4_byte addr need buf) \<Longrightarrow> snd t = 0"
proof (induction "length buf" arbitrary: addr need buf rule: less_induct)
  case less
  show ?case
  proof (cases "buf = []")
    case True
    then show ?thesis using less.prems by (simp add: update_transactions.simps)
  next
    case False
    have "t \<in> set (page_transactions is_4_byte addr need buf) \<or>
        t \<in> set (update_transactions is_4_byte (addr + word_of_nat (spi_write_len addr (length buf)))
          (page_need addr need buf) (drop (spi_write_len addr (length buf)) buf))"
      using less.prems False by (subst (asm) update_transactions.simps) simp
    then show ?thesis
      using page_transactions_no_miso less.hyps [OF spi_write_len_drop [OF False]] by blast
  qed
qed

lemma spi_ops_no_miso:
  assumes "ts \<in> set (spi_update_ops is_4_byte addr need pages buf [])" "t \<in> set ts"
  shows "snd t = 0"
proof -
  have "t \<in> set (concat (spi_update_ops is_4_byte addr need pages buf []))" using assms by auto
  then show ?thesis using update_transactions_no_miso unfolding concat_spi_update_ops by (auto split: if_splits)
qed

lemma spi_verify_flash:
  assumes "reads_flash h is_4_byte fl w" "length (op_buf stk) = 1016" "length fl \<le> 2 ^ 32" "unat addr + length buf \<le> length fl"
    and "byte_range (unat addr) (length buf) fl = buf"
  shows "\<exists>q'. libhoth_spi_proxy_verify stk (Some (rot_device h)) is_4_byte addr buf (w, q) = Some (Inr (), (w, q'))"
  using assms(4,5)
proof (induction "length buf" arbitrary: buf addr q rule: less_induct)
  case less
  show ?case
  proof (cases "buf = []")
    case True
    then show ?thesis by (subst libhoth_spi_proxy_verify.simps) simp
  next
    case False
    define k where "k = min (length buf) READ_CHUNK_SIZE"
    have k: "0 < k" "k \<le> length buf" "k \<le> READ_CHUNK_SIZE" using False by (simp_all add: k_def spi_limits)
    obtain q1 where c: "spi_read_chunk stk (Some (rot_device h)) is_4_byte addr k (w, q) =
        Some (Inr (byte_range (unat addr) k fl), (w, q1))"
      using spi_read_chunk_flash [OF assms(1,2) k(1,3), of addr q] k(2) less.prems(1) by auto
    have "byte_range (unat addr) k fl @ byte_range (unat addr + k) (length buf - k) fl = take k buf @ drop k buf"
      using byte_range_join [of "unat addr + k" "unat addr" k "length buf" "length buf - k" fl] k(2) less.prems(2) by simp
    moreover have "length (byte_range (unat addr) k fl) = length (take k buf)" using k(2) less.prems(1) by simp
    ultimately have "byte_range (unat addr) k fl = take k buf \<and> byte_range (unat addr + k) (length buf - k) fl = drop k buf"
      by (metis append_eq_append_conv)
    then have parts: "byte_range (unat addr) k fl = take k buf" "byte_range (unat addr + k) (length buf - k) fl = drop k buf"
      by simp_all
    have "\<exists>q2. libhoth_spi_proxy_verify stk (Some (rot_device h)) is_4_byte (addr + word_of_nat k) (drop k buf) (w, q1) =
        Some (Inr (), (w, q2))"
    proof (cases "drop k buf = []")
      case True
      then show ?thesis by (subst libhoth_spi_proxy_verify.simps) simp
    next
      case False
      then have "unat (addr + word_of_nat k) = unat addr + k"
        using less.prems(1) assms(3) by (simp add: unat_word_ariths unat_of_nat)
      then show ?thesis using less.hyps [of "drop k buf" "addr + word_of_nat k" q1] k less.prems(1) parts(2) by simp
    qed
    then show ?thesis using c parts(1) False by (subst libhoth_spi_proxy_verify.simps) (simp add: k_def [symmetric])
  qed
qed

lemma proxy_update_flash:
  assumes "nor_firmware h is_4_byte chip" "chip w = (False, fl)" "length (op_buf stk) = 1016"
    and "unat addr + length buf \<le> 2 ^ 32 - 65536" "is_4_byte \<or> unat addr + length buf \<le> 2 ^ 24" "buf \<noteq> []"
    and "hi = (unat addr + length buf + 4095) div 4096 * 4096" "hi \<le> length fl" "lo = unat addr div 4096 * 4096"
  shows "\<exists>w' q'. libhoth_spi_proxy_update stk (Some (rot_device h)) is_4_byte addr buf (w, q) = Some (Inr (), (w', q')) \<and>
    snd (chip w') = take lo fl @ replicate (unat addr - lo) 0xFF @ buf
      @ replicate (hi - (unat addr + length buf)) 0xFF @ drop hi fl"
proof -
  let ?ops = "spi_update_ops is_4_byte addr addr 0 buf []"
  have "unat addr + length buf \<le> 2 ^ 32 - 256" using assms(4) by simp
  from spi_proxy_update_no_abort [OF assms(3) this, of "Some (rot_device h)" is_4_byte "(w, q)"]
  have upd: "libhoth_spi_proxy_update stk (Some (rot_device h)) is_4_byte addr buf (w, q) =
      Some (run_requests (spi_exec (Some (rot_device h))) ?ops (w, q))"
    and ops: "\<forall>ts \<in> set ?ops. length (encode_transactions ts) < 1016"
    by (auto simp: spi_limits)
  obtain wel fl' where nor: "nor_run is_4_byte (concat ?ops) (chip w) = Some (wel, fl')"
    "fl' = take lo fl @ replicate (unat addr - lo) 0xFF @ buf
      @ replicate (hi - (unat addr + length buf)) 0xFF @ drop hi fl"
    using spi_ops_effect [OF assms(4-9)] assms(2) by auto
  obtain w' q2 where "run_requests (spi_exec (Some (rot_device h))) ?ops (w, q) = (Inr (), (w', q2))" "chip w' = (wel, fl')"
    using spi_ops_nor [OF assms(1) _ nor(1), of q] ops spi_ops_no_miso [of _ is_4_byte addr addr 0 buf] by blast
  then show ?thesis using upd nor(2) by simp
qed

text \<open>
  C4: updating a range of the flash through the proxy succeeds. The range then holds the data, the
  sectors it touches are otherwise erased, in front of the data as well as behind it, and nothing else
  has changed. Nothing is assumed of the flash for page programs that cross a page boundary and for
  accesses that leave the chip, and without the write-enable latch it ignores erases and programs.
\<close>

theorem spi_proxy_update_effect:
  assumes "nor_firmware h is_4_byte chip" "chip w = (False, fl)" "length (op_buf stk) = 1016"
    and "unat addr + length buf \<le> 2 ^ 32 - 65536" "is_4_byte \<or> unat addr + length buf \<le> 2 ^ 24" "buf \<noteq> []"
    and "hi = (unat addr + length buf + 4095) div 4096 * 4096" "hi \<le> length fl" "lo = unat addr div 4096 * 4096"
  shows "\<exists>w' q'. libhoth_spi_proxy_update stk (Some (rot_device h)) is_4_byte addr buf (w, q) = Some (Inr (), (w', q')) \<and>
    snd (chip w') = take lo fl @ replicate (unat addr - lo) 0xFF @ buf
      @ replicate (hi - (unat addr + length buf)) 0xFF @ drop hi fl"
  by (rule proxy_update_flash [OF assms])

section \<open>The file\<close>

lemma spi_read_loop_file:
  assumes "reads_flash h is_4_byte fl w" "length (op_buf stk) = 1016" "length fl \<le> 2 ^ 32"
    and "appends_to (write_fd os fd) content ready c name"
    and "unat addr + n \<le> length fl" "ready f" "content f = c(name \<mapsto> old)"
  shows "\<exists>q' f'. spi_read_loop stk os (rot_device h) is_4_byte fd addr n (w, q) f = Some (True, (w, q'), f') \<and>
    content f' = c(name \<mapsto> old @ byte_range (unat addr) n fl)"
  using assms(5-7)
proof (induction n arbitrary: addr q f old rule: less_induct)
  case (less n)
  show ?case
  proof (cases "n = 0")
    case True
    then show ?thesis using less.prems by (subst spi_read_loop.simps) (simp add: byte_range_def fun_upd_def)
  next
    case False
    define k where "k = min n 65536"
    have k: "0 < k" "k \<le> n" using False by (simp_all add: k_def)
    obtain q1 where c: "libhoth_spi_proxy_read stk (Some (rot_device h)) is_4_byte addr k (w, q) =
        Some (Inr (byte_range (unat addr) k fl), (w, q1))"
      using spi_proxy_read_flash [OF assms(1-3), of addr k q] k(2) less.prems(1) by auto
    obtain f1 where f1: "libhoth_force_write (write_fd os fd) (byte_range (unat addr) k fl) f = Some (0, f1)"
      "content f1 = c(name \<mapsto> old @ byte_range (unat addr) k fl)" "ready f1"
      using force_write_file [OF assms(4) less.prems(2,3)] by blast
    have "\<exists>q2 f2. spi_read_loop stk os (rot_device h) is_4_byte fd (addr + word_of_nat k) (n - k) (w, q1) f1 = Some (True, (w, q2), f2) \<and>
        content f2 = c(name \<mapsto> (old @ byte_range (unat addr) k fl) @ byte_range (unat addr + k) (n - k) fl)"
    proof (cases "n - k = 0")
      case True
      then show ?thesis using f1(2) by (subst spi_read_loop.simps) (simp add: byte_range_def fun_upd_def)
    next
      case False
      then have "unat (addr + word_of_nat k) = unat addr + k"
        using less.prems(1) assms(3) by (simp add: unat_word_ariths unat_of_nat)
      then show ?thesis using less.IH [of "n - k" "addr + word_of_nat k" f1 _ q1, OF _ _ f1(3,2)] k less.prems(1) by (simp add: fun_upd_def)
    qed
    moreover have "byte_range (unat addr) k fl @ byte_range (unat addr + k) (n - k) fl = byte_range (unat addr) n fl"
      using k(2) by (intro byte_range_join) simp_all
    ultimately obtain q2 f2 where r: "spi_read_loop stk os (rot_device h) is_4_byte fd (addr + word_of_nat k) (n - k) (w, q1) f1 =
        Some (True, (w, q2), f2)" "content f2 = c(name \<mapsto> old @ byte_range (unat addr) n fl)"
      by (elim exE conjE) simp
    with c f1(1) False show ?thesis by (subst spi_read_loop.simps) (simp add: k_def [symmetric])
  qed
qed

text \<open>
  C18: dumping a part of the flash leaves in the file exactly the bytes of the flash in that range,
  whatever its length and however little each write takes; no other file is changed.
\<close>

theorem spi_read_dumps:
  assumes "connected env (rot_device h)" "stores_files os content is_open" "length (op_buf stk) = 1016" "length fl \<le> 2 ^ 32"
    and "htool_get_param_u32 iv ''start'' = Inr start" "htool_get_param_u32 iv ''length'' = Inr len"
    and "htool_get_param_string iv ''dest-file'' = Inr name" "htool_get_param_string iv ''address_mode'' = Inr mode"
    and "get_address_mode mode = Some (is_4_byte, enter_4b)"
    and "h (HOTH_CMD_BOARD_SPECIFIC_BASE + HOTH_PRV_CMD_HOTH_SPI_OPERATION) 0
        (encode_transactions [([if enter_4b then SPI_OP_ENTER_4B else SPI_OP_READ_STATUS], 0)]) w0 = ((0, r), w)" "length r \<le> 1016"
    and "reads_flash h is_4_byte fl w" "unat start + unat len \<le> length fl"
  shows "\<exists>q' f'. command_spi_read stk os env iv (w0, q) f = Some ((0, []), (w, q'), f') \<and>
    content f' = (content f)(name \<mapsto> byte_range (unat start) (unat len) fl)"
proof -
  let ?m = "[if enter_4b then SPI_OP_ENTER_4B else SPI_OP_READ_STATUS]"
  have init: "\<exists>q1. libhoth_spi_proxy_init stk (Some (rot_device h)) enter_4b (w0, q) = Some (Inr [], (w, q1))"
    by (rule spi_proxy_init_ok [of stk h enter_4b w0 r w q, OF assms(3,10,11)])
  then obtain q1 where init: "libhoth_spi_proxy_init stk (Some (rot_device h)) enter_4b (w0, q) = Some (Inr [], (w, q1))"
    by (elim exE)
  obtain fd f1 where f1: "create_file os name f = (Some fd, f1)" "content f1 = (content f)(name \<mapsto> [])"
      "is_open fd name f1" "appends_to (write_fd os fd) content (is_open fd name) (content f) name" "\<And>f2. content (close_fd os fd f2) = content f2"
    using assms(2) unfolding stores_files_def by blast
  obtain q2 f2 where loop: "spi_read_loop stk os (rot_device h) is_4_byte fd start (unat len) (w, q1) f1 = Some (True, (w, q2), f2)"
      "content f2 = (content f)(name \<mapsto> byte_range (unat start) (unat len) fl)"
    using spi_read_loop_file [OF assms(12,3,4) f1(4) assms(13) f1(3,2), of q1] by auto
  have "command_spi_read stk os env iv (w0, q) f = Some ((0, []), (w, q2), close_fd os fd f2)"
    using assms(1) by (simp add: command_spi_read_def connected_def assms(5-9) f1(1) init loop(1))
  with loop(2) f1(5) show ?thesis by (intro exI [of _ q2] exI [of _ "close_fd os fd f2"]) simp
qed

text \<open>
  C5: updating the flash from a file with verification returns 0 and leaves the content of the file
  in the flash at the address, erases what else the sectors hold that it touches, and changes nothing
  else, neither of the flash nor of the files.
\<close>

theorem spi_update_installs_file:
  assumes "connected env (rot_device h)" "maps_files os content" "length (op_buf stk) = 1016"
    and "htool_get_param_u32 iv ''start'' = Inr start" "htool_get_param_bool iv ''verify'' = Inr True"
    and "htool_get_param_string iv ''source-file'' = Inr name" "htool_get_param_string iv ''address_mode'' = Inr mode"
    and "get_address_mode mode = Some (is_4_byte, enter_4b)" "content f name = Some data" "data \<noteq> []"
    and "h (HOTH_CMD_BOARD_SPECIFIC_BASE + HOTH_PRV_CMD_HOTH_SPI_OPERATION) 0
        (encode_transactions [([if enter_4b then SPI_OP_ENTER_4B else SPI_OP_READ_STATUS], 0)]) w0 = ((0, r), w)" "length r \<le> 1016"
    and "nor_firmware h is_4_byte chip" "chip w = (False, fl)" "length fl \<le> 2 ^ 32"
    and "unat start + length data \<le> 2 ^ 32 - 65536" "is_4_byte \<or> unat start + length data \<le> 2 ^ 24"
    and "hi = (unat start + length data + 4095) div 4096 * 4096" "hi \<le> length fl" "lo = unat start div 4096 * 4096"
  shows "\<exists>w' q' f'. command_spi_update stk os env iv (w0, q) f = Some ((0, []), (w', q'), f') \<and> content f' = content f \<and>
    snd (chip w') = take lo fl @ replicate (unat start - lo) 0xFF @ data
      @ replicate (hi - (unat start + length data)) 0xFF @ drop hi fl"
proof -
  let ?fl = "take lo fl @ replicate (unat start - lo) 0xFF @ data
      @ replicate (hi - (unat start + length data)) 0xFF @ drop hi fl"
  have "\<exists>q1. libhoth_spi_proxy_init stk (Some (rot_device h)) enter_4b (w0, q) = Some (Inr [], (w, q1))"
    by (rule spi_proxy_init_ok [of stk h enter_4b w0 r w q, OF assms(3,11,12)])
  then obtain q1 where init: "libhoth_spi_proxy_init stk (Some (rot_device h)) enter_4b (w0, q) = Some (Inr [], (w, q1))"
    by (elim exE)
  obtain w' q2 where upd: "libhoth_spi_proxy_update stk (Some (rot_device h)) is_4_byte start data (w, q1) =
      Some (Inr (), (w', q2))" "snd (chip w') = ?fl"
    using proxy_update_flash [OF assms(13,14,3,16,17,10,18-20), of q1] by blast
  have hi: "unat start + length data \<le> hi" using round_up_le [of 4096 "unat start + length data"] assms(18) by simp
  have lo: "lo \<le> unat start" using assms(20) by simp
  have len: "length ?fl = length fl" using hi lo assms(19) by simp
  have inside: "byte_range (unat start) (length data) ?fl = data"
    using hi lo assms(19) by (simp add: byte_range_def)
  have "reads_flash h is_4_byte ?fl w'" using assms(13) upd(2) by (metis nor_firmware_def prod.collapse)
  from spi_verify_flash [OF this assms(3), of start data q2] len inside assms(15,19) hi
  obtain q3 where ver: "libhoth_spi_proxy_verify stk (Some (rot_device h)) is_4_byte start data (w', q2) = Some (Inr (), (w', q3))"
    by (auto simp del: length_append)
  have all: "spi_update_and_verify stk (rot_device h) is_4_byte enter_4b True start (Some data) (w0, q) = Some (0, (w', q3))"
    by (simp add: spi_update_and_verify_def init upd(1) ver)
  obtain fd f1 f2 f3 m where files: "open_file os name f = (Some fd, f1)" "stat_size os fd f1 = (Some (length data), f2)"
      "map_fd os fd (length data) f2 = (Some data, f3)" "content f3 = content f"
      "\<And>f. content (close_fd os fd f) = content f" "\<And>f. content (unmap os f) = content f"
    using assms(2,9,10) unfolding maps_files_def by metis
  have "command_spi_update stk os env iv (w0, q) f = Some ((0, []), (w', q3), close_fd os fd (unmap os f3))"
    using assms(1) by (simp add: command_spi_update_def connected_def assms(4-8) with_mapped_file_def files(1-3) mapped_def all)
  with files(4-6) upd(2) show ?thesis by (intro exI [of _ w'] exI [of _ q3] exI [of _ "close_fd os fd (unmap os f3)"]) simp
qed

section \<open>Examples\<close>

text \<open>A root of trust that decodes the transactions and runs them on its flash.\<close>

fun decode_transactions :: "nat \<Rightarrow> bytes \<Rightarrow> spi_transaction list" where
  "decode_transactions 0 p = []"
| "decode_transactions (Suc k) p =
    (if p = [] then []
     else let m = unat (u16_at 0 p) in (byte_range 4 m p, unat (u16_at 2 p) - m) # decode_transactions k (drop (4 + m) p))"

lemma decode_encode_transactions:
  "length (encode_transactions ts) \<le> k \<Longrightarrow> \<forall>t \<in> set ts. length (fst t) + snd t < 65536 \<Longrightarrow>
    decode_transactions k (encode_transactions ts) = ts"
proof (induction ts arbitrary: k)
  case Nil
  then show ?case by (cases k) simp_all
next
  case (Cons t ts)
  then obtain k' where k: "k = Suc k'" by (cases k) simp_all
  obtain m n where t: "t = (m, n)" by (cases t)
  let ?l = "le_bytes 2 (word_of_nat (length m) :: u16)" and ?s = "le_bytes 2 (word_of_nat (if 0 < n then length m + n else 0) :: u16)"
  have e: "encode_transactions (t # ts) = ?l @ ?s @ m @ encode_transactions ts" by (simp add: t encode_transaction_def)
  have u: "unat (word_of_nat j :: u16) = j" if "j < 65536" for j
    using that unat_of_nat [where 'a = 16, of j] by simp
  have b: "length m + n < 65536" "length m < 65536" using Cons.prems(2) t by auto
  have "u16_at 0 (encode_transactions (t # ts)) = word_of_nat (length m)"
    "u16_at 2 (encode_transactions (t # ts)) = word_of_nat (if 0 < n then length m + n else 0)"
    unfolding e by (simp_all add: u16_at_def byte_range_def)
  moreover have "byte_range 4 (length m) (encode_transactions (t # ts)) = m"
    "drop (4 + length m) (encode_transactions (t # ts)) = encode_transactions ts"
    unfolding e by (simp_all add: byte_range_def)
  moreover have "decode_transactions k' (encode_transactions ts) = ts" using Cons k by simp
  moreover have "encode_transactions (t # ts) \<noteq> []" unfolding e by (simp add: numeral_2_eq_2)
  ultimately show ?case using u b by (simp add: k t Let_def)
qed

definition chip_rot :: "bool \<Rightarrow> (bool \<times> bytes) rot_handler" where
  "chip_rot is_4_byte c v p w =
    (let ts = decode_transactions 1016 p
     in case ts of
          [(mosi, Suc n)] \<Rightarrow>
            ((0, zeros (length mosi) @ byte_range (be_nat (take (if is_4_byte then 4 else 3) (tl mosi))) (Suc n) (snd w)), w)
        | _ \<Rightarrow> (case nor_run is_4_byte ts w of Some st \<Rightarrow> ((0, []), st) | None \<Rightarrow> ((1, []), w)))"

lemma chip_rot_firmware: "nor_firmware (chip_rot True) True (\<lambda>w. w)"
proof -
  have "chip_rot True c v (encode_transactions ts) w = ((0, []), st)"
    if "length (encode_transactions ts) < 1016" "\<forall>t \<in> set ts. snd t = 0" "nor_run True ts w = Some st" for ts w st c v
  proof -
    have "length (fst t) + snd t < 65536" if "t \<in> set ts" for t
    proof -
      have "length (encode_transaction t) \<le> length (encode_transactions ts)"
        using \<open>t \<in> set ts\<close> by (induction ts) auto
      then show ?thesis using \<open>length (encode_transactions ts) < 1016\<close> \<open>\<forall>t \<in> set ts. snd t = 0\<close> that by simp
    qed
    then have d: "decode_transactions 1016 (encode_transactions ts) = ts"
      using that(1) by (intro decode_encode_transactions) auto
    show ?thesis
    proof (cases "\<exists>mosi n. ts = [(mosi, Suc n)]")
      case True
      with that(2) show ?thesis by auto
    next
      case False
      then show ?thesis
        using that(3) by (auto simp: chip_rot_def d Let_def split: list.splits prod.splits nat.splits)
    qed
  qed
  moreover have "reads_flash (chip_rot True) True (snd w) w" for w
  proof -
    have "chip_rot True c v (encode_transactions [(SPI_OP_READ # spi_address_bytes True addr, n)]) w =
        ((0, zeros 5 @ byte_range (unat addr) n (snd w)), w)" if "0 < n" "n \<le> READ_CHUNK_SIZE" for addr n c v
    proof -
      have "decode_transactions 1016 (encode_transactions [(SPI_OP_READ # spi_address_bytes True addr, n)]) =
          [(SPI_OP_READ # spi_address_bytes True addr, n)]"
        using that by (intro decode_encode_transactions) (simp_all add: spi_limits)
      moreover have "\<exists>n'. n = Suc n'" using that by (cases n) auto
      ultimately show ?thesis by (auto simp: chip_rot_def be_nat_address)
    qed
    then show ?thesis by (auto simp: reads_flash_def intro!: exI [of _ "zeros 5"])
  qed
  ultimately show ?thesis by (auto simp: nor_firmware_def)
qed

lemma chip_rot_init:
  "chip_rot True (HOTH_CMD_BOARD_SPECIFIC_BASE + HOTH_PRV_CMD_HOTH_SPI_OPERATION) 0
    (encode_transactions [([if True then SPI_OP_ENTER_4B else SPI_OP_READ_STATUS], 0)]) (False, fl) = ((0, []), (False, fl))"
proof -
  have "decode_transactions 1016 (encode_transactions [([SPI_OP_ENTER_4B], 0)]) = [([SPI_OP_ENTER_4B], 0)]"
    by (rule decode_encode_transactions) simp_all
  then show ?thesis by (simp add: chip_rot_def nor_step_def spi_opcodes Let_def)
qed

theorem spi_proxy_update_effect_witness:
  "\<exists>w' q'. libhoth_spi_proxy_update fresh_op (Some (rot_device (chip_rot True))) True 16 [1, 2, 3]
      ((False, zeros 5000), []) = Some (Inr (), (w', q')) \<and>
    snd w' = replicate 16 0xFF @ [1, 2, 3] @ replicate 4077 0xFF @ zeros 904"
  using spi_proxy_update_effect [OF chip_rot_firmware, of "(False, zeros 5000)" "zeros 5000" fresh_op 16 "[1, 2, 3]" 4096 0 "[]"]
  by (simp add: fresh_op_def)

theorem spi_read_dumps_witness:
  "\<exists>w' q' f'. command_spi_read fresh_op memory_posix
      \<lparr>connect = (\<lambda>d. (Some (rot_device (chip_rot True)), d)), un_supported = (\<lambda>_. 0), un_bytes_read = (\<lambda>_. 0)\<rparr>
      (demo_args [(''start'', ''4998''), (''length'', ''5''), (''dest-file'', ''dump''), (''address_mode'', ''3B/4B'')])
      ((False, replicate 5000 7 @ [1, 2, 3]), []) (Map.empty, []) = Some ((0, []), (w', q'), f') \<and> fst f' ''dump'' = Some [7, 7, 1, 2, 3]"
proof -
  let ?fl = "replicate 5000 7 @ [1, 2, 3] :: bytes"
  let ?env = "\<lparr>connect = (\<lambda>d. (Some (rot_device (chip_rot True)), d)), un_supported = (\<lambda>_. 0), un_bytes_read = (\<lambda>_. 0)\<rparr>
    :: ((bool \<times> bytes) \<times> bytes) htool_dev"
  let ?iv = "demo_args [(''start'', ''4998''), (''length'', ''5''), (''dest-file'', ''dump''), (''address_mode'', ''3B/4B'')]"
  have env: "connected ?env (rot_device (chip_rot True))" by (simp add: connected_def)
  have texts: "dec_nat 4998 = ''4998''" "dec_nat 5 = ''5''" by code_simp+
  have args: "htool_get_param_u32 ?iv ''start'' = Inr 4998" "htool_get_param_u32 ?iv ''length'' = Inr 5"
    "htool_get_param_string ?iv ''dest-file'' = Inr ''dump''" "htool_get_param_string ?iv ''address_mode'' = Inr ''3B/4B''"
    using parse_u32_dec [of 4998] parse_u32_dec [of 5] unfolding texts
    by (simp_all add: htool_get_param_u32_def htool_get_param_string_def get_param_required_def get_param_def
        find_param_by_name_def demo_args_def)
  have mode: "get_address_mode ''3B/4B'' = Some (True, True)" by (simp add: get_address_mode_def)
  have reads: "reads_flash (chip_rot True) True ?fl (False, ?fl)"
    using chip_rot_firmware unfolding nor_firmware_def by (metis snd_conv)
  have "byte_range 4998 5 ?fl = [7, 7, 1, 2, 3]" by (simp add: byte_range_def numeral_2_eq_2)
  moreover have "\<exists>q' f'. command_spi_read fresh_op memory_posix ?env ?iv ((False, ?fl), []) (Map.empty, []) =
      Some ((0, []), ((False, ?fl), q'), f') \<and> fst f' = (fst (Map.empty :: named_contents, [] :: string))(''dump'' \<mapsto> byte_range (unat (4998 :: u32)) (unat (5 :: u32)) ?fl)"
    by (rule spi_read_dumps [OF env memory_stores_files _ _ args mode chip_rot_init _ reads]) (simp_all add: fresh_op_def)
  ultimately show ?thesis by (intro exI [of _ "(False, ?fl)"]) auto
qed

theorem spi_update_installs_file_witness:
  "\<exists>w' q' f'. command_spi_update fresh_op memory_posix
      \<lparr>connect = (\<lambda>d. (Some (rot_device (chip_rot True)), d)), un_supported = (\<lambda>_. 0), un_bytes_read = (\<lambda>_. 0)\<rparr>
      (demo_args [(''start'', ''16''), (''verify'', ''true''), (''source-file'', ''image''), (''address_mode'', ''3B/4B'')])
      ((False, zeros 5000), []) ([''image'' \<mapsto> [1, 2, 3]], []) = Some ((0, []), (w', q'), f') \<and>
    snd w' = replicate 16 0xFF @ [1, 2, 3] @ replicate 4077 0xFF @ zeros 904"
proof -
  let ?env = "\<lparr>connect = (\<lambda>d. (Some (rot_device (chip_rot True)), d)), un_supported = (\<lambda>_. 0), un_bytes_read = (\<lambda>_. 0)\<rparr>
    :: ((bool \<times> bytes) \<times> bytes) htool_dev"
  let ?iv = "demo_args [(''start'', ''16''), (''verify'', ''true''), (''source-file'', ''image''), (''address_mode'', ''3B/4B'')]"
  let ?f = "([''image'' \<mapsto> [1, 2, 3]], []) :: named_contents \<times> string"
  have env: "connected ?env (rot_device (chip_rot True))" by (simp add: connected_def)
  have "dec_nat 16 = ''16''" by code_simp
  then have args: "htool_get_param_u32 ?iv ''start'' = Inr 16" "htool_get_param_bool ?iv ''verify'' = Inr True"
    "htool_get_param_string ?iv ''source-file'' = Inr ''image''" "htool_get_param_string ?iv ''address_mode'' = Inr ''3B/4B''"
    using parse_u32_dec [of 16]
    by (simp_all add: htool_get_param_u32_def htool_get_param_bool_def htool_get_param_string_def get_param_required_def get_param_def
        find_param_by_name_def demo_args_def)
  have mode: "get_address_mode ''3B/4B'' = Some (True, True)" by (simp add: get_address_mode_def)
  have "\<exists>w' q' f'. command_spi_update fresh_op memory_posix ?env ?iv ((False, zeros 5000), []) ?f = Some ((0, []), (w', q'), f') \<and>
      fst f' = fst ?f \<and>
      snd w' = take 0 (zeros 5000) @ replicate (unat (16 :: u32) - 0) 0xFF @ [1, 2, 3]
        @ replicate (4096 - (unat (16 :: u32) + length [1, 2, 3 :: u8])) 0xFF @ drop 4096 (zeros 5000)"
    by (rule spi_update_installs_file [OF env memory_maps_files _ args mode _ _ chip_rot_init _ chip_rot_firmware])
      (simp_all add: fresh_op_def)
  then show ?thesis by auto
qed

end
