(* ===== verification/Htool_Raw.thy ===== *)
theory Htool_Raw
  imports Htool_Certificates Posix_Files
begin

text \<open>
  \<open>examples/htool_raw_host_command.c\<close>: host commands whose frames come from the standard input and
  whose responses go to the standard output. A command that reads without end does not return, which
  is \<open>None\<close>. \<open>read\<close> and \<open>write\<close> transfer at most what they are asked for.
\<close>

definition STDIN_FILENO :: int where "STDIN_FILENO = 0"
definition STDOUT_FILENO :: int where "STDOUT_FILENO = 1"

definition fd_read :: "'f posix_files \<Rightarrow> int \<Rightarrow> nat \<Rightarrow> 'f \<Rightarrow> bytes option \<times> 'f" where
  "fd_read os fd count f = map_prod (map_option (take count)) id (read_fd os fd count f)"

text \<open>\<open>Inl\<close> holds -1 for a failure and 1 for the end of the input.\<close>

function fd_read_exact :: "'f posix_files \<Rightarrow> int \<Rightarrow> nat \<Rightarrow> 'f \<Rightarrow> (int + bytes) \<times> 'f" where
  "fd_read_exact os fd count f =
    (if 0 < count then
       (case fd_read os fd count f of
          (None, f) \<Rightarrow> (Inl (-1), f)
        | (Some bs, f) \<Rightarrow>
            if bs = [] then (Inl 1, f)
            else
              let (r, f) = fd_read_exact os fd (count - length bs) f
              in (map_sum id (\<lambda>rest. bs @ rest) r, f))
     else (Inr [], f))"
  by pat_completeness auto
termination
  by (relation "measure (\<lambda>(os, fd, count, f). count)") auto

declare fd_read_exact.simps [simp del]

definition fd_write :: "'f posix_files \<Rightarrow> int \<Rightarrow> bytes \<Rightarrow> 'f \<Rightarrow> int \<times> 'f" where
  "fd_write os fd buf f =
    map_prod (\<lambda>r. case r of Inl _ \<Rightarrow> -1 | Inr n \<Rightarrow> int (min n (length buf))) id (write_fd os fd buf f)"

function fd_write_exact :: "'f posix_files \<Rightarrow> int \<Rightarrow> bytes \<Rightarrow> 'f \<Rightarrow> int \<times> 'f" where
  "fd_write_exact os fd buf f =
    (if 0 < length buf then
       (let (bytes_written, f) = fd_write os fd buf f
        in if bytes_written \<le> 0 then (-1, f) else fd_write_exact os fd (drop (nat bytes_written) buf) f)
     else (0, f))"
  by pat_completeness auto
termination
  by (relation "measure (\<lambda>(os, fd, buf, f). length buf)") (auto simp: fd_write_def)

declare fd_write_exact.simps [simp del]

section \<open>The loop\<close>

definition request_of_bytes :: "bytes \<Rightarrow> hoth_host_request" where
  "request_of_bytes bs =
    \<lparr>req_struct_version = bs ! 0, req_checksum = bs ! 1, req_command = le_word (byte_range 2 2 bs),
     req_command_version = bs ! 4, req_reserved = bs ! 5, req_data_len = le_word (byte_range 6 2 bs)\<rparr>"

text \<open>A request from the standard input; \<open>Inl\<close> holds what the command returns instead.\<close>

definition raw_request :: "'f posix_files \<Rightarrow> 'f \<Rightarrow> (int + hoth_host_request \<times> bytes) \<times> 'f" where
  "raw_request os f =
    (case fd_read_exact os STDIN_FILENO sizeof_request f of
       (Inl rv, f) \<Rightarrow> (Inl (if rv = 1 then 0 else rv), f)
     | (Inr hdr, f) \<Rightarrow>
         (let req = request_of_bytes hdr
          in if LIBHOTH_MAILBOX_SIZE - sizeof_request < unat (req_data_len req) then (Inl (-1), f)
             else
               case fd_read_exact os STDIN_FILENO (unat (req_data_len req)) f of
                 (Inl rv, f) \<Rightarrow> (Inl rv, f)
               | (Inr req_payload, f) \<Rightarrow>
                   if libhoth_calculate_checksum (request_bytes req) (Some req_payload) \<noteq> 0 then (Inl (-1), f)
                   else (Inr (req, req_payload), f)))"

definition RESP_BUF_LEN :: nat where "RESP_BUF_LEN = 2048"

text \<open>The response for the standard output, its header and its payload, or the status returned.\<close>

definition raw_response :: "int \<Rightarrow> bytes option \<Rightarrow> int + bytes \<times> bytes" where
  "raw_response rv r =
    (if rv \<noteq> 0 \<and> rv < HTOOL_ERROR_HOST_COMMAND_START then Inl rv
     else
       let payload = (case r of Some p \<Rightarrow> p | None \<Rightarrow> []);
           resp = \<lparr>resp_struct_version = 3, resp_checksum = 0,
             resp_result = (if HTOOL_ERROR_HOST_COMMAND_START < rv then word_of_int (rv - HTOOL_ERROR_HOST_COMMAND_START) else 0),
             resp_data_len = word_of_nat (length payload), resp_reserved = 0\<rparr>
       in Inr (response_bytes (resp\<lparr>resp_checksum := libhoth_calculate_checksum (response_bytes resp) (Some payload)\<rparr>), payload))"

partial_function (option) raw_loop ::
  "'f posix_files \<Rightarrow> 'd libhoth_device \<Rightarrow> 'd \<Rightarrow> 'f \<Rightarrow> (int \<times> 'd \<times> 'f) option" where
  "raw_loop os dev d f =
    (case raw_request os f of
       (Inl rv, f) \<Rightarrow> Some (rv, d, f)
     | (Inr (req, req_payload), f) \<Rightarrow>
         (let ((rv, r), d) = libhoth_hostcmd_exec [] (Some dev) (req_command req) (req_command_version req)
                (Some req_payload) (unat (req_data_len req)) RESP_BUF_LEN True d
          in case raw_response rv r of
               Inl rv \<Rightarrow> Some (rv, d, f)
             | Inr (resp, payload) \<Rightarrow>
                 (let (rv, f) = fd_write_exact os STDOUT_FILENO resp f
                  in if rv \<noteq> 0 then Some (rv, d, f)
                     else
                       let (rv, f) = fd_write_exact os STDOUT_FILENO payload f
                       in if rv \<noteq> 0 then Some (rv, d, f) else raw_loop os dev d f)))"

declare raw_loop.simps [simp del]

definition command_raw_host_command ::
  "'f posix_files \<Rightarrow> 'd htool_dev \<Rightarrow> 'd \<Rightarrow> 'f \<Rightarrow> (int \<times> 'd \<times> 'f) option" where
  "command_raw_host_command os env d f =
    (case connect env d of (None, d) \<Rightarrow> Some (-1, d, f) | (Some dev, d) \<Rightarrow> raw_loop os dev d f)"


section \<open>Pipes\<close>

text \<open>
  A standard input with a finite content, of which a read yields some bytes, and a standard output to
  which a write appends some.
\<close>

definition pipes :: "'f posix_files \<Rightarrow> ('f \<Rightarrow> bytes) \<Rightarrow> ('f \<Rightarrow> bytes) \<Rightarrow> bool" where
  "pipes os inp outp \<longleftrightarrow>
    (\<forall>n f. 0 < n \<longrightarrow> (\<exists>k f'. read_fd os STDIN_FILENO n f = (Some (take k (inp f)), f') \<and> 0 < k \<and> k \<le> n \<and>
      inp f' = drop k (inp f) \<and> outp f' = outp f)) \<and>
    (\<forall>bs f. bs \<noteq> [] \<longrightarrow> (\<exists>k f'. write_fd os STDOUT_FILENO bs f = (Inr k, f') \<and> 0 < k \<and> k \<le> length bs \<and>
      outp f' = outp f @ take k bs \<and> inp f' = inp f))"

lemma pipes_read:
  assumes "pipes os inp outp" "0 < n"
  obtains k f' where "fd_read os STDIN_FILENO n f = (Some (take k (inp f)), f')" "0 < k" "k \<le> n"
    "inp f' = drop k (inp f)" "outp f' = outp f"
proof -
  from assms obtain k f' where r: "read_fd os STDIN_FILENO n f = (Some (take k (inp f)), f')" "0 < k" "k \<le> n"
    "inp f' = drop k (inp f)" "outp f' = outp f" unfolding pipes_def by blast
  then show ?thesis by (intro that [of k f']) (simp_all add: fd_read_def min_absorb2)
qed

lemma pipes_write:
  assumes "pipes os inp outp" "bs \<noteq> []"
  obtains k f' where "fd_write os STDOUT_FILENO bs f = (int k, f')" "0 < k" "k \<le> length bs"
    "outp f' = outp f @ take k bs" "inp f' = inp f"
proof -
  from assms obtain k f' where r: "write_fd os STDOUT_FILENO bs f = (Inr k, f')" "0 < k" "k \<le> length bs"
    "outp f' = outp f @ take k bs" "inp f' = inp f" unfolding pipes_def by blast
  then show ?thesis by (intro that [of k f']) (simp_all add: fd_write_def)
qed

lemma read_exact_pipe:
  assumes "pipes os inp outp" "n \<le> length (inp f)"
  shows "\<exists>f'. fd_read_exact os STDIN_FILENO n f = (Inr (take n (inp f)), f') \<and> inp f' = drop n (inp f) \<and> outp f' = outp f"
  using assms(2)
proof (induction n arbitrary: f rule: less_induct)
  case (less n)
  show ?case
  proof (cases "n = 0")
    case True
    then show ?thesis by (simp add: fd_read_exact.simps)
  next
    case False
    then obtain k f1 where 1: "fd_read os STDIN_FILENO n f = (Some (take k (inp f)), f1)" "0 < k" "k \<le> n"
      "inp f1 = drop k (inp f)" "outp f1 = outp f" using pipes_read [OF assms(1), of n f] by auto
    have k: "length (take k (inp f)) = k" "take k (inp f) \<noteq> []" using 1(2,3) less.prems False by auto
    have "\<exists>f2. fd_read_exact os STDIN_FILENO (n - k) f1 = (Inr (take (n - k) (inp f1)), f2) \<and>
        inp f2 = drop (n - k) (inp f1) \<and> outp f2 = outp f1"
      using 1 less.prems False by (intro less.IH) auto
    then obtain f2 where 2: "fd_read_exact os STDIN_FILENO (n - k) f1 = (Inr (take (n - k) (inp f1)), f2)"
      "inp f2 = drop (n - k) (inp f1)" "outp f2 = outp f1" by blast
    have "take k (inp f) @ take (n - k) (drop k (inp f)) = take n (inp f)"
      using 1(3) take_add [of k "n - k" "inp f"] by simp
    then show ?thesis using 1 2 k False
      by (subst fd_read_exact.simps) (simp add: Let_def)
  qed
qed

lemma read_exact_short:
  assumes "pipes os inp outp" "length (inp f) < n"
  shows "\<exists>f'. fd_read_exact os STDIN_FILENO n f = (Inl 1, f') \<and> outp f' = outp f"
  using assms(2)
proof (induction n arbitrary: f rule: less_induct)
  case (less n)
  then have n: "0 < n" by simp
  obtain k f1 where 1: "fd_read os STDIN_FILENO n f = (Some (take k (inp f)), f1)" "0 < k" "k \<le> n"
    "inp f1 = drop k (inp f)" "outp f1 = outp f" using pipes_read [OF assms(1) n, of f] by auto
  show ?case
  proof (cases "inp f = []")
    case True
    then show ?thesis using 1 n by (subst fd_read_exact.simps) simp
  next
    case False
    have "\<exists>f'. fd_read_exact os STDIN_FILENO (n - min (length (inp f)) k) f1 = (Inl 1, f') \<and> outp f' = outp f1"
      using less.prems 1 False by (intro less.IH) (auto simp: min_def)
    then show ?thesis using 1 n False by (subst fd_read_exact.simps) (auto simp: min_def)
  qed
qed

lemma write_exact_pipe:
  assumes "pipes os inp outp"
  shows "\<exists>f'. fd_write_exact os STDOUT_FILENO bs f = (0, f') \<and> outp f' = outp f @ bs \<and> inp f' = inp f"
proof (induction "length bs" arbitrary: bs f rule: less_induct)
  case less
  show ?case
  proof (cases "bs = []")
    case True
    then show ?thesis by (simp add: fd_write_exact.simps)
  next
    case False
    then obtain k f1 where 1: "fd_write os STDOUT_FILENO bs f = (int k, f1)" "0 < k" "k \<le> length bs"
      "outp f1 = outp f @ take k bs" "inp f1 = inp f" using pipes_write [OF assms, of bs f] by auto
    obtain f2 where "fd_write_exact os STDOUT_FILENO (drop k bs) f1 = (0, f2)"
      "outp f2 = outp f1 @ drop k bs" "inp f2 = inp f1" using less [of "drop k bs" f1] 1 False by auto
    then show ?thesis using 1 False by (subst fd_write_exact.simps) simp
  qed
qed

text \<open>A request that is read takes its bytes from the input, at least those of the header.\<close>

lemma raw_request_consumes:
  assumes "pipes os inp outp" "raw_request os f = (Inr (req, p), f')"
  shows "length (inp f') < length (inp f) \<and> length p = unat (req_data_len req) \<and> length p \<le> 1016"
proof -
  have "8 \<le> length (inp f)"
    using read_exact_short [OF assms(1), of f 8] assms(2) by (fastforce simp: raw_request_def)
  then obtain f1 where 1: "fd_read_exact os STDIN_FILENO 8 f = (Inr (take 8 (inp f)), f1)" "inp f1 = drop 8 (inp f)"
    using read_exact_pipe [OF assms(1)] by blast
  let ?n = "unat (req_data_len (request_of_bytes (take 8 (inp f))))"
  have n: "?n \<le> 1016" using assms(2) 1 by (auto simp: raw_request_def Let_def LIBHOTH_MAILBOX_SIZE_def split: if_splits)
  have len: "?n \<le> length (inp f1)"
    using read_exact_short [OF assms(1), of f1 ?n] assms(2) 1 n
    by (fastforce simp: raw_request_def Let_def LIBHOTH_MAILBOX_SIZE_def)
  then obtain f2 where "fd_read_exact os STDIN_FILENO ?n f1 = (Inr (take ?n (inp f1)), f2)" "inp f2 = drop ?n (inp f1)"
    using read_exact_pipe [OF assms(1)] by blast
  then show ?thesis using assms(2) 1 n len \<open>8 \<le> length (inp f)\<close>
    by (auto simp: raw_request_def Let_def LIBHOTH_MAILBOX_SIZE_def split: if_splits)
qed

lemma raw_loop_returns:
  assumes "pipes os inp outp"
  shows "\<exists>r. raw_loop os dev d f = Some r"
proof (induction "length (inp f)" arbitrary: d f rule: less_induct)
  case less
  show ?case
  proof (cases "raw_request os f")
    case (Pair r f1)
    show ?thesis
    proof (cases r)
      case (Inl rv)
      with Pair show ?thesis by (simp add: raw_loop.simps)
    next
      case (Inr rp)
      obtain req p where rp: "rp = (req, p)" by (cases rp)
      have shorter: "length (inp f1) < length (inp f)"
        using raw_request_consumes [OF assms, of f req p f1] Pair Inr rp by simp
      obtain rv rr d1 where x: "libhoth_hostcmd_exec [] (Some dev) (req_command req) (req_command_version req)
          (Some p) (unat (req_data_len req)) RESP_BUF_LEN True d = ((rv, rr), d1)" by (metis surj_pair)
      show ?thesis
      proof (cases "raw_response rv rr")
        case (Inl v)
        with Pair Inr rp x \<open>r = Inr rp\<close> show ?thesis by (subst raw_loop.simps) simp
      next
        case resp: (Inr rs)
        obtain hdr pl where rs: "rs = (hdr, pl)" by (cases rs)
        obtain f2 where 2: "fd_write_exact os STDOUT_FILENO hdr f1 = (0, f2)" "inp f2 = inp f1"
          using write_exact_pipe [OF assms, of hdr f1] by blast
        obtain f3 where 3: "fd_write_exact os STDOUT_FILENO pl f2 = (0, f3)" "inp f3 = inp f2"
          using write_exact_pipe [OF assms, of pl f2] by blast
        obtain z where "raw_loop os dev d1 f3 = Some z" using less [of f3 d1] shorter 2 3 by auto
        with Pair \<open>r = Inr rp\<close> rp x resp rs 2 3 show ?thesis by (cases z) (subst raw_loop.simps, simp)
      qed
    qed
  qed
qed


section \<open>A proxy for the root of trust\<close>

text \<open>The responses to requests made one after the other, as frames; a failure has no payload.\<close>

fun serve_all :: "'w rot_handler \<Rightarrow> (u16 \<times> u8 \<times> bytes) list \<Rightarrow> 'w \<Rightarrow> bytes \<times> 'w" where
  "serve_all h [] w = ([], w)"
| "serve_all h ((c, v, p) # reqs) w =
    (let ((result, r), w) = h c v p w; (rest, w) = serve_all h reqs w
     in (response_frame result (if result = 0 then r else []) @ rest, w))"

lemma raw_request_frame:
  assumes "pipes os inp outp" "length p \<le> 1016" "inp f = request_frame c v p @ rest"
  shows "\<exists>req f'. raw_request os f = (Inr (req, p), f') \<and> req_command req = c \<and> req_command_version req = v \<and>
    unat (req_data_len req) = length p \<and> inp f' = rest \<and> outp f' = outp f"
proof -
  note fr = request_frame [OF assms(2), where command = c and version = v]
  let ?hdr = "take 8 (request_frame c v p)" and ?req = "request_of_bytes (take 8 (request_frame c v p))"
  have split: "inp f = ?hdr @ p @ rest"
    using assms(3) fr(3) append_take_drop_id [of 8 "request_frame c v p"] by (metis append.assoc)
  have h8: "length ?hdr = 8" using fr(2) by simp
  obtain f1 where 1: "fd_read_exact os STDIN_FILENO 8 f = (Inr ?hdr, f1)" "inp f1 = p @ rest" "outp f1 = outp f"
    using read_exact_pipe [OF assms(1), of 8 f] h8 unfolding split by auto
  have at: "byte_range k 2 ?hdr = byte_range k 2 (request_frame c v p)" if "k + 2 \<le> 8" for k
    using that by (simp add: byte_range_def take_drop min_def)
  have req: "req_command ?req = c" "req_command_version ?req = v" "unat (req_data_len ?req) = length p"
    using fr(2,5-8) by (simp_all add: request_of_bytes_def at unat_le_word)
  obtain f2 where 2: "fd_read_exact os STDIN_FILENO (length p) f1 = (Inr p, f2)" "inp f2 = rest" "outp f2 = outp f"
    using read_exact_pipe [OF assms(1), of "length p" f1] 1 by auto
  have "request_bytes ?req = ?hdr"
  proof -
    have "request_bytes (request_of_bytes b) = b" if b: "length b = 8" for b :: bytes
    proof -
      have "b = [b ! 0, b ! 1, b ! 2, b ! 3, b ! 4, b ! 5, b ! 6, b ! 7]"
        using b by (intro nth_equalityI) (auto simp: less_Suc_eq numeral_eq_Suc)
      then obtain b0 b1 b2 b3 b4 b5 b6 b7 where e: "b = [b0, b1, b2, b3, b4, b5, b6, b7]" by blast
      have "le_bytes 2 (le_word [x, y] :: u16) = [x, y]" for x y
        using le_bytes_le_word [of "[x, y]" 2, where 'a = 16] by simp
      then show ?thesis by (simp add: e request_bytes_def request_of_bytes_def byte_range_def)
    qed
    then show ?thesis using h8 by blast
  qed
  moreover have "sum_list (?hdr @ p) = 0" using fr(3,4) append_take_drop_id [of 8 "request_frame c v p"] by metis
  ultimately have "libhoth_calculate_checksum (request_bytes ?req) (Some p) = 0"
    by (simp add: checksum_neg)
  then have "raw_request os f = (Inr (?req, p), f2)"
    using 1 2 req assms(2) by (simp add: raw_request_def Let_def LIBHOTH_MAILBOX_SIZE_def)
  with req 2 show ?thesis by blast
qed

lemma raw_response_frame:
  assumes "length r \<le> 1016"
  shows "\<exists>hdr pl. raw_response (if result \<noteq> 0 then sint (537200 + ucast (result :: u16) :: u32) else 0)
      (if result \<noteq> 0 then None else Some r) = Inr (hdr, pl) \<and>
    hdr @ pl = response_frame result (if result = 0 then r else [])"
proof -
  have v: "word_of_int (sint (537200 + ucast result :: u32) - 537200) = result"
    by (simp add: sint_ec_code)
  show ?thesis
  proof (cases "result = 0")
    case True
    then show ?thesis by (simp add: raw_response_def Let_def response_frame_def HTOOL_ERROR_HOST_COMMAND_START_def HOTH_HOST_RESPONSE_VERSION_def)
  next
    case False
    then have "537200 < sint (537200 + ucast result :: u32)" using unat_gt_0 [of result] unfolding sint_ec_code by linarith
    then show ?thesis using False v
      by (simp add: raw_response_def Let_def response_frame_def HTOOL_ERROR_HOST_COMMAND_START_def HOTH_HOST_RESPONSE_VERSION_def)
  qed
qed

text \<open>
  The command is a proxy for the root of trust: fed with any number of request frames, it makes
  the calls they stand for, in their order, writes the frames of the responses and returns 0 at the
  end of its input, however the bytes are cut into reads and writes.
\<close>

theorem raw_host_command_proxies:
  assumes "connected env (rot_device h)" "pipes os inp outp"
    and "inp f = concat (map (\<lambda>(c, v, p). request_frame c v p) reqs)" "\<forall>(c, v, p) \<in> set reqs. length p \<le> 1016"
    and "\<forall>c v p w result r w'. h c v p w = ((result, r), w') \<longrightarrow> length r \<le> 1016 \<and> (result = 0 \<or> length r < 4)"
  shows "\<exists>q' f'. command_raw_host_command os env (w, q) f = Some (0, (snd (serve_all h reqs w), q'), f') \<and>
    outp f' = outp f @ fst (serve_all h reqs w)"
proof -
  have "\<exists>q' f'. raw_loop os (rot_device h) (w, q) f = Some (0, (snd (serve_all h reqs w), q'), f') \<and>
      outp f' = outp f @ fst (serve_all h reqs w)"
    using assms(3,4)
  proof (induction reqs arbitrary: f w q)
    case Nil
    then obtain f' where "fd_read_exact os STDIN_FILENO 8 f = (Inl 1, f')" "outp f' = outp f"
      using read_exact_short [OF assms(2), of f 8] by auto
    then show ?case by (simp add: raw_loop.simps raw_request_def)
  next
    case (Cons cvp reqs)
    obtain c v p where cvp: "cvp = (c, v, p)" by (cases cvp)
    then have p: "length p \<le> 1016" using Cons.prems(2) by simp
    obtain req f1 where req: "raw_request os f = (Inr (req, p), f1)" "req_command req = c" "req_command_version req = v"
      "unat (req_data_len req) = length p" "inp f1 = concat (map (\<lambda>(c, v, p). request_frame c v p) reqs)" "outp f1 = outp f"
      using raw_request_frame [OF assms(2) p, of f c v "concat (map (\<lambda>(c, v, p). request_frame c v p) reqs)"]
        Cons.prems(1) cvp by auto
    obtain result r w1 where h: "h c v p w = ((result, r), w1)" by (metis surj_pair)
    then have r: "length r \<le> 1016" "result = 0 \<or> length r < 4" using assms(5) by blast+
    obtain q1 where x: "libhoth_hostcmd_exec [] (Some (rot_device h)) c v (Some p) (length p) RESP_BUF_LEN True (w, q) =
        ((if result \<noteq> 0 then sint (537200 + ucast result :: u32) else 0, if result \<noteq> 0 then None else Some r), (w1, q1))"
      using legacy_rot_max [of h c v p w result r w1 RESP_BUF_LEN q, OF h p r(2)] r(1) by (auto simp: RESP_BUF_LEN_def)
    obtain hdr pl where resp: "raw_response (if result \<noteq> 0 then sint (537200 + ucast result :: u32) else 0)
        (if result \<noteq> 0 then None else Some r) = Inr (hdr, pl)" "hdr @ pl = response_frame result (if result = 0 then r else [])"
      using raw_response_frame [OF r(1)] by blast
    obtain f2 where 2: "fd_write_exact os STDOUT_FILENO hdr f1 = (0, f2)" "inp f2 = inp f1" "outp f2 = outp f1 @ hdr"
      using write_exact_pipe [OF assms(2), of hdr f1] by blast
    obtain f3 where 3: "fd_write_exact os STDOUT_FILENO pl f2 = (0, f3)" "inp f3 = inp f2" "outp f3 = outp f2 @ pl"
      using write_exact_pipe [OF assms(2), of pl f2] by blast
    obtain q' f' where rest: "raw_loop os (rot_device h) (w1, q1) f3 = Some (0, (snd (serve_all h reqs w1), q'), f')"
      "outp f' = outp f3 @ fst (serve_all h reqs w1)"
      using Cons.IH [of f3 w1 q1] Cons.prems(2) req(5) 2(2) 3(2) by auto
    have "raw_loop os (rot_device h) (w, q) f = raw_loop os (rot_device h) (w1, q1) f3"
      using req(1-4) x resp(1) 2(1) 3(1) by (subst raw_loop.simps) simp
    moreover have "outp f3 = outp f @ response_frame result (if result = 0 then r else [])"
      unfolding 3(3) 2(3) req(6) append_assoc resp(2) ..
    ultimately show ?case using rest h cvp by (simp add: case_prod_beta)
  qed
  then show ?thesis using assms(1) by (simp add: command_raw_host_command_def connected_def)
qed

text \<open>A standard input of which a read yields at most three bytes, and an output that takes five at a time.\<close>

definition slow_pipes :: "(bytes \<times> bytes) posix_files" where
  "slow_pipes = \<lparr>
     create_file = (\<lambda>_ f. (None, f)), open_file = (\<lambda>_ f. (None, f)),
     write_fd = (\<lambda>_ bs (i, out). (Inr (min 5 (length bs)), (i, out @ take 5 bs))),
     read_fd = (\<lambda>_ n (i, out). (Some (take (min 3 n) i), (drop (min 3 n) i, out))),
     stat_size = (\<lambda>_ f. (None, f)), map_fd = (\<lambda>_ _ f. (None, f)), unmap = (\<lambda>f. f), close_fd = (\<lambda>_ f. f)\<rparr>"

lemma slow_pipes: "pipes slow_pipes fst snd"
proof -
  have "\<exists>k f'. read_fd slow_pipes STDIN_FILENO n f = (Some (take k (fst f)), f') \<and> 0 < k \<and> k \<le> n \<and>
      fst f' = drop k (fst f) \<and> snd f' = snd f" if "0 < n" for n and f :: "bytes \<times> bytes"
    using that by (cases f) (auto simp: slow_pipes_def intro!: exI [of _ "min 3 n"])
  moreover have "\<exists>k f'. write_fd slow_pipes STDOUT_FILENO bs f = (Inr k, f') \<and> 0 < k \<and> k \<le> length bs \<and>
      snd f' = snd f @ take k bs \<and> fst f' = fst f" if "bs \<noteq> []" for bs and f :: "bytes \<times> bytes"
    using that by (cases f) (auto simp: slow_pipes_def min_def)
  ultimately show ?thesis by (simp add: pipes_def)
qed

theorem raw_host_command_proxies_witness:
  "\<exists>q' f'. command_raw_host_command slow_pipes
      \<lparr>connect = (\<lambda>d. (Some (rot_device (\<lambda>c v p w. if c = 1 then ((0, take 1016 (rev p)), w + 1) else ((9, []), w))), d)),
       un_supported = (\<lambda>_. 0), un_bytes_read = (\<lambda>_. 0)\<rparr> (0 :: nat, [])
      (request_frame 1 0 [1, 2] @ request_frame 7 0 [] @ request_frame 1 0 [3], []) = Some (0, (2, q'), f') \<and>
    snd f' = response_frame 0 [2, 1] @ response_frame 9 [] @ response_frame 0 [3]"
proof -
  let ?h = "\<lambda>c v p w. if c = 1 then ((0, take 1016 (rev p)), w + 1) else ((9, []), w :: nat)"
  let ?env = "\<lparr>connect = (\<lambda>d. (Some (rot_device ?h), d)), un_supported = (\<lambda>_. 0), un_bytes_read = (\<lambda>_. 0)\<rparr>"
  let ?reqs = "[(1, 0, [1, 2]), (7, 0, []), (1, 0, [3])] :: (u16 \<times> u8 \<times> bytes) list"
  have env: "connected ?env (rot_device ?h)" by (simp add: connected_def)
  have inp: "fst (request_frame 1 0 [1, 2] @ request_frame 7 0 [] @ request_frame 1 0 [3], [] :: bytes) =
    concat (map (\<lambda>(c, v, p). request_frame c v p) ?reqs)" by simp
  have lens: "\<forall>(c, v, p) \<in> set ?reqs. length p \<le> 1016" by simp
  have h: "\<forall>c v p w result r w'. ?h c v p w = ((result, r), w') \<longrightarrow> length r \<le> 1016 \<and> (result = 0 \<or> length r < 4)"
    by (auto split: if_splits)
  have out: "serve_all ?h ?reqs 0 = (response_frame 0 [2, 1] @ response_frame 9 [] @ response_frame 0 [3], 2)" by simp
  show ?thesis
    using raw_host_command_proxies [where w = 0 and q = "[]", OF env slow_pipes inp lens h] unfolding out by simp
qed

end
