(* ===== verification/Htool_Payload.thy ===== *)
theory Htool_Payload
  imports Htool_Handlers Payload_Update
begin

text \<open>
  \<open>examples/htool_payload_update.c\<close>, \<open>htool_payload.c\<close> and \<open>htool_mauv.c\<close>: payload images, from the file
  to the flash behind the root of trust and back, their description, and the minimum acceptable update
  versions. \<open>None\<close> is a command that does not return, or an access outside an array.
\<close>

section \<open>Files and devices\<close>

text \<open>An image that is mapped, given to \<open>body\<close> and unmapped; the sizes of files fit into a \<open>size_t\<close>.\<close>

definition with_image ::
  "'f posix_files \<Rightarrow> string \<Rightarrow> 'r \<Rightarrow> (bytes \<Rightarrow> 'd \<Rightarrow> ('r \<times> 'd) option) \<Rightarrow> 'd \<Rightarrow> 'f \<Rightarrow> ('r \<times> 'd \<times> 'f) option" where
  "with_image os image_file failed body d f =
    (case open_file os image_file f of
       (None, f) \<Rightarrow> Some (failed, d, f)
     | (Some fd, f) \<Rightarrow>
         (case stat_size os fd f of
            (None, f) \<Rightarrow> Some (failed, d, close_fd os fd f)
          | (Some st_size, f) \<Rightarrow>
              (case map_fd os fd st_size f of
                 (None, f) \<Rightarrow> Some (failed, d, close_fd os fd f)
               | (Some img, f) \<Rightarrow>
                   map_option (\<lambda>(r, d). (r, d, close_fd os fd (unmap os f))) (body (take st_size img) d))))"

lemma with_image_file:
  assumes "maps_files os content" "content f name = Some bs" "bs \<noteq> []"
  shows "\<exists>f'. with_image os name failed body d f = map_option (\<lambda>(r, d). (r, d, f')) (body bs d) \<and> content f' = content f"
proof -
  obtain fd f1 f2 f3 where "open_file os name f = (Some fd, f1)" "stat_size os fd f1 = (Some (length bs), f2)"
    "map_fd os fd (length bs) f2 = (Some bs, f3)" "content f3 = content f"
    "content (close_fd os fd (unmap os f3)) = content f3"
    using assms unfolding maps_files_def by metis
  then show ?thesis by (intro exI [of _ "close_fd os fd (unmap os f3)"]) (simp add: with_image_def)
qed

text \<open>The device as seen by a function that also writes to a file.\<close>

definition lift_device :: "'d libhoth_device \<Rightarrow> ('d \<times> 'f) libhoth_device" where
  "lift_device dev =
    \<lparr>dev_send = (\<lambda>frame (d, f). let (e, d) = dev_send dev frame d in (e, (d, f))),
     dev_receive = (\<lambda>n t (d, f). let (r, d) = dev_receive dev n t d in (r, (d, f))),
     dev_close = (\<lambda>(d, f). let (e, d) = dev_close dev d in (e, (d, f))),
     dev_claim = (\<lambda>(d, f). let (e, d) = dev_claim dev d in (e, (d, f))),
     dev_release = (\<lambda>(d, f). let (e, d) = dev_release dev d in (e, (d, f))),
     dev_reconnect = map_option (\<lambda>rc (d, f). let (e, d) = rc d in (e, (d, f))) (dev_reconnect dev)\<rparr>"

lemma hostcmd_lift:
  "hostcmd (Some (lift_device dev)) c v p n want (d, f) =
    (let (r, d) = hostcmd (Some dev) c v p n want d in (r, (d, f)))"
  by (auto simp: hostcmd_def libhoth_hostcmd_exec_v2_def libhoth_send_request_def libhoth_receive_response_def
      lift_device_def Let_def split: prod.splits sum.splits)

section \<open>Payload updates\<close>

definition htool_payload_update ::
  "'f posix_files \<Rightarrow> 'd htool_dev \<Rightarrow> htool_invocation \<Rightarrow> 'd \<Rightarrow> 'f \<Rightarrow> (int \<times> 'd \<times> 'f) option" where
  "htool_payload_update os env iv d f =
    (case connect env d of
       (None, d) \<Rightarrow> Some (-1, d, f)
     | (Some dev, d) \<Rightarrow>
         (case (htool_get_param_string iv ''source-file'', htool_get_param_bool iv ''skip_erase'', htool_get_param_bool iv ''binary'') of
            (Inr image_file, Inr skip_erase, Inr binary_file) \<Rightarrow>
              with_image os image_file (-1)
                (\<lambda>img d. map_option (\<lambda>(r, d). (case r of Inl _ \<Rightarrow> -1 | Inr _ \<Rightarrow> 0, d))
                   (libhoth_payload_update (Some dev) img skip_erase binary_file d)) d f
          | _ \<Rightarrow> Some (-1, d, f)))"

definition htool_payload_read ::
  "'f posix_files \<Rightarrow> 'd htool_dev \<Rightarrow> htool_invocation \<Rightarrow> 'd \<Rightarrow> 'f \<Rightarrow> (int \<times> 'd \<times> 'f) option" where
  "htool_payload_read os env iv d f =
    (case connect env d of
       (None, d) \<Rightarrow> Some (-1, d, f)
     | (Some dev, d) \<Rightarrow>
         (case (htool_get_param_string iv ''dest-file'', htool_get_param_u32 iv ''start'', htool_get_param_u32 iv ''length'') of
            (Inr dest_file, Inr start, Inr len) \<Rightarrow>
              if length dest_file = 0 then Some (-1, d, f)
              else if len = 0 then Some (-1, d, f)
              else
                (case create_file os dest_file f of
                   (None, f) \<Rightarrow> Some (-1, d, f)
                 | (Some fd, f) \<Rightarrow>
                     map_option (\<lambda>(err, (d, f)). (case err of Inl _ \<Rightarrow> -1 | Inr _ \<Rightarrow> 0, d, close_fd os fd f))
                       (libhoth_payload_update_read_chunk (\<lambda>bs (d, f). let (r, f) = write_fd os fd bs f in (r, (d, f)))
                          (Some (lift_device dev)) (unat len) (unat start) (d, f)))
          | _ \<Rightarrow> Some (-1, d, f)))"

definition payload_update_getstatus_valid_string :: "u8 \<Rightarrow> string" where
  "payload_update_getstatus_valid_string v =
    (if v = 0 then ''Invalid'' else if v = 1 then ''Unverified'' else if v = 2 then ''Valid''
     else if v = 3 then ''Descriptor Valid'' else ''(unknown)'')"

definition payload_update_getstatus_half_string :: "u8 \<Rightarrow> string" where
  "payload_update_getstatus_half_string h = (if h = 0 then ''A'' else if h = 1 then ''B'' else ''(unknown)'')"

definition htool_payload_update_getstatus :: "'d htool_dev \<Rightarrow> 'd \<Rightarrow> 'd htool_result" where
  "htool_payload_update_getstatus env = with_device env (\<lambda>dev d.
    reported (libhoth_payload_update_getstatus (Some dev) d)
      (\<lambda>pus.
        let ln = (\<lambda>label str v. label @ str v @ '' ('' @ dec_nat (unat v) @ '')'' @ newline);
            valid = payload_update_getstatus_valid_string; half = payload_update_getstatus_half_string
        in (0, ln ''a_valid        : '' valid (a_valid pus) @ ln ''b_valid        : '' valid (b_valid pus) @
            ln ''active_half    : '' half (active_half pus) @ ln ''next_half      : '' half (next_half pus) @
            ln ''persistent_half: '' half (persistent_half pus))))"

definition htool_payload_erase :: "'d htool_dev \<Rightarrow> htool_invocation \<Rightarrow> 'd \<Rightarrow> (int \<times> 'd) option" where
  "htool_payload_erase env iv d =
    (case connect env d of
       (None, d) \<Rightarrow> Some (-1, d)
     | (Some dev, d) \<Rightarrow>
         (case (htool_get_param_u32 iv ''start'', htool_get_param_u32 iv ''length'') of
            (Inr start, Inr len) \<Rightarrow>
              map_option (\<lambda>(r, d). (case r of Inl _ \<Rightarrow> -1 | Inr _ \<Rightarrow> 0, d)) (libhoth_payload_update_erase (Some dev) start len d)
          | _ \<Rightarrow> Some (-1, d)))"

definition htool_payload_activate :: "'d htool_dev \<Rightarrow> htool_invocation \<Rightarrow> 'd \<Rightarrow> 'd htool_result" where
  "htool_payload_activate env iv = with_device env (\<lambda>dev d.
    case htool_get_param_string iv ''side'' of
      Inl _ \<Rightarrow> ((-1, []), d)
    | Inr side_str \<Rightarrow>
        (case (if side_str \<in> {''A'', ''a''} then Some 0 else if side_str \<in> {''B'', ''b''} then Some 1 else None) of
           None \<Rightarrow> ((-1, []), d)
         | Some half \<Rightarrow>
             reported (libhoth_payload_update_activate (Some dev) half d)
               (\<lambda>pld. (0, ''PLD needs re-initialization?: '' @ dec_nat (unat pld) @ newline))))"

definition htool_payload_update_verify :: "'d htool_dev \<Rightarrow> htool_invocation \<Rightarrow> 'd \<Rightarrow> 'd htool_result" where
  "htool_payload_update_verify env iv = with_device env (\<lambda>dev d.
    case htool_get_param_bool iv ''descriptor'' of
      Inl _ \<Rightarrow> ((-1, []), d)
    | Inr verify_only_descriptor \<Rightarrow>
        if verify_only_descriptor
        then reported (libhoth_payload_update_verify_descriptor (Some dev) d) (\<lambda>_. (0, ''Payload verify descriptor successful'' @ newline))
        else reported (libhoth_payload_update_verify (Some dev) d) (\<lambda>_. (0, ''Payload verify successful'' @ newline)))"

definition htool_payload_update_confirm :: "'d htool_dev \<Rightarrow> 'd \<Rightarrow> 'd htool_result" where
  "htool_payload_update_confirm env = with_device env (\<lambda>dev d.
    reported (libhoth_payload_update_confirm (Some dev) d) (\<lambda>_. (0, [])))"

definition htool_payload_update_confirm_get_staged_timeout :: "'d htool_dev \<Rightarrow> 'd \<Rightarrow> 'd htool_result" where
  "htool_payload_update_confirm_get_staged_timeout env = with_device env (\<lambda>dev d.
    reported (libhoth_payload_update_confirm_get_staged_timeout (Some dev) d)
      (\<lambda>response.
        let ln = (\<lambda>label v. label @ dec_nat (unat v) @ '' seconds'' @ newline)
        in (0, ln ''Current timeout: '' (timeout_current response) @ ln ''Current MIN timeout: '' (timeout_min response) @
            ln ''Current MAX timeout: '' (timeout_max response) @ ln ''Current default timeout: '' (timeout_default_val response))))"

definition htool_payload_update_confirm_enable :: "'d htool_dev \<Rightarrow> htool_invocation \<Rightarrow> 'd \<Rightarrow> 'd htool_result" where
  "htool_payload_update_confirm_enable env iv = with_device env (\<lambda>dev d.
    case (htool_get_param_u32 iv ''timeout'', htool_get_param_bool iv ''enable'') of
      (Inr timeout, Inr enable_confirm) \<Rightarrow>
        reported (libhoth_payload_update_confirm_enable (Some dev) enable_confirm timeout d) (\<lambda>_. (0, []))
    | _ \<Rightarrow> ((-1, []), d))"


section \<open>From the file to the flash and back\<close>

lemma lift_appends:
  assumes "appends_to wr content ready c name"
  shows "appends_to (\<lambda>bs (d, f). let (r, f) = wr bs f in (r, (d, f))) (\<lambda>s. content (snd s))
    (\<lambda>s. fst s = d \<and> ready (snd s)) c name"
  unfolding appends_to_def
proof (intro allI impI, elim conjE)
  fix bs :: bytes and s :: "'b \<times> 'a" and old
  assume "content (snd s) = c(name \<mapsto> old)" "fst s = d" "ready (snd s)" "bs \<noteq> []"
  moreover obtain f where "s = (d, f)" using \<open>fst s = d\<close> by (cases s) simp
  ultimately obtain n f' where "wr bs f = (Inr n, f')" "0 < n" "n \<le> length bs" "content f' = c(name \<mapsto> old @ take n bs)" "ready f'"
    using assms unfolding appends_to_def by (metis snd_conv)
  then show "\<exists>n s'. (case s of (d, f) \<Rightarrow> let (r, f) = wr bs f in (r, (d, f))) = (Inr n, s') \<and> 0 < n \<and> n \<le> length bs \<and>
      content (snd s') = c(name \<mapsto> old @ take n bs) \<and> fst s' = d \<and> ready (snd s')"
    using \<open>s = (d, f)\<close> by (intro exI [of _ n] exI [of _ "(d, f')"]) simp
qed

lemma read_chunk_file:
  assumes "flash_reader h fl (\<lambda>_. [])" "appends_to (write_fd os fd) content ready c name"
    and "offset + len \<le> length (fl w)" "offset + len < 2 ^ 32" "ready f" "content f = c(name \<mapsto> old)"
  shows "\<exists>w' q' f'. libhoth_payload_update_read_chunk (\<lambda>bs (d, f). let (r, f) = write_fd os fd bs f in (r, (d, f)))
      (Some (lift_device (rot_device h))) len offset ((w, q), f) = Some (Inr (), ((w', q'), f')) \<and>
    fl w' = fl w \<and> content f' = c(name \<mapsto> old @ byte_range offset len (fl w))"
  using assms(3-6)
proof (induction len arbitrary: offset w q f old rule: less_induct)
  case (less len)
  let ?wr = "\<lambda>bs (d, f). let (r, f) = write_fd os fd bs f in (r, (d, f))"
  show ?case
  proof (cases "len = 0")
    case True
    then show ?thesis using less.prems
      by (subst libhoth_payload_update_read_chunk.simps) (simp add: byte_range_def fun_upd_def)
  next
    case False
    define k where "k = (if len < max_read_chunk then len else max_read_chunk)"
    have k: "0 < k" "k \<le> len" "k \<le> 1016"
      using False by (auto simp: k_def max_read_chunk_def LIBHOTH_MAILBOX_SIZE_def)
    have u: "unat (word_of_nat offset :: u32) = offset" "unat (word_of_nat k :: u32) = k"
      using k less.prems by (simp_all add: unat_of_nat)
    have "unat (word_of_nat offset :: u32) + unat (word_of_nat k :: u32) \<le> length (fl w)"
      using u k(2) less.prems(1) by simp
    with u obtain w1 where w1: "h PAYLOAD_UPDATE_CMD 0
        (payload_update_packet (word_of_nat offset) (word_of_nat k) PAYLOAD_UPDATE_READ) w = ((0, byte_range offset k (fl w)), w1)"
      "fl w1 = fl w"
      using assms(1) unfolding flash_reader_def by metis
    have "length (byte_range offset k (fl w)) = k" using k(2) less.prems(1) by simp
    then obtain q1 where cmd: "hostcmd (Some (lift_device (rot_device h))) PAYLOAD_UPDATE_CMD 0
        (payload_update_packet (word_of_nat offset) (word_of_nat k) PAYLOAD_UPDATE_READ) k False ((w, q), f) =
        (Inr (byte_range offset k (fl w)), ((w1, q1), f))"
      using w1(1) k(3) by (simp add: hostcmd_lift hostcmd_rot rpc_def)
    have "appends_to ?wr (\<lambda>s. content (snd s)) (\<lambda>s. fst s = (w1, q1) \<and> ready (snd s)) c name"
      using lift_appends [OF assms(2)] .
    then have "\<exists>s'. libhoth_force_write ?wr (byte_range offset k (fl w)) ((w1, q1), f) = Some (0, s') \<and>
        content (snd s') = c(name \<mapsto> old @ byte_range offset k (fl w)) \<and> fst s' = (w1, q1) \<and> ready (snd s')"
      by (rule force_write_file) (simp_all only: fst_conv snd_conv less.prems(3,4) simp_thms)
    then obtain f1 where fw: "libhoth_force_write ?wr (byte_range offset k (fl w)) ((w1, q1), f) = Some (0, ((w1, q1), f1))"
      "ready f1" "content f1 = c(name \<mapsto> old @ byte_range offset k (fl w))" by (metis prod.collapse)
    have "len - k < len" "offset + k + (len - k) \<le> length (fl w1)" "offset + k + (len - k) < 2 ^ 32"
      using k less.prems(1,2) w1(2) by auto
    from less.IH [OF this fw(2,3), of q1] obtain w2 q2 f2 where
      r: "libhoth_payload_update_read_chunk ?wr (Some (lift_device (rot_device h))) (len - k) (offset + k) ((w1, q1), f1) =
          Some (Inr (), ((w2, q2), f2))" "fl w2 = fl w1"
        "content f2 = c(name \<mapsto> (old @ byte_range offset k (fl w)) @ byte_range (offset + k) (len - k) (fl w1))" by blast
    have "byte_range offset k (fl w) @ byte_range (offset + k) (len - k) (fl w) = byte_range offset len (fl w)"
      using k(2) by (intro byte_range_join) auto
    then have all: "content f2 = c(name \<mapsto> old @ byte_range offset len (fl w))" using r(3) w1(2) by simp
    have "libhoth_payload_update_read_chunk ?wr (Some (lift_device (rot_device h))) len offset ((w, q), f) =
        libhoth_payload_update_read_chunk ?wr (Some (lift_device (rot_device h))) (len - k) (offset + k) ((w1, q1), f1)"
      using False by (subst libhoth_payload_update_read_chunk.simps, unfold Let_def k_def [symmetric]) (simp add: cmd fw(1) [unfolded Let_def])
    with r(1,2) w1(2) all show ?thesis by (intro exI [of _ w2] exI [of _ q2] exI [of _ f2]) simp
  qed
qed

text \<open>
  Writing an image from a file and reading it back into another leaves the image in the flash,
  with erased bytes up to the next sector, and the same bytes in the other file; no other file and no
  other part of the flash is changed.
\<close>

theorem payload_file_roundtrip:
  assumes "connected env (rot_device h)" "maps_files os content" "stores_files os content is_open"
    and "htool_get_param_string iv ''source-file'' = Inr src" "htool_get_param_bool iv ''skip_erase'' = Inr False"
    and "htool_get_param_bool iv ''binary'' = Inr True"
    and "htool_get_param_string iv' ''dest-file'' = Inr dst" "htool_get_param_u32 iv' ''start'' = Inr 0"
    and "htool_get_param_u32 iv' ''length'' = Inr (word_of_nat (length img))" "dst \<noteq> []"
    and "content f src = Some img" "img \<noteq> []" "flash_firmware h fl" "flash_reader h fl (\<lambda>_. [])"
    and "k = (length img + 4095) div 4096 * 4096" "k < 2 ^ 32" "k \<le> length (fl w)"
  shows "\<exists>w1 q1 f1 w2 q2 f2. htool_payload_update os env iv (w, q) f = Some (0, (w1, q1), f1) \<and> content f1 = content f \<and>
    fl w1 = img @ replicate (k - length img) 0xFF @ drop k (fl w) \<and>
    htool_payload_read os env iv' (w1, q1) f1 = Some (0, (w2, q2), f2) \<and> fl w2 = fl w1 \<and> content f2 = (content f)(dst \<mapsto> img)"
proof -
  obtain w1 q1 where w1: "libhoth_payload_update (Some (rot_device h)) img False True (w, q) = Some (Inr (), (w1, q1))"
    "fl w1 = img @ replicate (k - length img) 0xFF @ drop k (fl w)"
    using binary_update_flash [OF assms(13,12,15,16,17), of q] by blast
  obtain f1 where up: "htool_payload_update os env iv (w, q) f = Some (0, (w1, q1), f1)" and f1: "content f1 = content f"
    using with_image_file [OF assms(2,11,12), of "-1" "\<lambda>img d. map_option (\<lambda>(r, d). (case r of Inl _ \<Rightarrow> -1 | Inr _ \<Rightarrow> 0, d))
        (libhoth_payload_update (Some (rot_device h)) img False True d)" "(w, q)"] assms(1) w1(1)
    by (auto simp: htool_payload_update_def connected_def assms(4-6))
  obtain fd f2 where f2: "create_file os dst f1 = (Some fd, f2)" "content f2 = (content f)(dst \<mapsto> [])" "is_open fd dst f2"
    "appends_to (write_fd os fd) content (is_open fd dst) (content f) dst" "\<And>f. content (close_fd os fd f) = content f"
    using assms(3) f1 unfolding stores_files_def by metis
  have le: "length img \<le> k" using round_up_le [of 4096 "length img"] assms(15) by simp
  then have n: "0 + length img \<le> length (fl w1)" "0 + length img < 2 ^ 32" using w1(2) assms(16) by auto
  have u: "unat (word_of_nat (length img) :: u32) = length img" using n(2) by (simp add: unat_of_nat)
  then have nz: "(word_of_nat (length img) :: u32) \<noteq> 0" using assms(12) by (metis length_0_conv unat_0)
  obtain w2 q2 f3 where r: "libhoth_payload_update_read_chunk (\<lambda>bs (d, f). let (r, f) = write_fd os fd bs f in (r, (d, f)))
      (Some (lift_device (rot_device h))) (length img) 0 ((w1, q1), f2) = Some (Inr (), ((w2, q2), f3))"
    "fl w2 = fl w1" "content f3 = (content f)(dst \<mapsto> img)"
    using read_chunk_file [OF assms(14) f2(4) n f2(3,2), of q1] w1(2) by (auto simp: byte_range_def)
  have "htool_payload_read os env iv' (w1, q1) f1 = Some (0, (w2, q2), close_fd os fd f3)"
    using assms(1,10) nz u r(1) by (simp add: htool_payload_read_def connected_def assms(7-9) f2(1))
  with up f1 w1(2) r(2,3) f2(5) show ?thesis by (intro exI conjI) (assumption | simp)+
qed

text \<open>A root of trust that is its flash.\<close>

definition flash_rot :: "bytes rot_handler" where
  "flash_rot c v p w =
    (if 9 \<le> length p \<and> p ! 8 = update_type_val PAYLOAD_UPDATE_READ
     then ((0, byte_range (unat (u32_at 0 p)) (unat (u32_at 4 p)) w), w) else flash_device c v p w)"

lemma flash_rot_conforms: "flash_firmware flash_rot (\<lambda>w. w)" "flash_reader flash_rot (\<lambda>w. w) (\<lambda>_. [])"
proof -
  have l: "9 \<le> length (payload_update_packet offset len type)" for offset len type
    by (simp add: payload_update_packet_def)
  then show "flash_firmware flash_rot (\<lambda>w. w)"
    using flash_device_conforms by (simp add: flash_firmware_def flash_rot_def trans_le_add1)
  show "flash_reader flash_rot (\<lambda>w. w) (\<lambda>_. [])" using l by (simp add: flash_reader_def flash_rot_def)
qed

theorem payload_file_roundtrip_witness:
  "\<exists>w1 q1 f1 w2 q2 f2. htool_payload_update memory_posix
      \<lparr>connect = (\<lambda>d. (Some (rot_device flash_rot), d)), un_supported = (\<lambda>_. 0), un_bytes_read = (\<lambda>_. 0)\<rparr>
      (demo_args [(''source-file'', ''a''), (''skip_erase'', ''false''), (''binary'', ''true'')])
      (replicate 5000 7, []) ([''a'' \<mapsto> [1, 2, 3]], []) = Some (0, (w1, q1), f1) \<and>
    htool_payload_read memory_posix
      \<lparr>connect = (\<lambda>d. (Some (rot_device flash_rot), d)), un_supported = (\<lambda>_. 0), un_bytes_read = (\<lambda>_. 0)\<rparr>
      (demo_args [(''dest-file'', ''b''), (''start'', ''0''), (''length'', ''3'')]) (w1, q1) f1 = Some (0, (w2, q2), f2) \<and>
    fst f2 = [''a'' \<mapsto> [1, 2, 3], ''b'' \<mapsto> [1, 2, 3]]"
proof -
  let ?env = "\<lparr>connect = (\<lambda>d. (Some (rot_device flash_rot), d)), un_supported = (\<lambda>_. 0), un_bytes_read = (\<lambda>_. 0)\<rparr>
    :: (bytes \<times> bytes) htool_dev"
  let ?iv = "demo_args [(''source-file'', ''a''), (''skip_erase'', ''false''), (''binary'', ''true'')]"
  let ?iv' = "demo_args [(''dest-file'', ''b''), (''start'', ''0''), (''length'', ''3'')]"
  have env: "connected ?env (rot_device flash_rot)" by (simp add: connected_def)
  have "dec_nat 0 = ''0''" "dec_nat 3 = ''3''" by code_simp+
  then have nums: "parse_u32 ''0'' = Some 0" "parse_u32 ''3'' = Some (word_of_nat (length [1, 2, 3 :: u8]))"
    using parse_u32_dec [of 0] parse_u32_dec [of 3] by simp_all
  then have iv: "htool_get_param_string ?iv ''source-file'' = Inr ''a''" "htool_get_param_bool ?iv ''skip_erase'' = Inr False"
    "htool_get_param_bool ?iv ''binary'' = Inr True" "htool_get_param_string ?iv' ''dest-file'' = Inr ''b''"
    "htool_get_param_u32 ?iv' ''start'' = Inr 0"
    and len: "htool_get_param_u32 ?iv' ''length'' = Inr (word_of_nat (length [1, 2, 3 :: u8]))"
    by (simp_all add: htool_get_param_u32_def htool_get_param_bool_def htool_get_param_string_def get_param_required_def get_param_def
      find_param_by_name_def demo_args_def)
  have "\<exists>w1 q1 f1 w2 q2 f2. htool_payload_update memory_posix ?env ?iv (replicate 5000 7, []) ([''a'' \<mapsto> [1, 2, 3]], []) =
        Some (0, (w1, q1), f1) \<and> fst f1 = fst ([''a'' \<mapsto> [1, 2, 3 :: u8]], [] :: string) \<and>
      w1 = [1, 2, 3] @ replicate (4096 - length [1, 2, 3 :: u8]) 0xFF @ drop 4096 (replicate 5000 7) \<and>
      htool_payload_read memory_posix ?env ?iv' (w1, q1) f1 = Some (0, (w2, q2), f2) \<and> w2 = w1 \<and>
      fst f2 = (fst ([''a'' \<mapsto> [1, 2, 3 :: u8]], [] :: string))(''b'' \<mapsto> [1, 2, 3])"
    by (rule payload_file_roundtrip [OF env memory_maps_files memory_stores_files iv len _ _ _ flash_rot_conforms]) simp_all
  then show ?thesis by (elim exE conjE) (intro exI conjI, assumption+, simp)
qed

end
