(* ===== verification/Htool_Images.thy ===== *)
theory Htool_Images
  imports Htool_Payload Payload_Info
begin

text \<open>
  \<open>examples/htool_payload.c\<close> and \<open>htool_mauv.c\<close>: what payload images and the root of trust say about
  images and the minimum acceptable update versions, as text. \<open>None\<close> is an access outside an array.
\<close>

section \<open>Images\<close>

definition IMAGE_REGION_STATIC :: u16 where "IMAGE_REGION_STATIC = 0x0001"
definition IMAGE_REGION_COMPRESSED :: u16 where "IMAGE_REGION_COMPRESSED = 0x0002"
definition IMAGE_REGION_WRITE_PROTECTED :: u16 where "IMAGE_REGION_WRITE_PROTECTED = 0x0004"
definition IMAGE_REGION_PERSISTENT :: u16 where "IMAGE_REGION_PERSISTENT = 0x0010"
definition IMAGE_REGION_PERSISTENT_RELOCATABLE :: u16 where "IMAGE_REGION_PERSISTENT_RELOCATABLE = 0x0020"
definition IMAGE_REGION_PERSISTENT_EXPANDABLE :: u16 where "IMAGE_REGION_PERSISTENT_EXPANDABLE = 0x0040"
definition IMAGE_REGION_OVERRIDE :: u16 where "IMAGE_REGION_OVERRIDE = 0x0080"
definition IMAGE_REGION_OVERRIDE_ON_TRANSITION :: u16 where "IMAGE_REGION_OVERRIDE_ON_TRANSITION = 0x0100"
definition IMAGE_REGION_MAILBOX :: u16 where "IMAGE_REGION_MAILBOX = 0x0200"
definition IMAGE_REGION_SKIP_BOOT_VALIDATION :: u16 where "IMAGE_REGION_SKIP_BOOT_VALIDATION = 0x0400"
definition IMAGE_REGION_EMPTY :: u16 where "IMAGE_REGION_EMPTY = 0x0800"

definition region_flags :: "(u16 \<times> string) list" where
  "region_flags =
    [(IMAGE_REGION_STATIC, ''STATIC''), (IMAGE_REGION_COMPRESSED, ''COMPRESSED''),
     (IMAGE_REGION_WRITE_PROTECTED, ''WRITE_PROTECTED''), (IMAGE_REGION_PERSISTENT, ''PERSISTENT''),
     (IMAGE_REGION_PERSISTENT_RELOCATABLE, ''PERSISTENT_RELOCATABLE''),
     (IMAGE_REGION_PERSISTENT_EXPANDABLE, ''PERSISTENT_EXPANDABLE''), (IMAGE_REGION_OVERRIDE, ''OVERRIDE''),
     (IMAGE_REGION_OVERRIDE_ON_TRANSITION, ''OVERRIDE_ON_TRANSITION''), (IMAGE_REGION_MAILBOX, ''MAILBOX''),
     (IMAGE_REGION_SKIP_BOOT_VALIDATION, ''SKIP_BOOT_VALIDATION''), (IMAGE_REGION_EMPTY, ''EMPTY'')]"

fun flag_names :: "u16 \<Rightarrow> bool \<Rightarrow> (u16 \<times> string) list \<Rightarrow> string" where
  "flag_names attributes first [] = (if \<not> first then '')'' else [])"
| "flag_names attributes first ((msk, nm) # fs) =
    (if attributes AND msk \<noteq> 0 then (if first then '' ('' else '' | '') @ nm @ flag_names attributes False fs
     else flag_names attributes first fs)"

definition print_region_attributes :: "u16 \<Rightarrow> string" where
  "print_region_attributes attributes =
    ''0x'' @ hex_padded hex_digits 4 (unat attributes) @ flag_names attributes True region_flags @ newline"

definition print_region :: "nat \<Rightarrow> payload_region_info \<Rightarrow> string" where
  "print_region i r =
    ''  Region '' @ dec_nat i @ '':'' @ newline @
    ''    name: '' @ chars_until_nul (region_name r) @ newline @
    ''    offset: 0x'' @ hex_padded hex_digits 8 (unat (region_offset r)) @ newline @
    ''    size: 0x'' @ hex_padded hex_digits 8 (unat (region_size r)) @ newline @
    ''    version: '' @ dec_nat (unat (region_version r)) @ newline @
    ''    attributes: '' @ print_region_attributes (region_attributes r)"

text \<open>The outer \<open>None\<close> is an access outside the 32 regions.\<close>

fun print_regions_from :: "payload_region_info list \<Rightarrow> u16 \<Rightarrow> nat \<Rightarrow> nat \<Rightarrow> string option" where
  "print_regions_from rs skip_mask i 0 = Some []"
| "print_regions_from rs skip_mask i (Suc n) =
    (if i < length rs then
       map_option (\<lambda>rest. (if region_attributes (rs ! i) AND skip_mask \<noteq> 0 then [] else print_region i (rs ! i)) @ rest)
         (print_regions_from rs skip_mask (Suc i) n)
     else None)"

definition print_regions :: "payload_info_all \<Rightarrow> u16 \<Rightarrow> string option" where
  "print_regions info_all skip_mask = print_regions_from (regions info_all) skip_mask 0 (unat (region_count info_all))"

definition HASH_NONE :: u8 where "HASH_NONE = 0"

definition hash_type_string :: "u8 \<Rightarrow> string" where
  "hash_type_string ht = (if ht = HASH_NONE then ''None'' else if ht = HASH_SHA2_256 then ''SHA2-256'' else ''Unknown'')"

text \<open>
  What \<open>gmtime_r\<close> and \<open>strftime\<close> make of a time, if the year fits into the field \<open>tm_year\<close>, an \<open>int\<close>
  that counts from 1900. Days are counted from the first of March of the year 0, in eras of 400 years.
\<close>

definition civil_from_days :: "int \<Rightarrow> int \<times> int \<times> int" where
  "civil_from_days days =
    (let z = days + 719468; era = z div 146097; doe = z mod 146097;
         yoe = (doe - doe div 1460 + doe div 36524 - doe div 146096) div 365;
         doy = doe - (365 * yoe + yoe div 4 - yoe div 100);
         mp = (5 * doy + 2) div 153;
         month = (if mp < 10 then mp + 3 else mp - 9)
     in (yoe + era * 400 + (if month \<le> 2 then 1 else 0), month, doy - (153 * mp + 2) div 5 + 1))"

definition two_digits :: "int \<Rightarrow> string" where
  "two_digits n = (if n < 10 then ''0'' else []) @ dec_int n"

definition utc_text :: "u64 \<Rightarrow> string" where
  "utc_text ts =
    (let t = sint ts; (y, mo, dy) = civil_from_days (t div 86400); r = t mod 86400
     in if y - 1900 < - (2 ^ 31) \<or> 2 ^ 31 \<le> y - 1900 then []
        else '' ('' @ dec_int y @ ''-'' @ two_digits mo @ ''-'' @ two_digits dy @ '' '' @ two_digits (r div 3600) @ '':'' @
          two_digits (r mod 3600 div 60) @ '':'' @ two_digits (r mod 60) @ '' UTC)'')"

text \<open>Whether \<open>munmap\<close> and \<open>close\<close> fail.\<close>

record 'f closing =
  munmap_fails :: "'f \<Rightarrow> bool"
  close_fails :: "int \<Rightarrow> 'f \<Rightarrow> bool"

definition htool_payload_image_open ::
  "'f posix_files \<Rightarrow> htool_invocation \<Rightarrow> 'f \<Rightarrow> (bytes \<times> int) option \<times> 'f" where
  "htool_payload_image_open os iv f =
    (case htool_get_param_string iv ''source-file'' of
       Inl _ \<Rightarrow> (None, f)
     | Inr image_file \<Rightarrow>
         (case open_file os image_file f of
            (None, f) \<Rightarrow> (None, f)
          | (Some fd, f) \<Rightarrow>
              (case stat_size os fd f of
                 (None, f) \<Rightarrow> (None, close_fd os fd f)
               | (Some st_size, f) \<Rightarrow>
                   (case map_fd os fd st_size f of
                      (None, f) \<Rightarrow> (None, close_fd os fd f)
                    | (Some img, f) \<Rightarrow> (Some (take st_size img, fd), f)))))"

definition htool_payload_image_close :: "'f posix_files \<Rightarrow> 'f closing \<Rightarrow> int \<Rightarrow> 'f \<Rightarrow> int \<times> 'f" where
  "htool_payload_image_close os cl fd f =
    (let rv = (if munmap_fails cl f then -1 else 0);
         f = unmap os f;
         rv = (if close_fails cl fd f then -1 else rv)
     in (rv, close_fd os fd f))"

text \<open>The three commands open the image, print what \<open>describe\<close> makes of it, and close it.\<close>

definition with_payload_image ::
  "'f posix_files \<Rightarrow> 'f closing \<Rightarrow> htool_invocation \<Rightarrow> (bytes \<Rightarrow> string option) \<Rightarrow> 'f \<Rightarrow> ((int \<times> string) \<times> 'f) option" where
  "with_payload_image os cl iv describe f =
    (case htool_payload_image_open os iv f of
       (None, f) \<Rightarrow> Some ((-1, []), f)
     | (Some (img, fd), f) \<Rightarrow>
         map_option (\<lambda>out. let (rv, f) = htool_payload_image_close os cl fd f in ((rv, out), f)) (describe img))"

definition name_32 :: "bytes \<Rightarrow> string" where
  "name_32 name = (let s = chars_until_nul name in s @ replicate (32 - length s) CHR '' '')"

definition version_text :: "payload_version \<Rightarrow> string" where
  "version_text v = dec_nat (unat (pv_major v)) @ ''.'' @ dec_nat (unat (pv_minor v)) @ ''.'' @
    dec_nat (unat (pv_point v)) @ ''.'' @ dec_nat (unat (pv_subpoint v))"

text \<open>\<open>un\<close> is what the structures on the stack hold before.\<close>

definition htool_payload_info ::
  "payload_info \<Rightarrow> 'f posix_files \<Rightarrow> 'f closing \<Rightarrow> htool_invocation \<Rightarrow> 'f \<Rightarrow> ((int \<times> string) \<times> 'f) option" where
  "htool_payload_info un os cl iv =
    with_payload_image os cl iv (\<lambda>img.
      map_option (\<lambda>(ok, info). if \<not> ok then []
        else
          ''Payload Info:'' @ newline @
          ''  name: '' @ name_32 (image_name info) @ newline @
          ''  family: '' @ dec_nat (unat (image_family info)) @ newline @
          ''  version: '' @ version_text (image_version info) @ newline @
          ''  type: '' @ dec_nat (unat (image_type info)) @ newline @
          ''  hash: '' @ hex_of (image_hash info) @ newline)
        (libhoth_payload_info img un))"

definition describe_all :: "payload_info_all \<Rightarrow> bytes \<Rightarrow> string option" where
  "describe_all un img =
    (case libhoth_payload_info_all img un of
      None \<Rightarrow> None
    | Some (ok, a) \<Rightarrow>
        if \<not> ok then Some []
        else
          map_option (\<lambda>rs.
            ''Payload Info All:'' @ newline @
            ''  name: '' @ name_32 (image_name (info a)) @ newline @
            ''  family: '' @ dec_nat (unat (image_family (info a))) @ newline @
            ''  version: '' @ version_text (image_version (info a)) @ newline @
            ''  type: '' @ dec_nat (unat (image_type (info a))) @ '' ('' @ libhoth_image_type_string (image_type (info a)) @ '')'' @ newline @
            ''  hash_type: '' @ dec_nat (unat (hash_type a)) @ '' ('' @ hash_type_string (hash_type a) @ '')'' @ newline @
            ''  hash: '' @ hex_of (image_hash (info a)) @ newline @
            ''  descriptor_version: '' @ dec_nat (unat (descriptor_major a)) @ ''.'' @ dec_nat (unat (descriptor_minor a)) @ newline @
            ''  build_timestamp: '' @ dec_nat (unat (build_timestamp a)) @
            (if build_timestamp a \<noteq> 0 then utc_text (build_timestamp a) else []) @ newline @
            ''  image_size: 0x'' @ hex_padded hex_digits 8 (unat (image_size a)) @ newline @
            ''  blob_size: '' @ dec_nat (unat (blob_size a)) @ newline @
            ''  region_count: '' @ dec_nat (unat (region_count a)) @ newline @ rs)
          (print_regions a 0))"

definition htool_payload_info_all ::
  "payload_info_all \<Rightarrow> 'f posix_files \<Rightarrow> 'f closing \<Rightarrow> htool_invocation \<Rightarrow> 'f \<Rightarrow> ((int \<times> string) \<times> 'f) option" where
  "htool_payload_info_all un os cl iv = with_payload_image os cl iv (describe_all un)"

definition describe_nonstatic :: "payload_info_all \<Rightarrow> bytes \<Rightarrow> string option" where
  "describe_nonstatic un img =
    (case libhoth_payload_info_all img un of
       None \<Rightarrow> None
     | Some (ok, a) \<Rightarrow>
         if \<not> ok then Some []
         else map_option (\<lambda>rs. ''Non-static regions:'' @ newline @ rs) (print_regions a IMAGE_REGION_STATIC))"

definition htool_payload_info_nonstatic ::
  "payload_info_all \<Rightarrow> 'f posix_files \<Rightarrow> 'f closing \<Rightarrow> htool_invocation \<Rightarrow> 'f \<Rightarrow> ((int \<times> string) \<times> 'f) option" where
  "htool_payload_info_nonstatic un os cl iv = with_payload_image os cl iv (describe_nonstatic un)"

section \<open>The status of the payload\<close>

text \<open>\<open>un\<close> is what the 68 bytes of the structure hold before.\<close>

definition PAYLOAD_IMAGE_UNVERIFIED :: u8 where "PAYLOAD_IMAGE_UNVERIFIED = 1"

definition region_status_text :: "nat \<Rightarrow> payload_region_state \<Rightarrow> string" where
  "region_status_text region_index rs =
    ''Region '' @ (if region_index = 0 then ''A'' else ''B'') @ '':'' @ newline @
    ''  validation_state: '' @ libhoth_payload_validation_state_string (validation_state rs) @ '' ('' @
      dec_nat (unat (validation_state rs)) @ '')'' @ newline @
    (if validation_state rs = PAYLOAD_IMAGE_UNVERIFIED then []
     else
       (if failure_reason rs \<noteq> 0
        then ''  failure_reason: '' @ libhoth_payload_validation_failure_reason_string (failure_reason rs) @ '' ('' @
          dec_nat (unat (failure_reason rs)) @ '')'' @ newline
        else []) @
       ''  image_type: '' @ libhoth_image_type_string (region_image_type rs) @ '' ('' @ dec_nat (unat (region_image_type rs)) @ '')'' @ newline @
       ''  image_family: (0x'' @ hex_padded hex_digits 8 (unat (region_image_family rs)) @ '')'' @ newline @
       ''  version: '' @ dec_nat (unat (version_major rs)) @ ''.'' @ dec_nat (unat (version_minor rs)) @ ''.'' @
         dec_nat (unat (version_point rs)) @ ''.'' @ dec_nat (unat (version_subpoint rs)) @ newline @
       ''  descriptor_offset: 0x'' @ hex_padded hex_digits 8 (unat (descriptor_offset rs)) @ newline)"

definition htool_payload_status :: "bytes \<Rightarrow> 'd htool_dev \<Rightarrow> 'd \<Rightarrow> (int \<times> string) option \<times> 'd" where
  "htool_payload_status un env d =
    (case connect env d of
       (None, d) \<Rightarrow> (Some (-1, []), d)
     | (Some dev, d) \<Rightarrow>
         (case libhoth_payload_status (Some dev) (Some un) d of
            (Inl _, d) \<Rightarrow> (Some (-1, []), d)
          | (Inr ps, d) \<Rightarrow>
              (let n = unat (ps ! 3)
               in if length ps < 4 + 32 * n then None
                  else Some (0,
                    ''lockdown_state: '' @ libhoth_sps_eeprom_lockdown_status_string (ps ! 1) @ '' ('' @ dec_nat (unat (ps ! 1)) @ '')'' @ newline @
                    ''active_half   : '' @ (if ps ! 2 \<noteq> 0 then ''B'' else ''A'') @ newline @
                    concat (map (\<lambda>i. region_status_text i (region_state_at (4 + 32 * i) ps)) [0..<n])), d)))"

section \<open>Minimum acceptable update versions\<close>

definition MAUV_STATE_EFFECTIVE :: u8 where "MAUV_STATE_EFFECTIVE = 1"
definition MAUV_STATE_COMPILED :: u8 where "MAUV_STATE_COMPILED = 2"
definition HAVEN_MAUV :: u8 where "HAVEN_MAUV = 1"
definition IMAGE_MAUV :: u8 where "IMAGE_MAUV = 2"
definition HAVEN_MAUV_MAX_DENYLIST_SIZE :: nat where "HAVEN_MAUV_MAX_DENYLIST_SIZE = 8"

definition haven_version_text :: "nat \<Rightarrow> bytes \<Rightarrow> string" where
  "haven_version_text k m = dec_nat (unat (u32_at k m)) @ ''.'' @ dec_nat (unat (u32_at (k + 4) m)) @ ''.'' @ dec_nat (unat (u64_at (k + 8) m))"

definition print_firmware_mauv :: "bytes \<Rightarrow> string" where
  "print_firmware_mauv mauv =
    ''Firmware MAUV:'' @ newline @
    ''  Struct Version: '' @ dec_nat (unat (u32_at 0 mauv)) @ newline @
    ''  MAUV Version:   '' @ dec_nat (unat (u32_at 4 mauv)) @ newline @
    ''  Minimum Version: '' @ haven_version_text 8 mauv @ newline @
    ''  Denylist ('' @ dec_nat (unat (u32_at 24 mauv)) @ '' entries):'' @ newline @
    concat (map (\<lambda>i. ''    ['' @ dec_nat i @ '']: '' @ haven_version_text (28 + 16 * i) mauv @ newline)
      [0..<min (unat (u32_at 24 mauv)) HAVEN_MAUV_MAX_DENYLIST_SIZE])"

definition htool_mauv_compiled :: "'d htool_dev \<Rightarrow> 'd \<Rightarrow> 'd htool_result" where
  "htool_mauv_compiled env = with_device env (\<lambda>dev d.
    reported (libhoth_fetch_mauv (Some dev) MAUV_STATE_COMPILED HAVEN_MAUV (zeros 156) d) (\<lambda>mauv. (0, print_firmware_mauv mauv)))"

definition htool_mauv_effective :: "'d htool_dev \<Rightarrow> 'd \<Rightarrow> 'd htool_result" where
  "htool_mauv_effective env = with_device env (\<lambda>dev d.
    reported (libhoth_fetch_mauv (Some dev) MAUV_STATE_EFFECTIVE HAVEN_MAUV (zeros 156) d) (\<lambda>mauv. (0, print_firmware_mauv mauv)))"

text \<open>Allocating the memory succeeds.\<close>

definition htool_mauv_update ::
  "'f posix_files \<Rightarrow> 'd htool_dev \<Rightarrow> htool_invocation \<Rightarrow> 'd \<Rightarrow> 'f \<Rightarrow> (int \<times> string) \<times> 'd \<times> 'f" where
  "htool_mauv_update os env iv d f =
    (case connect env d of
       (None, d) \<Rightarrow> ((-1, []), d, f)
     | (Some dev, d) \<Rightarrow>
         (case htool_get_param_string iv ''record-file'' of
            Inl _ \<Rightarrow> ((-1, []), d, f)
          | Inr record_file \<Rightarrow>
              (case open_file os record_file f of
                 (None, f) \<Rightarrow> ((-1, []), d, f)
               | (Some fd, f) \<Rightarrow>
                   (case stat_size os fd f of
                      (None, f) \<Rightarrow> ((-1, []), d, close_fd os fd f)
                    | (Some st_size, f) \<Rightarrow>
                        if MAUV_MAX_RECORD_SIZE < st_size then ((-1, []), d, close_fd os fd f)
                        else
                          (case read_fd os fd st_size f of
                             (None, f) \<Rightarrow> ((-1, []), d, close_fd os fd f)
                           | (Some bs, f) \<Rightarrow>
                               if length (take st_size bs) \<noteq> st_size then ((-1, []), d, close_fd os fd f)
                               else
                                 let f = close_fd os fd f;
                                     sending = ''Sending MAUV update record ('' @ dec_nat st_size @ '' bytes)...'' @ newline
                                 in (case libhoth_update_mauv (Some dev) (take st_size bs) d of
                                       (Inl _, d) \<Rightarrow> ((-1, sending), d, f)
                                     | (Inr _, d) \<Rightarrow> ((0, sending @ ''MAUV update successful!'' @ newline), d, f)))))))"

text \<open>\<open>printf\<close> of the list of versions, which the count from the root of trust alone ends.\<close>

fun print_denylist :: "bytes \<Rightarrow> nat \<Rightarrow> nat \<Rightarrow> string option" where
  "print_denylist mauv i 0 = Some []"
| "print_denylist mauv i (Suc n) =
    (case read_at (40 + 8 * i) 8 mauv of
       None \<Rightarrow> None
     | Some v \<Rightarrow>
         map_option (\<lambda>rest. ''    ['' @ dec_nat i @ '']: '' @ dec_nat (le_nat v) @ newline @ rest) (print_denylist mauv (Suc i) n))"

definition htool_get_compiled_payload_mauv :: "'d htool_dev \<Rightarrow> 'd \<Rightarrow> (int \<times> string) option \<times> 'd" where
  "htool_get_compiled_payload_mauv env d =
    (case connect env d of
       (None, d) \<Rightarrow> (Some (-1, []), d)
     | (Some dev, d) \<Rightarrow>
         (case libhoth_fetch_mauv (Some dev) MAUV_STATE_COMPILED IMAGE_MAUV (zeros 156) d of
            (Inl _, d) \<Rightarrow> (Some (-1, []), d)
          | (Inr mauv, d) \<Rightarrow>
              (map_option (\<lambda>versions. (0,
                 ''Payload MAUV (Compiled):'' @ newline @
                 ''  Struct Version: '' @ dec_nat (unat (u32_at 0 mauv)) @ newline @
                 ''  Security Version: '' @ dec_nat (unat (u64_at 8 mauv)) @ newline @
                 ''  Update Timestamp: '' @ dec_nat (unat (u64_at 16 mauv)) @ newline @
                 ''  Min Acceptable Version: '' @ dec_nat (unat (u64_at 24 mauv)) @ newline @
                 ''  Denylist Entries: '' @ dec_nat (unat (u32_at 36 mauv)) @ newline @ versions))
                 (print_denylist mauv 0 (unat (u32_at 36 mauv))), d)))"

definition htool_get_effective_payload_mauv :: int where
  "htool_get_effective_payload_mauv = 0"


section \<open>Within the arrays\<close>

text \<open>The times of the descriptors: the epoch, a leap day, and the last second of a century.\<close>

lemma utc_text_examples:
  "utc_text 0 = '' (1970-01-01 00:00:00 UTC)''" "utc_text 951782400 = '' (2000-02-29 00:00:00 UTC)''"
  "utc_text 4102444799 = '' (2099-12-31 23:59:59 UTC)''" "utc_text (2 ^ 63) = []"
  by code_simp+

lemma print_regions_returns: "i + n \<le> length rs \<Longrightarrow> \<exists>out. print_regions_from rs skip_mask i n = Some out"
proof (induction n arbitrary: i)
  case (Suc n)
  then have "\<exists>out. print_regions_from rs skip_mask (Suc i) n = Some out" by simp
  with Suc.prems show ?case by auto
qed simp

text \<open>Whatever the file holds, describing it stays within the file and the structures.\<close>

lemma with_payload_image_returns:
  assumes "\<And>img. describe img \<noteq> None"
  shows "\<exists>r. with_payload_image os cl iv describe f = Some r"
proof (cases "htool_payload_image_open os iv f")
  case (Pair r f1)
  show ?thesis
  proof (cases r)
    case None
    with Pair show ?thesis by (simp add: with_payload_image_def)
  next
    case (Some img_fd)
    obtain img fd where "img_fd = (img, fd)" by (cases img_fd)
    moreover obtain out where "describe img = Some out" using assms [of img] by blast
    ultimately show ?thesis using Pair Some by (simp add: with_payload_image_def split: prod.splits)
  qed
qed

lemma payload_info_all_in_bounds:
  assumes "length (regions un) = 32"
  shows "\<exists>r. htool_payload_info_all un os cl iv f = Some r \<and> (\<exists>r. htool_payload_info_nonstatic un os cl iv f = Some r)"
proof -
  have "\<exists>rs. print_regions a m = Some rs" if "libhoth_payload_info_all img un = Some (True, a)" for img a m
    using payload_info_all_bounds [OF assms, of img] that
    by (auto simp: print_regions_def intro!: print_regions_returns)
  moreover have "\<exists>x. libhoth_payload_info_all img un = Some x" for img
    using payload_info_all_bounds [OF assms, of img] by auto
  ultimately have "describe_all un img \<noteq> None" "describe_nonstatic un img \<noteq> None" for img
    by (fastforce simp: describe_all_def describe_nonstatic_def split: option.splits prod.splits)+
  then show ?thesis unfolding htool_payload_info_all_def htool_payload_info_nonstatic_def
    by (metis with_payload_image_returns)
qed

lemma payload_status_in_bounds:
  assumes "length un = 68"
  shows "fst (htool_payload_status un env d) \<noteq> None"
proof -
  have "\<not> length ps < 4 + 32 * unat (ps ! 3)"
    if "libhoth_payload_status dev (Some un) d1 = (Inr ps, d2)" for dev :: "'a libhoth_device option" and d1 ps d2
    using payload_status_regions [OF that assms] by auto
  then show ?thesis
    by (simp add: htool_payload_status_def Let_def split: option.splits prod.splits sum.splits)
qed

lemma print_denylist_iff: "print_denylist m i n = None \<longleftrightarrow> 0 < n \<and> length m < 40 + 8 * (i + n)"
proof (induction n arbitrary: i)
  case (Suc n)
  show ?case
  proof (cases "40 + 8 * (i + 1) \<le> length m")
    case True
    with Suc.IH [of "Suc i"] show ?thesis by (cases "n = 0") (auto simp: read_at_def)
  qed (simp add: read_at_def)
qed simp

text \<open>
  Printing the versions that the root of trust reports for payloads stays within the structure
  exactly if it reports at most 14 of them; with more the bytes behind the structure are read.
\<close>

theorem payload_mauv_overread_iff:
  assumes "connected env (rot_device h)"
    and "h (HOTH_CMD_BOARD_SPECIFIC_BASE + EC_PRV_CMD_HAVEN_MAUV) 0 [IMAGE_MAUV, MAUV_STATE_COMPILED, 0, 0] w = ((0, r), w')"
    and "length r = 156"
  shows "fst (htool_get_compiled_payload_mauv env (w, q)) = None \<longleftrightarrow> 14 < unat (u32_at 36 r)"
proof -
  have "h (HOTH_CMD_BOARD_SPECIFIC_BASE + EC_PRV_CMD_HAVEN_MAUV) 0 ([IMAGE_MAUV, MAUV_STATE_COMPILED] @ le_bytes 2 (0 :: u16)) w = ((0, r), w')"
    using assms(2) by (simp add: numeral_2_eq_2)
  then have "libhoth_fetch_mauv (Some (rot_device h)) MAUV_STATE_COMPILED IMAGE_MAUV (zeros 156) (w, q) =
      (Inr r, (w', request_frame (HOTH_CMD_BOARD_SPECIFIC_BASE + EC_PRV_CMD_HAVEN_MAUV) 0 ([IMAGE_MAUV, MAUV_STATE_COMPILED] @ le_bytes 2 (0 :: u16))))"
    using assms(3) by (simp add: libhoth_fetch_mauv_def hostcmd_rot rpc_def memcpy_at_def)
  then show ?thesis using assms(1,3)
    by (auto simp: htool_get_compiled_payload_mauv_def connected_def print_denylist_iff)
qed

theorem payload_mauv_overread_iff_witness:
  "fst (htool_get_compiled_payload_mauv \<lparr>connect = (\<lambda>d. (Some (rot_device (\<lambda>_ _ _ w. ((0, zeros 36 @ [15, 0, 0, 0] @ zeros 116), w))), d)),
      un_supported = (\<lambda>_. 0), un_bytes_read = (\<lambda>_. 0)\<rparr> ((), [])) = None"
proof -
  let ?h = "\<lambda>_ _ _ w. ((0, zeros 36 @ [15, 0, 0, 0] @ zeros 116), w :: unit)"
  let ?env = "\<lparr>connect = (\<lambda>d. (Some (rot_device ?h), d)), un_supported = (\<lambda>_. 0), un_bytes_read = (\<lambda>_. 0)\<rparr>"
  have env: "connected ?env (rot_device ?h)" by (simp add: connected_def)
  have n: "unat (u32_at 36 (zeros 36 @ [15, 0, 0, 0] @ zeros 116)) = 15" by (simp add: field_defs le_word_def)
  from payload_mauv_overread_iff [OF env refl, of "()" "[]"] n show ?thesis by simp
qed

end
