(* ===== verification/Htool_Dfu.thy ===== *)
theory Htool_Dfu
  imports Htool_Payload Dfu
begin

text \<open>
  \<open>examples/htool_dfu.c\<close>: installing a firmware bundle from a file, and checking that it is installed.
  \<open>None\<close> is a command that does not return. \<open>stk\<close> is what a buffer of the console holds before.
\<close>

definition dfu_complete_flags :: "string \<Rightarrow> u32 option" where
  "dfu_complete_flags reset_arg =
    (if reset_arg = ''warm'' then Some HOTH_DFU_COMPLETE_FLAGS_WARM_RESTART
     else if reset_arg = ''cold'' then Some HOTH_DFU_COMPLETE_FLAGS_COLD_RESTART
     else if reset_arg = ''none'' then Some 0 else None)"

text \<open>The loop of \<open>--force\<close>, of \<open>n\<close> updates.\<close>

fun forced_updates :: "('d \<Rightarrow> libhoth_error \<times> 'd) \<Rightarrow> nat \<Rightarrow> 'd \<Rightarrow> libhoth_error \<times> 'd" where
  "forced_updates update 0 d = (HOTH_SUCCESS, d)"
| "forced_updates update (Suc n) d =
    (let (err, d) = update d in if err \<noteq> HOTH_SUCCESS then (err, d) else forced_updates update n d)"

definition htool_dfu_update ::
  "bytes \<Rightarrow> ('d \<Rightarrow> hoth_dfu_nonce option \<times> 'd) \<Rightarrow> (nat \<Rightarrow> 'd \<Rightarrow> 'd) \<Rightarrow> 'f posix_files \<Rightarrow> 'd htool_dev \<Rightarrow>
    htool_invocation \<Rightarrow> 'd \<Rightarrow> 'f \<Rightarrow> ((int \<times> string) \<times> 'd \<times> 'f) option" where
  "htool_dfu_update stk getrandom usleep os env iv d f =
    (case connect env d of
       (None, d) \<Rightarrow> Some ((-1, []), d, f)
     | (Some dev, d) \<Rightarrow>
         (case (case htool_get_param_string iv ''reset'' of Inl _ \<Rightarrow> None | Inr reset_arg \<Rightarrow> dfu_complete_flags reset_arg) of
            None \<Rightarrow> Some ((-1, []), d, f)
          | Some complete_flags \<Rightarrow>
              (case (htool_get_param_bool iv ''force'', htool_get_param_string iv ''fwupdate-file'') of
                 (Inr force, Inr fwupdate_file) \<Rightarrow>
                   with_image os fwupdate_file (-1, [])
                     (\<lambda>img d.
                       case (if force then Some (forced_updates (libhoth_dfu_update getrandom usleep (Some dev) (Some img) complete_flags) 2 d)
                             else libhoth_dfu_install_firmware getrandom usleep (Some dev) (Some img) complete_flags d) of
                         None \<Rightarrow> None
                       | Some (err, d) \<Rightarrow>
                           if err \<noteq> HOTH_SUCCESS
                           then map_option (\<lambda>(out, d). ((-1, out), d)) (libhoth_print_dfu_error stk (Some dev) None err d)
                           else Some ((0, []), d)) d f
               | _ \<Rightarrow> Some ((-1, []), d, f))))"

definition htool_dfu_check ::
  "bytes \<Rightarrow> 'f posix_files \<Rightarrow> 'd htool_dev \<Rightarrow> htool_invocation \<Rightarrow> 'd \<Rightarrow> 'f \<Rightarrow> ((int \<times> string) \<times> 'd \<times> 'f) option" where
  "htool_dfu_check stk os env iv d f =
    (case connect env d of
       (None, d) \<Rightarrow> Some ((-1, []), d, f)
     | (Some dev, d) \<Rightarrow>
         (case htool_get_param_string iv ''fwupdate-file'' of
            Inl _ \<Rightarrow> Some ((-1, []), d, f)
          | Inr fwupdate_file \<Rightarrow>
              with_image os fwupdate_file (-1, [])
                (\<lambda>img d.
                  case libhoth_opentitan_version (Some dev) d of
                    (Inl _, d) \<Rightarrow> Some ((-1, []), d)
                  | (Inr resp, d) \<Rightarrow>
                      map_option (\<lambda>(err, out, d). ((if err \<noteq> HOTH_SUCCESS then -1 else 0, out), d))
                        (libhoth_dfu_check stk (Some dev) (Some img) (Some resp) d)) d f))"

section \<open>Installing from a file\<close>

lemma forced_updates_both:
  assumes "dfu_firmware h stage ver" "os_ok getrandom usleep" "bundle_ok img" "restarts fl"
  shows "\<exists>w' q'. forced_updates (libhoth_dfu_update getrandom usleep (Some (rot_device h)) (Some img) fl) 2 (w, q) =
      (HOTH_SUCCESS, (w', q')) \<and> both_slots img (version_resp_of_bytes (ver w'))"
proof -
  obtain w1 q1 where 1: "libhoth_dfu_update getrandom usleep (Some (rot_device h)) (Some img) fl (w, q) = (HOTH_SUCCESS, (w1, q1))"
    "boots_into img (version_resp_of_bytes (ver w)) (version_resp_of_bytes (ver w1))"
    using dfu_update_firmware [OF assms] by blast
  obtain w2 q2 where 2: "libhoth_dfu_update getrandom usleep (Some (rot_device h)) (Some img) fl (w1, q1) = (HOTH_SUCCESS, (w2, q2))"
    "boots_into img (version_resp_of_bytes (ver w1)) (version_resp_of_bytes (ver w2))"
    using dfu_update_firmware [OF assms] by blast
  have "both_slots img (version_resp_of_bytes (ver w2))"
    using 1(2) 2(2) by (simp add: both_slots_def boots_into_def)
  then show ?thesis using 1(1) 2(1) by (simp add: numeral_2_eq_2)
qed

lemma dfu_check_both:
  assumes "dfu_firmware h stage ver" "bundle_ok img" "both_slots img (version_resp_of_bytes (ver w))"
    and "connected env (rot_device h)" "maps_files os content" "content f name = Some img" "img \<noteq> []"
    and "htool_get_param_string iv ''fwupdate-file'' = Inr name"
  shows "\<exists>out q' f'. htool_dfu_check stk os env iv (w, q) f = Some ((0, out), (w, q'), f') \<and> content f' = content f"
proof -
  obtain q1 where v: "libhoth_opentitan_version (Some (rot_device h)) (w, q) = (Inr (version_resp_of_bytes (ver w)), (w, q1))"
    using opentitan_version_firmware [OF assms(1)] by blast
  have "libhoth_update_complete (version_resp_of_bytes (ver w)) (bundle_rom_ext img) (bundle_app img) = HOTH_SUCCESS"
    using assms(3) by (simp add: update_complete_iff both_slots_def)
  then have "libhoth_dfu_check stk (Some (rot_device h)) (Some img) (Some (version_resp_of_bytes (ver w))) (w, q1) =
      Some (HOTH_SUCCESS, libhoth_print_boot_log (version_resp_of_bytes (ver w)) (bundle_rom_ext img) (bundle_app img), (w, q1))"
    using assms(2) by (simp add: libhoth_dfu_check_def extract_bundle)
  then show ?thesis
    using with_image_file [OF assms(5-7), of "(-1, [])" "\<lambda>img d.
        case libhoth_opentitan_version (Some (rot_device h)) d of
          (Inl _, d) \<Rightarrow> Some ((-1, []), d)
        | (Inr resp, d) \<Rightarrow> map_option (\<lambda>(err, out, d). ((if err \<noteq> HOTH_SUCCESS then -1 else 0, out), d))
            (libhoth_dfu_check stk (Some (rot_device h)) (Some img) (Some resp) d)" "(w, q)"] assms(4) v
    by (auto simp: htool_dfu_check_def connected_def assms(8))
qed

text \<open>
  Updating, with a restart, from a file that holds a well-formed bundle leaves the versions of the
  bundle in both slots, and the check with the same file then succeeds. With \<open>--force\<close> this holds whatever was
  in the slots before; without it the booted slot must be outdated, and the bundle not older than the least
  security version.
\<close>

theorem dfu_update_then_check:
  assumes "connected env (rot_device h)" "maps_files os content" "content f name = Some img" "bundle_ok img"
    and "htool_get_param_string iv ''reset'' = Inr reset" "dfu_complete_flags reset = Some fl" "restarts fl"
    and "htool_get_param_bool iv ''force'' = Inr force" "htool_get_param_string iv ''fwupdate-file'' = Inr name"
    and "htool_get_param_string iv' ''fwupdate-file'' = Inr name"
    and "dfu_firmware h stage ver" "os_ok getrandom usleep" "resp = version_resp_of_bytes (ver w)"
    and "force \<or> bl0_min_sec_ver resp \<le> security_version (bundle_app img) \<and>
      outdated img (libhoth_ot_boot_app resp) (libhoth_ot_boot_romext resp)"
  shows "\<exists>w' q' f' out q'' f''. htool_dfu_update stk getrandom usleep os env iv (w, q) f = Some ((0, []), (w', q'), f') \<and>
    both_slots img (version_resp_of_bytes (ver w')) \<and> content f' = content f \<and>
    htool_dfu_check stk os env iv' (w', q') f' = Some ((0, out), (w', q''), f'') \<and> content f'' = content f"
proof -
  have ne: "img \<noteq> []" using assms(4) by (auto simp: bundle_ok_def smallest_fw_def)
  have "\<exists>w' q'. (if force then Some (forced_updates (libhoth_dfu_update getrandom usleep (Some (rot_device h)) (Some img) fl) 2 (w, q))
        else libhoth_dfu_install_firmware getrandom usleep (Some (rot_device h)) (Some img) fl (w, q)) =
      Some (HOTH_SUCCESS, (w', q')) \<and> both_slots img (version_resp_of_bytes (ver w'))"
  proof (cases force)
    case True
    then show ?thesis using forced_updates_both [OF assms(11,12,4,7), of w q] by simp
  next
    case False
    with assms(14) have "bl0_min_sec_ver resp \<le> security_version (bundle_app img)"
      and o: "outdated img (libhoth_ot_boot_app resp) (libhoth_ot_boot_romext resp)" by simp_all
    from install_outcome [OF assms(11,12,4,7,13) this(1), of q] o False show ?thesis by auto
  qed
  then obtain w' q' where up: "(if force then Some (forced_updates (libhoth_dfu_update getrandom usleep (Some (rot_device h)) (Some img) fl) 2 (w, q))
        else libhoth_dfu_install_firmware getrandom usleep (Some (rot_device h)) (Some img) fl (w, q)) =
      Some (HOTH_SUCCESS, (w', q'))" "both_slots img (version_resp_of_bytes (ver w'))" by (elim exE conjE)
  let ?body = "\<lambda>img d.
      case (if force then Some (forced_updates (libhoth_dfu_update getrandom usleep (Some (rot_device h)) (Some img) fl) 2 d)
            else libhoth_dfu_install_firmware getrandom usleep (Some (rot_device h)) (Some img) fl d) of
        None \<Rightarrow> None
      | Some (err, d) \<Rightarrow>
          if err \<noteq> HOTH_SUCCESS then map_option (\<lambda>(out, d). ((-1 :: int, out), d)) (libhoth_print_dfu_error stk (Some (rot_device h)) None err d)
          else Some ((0, []), d)"
  have "?body img (w, q) = Some ((0, []), (w', q'))" unfolding up(1) by simp
  moreover obtain f' where "with_image os name (-1, []) ?body (w, q) f = map_option (\<lambda>(r, d). (r, d, f')) (?body img (w, q))"
      "content f' = content f"
    using with_image_file [OF assms(2,3) ne, of "(-1, [])" ?body "(w, q)"] by (elim exE conjE)
  moreover have "htool_dfu_update stk getrandom usleep os env iv (w, q) f = with_image os name (-1, []) ?body (w, q) f"
    using assms(1) by (simp add: htool_dfu_update_def connected_def assms(5,6,8,9))
  ultimately have run: "htool_dfu_update stk getrandom usleep os env iv (w, q) f = Some ((0, []), (w', q'), f')" "content f' = content f"
    by simp_all
  then show ?thesis
    using dfu_check_both [OF assms(11,4) up(2) assms(1,2) _ ne assms(10), of f' stk q'] assms(3) up(2) by (metis (no_types, lifting))
qed

text \<open>The ROM_EXT that is booted is newer than that of the bundle here.\<close>

theorem dfu_update_then_check_witness:
  "\<exists>w' q' f' out q'' f''. htool_dfu_update [] (\<lambda>s. (Some \<lparr>low = 1, high = 2\<rparr>, s)) (\<lambda>_ s. s) memory_posix
      \<lparr>connect = (\<lambda>d. (Some (rot_device dfu_device), d)), un_supported = (\<lambda>_. 0), un_bytes_read = (\<lambda>_. 0)\<rparr>
      (demo_args [(''reset'', ''cold''), (''force'', ''true''), (''fwupdate-file'', ''fw'')])
      (([], (zero_version\<lparr>major := 9\<rparr>, zero_version), (zero_version, zero_version)), []) ([''fw'' \<mapsto> demo_bundle], []) =
        Some ((0, []), (w', q'), f') \<and>
    htool_dfu_check [] memory_posix
      \<lparr>connect = (\<lambda>d. (Some (rot_device dfu_device), d)), un_supported = (\<lambda>_. 0), un_bytes_read = (\<lambda>_. 0)\<rparr>
      (demo_args [(''fwupdate-file'', ''fw'')]) (w', q') f' = Some ((0, out), (w', q''), f'')"
proof -
  let ?env = "\<lparr>connect = (\<lambda>d. (Some (rot_device dfu_device), d)), un_supported = (\<lambda>_. 0), un_bytes_read = (\<lambda>_. 0)\<rparr>
    :: (dfu_world \<times> bytes) htool_dev"
  let ?iv = "demo_args [(''reset'', ''cold''), (''force'', ''true''), (''fwupdate-file'', ''fw'')]"
  let ?iv' = "demo_args [(''fwupdate-file'', ''fw'')]"
  let ?f = "([''fw'' \<mapsto> demo_bundle], []) :: named_contents \<times> string"
  have env: "connected ?env (rot_device dfu_device)" by (simp add: connected_def)
  have bundle_file: "fst ?f ''fw'' = Some demo_bundle" by simp
  have args: "htool_get_param_string ?iv ''reset'' = Inr ''cold''" "htool_get_param_bool ?iv ''force'' = Inr True"
    "htool_get_param_string ?iv ''fwupdate-file'' = Inr ''fw''" "htool_get_param_string ?iv' ''fwupdate-file'' = Inr ''fw''"
    by (simp_all add: htool_get_param_bool_def htool_get_param_string_def get_param_required_def get_param_def
      find_param_by_name_def demo_args_def)
  have fl: "dfu_complete_flags ''cold'' = Some HOTH_DFU_COMPLETE_FLAGS_COLD_RESTART" by (simp add: dfu_complete_flags_def)
  have r: "restarts HOTH_DFU_COMPLETE_FLAGS_COLD_RESTART"
    by (simp add: restarts_def HOTH_DFU_COMPLETE_FLAGS_COLD_RESTART_def HOTH_DFU_COMPLETE_FLAGS_WARM_RESTART_def)
  have os: "os_ok (\<lambda>s. (Some \<lparr>low = 1, high = 2\<rparr>, s)) (\<lambda>_ s. s)" by (simp add: os_ok_def)
  let ?w = "([], (zero_version\<lparr>major := 9\<rparr>, zero_version), (zero_version, zero_version)) :: dfu_world"
  note update = dfu_update_then_check [where env = ?env and h = dfu_device and os = memory_posix and content = fst and f = ?f
      and name = "''fw''" and img = demo_bundle and iv = ?iv and iv' = ?iv' and reset = "''cold''"
      and fl = HOTH_DFU_COMPLETE_FLAGS_COLD_RESTART and force = True and stage = fst and ver = dfu_versions
      and getrandom = "\<lambda>s. (Some \<lparr>low = 1, high = 2\<rparr>, s)" and usleep = "\<lambda>_ s. s"
      and resp = "version_resp_of_bytes (dfu_versions ?w)" and w = ?w and q = "[]" and stk = "[]"]
  from update [OF env memory_maps_files bundle_file demo_bundle_ok args(1) fl r args(2-4) dfu_device_conforms os refl disjI1 [OF TrueI]]
  show ?thesis by (elim exE conjE) (rule exI, rule exI, rule exI, rule exI, rule exI, rule exI, rule conjI, assumption+)
qed

end
