(* ===== verification/Spec2Isabelle.thy ===== *)
theory Spec2Isabelle
  imports Hoth_Prelude Hoth_Text Hoth_Status Hoth_Device Host_Cmd Rot_Commands Hoth_Util
    Payload_Info Payload_Update Spi_Proxy Rot_Peripherals Key_Rotation Provisioning Ot_Version
    Console Dfu Authz_Record Panic Posix_Io Mtd Spi Usb_Mailbox Usb_Fifo Usb Dbus
    Rot_Transports Htool_Cmd Htool_Table Stdio
    Htool_Security Htool_Security_Wire Htool_Certificates Attestation_Keys Htool_Tokens
    Attestation_Tokens Htool_Authz Htool_Usb
    Htool_Control Posix_Files Htool_Handlers Spi_Dump Htool_Raw Htool_Payload Htool_Images Htool_Dfu
begin

section \<open>The program\<close>

text \<open>
  libhoth is the library a host uses to talk to a Hoth root of trust, and \<open>htool\<close> is its command line
  program. The parts of the program, and how they work together:

  \<^item> A \<^emph>\<open>transport\<close> (\<open>src/transports\<close>) carries a request frame to the root of trust and a response
    frame back: over SPI, over an MTD device, over USB with a mailbox or a FIFO interface, or through a
    daemon on D-Bus. It fills a table of functions, \<open>struct libhoth_device\<close>, with its private state.
  \<^item> The \<^emph>\<open>framing\<close> (\<open>src/protocol/host_cmd.c\<close>) puts a header with a checksum in front of the
    parameters of a command, sends the frame through the table, and checks the response.
  \<^item> The \<^emph>\<open>commands\<close> (the other files of \<open>src/protocol\<close>) are functions that execute one host command, or
    a protocol of many: updating firmware, driving a flash chip behind the root of trust, key rotation,
    provisioning, the console, panic records, authorization records.
  \<^item> \<^emph>\<open>htool\<close> (\<open>src/examples\<close>) finds the command of its table that the command line calls, binds the
    parameters, connects to a device, runs the function of the command and prints or stores what it gets.

  A failure travels upwards as a 64-bit code of a context, a space and a code (\<open>protocol/status.c\<close>), or as
  the older \<open>int\<close> status that \<open>libhoth_hostcmd_exec\<close> makes of it.
\<close>

section \<open>The model\<close>

text \<open>
  \<^bold>\<open>Types.\<close> Integers of a fixed width are words, so sums wrap as in C; \<open>size_t\<close> is \<open>nat\<close> where the code
  cannot make it wrap and a 64-bit word where it can; memory and files are lists of bytes; a packed
  structure is a record with a function for its bytes, or its bytes with the offsets of the fields.
  A pointer that may be NULL is an option. \<open>Inl\<close> holds a failure, \<open>Inr\<close> a result. An outer option is
  \<open>None\<close> where the code has no defined result: an access outside an array, a failed assertion, an
  undefined shift or overflow of a signed integer, or a loop that never ends; which of these it is, the
  text at the head of each theory says. What an uninitialised variable or buffer holds is a parameter
  (\<open>stk\<close>, \<open>junk\<close>, \<open>un_\<dots>\<close>), so a theorem about the bytes sent or returned holds for every content.

  \<^bold>\<open>State.\<close> The functions take and return the state \<open>'s\<close> behind the device: the private state of the
  transport with whatever is connected to it. In theorems about a conforming device it is the state \<open>w\<close> of
  the firmware together with the frame that waits to be fetched, and the firmware is a handler \<open>h\<close> from
  command, version and parameters to a result and the response (\<open>Host_Cmd.rot_device\<close>).

  \<^bold>\<open>The world outside.\<close> libusb, sd-bus, \<open>ioctl\<close>, files, streams, the clock, sleeping, random numbers and
  the firmware are not part of the sources. They are parameters: records of functions on the state
  (\<open>posix\<close>, \<open>spi_posix\<close>, \<open>libusb\<close>, \<open>sd_bus\<close>, \<open>stdio\<close>, \<open>posix_files\<close>, \<open>htool_libusb\<close>, \<open>htool_dev\<close>).
  Where a theorem relies on how they behave, that is a named hypothesis (\<open>stores_files\<close>, \<open>connected\<close>,
  \<open>update_firmware\<close>, \<open>nor_firmware\<close>, \<open>staging_firmware\<close>, \<open>spi_memory\<close>, \<open>usb_ready\<close> and others), and the witness of the theorem evaluates it on a concrete
  instance.

  \<^bold>\<open>Loops.\<close> A loop over a buffer is a recursion on what is left, with its measure. A loop that need not
  end (waiting for a chip, an interrupted call, opening a busy device) is a \<open>partial_function\<close> into the
  option type, and \<open>None\<close> is a run that never returns. No function takes fuel; \<open>decode_transactions\<close> of the
  examples counts down the length of its input, which is at least the number of its elements.
\<close>

section \<open>The theories\<close>

text \<open>
  \<^bold>\<open>Shared.\<close>
  \<open>Hoth_Prelude\<close>: types, little-endian encoding, ranges of bytes, collections of facts, and the locale
  \<open>chunk_loop\<close> of a loop that passes a buffer on in pieces, which performs the list of its pieces until
  one fails. It is interpreted for the loops of DFU, key rotation and provisioning.
  \<open>Hoth_Text\<close>: \<open>printf\<close> conversions. \<open>Posix_Io\<close>, \<open>Posix_Files\<close>, \<open>Stdio\<close>: the interfaces of the system.

  \<^bold>\<open>Core.\<close>
  \<open>Hoth_Status\<close> (\<open>protocol/status.[ch]\<close>): construction of error codes, their parts and names.
  \<open>Hoth_Device\<close> (\<open>transports/libhoth_device.[ch]\<close>): the table, the wrappers, claiming with back-off, and
  the locale \<open>transport\<close>, the contract of every transport: a response that is reported as received fits
  its buffer. It is interpreted for MTD, SPI, USB, D-Bus and the model device.
  \<open>Host_Cmd\<close> (\<open>protocol/host_cmd.[ch]\<close>): frames, checksums, execution, the legacy wrapper. The locale
  \<open>host_command\<close> is what the protocol functions may rely on; \<open>rot_transport\<close> extends \<open>transport\<close> with a
  firmware behind it and shows that a host command then is a remote call.
  \<open>Hoth_Util\<close> (\<open>util.[ch]\<close>, \<open>progress.[ch]\<close>): writing in full, times, when progress is printed.

  \<^bold>\<open>Transports.\<close>
  \<open>Mtd\<close>, \<open>Spi\<close>, \<open>Usb\<close>, \<open>Usb_Mailbox\<close>, \<open>Usb_Fifo\<close>, \<open>Dbus\<close> (\<open>libhoth_mtd.c\<close>, \<open>libhoth_spi.c\<close>,
  \<open>libhoth_usb.c\<close>, \<open>libhoth_usb_mailbox.c\<close>, \<open>libhoth_usb_fifo.c\<close>, \<open>libhoth_dbus.c\<close>): every function. The
  lemmas show that a request arrives as it was sent and a response is the one that answers it, in spite of
  short and interrupted reads, of chips that are busy and of stale responses; sequences of operations are
  the inductive relations \<open>atomic_run\<close> and \<open>dbus_run\<close>, with their invariants. \<open>Rot_Transports\<close> interprets
  \<open>rot_transport\<close> for USB and D-Bus.

  \<^bold>\<open>Commands.\<close>
  \<open>Rot_Commands\<close>, \<open>Rot_Peripherals\<close>: commands of one call, with their checks and errors.
  \<open>Payload_Info\<close>, \<open>Payload_Update\<close>, \<open>Spi_Proxy\<close>, \<open>Key_Rotation\<close>, \<open>Provisioning\<close>, \<open>Ot_Version\<close>, \<open>Dfu\<close>,
  \<open>Console\<close>, \<open>Panic\<close>, \<open>Authz_Record\<close>: the files of the same names in \<open>src/protocol\<close> (\<open>Dfu\<close>:
  \<open>dfu_hostcmd.c\<close>, \<open>dfu_check.c\<close>; \<open>Ot_Version\<close>: \<open>opentitan_version.c\<close>). First the loops are shown to perform a list of
  requests, whatever the device answers; then what the list does to the memory of a conforming device.
  Parsers of files and of responses are shown to stay in bounds for every input, and to accept exactly
  the inputs of the stated form.

  \<^bold>\<open>htool.\<close>
  \<open>Htool_Cmd\<close> (\<open>htool_cmd.[ch]\<close>): the command line, numbers, times. \<open>Htool_Table\<close> (\<open>htool.c\<close>): the tables of
  commands and global flags, and that each command is reached with the parameters that were set last.
  \<open>Htool_Usb\<close> (\<open>htool_usb.c\<close>): the choice of a device.
  \<open>Htool_Security\<close>, \<open>Htool_Security_Wire\<close> (\<open>htool_security_v2.c\<close>, \<open>htool_security_version.c\<close>): commands with
  lists of parameters, their encodings, bounds and meaning as a remote call. On top of them
  \<open>Htool_Certificates\<close>, \<open>Attestation_Keys\<close> (\<open>htool_security_certificates.c\<close>) and \<open>Htool_Tokens\<close>,
  \<open>Attestation_Tokens\<close> (\<open>htool_security_tokens.c\<close>): what ends up in the files and in the root of trust.
  \<open>Htool_Authz\<close> (\<open>htool_authz_command.c\<close>, \<open>htool_srtm.c\<close>, commands of \<open>htool.c\<close>): texts of signed commands and
  measurements. \<open>Htool_Control\<close> (\<open>htool_target_control.c\<close>, \<open>htool_sbs_single.c\<close>, \<open>htool_sbs_dual.c\<close>,
  \<open>htool_rot_usb.c\<close>, \<open>htool_debug.c\<close>, \<open>htool_tpm.c\<close>, \<open>htool_secure_boot.c\<close>, \<open>htool_target_watchdog.c\<close>,
  \<open>htool_firmware_update.c\<close>, \<open>htool_update_session.c\<close>) and \<open>Htool_Handlers\<close> (commands of \<open>htool.c\<close>): the
  commands with what they print. \<open>Spi_Dump\<close>: reading and updating the flash through the proxy, and dumping
  and updating it, from the file to the chip.
  \<open>Htool_Payload\<close> (\<open>htool_payload_update.c\<close>), \<open>Htool_Images\<close> (\<open>htool_payload.c\<close>, \<open>htool_mauv.c\<close>) and \<open>Htool_Dfu\<close>
  (\<open>htool_dfu.c\<close>): updating from files, and what is printed about images and versions. \<open>Htool_Raw\<close>
  (\<open>htool_raw_host_command.c\<close>): passing host commands from the standard input on and their responses back.
\<close>

section \<open>Bounds\<close>

text \<open>
  The sizes that theorems mention are those of the code: 1024 bytes of mailbox, 8 bytes of header, so at
  most 1016 bytes of parameters; 1012 bytes after a position or a parameter header; 65536 bytes in a
  chunk of \<open>command_spi_read\<close>; 4096 bytes in a sector and 256 in a page of a NOR flash. Hypotheses such as
  \<open>unat start + length data \<le> 2 ^ 32 - 65536\<close> keep the 32-bit address of the code from wrapping
  around; beyond them the functions are still defined, and wrap as the code does.
\<close>

section \<open>What is not modelled\<close>

text \<open>
  Of \<open>src/examples\<close>: commands that only copy between the library and files or print what a function of
  the library returned: \<open>htool_console.c\<close> (the terminal), \<open>htool_key_rotation.c\<close>, \<open>htool_provisioning.c\<close>,
  \<open>htool_i2c.c\<close>, \<open>htool_jtag.c\<close>, \<open>htool_panic.c\<close>, \<open>htool_statistics.c\<close>, \<open>htool_security_info.c\<close>; and opening the SPI, MTD and D-Bus devices that the global flags name
  (\<open>htool_spi.c\<close>, \<open>htool_mtd.c\<close>, \<open>htool_dbus.c\<close>, \<open>htool_libhoth_device\<close>), which is the parameter \<open>connect\<close>.

  Everywhere: messages to the standard error; the percentages of the progress display, which are floating
  point; the random seed from \<open>/dev/urandom\<close>; allocation failures, unless the code's reaction is modelled
  (\<open>Dbus\<close>); concurrency, which the library does not have: the waiting for another client of a device
  is claiming with back-off; that shifting a byte into the sign bit of an \<open>int\<close> is undefined (the offsets in
  \<open>opentitan_version.c\<close> are read as if it wrapped). The tables of the transports have no value for a call that
  never returns: there it is an error, while the functions themselves yield \<open>None\<close>. The findings of \<open>PROJECT.json\<close> are places where the code does something else
  than it means to; the definitions follow the code there.
\<close>

end
